(* ===== verification/Py_Prelude.thy ===== *)
theory Py_Prelude
  imports Complex_Main "HOL-Library.List_Lexorder" "HOL-Library.Char_ord" "HOL-Library.Sublist"
begin

text \<open>
  What the components share: the Python string, number, list and dict operations the
  backend uses, as executable definitions, with the lemmas that carry the component proofs.

  A Python \<open>str\<close> is its UTF-8 text, a list of bytes. Case mapping and white space act on
  the ASCII bytes and leave every other byte alone, so a non-ASCII letter keeps its case and
  a length counts bytes. A Python \<open>float\<close> is a \<^typ>\<open>real\<close>: arithmetic is exact, so rounding
  errors of IEEE doubles, infinities and NaN are outside the model, and \<open>round(x, n)\<close> is
  rounding half to even at \<open>n\<close> decimals. An instant is an \<^typ>\<open>int\<close>, microseconds from a
  fixed UTC origin. A dict is an association list in insertion order.
\<close>

section \<open>Names of the model's types\<close>

type_synonym uuid = string
type_synonym instant = int
type_synonym 'v dict = "(string \<times> 'v) list"

named_theorems py_defs \<open>definitions of the Python operations\<close>
named_theorems guards \<open>what an accepted call says of its arguments\<close>

section \<open>Strings\<close>

definition char_code :: "char \<Rightarrow> nat" where
  "char_code c = of_char c"

definition is_space :: "char \<Rightarrow> bool" where
  "is_space c = (let n = char_code c in (9 \<le> n \<and> n \<le> 13) \<or> (28 \<le> n \<and> n \<le> 32))"

definition lower_char :: "char \<Rightarrow> char" where
  "lower_char c = (let n = char_code c in if 65 \<le> n \<and> n \<le> 90 then char_of (n + 32) else c)"

definition upper_char :: "char \<Rightarrow> char" where
  "upper_char c = (let n = char_code c in if 97 \<le> n \<and> n \<le> 122 then char_of (n - 32) else c)"

definition lower :: "string \<Rightarrow> string" where
  "lower s = map lower_char s"

fun capitalize :: "string \<Rightarrow> string" where
  "capitalize [] = []"
| "capitalize (c # cs) = upper_char c # lower cs"

definition lstrip :: "string \<Rightarrow> string" where
  "lstrip s = dropWhile is_space s"

definition rstrip :: "string \<Rightarrow> string" where
  "rstrip s = rev (dropWhile is_space (rev s))"

definition strip :: "string \<Rightarrow> string" where
  "strip s = rstrip (lstrip s)"

definition startswith :: "string \<Rightarrow> string \<Rightarrow> bool" where
  "startswith s p = (take (length p) s = p)"

text \<open>\<open>p in s\<close> on strings.\<close>

fun contains :: "string \<Rightarrow> string \<Rightarrow> bool" where
  "contains [] p = (p = [])"
| "contains (c # cs) p = (startswith (c # cs) p \<or> contains cs p)"

text \<open>\<open>s.replace(old, new)\<close> for a one-byte \<open>old\<close>.\<close>

definition replace_char :: "char \<Rightarrow> string \<Rightarrow> string \<Rightarrow> string" where
  "replace_char a b s = concat (map (\<lambda>c. if c = a then b else [c]) s)"

text \<open>\<open>s.replace(old, new)\<close> for a non-empty \<open>old\<close>: left to right, without overlaps.\<close>

function replace_str :: "string \<Rightarrow> string \<Rightarrow> string \<Rightarrow> string" where
  "replace_str old new s =
     (if s = [] then []
      else if old \<noteq> [] \<and> startswith s old then new @ replace_str old new (drop (length old) s)
      else hd s # replace_str old new (tl s))"
  by pat_completeness auto
termination
  by (relation "measure (\<lambda>(old, new, s). length s)") auto

declare replace_str.simps [simp del]

text \<open>\<open>s.split(sep)\<close> for a one-byte separator: always at least one part.\<close>

fun split_on :: "char \<Rightarrow> string \<Rightarrow> string list" where
  "split_on d [] = [[]]"
| "split_on d (c # cs) =
     (if c = d then [] # split_on d cs
      else (case split_on d cs of [] \<Rightarrow> [[c]] | p # ps \<Rightarrow> (c # p) # ps))"

fun join :: "string \<Rightarrow> string list \<Rightarrow> string" where
  "join sep [] = []"
| "join sep [x] = x"
| "join sep (x # y # zs) = x @ sep @ join sep (y # zs)"

text \<open>\<open>s.split()\<close>: maximal runs of non-space characters.\<close>

fun words_acc :: "string \<Rightarrow> string \<Rightarrow> string list" where
  "words_acc acc [] = (if acc = [] then [] else [rev acc])"
| "words_acc acc (c # cs) =
     (if is_space c then (if acc = [] then words_acc [] cs else rev acc # words_acc [] cs)
      else words_acc (c # acc) cs)"

definition split_ws :: "string \<Rightarrow> string list" where
  "split_ws s = words_acc [] s"

text \<open>Decimal text of a natural number, \<open>str(n)\<close>.\<close>

definition digit_char :: "nat \<Rightarrow> char" where
  "digit_char d = char_of (48 + d)"

fun nat_str :: "nat \<Rightarrow> string" where
  "nat_str n = (if n < 10 then [digit_char n] else nat_str (n div 10) @ [digit_char (n mod 10)])"

declare nat_str.simps [simp del]

definition int_str :: "int \<Rightarrow> string" where
  "int_str i = (if i < 0 then ''-'' @ nat_str (nat (- i)) else nat_str (nat i))"

definition is_digit :: "char \<Rightarrow> bool" where
  "is_digit c = (let n = char_code c in 48 \<le> n \<and> n \<le> 57)"

section \<open>Python values\<close>

text \<open>
  The values that reach the code untyped: decoded JSON, JSONB columns, connector output,
  fields read with \<open>getattr\<close>. \<open>PObj\<close> is an instance of any other class.
\<close>

datatype pyval =
    PNone
  | PBool bool
  | PInt int
  | PFloat real
  | PStr string
  | PBytes "char list"
  | PTime instant
  | PList "pyval list"
  | PDict "(string \<times> pyval) list"
  | PObj string

fun py_truthy :: "pyval \<Rightarrow> bool" where
  "py_truthy PNone = False"
| "py_truthy (PBool b) = b"
| "py_truthy (PInt i) = (i \<noteq> 0)"
| "py_truthy (PFloat r) = (r \<noteq> 0)"
| "py_truthy (PStr s) = (s \<noteq> [])"
| "py_truthy (PBytes s) = (s \<noteq> [])"
| "py_truthy (PTime _) = True"
| "py_truthy (PList xs) = (xs \<noteq> [])"
| "py_truthy (PDict d) = (d \<noteq> [])"
| "py_truthy (PObj _) = True"

text \<open>Optional strings: Python's truth test and \<open>x or d\<close>.\<close>

definition str_truthy :: "string option \<Rightarrow> bool" where
  "str_truthy x = (case x of None \<Rightarrow> False | Some s \<Rightarrow> s \<noteq> [])"

definition str_or :: "string option \<Rightarrow> string \<Rightarrow> string" where
  "str_or x d = (case x of None \<Rightarrow> d | Some s \<Rightarrow> if s = [] then d else s)"

lemma str_truthy_simps [simp]: "\<not> str_truthy None" "str_truthy (Some s) \<longleftrightarrow> s \<noteq> []"
  by (simp_all add: str_truthy_def)

lemma str_or_simps [simp]: "str_or None d = d" "str_or (Some s) d = (if s = [] then d else s)"
  by (simp_all add: str_or_def)

section \<open>Dicts\<close>

fun dset :: "'v dict \<Rightarrow> string \<Rightarrow> 'v \<Rightarrow> 'v dict" where
  "dset [] k v = [(k, v)]"
| "dset ((k', v') # d) k v = (if k' = k then (k, v) # d else (k', v') # dset d k v)"

definition dget :: "'v dict \<Rightarrow> string \<Rightarrow> 'v option" where
  "dget d k = map_of d k"

definition dupdate :: "'v dict \<Rightarrow> 'v dict \<Rightarrow> 'v dict" where
  "dupdate d e = foldl (\<lambda>acc (k, v). dset acc k v) d e"

text \<open>\<open>list(dict.fromkeys(xs))\<close>: the first occurrences, in order.\<close>

fun dedupe_acc :: "'a list \<Rightarrow> 'a list \<Rightarrow> 'a list" where
  "dedupe_acc seen [] = []"
| "dedupe_acc seen (x # xs) =
     (if x \<in> set seen then dedupe_acc seen xs else x # dedupe_acc (x # seen) xs)"

definition fromkeys :: "'a list \<Rightarrow> 'a list" where
  "fromkeys xs = dedupe_acc [] xs"

section \<open>Numbers\<close>

definition clamp :: "real \<Rightarrow> real \<Rightarrow> real \<Rightarrow> real" where
  "clamp lo hi x = max lo (min hi x)"

definition clamp01 :: "real \<Rightarrow> real" where
  "clamp01 x = clamp 0 1 x"

definition half_even :: "real \<Rightarrow> int" where
  "half_even x =
     (let f = \<lfloor>x\<rfloor>; d = x - of_int f
      in if d < 1 / 2 then f else if d > 1 / 2 then f + 1 else if even f then f else f + 1)"

definition py_round :: "nat \<Rightarrow> real \<Rightarrow> real" where
  "py_round n x = of_int (half_even (x * 10 ^ n)) / 10 ^ n"

definition sum_real :: "real list \<Rightarrow> real" where
  "sum_real xs = foldl (+) 0 xs"

definition mean_or :: "real \<Rightarrow> real list \<Rightarrow> real" where
  "mean_or dflt xs = (if xs = [] then dflt else sum_real xs / real (length xs))"

section \<open>Instants and durations\<close>

definition us_second :: int where "us_second = 1000000"
definition us_minute :: int where "us_minute = 60 * us_second"
definition us_hour :: int where "us_hour = 60 * us_minute"
definition us_day :: int where "us_day = 24 * us_hour"

text \<open>\<open>(a - b).days\<close> floors.\<close>

definition days_between :: "instant \<Rightarrow> instant \<Rightarrow> int" where
  "days_between a b = (a - b) div us_day"

text \<open>\<open>int(d.total_seconds())\<close> truncates toward zero.\<close>

definition whole_seconds :: "int \<Rightarrow> int" where
  "whole_seconds d = (if 0 \<le> d then d div us_second else - ((- d) div us_second))"

lemmas us_defs = us_second_def us_minute_def us_hour_def us_day_def

section \<open>Lemmas on dicts and lists\<close>

lemma dget_Nil [simp]: "dget [] k = None"
  by (simp add: dget_def)

lemma dget_Cons [simp]: "dget ((k', v) # d) k = (if k = k' then Some v else dget d k)"
  by (auto simp: dget_def)

lemma dget_dset [simp]: "dget (dset d k v) k' = (if k' = k then Some v else dget d k')"
  by (induction d k v rule: dset.induct) auto

lemma keys_dset: "fst ` set (dset d k v) = insert k (fst ` set d)"
  by (induction d k v rule: dset.induct) auto

lemma distinct_keys_dset: "distinct (map fst d) \<Longrightarrow> distinct (map fst (dset d k v))"
proof (induction d k v rule: dset.induct)
  case (2 k' v' d k v)
  then show ?case by (auto simp: keys_dset)
qed simp

lemma dget_None_iff: "dget d k = None \<longleftrightarrow> k \<notin> fst ` set d"
  by (simp add: dget_def map_of_eq_None_iff)

lemma dget_SomeD: "dget d k = Some v \<Longrightarrow> (k, v) \<in> set d"
  by (simp add: dget_def map_of_SomeD)

lemma dget_dupdate:
  "distinct (map fst e) \<Longrightarrow>
   dget (dupdate d e) k = (case dget e k of Some v \<Rightarrow> Some v | None \<Rightarrow> dget d k)"
proof (induction e arbitrary: d)
  case Nil
  then show ?case by (simp add: dupdate_def)
next
  case (Cons kv e)
  obtain k0 v0 where [simp]: "kv = (k0, v0)" by force
  have "dget (dupdate d (kv # e)) k = dget (dupdate (dset d k0 v0) e) k"
    by (simp add: dupdate_def)
  also have "\<dots> = (case dget e k of Some v \<Rightarrow> Some v | None \<Rightarrow> dget (dset d k0 v0) k)"
    using Cons by simp
  moreover have "dget e k0 = None"
    using Cons.prems by (auto simp: dget_None_iff)
  ultimately show ?case by (auto split: option.splits)
qed

lemma set_dedupe_acc: "set (dedupe_acc seen xs) = set xs - set seen"
  by (induction seen xs rule: dedupe_acc.induct) auto

lemma distinct_dedupe_acc: "distinct (dedupe_acc seen xs)"
  by (induction seen xs rule: dedupe_acc.induct) (auto simp: set_dedupe_acc)

lemma set_fromkeys [simp]: "set (fromkeys xs) = set xs"
  by (simp add: fromkeys_def set_dedupe_acc)

lemma distinct_fromkeys [simp]: "distinct (fromkeys xs)"
  by (simp add: fromkeys_def distinct_dedupe_acc)

lemma dedupe_acc_distinct:
  "distinct xs \<Longrightarrow> set xs \<inter> set seen = {} \<Longrightarrow> dedupe_acc seen xs = xs"
  by (induction seen xs rule: dedupe_acc.induct) auto

lemma fromkeys_distinct [simp]: "distinct xs \<Longrightarrow> fromkeys xs = xs"
  by (simp add: fromkeys_def dedupe_acc_distinct)

section \<open>Lemmas on strings\<close>

lemma lower_Nil [simp]: "lower [] = []"
  by (simp add: lower_def)

lemma lower_eq_Nil [simp]: "lower s = [] \<longleftrightarrow> s = []"
  by (simp add: lower_def)

lemma length_lower [simp]: "length (lower s) = length s"
  by (simp add: lower_def)

lemma lower_char_idem [simp]: "lower_char (lower_char c) = lower_char c"
  by (simp add: lower_char_def char_code_def Let_def)

lemma lower_idem [simp]: "lower (lower s) = lower s"
  by (simp add: lower_def)

lemma lstrip_idem [simp]: "lstrip (lstrip s) = lstrip s"
  by (simp add: lstrip_def)

lemma rstrip_idem [simp]: "rstrip (rstrip s) = rstrip s"
  by (simp add: rstrip_def)

lemma dropWhile_append_last:
  "\<not> P c \<Longrightarrow> dropWhile P (xs @ [c]) = dropWhile P xs @ [c]"
  by (induction xs) auto

lemma lstrip_rstrip: "lstrip (rstrip (lstrip s)) = rstrip (lstrip s)"
proof (cases "lstrip s")
  case Nil
  have "lstrip [] = []" "rstrip [] = []" by (simp_all add: rstrip_def lstrip_def)
  with Nil show ?thesis by simp
next
  case (Cons c cs)
  then have nsp: "\<not> is_space c"
    unfolding lstrip_def using hd_dropWhile [of is_space s] by auto
  then obtain ds where "dropWhile is_space (rev cs @ [c]) = ds @ [c]"
    using dropWhile_append_last [of is_space c "rev cs"] by metis
  then have "rstrip (lstrip s) = c # rev ds"
    using Cons by (simp add: rstrip_def)
  with nsp show ?thesis by (simp add: lstrip_def)
qed

lemma strip_idem [simp]: "strip (strip s) = strip s"
  by (simp add: strip_def lstrip_rstrip)

lemma split_on_ne [simp]: "split_on d s \<noteq> []"
  by (induction d s rule: split_on.induct) (auto split: list.splits)

section \<open>Lemmas on numbers\<close>

lemma clamp_bounds: "lo \<le> hi \<Longrightarrow> lo \<le> clamp lo hi x \<and> clamp lo hi x \<le> hi"
  by (simp add: clamp_def)

lemma clamp01_bounds [simp]: "0 \<le> clamp01 x" "clamp01 x \<le> 1"
  by (simp_all add: clamp01_def clamp_def)

lemma clamp01_id: "0 \<le> x \<Longrightarrow> x \<le> 1 \<Longrightarrow> clamp01 x = x"
  by (simp add: clamp01_def clamp_def)

lemma half_even_of_int [simp]: "half_even (of_int i) = i"
  by (simp add: half_even_def)

lemma half_even_le: "x \<le> of_int i \<Longrightarrow> half_even x \<le> i"
proof -
  assume le: "x \<le> of_int i"
  then have "\<lfloor>x\<rfloor> \<le> i" by (simp add: floor_le_iff)
  moreover have "\<lfloor>x\<rfloor> = i \<Longrightarrow> x - of_int \<lfloor>x\<rfloor> \<le> 0"
    using le by simp
  ultimately show ?thesis
    by (cases "\<lfloor>x\<rfloor> = i") (auto simp: half_even_def Let_def)
qed

lemma half_even_ge: "of_int i \<le> x \<Longrightarrow> i \<le> half_even x"
proof -
  assume "of_int i \<le> x"
  then have "i \<le> \<lfloor>x\<rfloor>" by (simp add: le_floor_iff)
  then show ?thesis by (auto simp: half_even_def Let_def)
qed

lemma half_even_mono: "x \<le> y \<Longrightarrow> half_even x \<le> half_even y"
proof -
  assume le: "x \<le> y"
  then have fl: "\<lfloor>x\<rfloor> \<le> \<lfloor>y\<rfloor>" by (rule floor_mono)
  show ?thesis
  proof (cases "\<lfloor>x\<rfloor> = \<lfloor>y\<rfloor>")
    case True
    with le show ?thesis by (auto simp: half_even_def Let_def)
  next
    case False
    with fl have "\<lfloor>x\<rfloor> + 1 \<le> \<lfloor>y\<rfloor>" by simp
    moreover have "half_even x \<le> \<lfloor>x\<rfloor> + 1" "\<lfloor>y\<rfloor> \<le> half_even y"
      by (auto simp: half_even_def Let_def)
    ultimately show ?thesis by linarith
  qed
qed

lemma half_even_error: "\<bar>of_int (half_even x) - x\<bar> \<le> 1 / 2"
proof -
  define f :: real where "f = of_int \<lfloor>x\<rfloor>"
  have "f \<le> x" "x < f + 1" unfolding f_def by linarith+
  moreover have "of_int (half_even x) = f \<and> x - f \<le> 1 / 2
      \<or> of_int (half_even x) = f + 1 \<and> 1 / 2 \<le> x - f"
    unfolding half_even_def Let_def f_def by (auto simp: not_less)
  ultimately show ?thesis by (auto simp: abs_real_def)
qed

lemma py_round_mono: "x \<le> y \<Longrightarrow> py_round n x \<le> py_round n y"
  unfolding py_round_def
  by (intro divide_right_mono) (auto intro: half_even_mono mult_right_mono)

lemma py_round_of_int [simp]: "py_round n (of_int i) = of_int i"
proof -
  have eq: "(of_int i * 10 ^ n :: real) = of_int (i * 10 ^ n)" by simp
  show ?thesis by (simp only: py_round_def eq half_even_of_int) simp
qed

lemma py_round_0 [simp]: "py_round n 0 = 0"
  using py_round_of_int [of n 0] by simp

lemma py_round_1 [simp]: "py_round n 1 = 1"
  using py_round_of_int [of n 1] by simp

lemma py_round_numeral [simp]: "py_round n (numeral k) = numeral k"
  using py_round_of_int [of n "numeral k"] by simp

lemma py_round_nonneg: "0 \<le> x \<Longrightarrow> 0 \<le> py_round n x"
  using py_round_mono [of 0 x n] by simp

lemma py_round_le1: "x \<le> 1 \<Longrightarrow> py_round n x \<le> 1"
  using py_round_mono [of x 1 n] by simp

lemma py_round_le_numeral: "x \<le> numeral k \<Longrightarrow> py_round n x \<le> numeral k"
  using py_round_mono [of x "numeral k" n] by simp

lemma py_round_error: "\<bar>py_round n x - x\<bar> \<le> 1 / (2 * 10 ^ n)"
proof -
  define p :: real where "p = 10 ^ n"
  have p: "0 < p" by (simp add: p_def)
  have "py_round n x - x = (of_int (half_even (x * p)) - x * p) / p"
    using p unfolding py_round_def p_def [symmetric] by (simp add: diff_divide_distrib)
  then have "\<bar>py_round n x - x\<bar> = \<bar>of_int (half_even (x * p)) - x * p\<bar> / p"
    using p by (simp add: abs_divide)
  also have "\<dots> \<le> (1 / 2) / p"
    using p by (intro divide_right_mono half_even_error) simp
  finally show ?thesis by (simp add: p_def)
qed

lemma py_round_idem [simp]: "py_round n (py_round n x) = py_round n x"
  by (simp add: py_round_def)

lemma foldl_plus: "foldl (+) (a :: real) xs = a + sum_list xs"
  by (induction xs arbitrary: a) (simp_all add: add.assoc)

lemma sum_real_sum_list: "sum_real xs = sum_list xs"
  by (simp add: sum_real_def foldl_plus)

lemma sum_real_Nil [simp]: "sum_real [] = 0"
  by (simp add: sum_real_sum_list)

lemma sum_real_Cons [simp]: "sum_real (x # xs) = x + sum_real xs"
  by (simp add: sum_real_sum_list)

lemma sum_real_append [simp]: "sum_real (xs @ ys) = sum_real xs + sum_real ys"
  by (simp add: sum_real_sum_list)

lemma sum_real_nonneg: "(\<And>x. x \<in> set xs \<Longrightarrow> 0 \<le> x) \<Longrightarrow> 0 \<le> sum_real xs"
  by (induction xs) auto

lemma sum_real_le: "(\<And>x. x \<in> set xs \<Longrightarrow> x \<le> b) \<Longrightarrow> sum_real xs \<le> b * real (length xs)"
proof (induction xs)
  case (Cons x xs)
  then have "x \<le> b" "sum_real xs \<le> b * real (length xs)" by simp_all
  then show ?case by (simp add: algebra_simps)
qed simp

lemma sum_real_ge: "(\<And>x. x \<in> set xs \<Longrightarrow> b \<le> x) \<Longrightarrow> b * real (length xs) \<le> sum_real xs"
proof (induction xs)
  case (Cons x xs)
  then have "b \<le> x" "b * real (length xs) \<le> sum_real xs" by simp_all
  then show ?case by (simp add: algebra_simps)
qed simp

lemma mean_or_bounds:
  assumes "\<And>x. x \<in> set xs \<Longrightarrow> lo \<le> x \<and> x \<le> hi" and "lo \<le> d" "d \<le> hi"
  shows "lo \<le> mean_or d xs \<and> mean_or d xs \<le> hi"
proof (cases "xs = []")
  case False
  then have "0 < real (length xs)" by simp
  moreover have "lo * real (length xs) \<le> sum_real xs" "sum_real xs \<le> hi * real (length xs)"
    using assms(1) by (auto intro: sum_real_le sum_real_ge)
  ultimately show ?thesis
    using False by (simp add: mean_or_def pos_le_divide_eq pos_divide_le_eq)
qed (use assms in \<open>simp add: mean_or_def\<close>)

end
