(* ===== verification/Lifecycle.thy ===== *)
theory Lifecycle
  imports Py_Prelude
begin

text \<open>
  The deal lifecycle contract of \<^verbatim>\<open>app/lifecycle.py\<close>: the stage table, the transition test
  and the helpers on stages, all over stage keys as strings, since the code accepts any
  string. An abstract machine over a datatype of stages states what the table promises, and
  the string-level test is proved to implement it.
\<close>

section \<open>The stage table\<close>

record lifecycle_definition =
  ld_key :: string
  ld_label :: string
  ld_lane :: string
  ld_entry :: "string list"
  ld_exit :: "string list"
  ld_actors :: "string list"
  ld_transitions :: "string list"

definition mk_definition ::
  "string \<Rightarrow> string \<Rightarrow> string \<Rightarrow> string list \<Rightarrow> string list \<Rightarrow> string list \<Rightarrow> string list
   \<Rightarrow> lifecycle_definition" where
  "mk_definition k lb lane ent ext act tr =
     \<lparr>ld_key = k, ld_label = lb, ld_lane = lane, ld_entry = ent, ld_exit = ext,
      ld_actors = act, ld_transitions = tr\<rparr>"

definition lifecycle_definitions :: "lifecycle_definition list" where
  "lifecycle_definitions = [
    mk_definition ''discovered'' ''Discovered'' ''outbound''
      [''Canonical person identity exists'', ''At least one source signal is stored'']
      [''Signal composite crosses the configured threshold'']
      [''pipeline:auto''] [''interesting'', ''closed''],
    mk_definition ''interesting'' ''Interesting'' ''outbound''
      [''Signal threshold has been crossed'']
      [''Investigation budget is available'']
      [''pipeline:auto''] [''investigating'', ''closed''],
    mk_definition ''investigating'' ''Investigating'' ''outbound''
      [''Opportunity is linked to a canonical founder'']
      [''Research, Founder Score, and processing jobs are queued'']
      [''pipeline:auto''] [''contacted'', ''received'', ''closed''],
    mk_definition ''contacted'' ''Contacted'' ''outbound''
      [''A reviewable outreach draft exists'']
      [''Provider-confirmed contact or founder submission exists'']
      [''pipeline:auto'', ''human''] [''received'', ''closed''],
    mk_definition ''received'' ''Received'' ''inbound''
      [''Validated inbound submission or confirmed founder response exists'']
      [''Scoped processing claims exist'']
      [''pipeline:auto''] [''triage'', ''closed''],
    mk_definition ''triage'' ''Triage'' ''inbound''
      [''Received opportunity has scoped accepted claims'']
      [''Person-level Founder Score exists'']
      [''pipeline:auto''] [''screening'', ''closed''],
    mk_definition ''screening'' ''Screening'' ''inbound''
      [''Triage output and Founder Score exist'']
      [''Founder, Market, and Idea-Market assessments exist'']
      [''pipeline:auto''] [''diligence'', ''closed''],
    mk_definition ''diligence'' ''Diligence'' ''inbound''
      [''Three opportunity axes are persisted'']
      [''A validated succeeded memo exists'']
      [''pipeline:auto'', ''human''] [''memo_ready'', ''closed''],
    mk_definition ''memo_ready'' ''Memo ready'' ''decision''
      [''Validated succeeded memo exists'']
      [''Human decision is recorded with a reason'']
      [''pipeline:auto'', ''human''] [''hold'', ''approved'', ''closed''],
    mk_definition ''hold'' ''On hold'' ''decision''
      [''Human hold decision includes a reason'']
      [''Human resumes or closes the opportunity'']
      [''human''] [''approved'', ''closed''],
    mk_definition ''approved'' ''Approved'' ''terminal''
      [''Human proceed decision references the memo and evidence'']
      []
      [''human''] [],
    mk_definition ''closed'' ''Closed'' ''terminal''
      [''Human decline or explicit system timeout has a reason'']
      []
      [''human'', ''pipeline:auto''] []]"

definition stages :: "string list" where
  "stages = map ld_key lifecycle_definitions"

definition transitions :: "string list dict" where
  "transitions = map (\<lambda>d. (ld_key d, ld_transitions d)) lifecycle_definitions"

definition outbound_stages :: "string list" where
  "outbound_stages = map ld_key (filter (\<lambda>d. ld_lane d = ''outbound'') lifecycle_definitions)"

definition inbound_stages :: "string list" where
  "inbound_stages = map ld_key
     (filter (\<lambda>d. ld_lane d \<in> {''inbound'', ''decision'', ''terminal''}) lifecycle_definitions)"

section \<open>Operations\<close>

definition is_valid_transition :: "string \<Rightarrow> string \<Rightarrow> bool" where
  "is_valid_transition prior new =
     (if prior = new then True
      else (case dget transitions prior of None \<Rightarrow> False | Some ts \<Rightarrow> new \<in> set ts))"

definition is_outbound :: "string \<Rightarrow> bool" where
  "is_outbound stage = (stage \<in> set outbound_stages)"

definition is_inbound :: "string \<Rightarrow> bool" where
  "is_inbound stage = (stage \<in> set inbound_stages)"

definition is_memo_ready :: "string \<Rightarrow> bool" where
  "is_memo_ready status = (status = ''succeeded'')"

text \<open>The em dash the code joins a base reason and its detail with, in UTF-8.\<close>

definition em_dash :: string where
  "em_dash = [CHR 0xE2, CHR 0x80, CHR 0x94]"

definition reason_labels :: "string dict" where
  "reason_labels = [
    (''interesting'', ''Signal crossed interesting threshold''),
    (''investigating'', ''Investigation started''),
    (''contacted'', ''Outreach contact stage''),
    (''received'', ''Inbound application received''),
    (''memo_ready'', ''Investment memo generated''),
    (''approved'', ''Investment approved''),
    (''closed'', ''Opportunity closed'')]"

definition stage_labels :: "string dict" where
  "stage_labels = map (\<lambda>d. (ld_key d, ld_label d)) lifecycle_definitions"

definition advance_reason :: "string \<Rightarrow> string \<Rightarrow> string \<Rightarrow> string" where
  "advance_reason prior new detail =
     (let base = (case dget reason_labels new of Some r \<Rightarrow> r
                  | None \<Rightarrow> (case dget stage_labels new of Some l \<Rightarrow> l | None \<Rightarrow> new))
      in if detail \<noteq> [] then base @ '' '' @ em_dash @ '' '' @ detail else base)"

definition timestamp_source :: string where
  "timestamp_source =
     ''Opportunity.created_at for initial entry; DecisionEvent.created_at for transitions''"

definition contract_item :: "lifecycle_definition \<Rightarrow> pyval" where
  "contract_item d = PDict [
     (''key'', PStr (ld_key d)), (''label'', PStr (ld_label d)), (''lane'', PStr (ld_lane d)),
     (''entry_requirements'', PList (map PStr (ld_entry d))),
     (''exit_requirements'', PList (map PStr (ld_exit d))),
     (''actors'', PList (map PStr (ld_actors d))),
     (''transitions'', PList (map PStr (ld_transitions d))),
     (''timestamp_source'', PStr timestamp_source)]"

definition lifecycle_contract :: "pyval dict" where
  "lifecycle_contract = [
     (''version'', PStr ''unified-v2''),
     (''stages'', PList (map contract_item lifecycle_definitions))]"

section \<open>The abstract machine\<close>

datatype stage = Discovered | Interesting | Investigating | Contacted | Received | Triage | Screening | Diligence | MemoReady | Hold | Approved | Closed

fun stage_key :: "stage \<Rightarrow> string" where
  "stage_key Discovered = ''discovered''"
| "stage_key Interesting = ''interesting''"
| "stage_key Investigating = ''investigating''"
| "stage_key Contacted = ''contacted''"
| "stage_key Received = ''received''"
| "stage_key Triage = ''triage''"
| "stage_key Screening = ''screening''"
| "stage_key Diligence = ''diligence''"
| "stage_key MemoReady = ''memo_ready''"
| "stage_key Hold = ''hold''"
| "stage_key Approved = ''approved''"
| "stage_key Closed = ''closed''"

fun stage_rank :: "stage \<Rightarrow> nat" where
  "stage_rank Discovered = 0"
| "stage_rank Interesting = 1"
| "stage_rank Investigating = 2"
| "stage_rank Contacted = 3"
| "stage_rank Received = 4"
| "stage_rank Triage = 5"
| "stage_rank Screening = 6"
| "stage_rank Diligence = 7"
| "stage_rank MemoReady = 8"
| "stage_rank Hold = 9"
| "stage_rank Approved = 10"
| "stage_rank Closed = 11"

definition terminal_stage :: "stage \<Rightarrow> bool" where
  "terminal_stage s = (s \<in> {Approved, Closed})"

text \<open>
  One rule per kind of move: the sourcing path, the two ways an outbound deal turns inbound,
  the inbound path, the human decisions, and closing, which every open stage allows.
\<close>

inductive stage_step :: "stage \<Rightarrow> stage \<Rightarrow> bool" where
  crossed: "stage_step Discovered Interesting"
| investigate: "stage_step Interesting Investigating"
| contact: "stage_step Investigating Contacted"
| apply_directly: "stage_step Investigating Received"
| reply: "stage_step Contacted Received"
| claims_ready: "stage_step Received Triage"
| founder_scored: "stage_step Triage Screening"
| axes_ready: "stage_step Screening Diligence"
| memo_done: "stage_step Diligence MemoReady"
| park: "stage_step MemoReady Hold"
| invest: "stage_step MemoReady Approved"
| resume: "stage_step Hold Approved"
| close: "\<not> terminal_stage s \<Longrightarrow> stage_step s Closed"

code_pred stage_step .

inductive_cases from_approved: "stage_step Approved t"
inductive_cases from_closed: "stage_step Closed t"
inductive_simps step_to_approved: "stage_step s Approved"
inductive_simps step_to_hold: "stage_step s Hold"

section \<open>The table and the machine agree\<close>

lemma transitions_simp:
  "transitions = [(''discovered'', [''interesting'', ''closed'']), (''interesting'', [''investigating'', ''closed'']), (''investigating'', [''contacted'', ''received'', ''closed'']), (''contacted'', [''received'', ''closed'']), (''received'', [''triage'', ''closed'']), (''triage'', [''screening'', ''closed'']), (''screening'', [''diligence'', ''closed'']), (''diligence'', [''memo_ready'', ''closed'']), (''memo_ready'', [''hold'', ''approved'', ''closed'']), (''hold'', [''approved'', ''closed'']), (''approved'', []), (''closed'', [])]"
  by (simp add: transitions_def lifecycle_definitions_def mk_definition_def)

lemma stages_simp: "stages = [''discovered'', ''interesting'', ''investigating'', ''contacted'', ''received'', ''triage'', ''screening'', ''diligence'', ''memo_ready'', ''hold'', ''approved'', ''closed'']"
  by (simp add: stages_def lifecycle_definitions_def mk_definition_def)

lemma stages_keys: "set stages = range stage_key"
proof -
  have "(UNIV :: stage set) = {Discovered, Interesting, Investigating, Contacted, Received, Triage, Screening, Diligence, MemoReady, Hold, Approved, Closed}"
    using stage.exhaust by blast
  then have "range stage_key = stage_key ` {Discovered, Interesting, Investigating, Contacted, Received, Triage, Screening, Diligence, MemoReady, Hold, Approved, Closed}"
    by simp
  then show ?thesis by (simp add: stages_simp)
qed

lemma stage_key_inj: "stage_key a = stage_key b \<longleftrightarrow> a = b"
  by (cases a; cases b; simp)

lemma stage_step_iff:
  "stage_step a b \<longleftrightarrow>
     (b = Closed \<and> \<not> terminal_stage a) \<or>
     (a, b) \<in> {(Discovered, Interesting), (Interesting, Investigating), (Investigating, Contacted),
       (Investigating, Received), (Contacted, Received), (Received, Triage), (Triage, Screening),
       (Screening, Diligence), (Diligence, MemoReady), (MemoReady, Hold), (MemoReady, Approved),
       (Hold, Approved)}"
  by (auto elim!: stage_step.cases intro: stage_step.intros)

lemma transition_known:
  "is_valid_transition p n \<Longrightarrow> p \<noteq> n \<Longrightarrow> p \<in> set stages \<and> n \<in> set stages"
  by (auto simp: is_valid_transition_def transitions_simp stages_simp split: if_splits)

lemma transition_refines_machine_iff:
  "is_valid_transition (stage_key a) (stage_key b) \<longleftrightarrow> a = b \<or> stage_step a b"
  by (cases a; cases b; simp add: is_valid_transition_def transitions_simp stage_step_iff
      terminal_stage_def)

text \<open>
  The transition test implements the abstract machine on every pair of strings: it accepts
  staying where one is, and otherwise exactly the pairs of stage keys the machine steps between.
\<close>

theorem transition_refines_machine:
  "is_valid_transition p n \<longleftrightarrow>
     p = n \<or> (\<exists>a b. p = stage_key a \<and> n = stage_key b \<and> stage_step a b)"
proof (cases "p = n")
  case False
  show ?thesis
  proof
    assume v: "is_valid_transition p n"
    from transition_known [OF v False] obtain a b where "p = stage_key a" "n = stage_key b"
      unfolding stages_keys by blast
    with v False show "p = n \<or> (\<exists>a b. p = stage_key a \<and> n = stage_key b \<and> stage_step a b)"
      by (auto simp: transition_refines_machine_iff)
  next
    assume "p = n \<or> (\<exists>a b. p = stage_key a \<and> n = stage_key b \<and> stage_step a b)"
    with False show "is_valid_transition p n" by (auto simp: transition_refines_machine_iff)
  qed
qed (simp add: is_valid_transition_def)

lemma transition_refl [simp]: "is_valid_transition p p"
  by (simp add: is_valid_transition_def)

lemma transition_from_terminal:
  "is_valid_transition ''approved'' n \<longleftrightarrow> n = ''approved''"
  "is_valid_transition ''closed'' n \<longleftrightarrow> n = ''closed''"
  by (auto simp: is_valid_transition_def transitions_simp)

lemma transition_to_approved:
  "is_valid_transition p ''approved'' \<longleftrightarrow> p \<in> {''approved'', ''memo_ready'', ''hold''}"
  by (auto simp: is_valid_transition_def transitions_simp split: if_splits)

lemma transition_to_hold:
  "is_valid_transition p ''hold'' \<longleftrightarrow> p \<in> {''hold'', ''memo_ready''}"
  by (auto simp: is_valid_transition_def transitions_simp split: if_splits)

lemma transition_to_closed:
  "is_valid_transition p ''closed'' \<longleftrightarrow> p \<in> set stages - {''approved''}"
  by (auto simp: is_valid_transition_def transitions_simp stages_simp split: if_splits)

lemma step_rank: "stage_step a b \<Longrightarrow> stage_rank a < stage_rank b"
proof (induction rule: stage_step.induct)
  case (close s)
  then show ?case by (cases s) (simp_all add: terminal_stage_def)
qed simp_all

section \<open>Histories\<close>

text \<open>
  The stages one opportunity goes through, oldest first, as its audit log records them.
\<close>

fun history_ok :: "string list \<Rightarrow> bool" where
  "history_ok [] = True"
| "history_ok [s] = True"
| "history_ok (s # t # rest) = (is_valid_transition s t \<and> history_ok (t # rest))"

lemma history_approved:
  "history_ok h \<Longrightarrow> h \<noteq> [] \<Longrightarrow> last h \<in> {''hold'', ''approved''} \<Longrightarrow>
     hd h \<in> {''hold'', ''approved''} \<or> ''memo_ready'' \<in> set h"
  by (induction h rule: history_ok.induct) (auto simp: transition_to_approved transition_to_hold)

text \<open>
  No deal is approved without a memo: a history of valid moves that ends in
  \<open>approved\<close> and did not start at or past the memo went through \<open>memo_ready\<close>.
\<close>

theorem approved_needs_memo:
  assumes "history_ok h" and "h \<noteq> []" and "last h = ''approved''"
    and "hd h \<notin> {''memo_ready'', ''hold'', ''approved''}"
  shows "''memo_ready'' \<in> set h"
  using history_approved [of h] assms by auto

theorem approved_needs_memo_witness:
  "history_ok [''triage'', ''screening'', ''diligence'', ''memo_ready'', ''approved'']
   \<and> ''memo_ready'' \<in> set [''triage'', ''screening'', ''diligence'', ''memo_ready'', ''approved'']"
proof -
  let ?h = "[''triage'', ''screening'', ''diligence'', ''memo_ready'', ''approved'']"
  have ok: "history_ok ?h" by (simp add: is_valid_transition_def transitions_simp)
  moreover have "''memo_ready'' \<in> set ?h"
    by (rule approved_needs_memo [OF ok]) simp_all
  ultimately show ?thesis by blast
qed

fun strict_history :: "string list \<Rightarrow> bool" where
  "strict_history [] = True"
| "strict_history [s] = True"
| "strict_history (s # t # rest) = (is_valid_transition s t \<and> s \<noteq> t \<and> strict_history (t # rest))"

definition all_stages :: "stage list" where
  "all_stages = [Discovered, Interesting, Investigating, Contacted, Received, Triage, Screening,
     Diligence, MemoReady, Hold, Approved, Closed]"

definition key_rank :: "string \<Rightarrow> nat" where
  "key_rank k = (case find (\<lambda>s. stage_key s = k) all_stages of
     Some s \<Rightarrow> stage_rank s | None \<Rightarrow> 0)"

lemma stage_rank_le: "stage_rank s \<le> 11"
  by (cases s) simp_all

lemma key_rank_le: "key_rank k \<le> 11"
  by (simp add: key_rank_def stage_rank_le split: option.split)

lemma key_rank_stage_key: "key_rank (stage_key s) = stage_rank s"
  by (cases s) (simp_all add: key_rank_def all_stages_def)

lemma key_rank_step:
  assumes "is_valid_transition p n" and "p \<noteq> n"
  shows "key_rank p < key_rank n"
proof -
  from transition_known [OF assms] obtain a b where "p = stage_key a" "n = stage_key b"
    unfolding stages_keys by blast
  with assms show ?thesis
    using transition_refines_machine_iff [of a b] step_rank [of a b]
    by (auto simp: key_rank_stage_key)
qed

text \<open>
  C36. The lifecycle cannot cycle: every history of real moves visits at most eleven moves,
  so every deal comes to rest.
\<close>

theorem lifecycle_terminates:
  assumes "strict_history h"
  shows "length h \<le> 12 \<and> distinct h"
proof -
  have gen: "strict_history h \<Longrightarrow>
      sorted_wrt (<) (map key_rank h) \<and> (h \<noteq> [] \<longrightarrow> length h + key_rank (hd h) \<le> 12)" for h
  proof (induction h rule: strict_history.induct)
    case (2 s)
    then show ?case using key_rank_le [of s] by simp
  next
    case (3 s t rest)
    then have lt: "key_rank s < key_rank t"
      and IH: "sorted_wrt (<) (map key_rank (t # rest))" "length (t # rest) + key_rank t \<le> 12"
      using key_rank_step by auto
    from IH(1) lt have "sorted_wrt (<) (map key_rank (s # t # rest))" by auto
    with IH(2) lt show ?case by simp
  qed simp
  from gen [OF assms] have "sorted_wrt (<) (map key_rank h)" by blast
  then have "distinct (map key_rank h)" by (simp add: strict_sorted_iff)
  then have "distinct h" by (simp add: distinct_map)
  moreover have "length h \<le> 12" using gen [OF assms] by (cases h) auto
  ultimately show ?thesis by blast
qed

theorem lifecycle_terminates_witness:
  "length [''contacted'', ''received'', ''closed''] \<le> (12 :: nat)
   \<and> distinct [''contacted'', ''received'', ''closed'']"
  by (rule lifecycle_terminates) (simp add: is_valid_transition_def transitions_simp)

section \<open>Lanes and reasons\<close>

text \<open>
  Every stage of the contract is in exactly one of the outbound and inbound flows, and
  nothing else is in either.
\<close>

theorem lanes_partition:
  "(is_outbound s \<or> is_inbound s \<longleftrightarrow> s \<in> set stages) \<and> \<not> (is_outbound s \<and> is_inbound s)"
proof -
  have o: "outbound_stages = [''discovered'', ''interesting'', ''investigating'', ''contacted'']"
    by (simp add: outbound_stages_def lifecycle_definitions_def mk_definition_def)
  have i: "inbound_stages = [''received'', ''triage'', ''screening'', ''diligence'', ''memo_ready'',
      ''hold'', ''approved'', ''closed'']"
    by (simp add: inbound_stages_def lifecycle_definitions_def mk_definition_def)
  show ?thesis by (auto simp: is_outbound_def is_inbound_def o i stages_simp)
qed

lemma advance_reason_nonempty: "n \<noteq> [] \<Longrightarrow> advance_reason p n d \<noteq> []"
  by (auto simp: advance_reason_def reason_labels_def stage_labels_def lifecycle_definitions_def
      mk_definition_def Let_def split: option.splits if_splits)

end
