(* ===== verification/Domain_Status.thy ===== *)
theory Domain_Status
  imports Lifecycle
begin

text \<open>
  The canonical status values of \<^verbatim>\<open>app/domain_status.py\<close> and their normalisers. A raised
  \<open>ValueError\<close> is the left value with its message.
\<close>

definition claim_statuses :: "string list" where
  "claim_statuses = [''supported'', ''contradicted'', ''unverified'', ''tavily_synthesized'']"

definition assessment_axes :: "string list" where
  "assessment_axes = [''Founder'', ''Market'', ''Idea-Market'', ''execution'', ''technical'', ''commercial'']"

definition assessment_ratings :: "string list" where
  "assessment_ratings = [''Bullish'', ''Neutral'', ''Bearish'']"

definition assessment_trends :: "string list" where
  "assessment_trends = [''Improving'', ''Stable'', ''Declining'']"

definition lifecycle_stages :: "string list" where
  "lifecycle_stages = stages"

definition normalize_claim_status :: "string \<Rightarrow> string + string" where
  "normalize_claim_status value =
     (let normalized = replace_char (CHR ''-'') ''_'' (lower (strip value))
      in if normalized \<notin> set claim_statuses then Inl (''Unsupported claim status: '' @ value)
         else Inr normalized)"

text \<open>The multiplication sign, U+00D7, in UTF-8.\<close>

definition times_sign :: string where
  "times_sign = [CHR 0xC3, CHR 0x97]"

definition axis_labels :: "string dict" where
  "axis_labels = [(''founder'', ''Founder''), (''market'', ''Market''), (''idea-market'', ''Idea-Market''),
     (''execution'', ''execution''), (''technical'', ''technical''), (''commercial'', ''commercial'')]"

definition axis_key :: "string \<Rightarrow> string" where
  "axis_key value =
     (let normalized = replace_char (CHR ''_'') ''-'' (replace_str times_sign ''-'' (lower (strip value)))
      in join ''-'' (map strip (split_on (CHR ''-'') normalized)))"

definition normalize_assessment_axis :: "string \<Rightarrow> string + string" where
  "normalize_assessment_axis value =
     (case dget axis_labels (axis_key value) of
        Some label \<Rightarrow> Inr label
      | None \<Rightarrow> Inl (''Unsupported assessment axis: '' @ value))"

definition normalize_assessment_rating :: "string \<Rightarrow> string + string" where
  "normalize_assessment_rating value =
     (let normalized = capitalize (lower (strip value))
      in if normalized \<notin> set assessment_ratings then Inl (''Unsupported assessment rating: '' @ value)
         else Inr normalized)"

definition normalize_assessment_trend :: "string \<Rightarrow> string + string" where
  "normalize_assessment_trend value =
     (let normalized = capitalize (lower (strip value))
      in if normalized \<notin> set assessment_trends then Inl (''Unsupported assessment trend: '' @ value)
         else Inr normalized)"

definition normalize_lifecycle_stage :: "string \<Rightarrow> string + string" where
  "normalize_lifecycle_stage value =
     (let normalized = replace_char (CHR ''-'') ''_'' (lower (strip value))
      in if normalized \<notin> set lifecycle_stages then Inl (''Unsupported lifecycle stage: '' @ value)
         else Inr normalized)"

section \<open>Canonical values are fixed points\<close>

lemma claim_status_fixed: "v \<in> set claim_statuses \<Longrightarrow> normalize_claim_status v = Inr v"
  by (simp add: claim_statuses_def, elim disjE; simp; code_simp)

lemma axis_fixed: "v \<in> set assessment_axes \<Longrightarrow> normalize_assessment_axis v = Inr v"
  by (simp add: assessment_axes_def, elim disjE; simp; code_simp)

lemma rating_fixed: "v \<in> set assessment_ratings \<Longrightarrow> normalize_assessment_rating v = Inr v"
  by (simp add: assessment_ratings_def, elim disjE; simp; code_simp)

lemma trend_fixed: "v \<in> set assessment_trends \<Longrightarrow> normalize_assessment_trend v = Inr v"
  by (simp add: assessment_trends_def, elim disjE; simp; code_simp)

lemma stage_fixed: "v \<in> set stages \<Longrightarrow> normalize_lifecycle_stage v = Inr v"
  by (simp add: stages_simp, elim disjE; simp; code_simp)

section \<open>Accepted values are canonical\<close>

lemma claim_status_canonical: "normalize_claim_status v = Inr w \<Longrightarrow> w \<in> set claim_statuses"
  by (auto simp: normalize_claim_status_def Let_def split: if_splits)

lemma axis_canonical: "normalize_assessment_axis v = Inr w \<Longrightarrow> w \<in> set assessment_axes"
  by (auto simp: normalize_assessment_axis_def axis_labels_def assessment_axes_def
      split: option.splits if_splits)

lemma rating_canonical: "normalize_assessment_rating v = Inr w \<Longrightarrow> w \<in> set assessment_ratings"
  by (auto simp: normalize_assessment_rating_def Let_def split: if_splits)

lemma trend_canonical: "normalize_assessment_trend v = Inr w \<Longrightarrow> w \<in> set assessment_trends"
  by (auto simp: normalize_assessment_trend_def Let_def split: if_splits)

lemma stage_canonical: "normalize_lifecycle_stage v = Inr w \<Longrightarrow> w \<in> set stages"
  by (auto simp: normalize_lifecycle_stage_def lifecycle_stages_def Let_def split: if_splits)

lemma retraction_sets:
  fixes f :: "'a \<Rightarrow> 'e + 'a"
  assumes "\<And>v w. f v = Inr w \<Longrightarrow> w \<in> S" and "\<And>v. v \<in> S \<Longrightarrow> f v = Inr v"
  shows "{w. \<exists>v. f v = Inr w} = S \<and> {w. f w = Inr w} = S"
  using assms by blast

text \<open>
  Each normaliser is a retraction onto its canonical values: the values it returns and the
  values it leaves unchanged are both exactly the canonical list, so normalising a stored value
  again never changes or rejects it.
\<close>

theorem normalisers_are_retractions:
  "({w. \<exists>v. normalize_claim_status v = Inr w} = set claim_statuses
     \<and> {w. normalize_claim_status w = Inr w} = set claim_statuses)
   \<and> ({w. \<exists>v. normalize_assessment_axis v = Inr w} = set assessment_axes
     \<and> {w. normalize_assessment_axis w = Inr w} = set assessment_axes)
   \<and> ({w. \<exists>v. normalize_assessment_rating v = Inr w} = set assessment_ratings
     \<and> {w. normalize_assessment_rating w = Inr w} = set assessment_ratings)
   \<and> ({w. \<exists>v. normalize_assessment_trend v = Inr w} = set assessment_trends
     \<and> {w. normalize_assessment_trend w = Inr w} = set assessment_trends)
   \<and> ({w. \<exists>v. normalize_lifecycle_stage v = Inr w} = set stages
     \<and> {w. normalize_lifecycle_stage w = Inr w} = set stages)"
proof -
  note claims = retraction_sets [where f = normalize_claim_status and S = "set claim_statuses"]
  note axes = retraction_sets [where f = normalize_assessment_axis and S = "set assessment_axes"]
  note ratings = retraction_sets [where f = normalize_assessment_rating and S = "set assessment_ratings"]
  note trends = retraction_sets [where f = normalize_assessment_trend and S = "set assessment_trends"]
  note keys = retraction_sets [where f = normalize_lifecycle_stage and S = "set stages"]
  show ?thesis
    using claims axes ratings trends keys claim_status_canonical claim_status_fixed
      axis_canonical axis_fixed rating_canonical rating_fixed trend_canonical trend_fixed
      stage_canonical stage_fixed by presburger
qed

end
