(* ===== verification/Schema.thy ===== *)
theory Schema
  imports Domain_Status
begin

text \<open>
  The rows of \<^verbatim>\<open>app/db/models.py\<close>, one record per ORM class with its columns in the order
  of the source, and the database as the tables the components read and write. A column that may
  be NULL is an option; a JSONB column is a Python value or a dict; a UUID is its canonical text.
  A table is the list of its rows in the order a scan returns them: a \<open>SELECT\<close> is a filter of that
  list, \<open>ORDER BY\<close> a stable sort of the result and \<open>LIMIT\<close> a prefix. A generated key or a
  mixin timestamp that no component reads is left out of a record, and so are the ORM's
  relationship attributes, which are joins of the tables.
\<close>

section \<open>Datetimes\<close>

text \<open>
  A Python datetime: a naive one is its wall clock, an aware one its instant and UTC offset, both
  in microseconds.
\<close>

datatype pydatetime = Naive int | Aware instant int

text \<open>A value of a JSON deadline map, by how \<open>_parse_deadline\<close> reads it: a datetime, a number, the
  ISO text of a datetime, any other text, or anything else.\<close>

datatype deadline = DlTime pydatetime | DlNum real | DlIso pydatetime | DlText string | DlOther

section \<open>People and organizations\<close>

record person =
  p_id :: uuid
  p_stable_id :: string
  p_display_name :: "string option"
  p_email :: "string option"
  p_handles :: "string dict option"
  p_consent_state :: string
  p_legal_basis :: "string option"
  p_notice_version :: "string option"
  p_purposes :: pyval
  p_provider_policy :: "string option"
  p_retention_days :: pyval
  p_residency :: "string option"
  p_avatar_data :: "char list option"
  p_avatar_mime_type :: "string option"
  p_avatar_sha256 :: "string option"
  p_avatar_source_type :: "string option"
  p_avatar_source_url :: "string option"
  p_avatar_image_url :: "string option"
  p_avatar_fetched_at :: "instant option"
  p_superseded_by :: "uuid option"
  p_canonical :: bool
  p_merged_at :: "instant option"
  p_created_at :: "instant option"

record organization =
  org_id :: uuid
  org_stable_id :: string
  org_name :: string
  org_type :: string

section \<open>Opportunities and their satellites\<close>

record opportunity =
  o_id :: uuid
  o_organization_id :: "uuid option"
  o_company_name :: string
  o_source_kind :: string
  o_lifecycle_state :: string
  o_thesis_version :: "string option"
  o_received_at :: "pydatetime option"
  o_decision_due_at :: "pydatetime option"
  o_stage_deadlines :: "deadline dict"
  o_sla_owner :: "string option"
  o_sla_pause_reason :: "string option"
  o_sla_attainment :: "string option"
  o_sla_decided_at :: "pydatetime option"
  o_created_at :: instant
  o_updated_at :: "instant option"

record opportunity_founder =
  of_opportunity_id :: uuid
  of_person_id :: uuid
  of_role :: string

record channel_touch =
  ct_opportunity_id :: uuid
  ct_channel :: string
  ct_touch_type :: string
  ct_source_query :: "string option"
  ct_source_ref :: "string option"
  ct_occurred_at :: instant
  ct_metadata :: "pyval dict"

record opportunity_outcome =
  oo_opportunity_id :: uuid
  oo_domain :: string
  oo_type :: string
  oo_value :: "pyval dict"
  oo_source_type :: string
  oo_source_ref :: "string option"
  oo_observed_at :: instant
  oo_horizon_days :: "int option"
  oo_censoring :: string
  oo_confidence :: real
  oo_provenance :: "pyval dict"

record decision_event =
  e_opportunity_id :: uuid
  e_prior_state :: string
  e_new_state :: string
  e_actor :: string
  e_idempotency_key :: "string option"
  e_reason :: "string option"
  e_sla_metadata :: "pyval dict option"
  e_created_at :: instant

section \<open>Theses, evidence and claims\<close>

record investment_thesis =
  t_id :: uuid
  t_version :: string
  t_name :: string
  t_is_active :: bool
  t_stages :: "string list"
  t_sectors :: "string list"
  t_excluded_sectors :: "string list"
  t_regions :: "string list"
  t_check_min :: "real option"
  t_check_max :: "real option"
  t_ownership_target :: "real option"
  t_risk_appetite :: string
  t_scoring_weights :: "(string \<times> real) list"
  t_discovery_queries :: "string list"
  t_source_freshness_days :: "int dict"
  t_created_at :: instant

record source_snapshot =
  sn_id :: uuid
  sn_uri :: string
  sn_source_type :: string
  sn_content_hash :: string
  sn_fingerprint :: "string option"
  sn_storage_path :: string
  sn_license_metadata :: "pyval dict option"
  sn_use_policy :: pyval
  sn_collected_at :: instant

record observation =
  ob_id :: uuid
  ob_snapshot_id :: uuid
  ob_subject_id :: "uuid option"
  ob_opportunity_id :: "uuid option"
  ob_predicate :: string
  ob_object_value :: string
  ob_source_locator :: pyval
  ob_observed_at :: instant
  ob_extractor_version :: string
  ob_fingerprint :: "string option"
  ob_confidence :: real
  ob_embedding :: "real list option"
  ob_created_at :: instant

record claim =
  c_id :: uuid
  c_observation_ids :: "uuid list"
  c_artifact_metadata :: "pyval dict"
  c_subject_id :: "uuid option"
  c_opportunity_id :: "uuid option"
  c_predicate :: string
  c_object_value :: string
  c_status :: string
  c_confidence :: real
  c_trust_version :: "string option"
  c_trust_score :: "real option"
  c_trust_interval :: "(real \<times> real) option"
  c_trust_components :: "pyval dict"
  c_trust_explanation :: "string option"
  c_valid_start :: instant
  c_valid_end :: "instant option"
  c_supersession_id :: "uuid option"
  c_created_at :: instant

record claim_observation_link =
  l_claim_id :: uuid
  l_observation_id :: uuid

section \<open>Relationships, scores, assessments and matches\<close>

record relationship =
  r_id :: uuid
  r_person_a :: uuid
  r_person_b :: uuid
  r_type :: string
  r_evidence :: pyval
  r_artifact_metadata :: "pyval dict"
  r_confidence :: real
  r_observed_at :: instant

record score_snapshot =
  s_id :: uuid
  s_subject_id :: uuid
  s_subject_type :: string
  s_rubric_version :: string
  s_components :: "pyval dict"
  s_interval :: "pyval dict option"
  s_evidence_ids :: "uuid list"
  s_input_fingerprint :: "string option"
  s_provenance :: pyval
  s_artifact_metadata :: "pyval dict"
  s_created_at :: instant

record assessment =
  a_id :: uuid
  a_opportunity_id :: uuid
  a_axis :: string
  a_rating :: string
  a_trend :: string
  a_confidence :: real
  a_evidence_ids :: "uuid list"
  a_counter_evidence_ids :: "uuid list"
  a_unknowns :: "string list"
  a_artifact_metadata :: "pyval dict"
  a_created_at :: instant

record person_match =
  m_id :: uuid
  m_person_a :: uuid
  m_person_b :: uuid
  m_confidence :: real
  m_reasons :: pyval
  m_status :: string
  m_resolved_by :: "string option"
  m_resolved_at :: "instant option"

record investment_memo =
  memo_id :: uuid
  memo_opportunity_id :: uuid
  memo_thesis_version :: string
  memo_status :: string
  memo_claim_ids :: "uuid list"
  memo_assessment_ids :: "uuid list"
  memo_sections :: "pyval dict"
  memo_evidence_ids :: "uuid list"
  memo_model_version :: string
  memo_artifact_metadata :: "pyval dict"

section \<open>Submissions, outbox, ledger, telemetry and outreach\<close>

record inbound_submission =
  sub_idempotency_key :: string
  sub_person_id :: uuid
  sub_opportunity_id :: uuid
  sub_snapshot_id :: uuid
  sub_status :: string
  sub_founder_evidence :: "string dict"

record outbox_event =
  ob_dedupe_key :: string
  ob_event_type :: string
  ob_aggregate_id :: uuid
  ob_payload :: "pyval dict"
  ob_status :: string
  ob_attempts :: int
  ob_available_at :: instant
  ob_dispatched_at :: "instant option"
  ob_last_error :: "string option"
  ob_event_created_at :: instant

record job_run =
  j_id :: uuid
  j_type :: string
  j_status :: string
  j_phase :: string
  j_attempt :: int
  j_progress :: real
  j_last_error :: "string option"
  j_result :: "pyval dict option"
  j_cancel_requested :: bool
  j_started_at :: "instant option"
  j_finished_at :: "instant option"

record connector_telemetry =
  tel_source_type :: string
  tel_last_success_at :: instant

record outreach_message =
  om_id :: uuid
  om_opportunity_id :: uuid
  om_person_id :: uuid
  om_recipient_email :: "string option"
  om_subject :: string
  om_body :: string
  om_generation_mode :: string
  om_status :: string
  om_approved_by :: "string option"
  om_approved_at :: "instant option"
  om_requested_at :: "instant option"
  om_sent_at :: "instant option"
  om_provider_message_id :: "string option"
  om_failure_reason :: "string option"
  om_created_at :: instant

section \<open>The database\<close>

record db =
  persons :: "person list"
  organizations :: "organization list"
  opportunities :: "opportunity list"
  founders :: "opportunity_founder list"
  channel_touches :: "channel_touch list"
  outcomes :: "opportunity_outcome list"
  decision_events :: "decision_event list"
  observations :: "observation list"
  claims :: "claim list"
  claim_links :: "claim_observation_link list"
  relationships :: "relationship list"
  score_snapshots :: "score_snapshot list"
  person_matches :: "person_match list"
  memos :: "investment_memo list"

definition empty_db :: db where
  "empty_db = \<lparr>persons = [], organizations = [], opportunities = [], founders = [],
     channel_touches = [], outcomes = [], decision_events = [], observations = [], claims = [],
     claim_links = [], relationships = [], score_snapshots = [], person_matches = [], memos = []\<rparr>"

section \<open>Check constraints\<close>

definition ck_opportunities_lifecycle_state :: "string \<Rightarrow> bool" where
  "ck_opportunities_lifecycle_state s = (s \<in> {''discovered'', ''interesting'', ''investigating'',
     ''contacted'', ''received'', ''memo_ready'', ''hold'', ''approved'', ''closed'', ''screening'',
     ''triage'', ''diligence''})"

definition ck_opportunities_sla_attainment :: "string \<Rightarrow> bool" where
  "ck_opportunities_sla_attainment s = (s \<in> {''pending'', ''met'', ''breached''})"

definition ck_claims_status :: "string \<Rightarrow> bool" where
  "ck_claims_status s =
     (s \<in> {''supported'', ''contradicted'', ''unverified'', ''tavily_synthesized''})"

definition ck_assessments_axis :: "string \<Rightarrow> bool" where
  "ck_assessments_axis s = (s \<in> {''Founder'', ''Market'', ''Idea-Market'', ''execution'',
     ''technical'', ''commercial''})"

definition ck_assessments_rating :: "string \<Rightarrow> bool" where
  "ck_assessments_rating s = (s \<in> {''Bullish'', ''Neutral'', ''Bearish'', ''bullish'', ''neutral'',
     ''bearish''})"

definition ck_assessments_trend :: "string \<Rightarrow> bool" where
  "ck_assessments_trend s = (s \<in> {''Improving'', ''Stable'', ''Declining'', ''improving'', ''stable'',
     ''declining''})"

text \<open>
  The database accepts exactly the values the application calls canonical: the lifecycle
  column holds the contract's stages, and the claim and axis columns the values the normalisers
  return; the rating and trend columns also take the lower-case spellings, which normalise to
  canonical ones.
\<close>

theorem constraints_match_contract:
  "Collect ck_opportunities_lifecycle_state = set stages
   \<and> Collect ck_claims_status = {w. \<exists>v. normalize_claim_status v = Inr w}
   \<and> Collect ck_assessments_axis = {w. \<exists>v. normalize_assessment_axis v = Inr w}
   \<and> Collect ck_assessments_rating = set assessment_ratings \<union> lower ` set assessment_ratings
   \<and> Collect ck_assessments_trend = set assessment_trends \<union> lower ` set assessment_trends"
proof -
  have st: "Collect ck_opportunities_lifecycle_state = set stages"
    by (auto simp: ck_opportunities_lifecycle_state_def stages_simp)
  have c0: "{w. \<exists>v. normalize_claim_status v = Inr w} = set claim_statuses"
    using retraction_sets [where f = normalize_claim_status and S = "set claim_statuses"]
      claim_status_canonical claim_status_fixed by presburger
  have cl: "Collect ck_claims_status = {w. \<exists>v. normalize_claim_status v = Inr w}"
    unfolding c0 by (auto simp: ck_claims_status_def claim_statuses_def)
  have a0: "{w. \<exists>v. normalize_assessment_axis v = Inr w} = set assessment_axes"
    using retraction_sets [where f = normalize_assessment_axis and S = "set assessment_axes"]
      axis_canonical axis_fixed by presburger
  have ax: "Collect ck_assessments_axis = {w. \<exists>v. normalize_assessment_axis v = Inr w}"
    unfolding a0 by (auto simp: ck_assessments_axis_def assessment_axes_def)
  have lr: "lower ` set assessment_ratings = {''bullish'', ''neutral'', ''bearish''}"
    by code_simp
  have ra: "Collect ck_assessments_rating = set assessment_ratings \<union> lower ` set assessment_ratings"
    unfolding lr by (auto simp: ck_assessments_rating_def assessment_ratings_def)
  have lt: "lower ` set assessment_trends = {''improving'', ''stable'', ''declining''}"
    by code_simp
  have tr: "Collect ck_assessments_trend = set assessment_trends \<union> lower ` set assessment_trends"
    unfolding lt by (auto simp: ck_assessments_trend_def assessment_trends_def)
  from st cl ax ra tr show ?thesis by blast
qed

section \<open>Row access\<close>

text \<open>\<open>session.get(Cls, id)\<close> on a table keyed by \<open>id\<close>, and writing a row back.\<close>

definition get_row :: "('r \<Rightarrow> uuid) \<Rightarrow> 'r list \<Rightarrow> uuid \<Rightarrow> 'r option" where
  "get_row key rows k = find (\<lambda>r. key r = k) rows"

definition put_row :: "('r \<Rightarrow> uuid) \<Rightarrow> 'r list \<Rightarrow> 'r \<Rightarrow> 'r list" where
  "put_row key rows r = map (\<lambda>x. if key x = key r then r else x) rows"

lemma get_row_key: "get_row key rows k = Some r \<Longrightarrow> key r = k \<and> r \<in> set rows"
  by (auto simp: get_row_def find_Some_iff)

lemma get_row_put_row:
  "get_row key (put_row key rows r) k =
     (if key r = k then (case get_row key rows k of None \<Rightarrow> None | Some _ \<Rightarrow> Some r)
      else get_row key rows k)"
  unfolding get_row_def put_row_def by (induction rows) auto

lemma map_key_put_row [simp]: "map key (put_row key rows r) = map key rows"
  by (simp add: put_row_def)

lemma set_put_row: "set (put_row key rows r) \<subseteq> insert r (set rows)"
  by (auto simp: put_row_def)

lemma length_put_row [simp]: "length (put_row key rows r) = length rows"
  by (simp add: put_row_def)

end
