(* ===== verification/Sla_Clock.thy ===== *)
theory Sla_Clock
  imports Schema
begin

text \<open>
  The 24-hour decision clock of \<^verbatim>\<open>app/sla.py\<close>: stage budgets, starting the clock, reading it
  and closing it. The wall clock \<open>datetime.now(UTC)\<close> is the argument \<open>clock\<close>. A deadline text
  is the datetime it denotes, so \<open>_iso\<close> and \<open>_parse_deadline\<close> are read at that level; the
  numbers and datetimes are taken to lie in the range \<open>datetime\<close> represents.
\<close>

section \<open>The budgets\<close>

definition sla_stage_budgets :: "(string \<times> int) list" where
  "sla_stage_budgets = [
     (''triage'', 30 * us_minute),
     (''screening'', 3 * us_hour),
     (''diligence'', 14 * us_hour),
     (''memo'', 4 * us_hour),
     (''human_decision'', 2 * us_hour + 30 * us_minute)]"

definition sla_total_budget :: int where
  "sla_total_budget = sum_list (map snd sla_stage_budgets)"

definition at_risk_seconds :: int where
  "at_risk_seconds = 2 * 60 * 60"

section \<open>Datetimes\<close>

fun as_utc :: "pydatetime \<Rightarrow> pydatetime" where
  "as_utc (Naive t) = Aware t 0"
| "as_utc (Aware t off) = Aware t 0"

fun utc_instant :: "pydatetime \<Rightarrow> instant" where
  "utc_instant (Naive t) = t"
| "utc_instant (Aware t off) = t"

fun plus_delta :: "pydatetime \<Rightarrow> int \<Rightarrow> pydatetime" where
  "plus_delta (Naive t) d = Naive (t + d)"
| "plus_delta (Aware t off) d = Aware (t + d) off"

definition iso :: "pydatetime \<Rightarrow> deadline" where
  "iso value = DlIso (as_utc value)"

fun stage_deadlines_from :: "pydatetime \<Rightarrow> (string \<times> int) list \<Rightarrow> deadline dict" where
  "stage_deadlines_from cursor [] = []"
| "stage_deadlines_from cursor ((stage, budget) # rest) =
     (let cursor' = plus_delta cursor budget
      in (stage, iso cursor') # stage_deadlines_from cursor' rest)"

definition build_stage_deadlines :: "pydatetime \<Rightarrow> deadline dict" where
  "build_stage_deadlines received_at = stage_deadlines_from (as_utc received_at) sla_stage_budgets"

section \<open>Starting the clock\<close>

definition initialize_sla :: "opportunity \<Rightarrow> pydatetime option \<Rightarrow> instant \<Rightarrow> opportunity" where
  "initialize_sla opp received_at clock =
     (let started0 = (case received_at of Some r \<Rightarrow> r | None \<Rightarrow> Aware clock 0)
      in if o_received_at opp \<noteq> None then opp
         else let started = as_utc started0
           in opp\<lparr>o_received_at := Some started,
                  o_decision_due_at := Some (plus_delta started sla_total_budget),
                  o_stage_deadlines := build_stage_deadlines started,
                  o_sla_attainment := Some ''pending''\<rparr>)"

section \<open>Reading the clock\<close>

fun parse_deadline :: "deadline \<Rightarrow> pydatetime option" where
  "parse_deadline (DlTime d) = Some (as_utc d)"
| "parse_deadline (DlNum r) = Some (Aware (half_even (r * 1000000)) 0)"
| "parse_deadline (DlIso d) = Some (as_utc d)"
| "parse_deadline (DlText s) = None"
| "parse_deadline DlOther = None"

definition current_stage :: "string option \<Rightarrow> string option" where
  "current_stage lifecycle_state =
     (case lifecycle_state of None \<Rightarrow> None
      | Some s \<Rightarrow> dget [
          (''received'', ''triage''), (''triage'', ''triage''), (''screening'', ''screening''),
          (''diligence'', ''diligence''), (''memo_ready'', ''human_decision''),
          (''hold'', ''human_decision''), (''approved'', ''human_decision''),
          (''closed'', ''human_decision'')] s)"

record sla_view =
  v_received_at :: "pydatetime option"
  v_decision_due_at :: "pydatetime option"
  v_stage_deadlines :: "pydatetime dict"
  v_owner :: "string option"
  v_pause_reason :: "string option"
  v_stage :: "string option"
  v_status :: string
  v_attainment :: string
  v_remaining :: "int option"
  v_stage_remaining :: "int option"
  v_elapsed :: "int option"
  v_alert :: bool
  v_alert_level :: string

definition parsed_deadlines :: "deadline dict \<Rightarrow> pydatetime dict" where
  "parsed_deadlines d = concat (map (\<lambda>(name, raw).
     case parse_deadline raw of Some t \<Rightarrow> [(name, t)] | None \<Rightarrow> []) d)"

definition sla_status :: "string option \<Rightarrow> string option \<Rightarrow> int \<Rightarrow> string \<times> string" where
  "sla_status pause attainment remaining =
     (if str_truthy pause then (''paused'', ''paused'')
      else if attainment \<in> {Some ''met'', Some ''breached''}
      then (the attainment, if the attainment = ''met'' then ''none'' else ''breach'')
      else if remaining \<le> 0 then (''breached'', ''breach'')
      else if remaining \<le> at_risk_seconds then (''at_risk'', ''warning'')
      else (''on_track'', ''none''))"

definition evaluate_sla ::
  "string option \<Rightarrow> pydatetime option \<Rightarrow> pydatetime option \<Rightarrow> deadline dict option
   \<Rightarrow> string option \<Rightarrow> string option \<Rightarrow> string option \<Rightarrow> pydatetime option \<Rightarrow> instant \<Rightarrow> sla_view" where
  "evaluate_sla lifecycle received_at due_at deadlines owner pause attainment now clock =
     (case (received_at, due_at) of
        (Some r, Some d) \<Rightarrow>
          (let current = utc_instant (case now of Some n \<Rightarrow> n | None \<Rightarrow> Aware clock 0);
               received = as_utc r; due = as_utc d;
               stage = current_stage lifecycle;
               parsed = parsed_deadlines (case deadlines of Some m \<Rightarrow> m | None \<Rightarrow> []);
               remaining = whole_seconds (utc_instant due - current);
               stage_due = (case stage of Some s \<Rightarrow> dget parsed s | None \<Rightarrow> None);
               (status, level) = sla_status pause attainment remaining
           in \<lparr>v_received_at = Some received, v_decision_due_at = Some due,
               v_stage_deadlines = parsed, v_owner = owner, v_pause_reason = pause,
               v_stage = stage, v_status = status, v_attainment = str_or attainment ''pending'',
               v_remaining = Some remaining,
               v_stage_remaining = map_option (\<lambda>t. whole_seconds (utc_instant t - current)) stage_due,
               v_elapsed = Some (max 0 (whole_seconds (current - utc_instant received))),
               v_alert = (status \<in> {''at_risk'', ''breached''}), v_alert_level = level\<rparr>)
      | _ \<Rightarrow>
          \<lparr>v_received_at = None, v_decision_due_at = None, v_stage_deadlines = [], v_owner = owner,
           v_pause_reason = pause, v_stage = None, v_status = ''not_started'',
           v_attainment = str_or attainment ''pending'', v_remaining = None,
           v_stage_remaining = None, v_elapsed = None, v_alert = False, v_alert_level = ''none''\<rparr>)"

definition opp_sla :: "opportunity \<Rightarrow> pydatetime option \<Rightarrow> instant \<Rightarrow> sla_view" where
  "opp_sla opp now clock = evaluate_sla (Some (o_lifecycle_state opp)) (o_received_at opp)
     (o_decision_due_at opp) (Some (o_stage_deadlines opp)) (o_sla_owner opp)
     (o_sla_pause_reason opp) (o_sla_attainment opp) now clock"

section \<open>Closing the clock\<close>

definition finalize_sla :: "opportunity \<Rightarrow> pydatetime option \<Rightarrow> instant \<Rightarrow> opportunity \<times> sla_view" where
  "finalize_sla opp decided_at clock =
     (if o_received_at opp = None then
        (opp, evaluate_sla (Some (o_lifecycle_state opp)) None None None (o_sla_owner opp)
           (o_sla_pause_reason opp) (o_sla_attainment opp) decided_at clock)
      else
        (let decided = as_utc (case decided_at of Some d \<Rightarrow> d | None \<Rightarrow> Aware clock 0);
             due = o_decision_due_at opp;
             attainment = (case due of Some d \<Rightarrow>
                 if utc_instant decided \<le> utc_instant (as_utc d) then ''met'' else ''breached''
               | None \<Rightarrow> ''breached'');
             opp' = opp\<lparr>o_sla_attainment := Some attainment, o_sla_decided_at := Some decided\<rparr>
         in (opp', evaluate_sla (Some (o_lifecycle_state opp)) (o_received_at opp') due
               (Some (o_stage_deadlines opp)) (o_sla_owner opp) (o_sla_pause_reason opp)
               (Some attainment) (Some decided) clock)))"

section \<open>Lemmas\<close>

lemma as_utc_idem [simp]: "as_utc (as_utc d) = as_utc d"
  by (cases d) simp_all

lemma utc_instant_as_utc [simp]: "utc_instant (as_utc d) = utc_instant d"
  by (cases d) simp_all

lemma utc_instant_plus [simp]: "utc_instant (plus_delta d x) = utc_instant d + x"
  by (cases d) simp_all

lemma as_utc_Aware: "as_utc d = Aware (utc_instant d) 0"
  by (cases d) simp_all

lemma sla_total_is_24h: "sla_total_budget = 24 * us_hour"
  by (simp add: sla_total_budget_def sla_stage_budgets_def us_defs)

lemma parse_iso [simp]: "parse_deadline (iso d) = Some (as_utc d)"
  by (simp add: iso_def)

lemma whole_seconds_le: "whole_seconds d \<le> n \<longleftrightarrow> d < (n + 1) * us_second" if "0 \<le> n"
  using that by (auto simp: whole_seconds_def us_second_def)

lemma whole_seconds_nonpos: "whole_seconds d \<le> 0 \<longleftrightarrow> d < us_second"
  using whole_seconds_le [of 0 d] by simp

section \<open>Properties\<close>

text \<open>
  Starting a clock that has not run gives the decision deadline 24 hours after the start, and
  stage deadlines that read back, in the order of the stages, as the running totals of the
  budgets, the last of them the decision deadline itself.
\<close>

theorem initialize_sla_schedule:
  assumes "o_received_at opp = None"
  shows "\<exists>start. o_received_at (initialize_sla opp r clock) = Some (Aware start 0)
    \<and> start = (case r of Some d \<Rightarrow> utc_instant d | None \<Rightarrow> clock)
    \<and> o_decision_due_at (initialize_sla opp r clock) = Some (Aware (start + 24 * us_hour) 0)
    \<and> parsed_deadlines (o_stage_deadlines (initialize_sla opp r clock)) =
        [(''triage'', Aware (start + 30 * us_minute) 0),
         (''screening'', Aware (start + 3 * us_hour + 30 * us_minute) 0),
         (''diligence'', Aware (start + 17 * us_hour + 30 * us_minute) 0),
         (''memo'', Aware (start + 21 * us_hour + 30 * us_minute) 0),
         (''human_decision'', Aware (start + 24 * us_hour) 0)]"
  using assms
  by (intro exI [where x = "case r of Some d \<Rightarrow> utc_instant d | None \<Rightarrow> clock"])
    (auto simp: initialize_sla_def Let_def as_utc_Aware build_stage_deadlines_def
      sla_stage_budgets_def sla_total_is_24h parsed_deadlines_def us_defs split: option.splits)

definition sample_opportunity :: opportunity where
  "sample_opportunity = \<lparr>o_id = ''o1'', o_organization_id = None, o_company_name = ''Acme'',
     o_source_kind = ''inbound'', o_lifecycle_state = ''received'', o_thesis_version = None,
     o_received_at = None, o_decision_due_at = None, o_stage_deadlines = [], o_sla_owner = None,
     o_sla_pause_reason = None, o_sla_attainment = Some ''pending'', o_sla_decided_at = None,
     o_created_at = 0, o_updated_at = None\<rparr>"

theorem initialize_sla_schedule_witness:
  "o_received_at sample_opportunity = None
   \<and> (\<exists>start. o_received_at (initialize_sla sample_opportunity None 7) = Some (Aware start 0)
      \<and> start = 7)"
proof -
  have n: "o_received_at sample_opportunity = None" by (simp add: sample_opportunity_def)
  then show ?thesis using initialize_sla_schedule [OF n, of None 7] by auto
qed

text \<open>
  The clock is started once: starting it again, at any time, changes nothing.
\<close>

theorem initialize_sla_idempotent:
  "initialize_sla (initialize_sla opp r clock) r' clock' = initialize_sla opp r clock"
  by (simp add: initialize_sla_def Let_def)

text \<open>
  What the clock shows, on every branch: a pause wins, then a recorded attainment, then the
  time left to the microsecond: breached when less than a whole second is left, at risk up to two
  hours and a second, on track beyond; and an alert is raised exactly for at-risk and breached.
\<close>

theorem sla_status_classification:
  fixes n :: pydatetime
  assumes "o_received_at opp = Some r" and "o_decision_due_at opp = Some d"
  defines "left \<equiv> utc_instant d - utc_instant n"
  shows "v_status (opp_sla opp (Some n) clock) =
      (if str_truthy (o_sla_pause_reason opp) then ''paused''
       else if o_sla_attainment opp = Some ''met'' then ''met''
       else if o_sla_attainment opp = Some ''breached'' then ''breached''
       else if left < us_second then ''breached''
       else if left < 2 * us_hour + us_second then ''at_risk''
       else ''on_track'')
    \<and> (v_alert (opp_sla opp (Some n) clock) \<longleftrightarrow>
        v_status (opp_sla opp (Some n) clock) \<in> {''at_risk'', ''breached''})"
proof -
  have "whole_seconds left \<le> at_risk_seconds \<longleftrightarrow> left < 2 * us_hour + us_second"
    using whole_seconds_le [of at_risk_seconds left] by (simp add: at_risk_seconds_def us_defs)
  then show ?thesis
    using assms(1,2)
    by (auto simp: opp_sla_def evaluate_sla_def Let_def sla_status_def whole_seconds_nonpos
        left_def)
qed

definition running_opportunity :: opportunity where
  "running_opportunity = initialize_sla sample_opportunity (Some (Aware 0 0)) 0"

lemma running_simps:
  "o_received_at running_opportunity = Some (Aware 0 0)"
  "o_decision_due_at running_opportunity = Some (Aware (24 * us_hour) 0)"
  "o_sla_pause_reason running_opportunity = None"
  "o_sla_attainment running_opportunity = Some ''pending''"
  by (simp_all add: running_opportunity_def initialize_sla_def sample_opportunity_def
      sla_total_is_24h Let_def)

theorem sla_status_classification_witness:
  "v_status (opp_sla running_opportunity (Some (Aware (23 * us_hour) 0)) 0) = ''at_risk''"
  using sla_status_classification [OF running_simps(1,2), of "Aware (23 * us_hour) 0" 0]
  by (simp add: us_defs running_simps)

text \<open>
  A decision closes the clock for good: the recorded attainment is \<open>met\<close> exactly when the
  decision came by the deadline, and from then on, unless paused, the clock shows that attainment
  whenever it is read.
\<close>

theorem finalize_sla_sticks:
  fixes decided :: pydatetime and clock :: instant
  assumes "o_received_at opp = Some r" and "o_decision_due_at opp = Some d"
    and "o_sla_pause_reason opp = None"
  defines "opp' \<equiv> fst (finalize_sla opp (Some decided) clock)"
  shows "o_sla_attainment opp' =
      Some (if utc_instant decided \<le> utc_instant d then ''met'' else ''breached'')
    \<and> Some (v_status (opp_sla opp' later clock')) = o_sla_attainment opp'
    \<and> opp_sla opp' (Some (as_utc decided)) clock = snd (finalize_sla opp (Some decided) clock)"
  using assms(1-3)
  by (auto simp: opp'_def finalize_sla_def opp_sla_def evaluate_sla_def sla_status_def Let_def)

theorem finalize_sla_sticks_witness:
  "o_sla_attainment (fst (finalize_sla running_opportunity (Some (Aware (us_hour) 0)) 0)) = Some ''met''"
  using finalize_sla_sticks [OF running_simps(1-3), of "Aware us_hour 0" 0 None 0]
  by (simp add: us_defs)

text \<open>
  The clock and the decision disagree in the last second: read less than a second before the
  deadline, a running clock shows a breach, while a decision at that moment is recorded as met.
\<close>

theorem last_second_disagreement:
  assumes "o_received_at opp = Some r" and "o_decision_due_at opp = Some d"
    and "o_sla_pause_reason opp = None" and "o_sla_attainment opp = Some ''pending''"
    and "0 \<le> utc_instant d - utc_instant n" and "utc_instant d - utc_instant n < us_second"
  shows "v_status (opp_sla opp (Some n) clock) = ''breached''
    \<and> v_status (snd (finalize_sla opp (Some n) clock)) = ''met''"
  using assms
  by (auto simp: finalize_sla_def opp_sla_def evaluate_sla_def sla_status_def Let_def
      whole_seconds_nonpos)

theorem last_second_disagreement_witness:
  "v_status (opp_sla running_opportunity (Some (Aware (24 * us_hour - 1) 0)) 0) = ''breached''
   \<and> v_status (snd (finalize_sla running_opportunity (Some (Aware (24 * us_hour - 1) 0)) 0)) = ''met''"
  by (rule last_second_disagreement [OF running_simps]) (simp_all add: us_defs)

end
