(* ===== verification/Opportunity_Service.thy ===== *)
theory Opportunity_Service
  imports Sla_Clock
begin

text \<open>
  The opportunity helpers of \<^verbatim>\<open>app/opportunity_service.py\<close> over the database: find-or-create,
  attribution, outcomes and the audited lifecycle transition. A raised \<open>ValueError\<close> is the left
  value. \<open>md5\<close> stands for the hexadecimal MD5 digest of a text, \<open>clock\<close> for the current
  time, and the identifiers a call generates are its arguments.
\<close>

section \<open>Organizations and attribution\<close>

definition outcome_domains :: "string set" where
  "outcome_domains = {''sourcing'', ''process'', ''decision'', ''longitudinal''}"

definition organization_stable_id :: "(string \<Rightarrow> string) \<Rightarrow> string \<Rightarrow> string" where
  "organization_stable_id md5 name =
     (let normalized = join '' '' (split_ws (lower name)) in ''company:'' @ md5 normalized)"

definition get_or_create_organization ::
  "(string \<Rightarrow> string) \<Rightarrow> uuid \<Rightarrow> db \<Rightarrow> string \<Rightarrow> organization \<times> db" where
  "get_or_create_organization md5 new_id d name =
     (let stable = organization_stable_id md5 name
      in case find (\<lambda>x. org_stable_id x = stable) (organizations d) of
           Some x \<Rightarrow> (x, d)
         | None \<Rightarrow>
             (let x = \<lparr>org_id = new_id, org_stable_id = stable, org_name = strip name,
                       org_type = ''company''\<rparr>
              in (x, d\<lparr>organizations := organizations d @ [x]\<rparr>)))"

definition record_channel_touch ::
  "instant \<Rightarrow> db \<Rightarrow> uuid \<Rightarrow> string \<Rightarrow> string \<Rightarrow> string option \<Rightarrow> string option \<Rightarrow> pyval dict option \<Rightarrow> db" where
  "record_channel_touch clock d oid channel touch_type query ref metadata =
     d\<lparr>channel_touches := channel_touches d @
        [\<lparr>ct_opportunity_id = oid, ct_channel = channel, ct_touch_type = touch_type,
          ct_source_query = query, ct_source_ref = ref, ct_occurred_at = clock,
          ct_metadata = (case metadata of Some m \<Rightarrow> m | None \<Rightarrow> [])\<rparr>]\<rparr>"

definition record_opportunity_outcome ::
  "db \<Rightarrow> uuid \<Rightarrow> string \<Rightarrow> string \<Rightarrow> string \<Rightarrow> instant \<Rightarrow> pyval dict option \<Rightarrow> string option
   \<Rightarrow> int option \<Rightarrow> string \<Rightarrow> real \<Rightarrow> pyval dict option \<Rightarrow> string + db" where
  "record_opportunity_outcome d oid domain otype stype observed val ref horizon censoring conf prov =
     (if domain \<notin> outcome_domains then Inl (''unsupported outcome domain: '' @ domain)
      else if (case horizon of Some h \<Rightarrow> h < 0 | None \<Rightarrow> False)
        then Inl ''horizon_days must be non-negative''
      else if \<not> (0 \<le> conf \<and> conf \<le> 1) then Inl ''confidence must be between 0 and 1''
      else Inr (d\<lparr>outcomes := outcomes d @
        [\<lparr>oo_opportunity_id = oid, oo_domain = domain, oo_type = otype,
          oo_value = (case val of Some v \<Rightarrow> v | None \<Rightarrow> []), oo_source_type = stype,
          oo_source_ref = ref, oo_observed_at = observed, oo_horizon_days = horizon,
          oo_censoring = censoring, oo_confidence = conf,
          oo_provenance = (case prov of Some p \<Rightarrow> p | None \<Rightarrow> [])\<rparr>]\<rparr>))"

section \<open>Opportunities of a person\<close>

definition opportunities_of :: "db \<Rightarrow> uuid \<Rightarrow> opportunity list" where
  "opportunities_of d pid = concat (map (\<lambda>f.
     if of_person_id f = pid then filter (\<lambda>x. o_id x = of_opportunity_id f) (opportunities d) else [])
     (founders d))"

definition latest_opportunity :: "db \<Rightarrow> uuid \<Rightarrow> opportunity option" where
  "latest_opportunity d pid =
     (case sort_key (\<lambda>x. - o_created_at x) (opportunities_of d pid) of
        [] \<Rightarrow> None | x # _ \<Rightarrow> Some x)"

definition company_name_for :: "string option \<Rightarrow> person \<Rightarrow> string" where
  "company_name_for company_name p =
     str_or company_name (str_or (p_display_name p) (p_stable_id p))"

definition new_opportunity ::
  "instant \<Rightarrow> uuid \<Rightarrow> uuid \<Rightarrow> string \<Rightarrow> string \<Rightarrow> string \<Rightarrow> string option \<Rightarrow> opportunity" where
  "new_opportunity clock oid org company kind state thesis =
     \<lparr>o_id = oid, o_organization_id = Some org, o_company_name = company, o_source_kind = kind,
      o_lifecycle_state = state, o_thesis_version = thesis, o_received_at = None,
      o_decision_due_at = None, o_stage_deadlines = [], o_sla_owner = None,
      o_sla_pause_reason = None, o_sla_attainment = Some ''pending'', o_sla_decided_at = None,
      o_created_at = clock, o_updated_at = Some clock\<rparr>"

definition add_opportunity :: "db \<Rightarrow> opportunity \<Rightarrow> uuid \<Rightarrow> db" where
  "add_opportunity d opp pid =
     d\<lparr>opportunities := opportunities d @ [opp],
       founders := founders d @ [\<lparr>of_opportunity_id = o_id opp, of_person_id = pid, of_role = ''founder''\<rparr>]\<rparr>"

definition get_or_create_opportunity ::
  "(string \<Rightarrow> string) \<Rightarrow> instant \<Rightarrow> uuid \<Rightarrow> uuid \<Rightarrow> db \<Rightarrow> person \<Rightarrow> string \<Rightarrow> string \<Rightarrow> string option
   \<Rightarrow> string option \<Rightarrow> string \<Rightarrow> string option \<Rightarrow> string option \<Rightarrow> opportunity \<times> db" where
  "get_or_create_opportunity md5 clock org_new opp_new d person source_kind lifecycle company
     channel touch_type query ref =
     (let touch = (\<lambda>d oid. case channel of None \<Rightarrow> d
                    | Some c \<Rightarrow> record_channel_touch clock d oid c touch_type query ref None)
      in case latest_opportunity d (p_id person) of
           Some opp \<Rightarrow> (opp, touch d (o_id opp))
         | None \<Rightarrow>
             (let name = company_name_for company person;
                  (org, d1) = get_or_create_organization md5 org_new d name;
                  opp = new_opportunity clock opp_new (org_id org) name source_kind lifecycle None
              in (opp, touch (add_opportunity d1 opp (p_id person)) (o_id opp))))"

definition create_inbound_opportunity ::
  "(string \<Rightarrow> string) \<Rightarrow> instant \<Rightarrow> uuid \<Rightarrow> uuid \<Rightarrow> db \<Rightarrow> person \<Rightarrow> string option \<Rightarrow> string option
   \<Rightarrow> opportunity \<times> db" where
  "create_inbound_opportunity md5 clock org_new opp_new d person company thesis =
     (let name = company_name_for company person;
          (org, d1) = get_or_create_organization md5 org_new d name;
          opp = initialize_sla
            (new_opportunity clock opp_new (org_id org) name ''inbound'' ''received'' thesis) None clock
      in (opp, add_opportunity d1 opp (p_id person)))"

definition has_inbound_opportunity :: "db \<Rightarrow> uuid \<Rightarrow> bool" where
  "has_inbound_opportunity d pid =
     (find (\<lambda>x. o_source_kind x = ''inbound'') (opportunities_of d pid) \<noteq> None)"

section \<open>The audited transition\<close>

definition mk_event ::
  "instant \<Rightarrow> uuid \<Rightarrow> string \<Rightarrow> string \<Rightarrow> string \<Rightarrow> string \<Rightarrow> pyval dict \<Rightarrow> decision_event" where
  "mk_event clock oid prior new actor reason sla =
     \<lparr>e_opportunity_id = oid, e_prior_state = prior, e_new_state = new, e_actor = actor,
      e_idempotency_key = None, e_reason = Some reason, e_sla_metadata = Some sla,
      e_created_at = clock\<rparr>"

definition save_opportunity :: "db \<Rightarrow> opportunity \<Rightarrow> db" where
  "save_opportunity d opp = d\<lparr>opportunities := put_row o_id (opportunities d) opp\<rparr>"

definition add_event :: "db \<Rightarrow> decision_event \<Rightarrow> db" where
  "add_event d e = d\<lparr>decision_events := decision_events d @ [e]\<rparr>"

text \<open>
  A flush that writes a changed row stamps \<open>updated_at\<close>. The no-op branch returns an event that
  it does not add to the session.
\<close>

definition transition_opportunity ::
  "instant \<Rightarrow> db \<Rightarrow> opportunity \<Rightarrow> string \<Rightarrow> string \<Rightarrow> string
   \<Rightarrow> string + (decision_event \<times> opportunity \<times> db)" where
  "transition_opportunity clock d opp new_state actor reason =
     (let prior = o_lifecycle_state opp
      in if \<not> is_valid_transition prior new_state
         then Inl (''Invalid lifecycle transition: '' @ prior @ '' -> '' @ new_state)
         else
           (let opp1 = (if new_state = ''received'' then initialize_sla opp None clock else opp);
                why = str_or (Some reason) (advance_reason prior new_state [])
            in if prior = new_state
               then Inr (mk_event clock (o_id opp) prior new_state actor (''(no-op) '' @ why) [],
                         opp1, save_opportunity d opp1)
               else
                 (let opp2 = opp1\<lparr>o_lifecycle_state := new_state, o_updated_at := Some clock\<rparr>;
                      event = mk_event clock (o_id opp) prior new_state actor why []
                  in Inr (event, opp2, add_event (save_opportunity d opp2) event))))"

section \<open>The audit log\<close>

definition log_of :: "db \<Rightarrow> uuid \<Rightarrow> decision_event list" where
  "log_of d oid = filter (\<lambda>e. e_opportunity_id e = oid) (decision_events d)"

fun log_chain :: "string \<Rightarrow> decision_event list \<Rightarrow> string \<Rightarrow> bool" where
  "log_chain s [] t = (s = t)"
| "log_chain s (e # es) t =
     (e_prior_state e = s \<and> is_valid_transition s (e_new_state e) \<and> log_chain (e_new_state e) es t)"

text \<open>
  The invariant of the log: for every opportunity its events, oldest first, are valid moves that
  start at one stage, each where the last one stopped, and end at the opportunity's stage.
\<close>

definition audit_ok :: "db \<Rightarrow> bool" where
  "audit_ok d = (\<forall>x \<in> set (opportunities d). \<exists>s \<in> set stages. log_chain s (log_of d (o_id x)) (o_lifecycle_state x))"

lemma log_chain_snoc:
  "log_chain s (es @ [e]) t \<longleftrightarrow>
     log_chain s es (e_prior_state e) \<and> is_valid_transition (e_prior_state e) (e_new_state e)
     \<and> t = e_new_state e"
  by (induction es arbitrary: s) auto

lemma log_chain_history: "log_chain s es t \<Longrightarrow> history_ok (s # map e_new_state es) \<and> last (s # map e_new_state es) = t"
  by (induction es arbitrary: s) auto

lemma log_of_add_event:
  "log_of (add_event d e) oid = log_of d oid @ (if e_opportunity_id e = oid then [e] else [])"
  by (simp add: log_of_def add_event_def)

lemma log_of_save [simp]: "log_of (save_opportunity d x) oid = log_of d oid"
  by (simp add: log_of_def save_opportunity_def)

lemma opportunities_save [simp]: "opportunities (save_opportunity d x) = put_row o_id (opportunities d) x"
  by (simp add: save_opportunity_def)

lemma opportunities_add_event [simp]: "opportunities (add_event d e) = opportunities d"
  by (simp add: add_event_def)

lemma decision_events_save [simp]: "decision_events (save_opportunity d x) = decision_events d"
  by (simp add: save_opportunity_def)

lemma decision_events_add_event [simp]: "decision_events (add_event d e) = decision_events d @ [e]"
  by (simp add: add_event_def)

lemma mk_event_simps [simp]:
  "e_opportunity_id (mk_event c i p n a r m) = i" "e_prior_state (mk_event c i p n a r m) = p"
  "e_new_state (mk_event c i p n a r m) = n" "e_actor (mk_event c i p n a r m) = a"
  "e_created_at (mk_event c i p n a r m) = c" "e_reason (mk_event c i p n a r m) = Some r"
  by (simp_all add: mk_event_def)

lemma initialize_sla_frame [simp]:
  "o_id (initialize_sla x r c) = o_id x" "o_lifecycle_state (initialize_sla x r c) = o_lifecycle_state x"
  "o_created_at (initialize_sla x r c) = o_created_at x"
  by (simp_all add: initialize_sla_def Let_def)

text \<open>Saving a row and logging one event that starts at the row's old stage keeps the log.\<close>

lemma audit_ok_step:
  assumes ok: "audit_ok d" and opp: "opp \<in> set (opportunities d)"
    and same: "o_id opp' = o_id opp" and ev: "e_opportunity_id e = o_id opp"
    and prior: "e_prior_state e = o_lifecycle_state opp"
    and valid: "is_valid_transition (o_lifecycle_state opp) (e_new_state e)"
    and new: "o_lifecycle_state opp' = e_new_state e"
  shows "audit_ok (add_event (save_opportunity d opp') e)"
  unfolding audit_ok_def
proof
  fix x assume "x \<in> set (opportunities (add_event (save_opportunity d opp') e))"
  then consider "x = opp'" | "x \<in> set (opportunities d)" "o_id x \<noteq> o_id opp"
    by (auto simp: put_row_def same)
  then show "\<exists>s \<in> set stages. log_chain s (log_of (add_event (save_opportunity d opp') e) (o_id x)) (o_lifecycle_state x)"
  proof cases
    case 1
    from ok opp obtain s where "s \<in> set stages" "log_chain s (log_of d (o_id opp)) (o_lifecycle_state opp)"
      by (auto simp: audit_ok_def)
    with 1 show ?thesis
      using ev prior valid new same by (auto simp: log_of_add_event log_chain_snoc)
  next
    case 2
    with ok ev show ?thesis by (auto simp: audit_ok_def log_of_add_event)
  qed
qed

lemma audit_ok_save:
  assumes "audit_ok d" and "opp \<in> set (opportunities d)"
    and "o_id opp' = o_id opp" and "o_lifecycle_state opp' = o_lifecycle_state opp"
  shows "audit_ok (save_opportunity d opp')"
  using assms unfolding audit_ok_def by (auto simp: put_row_def)

lemma transition_Inr:
  assumes "transition_opportunity clock d opp new actor reason = Inr (e, opp', d')"
  shows "is_valid_transition (o_lifecycle_state opp) new \<and> o_lifecycle_state opp' = new
    \<and> o_id opp' = o_id opp \<and> e_opportunity_id e = o_id opp
    \<and> e_prior_state e = o_lifecycle_state opp \<and> e_new_state e = new \<and> e_actor e = actor
    \<and> d' = (if o_lifecycle_state opp = new then save_opportunity d opp'
            else add_event (save_opportunity d opp') e)"
  using assms by (auto simp: transition_opportunity_def Let_def split: if_splits)

lemma transition_Inr_iff:
  "(\<exists>r. transition_opportunity clock d opp new actor reason = Inr r) \<longleftrightarrow>
     is_valid_transition (o_lifecycle_state opp) new"
  by (auto simp: transition_opportunity_def Let_def)

lemma transition_audit_ok:
  assumes "transition_opportunity clock d opp new actor reason = Inr (e, opp', d')"
    and "audit_ok d" and "opp \<in> set (opportunities d)"
  shows "audit_ok d'"
proof -
  note t = transition_Inr [OF assms(1)]
  show ?thesis
  proof (cases "o_lifecycle_state opp = new")
    case True
    with t show ?thesis using audit_ok_save [OF assms(2,3), of opp'] by simp
  next
    case False
    with t show ?thesis using audit_ok_step [OF assms(2,3), of opp' e] by simp
  qed
qed

section \<open>Properties\<close>


definition sample_db :: db where
  "sample_db = empty_db\<lparr>opportunities := [sample_opportunity]\<rparr>"

lemma sample_db_audit: "audit_ok sample_db"
  by (simp add: audit_ok_def sample_db_def empty_db_def log_of_def sample_opportunity_def stages_simp)


text \<open>
  What the audit log proves of an approved deal: if its log starts before the memo, it holds an
  event into \<open>memo_ready\<close>.
\<close>

theorem approved_log_has_memo:
  assumes "log_chain s (log_of d oid) ''approved''"
    and "s \<notin> {''memo_ready'', ''hold'', ''approved''}"
  shows "''memo_ready'' \<in> set (map e_new_state (log_of d oid))"
proof -
  let ?h = "s # map e_new_state (log_of d oid)"
  have "history_ok ?h" "last ?h = ''approved''"
    using log_chain_history [OF assms(1)] by auto
  then have "''memo_ready'' \<in> set ?h"
    using history_approved [of ?h] assms(2) by auto
  with assms(2) show ?thesis by auto
qed

definition sample_log :: "decision_event list" where
  "sample_log = [mk_event 1 ''o1'' ''diligence'' ''memo_ready'' ''pipeline:auto'' ''r'' [],
                 mk_event 2 ''o1'' ''memo_ready'' ''approved'' ''human'' ''r'' []]"

theorem approved_log_has_memo_witness:
  "''memo_ready'' \<in> set (map e_new_state (log_of (empty_db\<lparr>decision_events := sample_log\<rparr>) ''o1''))"
proof -
  have "log_chain ''diligence'' (log_of (empty_db\<lparr>decision_events := sample_log\<rparr>) ''o1'') ''approved''"
    by (simp add: log_of_def sample_log_def is_valid_transition_def transitions_simp)
  then show ?thesis by (rule approved_log_has_memo) simp
qed

lemma find_append: "find P (xs @ ys) = (case find P xs of Some x \<Rightarrow> Some x | None \<Rightarrow> find P ys)"
  by (induction xs) auto

lemma get_or_create_organization_stable:
  "org_stable_id (fst (get_or_create_organization md5 n d name)) = organization_stable_id md5 name"
  by (auto simp: get_or_create_organization_def Let_def find_Some_iff split: option.splits)

text \<open>
  Resolving a company name is idempotent across spellings: names that normalise alike (case and
  white space aside) resolve to the same organization, and the second resolution adds no row.
\<close>

theorem organization_resolution_idempotent:
  assumes "join '' '' (split_ws (lower name)) = join '' '' (split_ws (lower name'))"
    and "get_or_create_organization md5 n d name = (o1, d1)"
  shows "get_or_create_organization md5 n' d1 name' = (o1, d1)"
  using assms
  by (auto simp: get_or_create_organization_def organization_stable_id_def Let_def find_append
      split: option.splits)

theorem organization_resolution_idempotent_witness:
  "get_or_create_organization (\<lambda>s. s) ''b''
     (snd (get_or_create_organization (\<lambda>s. s) ''a'' empty_db ''Acme  AI'')) '' acme ai ''
   = get_or_create_organization (\<lambda>s. s) ''a'' empty_db ''Acme  AI''"
proof -
  have n: "join '' '' (split_ws (lower ''Acme  AI'')) = join '' '' (split_ws (lower '' acme ai ''))"
    by code_simp
  let ?r = "get_or_create_organization (\<lambda>s. s) ''a'' empty_db ''Acme  AI''"
  have r: "?r = (fst ?r, snd ?r)" by simp
  show ?thesis
    using organization_resolution_idempotent [OF n r, where n' = "''b''"] by simp
qed

text \<open>
  A new inbound deal starts in \<open>received\<close> with its decision clock running for 24 hours from
  the clock, is linked to its founder, and leaves every earlier row in place.
\<close>

theorem inbound_opportunity_starts_clock:
  "case create_inbound_opportunity md5 clock org_new opp_new d person company thesis of (opp, d') \<Rightarrow>
     o_lifecycle_state opp = ''received'' \<and> o_source_kind opp = ''inbound''
     \<and> o_received_at opp = Some (Aware clock 0)
     \<and> o_decision_due_at opp = Some (Aware (clock + 24 * us_hour) 0)
     \<and> opportunities d' = opportunities d @ [opp]
     \<and> has_inbound_opportunity d' (p_id person)
     \<and> decision_events d' = decision_events d"
proof -
  obtain org d1 where g: "get_or_create_organization md5 org_new d (company_name_for company person) = (org, d1)"
    by fastforce
  then have "opportunities d1 = opportunities d" "decision_events d1 = decision_events d"
    by (auto simp: get_or_create_organization_def Let_def split: option.splits)
  with g show ?thesis
    by (auto simp: create_inbound_opportunity_def Let_def new_opportunity_def initialize_sla_def
        add_opportunity_def sla_total_is_24h has_inbound_opportunity_def opportunities_of_def
        find_append split: option.splits)
qed

text \<open>
  An outcome is recorded exactly when its domain is known, its horizon is not negative and its
  confidence is a probability; nothing else of the database changes.
\<close>

theorem outcome_guard:
  "(\<exists>d'. record_opportunity_outcome d oid domain otype stype observed val ref horizon cens conf prov = Inr d')
    \<longleftrightarrow> domain \<in> outcome_domains \<and> horizon \<notin> Some ` {..<0} \<and> 0 \<le> conf \<and> conf \<le> 1"
  by (auto simp: record_opportunity_outcome_def split: option.splits)

end
