(* ===== verification/Py_Text.thy ===== *)
theory Py_Text
  imports Py_Prelude
begin

text \<open>
  Python's text forms of numbers and the key-sorted form of a JSON value: \<open>int(text)\<close>,
  \<open>f"{x:.nf}"\<close> and the value that \<open>json.dumps(v, sort_keys=True)\<close> writes. What
  \<open>str\<close> and \<open>float\<close> do between a double and its shortest text is an argument of the
  definitions that need it, because a real has no such text.
\<close>

section \<open>Integers\<close>

definition digit_val :: "char \<Rightarrow> int" where
  "digit_val c = int (char_code c) - 48"

text \<open>Digits with single underscores between them, as \<open>int\<close> takes them.\<close>

fun digits_from :: "int \<Rightarrow> string \<Rightarrow> int option" where
  "digits_from acc [] = Some acc"
| "digits_from acc (c # cs) =
     (if is_digit c then digits_from (10 * acc + digit_val c) cs
      else if c = CHR ''_'' \<and> cs \<noteq> [] \<and> is_digit (hd cs) then digits_from acc cs
      else None)"

definition unsigned_int :: "string \<Rightarrow> int option" where
  "unsigned_int s = (if s \<noteq> [] \<and> is_digit (hd s) then digits_from 0 s else None)"

definition py_int :: "string \<Rightarrow> int option" where
  "py_int s = (case strip s of
       [] \<Rightarrow> None
     | c # cs \<Rightarrow> if c = CHR ''-'' then map_option uminus (unsigned_int cs)
                 else if c = CHR ''+'' then unsigned_int cs
                 else unsigned_int (c # cs))"

lemma digit_char_facts:
  assumes "d < 10"
  shows "is_digit (digit_char d)" "digit_val (digit_char d) = int d" "\<not> is_space (digit_char d)"
    "digit_char d \<noteq> CHR ''-''" "digit_char d \<noteq> CHR ''+''"
proof -
  have c: "char_code (digit_char d) = 48 + d"
    using assms by (simp add: char_code_def digit_char_def)
  show "is_digit (digit_char d)" "digit_val (digit_char d) = int d" "\<not> is_space (digit_char d)"
    using assms c by (simp_all add: is_digit_def digit_val_def is_space_def)
  have "char_code CHR ''-'' = 45" "char_code CHR ''+'' = 43" by code_simp+
  with c show "digit_char d \<noteq> CHR ''-''" "digit_char d \<noteq> CHR ''+''" by auto
qed

lemma digits_from_snoc:
  "\<forall>c \<in> set xs. is_digit c \<Longrightarrow> is_digit d \<Longrightarrow>
   digits_from acc (xs @ [d]) = map_option (\<lambda>v. 10 * v + digit_val d) (digits_from acc xs)"
  by (induction acc xs rule: digits_from.induct) auto

lemma nat_str_digits: "\<forall>c \<in> set (nat_str n). is_digit c"
proof (induction n rule: nat_str.induct)
  case (1 n)
  then show ?case
    using nat_str.simps [of n] digit_char_facts(1) by (cases "n < 10") auto
qed

lemma nat_str_ne [simp]: "nat_str n \<noteq> []"
  using nat_str.simps [of n] by (cases "n < 10") auto

lemma digits_from_nat_str: "digits_from 0 (nat_str n) = Some (int n)"
proof (induction n rule: nat_str.induct)
  case (1 n)
  show ?case
  proof (cases "n < 10")
    case True
    then show ?thesis using nat_str.simps [of n] digit_char_facts [of n] by simp
  next
    case False
    have d: "n mod 10 < 10" by simp
    have "digits_from 0 (nat_str n) =
        map_option (\<lambda>v. 10 * v + int (n mod 10)) (digits_from 0 (nat_str (n div 10)))"
      using False nat_str.simps [of n] digits_from_snoc [OF nat_str_digits digit_char_facts(1) [OF d]]
        digit_char_facts(2) [OF d] by simp
    also have "\<dots> = Some (int n)"
      using 1 [OF False] by (simp flip: of_nat_add of_nat_mult add: mult.commute [of 10] zdiv_int zmod_int)
    finally show ?thesis .
  qed
qed

lemma not_space_digit: "is_digit c \<Longrightarrow> \<not> is_space c"
  by (auto simp: is_digit_def is_space_def Let_def)

lemma strip_no_space: "s \<noteq> [] \<Longrightarrow> \<not> is_space (hd s) \<Longrightarrow> \<not> is_space (last s) \<Longrightarrow> strip s = s"
proof -
  assume s: "s \<noteq> []" "\<not> is_space (hd s)" "\<not> is_space (last s)"
  then have "lstrip s = s" by (cases s) (auto simp: lstrip_def)
  moreover have "rstrip s = s"
    using s by (cases s rule: rev_cases) (auto simp: rstrip_def)
  ultimately show ?thesis by (simp add: strip_def)
qed

text \<open>Reading back a printed integer gives the integer.\<close>

lemma py_int_int_str [simp]: "py_int (int_str i) = Some i"
proof -
  have d: "hd (nat_str n) \<in> set (nat_str n)" "last (nat_str n) \<in> set (nat_str n)" for n by simp_all
  have digs: "is_digit (hd (nat_str n))" "is_digit (last (nat_str n))" for n
    using nat_str_digits d by blast+
  have u: "unsigned_int (nat_str n) = Some (int n)" for n
    using digs by (simp add: unsigned_int_def digits_from_nat_str)
  have minus: "\<not> is_space CHR ''-''" "\<not> is_digit CHR ''-''" "\<not> is_digit CHR ''+''" by code_simp+
  show ?thesis
  proof (cases "i < 0")
    case True
    then have "strip (int_str i) = CHR ''-'' # nat_str (nat (- i))"
      using minus digs not_space_digit by (simp add: int_str_def strip_no_space)
    with True u show ?thesis by (simp add: py_int_def)
  next
    case False
    have s: "strip (int_str i) = nat_str (nat i)"
      using False digs not_space_digit by (simp add: int_str_def strip_no_space)
    obtain c cs where c: "nat_str (nat i) = c # cs" by (cases "nat_str (nat i)") auto
    with digs [of "nat i"] minus have "c \<noteq> CHR ''-''" "c \<noteq> CHR ''+''" by auto
    with False s c u [of "nat i"] show ?thesis by (simp add: py_int_def)
  qed
qed

section \<open>Fixed-point text\<close>

definition pad_zeros :: "nat \<Rightarrow> string \<Rightarrow> string" where
  "pad_zeros n s = replicate (n - length s) CHR ''0'' @ s"

definition fmt_fixed :: "nat \<Rightarrow> real \<Rightarrow> string" where
  "fmt_fixed n x =
     (let k = nat (half_even (\<bar>x\<bar> * 10 ^ n));
          whole = nat_str (k div 10 ^ n);
          frac = (if n = 0 then [] else ''.'' @ pad_zeros n (nat_str (k mod 10 ^ n)))
      in (if x < 0 then ''-'' else []) @ whole @ frac)"

section \<open>Key-sorted JSON values\<close>

fun canonical :: "pyval \<Rightarrow> pyval" where
  "canonical (PDict d) = PDict (sort_key fst (map (\<lambda>(k, v). (k, canonical v)) d))"
| "canonical (PList xs) = PList (map canonical xs)"
| "canonical v = v"

lemma sort_key_sorted: "sorted (map f xs) \<Longrightarrow> sort_key f xs = xs"
  by (rule sort_key_id_if_sorted)

lemma canonical_idem [simp]: "canonical (canonical v) = canonical v"
proof (induction v rule: canonical.induct)
  case (1 d)
  let ?c = "\<lambda>(k, v). (k, canonical v)"
  let ?s = "sort_key fst (map ?c d)"
  have "map ?c ?s = ?s"
  proof (rule map_idI)
    fix p assume "p \<in> set ?s"
    then obtain k v where "(k, v) \<in> set d" "p = (k, canonical v)" by auto
    with 1 show "?c p = p" by auto
  qed
  then show ?case by (simp add: sort_key_sorted)
qed auto

lemma dget_canonical:
  assumes "distinct (map fst d)" and "canonical (PDict d) = PDict e"
  shows "dget e k = map_option canonical (dget d k)"
proof -
  let ?m = "map (\<lambda>(k, v). (k, canonical v)) d"
  have e: "e = sort_key fst ?m" using assms(2) by simp
  have "map fst ?m = map fst d" by (simp add: case_prod_beta comp_def)
  with assms(1) have m: "distinct (map fst ?m)" by metis
  note dm = iffD1 [OF distinct_map m]
  have set_e: "set e = set ?m" and "distinct e" using e dm by (simp_all only: set_sort distinct_sort)
  with dm have de: "distinct (map fst e)" by (metis distinct_map)
  have "map_of e = map_of ?m"
    using map_of_inject_set [OF de m] set_e by simp
  then have "dget e k = map_of ?m k" by (simp add: dget_def)
  also have "\<dots> = map_option canonical (dget d k)"
    by (simp add: dget_def map_of_map)
  finally show ?thesis .
qed

end
