(* ===== verification/Redis_Store.thy ===== *)
theory Redis_Store
  imports Py_Text "HOL-Library.Multiset"
begin

text \<open>
  The Redis commands the backend calls, as a record of operations on an opaque server state, and
  what the code relies on of them, as the locale \<open>redis_service\<close>. The server is not part of the
  repository: every definition that talks to it takes the record as its argument, and
  \<open>list_redis_ops\<close> is a server with association lists that satisfies the contract.

  A command here is one that reached the server; a lost connection is outside the model. A member
  of a sorted set is the key-sorted JSON value of a task, standing for the text
  \<open>json.dumps(task, sort_keys=True)\<close>; a string value is its text. The three lane keys hold sorted
  sets and every other key holds a string.
\<close>

record 'r redis_ops =
  zadd :: "'r \<Rightarrow> string \<Rightarrow> pyval \<Rightarrow> real \<Rightarrow> 'r"
  zpopmin :: "'r \<Rightarrow> string \<Rightarrow> nat \<Rightarrow> (pyval \<times> real) list \<times> 'r"
  zrange :: "'r \<Rightarrow> string \<Rightarrow> int \<Rightarrow> int \<Rightarrow> (pyval \<times> real) list"
  zcard :: "'r \<Rightarrow> string \<Rightarrow> nat"
  del_key :: "'r \<Rightarrow> string \<Rightarrow> 'r"
  get_key :: "'r \<Rightarrow> string \<Rightarrow> string option"
  set_key :: "'r \<Rightarrow> string \<Rightarrow> string \<Rightarrow> 'r"
  set_nx :: "'r \<Rightarrow> string \<Rightarrow> string \<Rightarrow> 'r"
  decrby :: "'r \<Rightarrow> string \<Rightarrow> int \<Rightarrow> (int \<times> 'r) option"
  enqueue_job :: "'r \<Rightarrow> string \<Rightarrow> pyval list \<Rightarrow> 'r option"
  arq_jobs :: "'r \<Rightarrow> (string \<times> pyval list) list"

definition lane_key :: "string \<Rightarrow> bool" where
  "lane_key k = (k \<in> {''vcbrain:collect:high'', ''vcbrain:collect:normal'', ''vcbrain:collect:low''})"

text \<open>What a client can see: the string values, the sorted sets, and the accepted jobs.\<close>

definition kv :: "'r redis_ops \<Rightarrow> 'r \<Rightarrow> string \<Rightarrow> string option" where
  "kv ops r k = (if lane_key k then None else get_key ops r k)"

definition zq :: "'r redis_ops \<Rightarrow> 'r \<Rightarrow> string \<Rightarrow> (pyval \<times> real) list" where
  "zq ops r k = (if lane_key k then zrange ops r k 0 (- 1) else [])"

section \<open>The contract\<close>

locale redis_service =
  fixes ops :: "'r redis_ops"
  assumes zq_sorted: "sorted (map snd (zq ops r k))"
    and zq_distinct: "distinct (map fst (zq ops r k))"
    and zadd_zq: "lane_key k \<Longrightarrow> map_of (zq ops (zadd ops r k m s) k) = (map_of (zq ops r k))(m \<mapsto> s)"
    and zadd_other: "lane_key k \<Longrightarrow> k' \<noteq> k \<Longrightarrow> zq ops (zadd ops r k m s) k' = zq ops r k'"
    and zadd_kv: "lane_key k \<Longrightarrow> kv ops (zadd ops r k m s) = kv ops r"
    and zadd_jobs: "arq_jobs ops (zadd ops r k m s) = arq_jobs ops r"
    and zpop_items: "lane_key k \<Longrightarrow> fst (zpopmin ops r k n) = take n (zq ops r k)"
    and zpop_zq: "lane_key k \<Longrightarrow>
      zq ops (snd (zpopmin ops r k n)) = (zq ops r)(k := drop n (zq ops r k))"
    and zpop_kv: "lane_key k \<Longrightarrow> kv ops (snd (zpopmin ops r k n)) = kv ops r"
    and zpop_jobs: "arq_jobs ops (snd (zpopmin ops r k n)) = arq_jobs ops r"
    and zrange_prefix: "lane_key k \<Longrightarrow> zrange ops r k 0 (int j) = take (Suc j) (zq ops r k)"
    and zcard_zq: "lane_key k \<Longrightarrow> zcard ops r k = length (zq ops r k)"
    and del_zq: "lane_key k \<Longrightarrow> zq ops (del_key ops r k) = (zq ops r)(k := [])"
    and del_kv: "lane_key k \<Longrightarrow> kv ops (del_key ops r k) = kv ops r"
    and set_kv: "\<not> lane_key k \<Longrightarrow> kv ops (set_key ops r k v) = (kv ops r)(k \<mapsto> v)"
    and set_zq: "\<not> lane_key k \<Longrightarrow> zq ops (set_key ops r k v) = zq ops r"
    and set_jobs: "arq_jobs ops (set_key ops r k v) = arq_jobs ops r"
    and setnx_kv: "\<not> lane_key k \<Longrightarrow>
      kv ops (set_nx ops r k v) = (if kv ops r k = None then (kv ops r)(k \<mapsto> v) else kv ops r)"
    and setnx_zq: "\<not> lane_key k \<Longrightarrow> zq ops (set_nx ops r k v) = zq ops r"
    and decr_new: "\<not> lane_key k \<Longrightarrow>
      kv ops r k \<in> {None, Some (int_str i)} \<Longrightarrow> (kv ops r k = None \<Longrightarrow> i = 0) \<Longrightarrow>
      - (2 ^ 63) \<le> i - amount \<Longrightarrow> i - amount < 2 ^ 63 \<Longrightarrow>
      \<exists>r'. decrby ops r k amount = Some (i - amount, r') \<and> kv ops r' = (kv ops r)(k \<mapsto> int_str (i - amount))
        \<and> zq ops r' = zq ops r \<and> arq_jobs ops r' = arq_jobs ops r"
    and job_kv: "enqueue_job ops r f xs = Some r' \<Longrightarrow> kv ops r' = kv ops r"
    and job_zq: "enqueue_job ops r f xs = Some r' \<Longrightarrow> zq ops r' = zq ops r"
    and job_jobs: "enqueue_job ops r f xs = Some r' \<Longrightarrow> arq_jobs ops r' = arq_jobs ops r @ [(f, xs)]"
begin

lemmas frame = zadd_kv zadd_jobs zpop_kv zpop_jobs del_kv set_zq set_jobs setnx_zq

lemma zadd_member: "lane_key k \<Longrightarrow> m \<in> fst ` set (zq ops (zadd ops r k m s) k)"
  using zadd_zq [of k r m s] by (metis domI dom_map_of_conv_image_fst fun_upd_same)

lemma zadd_members:
  "lane_key k \<Longrightarrow> fst ` set (zq ops (zadd ops r k m s) k) = insert m (fst ` set (zq ops r k))"
  using zadd_zq [of k r m s] by (metis dom_fun_upd dom_map_of_conv_image_fst option.distinct(1))

end

section \<open>A server that satisfies the contract\<close>

record list_redis =
  lr_kv :: "string dict"
  lr_z :: "(pyval \<times> real) list dict"
  lr_jobs :: "(string \<times> pyval list) list"

definition empty_redis :: list_redis where
  "empty_redis = \<lparr>lr_kv = [], lr_z = [], lr_jobs = []\<rparr>"

definition sorted_add :: "pyval \<Rightarrow> real \<Rightarrow> (pyval \<times> real) list \<Rightarrow> (pyval \<times> real) list" where
  "sorted_add m s xs = insort_key snd (m, s) (filter (\<lambda>p. fst p \<noteq> m) xs)"

text \<open>Stored lists are read through \<open>tidy\<close>, which the writers keep a no-op.\<close>

definition tidy :: "(pyval \<times> real) list \<Rightarrow> (pyval \<times> real) list" where
  "tidy xs = (if sorted (map snd xs) \<and> distinct (map fst xs) then xs else [])"

definition lr_zlist :: "list_redis \<Rightarrow> string \<Rightarrow> (pyval \<times> real) list" where
  "lr_zlist r k = tidy (case dget (lr_z r) k of Some xs \<Rightarrow> xs | None \<Rightarrow> [])"

definition list_redis_ops :: "(string \<Rightarrow> pyval list \<Rightarrow> bool) \<Rightarrow> list_redis redis_ops" where
  "list_redis_ops accept = \<lparr>
     zadd = (\<lambda>r k m s. r\<lparr>lr_z := dset (lr_z r) k (sorted_add m s (lr_zlist r k))\<rparr>),
     zpopmin = (\<lambda>r k n. (take n (lr_zlist r k), r\<lparr>lr_z := dset (lr_z r) k (drop n (lr_zlist r k))\<rparr>)),
     zrange = (\<lambda>r k i j. (let xs = lr_zlist r k;
          pos = (\<lambda>q. nat (if q < 0 then q + int (length xs) else q))
        in if j < - int (length xs) then [] else drop (pos i) (take (Suc (pos j)) xs))),
     zcard = (\<lambda>r k. length (lr_zlist r k)),
     del_key = (\<lambda>r k. if lane_key k then r\<lparr>lr_z := dset (lr_z r) k []\<rparr>
                      else r\<lparr>lr_kv := filter (\<lambda>p. fst p \<noteq> k) (lr_kv r)\<rparr>),
     get_key = (\<lambda>r k. dget (lr_kv r) k),
     set_key = (\<lambda>r k v. r\<lparr>lr_kv := dset (lr_kv r) k v\<rparr>),
     set_nx = (\<lambda>r k v. if dget (lr_kv r) k = None then r\<lparr>lr_kv := dset (lr_kv r) k v\<rparr> else r),
     decrby = (\<lambda>r k n. case (case dget (lr_kv r) k of None \<Rightarrow> Some 0 | Some t \<Rightarrow> py_int t) of
          None \<Rightarrow> None
        | Some i \<Rightarrow> Some (i - n, r\<lparr>lr_kv := dset (lr_kv r) k (int_str (i - n))\<rparr>)),
     enqueue_job = (\<lambda>r f xs. if accept f xs then Some (r\<lparr>lr_jobs := lr_jobs r @ [(f, xs)]\<rparr>) else None),
     arq_jobs = lr_jobs\<rparr>"

lemma lr_ops:
  "zadd (list_redis_ops a) r k m s = r\<lparr>lr_z := dset (lr_z r) k (sorted_add m s (lr_zlist r k))\<rparr>"
  "zpopmin (list_redis_ops a) r k n =
     (take n (lr_zlist r k), r\<lparr>lr_z := dset (lr_z r) k (drop n (lr_zlist r k))\<rparr>)"
  "zrange (list_redis_ops a) r k 0 (int j) = take (Suc j) (lr_zlist r k)"
  "zrange (list_redis_ops a) r k 0 (- 1) = lr_zlist r k"
  "zcard (list_redis_ops a) r k = length (lr_zlist r k)"
  "lane_key k \<Longrightarrow> del_key (list_redis_ops a) r k = r\<lparr>lr_z := dset (lr_z r) k []\<rparr>"
  "get_key (list_redis_ops a) r k = dget (lr_kv r) k"
  "set_key (list_redis_ops a) r k v = r\<lparr>lr_kv := dset (lr_kv r) k v\<rparr>"
  "set_nx (list_redis_ops a) r k v =
     (if dget (lr_kv r) k = None then r\<lparr>lr_kv := dset (lr_kv r) k v\<rparr> else r)"
  "decrby (list_redis_ops a) r k amount =
     (case (case dget (lr_kv r) k of None \<Rightarrow> Some 0 | Some t \<Rightarrow> py_int t) of
        None \<Rightarrow> None
      | Some i \<Rightarrow> Some (i - amount, r\<lparr>lr_kv := dset (lr_kv r) k (int_str (i - amount))\<rparr>))"
  "enqueue_job (list_redis_ops a) r f xs =
     (if a f xs then Some (r\<lparr>lr_jobs := lr_jobs r @ [(f, xs)]\<rparr>) else None)"
  "arq_jobs (list_redis_ops a) r = lr_jobs r"
  by (auto simp: list_redis_ops_def Let_def)

lemma map_of_filter_ne: "x \<noteq> m \<Longrightarrow> map_of (filter (\<lambda>p. fst p \<noteq> m) xs) x = map_of xs x"
  by (induction xs) auto

lemma tidy_ok [simp]: "sorted (map snd (tidy xs))" "distinct (map fst (tidy xs))"
  by (simp_all add: tidy_def)

lemma tidy_tidy [simp]: "tidy (tidy xs) = tidy xs" "tidy [] = []"
  by (simp_all add: tidy_def)

lemma tidy_take_drop:
  assumes "tidy xs = xs"
  shows "tidy (take n xs) = take n xs" "tidy (drop n xs) = drop n xs"
proof -
  have xs: "sorted (map snd xs)" "distinct (map fst xs)" using assms tidy_ok by metis+
  have "sorted (map snd (take n xs))" "distinct (map fst (take n xs))"
    using xs sorted_wrt_take distinct_take by (metis take_map)+
  then show "tidy (take n xs) = take n xs" by (simp add: tidy_def)
  have "sorted (map snd (drop n xs))" "distinct (map fst (drop n xs))"
    using xs sorted_wrt_drop distinct_drop by (metis drop_map)+
  then show "tidy (drop n xs) = drop n xs" by (simp add: tidy_def)
qed

lemma tidy_add:
  assumes "tidy xs = xs"
  shows "tidy (sorted_add m s xs) = sorted_add m s xs"
    and "map_of (sorted_add m s xs) = (map_of xs)(m \<mapsto> s)"
proof -
  let ?f = "filter (\<lambda>p. fst p \<noteq> m) xs"
  have xs: "sorted (map snd xs)" "distinct (map fst xs)" using assms tidy_ok by metis+
  have "sorted (map snd ?f)" using xs(1) by (simp add: sorted_filter)
  then have so: "sorted (map snd (sorted_add m s xs))"
    by (simp add: sorted_add_def sorted_insort_key)
  have df: "distinct (map fst ?f)" using xs(2) by (simp add: distinct_map_filter)
  have set: "set (sorted_add m s xs) = insert (m, s) (set ?f)"
    by (simp add: sorted_add_def set_insort_key)
  have di: "distinct (map fst (sorted_add m s xs))"
  proof -
    have "mset (sorted_add m s xs) = mset ((m, s) # ?f)" by (simp add: sorted_add_def)
    then have "mset (map fst (sorted_add m s xs)) = mset (map fst ((m, s) # ?f))" by simp
    moreover have "distinct (map fst ((m, s) # ?f))" using df by auto
    ultimately show ?thesis by (metis mset_eq_imp_distinct_iff)
  qed
  from so di show "tidy (sorted_add m s xs) = sorted_add m s xs" by (simp add: tidy_def)
  have "map_of (sorted_add m s xs) = map_of ((m, s) # ?f)"
    using map_of_inject_set [OF di, of "(m, s) # ?f"] df set by auto
  also have "\<dots> = (map_of xs)(m \<mapsto> s)"
    by (rule ext) (simp add: map_of_filter_ne)
  finally show "map_of (sorted_add m s xs) = (map_of xs)(m \<mapsto> s)" .
qed

lemma lr_zlist_tidy [simp]: "tidy (lr_zlist r k) = lr_zlist r k"
  by (simp add: lr_zlist_def)

lemma zq_list: "zq (list_redis_ops a) r k = (if lane_key k then lr_zlist r k else [])"
  by (auto simp: zq_def lr_ops Let_def)

lemma kv_list: "kv (list_redis_ops a) r k = (if lane_key k then None else dget (lr_kv r) k)"
  by (simp add: kv_def lr_ops)

lemma lr_zlist_set: "lr_zlist (r\<lparr>lr_z := dset (lr_z r) k xs\<rparr>) k' = (if k' = k then tidy xs else lr_zlist r k')"
  by (simp add: lr_zlist_def)

lemma lr_zlist_frame [simp]: "lr_zlist (r\<lparr>lr_kv := d\<rparr>) k = lr_zlist r k"
  "lr_zlist (r\<lparr>lr_jobs := js\<rparr>) k = lr_zlist r k"
  by (simp_all add: lr_zlist_def)

interpretation lr: redis_service "list_redis_ops accept" for accept :: "string \<Rightarrow> pyval list \<Rightarrow> bool"
proof (unfold_locales, goal_cases)
  case (1 r k) then show ?case by (simp add: zq_list lr_zlist_def)
next
  case (2 r k) then show ?case by (simp add: zq_list lr_zlist_def)
next
  case (3 k r m s) then show ?case by (simp add: zq_list lr_ops lr_zlist_set tidy_add)
next
  case (4 k k' r m s) then show ?case by (simp add: zq_list lr_ops lr_zlist_set)
next
  case (5 k r m s) then show ?case by (auto simp: fun_eq_iff kv_list lr_ops)
next
  case (6 r k m s) then show ?case by (simp add: lr_ops)
next
  case (7 k r n) then show ?case by (simp add: zq_list lr_ops)
next
  case (8 k r n) then show ?case by (auto simp: fun_eq_iff zq_list lr_ops lr_zlist_set tidy_take_drop)
next
  case (9 k r n) then show ?case by (auto simp: fun_eq_iff kv_list lr_ops)
next
  case (10 r k n) then show ?case by (simp add: lr_ops)
next
  case (11 k r j) then show ?case by (simp add: zq_list lr_ops Let_def)
next
  case (12 k r) then show ?case by (simp add: zq_list lr_ops)
next
  case (13 k r) then show ?case by (auto simp: fun_eq_iff zq_list lr_ops lr_zlist_set)
next
  case (14 k r) then show ?case by (auto simp: fun_eq_iff kv_list lr_ops)
next
  case (15 k r v) then show ?case by (auto simp: fun_eq_iff kv_list lr_ops)
next
  case (16 k r v) then show ?case by (auto simp: fun_eq_iff zq_list lr_ops)
next
  case (17 r k v) then show ?case by (simp add: lr_ops)
next
  case (18 k r v) then show ?case by (auto simp: fun_eq_iff kv_list lr_ops)
next
  case (19 k r v) then show ?case by (auto simp: fun_eq_iff zq_list lr_ops)
next
  case (20 k r i n)
  then have "(case dget (lr_kv r) k of None \<Rightarrow> Some 0 | Some t \<Rightarrow> py_int t) = Some i"
    by (auto simp: kv_list)
  then show ?case using 20(1) by (auto simp: fun_eq_iff kv_list zq_list lr_ops)
next
  case (21 r f xs r') then show ?case by (auto simp: fun_eq_iff kv_list lr_ops split: if_splits)
next
  case (22 r f xs r') then show ?case by (auto simp: fun_eq_iff zq_list lr_ops split: if_splits)
next
  case (23 r f xs r') then show ?case by (auto simp: lr_ops split: if_splits)
qed

end
