(* ===== verification/Collection_Queue.thy ===== *)
theory Collection_Queue
  imports Redis_Store
begin

text \<open>
  The priority queue, the budget counters and the page tracker of
  \<^verbatim>\<open>app/collectors/queue.py\<close>, and the dispatcher of \<^verbatim>\<open>app/collectors/jobs.py\<close> that moves
  queued tasks to Arq. A task is a JSON object, \<open>PDict\<close>. A failing \<open>int(...)\<close> or a command that
  Redis refuses is \<open>None\<close>.

  \<open>WATCH\<close>/\<open>MULTI\<close> is optimistic: an attempt is what the other clients do between \<open>WATCH\<close> and
  \<open>EXEC\<close>, with the flag that one of them wrote the watched key, which makes \<open>EXEC\<close> fail.
\<close>

section \<open>Lanes\<close>

definition queue_keys :: "string dict" where
  "queue_keys = [(''high'', ''vcbrain:collect:high''), (''normal'', ''vcbrain:collect:normal''),
     (''low'', ''vcbrain:collect:low'')]"

definition lane :: "real \<Rightarrow> string" where
  "lane priority = (if priority \<ge> 10 then ''high'' else if priority \<ge> 1 then ''normal'' else ''low'')"

definition queue_key :: "string \<Rightarrow> string" where
  "queue_key l = (case dget queue_keys l of Some k \<Rightarrow> k | None \<Rightarrow> [])"

definition task_key :: "pyval \<Rightarrow> pyval" where
  "task_key task = canonical task"

definition enqueue :: "'r redis_ops \<Rightarrow> 'r \<Rightarrow> pyval \<Rightarrow> real \<Rightarrow> 'r" where
  "enqueue ops r task priority = zadd ops r (queue_key (lane priority)) (task_key task) (- priority)"

definition lanes :: "string list" where
  "lanes = [''high'', ''normal'', ''low'']"

fun pop_lanes :: "'r redis_ops \<Rightarrow> string list \<Rightarrow> 'r \<Rightarrow> nat \<Rightarrow> (pyval \<times> real) list
    \<Rightarrow> (pyval \<times> real) list \<times> 'r" where
  "pop_lanes ops [] r n tasks = (tasks, r)"
| "pop_lanes ops (l # ls) r n tasks =
     (if n \<le> length tasks then (tasks, r)
      else (case zpopmin ops r (queue_key l) (n - length tasks) of
              (results, r') \<Rightarrow>
                pop_lanes ops ls r' n (tasks @ map (\<lambda>(member, score). (member, - score)) results)))"

definition pop_top_with_priority :: "'r redis_ops \<Rightarrow> 'r \<Rightarrow> nat \<Rightarrow> (pyval \<times> real) list \<times> 'r" where
  "pop_top_with_priority ops r n = pop_lanes ops lanes r n []"

definition pop_top :: "'r redis_ops \<Rightarrow> 'r \<Rightarrow> nat \<Rightarrow> pyval list \<times> 'r" where
  "pop_top ops r n = (case pop_top_with_priority ops r n of (ts, r') \<Rightarrow> (map fst ts, r'))"

fun peek_lanes :: "'r redis_ops \<Rightarrow> string list \<Rightarrow> 'r \<Rightarrow> nat \<Rightarrow> pyval list \<Rightarrow> pyval list" where
  "peek_lanes ops [] r n tasks = tasks"
| "peek_lanes ops (l # ls) r n tasks =
     (if n \<le> length tasks then tasks
      else peek_lanes ops ls r n
             (tasks @ map fst (zrange ops r (queue_key l) 0 (int n - int (length tasks) - 1))))"

definition peek :: "'r redis_ops \<Rightarrow> 'r \<Rightarrow> nat \<Rightarrow> pyval list" where
  "peek ops r n = peek_lanes ops lanes r n []"

definition queue_depth :: "'r redis_ops \<Rightarrow> 'r \<Rightarrow> nat dict" where
  "queue_depth ops r = map (\<lambda>(l, key). (l, zcard ops r key)) queue_keys"

definition clear_all :: "'r redis_ops \<Rightarrow> 'r \<Rightarrow> 'r" where
  "clear_all ops r = foldl (\<lambda>acc (l, key). del_key ops acc key) r queue_keys"

section \<open>Budgets\<close>

definition tavily_budget_key :: string where "tavily_budget_key = ''vcbrain:budget:tavily''"
definition agent_budget_key :: string where "agent_budget_key = ''vcbrain:budget:agent''"

definition budget_of :: "string option \<Rightarrow> int option" where
  "budget_of val = (if str_truthy val then py_int (the val) else Some 0)"

definition get_tavily_budget_remaining :: "'r redis_ops \<Rightarrow> 'r \<Rightarrow> int option" where
  "get_tavily_budget_remaining ops r = budget_of (get_key ops r tavily_budget_key)"

definition decrement_tavily_budget :: "'r redis_ops \<Rightarrow> 'r \<Rightarrow> int \<Rightarrow> (int \<times> 'r) option" where
  "decrement_tavily_budget ops r amount = decrby ops r tavily_budget_key amount"

definition reset_tavily_budget :: "'r redis_ops \<Rightarrow> 'r \<Rightarrow> int \<Rightarrow> 'r" where
  "reset_tavily_budget ops r monthly_limit = set_key ops r tavily_budget_key (int_str monthly_limit)"

definition initialize_tavily_budget :: "'r redis_ops \<Rightarrow> 'r \<Rightarrow> int \<Rightarrow> 'r" where
  "initialize_tavily_budget ops r monthly_limit = set_nx ops r tavily_budget_key (int_str monthly_limit)"

definition get_agent_budget_remaining :: "'r redis_ops \<Rightarrow> 'r \<Rightarrow> int option" where
  "get_agent_budget_remaining ops r = budget_of (get_key ops r agent_budget_key)"

definition decrement_agent_budget :: "'r redis_ops \<Rightarrow> 'r \<Rightarrow> int \<Rightarrow> (int \<times> 'r) option" where
  "decrement_agent_budget ops r amount = decrby ops r agent_budget_key amount"

definition reset_agent_budget :: "'r redis_ops \<Rightarrow> 'r \<Rightarrow> int \<Rightarrow> 'r" where
  "reset_agent_budget ops r monthly_limit = set_key ops r agent_budget_key (int_str monthly_limit)"

definition initialize_agent_budget :: "'r redis_ops \<Rightarrow> 'r \<Rightarrow> int \<Rightarrow> 'r" where
  "initialize_agent_budget ops r monthly_limit = set_nx ops r agent_budget_key (int_str monthly_limit)"

section \<open>The page tracker\<close>

type_synonym 'r attempt = "('r \<Rightarrow> 'r) \<times> bool"

definition max_discovery_page :: int where "max_discovery_page = 10"

definition page_key :: "string \<Rightarrow> string \<Rightarrow> string" where
  "page_key source query = ''vcbrain:page:'' @ source @ '':'' @ query"

definition next_page :: "int \<Rightarrow> int" where
  "next_page current = (let page = current + 1 in if page > max_discovery_page then 1 else page)"

fun reserve_page :: "'r redis_ops \<Rightarrow> 'r attempt list \<Rightarrow> 'r \<Rightarrow> string \<Rightarrow> (string + int) \<times> 'r" where
  "reserve_page ops [] r key = (Inl ''discovery page reservation conflicted repeatedly'', r)"
| "reserve_page ops ((others, touched) # rest) r key =
     (let current = (case get_key ops r key of None \<Rightarrow> 0
                     | Some raw \<Rightarrow> (case py_int raw of Some i \<Rightarrow> i | None \<Rightarrow> 0));
          page = next_page current;
          r' = others r
      in if touched then reserve_page ops rest r' key
         else (Inr page, set_key ops r' key (int_str page)))"

definition get_discovery_page ::
  "'r redis_ops \<Rightarrow> (nat \<Rightarrow> 'r attempt) \<Rightarrow> 'r \<Rightarrow> string \<Rightarrow> string \<Rightarrow> (string + int) \<times> 'r" where
  "get_discovery_page ops attempts r source query =
     reserve_page ops (map attempts [0..<3]) r (page_key source query)"

fun return_page :: "'r redis_ops \<Rightarrow> 'r attempt list \<Rightarrow> 'r \<Rightarrow> string \<Rightarrow> int \<Rightarrow> 'r" where
  "return_page ops [] r key page = r"
| "return_page ops ((others, touched) # rest) r key page =
     (case (case get_key ops r key of None \<Rightarrow> Some 0 | Some raw \<Rightarrow> py_int raw) of
        None \<Rightarrow> r
      | Some current \<Rightarrow>
          (if current \<noteq> page then r
           else if touched then return_page ops rest (others r) key page
           else set_key ops (others r) key (int_str (max 0 (page - 1)))))"

definition rollback_discovery_page ::
  "'r redis_ops \<Rightarrow> (nat \<Rightarrow> 'r attempt) \<Rightarrow> 'r \<Rightarrow> string \<Rightarrow> string \<Rightarrow> int \<Rightarrow> 'r" where
  "rollback_discovery_page ops attempts r source query page =
     return_page ops (map attempts [0..<3]) r (page_key source query) page"

definition reset_discovery_page :: "'r redis_ops \<Rightarrow> 'r \<Rightarrow> string \<Rightarrow> string \<Rightarrow> 'r" where
  "reset_discovery_page ops r source query = set_key ops r (page_key source query) (int_str 0)"

section \<open>The dispatcher\<close>

fun task_get :: "pyval \<Rightarrow> string \<Rightarrow> pyval \<Rightarrow> pyval" where
  "task_get (PDict d) k dflt = (case dget d k of Some v \<Rightarrow> v | None \<Rightarrow> dflt)"
| "task_get v k dflt = dflt"

definition job_call :: "pyval \<Rightarrow> string \<times> pyval list" where
  "job_call task =
     (let txt = (\<lambda>k. task_get task k (PStr [])); opt = (\<lambda>k. task_get task k PNone);
          job_type = task_get task ''job_type'' (PStr ''collect'')
      in if job_type = PStr ''discover''
           then (''discover_job'', [txt ''query'', txt ''source'', opt ''job_id''])
         else if job_type = PStr ''resolve_identities''
           then (''resolve_identities_job'', [opt ''job_id''])
         else if job_type = PStr ''research_candidate''
           then (''research_candidate_job'', [txt ''person_id'', txt ''opportunity_id'', opt ''job_id''])
         else if job_type = PStr ''fetch_candidate_avatar''
           then (''fetch_candidate_avatar_job'', [txt ''person_id'', opt ''job_id''])
         else if job_type = PStr ''score_candidate''
           then (''score_candidate_job'', [txt ''person_id'', opt ''job_id''])
         else if job_type = PStr ''generate_memo''
           then (''generate_memo_job'', [txt ''person_id'', txt ''opportunity_id'', opt ''job_id''])
         else if job_type = PStr ''process_candidate''
           then (''process_candidate_job'', [txt ''person_id'', opt ''job_id''])
         else if job_type = PStr ''process_inbound_pitch''
           then (''process_inbound_pitch_job'', [txt ''person_id'', txt ''snapshot_id'',
             txt ''opportunity_id'', txt ''company_name'', opt ''founder_evidence'', opt ''job_id''])
         else if job_type = PStr ''contact_outbound''
           then (''contact_outbound_job'', [txt ''person_id''])
         else (''collect_job'', [txt ''person_id'', txt ''source'',
             task_get task ''depth'' (PStr ''deep''), txt ''handle'', opt ''job_id'']))"

definition enqueue_arq_job :: "'r redis_ops \<Rightarrow> 'r \<Rightarrow> pyval \<Rightarrow> 'r option" where
  "enqueue_arq_job ops r task = (case job_call task of (f, xs) \<Rightarrow> enqueue_job ops r f xs)"

definition is_tavily :: "pyval \<Rightarrow> bool" where
  "is_tavily task = (task_get task ''source'' (PStr []) = PStr ''tavily_search'')"

fun dispatch_tasks :: "'r redis_ops \<Rightarrow> (pyval \<times> real) list \<Rightarrow> 'r \<Rightarrow> int \<Rightarrow> nat \<Rightarrow> nat
    \<Rightarrow> ('r \<times> nat \<times> nat) option" where
  "dispatch_tasks ops [] r tavily enqueued failed = Some (r, enqueued, failed)"
| "dispatch_tasks ops ((task, task_priority) # rest) r tavily enqueued failed =
     (if is_tavily task \<and> tavily \<le> 0
      then dispatch_tasks ops rest (enqueue ops r task (1 / 10)) tavily enqueued failed
      else (case (if is_tavily task then map_option snd (decrement_tavily_budget ops r 1) else Some r) of
        None \<Rightarrow> None
      | Some r1 \<Rightarrow>
          (let tavily1 = (if is_tavily task then tavily - 1 else tavily)
           in case enqueue_arq_job ops r1 task of
                Some r2 \<Rightarrow> dispatch_tasks ops rest r2 tavily1 (enqueued + 1) failed
              | None \<Rightarrow>
                  (let r2 = enqueue ops r1 task task_priority
                   in case (if is_tavily task then map_option snd (decrement_tavily_budget ops r2 (- 1))
                            else Some r2) of
                        None \<Rightarrow> None
                      | Some r3 \<Rightarrow> dispatch_tasks ops rest r3
                          (if is_tavily task then tavily1 + 1 else tavily1) enqueued (failed + 1)))))"

definition dispatcher_job :: "'r redis_ops \<Rightarrow> nat \<Rightarrow> 'r \<Rightarrow> ((nat \<times> nat \<times> nat dict) \<times> 'r) option" where
  "dispatcher_job ops concurrency r =
     (case get_tavily_budget_remaining ops r of
        None \<Rightarrow> None
      | Some tavily \<Rightarrow>
          (case pop_top_with_priority ops r concurrency of
             (tasks, r1) \<Rightarrow>
               (case dispatch_tasks ops tasks r1 tavily 0 0 of
                  None \<Rightarrow> None
                | Some (r2, enqueued, failed) \<Rightarrow> Some ((enqueued, failed, queue_depth ops r2), r2))))"

section \<open>The queue as a list\<close>

text \<open>
  The abstract queue: the tasks that wait, in the order they will be popped, with their
  priorities. A lane is well placed when it holds only priorities of its band.
\<close>

definition lane_tasks :: "'r redis_ops \<Rightarrow> 'r \<Rightarrow> string \<Rightarrow> (pyval \<times> real) list" where
  "lane_tasks ops r l = map (\<lambda>(m, s). (m, - s)) (zq ops r (queue_key l))"

definition pending :: "'r redis_ops \<Rightarrow> 'r \<Rightarrow> (pyval \<times> real) list" where
  "pending ops r = concat (map (lane_tasks ops r) lanes)"

definition lanes_ok :: "'r redis_ops \<Rightarrow> 'r \<Rightarrow> bool" where
  "lanes_ok ops r = (\<forall>l \<in> set lanes. \<forall>(m, p) \<in> set (lane_tasks ops r l). lane p = l)"

lemma queue_key_simps [simp]:
  "queue_key ''high'' = ''vcbrain:collect:high''" "queue_key ''normal'' = ''vcbrain:collect:normal''"
  "queue_key ''low'' = ''vcbrain:collect:low''"
  by (simp_all add: queue_key_def queue_keys_def)

lemma lane_key_queue_key: "l \<in> set lanes \<Longrightarrow> lane_key (queue_key l)"
  by (auto simp: lanes_def lane_key_def)

lemma lane_in_lanes [simp]: "lane p \<in> set lanes"
  by (simp add: lane_def lanes_def)

lemma queue_key_inj: "l \<in> set lanes \<Longrightarrow> l' \<in> set lanes \<Longrightarrow> queue_key l = queue_key l' \<longleftrightarrow> l = l'"
  by (auto simp: lanes_def)

lemma budget_keys_not_lane [simp]: "\<not> lane_key tavily_budget_key" "\<not> lane_key agent_budget_key"
  "\<not> lane_key (page_key s q)"
  by (simp_all add: lane_key_def tavily_budget_key_def agent_budget_key_def page_key_def)

lemma kv_get: "\<not> lane_key k \<Longrightarrow> get_key ops r k = kv ops r k"
  by (simp add: kv_def)

lemma task_key_idem [simp]: "task_key (task_key t) = task_key t"
  by (simp add: task_key_def)

context redis_service
begin

lemma pop_lanes_pending:
  assumes "set ls \<subseteq> set lanes" "distinct ls"
  shows "fst (pop_lanes ops ls r n tasks)
           = tasks @ take (n - length tasks) (concat (map (lane_tasks ops r) ls))
      \<and> concat (map (lane_tasks ops (snd (pop_lanes ops ls r n tasks))) ls)
           = drop (n - length tasks) (concat (map (lane_tasks ops r) ls))
      \<and> (\<forall>k. k \<notin> queue_key ` set ls \<longrightarrow> zq ops (snd (pop_lanes ops ls r n tasks)) k = zq ops r k)
      \<and> kv ops (snd (pop_lanes ops ls r n tasks)) = kv ops r
      \<and> arq_jobs ops (snd (pop_lanes ops ls r n tasks)) = arq_jobs ops r"
  using assms
proof (induction ls arbitrary: r tasks)
  case Nil
  then show ?case by simp
next
  case (Cons l ls)
  show ?case
  proof (cases "n \<le> length tasks")
    case True
    then show ?thesis by simp
  next
    case False
    let ?n = "n - length tasks"
    let ?x = "lane_tasks ops r l"
    obtain results r' where z: "zpopmin ops r (queue_key l) ?n = (results, r')" by fastforce
    have lk: "lane_key (queue_key l)" using Cons.prems lane_key_queue_key by auto
    have res: "map (\<lambda>(m, s). (m, - s)) results = take ?n ?x"
      using zpop_items [OF lk, of r ?n] z by (simp add: lane_tasks_def take_map)
    have zq': "zq ops r' = (zq ops r)(queue_key l := drop ?n (zq ops r (queue_key l)))"
      using zpop_zq [OF lk, of r ?n] z by simp
    have other: "lane_tasks ops r' l' = lane_tasks ops r l'" if "l' \<in> set ls" for l'
      using that Cons.prems queue_key_inj [of l' l] by (auto simp: lane_tasks_def zq')
    have rest: "concat (map (lane_tasks ops r') ls) = concat (map (lane_tasks ops r) ls)"
      using other by (metis map_eq_conv)
    have frame: "kv ops r' = kv ops r" "arq_jobs ops r' = arq_jobs ops r"
      using zpop_kv [OF lk, of r ?n] zpop_jobs [of r "queue_key l" ?n] z by simp_all
    let ?t = "tasks @ take ?n ?x"
    let ?r = "snd (pop_lanes ops ls r' n ?t)"
    have IH: "fst (pop_lanes ops ls r' n ?t) = ?t @ take (n - length ?t) (concat (map (lane_tasks ops r) ls))
        \<and> concat (map (lane_tasks ops ?r) ls) = drop (n - length ?t) (concat (map (lane_tasks ops r) ls))
        \<and> (\<forall>k. k \<notin> queue_key ` set ls \<longrightarrow> zq ops ?r k = zq ops r' k)
        \<and> kv ops ?r = kv ops r' \<and> arq_jobs ops ?r = arq_jobs ops r'"
      using Cons.IH [of r' ?t] Cons.prems unfolding rest by simp
    have "queue_key l \<notin> queue_key ` set ls"
      using Cons.prems queue_key_inj by auto
    with IH have own: "lane_tasks ops ?r l = drop ?n ?x"
      by (simp add: lane_tasks_def zq' drop_map)
    have step: "pop_lanes ops (l # ls) r n tasks = pop_lanes ops ls r' n ?t"
      using False z res by simp
    from False have len: "n - (length tasks + min (length ?x) ?n) = ?n - length ?x" by auto
    show ?thesis unfolding step
      using IH own frame by (auto simp: len zq')
  qed
qed

lemma pop_pending:
  "fst (pop_top_with_priority ops r n) = take n (pending ops r)"
  "pending ops (snd (pop_top_with_priority ops r n)) = drop n (pending ops r)"
  "kv ops (snd (pop_top_with_priority ops r n)) = kv ops r"
  "arq_jobs ops (snd (pop_top_with_priority ops r n)) = arq_jobs ops r"
  using pop_lanes_pending [of lanes r n "[]"]
  by (simp_all add: pop_top_with_priority_def pending_def lanes_def)

lemma enqueue_frame:
  "kv ops (enqueue ops r t p) = kv ops r" "arq_jobs ops (enqueue ops r t p) = arq_jobs ops r"
  by (simp_all add: enqueue_def zadd_kv zadd_jobs lane_key_queue_key)

lemma enqueue_lane:
  assumes "l \<in> set lanes"
  shows "map_of (zq ops (enqueue ops r t p) (queue_key l)) =
    (if l = lane p then (map_of (zq ops r (queue_key l)))(task_key t \<mapsto> - p)
     else map_of (zq ops r (queue_key l)))"
  using assms zadd_zq [of "queue_key (lane p)"] zadd_other [of "queue_key (lane p)" "queue_key l"]
  by (auto simp: enqueue_def lane_key_queue_key queue_key_inj)

lemma lane_tasks_map_of: "(m, p) \<in> set (lane_tasks ops r l) \<longleftrightarrow> map_of (zq ops r (queue_key l)) m = Some (- p)"
proof -
  have "(m, p) \<in> set (lane_tasks ops r l) \<longleftrightarrow> (m, - p) \<in> set (zq ops r (queue_key l))"
    by (force simp: lane_tasks_def)
  then show ?thesis using zq_distinct by simp
qed

lemma pending_iff: "(m, p) \<in> set (pending ops r) \<longleftrightarrow>
    (\<exists>l \<in> set lanes. map_of (zq ops r (queue_key l)) m = Some (- p))"
  by (auto simp: pending_def lane_tasks_map_of)

lemma lanes_ok_enqueue: "lanes_ok ops r \<Longrightarrow> lanes_ok ops (enqueue ops r t p)"
  unfolding lanes_ok_def
  by (force simp: lane_tasks_map_of enqueue_lane split: if_splits)

lemma lanes_ok_pop:
  assumes "lanes_ok ops r"
  shows "lanes_ok ops (snd (pop_top_with_priority ops r n))"
proof -
  have "\<forall>l \<in> set lanes. set (zq ops (snd (pop_lanes ops ls r n tasks)) (queue_key l))
      \<subseteq> set (zq ops r (queue_key l))" if "set ls \<subseteq> set lanes" for ls tasks
    using that
  proof (induction ls arbitrary: r tasks)
    case (Cons k ls)
    obtain results r' where z: "zpopmin ops r (queue_key k) (n - length tasks) = (results, r')"
      by fastforce
    have "lane_key (queue_key k)" using Cons.prems lane_key_queue_key by auto
    from zpop_zq [OF this, of r "n - length tasks"] z
    have "set (zq ops r' (queue_key l)) \<subseteq> set (zq ops r (queue_key l))" for l
      by (auto dest: in_set_dropD)
    with Cons.IH [of r'] Cons.prems z show ?case
      by (auto simp: subset_iff)
  qed simp
  from this [of lanes "[]"] assms show ?thesis
    unfolding lanes_ok_def lane_tasks_def pop_top_with_priority_def by fastforce
qed

lemma lane_sorted: "sorted_wrt (\<lambda>a b. snd b \<le> snd a) (lane_tasks ops r l)"
proof -
  have "sorted_wrt (\<lambda>a b. snd a \<le> snd b) (zq ops r (queue_key l))"
    using zq_sorted [of r "queue_key l"] by (simp add: sorted_wrt_map)
  then show ?thesis
    by (auto simp: lane_tasks_def sorted_wrt_map case_prod_beta elim: sorted_wrt_mono_rel [rotated])
qed

lemma pending_sorted:
  assumes "lanes_ok ops r"
  shows "sorted_wrt (\<lambda>a b. snd b \<le> snd a) (pending ops r)"
proof -
  have band: "lane p = l" if "l \<in> set lanes" "(m, p) \<in> set (lane_tasks ops r l)" for l m p
    using assms that by (fastforce simp: lanes_ok_def)
  have "snd b \<le> snd a" if "a \<in> set (lane_tasks ops r ''high'')"
    "b \<in> set (lane_tasks ops r ''normal'') \<union> set (lane_tasks ops r ''low'')" for a b
    using that band [of "''high''" "fst a" "snd a"] band [of "''normal''" "fst b" "snd b"]
      band [of "''low''" "fst b" "snd b"]
    by (auto simp: lanes_def lane_def split: if_splits)
  moreover have "snd b \<le> snd a" if "a \<in> set (lane_tasks ops r ''normal'')"
    "b \<in> set (lane_tasks ops r ''low'')" for a b
    using that band [of "''normal''" "fst a" "snd a"] band [of "''low''" "fst b" "snd b"]
    by (auto simp: lanes_def lane_def split: if_splits)
  ultimately show ?thesis
    using lane_sorted by (auto simp: pending_def lanes_def sorted_wrt_append)
qed

lemma decrement_tavily:
  assumes "kv ops r tavily_budget_key = Some (int_str b)" "\<bar>b\<bar> < 2 ^ 62" "\<bar>n\<bar> \<le> 1"
  shows "\<exists>r'. decrement_tavily_budget ops r n = Some (b - n, r')
    \<and> kv ops r' = (kv ops r)(tavily_budget_key \<mapsto> int_str (b - n)) \<and> zq ops r' = zq ops r
    \<and> arq_jobs ops r' = arq_jobs ops r"
  using decr_new [of tavily_budget_key r b n] assms by (auto simp: decrement_tavily_budget_def)

text \<open>
  One pass of the dispatcher over popped tasks: every task becomes a job or waits again, no waiting
  task is removed, and the budget falls by the number of Tavily tasks that became jobs.
\<close>

lemma pending_enqueue_keys:
  "insert (task_key t) (fst ` set (pending ops r)) \<subseteq> fst ` set (pending ops (enqueue ops r t p))"
proof
  fix m assume m: "m \<in> insert (task_key t) (fst ` set (pending ops r))"
  have "\<exists>l \<in> set lanes. \<exists>s. map_of (zq ops (enqueue ops r t p) (queue_key l)) m = Some s"
  proof (cases "m = task_key t")
    case True
    then have "map_of (zq ops (enqueue ops r t p) (queue_key (lane p))) m = Some (- p)"
      by (simp add: enqueue_lane)
    then show ?thesis using lane_in_lanes by blast
  next
    case False
    with m obtain l q where l: "l \<in> set lanes" "map_of (zq ops r (queue_key l)) m = Some (- q)"
      using pending_iff [of m _ r] by fastforce
    with False have "map_of (zq ops (enqueue ops r t p) (queue_key l)) m = Some (- q)"
      by (auto simp: enqueue_lane)
    with l show ?thesis by blast
  qed
  then obtain l s where "l \<in> set lanes" "map_of (zq ops (enqueue ops r t p) (queue_key l)) m = Some s"
    by blast
  then have "(m, - s) \<in> set (pending ops (enqueue ops r t p))"
    by (auto simp: pending_iff)
  then show "m \<in> fst ` set (pending ops (enqueue ops r t p))" by force
qed

lemma pending_cong: "zq ops r = zq ops r' \<Longrightarrow> pending ops r = pending ops r'"
  by (simp add: pending_def lane_tasks_def [abs_def])

definition conserved :: "(pyval \<times> real) list \<Rightarrow> 'r \<Rightarrow> int \<Rightarrow> 'r \<Rightarrow> pyval list \<Rightarrow> bool" where
  "conserved ts r tavily r' started \<longleftrightarrow>
     subseq started (map fst ts)
     \<and> arq_jobs ops r' = arq_jobs ops r @ map job_call started
     \<and> (\<forall>t \<in> fst ` set ts. t \<in> set started \<or> task_key t \<in> fst ` set (pending ops r'))
     \<and> fst ` set (pending ops r) \<subseteq> fst ` set (pending ops r')
     \<and> kv ops r' = (kv ops r)(tavily_budget_key :=
          if tavily \<le> 0 then kv ops r tavily_budget_key
          else Some (int_str (tavily - int (length (filter is_tavily started)))))
     \<and> (tavily \<le> 0 \<longrightarrow> filter is_tavily started = [])"

lemma conserved_wait:
  assumes "conserved ts r1 tavily r' started" "kv ops r1 = kv ops r" "arq_jobs ops r1 = arq_jobs ops r"
    and sub: "insert (task_key t) (fst ` set (pending ops r)) \<subseteq> fst ` set (pending ops r1)"
  shows "conserved ((t, q) # ts) r tavily r' started"
proof -
  from assms(1) have "fst ` set (pending ops r1) \<subseteq> fst ` set (pending ops r')"
    by (simp add: conserved_def)
  from subset_trans [OF sub this] assms(1-3) show ?thesis by (auto simp: conserved_def)
qed

lemma conserved_requeue:
  "conserved ts (enqueue ops r t p) tavily r' started \<Longrightarrow> conserved ((t, q) # ts) r tavily r' started"
  using conserved_wait [OF _ _ _ pending_enqueue_keys [of t r p]] by (simp add: enqueue_frame)

lemma conserved_start:
  assumes "conserved ts r1 tavily1 r' started"
    and "zq ops r1 = zq ops r" "arq_jobs ops r1 = arq_jobs ops r @ [job_call t]"
    and "kv ops r1 = (kv ops r)(tavily_budget_key :=
           if is_tavily t then Some (int_str tavily1) else kv ops r tavily_budget_key)"
    and "tavily1 = (if is_tavily t then tavily - 1 else tavily)" "is_tavily t \<Longrightarrow> 0 < tavily"
  shows "conserved ((t, p) # ts) r tavily r' (t # started)"
proof -
  have "pending ops r1 = pending ops r" by (rule pending_cong) (fact assms(2))
  moreover have "(kv ops r1)(tavily_budget_key :=
          if tavily1 \<le> 0 then kv ops r1 tavily_budget_key
          else Some (int_str (tavily1 - int (length (filter is_tavily started)))))
     = (kv ops r)(tavily_budget_key :=
          if tavily \<le> 0 then kv ops r tavily_budget_key
          else Some (int_str (tavily - int (length (filter is_tavily (t # started))))))"
  proof (cases "tavily1 \<le> 0")
    case True
    with assms(1) have "filter is_tavily started = []" by (simp add: conserved_def)
    with True assms(4-6) show ?thesis by (auto simp: fun_eq_iff)
  next
    case False
    with assms(4-6) show ?thesis by (auto simp: fun_eq_iff algebra_simps)
  qed
  moreover have "tavily \<le> 0 \<longrightarrow> filter is_tavily (t # started) = []"
    using assms(1,5,6) by (auto simp: conserved_def)
  ultimately show ?thesis
    using assms(1,3) by (auto simp: conserved_def)
qed

lemma dispatch_conserves:
  assumes "tavily > 0 \<Longrightarrow> kv ops r tavily_budget_key = Some (int_str tavily)" "\<bar>tavily\<bar> < 2 ^ 62"
  shows "\<exists>r' started m. conserved ts r tavily r' started
    \<and> dispatch_tasks ops ts r tavily enq fld = Some (r', enq + length started, fld + m)"
  using assms
proof (induction ts arbitrary: r tavily enq fld)
  case Nil
  then show ?case by (auto simp: conserved_def fun_upd_idem)
next
  case (Cons tp ts)
  obtain t p where tp: "tp = (t, p)" by force
  note job = job_kv job_zq job_jobs
  show ?case
  proof (cases "is_tavily t \<and> tavily \<le> 0")
    case True
    from Cons.IH [of tavily "enqueue ops r t (1 / 10)" enq fld] Cons.prems True show ?thesis
      using conserved_requeue by (auto simp: tp enqueue_frame) blast
  next
    case False
    show ?thesis
    proof (cases "is_tavily t")
      case nt: False
      show ?thesis
      proof (cases "enqueue_arq_job ops r t")
        case None
        from Cons.IH [of tavily "enqueue ops r t p" enq "fld + 1"] Cons.prems nt None show ?thesis
          using conserved_requeue by (auto simp: tp enqueue_frame) (metis add_Suc_shift)
      next
        case (Some r2)
        then have e: "enqueue_job ops r (fst (job_call t)) (snd (job_call t)) = Some r2"
          by (simp add: enqueue_arq_job_def case_prod_beta)
        from Cons.IH [of tavily r2 "enq + 1" fld] Cons.prems job [OF e]
        obtain r' started m where c: "conserved ts r2 tavily r' started"
          "dispatch_tasks ops ts r2 tavily (enq + 1) fld = Some (r', enq + 1 + length started, fld + m)"
          by auto
        have "conserved ((t, p) # ts) r tavily r' (t # started)"
          by (rule conserved_start [OF c(1)]) (use job [OF e] nt in auto)
        with c(2) nt Some show ?thesis by (auto simp: tp)
      qed
    next
      case tv: True
      with False have pos: "0 < tavily" by simp
      with Cons.prems decrement_tavily [of r tavily 1] obtain r1 where
        d: "decrement_tavily_budget ops r 1 = Some (tavily - 1, r1)"
        and kv1: "kv ops r1 = (kv ops r)(tavily_budget_key \<mapsto> int_str (tavily - 1))"
        and zq1: "zq ops r1 = zq ops r" and j1: "arq_jobs ops r1 = arq_jobs ops r" by auto
      show ?thesis
      proof (cases "enqueue_arq_job ops r1 t")
        case (Some r2)
        then have e: "enqueue_job ops r1 (fst (job_call t)) (snd (job_call t)) = Some r2"
          by (simp add: enqueue_arq_job_def case_prod_beta)
        from Cons.IH [of "tavily - 1" r2 "enq + 1" fld] Cons.prems(2) pos job [OF e] kv1
        obtain r' started m where c: "conserved ts r2 (tavily - 1) r' started"
          "dispatch_tasks ops ts r2 (tavily - 1) (enq + 1) fld
             = Some (r', enq + 1 + length started, fld + m)"
          by auto
        have "conserved ((t, p) # ts) r tavily r' (t # started)"
          by (rule conserved_start [OF c(1)]) (use job [OF e] tv pos kv1 zq1 j1 in auto)
        with c(2) tv pos d Some show ?thesis by (auto simp: tp)
      next
        case None
        let ?r2 = "enqueue ops r1 t p"
        from decrement_tavily [of ?r2 "tavily - 1" "- 1"] kv1 pos Cons.prems(2) obtain r3 where
          d3: "decrement_tavily_budget ops ?r2 (- 1) = Some (tavily, r3)"
          and r3: "kv ops r3 = (kv ops r1)(tavily_budget_key \<mapsto> int_str tavily)"
            "zq ops r3 = zq ops ?r2" "arq_jobs ops r3 = arq_jobs ops r1"
          by (auto simp: enqueue_frame)
        from Cons.prems(1) pos r3(1) kv1 have kv3: "kv ops r3 = kv ops r"
          by (auto simp: fun_eq_iff)
        from Cons.IH [of tavily r3 enq "fld + 1"] Cons.prems kv3
        obtain r' started m where c: "conserved ts r3 tavily r' started"
          "dispatch_tasks ops ts r3 tavily enq (fld + 1) = Some (r', enq + length started, fld + 1 + m)"
          by auto
        have "insert (task_key t) (fst ` set (pending ops r)) \<subseteq> fst ` set (pending ops r3)"
          using pending_enqueue_keys [of t r1 p] pending_cong [OF r3(2)] pending_cong [OF zq1] by simp
        then have "conserved ((t, p) # ts) r tavily r' started"
          using conserved_wait [OF c(1) kv3, of t p] r3(3) j1 by simp
        with c(2) tv pos d None d3 show ?thesis by (auto simp: tp)
      qed
    qed
  qed
qed

lemma set_page_kv:
  "kv ops (set_key ops r (page_key source query) v) = (kv ops r)(page_key source query \<mapsto> v)"
  by (simp add: set_kv)

end

section \<open>Budget counters\<close>

text \<open>
  The contract of a budget counter, for the clients that spend from it: \<open>holds r b\<close> says the
  server has the budget \<open>b\<close> in store, reading gives it back and spending moves it.
\<close>

locale budget_counter =
  fixes remaining :: "'r \<Rightarrow> int option"
    and spend :: "'r \<Rightarrow> int \<Rightarrow> (int \<times> 'r) option"
    and holds :: "'r \<Rightarrow> int \<Rightarrow> bool"
  assumes remaining_holds: "holds r b \<Longrightarrow> remaining r = Some b"
    and spend_holds: "holds r b \<Longrightarrow> \<bar>b\<bar> < 2 ^ 62 \<Longrightarrow> \<bar>amount\<bar> < 2 ^ 62 \<Longrightarrow>
      \<exists>r'. spend r amount = Some (b - amount, r') \<and> holds r' (b - amount)"
begin

text \<open>A client that spends only what it has read stays within the budget.\<close>

lemma guarded_spend:
  assumes "holds r b" "\<bar>b\<bar> < 2 ^ 62" "0 \<le> amount" "amount \<le> the (remaining r)"
  shows "\<exists>r'. spend r amount = Some (b - amount, r') \<and> holds r' (b - amount) \<and> 0 \<le> b - amount"
  using assms spend_holds [of r b amount] remaining_holds [of r b] by auto

end

definition counts :: "'r redis_ops \<Rightarrow> string \<Rightarrow> 'r \<Rightarrow> int \<Rightarrow> bool" where
  "counts ops key r b = (kv ops r key = Some (int_str b))"

lemma budget_of_int_str: "budget_of (Some (int_str b)) = Some b"
proof -
  have "int_str b \<noteq> []" by (simp add: int_str_def)
  then show ?thesis by (simp add: budget_of_def)
qed

context redis_service
begin

lemma counts_spend:
  assumes "\<not> lane_key key" "counts ops key r b" "\<bar>b\<bar> < 2 ^ 62" "\<bar>amount\<bar> < 2 ^ 62"
  shows "\<exists>r'. decrby ops r key amount = Some (b - amount, r') \<and> counts ops key r' (b - amount)"
proof -
  have "- (2 ^ 63) \<le> b - amount" "b - amount < 2 ^ 63"
    using assms(3,4) by (simp_all add: abs_if split: if_splits)
  with decr_new [of key r b amount] assms(1,2) show ?thesis by (auto simp: counts_def)
qed

end

sublocale redis_service \<subseteq> agent: budget_counter
  "get_agent_budget_remaining ops" "decrement_agent_budget ops" "counts ops agent_budget_key"
  using counts_spend [of agent_budget_key]
  by unfold_locales (auto simp: get_agent_budget_remaining_def decrement_agent_budget_def counts_def
      kv_get budget_of_int_str)

sublocale redis_service \<subseteq> tavily: budget_counter
  "get_tavily_budget_remaining ops" "decrement_tavily_budget ops" "counts ops tavily_budget_key"
  using counts_spend [of tavily_budget_key]
  by unfold_locales (auto simp: get_tavily_budget_remaining_def decrement_tavily_budget_def counts_def
      kv_get budget_of_int_str)

section \<open>Reservations in sequence\<close>

definition tracker :: "'r redis_ops \<Rightarrow> 'r \<Rightarrow> string \<Rightarrow> int" where
  "tracker ops r key = (case get_key ops r key of None \<Rightarrow> 0
     | Some raw \<Rightarrow> (case py_int raw of Some i \<Rightarrow> i | None \<Rightarrow> 0))"

text \<open>Clients that leave the tracker alone, whether or not their writes make \<open>EXEC\<close> fail.\<close>

definition quiet :: "'r redis_ops \<Rightarrow> string \<Rightarrow> 'r attempt \<Rightarrow> bool" where
  "quiet ops key a = (\<forall>r. kv ops (fst a r) key = kv ops r key)"

fun reserve_seq ::
  "'r redis_ops \<Rightarrow> (nat \<Rightarrow> 'r attempt) list \<Rightarrow> 'r \<Rightarrow> string \<Rightarrow> string \<Rightarrow> int list \<times> 'r" where
  "reserve_seq ops [] r source query = ([], r)"
| "reserve_seq ops (a # as) r source query =
     (case get_discovery_page ops a r source query of
        (Inl e, r') \<Rightarrow> reserve_seq ops as r' source query
      | (Inr page, r') \<Rightarrow> (case reserve_seq ops as r' source query of (ps, r'') \<Rightarrow> (page # ps, r'')))"

fun pages_after :: "int \<Rightarrow> nat \<Rightarrow> int list" where
  "pages_after c 0 = []"
| "pages_after c (Suc n) = next_page c # pages_after (next_page c) n"

lemma tracker_kv: "\<not> lane_key key \<Longrightarrow> tracker ops r key = (case kv ops r key of None \<Rightarrow> 0
     | Some raw \<Rightarrow> (case py_int raw of Some i \<Rightarrow> i | None \<Rightarrow> 0))"
  by (simp add: tracker_def kv_get)

context redis_service
begin

lemma reserve_page_step:
  assumes "\<forall>a \<in> set as. quiet ops (page_key s q) a"
  shows "case reserve_page ops as r (page_key s q) of
      (Inl e, r') \<Rightarrow> tracker ops r' (page_key s q) = tracker ops r (page_key s q)
    | (Inr p, r') \<Rightarrow> p = next_page (tracker ops r (page_key s q)) \<and> tracker ops r' (page_key s q) = p"
  using assms
proof (induction as arbitrary: r)
  case (Cons a as)
  obtain others touched where a: "a = (others, touched)" by force
  have k: "tracker ops (others r) (page_key s q) = tracker ops r (page_key s q)"
    using Cons.prems a by (simp add: quiet_def tracker_kv)
  show ?case
  proof (cases touched)
    case True
    with Cons.IH [of "others r"] Cons.prems k a show ?thesis
      by (auto split: prod.splits sum.splits)
  next
    case False
    then show ?thesis using a by (simp add: tracker_kv [of "page_key s q"] set_kv kv_get Let_def)
  qed
qed simp

lemma reserve_seq_pages:
  assumes "\<forall>a \<in> set as. \<forall>i. quiet ops (page_key s q) (a i)"
  shows "fst (reserve_seq ops as r s q)
    = pages_after (tracker ops r (page_key s q)) (length (fst (reserve_seq ops as r s q)))"
  using assms
proof (induction as arbitrary: r)
  case (Cons a as)
  obtain res r' where g: "get_discovery_page ops a r s q = (res, r')" by force
  have "\<forall>x \<in> set (map a [0..<3]). quiet ops (page_key s q) x" using Cons.prems by simp
  note step = reserve_page_step [OF this, of r]
  obtain ps r'' where rest: "reserve_seq ops as r' s q = (ps, r'')" by force
  show ?case
  proof (cases res)
    case (Inl e)
    have "tracker ops r' (page_key s q) = tracker ops r (page_key s q)"
      using step g Inl by (simp add: get_discovery_page_def)
    with Cons.IH [of r'] Cons.prems g Inl show ?thesis by simp
  next
    case (Inr p)
    have "p = next_page (tracker ops r (page_key s q))" "tracker ops r' (page_key s q) = p"
      using step g Inr by (simp_all add: get_discovery_page_def)
    with Cons.IH [of r'] Cons.prems g Inr rest show ?thesis by simp
  qed
qed simp

end

lemma pages_after_range: "0 \<le> c \<Longrightarrow> set (pages_after c n) \<subseteq> {1..10}"
proof (induction n arbitrary: c)
  case (Suc n)
  have "next_page c \<in> {1..10}" "0 \<le> next_page c"
    using Suc.prems by (auto simp: next_page_def max_discovery_page_def Let_def)
  with Suc.IH [of "next_page c"] show ?case by simp
qed simp

lemma pages_after_10: "0 \<le> c \<Longrightarrow> c \<le> 10 \<Longrightarrow> distinct (pages_after c 10)"
proof -
  assume "0 \<le> c" "c \<le> 10"
  then have "c \<in> set [0..10]" by simp
  moreover have "list_all (\<lambda>c. distinct (pages_after c 10)) [0..10]" by code_simp
  ultimately show ?thesis by (simp add: list_all_iff)
qed

lemma pages_after_take: "m \<le> n \<Longrightarrow> pages_after c m = take m (pages_after c n)"
proof (induction n arbitrary: c m)
  case (Suc n)
  show ?case
  proof (cases m)
    case (Suc k)
    with Suc.prems have "pages_after (next_page c) k = take k (pages_after (next_page c) n)"
      by (intro Suc.IH) simp
    with Suc show ?thesis by simp
  qed simp
qed simp

lemma length_pages_after [simp]: "length (pages_after c n) = n"
  by (induction n arbitrary: c) simp_all

lemma pages_after_distinct: "0 \<le> c \<Longrightarrow> c \<le> 10 \<Longrightarrow> n \<le> 10 \<Longrightarrow> distinct (pages_after c n)"
  using pages_after_10 pages_after_take [of n 10 c] by simp

section \<open>Properties\<close>

text \<open>
  Popping takes the most urgent tasks: \<open>pop_top\<close> returns the first \<open>n\<close> of the abstract queue
  and leaves the others, in order; while every task is in the lane of its priority, no task left
  behind is more urgent than one returned, and that stays true of the lanes.
\<close>

theorem pop_takes_most_urgent:
  assumes "redis_service ops" and "lanes_ok ops r" and "pop_top_with_priority ops r n = (ts, r')"
  shows "ts = take n (pending ops r) \<and> pending ops r' = drop n (pending ops r)
    \<and> (\<forall>a \<in> set ts. \<forall>b \<in> set (pending ops r'). snd b \<le> snd a) \<and> lanes_ok ops r'"
proof -
  note p = redis_service.pop_pending [OF assms(1), of r n]
  have "sorted_wrt (\<lambda>a b. snd b \<le> snd a) (take n (pending ops r) @ drop n (pending ops r))"
    using redis_service.pending_sorted [OF assms(1,2)] by simp
  then have "\<forall>a \<in> set (take n (pending ops r)). \<forall>b \<in> set (drop n (pending ops r)). snd b \<le> snd a"
    by (simp only: sorted_wrt_append) blast
  moreover have "lanes_ok ops r'"
    using redis_service.lanes_ok_pop [OF assms(1,2), of n] assms(3) by simp
  ultimately show ?thesis using p assms(3) by simp
qed

definition sample_ops :: "list_redis redis_ops" where
  "sample_ops = list_redis_ops (\<lambda>f xs. f \<noteq> ''collect_job'')"

definition sample_task :: "string \<Rightarrow> pyval" where
  "sample_task person = PDict [(''job_type'', PStr ''score_candidate''), (''person_id'', PStr person)]"

lemma sample_ops_service: "redis_service sample_ops"
  unfolding sample_ops_def by (rule lr.redis_service_axioms)

lemma zq_empty [simp]: "zq sample_ops empty_redis k = []"
  by (simp add: sample_ops_def zq_list lr_zlist_def empty_redis_def)

lemma lanes_ok_empty: "lanes_ok sample_ops empty_redis"
  by (simp add: lanes_ok_def lane_tasks_def)

lemma pending_empty [simp]: "pending sample_ops empty_redis = []"
  by (simp add: pending_def lane_tasks_def lanes_def)

theorem pop_takes_most_urgent_witness:
  "lanes_ok sample_ops (snd (pop_top_with_priority sample_ops
     (enqueue sample_ops (enqueue sample_ops empty_redis (sample_task ''a'') 2) (sample_task ''b'') 10) 1))"
proof -
  let ?r = "enqueue sample_ops (enqueue sample_ops empty_redis (sample_task ''a'') 2) (sample_task ''b'') 10"
  have "lanes_ok sample_ops ?r"
    by (intro redis_service.lanes_ok_enqueue sample_ops_service lanes_ok_empty)
  moreover have "pop_top_with_priority sample_ops ?r 1
      = (fst (pop_top_with_priority sample_ops ?r 1), snd (pop_top_with_priority sample_ops ?r 1))"
    by simp
  ultimately show ?thesis using pop_takes_most_urgent [OF sample_ops_service] by blast
qed

text \<open>
  C3. The dispatcher loses no task: whatever Arq accepts, the run ends, the accepted tasks are
  jobs in queue order, every other task that was waiting still waits, and the Tavily budget falls
  by exactly the Tavily tasks that became jobs, none of them when it was used up.
\<close>

theorem dispatcher_loses_no_task:
  assumes "redis_service ops" and "kv ops r tavily_budget_key = Some (int_str budget)"
    and "\<bar>budget\<bar> < 2 ^ 62"
  shows "\<exists>r' started failed.
    dispatcher_job ops n r = Some ((length started, failed, queue_depth ops r'), r')
    \<and> subseq started (map fst (take n (pending ops r)))
    \<and> arq_jobs ops r' = arq_jobs ops r @ map job_call started
    \<and> (\<forall>t \<in> fst ` set (pending ops r).
         t \<in> set started \<or> {t, task_key t} \<inter> fst ` set (pending ops r') \<noteq> {})
    \<and> get_tavily_budget_remaining ops r' = Some (budget - int (length (filter is_tavily started)))
    \<and> (budget \<le> 0 \<longrightarrow> filter is_tavily started = [])"
proof -
  obtain ts r1 where pop: "pop_top_with_priority ops r n = (ts, r1)" by fastforce
  note p = redis_service.pop_pending [OF assms(1), of r n, unfolded pop fst_conv snd_conv]
  have b1: "kv ops r1 tavily_budget_key = Some (int_str budget)" using p(3) assms(2) by simp
  obtain r' started m where c: "redis_service.conserved ops ts r1 budget r' started"
    and d: "dispatch_tasks ops ts r1 budget 0 0 = Some (r', length started, m)"
    using redis_service.dispatch_conserves [OF assms(1) b1 assms(3), of ts 0 0] by auto
  note cons = c [unfolded redis_service.conserved_def [OF assms(1)]]
  have ne: "int_str budget \<noteq> []" for budget by (simp add: int_str_def)
  have bud: "get_tavily_budget_remaining ops x = Some i" if "kv ops x tavily_budget_key = Some (int_str i)" for x i
    using that ne by (simp add: get_tavily_budget_remaining_def kv_get budget_of_def)
  have "kv ops r' tavily_budget_key = Some (int_str (budget - int (length (filter is_tavily started))))"
    using cons b1 by auto
  note after = bud [OF this]
  have "dispatcher_job ops n r = Some ((length started, m, queue_depth ops r'), r')"
    using bud [OF assms(2)] pop d by (simp add: dispatcher_job_def)
  moreover have "t \<in> set started \<or> {t, task_key t} \<inter> fst ` set (pending ops r') \<noteq> {}"
    if t: "t \<in> fst ` set (pending ops r)" for t
  proof -
    have "set (pending ops r) = set ts \<union> set (pending ops r1)"
      using p(1,2) by (metis append_take_drop_id set_append)
    with t consider "t \<in> fst ` set ts" | "t \<in> fst ` set (pending ops r1)" by auto
    then show ?thesis using cons by cases auto
  qed
  ultimately show ?thesis using cons p after pop
    by (intro exI [of _ r'] exI [of _ started] exI [of _ m] conjI ballI) simp_all
qed

theorem dispatcher_loses_no_task_witness:
  "\<exists>r' started failed.
    dispatcher_job sample_ops 5
      (set_key sample_ops (enqueue sample_ops empty_redis (sample_task ''a'') 2) tavily_budget_key (int_str 7))
      = Some ((length started, failed, queue_depth sample_ops r'), r')
    \<and> get_tavily_budget_remaining sample_ops r' = Some (7 - int (length (filter is_tavily started)))"
proof -
  let ?r = "set_key sample_ops (enqueue sample_ops empty_redis (sample_task ''a'') 2) tavily_budget_key (int_str 7)"
  have "kv sample_ops ?r tavily_budget_key = Some (int_str 7)"
    using redis_service.set_kv [OF sample_ops_service] by simp
  from dispatcher_loses_no_task [OF sample_ops_service this, of 5] show ?thesis by auto
qed

text \<open>
  Page reservations are distinct: of the reservations that succeed one after another, any ten in
  a row get different pages, all between 1 and 10, however many attempts conflict or give up.
\<close>

theorem reserved_pages_distinct:
  assumes "redis_service ops" and "tracker ops r (page_key source query) \<in> {0..10}"
    and "\<forall>a \<in> set attempts. \<forall>i. quiet ops (page_key source query) (a i)"
    and "reserve_seq ops attempts r source query = (pages, r')"
  shows "set pages \<subseteq> {1..10} \<and> (\<forall>k. distinct (take 10 (drop k pages)))"
proof -
  let ?c = "tracker ops r (page_key source query)"
  have eq: "pages = pages_after ?c (length pages)"
    using redis_service.reserve_seq_pages [OF assms(1,3), of r] assms(4) by simp
  have dr: "\<exists>c' \<in> {0..10}. drop k (pages_after c n) = pages_after c' (n - k)" if "c \<in> {0..10}" for c k n
    using that
  proof (induction k arbitrary: c n)
    case (Suc k)
    show ?case
    proof (cases n)
      case (Suc m)
      have "next_page c \<in> {0..10}"
        using Suc.prems by (auto simp: next_page_def max_discovery_page_def Let_def)
      from Suc.IH [OF this, of m] Suc show ?thesis by simp
    qed auto
  qed auto
  have "distinct (take 10 (drop k pages))" for k
  proof -
    obtain c' where c': "c' \<in> {0..10}" "drop k pages = pages_after c' (length pages - k)"
      using dr [OF assms(2), of k "length pages"] eq by metis
    have "take 10 (pages_after c' m) = pages_after c' (min 10 m)" for m
      using pages_after_take [of "min 10 m" m c'] pages_after_take [of m m c']
      by (cases "m \<le> 10") (auto simp: min_def)
    with c' show ?thesis by (simp add: pages_after_distinct)
  qed
  moreover have "set pages \<subseteq> {1..10}" using pages_after_range [of ?c] assms(2) eq by (metis atLeastAtMost_iff)
  ultimately show ?thesis by blast
qed

theorem reserved_pages_distinct_witness:
  "(\<forall>k. distinct (take 10 (drop k (fst (reserve_seq sample_ops
       (replicate 12 (\<lambda>i. (id, i = 0))) empty_redis ''tavily'' ''q'')))))"
proof -
  have "tracker sample_ops empty_redis (page_key ''tavily'' ''q'') \<in> {0..10}"
    by (simp add: tracker_def sample_ops_def lr_ops empty_redis_def)
  moreover have "\<forall>a \<in> set (replicate 12 (\<lambda>i. (id, i = (0::nat)))). \<forall>i. quiet sample_ops (page_key ''tavily'' ''q'') (a i)"
    by (simp add: quiet_def)
  ultimately show ?thesis
    using reserved_pages_distinct [OF sample_ops_service _ _ surjective_pairing] by blast
qed

text \<open>
  Deduplication is per lane: a task enqueued again with a priority of another lane waits twice,
  once with each priority.
\<close>

theorem enqueue_twice_across_lanes:
  assumes "redis_service ops" and "lane p \<noteq> lane q"
  shows "{(task_key t, p), (task_key t, q)} \<subseteq> set (pending ops (enqueue ops (enqueue ops r t p) t q))"
  using assms(2) by (auto simp: redis_service.pending_iff [OF assms(1)] redis_service.enqueue_lane [OF assms(1)]
      intro: bexI [of _ "lane p"] bexI [of _ "lane q"])

theorem enqueue_twice_across_lanes_witness:
  "length (pending sample_ops (enqueue sample_ops (enqueue sample_ops empty_redis (sample_task ''a'') 10) (sample_task ''a'') 1)) \<ge> 2"
proof -
  let ?p = "pending sample_ops (enqueue sample_ops (enqueue sample_ops empty_redis (sample_task ''a'') 10) (sample_task ''a'') 1)"
  have "lane 10 \<noteq> lane 1" by (simp add: lane_def)
  from enqueue_twice_across_lanes [OF sample_ops_service this, of "sample_task ''a''" empty_redis]
  have "card {(task_key (sample_task ''a''), 10 :: real), (task_key (sample_task ''a''), 1)} \<le> card (set ?p)"
    by (intro card_mono) auto
  also have "\<dots> \<le> length ?p" by (rule card_length)
  finally show ?thesis by simp
qed

end
