(* ===== verification/Pipeline_Advance.thy ===== *)
theory Pipeline_Advance
  imports Opportunity_Service Collection_Queue
begin

text \<open>
  The pipeline job of \<^verbatim>\<open>app/agents/lifecycle_job.py\<close>: every two minutes it takes the most
  urgent open opportunities and moves each one stage on, or queues the work its next stage waits
  for, within the agent budget. The state of a run is the database, the Redis server and the four
  counters it returns. An exception ends the run: the open transaction is rolled back, while what
  was written to Redis stays. Every \<open>datetime.now\<close> and \<open>now()\<close> of a run is its \<open>clock\<close>.
\<close>

section \<open>Settings, host functions and state\<close>

record pipeline_settings =
  signal_threshold :: real
  contact_threshold :: real
  stuck_after_minutes :: int
  batch_size :: nat

text \<open>\<open>str\<close> of a float and \<open>float\<close> of a text.\<close>

record host =
  float_text :: "real \<Rightarrow> string"
  float_parse :: "string \<Rightarrow> real option"

record 'r pipe =
  p_db :: db
  p_redis :: 'r
  n_transitions :: nat
  n_stuck :: nat
  n_budget :: nat
  n_attention :: nat

type_synonym 'r outcome = "(string \<times> 'r) + 'r pipe"

definition max_retries :: nat where "max_retries = 3"
definition investigation_agent_calls :: int where "investigation_agent_calls = 5"
definition founder_score_agent_calls :: int where "founder_score_agent_calls = 5"
definition research_agent_calls :: int where "research_agent_calls = 3"

definition auto_actor :: string where "auto_actor = ''pipeline:auto''"

text \<open>\<open>float(str(v))\<close>.\<close>

fun float_of :: "host \<Rightarrow> pyval \<Rightarrow> real option" where
  "float_of h (PFloat x) = Some x"
| "float_of h (PInt i) = Some (of_int i)"
| "float_of h (PStr s) = float_parse h s"
| "float_of h _ = None"

section \<open>Queries\<close>

definition reason_like :: "decision_event \<Rightarrow> string \<Rightarrow> bool" where
  "reason_like e fragment = (case e_reason e of Some why \<Rightarrow> contains why fragment | None \<Rightarrow> False)"

definition count_retries :: "db \<Rightarrow> uuid \<Rightarrow> nat" where
  "count_retries d oid = length (filter (\<lambda>e. e_opportunity_id e = oid \<and> e_actor e = auto_actor
     \<and> reason_like e ''retry'') (decision_events d))"

definition has_recent_pipeline_event :: "db \<Rightarrow> uuid \<Rightarrow> string \<Rightarrow> instant \<Rightarrow> bool" where
  "has_recent_pipeline_event d oid fragment since =
     list_ex (\<lambda>e. e_opportunity_id e = oid \<and> e_actor e = auto_actor \<and> reason_like e fragment
       \<and> since \<le> e_created_at e) (decision_events d)"

definition has_opportunity_axes :: "db \<Rightarrow> uuid \<Rightarrow> bool" where
  "has_opportunity_axes d oid = list_ex (\<lambda>s. s_subject_id s = oid \<and> s_subject_type s = ''opportunity''
     \<and> s_rubric_version s = ''opportunity-axes-v1'') (score_snapshots d)"

definition has_memo :: "db \<Rightarrow> uuid \<Rightarrow> bool" where
  "has_memo d oid = list_ex (\<lambda>m. memo_opportunity_id m = oid \<and> memo_status m = ''succeeded'') (memos d)"

definition has_founder_score :: "db \<Rightarrow> uuid \<Rightarrow> bool" where
  "has_founder_score d pid = list_ex (\<lambda>s. s_subject_id s = pid \<and> s_subject_type s = ''person''
     \<and> s_rubric_version s = ''founder-agent-v1'') (score_snapshots d)"

definition has_scoped_claims :: "db \<Rightarrow> uuid \<Rightarrow> uuid \<Rightarrow> bool" where
  "has_scoped_claims d pid oid = list_ex (\<lambda>c. c_subject_id c = Some pid \<and> c_opportunity_id c = Some oid
     \<and> c_status c = ''supported'' \<and> c_supersession_id c = None) (claims d)"

definition has_observations :: "db \<Rightarrow> uuid \<Rightarrow> bool" where
  "has_observations d pid = list_ex (\<lambda>x. ob_subject_id x = Some pid) (observations d)"

definition founder_of :: "db \<Rightarrow> uuid \<Rightarrow> person option" where
  "founder_of d oid =
     (case concat (map (\<lambda>f. filter (\<lambda>p. p_id p = of_person_id f) (persons d))
             (filter (\<lambda>f. of_opportunity_id f = oid) (founders d))) of
        [] \<Rightarrow> None | p # _ \<Rightarrow> Some p)"

definition latest_score :: "db \<Rightarrow> uuid \<Rightarrow> string \<Rightarrow> score_snapshot option" where
  "latest_score d pid rubric =
     (case sort_key (\<lambda>s. - s_created_at s)
             (filter (\<lambda>s. s_subject_id s = pid \<and> s_rubric_version s = rubric) (score_snapshots d)) of
        [] \<Rightarrow> None | s # _ \<Rightarrow> Some s)"

definition due_batch :: "db \<Rightarrow> (uuid \<Rightarrow> bool) \<Rightarrow> nat \<Rightarrow> opportunity list" where
  "due_batch d locked limit =
     (let open_deals = filter (\<lambda>x. o_lifecycle_state x \<notin> {''approved'', ''closed''} \<and> \<not> locked (o_id x))
            (opportunities d);
          by_age = sort_key o_created_at (sort_key o_id open_deals);
          dated = filter (\<lambda>x. o_decision_due_at x \<noteq> None) by_age;
          undated = filter (\<lambda>x. o_decision_due_at x = None) by_age
      in take limit (sort_key (\<lambda>x. utc_instant (the (o_decision_due_at x))) dated @ undated))"

section \<open>Effects\<close>

definition queue_investigation_jobs :: "'r redis_ops \<Rightarrow> 'r \<Rightarrow> uuid \<Rightarrow> uuid \<Rightarrow> 'r" where
  "queue_investigation_jobs ops r pid oid =
     (let r1 = enqueue ops r (PDict [(''job_type'', PStr ''research_candidate''),
                 (''person_id'', PStr pid), (''opportunity_id'', PStr oid)]) 10;
          r2 = enqueue ops r1 (PDict [(''job_type'', PStr ''score_candidate''), (''person_id'', PStr pid)]) 10
      in enqueue ops r2 (PDict [(''job_type'', PStr ''process_candidate''), (''person_id'', PStr pid)]) 10)"

definition with_budget :: "'r redis_ops \<Rightarrow> 'r pipe \<Rightarrow> (int \<Rightarrow> 'r outcome) \<Rightarrow> 'r outcome" where
  "with_budget ops p k = (case get_agent_budget_remaining ops (p_redis p) of
     None \<Rightarrow> Inl (''ValueError: agent budget'', p_redis p) | Some b \<Rightarrow> k b)"

definition spend :: "'r redis_ops \<Rightarrow> 'r pipe \<Rightarrow> int \<Rightarrow> ('r pipe \<Rightarrow> 'r outcome) \<Rightarrow> 'r outcome" where
  "spend ops p n k = (case decrement_agent_budget ops (p_redis p) n of
     None \<Rightarrow> Inl (''ResponseError: agent budget'', p_redis p) | Some (_, r') \<Rightarrow> k (p\<lparr>p_redis := r'\<rparr>))"

definition log_work :: "instant \<Rightarrow> opportunity \<Rightarrow> string \<Rightarrow> pyval dict \<Rightarrow> 'r pipe \<Rightarrow> 'r pipe" where
  "log_work clock opp reason meta p = p\<lparr>p_db := add_event (p_db p)
     (mk_event clock (o_id opp) (o_lifecycle_state opp) (o_lifecycle_state opp) auto_actor reason meta)\<rparr>"

definition touch :: "instant \<Rightarrow> opportunity \<Rightarrow> 'r pipe \<Rightarrow> 'r pipe" where
  "touch clock opp p = p\<lparr>p_db := save_opportunity (p_db p) (opp\<lparr>o_updated_at := Some clock\<rparr>)\<rparr>"

definition push :: "'r redis_ops \<Rightarrow> pyval \<Rightarrow> 'r pipe \<Rightarrow> 'r pipe" where
  "push ops task p = p\<lparr>p_redis := enqueue ops (p_redis p) task 10\<rparr>"

definition short_of_budget :: "'r pipe \<Rightarrow> 'r pipe" where
  "short_of_budget p = p\<lparr>n_budget := n_budget p + 1, n_attention := n_attention p + 1\<rparr>"

definition move :: "instant \<Rightarrow> opportunity \<Rightarrow> string \<Rightarrow> string \<Rightarrow> ('r pipe \<Rightarrow> 'r pipe) \<Rightarrow> 'r pipe \<Rightarrow> 'r outcome" where
  "move clock opp new reason k p =
     (case transition_opportunity clock (p_db p) opp new auto_actor reason of
        Inl msg \<Rightarrow> Inl (''ValueError: '' @ msg, p_redis p)
      | Inr (_, _, d') \<Rightarrow> Inr (k (p\<lparr>p_db := d'\<rparr>)))"

definition count_move :: "'r pipe \<Rightarrow> 'r pipe" where
  "count_move p = p\<lparr>n_transitions := n_transitions p + 1\<rparr>"

section \<open>One opportunity\<close>

definition advance_discovered ::
  "host \<Rightarrow> pipeline_settings \<Rightarrow> instant \<Rightarrow> opportunity \<Rightarrow> person \<Rightarrow> 'r pipe \<Rightarrow> 'r outcome" where
  "advance_discovered h st clock opp person p =
     (case latest_score (p_db p) (p_id person) ''signal-v1'' of
        None \<Rightarrow> Inr p
      | Some score \<Rightarrow>
          (case float_of h (case dget (s_components score) ''composite'' of Some v \<Rightarrow> v | None \<Rightarrow> PFloat 0) of
             None \<Rightarrow> Inl (''ValueError: composite'', p_redis p)
           | Some composite \<Rightarrow>
               if signal_threshold st \<le> composite
               then move clock opp ''interesting''
                 (''Signal composite '' @ fmt_fixed 3 composite @ '' >= threshold ''
                    @ float_text h (signal_threshold st)) count_move p
               else Inr p))"

definition advance_interesting ::
  "'r redis_ops \<Rightarrow> instant \<Rightarrow> opportunity \<Rightarrow> person \<Rightarrow> 'r pipe \<Rightarrow> 'r outcome" where
  "advance_interesting ops clock opp person p =
     (if has_opportunity_axes (p_db p) (o_id opp) then Inr p
      else with_budget ops p (\<lambda>budget.
        if budget < investigation_agent_calls then Inr (short_of_budget p)
        else spend ops p investigation_agent_calls (\<lambda>p1.
          move clock opp ''investigating''
            (''Investigation started '' @ em_dash @ '' research, scoring, and processing queued'')
            (\<lambda>p2. (count_move p2)\<lparr>p_redis :=
               queue_investigation_jobs ops (p_redis p2) (p_id person) (o_id opp)\<rparr>) p1)))"

definition retry_investigation ::
  "pipeline_settings \<Rightarrow> 'r redis_ops \<Rightarrow> instant \<Rightarrow> opportunity \<Rightarrow> person \<Rightarrow> 'r pipe \<Rightarrow> 'r outcome" where
  "retry_investigation st ops clock opp person p =
     (let cutoff = clock - stuck_after_minutes st * us_minute;
          retries = count_retries (p_db p) (o_id opp)
      in if (case o_updated_at opp of Some u \<Rightarrow> cutoff < u | None \<Rightarrow> False) then Inr p
         else if max_retries \<le> retries
         then move clock opp ''closed'' (''Pipeline timeout after '' @ nat_str max_retries @ '' retries'')
                (\<lambda>p'. p'\<lparr>n_stuck := n_stuck p' + 1\<rparr>) p
         else with_budget ops p (\<lambda>budget.
           if budget < investigation_agent_calls then Inr (short_of_budget p)
           else spend ops p investigation_agent_calls (\<lambda>p1.
             Inr (touch clock opp (log_work clock opp (''Pipeline retry '' @ nat_str (retries + 1))
               [(''retry'', PInt (int retries + 1))]
               (p1\<lparr>p_redis := queue_investigation_jobs ops (p_redis p1) (p_id person) (o_id opp)\<rparr>))))))"

definition advance_investigating ::
  "host \<Rightarrow> pipeline_settings \<Rightarrow> 'r redis_ops \<Rightarrow> instant \<Rightarrow> opportunity \<Rightarrow> person \<Rightarrow> 'r pipe \<Rightarrow> 'r outcome" where
  "advance_investigating h st ops clock opp person p =
     (if \<not> has_opportunity_axes (p_db p) (o_id opp) then retry_investigation st ops clock opp person p
      else (case latest_score (p_db p) (p_id person) ''founder-agent-v1'' of
        None \<Rightarrow> Inr p
      | Some score \<Rightarrow>
          (case float_of h (case dget (s_components score) ''founder'' of Some v \<Rightarrow> v | None \<Rightarrow> PFloat 0) of
             None \<Rightarrow> Inl (''ValueError: founder'', p_redis p)
           | Some founder \<Rightarrow>
               (let composite = founder * 100;
                    reason = ''Agent composite '' @ fmt_fixed 1 composite @ '' >= contact threshold ''
                      @ fmt_fixed 0 (contact_threshold st * 100)
                in if contact_threshold st * 100 \<le> composite
                   then with_budget ops p (\<lambda>budget.
                     if budget \<le> 0 then Inr (short_of_budget p)
                     else spend ops p 1 (\<lambda>p1.
                       Inr (push ops (PDict [(''job_type'', PStr ''contact_outbound''),
                              (''person_id'', PStr (p_id person))])
                         (touch clock opp (log_work clock opp
                           (''Outreach draft requested '' @ em_dash @ '' '' @ reason)
                           [(''outreach_status'', PStr ''drafted'')] p1)))))
                   else Inr p))))"

text \<open>
  The four inbound stages wait for an output of their own: without it the run queues the job that
  makes it, unless that was done recently or the budget is short of the job's cost, and with it the
  opportunity moves on. A cost of one is the code's test \<open>budget > 0\<close>.
\<close>

definition await_output ::
  "pipeline_settings \<Rightarrow> 'r redis_ops \<Rightarrow> instant \<Rightarrow> opportunity \<Rightarrow> int \<Rightarrow> pyval \<Rightarrow> string \<Rightarrow> string \<Rightarrow> 'r pipe \<Rightarrow> 'r outcome" where
  "await_output st ops clock opp cost task reason missing p =
     (let cutoff = clock - stuck_after_minutes st * us_minute;
          recently_queued = has_recent_pipeline_event (p_db p) (o_id opp) reason cutoff
      in with_budget ops p (\<lambda>budget.
        if cost \<le> budget \<and> \<not> recently_queued
        then spend ops p cost (\<lambda>p1. Inr (log_work clock opp reason
          [(''pipeline_stage'', PStr (o_lifecycle_state opp)), (''missing_outputs'', PList [PStr missing])]
          (push ops task p1)))
        else if budget < cost then Inr (p\<lparr>n_attention := n_attention p + 1\<rparr>)
        else Inr p))"

definition advance_received ::
  "pipeline_settings \<Rightarrow> 'r redis_ops \<Rightarrow> instant \<Rightarrow> opportunity \<Rightarrow> person \<Rightarrow> 'r pipe \<Rightarrow> 'r outcome" where
  "advance_received st ops clock opp person p =
     (if \<not> has_scoped_claims (p_db p) (p_id person) (o_id opp)
      then await_output st ops clock opp 1
        (PDict [(''job_type'', PStr ''process_candidate''), (''person_id'', PStr (p_id person))])
        ''Inbound processing queued'' ''scoped_claims'' p
      else move clock opp ''triage'' ''Scoped inbound processing completed'' count_move p)"

definition advance_triage ::
  "pipeline_settings \<Rightarrow> 'r redis_ops \<Rightarrow> instant \<Rightarrow> opportunity \<Rightarrow> person \<Rightarrow> 'r pipe \<Rightarrow> 'r outcome" where
  "advance_triage st ops clock opp person p =
     (if \<not> has_founder_score (p_db p) (p_id person)
      then await_output st ops clock opp founder_score_agent_calls
        (PDict [(''job_type'', PStr ''score_candidate''), (''person_id'', PStr (p_id person))])
        ''Founder Score queued'' ''founder_score'' p
      else move clock opp ''screening'' ''Triage output and Founder Score completed'' count_move p)"

definition advance_screening ::
  "pipeline_settings \<Rightarrow> 'r redis_ops \<Rightarrow> instant \<Rightarrow> opportunity \<Rightarrow> person \<Rightarrow> 'r pipe \<Rightarrow> 'r outcome" where
  "advance_screening st ops clock opp person p =
     (if \<not> has_opportunity_axes (p_db p) (o_id opp)
      then await_output st ops clock opp research_agent_calls
        (PDict [(''job_type'', PStr ''research_candidate''), (''person_id'', PStr (p_id person)),
                (''opportunity_id'', PStr (o_id opp))])
        ''Opportunity research queued'' ''opportunity_axes'' p
      else move clock opp ''diligence'' ''Three opportunity axes completed'' count_move p)"

definition advance_diligence ::
  "pipeline_settings \<Rightarrow> 'r redis_ops \<Rightarrow> instant \<Rightarrow> opportunity \<Rightarrow> person \<Rightarrow> 'r pipe \<Rightarrow> 'r outcome" where
  "advance_diligence st ops clock opp person p =
     (if \<not> has_memo (p_db p) (o_id opp)
      then await_output st ops clock opp 1
        (PDict [(''job_type'', PStr ''generate_memo''), (''person_id'', PStr (p_id person)),
                (''opportunity_id'', PStr (o_id opp))])
        ''Memo generation queued'' ''succeeded_memo'' p
      else move clock opp ''memo_ready'' ''Validated investment memo generated'' count_move p)"

definition advance_one ::
  "host \<Rightarrow> pipeline_settings \<Rightarrow> 'r redis_ops \<Rightarrow> instant \<Rightarrow> opportunity \<Rightarrow> 'r pipe \<Rightarrow> 'r outcome" where
  "advance_one h st ops clock opp p =
     (case founder_of (p_db p) (o_id opp) of
        None \<Rightarrow> Inr p
      | Some person \<Rightarrow>
          (let state = o_lifecycle_state opp
           in if state = ''discovered'' then advance_discovered h st clock opp person p
              else if state = ''interesting'' then advance_interesting ops clock opp person p
              else if state = ''investigating'' then advance_investigating h st ops clock opp person p
              else if state = ''contacted'' then Inr p
              else if state = ''received'' then advance_received st ops clock opp person p
              else if state = ''triage'' then advance_triage st ops clock opp person p
              else if state = ''screening'' then advance_screening st ops clock opp person p
              else if state = ''diligence'' then advance_diligence st ops clock opp person p
              else Inr p))"

section \<open>The run\<close>

fun advance_all ::
  "host \<Rightarrow> pipeline_settings \<Rightarrow> 'r redis_ops \<Rightarrow> instant \<Rightarrow> opportunity list \<Rightarrow> 'r pipe \<Rightarrow> 'r outcome" where
  "advance_all h st ops clock [] p = Inr p"
| "advance_all h st ops clock (opp # opps) p =
     (case advance_one h st ops clock opp p of
        Inl e \<Rightarrow> Inl e
      | Inr p' \<Rightarrow> advance_all h st ops clock opps p')"

record pipeline_stats =
  st_opportunities :: nat
  st_transitions :: nat
  st_stuck_closed :: nat
  st_budget_exhausted :: nat
  st_needs_attention :: nat

definition advance_pipeline_job ::
  "host \<Rightarrow> pipeline_settings \<Rightarrow> 'r redis_ops \<Rightarrow> instant \<Rightarrow> (uuid \<Rightarrow> bool) \<Rightarrow> db \<Rightarrow> 'r
   \<Rightarrow> (string + pipeline_stats) \<times> db \<times> 'r" where
  "advance_pipeline_job h st ops clock locked d r =
     (let opps = due_batch d locked (batch_size st)
      in case advance_all h st ops clock opps
                \<lparr>p_db = d, p_redis = r, n_transitions = 0, n_stuck = 0, n_budget = 0, n_attention = 0\<rparr> of
           Inl (msg, r') \<Rightarrow> (Inl msg, d, r')
         | Inr p \<Rightarrow> (Inr \<lparr>st_opportunities = length opps, st_transitions = n_transitions p,
                         st_stuck_closed = n_stuck p, st_budget_exhausted = n_budget p,
                         st_needs_attention = n_attention p\<rparr>, p_db p, p_redis p))"

end
