(* ===== verification/Pipeline_Safety.thy ===== *)
theory Pipeline_Safety
  imports Pipeline_Advance
begin

text \<open>
  What a run of the pipeline job guarantees: it moves an opportunity only along its gates, one step
  per run, on the record; it never decides a deal; it spends no budget it does not have; a stuck
  investigation is retried three times and then closed.
\<close>

section \<open>The gates\<close>

definition score_value :: "host \<Rightarrow> db \<Rightarrow> uuid \<Rightarrow> string \<Rightarrow> string \<Rightarrow> real option" where
  "score_value h d pid rubric key = (case latest_score d pid rubric of None \<Rightarrow> None
     | Some s \<Rightarrow> float_of h (case dget (s_components s) key of Some v \<Rightarrow> v | None \<Rightarrow> PFloat 0))"

definition stale :: "pipeline_settings \<Rightarrow> instant \<Rightarrow> opportunity \<Rightarrow> bool" where
  "stale st clock opp = (case o_updated_at opp of
     Some u \<Rightarrow> u \<le> clock - stuck_after_minutes st * us_minute | None \<Rightarrow> True)"

text \<open>What must be on file for the job to move an opportunity to a stage.\<close>

definition gate_moves :: "(string \<times> string) set" where
  "gate_moves = {(''discovered'', ''interesting''), (''interesting'', ''investigating''),
     (''investigating'', ''closed''), (''received'', ''triage''), (''triage'', ''screening''),
     (''screening'', ''diligence''), (''diligence'', ''memo_ready'')}"

definition gate :: "host \<Rightarrow> pipeline_settings \<Rightarrow> instant \<Rightarrow> db \<Rightarrow> opportunity \<Rightarrow> person \<Rightarrow> string \<Rightarrow> bool" where
  "gate h st clock d opp person new = ((o_lifecycle_state opp, new) \<in> gate_moves
     \<and> (new = ''interesting'' \<longrightarrow> (\<exists>c. score_value h d (p_id person) ''signal-v1'' ''composite'' = Some c
          \<and> signal_threshold st \<le> c))
     \<and> (new \<in> {''investigating'', ''closed''} \<longrightarrow> \<not> has_opportunity_axes d (o_id opp))
     \<and> (new = ''closed'' \<longrightarrow> stale st clock opp \<and> max_retries \<le> count_retries d (o_id opp))
     \<and> (new = ''triage'' \<longrightarrow> has_scoped_claims d (p_id person) (o_id opp))
     \<and> (new = ''screening'' \<longrightarrow> has_founder_score d (p_id person))
     \<and> (new = ''diligence'' \<longrightarrow> has_opportunity_axes d (o_id opp))
     \<and> (new = ''memo_ready'' \<longrightarrow> has_memo d (o_id opp)))"

text \<open>What one iteration may do to the database: nothing, log work on the opportunity, or move it.\<close>

inductive auto_step ::
  "host \<Rightarrow> pipeline_settings \<Rightarrow> instant \<Rightarrow> opportunity \<Rightarrow> db \<Rightarrow> db \<Rightarrow> bool"
  for h :: host and st :: pipeline_settings and clock :: instant and opp :: opportunity where
  stay: "auto_step h st clock opp d d"
| work: "auto_step h st clock opp d
    (add_event d (mk_event clock (o_id opp) (o_lifecycle_state opp) (o_lifecycle_state opp) auto_actor why meta))"
| rework: "auto_step h st clock opp d (save_opportunity (add_event d
    (mk_event clock (o_id opp) (o_lifecycle_state opp) (o_lifecycle_state opp) auto_actor why meta))
    (opp\<lparr>o_updated_at := Some clock\<rparr>))"
| advance: "founder_of d (o_id opp) = Some person \<Longrightarrow> gate h st clock d opp person new \<Longrightarrow>
    transition_opportunity clock d opp new auto_actor why = Inr (e, opp', d') \<Longrightarrow>
    auto_step h st clock opp d d'"

declare auto_step.stay [simp] auto_step.work [simp] auto_step.rework [simp]

inductive_cases auto_stepE: "auto_step h st clock opp d d'"

section \<open>Every handler is a step\<close>

named_theorems handlers \<open>the definitions of the stage handlers\<close>

lemmas [handlers] = advance_discovered_def advance_interesting_def retry_investigation_def
  advance_investigating_def await_output_def advance_received_def advance_triage_def
  advance_screening_def advance_diligence_def

lemma pipe_frames [simp]:
  "p_db (count_move p) = p_db p" "p_db (push ops t p) = p_db p" "p_db (short_of_budget p) = p_db p"
  "p_redis (count_move p) = p_redis p" "p_redis (log_work c opp why meta p) = p_redis p"
  "p_redis (touch c opp p) = p_redis p" "p_redis (short_of_budget p) = p_redis p"
  "p_redis (push ops t p) = enqueue ops (p_redis p) t 10"
  "p_db (log_work c opp why meta p) = add_event (p_db p)
     (mk_event c (o_id opp) (o_lifecycle_state opp) (o_lifecycle_state opp) auto_actor why meta)"
  "p_db (touch c opp p) = save_opportunity (p_db p) (opp\<lparr>o_updated_at := Some c\<rparr>)"
  by (simp_all add: count_move_def push_def short_of_budget_def log_work_def touch_def)

lemma with_budget_Inr: "with_budget ops p k = Inr p' \<Longrightarrow> \<exists>b. k b = Inr p'"
  by (auto simp: with_budget_def split: option.splits)

lemma spend_Inr: "spend ops p n k = Inr p' \<Longrightarrow> \<exists>r'. k (p\<lparr>p_redis := r'\<rparr>) = Inr p'"
  by (auto simp: spend_def split: option.splits)

lemma move_Inr:
  assumes "move clock opp new why k p = Inr p'" and "\<And>q. p_db (k q) = p_db q"
  shows "\<exists>e opp'. transition_opportunity clock (p_db p) opp new auto_actor why = Inr (e, opp', p_db p')"
  using assms by (auto simp: move_def split: sum.splits)

lemma move_step:
  assumes "move clock opp new why k p = Inr p'" and "\<And>q. p_db (k q) = p_db q"
    and "p_db p = d" and "founder_of d (o_id opp) = Some person" and "gate h st clock d opp person new"
  shows "auto_step h st clock opp d (p_db p')"
  using move_Inr [OF assms(1,2)] assms(3-5) auto_step.advance by metis

lemma await_step:
  assumes "await_output st ops clock opp cost task reason missing p = Inr p'"
  shows "auto_step h st clock opp (p_db p) (p_db p')"
  using assms unfolding await_output_def Let_def
  by (auto dest!: with_budget_Inr spend_Inr split: if_splits)

lemma retry_step:
  assumes "retry_investigation st ops clock opp person p = Inr p'"
    and "o_lifecycle_state opp = ''investigating''" "\<not> has_opportunity_axes (p_db p) (o_id opp)"
    and "founder_of (p_db p) (o_id opp) = Some person"
  shows "auto_step h st clock opp (p_db p) (p_db p')"
proof (cases "stale st clock opp")
  case False
  then have "p' = p"
    using assms(1) by (auto simp: retry_investigation_def stale_def Let_def split: option.splits if_splits)
  then show ?thesis by simp
next
  case True
  then have t: "\<not> (case o_updated_at opp of None \<Rightarrow> False | Some u \<Rightarrow> clock - stuck_after_minutes st * us_minute < u)"
    by (auto simp: stale_def split: option.splits)
  show ?thesis
  proof (cases "max_retries \<le> count_retries (p_db p) (o_id opp)")
    case c: True
    with assms(1) t have "move clock opp ''closed'' (''Pipeline timeout after '' @ nat_str max_retries @ '' retries'')
        (\<lambda>p'. p'\<lparr>n_stuck := n_stuck p' + 1\<rparr>) p = Inr p'"
      by (simp add: retry_investigation_def Let_def)
    then show ?thesis
      by (rule move_step [OF _ _ _ assms(4)]) (use True c assms(2,3) in \<open>simp_all add: gate_def gate_moves_def\<close>)
  next
    case False
    from assms(1) have "with_budget ops p (\<lambda>budget.
        if budget < investigation_agent_calls then Inr (short_of_budget p)
        else spend ops p investigation_agent_calls (\<lambda>p1.
          Inr (touch clock opp (log_work clock opp
            (''Pipeline retry '' @ nat_str (count_retries (p_db p) (o_id opp) + 1))
            [(''retry'', PInt (int (count_retries (p_db p) (o_id opp)) + 1))]
            (p1\<lparr>p_redis := queue_investigation_jobs ops (p_redis p1) (p_id person) (o_id opp)\<rparr>))))) = Inr p'"
      using False t by (simp add: retry_investigation_def Let_def)
    then show ?thesis
      by (auto dest!: with_budget_Inr spend_Inr split: if_splits)
  qed
qed

lemma advance_one_step:
  assumes "advance_one h st ops clock opp p = Inr p'"
  shows "auto_step h st clock opp (p_db p) (p_db p')"
proof (cases "founder_of (p_db p) (o_id opp)")
  case None
  with assms show ?thesis by (simp add: advance_one_def auto_step.stay)
next
  case (Some person)
  let ?s = "o_lifecycle_state opp"
  note ms = move_step [OF _ _ _ Some, where h = h and st = st]
  from assms Some consider
      "?s = ''discovered''" "advance_discovered h st clock opp person p = Inr p'"
    | "?s = ''interesting''" "advance_interesting ops clock opp person p = Inr p'"
    | "?s = ''investigating''" "advance_investigating h st ops clock opp person p = Inr p'"
    | "?s = ''received''" "advance_received st ops clock opp person p = Inr p'"
    | "?s = ''triage''" "advance_triage st ops clock opp person p = Inr p'"
    | "?s = ''screening''" "advance_screening st ops clock opp person p = Inr p'"
    | "?s = ''diligence''" "advance_diligence st ops clock opp person p = Inr p'"
    | "p' = p"
    by (auto simp: advance_one_def Let_def split: if_splits)
  then show ?thesis
  proof cases
    case 1
    then show ?thesis
      unfolding advance_discovered_def
      by (auto split: option.splits if_splits intro: auto_step.stay
          intro!: ms simp: gate_def gate_moves_def score_value_def)
  next
    case 2
    then show ?thesis
      unfolding advance_interesting_def
      by (auto dest!: with_budget_Inr spend_Inr split: if_splits intro: auto_step.stay
          elim!: ms simp: gate_def gate_moves_def)
  next
    case 3
    show ?thesis
    proof (cases "has_opportunity_axes (p_db p) (o_id opp)")
      case True
      with 3(2) show ?thesis
        unfolding advance_investigating_def Let_def
        by (auto dest!: with_budget_Inr spend_Inr split: if_splits option.splits)
    next
      case False
      with 3 Some show ?thesis by (simp add: advance_investigating_def retry_step)
    qed
  next
    case 4
    then show ?thesis
      unfolding advance_received_def
      by (auto split: if_splits elim!: await_step intro!: ms simp: gate_def gate_moves_def)
  next
    case 5
    then show ?thesis
      unfolding advance_triage_def
      by (auto split: if_splits elim!: await_step intro!: ms simp: gate_def gate_moves_def)
  next
    case 6
    then show ?thesis
      unfolding advance_screening_def
      by (auto split: if_splits elim!: await_step intro!: ms simp: gate_def gate_moves_def)
  next
    case 7
    then show ?thesis
      unfolding advance_diligence_def
      by (auto split: if_splits elim!: await_step intro!: ms simp: gate_def gate_moves_def)
  next
    case 8
    then show ?thesis by (simp add: auto_step.stay)
  qed
qed

section \<open>Invariants of a run\<close>

lemma save_add_commute: "save_opportunity (add_event d e) x = add_event (save_opportunity d x) e"
  by (simp add: save_opportunity_def add_event_def)

lemma put_row_self: "distinct (map key rows) \<Longrightarrow> r \<in> set rows \<Longrightarrow> put_row key rows r = rows"
  by (auto simp: put_row_def distinct_map inj_on_def intro: map_idI)

lemma save_self:
  "distinct (map o_id (opportunities d)) \<Longrightarrow> opp \<in> set (opportunities d) \<Longrightarrow> save_opportunity d opp = d"
  by (simp add: save_opportunity_def put_row_self)

text \<open>A step that does something writes the opportunity's row and logs one event that says so.\<close>

lemma auto_step_cases:
  assumes "auto_step h st clock opp d d'"
    and "distinct (map o_id (opportunities d))" "opp \<in> set (opportunities d)"
  obtains "d' = d"
    | e opp' where "d' = add_event (save_opportunity d opp') e" "o_id opp' = o_id opp"
        "o_lifecycle_state opp' = e_new_state e" "e_opportunity_id e = o_id opp"
        "e_prior_state e = o_lifecycle_state opp" "e_actor e = auto_actor"
        "e_new_state e = o_lifecycle_state opp \<or>
         (\<exists>person. founder_of d (o_id opp) = Some person \<and> gate h st clock d opp person (e_new_state e)
            \<and> is_valid_transition (o_lifecycle_state opp) (e_new_state e))"
  using assms(1)
proof cases
  case stay
  then show ?thesis using that(1) by simp
next
  case (work why meta)
  let ?e = "mk_event clock (o_id opp) (o_lifecycle_state opp) (o_lifecycle_state opp) auto_actor why meta"
  from that(2) [of opp ?e] work save_self [OF assms(2,3)] show ?thesis by simp
next
  case (rework why meta)
  let ?e = "mk_event clock (o_id opp) (o_lifecycle_state opp) (o_lifecycle_state opp) auto_actor why meta"
  from that(2) [of "opp\<lparr>o_updated_at := Some clock\<rparr>" ?e] rework show ?thesis
    by (simp add: save_add_commute)
next
  case (advance person new why e opp')
  note t = transition_Inr [OF advance(3)]
  from advance(2) have "o_lifecycle_state opp \<noteq> new" by (auto simp: gate_def gate_moves_def)
  with that(2) [of opp' e] t advance(1,2) show ?thesis by auto
qed

definition same_facts :: "db \<Rightarrow> db \<Rightarrow> bool" where
  "same_facts d d' = (persons d' = persons d \<and> founders d' = founders d \<and> claims d' = claims d
     \<and> score_snapshots d' = score_snapshots d \<and> memos d' = memos d)"

lemma same_facts_step: "same_facts d (add_event (save_opportunity d x) e)"
  by (simp add: same_facts_def add_event_def save_opportunity_def)

lemma count_retries_log:
  "count_retries d oid = length (filter (\<lambda>e. e_actor e = auto_actor \<and> reason_like e ''retry'') (log_of d oid))"
  by (simp add: count_retries_def log_of_def conj_commute conj_left_commute conj_assoc)

lemma gate_cong:
  assumes "same_facts d d'" "log_of d' (o_id opp) = log_of d (o_id opp)"
  shows "gate h st clock d' opp person new = gate h st clock d opp person new"
  using assms by (simp add: gate_def same_facts_def score_value_def latest_score_def has_opportunity_axes_def
      count_retries_log has_scoped_claims_def has_founder_score_def has_memo_def)

lemma gate_target:
  "gate h st clock d opp person new \<Longrightarrow> new \<notin> {''contacted'', ''received'', ''hold'', ''approved''}"
proof -
  assume "gate h st clock d opp person new"
  then have "(o_lifecycle_state opp, new) \<in> gate_moves" by (simp only: gate_def)
  then have "snd (o_lifecycle_state opp, new) \<in> snd ` gate_moves" by (rule imageI)
  then have "new \<in> {''interesting'', ''investigating'', ''closed'', ''triage'', ''screening'',
      ''diligence'', ''memo_ready''}"
    by (simp add: gate_moves_def)
  then show ?thesis by auto
qed

lemma founder_of_cong: "same_facts d d' \<Longrightarrow> founder_of d' oid = founder_of d oid"
  by (simp add: same_facts_def founder_of_def)

text \<open>An event of a run is justified by what was on file when the run started.\<close>

definition justified ::
  "host \<Rightarrow> pipeline_settings \<Rightarrow> instant \<Rightarrow> db \<Rightarrow> decision_event \<Rightarrow> bool" where
  "justified h st clock d e = (e_actor e = auto_actor \<and>
     (\<exists>opp \<in> set (opportunities d). e_opportunity_id e = o_id opp \<and> e_prior_state e = o_lifecycle_state opp
        \<and> (e_new_state e = o_lifecycle_state opp \<or>
           (\<exists>person. founder_of d (o_id opp) = Some person
              \<and> gate h st clock d opp person (e_new_state e)))))"

definition run_inv ::
  "host \<Rightarrow> pipeline_settings \<Rightarrow> instant \<Rightarrow> db \<Rightarrow> opportunity list \<Rightarrow> db \<Rightarrow> decision_event list \<Rightarrow> bool" where
  "run_inv h st clock d0 rest d es = (audit_ok d \<and> map o_id (opportunities d) = map o_id (opportunities d0)
     \<and> same_facts d0 d \<and> decision_events d = decision_events d0 @ es
     \<and> set rest \<subseteq> set (opportunities d) \<inter> set (opportunities d0)
     \<and> (\<forall>e \<in> set es. justified h st clock d0 e) \<and> distinct (map e_opportunity_id es)
     \<and> e_opportunity_id ` set es \<inter> o_id ` set rest = {}
     \<and> (\<forall>y \<in> set (opportunities d). y \<in> set (opportunities d0) \<or>
          (\<exists>e \<in> set es. e_opportunity_id e = o_id y \<and> e_new_state e = o_lifecycle_state y)))"

lemma run_inv_drop: "run_inv h st clock d0 (opp # rest) d es \<Longrightarrow> run_inv h st clock d0 rest d es"
  by (auto simp: run_inv_def)

lemma run_inv_step:
  assumes inv: "run_inv h st clock d0 (opp # rest) d es" and step: "auto_step h st clock opp d d'"
    and dist: "distinct (map o_id (opportunities d0))" "distinct (map o_id (opp # rest))"
  shows "\<exists>es'. run_inv h st clock d0 rest d' es'"
proof -
  from inv dist(1) have dd: "distinct (map o_id (opportunities d))" by (simp add: run_inv_def)
  from inv have opp: "opp \<in> set (opportunities d)" "opp \<in> set (opportunities d0)"
    by (auto simp: run_inv_def)
  from step dd opp(1) show ?thesis
  proof (cases rule: auto_step_cases)
    case 1
    with run_inv_drop [OF inv] show ?thesis by auto
  next
    case (2 e opp')
    have facts: "same_facts d0 d" and ev: "decision_events d = decision_events d0 @ es"
      using inv by (simp_all add: run_inv_def)
    have fresh: "\<forall>x \<in> set es. e_opportunity_id x \<noteq> o_id opp"
    proof -
      from inv have "e_opportunity_id ` set es \<inter> o_id ` set (opp # rest) = {}"
        by (simp only: run_inv_def)
      then have "o_id opp \<notin> e_opportunity_id ` set es" by simp
      then show ?thesis by (metis imageI)
    qed
    then have "filter (\<lambda>x. e_opportunity_id x = o_id opp) es = []" by simp
    with ev have log: "log_of d (o_id opp) = log_of d0 (o_id opp)" by (simp add: log_of_def)
    have valid: "is_valid_transition (o_lifecycle_state opp) (e_new_state e)" using 2(7) by auto
    have ok: "audit_ok d'" unfolding 2(1)
      by (rule audit_ok_step [OF _ opp(1) 2(2,4,5) valid 2(3)]) (use inv in \<open>simp add: run_inv_def\<close>)
    have just: "justified h st clock d0 e"
      unfolding justified_def
      using 2(4-7) opp(2) founder_of_cong [OF facts] gate_cong [OF facts log] by metis
    have rest: "set rest \<subseteq> set (opportunities d')"
    proof
      fix x assume x: "x \<in> set rest"
      then have "o_id x \<in> o_id ` set rest" by (rule imageI)
      with dist(2) have "o_id x \<noteq> o_id opp'" using 2(2) by auto
      moreover have "x \<in> set (opportunities d)" using x inv by (auto simp: run_inv_def)
      ultimately show "x \<in> set (opportunities d')" unfolding 2(1) by (force simp: put_row_def)
    qed
    have rows: "y \<in> set (opportunities d0) \<or>
        (\<exists>x \<in> set (es @ [e]). e_opportunity_id x = o_id y \<and> e_new_state x = o_lifecycle_state y)"
      if "y \<in> set (opportunities d')" for y
    proof -
      from that consider "y = opp'" | "y \<in> set (opportunities d)"
        unfolding 2(1) by (auto simp: put_row_def split: if_splits)
      then show ?thesis
      proof cases
        case 1
        with 2(2-4) show ?thesis by auto
      next
        case 2
        with inv show ?thesis by (auto simp: run_inv_def)
      qed
    qed
    have "run_inv h st clock d0 rest d' (es @ [e])"
      unfolding run_inv_def
    proof (intro conjI)
      show "map o_id (opportunities d') = map o_id (opportunities d0)"
        using inv 2(1) by (simp add: run_inv_def)
      show "same_facts d0 d'" using facts same_facts_step [of d opp' e] 2(1) by (simp add: same_facts_def)
      show "decision_events d' = decision_events d0 @ es @ [e]" using ev 2(1) by simp
      show "set rest \<subseteq> set (opportunities d') \<inter> set (opportunities d0)" using rest inv by (auto simp: run_inv_def)
      show "\<forall>x \<in> set (es @ [e]). justified h st clock d0 x" using inv just by (auto simp: run_inv_def)
      show "distinct (map e_opportunity_id (es @ [e]))" using inv fresh 2(4) by (auto simp: run_inv_def)
      show "e_opportunity_id ` set (es @ [e]) \<inter> o_id ` set rest = {}"
        using inv dist(2) 2(4) by (auto simp: run_inv_def)
      show "\<forall>y \<in> set (opportunities d'). y \<in> set (opportunities d0) \<or>
          (\<exists>x \<in> set (es @ [e]). e_opportunity_id x = o_id y \<and> e_new_state x = o_lifecycle_state y)"
        using rows by blast
    qed (rule ok)
    then show ?thesis by blast
  qed
qed

lemma advance_all_inv:
  assumes "run_inv h st clock d0 opps (p_db p) es" "distinct (map o_id opps)"
    and "distinct (map o_id (opportunities d0))" "advance_all h st ops clock opps p = Inr p'"
  shows "\<exists>es'. run_inv h st clock d0 [] (p_db p') es'"
  using assms
proof (induction opps arbitrary: p es)
  case (Cons opp rest)
  from Cons.prems(4) obtain p1 where p1: "advance_one h st ops clock opp p = Inr p1"
    "advance_all h st ops clock rest p1 = Inr p'"
    by (auto split: sum.splits)
  from run_inv_step [OF Cons.prems(1) advance_one_step [OF p1(1)] Cons.prems(3,2)]
  obtain es1 where "run_inv h st clock d0 rest (p_db p1) es1" by blast
  with Cons.IH [OF this _ Cons.prems(3) p1(2)] Cons.prems(2) show ?case by simp
qed auto

lemma due_batch_rows:
  "set (due_batch d locked n) \<subseteq> set (opportunities d)"
  "distinct (map o_id (opportunities d)) \<Longrightarrow> distinct (map o_id (due_batch d locked n))"
proof -
  show sub: "set (due_batch d locked n) \<subseteq> set (opportunities d)"
    by (auto simp: due_batch_def Let_def dest!: in_set_takeD)
  assume "distinct (map o_id (opportunities d))"
  then have "distinct (opportunities d)" "inj_on o_id (set (opportunities d))"
    by (simp_all add: distinct_map)
  then have "distinct (due_batch d locked n)"
    unfolding due_batch_def Let_def by (intro distinct_take) auto
  then show "distinct (map o_id (due_batch d locked n))"
    using inj_on_subset [OF \<open>inj_on o_id _\<close> sub] by (simp add: distinct_map)
qed

lemma run_result:
  assumes "audit_ok d" "distinct (map o_id (opportunities d))"
    and "advance_pipeline_job h st ops clock locked d r = (res, d', r')"
  shows "\<exists>es. run_inv h st clock d [] d' es"
proof -
  have start: "run_inv h st clock d (due_batch d locked n) d []" for n
    using assms(1) due_batch_rows(1) [of d locked n] by (auto simp: run_inv_def same_facts_def)
  let ?p = "\<lparr>p_db = d, p_redis = r, n_transitions = 0, n_stuck = 0, n_budget = 0, n_attention = 0\<rparr>"
  show ?thesis
  proof (cases "advance_all h st ops clock (due_batch d locked (batch_size st)) ?p")
    case (Inl e)
    with assms(3) have "d' = d" by (auto simp: advance_pipeline_job_def Let_def split: prod.splits)
    with start [of 0] show ?thesis by (auto simp: due_batch_def Let_def)
  next
    case (Inr p')
    with assms(3) have "d' = p_db p'" by (auto simp: advance_pipeline_job_def Let_def)
    with advance_all_inv [OF _ due_batch_rows(2) [OF assms(2)] assms(2) Inr, of "[]"] start
    show ?thesis by simp
  qed
qed

section \<open>The budget of a run\<close>

fun outcome_redis :: "'r outcome \<Rightarrow> 'r" where
  "outcome_redis (Inl (_, r)) = r"
| "outcome_redis (Inr p) = p_redis p"

context redis_service
begin

definition in_budget :: "int \<Rightarrow> 'r \<Rightarrow> bool" where
  "in_budget b r = (\<exists>b'. counts ops agent_budget_key r b' \<and> 0 \<le> b' \<and> b' \<le> b)"

lemma within_enqueue [simp]: "in_budget b (enqueue ops r t q) = in_budget b r"
  by (simp add: in_budget_def counts_def enqueue_frame)

lemma within_jobs [simp]: "in_budget b (queue_investigation_jobs ops r pid oid) = in_budget b r"
  by (simp add: queue_investigation_jobs_def Let_def)

lemma with_budget_within:
  assumes "in_budget b (p_redis p)"
    and "\<And>c. get_agent_budget_remaining ops (p_redis p) = Some c \<Longrightarrow> in_budget b (outcome_redis (k c))"
  shows "in_budget b (outcome_redis (with_budget ops p k))"
  using assms by (auto simp: with_budget_def split: option.splits)

lemma spend_within:
  assumes "in_budget b (p_redis p)" "b < 2 ^ 62" "get_agent_budget_remaining ops (p_redis p) = Some c"
    and "0 \<le> n" "n \<le> c" "\<And>r'. in_budget b r' \<Longrightarrow> in_budget b (outcome_redis (k (p\<lparr>p_redis := r'\<rparr>)))"
  shows "in_budget b (outcome_redis (spend ops p n k))"
proof -
  from assms(1) obtain b' where b': "counts ops agent_budget_key (p_redis p) b'" "0 \<le> b'" "b' \<le> b"
    by (auto simp: in_budget_def)
  have "\<bar>b'\<bar> < 2 ^ 62" using b' assms(2) by linarith
  with agent.guarded_spend [OF b'(1) _ assms(4)] assms(3,5) obtain r' where
    "decrement_agent_budget ops (p_redis p) n = Some (b' - n, r')"
    "counts ops agent_budget_key r' (b' - n)" "0 \<le> b' - n" by auto
  moreover from this have "in_budget b r'"
    using assms(4) b'(3) by (auto simp: in_budget_def)
  ultimately show ?thesis using assms(6) [of r'] by (simp add: spend_def)
qed

lemma move_within:
  assumes "in_budget b (p_redis p)" "\<And>q. in_budget b (p_redis q) \<Longrightarrow> in_budget b (p_redis (k q))"
  shows "in_budget b (outcome_redis (move clock opp new why k p))"
  using assms by (auto simp: move_def split: sum.splits)

lemma await_within:
  assumes "in_budget b (p_redis p)" "b < 2 ^ 62" "0 \<le> cost"
  shows "in_budget b (outcome_redis (await_output st ops clock opp cost task reason missing p))"
  unfolding await_output_def Let_def
  using assms by (intro with_budget_within) (auto intro!: spend_within)

lemma advance_one_within:
  assumes "in_budget b (p_redis p)" "b < 2 ^ 62"
  shows "in_budget b (outcome_redis (advance_one h st ops clock opp p))"
proof -
  note costs = investigation_agent_calls_def founder_score_agent_calls_def research_agent_calls_def
  have "in_budget b (outcome_redis (advance_discovered h st clock opp person p))" for person
    using assms by (auto simp: advance_discovered_def intro!: move_within split: option.splits)
  moreover have "in_budget b (outcome_redis (advance_interesting ops clock opp person p))" for person
    using assms by (auto simp: advance_interesting_def costs
        intro!: with_budget_within spend_within move_within)
  moreover have "in_budget b (outcome_redis (advance_investigating h st ops clock opp person p))" for person
    using assms by (auto simp: advance_investigating_def retry_investigation_def Let_def costs
        intro!: with_budget_within spend_within move_within split: option.splits)
  moreover have "in_budget b (outcome_redis (advance_received st ops clock opp person p))"
    "in_budget b (outcome_redis (advance_triage st ops clock opp person p))"
    "in_budget b (outcome_redis (advance_screening st ops clock opp person p))"
    "in_budget b (outcome_redis (advance_diligence st ops clock opp person p))" for person
    using assms by (auto simp: advance_received_def advance_triage_def advance_screening_def
        advance_diligence_def costs intro!: await_within move_within)
  ultimately show ?thesis
    using assms(1) by (simp add: advance_one_def Let_def split: option.splits)
qed

lemma advance_all_within:
  "in_budget b (p_redis p) \<Longrightarrow> b < 2 ^ 62 \<Longrightarrow> in_budget b (outcome_redis (advance_all h st ops clock opps p))"
proof (induction opps arbitrary: p)
  case (Cons opp opps)
  from advance_one_within [OF Cons.prems, of h st clock opp]
  have w: "in_budget b (outcome_redis (advance_one h st ops clock opp p))" .
  show ?case
  proof (cases "advance_one h st ops clock opp p")
    case (Inl e)
    with w show ?thesis by simp
  next
    case (Inr p')
    with w Cons.IH [of p'] Cons.prems(2) show ?thesis by simp
  qed
qed simp

lemmas agent_remaining = agent.remaining_holds
lemmas agent_spend = agent.spend_holds

text \<open>One step of an investigation, once its axes are there and its founder scores high enough.\<close>

lemma outreach_step:
  assumes "counts ops agent_budget_key (p_redis p) b" "0 < b" "b < 2 ^ 62"
    and "founder_of (p_db p) (o_id opp) = Some person" "o_lifecycle_state opp = ''investigating''"
    and "has_opportunity_axes (p_db p) (o_id opp)"
    and "score_value h (p_db p) (p_id person) ''founder-agent-v1'' ''founder'' = Some f"
    and "contact_threshold st \<le> f"
  shows "\<exists>p' e. advance_one h st ops clock opp p = Inr p'
    \<and> counts ops agent_budget_key (p_redis p') (b - 1)
    \<and> p_db p' = save_opportunity (add_event (p_db p) e) (opp\<lparr>o_updated_at := Some clock\<rparr>)
    \<and> e_opportunity_id e = o_id opp"
proof -
  have "\<bar>b\<bar> < 2 ^ 62" using assms(2,3) by simp
  from agent.spend_holds [OF assms(1) this, of 1] obtain r' where
    d: "decrement_agent_budget ops (p_redis p) 1 = Some (b - 1, r')" "counts ops agent_budget_key r' (b - 1)"
    by auto
  from assms(7) obtain s where
    s: "latest_score (p_db p) (p_id person) ''founder-agent-v1'' = Some s"
    "float_of h (case dget (s_components s) ''founder'' of Some v \<Rightarrow> v | None \<Rightarrow> PFloat 0) = Some f"
    by (auto simp: score_value_def split: option.splits)
  have "advance_one h st ops clock opp p = advance_investigating h st ops clock opp person p"
    using assms(4,5) by (simp add: advance_one_def)
  also have "\<dots> = Inr (push ops (PDict [(''job_type'', PStr ''contact_outbound''), (''person_id'', PStr (p_id person))])
      (touch clock opp (log_work clock opp (''Outreach draft requested '' @ em_dash @ '' '' @
         (''Agent composite '' @ fmt_fixed 1 (f * 100) @ '' >= contact threshold ''
           @ fmt_fixed 0 (contact_threshold st * 100)))
        [(''outreach_status'', PStr ''drafted'')] (p\<lparr>p_redis := r'\<rparr>))))"
    using assms(2,6,8) s d(1) agent.remaining_holds [OF assms(1)]
    by (simp add: advance_investigating_def with_budget_def spend_def Let_def)
  finally show ?thesis
    using d(2) by (auto simp: counts_def enqueue_frame)
qed

end

section \<open>Sample runs\<close>

definition sample_person :: person where
  "sample_person = \<lparr>p_id = ''p1'', p_stable_id = ''github:ada'', p_display_name = Some ''Ada'',
     p_email = None, p_handles = None, p_consent_state = ''pending'', p_legal_basis = None,
     p_notice_version = None, p_purposes = PDict [], p_provider_policy = None,
     p_retention_days = PNone, p_residency = None, p_avatar_data = None, p_avatar_mime_type = None,
     p_avatar_sha256 = None, p_avatar_source_type = None, p_avatar_source_url = None,
     p_avatar_image_url = None, p_avatar_fetched_at = None, p_superseded_by = None,
     p_canonical = True, p_merged_at = None, p_created_at = None\<rparr>"

definition sample_score :: "uuid \<Rightarrow> string \<Rightarrow> string \<Rightarrow> pyval dict \<Rightarrow> score_snapshot" where
  "sample_score subject kind rubric components = \<lparr>s_id = ''s1'', s_subject_id = subject, s_subject_type = kind,
     s_rubric_version = rubric, s_components = components, s_interval = None, s_evidence_ids = [],
     s_input_fingerprint = None, s_provenance = PNone, s_artifact_metadata = [], s_created_at = 0\<rparr>"

definition sample_memo :: investment_memo where
  "sample_memo = \<lparr>memo_id = ''m1'', memo_opportunity_id = o_id sample_opportunity, memo_thesis_version = ''v1'',
     memo_status = ''succeeded'', memo_claim_ids = [], memo_assessment_ids = [], memo_sections = [],
     memo_evidence_ids = [], memo_model_version = ''m'', memo_artifact_metadata = []\<rparr>"

definition deal_at :: "string \<Rightarrow> opportunity" where
  "deal_at s = sample_opportunity\<lparr>o_lifecycle_state := s\<rparr>"

definition deal_db :: "string \<Rightarrow> db" where
  "deal_db s = empty_db\<lparr>persons := [sample_person], opportunities := [deal_at s],
     founders := [\<lparr>of_opportunity_id = o_id sample_opportunity, of_person_id = ''p1'', of_role = ''founder''\<rparr>]\<rparr>"

definition memo_db :: db where
  "memo_db = (deal_db ''diligence'')\<lparr>memos := [sample_memo]\<rparr>"

definition contact_db :: db where
  "contact_db = (deal_db ''investigating'')\<lparr>score_snapshots :=
     [sample_score (o_id sample_opportunity) ''opportunity'' ''opportunity-axes-v1'' [],
      sample_score ''p1'' ''person'' ''founder-agent-v1'' [(''founder'', PFloat (9 / 10))]]\<rparr>"

definition sample_host :: host where
  "sample_host = \<lparr>float_text = (\<lambda>x. ''0.45''), float_parse = (\<lambda>s. None)\<rparr>"

definition sample_settings :: pipeline_settings where
  "sample_settings = \<lparr>signal_threshold = 45 / 100, contact_threshold = 65 / 100,
     stuck_after_minutes = 30, batch_size = 5\<rparr>"

definition funded_redis :: list_redis where
  "funded_redis = set_key sample_ops empty_redis agent_budget_key (int_str 100)"

definition pipe_of :: "db \<Rightarrow> list_redis pipe" where
  "pipe_of d = \<lparr>p_db = d, p_redis = funded_redis, n_transitions = 0, n_stuck = 0, n_budget = 0, n_attention = 0\<rparr>"

lemmas samples = deal_db_def deal_at_def memo_db_def contact_db_def sample_opportunity_def empty_db_def
  sample_person_def sample_memo_def sample_score_def sample_host_def sample_settings_def pipe_of_def

lemma funded: "counts sample_ops agent_budget_key funded_redis 100"
  by (simp add: counts_def funded_redis_def redis_service.set_kv [OF sample_ops_service])

lemma audit_deal: "s \<in> set stages \<Longrightarrow> opportunities d = [deal_at s] \<Longrightarrow> decision_events d = [] \<Longrightarrow> audit_ok d"
  by (simp add: audit_ok_def log_of_def deal_at_def)

lemma memo_db_ok: "audit_ok memo_db" "distinct (map o_id (opportunities memo_db))"
proof -
  show "audit_ok memo_db"
    by (rule audit_deal [of "''diligence''"]) (simp_all add: samples stages_simp)
  show "distinct (map o_id (opportunities memo_db))" by (simp add: samples)
qed

lemma memo_run: "\<exists>st d' y. advance_pipeline_job sample_host sample_settings sample_ops 100 (\<lambda>i. False) memo_db funded_redis
    = (Inr st, d', funded_redis) \<and> opportunities d' = [y] \<and> o_id y = o_id (deal_at ''diligence'')
    \<and> o_lifecycle_state y = ''memo_ready''"
proof -
  have batch: "due_batch memo_db (\<lambda>i. False) 5 = [deal_at ''diligence'']"
    by (simp add: due_batch_def samples)
  have f: "founder_of memo_db (o_id (deal_at ''diligence'')) = Some sample_person"
    by (simp add: founder_of_def samples)
  have m: "has_memo memo_db (o_id (deal_at ''diligence''))"
    by (simp add: has_memo_def samples)
  have "is_valid_transition (o_lifecycle_state (deal_at ''diligence'')) ''memo_ready''"
    by (simp add: is_valid_transition_def transitions_simp samples)
  then obtain e y d' where t: "transition_opportunity 100 memo_db (deal_at ''diligence'') ''memo_ready'' auto_actor
      ''Validated investment memo generated'' = Inr (e, y, d')"
    using transition_Inr_iff by (metis prod_cases3)
  note facts = transition_Inr [OF t]
  have s: "o_lifecycle_state (deal_at ''diligence'') = ''diligence''" "batch_size sample_settings = 5"
    by (simp_all add: samples)
  have "opportunities d' = [y]"
    using facts s by (auto simp: put_row_def) (simp_all add: samples)
  with t facts batch f m s show ?thesis
    by (simp add: advance_pipeline_job_def advance_one_def advance_diligence_def move_def count_move_def)
qed

section \<open>Properties\<close>

text \<open>
  A run keeps the books: however it ends, the audit log stays a valid history of every
  opportunity, no row appears or disappears, earlier events stay as they are, and the new ones are
  the job's own, at most one per opportunity, each starting at the stage the opportunity had.
\<close>

theorem pipeline_run_keeps_books:
  assumes "audit_ok d" and "distinct (map o_id (opportunities d))"
    and "advance_pipeline_job h st ops clock locked d r = (res, d', r')"
  shows "audit_ok d' \<and> map o_id (opportunities d') = map o_id (opportunities d)
    \<and> (\<exists>es. decision_events d' = decision_events d @ es \<and> distinct (map e_opportunity_id es)
         \<and> (\<forall>e \<in> set es. e_actor e = auto_actor \<and> (\<exists>opp \<in> set (opportunities d).
               e_opportunity_id e = o_id opp \<and> e_prior_state e = o_lifecycle_state opp)))"
proof -
  from run_result [OF assms] obtain es where "run_inv h st clock d [] d' es" ..
  then show ?thesis by (fastforce simp: run_inv_def justified_def)
qed

theorem pipeline_run_keeps_books_witness:
  "\<exists>st d'. advance_pipeline_job sample_host sample_settings sample_ops 100 (\<lambda>i. False) memo_db funded_redis
     = (Inr st, d', funded_redis) \<and> audit_ok d'"
proof -
  from memo_run obtain st d' where
    run: "advance_pipeline_job sample_host sample_settings sample_ops 100 (\<lambda>i. False) memo_db funded_redis
      = (Inr st, d', funded_redis)" by blast
  from pipeline_run_keeps_books [OF memo_db_ok run] run show ?thesis by blast
qed

text \<open>
  C1. A run moves a deal only on evidence: an opportunity that changes stage does so along one of
  the job's seven moves, with its output on file when the run starts (scoped claims for triage, a
  Founder Score for screening, the opportunity axes for diligence, a succeeded memo for memo
  ready), and it never ends in contacted, received, hold or approved unless it was there.
\<close>

theorem pipeline_moves_on_evidence:
  assumes "audit_ok d" and "distinct (map o_id (opportunities d))"
    and "advance_pipeline_job h st ops clock locked d r = (res, d', r')"
    and "x \<in> set (opportunities d)" and "y \<in> set (opportunities d')" and "o_id y = o_id x"
  shows "o_lifecycle_state y = o_lifecycle_state x \<or>
    (\<exists>person. founder_of d (o_id x) = Some person \<and> gate h st clock d x person (o_lifecycle_state y)
       \<and> o_lifecycle_state y \<notin> {''contacted'', ''received'', ''hold'', ''approved''})"
proof -
  from run_result [OF assms(1-3)] obtain es where inv: "run_inv h st clock d [] d' es" ..
  have inj: "x' = x" if "x' \<in> set (opportunities d)" "o_id x' = o_id x" for x'
    using that assms(2,4) by (auto simp: distinct_map inj_on_def)
  from inv assms(5) consider "y \<in> set (opportunities d)"
    | e where "e \<in> set es" "e_opportunity_id e = o_id y" "e_new_state e = o_lifecycle_state y"
    by (auto simp: run_inv_def)
  then show ?thesis
  proof cases
    case 1
    from inj [OF this assms(6)] show ?thesis by simp
  next
    case 2
    then have "justified h st clock d e" using inv by (simp add: run_inv_def)
    then obtain opp where opp: "opp \<in> set (opportunities d)" "e_opportunity_id e = o_id opp"
      and why: "e_new_state e = o_lifecycle_state opp \<or> (\<exists>person. founder_of d (o_id opp) = Some person
        \<and> gate h st clock d opp person (e_new_state e))"
      by (auto simp: justified_def)
    have "opp = x" by (rule inj) (use opp 2 assms(6) in simp_all)
    with why 2(3) show ?thesis using gate_target by metis
  qed
qed

theorem pipeline_moves_on_evidence_witness:
  "\<exists>person. gate sample_host sample_settings 100 memo_db (deal_at ''diligence'') person ''memo_ready''"
proof -
  from memo_run obtain st d' y where
    run: "advance_pipeline_job sample_host sample_settings sample_ops 100 (\<lambda>i. False) memo_db funded_redis
      = (Inr st, d', funded_redis)"
    and y: "opportunities d' = [y]" "o_id y = o_id (deal_at ''diligence'')" "o_lifecycle_state y = ''memo_ready''"
    by blast
  have "deal_at ''diligence'' \<in> set (opportunities memo_db)" by (simp add: memo_db_def deal_db_def)
  from pipeline_moves_on_evidence [OF memo_db_ok run this _ y(2)] y(1,3)
  have "\<exists>person. gate sample_host sample_settings 100 memo_db (deal_at ''diligence'') person (o_lifecycle_state y)"
    by (simp add: deal_at_def) blast
  with y(3) show ?thesis by simp
qed

text \<open>
  C37. A run spends only what it has: whatever happens, also when it fails half way and the database
  rolls back, the agent budget is never overdrawn and never grows.
\<close>

theorem pipeline_stays_in_budget:
  assumes "redis_service ops" and "counts ops agent_budget_key r b" and "0 \<le> b" and "b < 2 ^ 62"
    and "advance_pipeline_job h st ops clock locked d r = (res, d', r')"
  shows "\<exists>b'. get_agent_budget_remaining ops r' = Some b' \<and> 0 \<le> b' \<and> b' \<le> b"
proof -
  let ?p = "\<lparr>p_db = d, p_redis = r, n_transitions = 0, n_stuck = 0, n_budget = 0, n_attention = 0\<rparr>"
  let ?a = "advance_all h st ops clock (due_batch d locked (batch_size st)) ?p"
  have "redis_service.in_budget ops b (p_redis ?p)"
    using assms(2,3) by (auto simp: redis_service.in_budget_def [OF assms(1)])
  from redis_service.advance_all_within [OF assms(1) this assms(4)]
  have "redis_service.in_budget ops b (outcome_redis ?a)" .
  moreover have "outcome_redis ?a = r'"
    using assms(5) by (auto simp: advance_pipeline_job_def Let_def split: sum.splits prod.splits)
  ultimately obtain b' where "counts ops agent_budget_key r' b'" "0 \<le> b'" "b' \<le> b"
    by (auto simp: redis_service.in_budget_def [OF assms(1)])
  then show ?thesis by (auto simp: counts_def get_agent_budget_remaining_def kv_get budget_of_int_str)
qed

theorem pipeline_stays_in_budget_witness:
  "\<exists>b'. get_agent_budget_remaining sample_ops (snd (snd
     (advance_pipeline_job sample_host sample_settings sample_ops 100 (\<lambda>i. False) contact_db funded_redis))) = Some b'
     \<and> 0 \<le> b' \<and> b' \<le> 100"
proof -
  let ?x = "advance_pipeline_job sample_host sample_settings sample_ops 100 (\<lambda>i. False) contact_db funded_redis"
  have "?x = (fst ?x, fst (snd ?x), snd (snd ?x))" by simp
  from pipeline_stays_in_budget [OF sample_ops_service funded _ _ this] show ?thesis by simp
qed

lemma startswith_append: "startswith s q \<Longrightarrow> startswith (s @ t) q"
proof -
  assume s: "startswith s q"
  then have "length (take (length q) s) = length q" by (simp add: startswith_def)
  then have "length q \<le> length s" by simp
  with s show ?thesis by (simp add: startswith_def)
qed

lemma startswith_Nil [simp]: "startswith s []"
  by (simp add: startswith_def)

lemma contains_append: "contains s q \<Longrightarrow> contains (s @ t) q"
proof (induction s)
  case Nil
  then show ?case by (cases t) auto
next
  case (Cons c s)
  then show ?case using startswith_append [of "c # s" q t] by auto
qed

text \<open>
  A stuck investigation makes progress: when its research is missing and it has not been touched
  for the stuck interval, the step either closes it, after three retries, or pays for the research
  again, queues it, and adds one to its retries.
\<close>

theorem stuck_investigation_progresses:
  assumes "redis_service ops" and "counts ops agent_budget_key (p_redis p) b" and "5 \<le> b" and "b < 2 ^ 62"
    and "founder_of (p_db p) (o_id opp) = Some person" and "o_lifecycle_state opp = ''investigating''"
    and "\<not> has_opportunity_axes (p_db p) (o_id opp)" and "stale st clock opp"
    and "opp \<in> set (opportunities (p_db p))"
  shows "\<exists>p'. advance_one h st ops clock opp p = Inr p' \<and>
    (if 3 \<le> count_retries (p_db p) (o_id opp)
     then n_stuck p' = n_stuck p + 1
       \<and> (\<exists>y \<in> set (opportunities (p_db p')). o_id y = o_id opp \<and> o_lifecycle_state y = ''closed'')
     else count_retries (p_db p') (o_id opp) = count_retries (p_db p) (o_id opp) + 1
       \<and> opp\<lparr>o_updated_at := Some clock\<rparr> \<in> set (opportunities (p_db p'))
       \<and> get_agent_budget_remaining ops (p_redis p') = Some (b - 5))"
proof -
  have t: "\<not> (case o_updated_at opp of None \<Rightarrow> False | Some u \<Rightarrow> clock - stuck_after_minutes st * us_minute < u)"
    using assms(8) by (auto simp: stale_def split: option.splits)
  have one: "advance_one h st ops clock opp p = retry_investigation st ops clock opp person p"
    using assms(5-7) by (simp add: advance_one_def advance_investigating_def)
  show ?thesis
  proof (cases "3 \<le> count_retries (p_db p) (o_id opp)")
    case True
    let ?why = "''Pipeline timeout after '' @ nat_str max_retries @ '' retries''"
    have "is_valid_transition (o_lifecycle_state opp) ''closed''"
      using assms(6) by (simp add: transition_to_closed stages_simp)
    then obtain e opp' d' where tr: "transition_opportunity clock (p_db p) opp ''closed'' auto_actor ?why = Inr (e, opp', d')"
      using transition_Inr_iff by (metis prod_cases3)
    note facts = transition_Inr [OF tr]
    have "opp' \<in> set (opportunities d')"
      using facts assms(9) by (force simp: put_row_def)
    moreover have "advance_one h st ops clock opp p
        = Inr (p\<lparr>p_db := d', n_stuck := n_stuck p + 1\<rparr>)"
      using tr True t one by (simp add: retry_investigation_def Let_def max_retries_def move_def)
    moreover have "o_id opp' = o_id opp" "o_lifecycle_state opp' = ''closed''"
      using facts by blast+
    ultimately show ?thesis using True by auto
  next
    case False
    have "\<bar>b\<bar> < 2 ^ 62" using assms(3,4) by simp
    from redis_service.agent_spend [OF assms(1,2) \<open>\<bar>b\<bar> < 2 ^ 62\<close>, of 5] obtain r' where
      d: "decrement_agent_budget ops (p_redis p) 5 = Some (b - 5, r')" "counts ops agent_budget_key r' (b - 5)"
      by auto
    let ?n = "count_retries (p_db p) (o_id opp)"
    let ?p' = "touch clock opp (log_work clock opp (''Pipeline retry '' @ nat_str (?n + 1))
        [(''retry'', PInt (int ?n + 1))]
        (p\<lparr>p_redis := queue_investigation_jobs ops r' (p_id person) (o_id opp)\<rparr>))"
    have step: "advance_one h st ops clock opp p = Inr ?p'"
      using one t False assms(3) d(1) redis_service.agent_remaining [OF assms(1,2)]
      by (simp add: retry_investigation_def Let_def max_retries_def investigation_agent_calls_def
          with_budget_def spend_def)
    have "contains ''Pipeline retry '' ''retry''" by code_simp
    then have like: "contains (''Pipeline retry '' @ nat_str (?n + 1)) ''retry''" by (rule contains_append)
    have "count_retries (p_db ?p') (o_id opp) = ?n + 1"
      using like by (simp add: count_retries_def reason_like_def)
    moreover have "opp\<lparr>o_updated_at := Some clock\<rparr> \<in> set (opportunities (p_db ?p'))"
      using assms(9) by (force simp: put_row_def)
    moreover have "get_agent_budget_remaining ops (p_redis ?p') = Some (b - 5)"
      using d(2) redis_service.enqueue_frame [OF assms(1)]
      by (simp add: counts_def get_agent_budget_remaining_def kv_get budget_of_int_str
          queue_investigation_jobs_def Let_def)
    ultimately show ?thesis using step False by auto
  qed
qed

theorem stuck_investigation_progresses_witness:
  "\<exists>p'. advance_one sample_host sample_settings sample_ops (60 * us_minute) (deal_at ''investigating'')
     (pipe_of (deal_db ''investigating'')) = Inr p' \<and> get_agent_budget_remaining sample_ops (p_redis p') = Some 95"
proof -
  let ?p = "pipe_of (deal_db ''investigating'')" and ?o = "deal_at ''investigating''"
  have c: "counts sample_ops agent_budget_key (p_redis ?p) 100" using funded by (simp add: pipe_of_def)
  have f: "founder_of (p_db ?p) (o_id ?o) = Some sample_person" by (simp add: founder_of_def samples)
  have s: "o_lifecycle_state ?o = ''investigating''" by (simp add: deal_at_def)
  have a: "\<not> has_opportunity_axes (p_db ?p) (o_id ?o)" by (simp add: has_opportunity_axes_def samples)
  have t: "stale sample_settings (60 * us_minute) ?o" by (simp add: stale_def samples us_defs)
  have m: "?o \<in> set (opportunities (p_db ?p))" by (simp add: deal_db_def pipe_of_def)
  have "count_retries (p_db ?p) (o_id ?o) = 0" by (simp add: count_retries_def samples)
  with stuck_investigation_progresses [OF sample_ops_service c _ _ f s a t m] show ?thesis by auto
qed

text \<open>
  An outreach draft is charged again on every run: while a contact-worthy investigation waits for
  its draft to be approved, two runs of its step spend two agent calls and log two requests,
  although the job that writes the draft returns the existing one.
\<close>

theorem outreach_charged_every_run:
  assumes "redis_service ops" and "counts ops agent_budget_key (p_redis p) b" and "1 < b" and "b < 2 ^ 62"
    and "founder_of (p_db p) (o_id opp) = Some person" and "o_lifecycle_state opp = ''investigating''"
    and "has_opportunity_axes (p_db p) (o_id opp)"
    and "score_value h (p_db p) (p_id person) ''founder-agent-v1'' ''founder'' = Some f"
    and "contact_threshold st \<le> f"
  shows "\<exists>p1 p2. advance_one h st ops c1 opp p = Inr p1
    \<and> advance_one h st ops c2 (opp\<lparr>o_updated_at := Some c1\<rparr>) p1 = Inr p2
    \<and> get_agent_budget_remaining ops (p_redis p2) = Some (b - 2)
    \<and> length (log_of (p_db p2) (o_id opp)) = length (log_of (p_db p) (o_id opp)) + 2"
proof -
  have "0 < b" using assms(3) by simp
  from redis_service.outreach_step [OF assms(1,2) this assms(4-9), of c1] obtain p1 e1 where
    one: "advance_one h st ops c1 opp p = Inr p1" "counts ops agent_budget_key (p_redis p1) (b - 1)"
    and db1: "p_db p1 = save_opportunity (add_event (p_db p) e1) (opp\<lparr>o_updated_at := Some c1\<rparr>)"
      "e_opportunity_id e1 = o_id opp" by blast
  let ?opp = "opp\<lparr>o_updated_at := Some c1\<rparr>"
  have same: "same_facts (p_db p) (p_db p1)"
    using same_facts_step [of "p_db p" ?opp e1] by (simp add: db1 save_add_commute)
  have pre: "0 < b - 1" "b - 1 < 2 ^ 62" "founder_of (p_db p1) (o_id ?opp) = Some person"
    "o_lifecycle_state ?opp = ''investigating''" "has_opportunity_axes (p_db p1) (o_id ?opp)"
    "score_value h (p_db p1) (p_id person) ''founder-agent-v1'' ''founder'' = Some f"
    using assms same founder_of_cong [OF same]
    by (simp_all add: has_opportunity_axes_def score_value_def latest_score_def same_facts_def)
  from redis_service.outreach_step [OF assms(1) one(2) pre assms(9), of c2] obtain p2 e2 where
    two: "advance_one h st ops c2 ?opp p1 = Inr p2" "counts ops agent_budget_key (p_redis p2) (b - 1 - 1)"
    and db2: "p_db p2 = save_opportunity (add_event (p_db p1) e2) (?opp\<lparr>o_updated_at := Some c2\<rparr>)"
      "e_opportunity_id e2 = o_id ?opp" by blast
  have "get_agent_budget_remaining ops (p_redis p2) = Some (b - 2)"
    using two(2) by (simp add: counts_def get_agent_budget_remaining_def kv_get budget_of_int_str)
  with one(1) two(1) db1 db2 show ?thesis by (auto simp: log_of_add_event)
qed

theorem outreach_charged_every_run_witness:
  "\<exists>p1 p2. advance_one sample_host sample_settings sample_ops 1 (deal_at ''investigating'') (pipe_of contact_db) = Inr p1
     \<and> advance_one sample_host sample_settings sample_ops 2 ((deal_at ''investigating'')\<lparr>o_updated_at := Some 1\<rparr>) p1 = Inr p2
     \<and> get_agent_budget_remaining sample_ops (p_redis p2) = Some 98"
proof -
  let ?p = "pipe_of contact_db" and ?o = "deal_at ''investigating''"
  have c: "counts sample_ops agent_budget_key (p_redis ?p) 100" using funded by (simp add: pipe_of_def)
  have f: "founder_of (p_db ?p) (o_id ?o) = Some sample_person" by (simp add: founder_of_def samples)
  have s: "o_lifecycle_state ?o = ''investigating''" by (simp add: deal_at_def)
  have a: "has_opportunity_axes (p_db ?p) (o_id ?o)" by (simp add: has_opportunity_axes_def samples)
  have v: "score_value sample_host (p_db ?p) (p_id sample_person) ''founder-agent-v1'' ''founder'' = Some (9 / 10)"
    by (simp add: score_value_def latest_score_def samples)
  have g: "contact_threshold sample_settings \<le> 9 / 10" by (simp add: samples)
  from outreach_charged_every_run [OF sample_ops_service c _ _ f s a v g, of 1 2] show ?thesis by auto
qed

end
