(* ===== verification/Matchers.thy ===== *)
theory Matchers
  imports Py_Prelude
begin

text \<open>
  The identity matchers of \<^verbatim>\<open>app/identity/matchers.py\<close> and the blocking keys of
  \<^verbatim>\<open>app/identity/resolve.py\<close>. \<open>fuzz.token_sort_ratio\<close> of rapidfuzz is \<open>ratio\<close>, and the
  Unicode step of \<open>_normalize_name\<close>, NFKD without combining characters, is \<open>deaccent\<close>, which
  needs the Unicode tables. \<open>urlparse\<close> is modelled as far as the code reads it; it raises on
  unbalanced brackets in the authority, which is \<open>None\<close> here.
\<close>

section \<open>URLs\<close>

fun take_until :: "char set \<Rightarrow> string \<Rightarrow> string" where
  "take_until cs [] = []"
| "take_until cs (c # s) = (if c \<in> cs then [] else c # take_until cs s)"

fun drop_until :: "char set \<Rightarrow> string \<Rightarrow> string" where
  "drop_until cs [] = []"
| "drop_until cs (c # s) = (if c \<in> cs then c # s else drop_until cs s)"

text \<open>\<open>s.rpartition('@')[2]\<close>.\<close>

fun after_last_at :: "string \<Rightarrow> string" where
  "after_last_at [] = []"
| "after_last_at (c # s) = (if CHR ''@'' \<in> set s then after_last_at s
     else if c = CHR ''@'' then s else c # s)"

definition url_hostname :: "string \<Rightarrow> string" where
  "url_hostname netloc =
     (let hostinfo = after_last_at netloc
      in lower (if CHR ''['' \<in> set hostinfo
                then take_until {CHR '']''} (tl (drop_until {CHR ''[''} hostinfo))
                else take_until {CHR '':''} hostinfo))"

text \<open>\<open>urlparse\<close> drops the parameters of the last path segment.\<close>

definition drop_params :: "string \<Rightarrow> string" where
  "drop_params path =
     (let seg = rev (take_until {CHR ''/''} (rev path)); front = take (length path - length seg) path
      in front @ take_until {CHR '';''} seg)"

definition strip_slashes :: "string \<Rightarrow> string" where
  "strip_slashes s = rev (dropWhile (\<lambda>c. c = CHR ''/'') (rev s))"

definition normalize_url :: "string \<Rightarrow> string option" where
  "normalize_url url0 =
     (let url1 = lower (strip url0);
          url = (if startswith url1 ''http://'' \<or> startswith url1 ''https://'' then url1 else ''https://'' @ url1);
          clean = filter (\<lambda>c. char_code c \<notin> {9, 10, 13}) url;
          rest = drop (length (take_until {CHR '':''} clean) + 3) clean;
          netloc = take_until {CHR ''/'', CHR ''?'', CHR ''#''} rest;
          path = take_until {CHR ''?'', CHR ''#''} (drop (length netloc) rest)
      in if (CHR ''['' \<in> set netloc) \<noteq> (CHR '']'' \<in> set netloc) then None
         else (let hostname = url_hostname netloc;
                   host = (if startswith hostname ''www.'' then drop 4 hostname else hostname)
               in Some (host @ strip_slashes (drop_params path))))"

section \<open>Signals\<close>

type_synonym facts = "(string \<times> string) list"

definition get_observation :: "facts \<Rightarrow> string \<Rightarrow> string option" where
  "get_observation obs predicate =
     (case find (\<lambda>(p, v). p = predicate \<and> v \<noteq> []) obs of None \<Rightarrow> None | Some (p, v) \<Rightarrow> Some (strip v))"

record id_signals =
  sg_email :: "string option"
  sg_twitter_handle :: "string option"
  sg_blog_url :: "string option"
  sg_website_url :: "string option"
  sg_display_name :: "string option"
  sg_location :: "string option"
  sg_company :: "string option"
  sg_linkedin_url :: "string option"
  sg_github_login :: "string option"

definition extract_signals :: "facts \<Rightarrow> id_signals" where
  "extract_signals obs = \<lparr>
     sg_email = get_observation obs ''email'',
     sg_twitter_handle = get_observation obs ''twitter_handle'',
     sg_blog_url = get_observation obs ''blog_url'',
     sg_website_url = get_observation obs ''website_url'',
     sg_display_name = get_observation obs ''display_name'',
     sg_location = get_observation obs ''location'',
     sg_company = get_observation obs ''company'',
     sg_linkedin_url = get_observation obs ''linkedin_url'',
     sg_github_login = get_observation obs ''github_login''\<rparr>"

section \<open>Matchers\<close>

definition exact_match :: "string option \<Rightarrow> string option \<Rightarrow> bool" where
  "exact_match a b = (str_truthy a \<and> str_truthy b \<and> lower (strip (the a)) = lower (strip (the b)))"

definition url_match :: "string option \<Rightarrow> string option \<Rightarrow> bool option" where
  "url_match a b =
     (if \<not> str_truthy a \<or> \<not> str_truthy b then Some False
      else (case (normalize_url (the a), normalize_url (the b)) of
              (Some x, Some y) \<Rightarrow> Some (x = y) | _ \<Rightarrow> None))"

record match_env =
  me_deaccent :: "string \<Rightarrow> string"
  me_ratio :: "string \<Rightarrow> string \<Rightarrow> real"

definition normalize_name :: "match_env \<Rightarrow> string \<Rightarrow> string" where
  "normalize_name env name = lower (me_deaccent env name)"

definition name_similarity :: "match_env \<Rightarrow> string option \<Rightarrow> string option \<Rightarrow> real" where
  "name_similarity env a b =
     (if \<not> str_truthy a \<or> \<not> str_truthy b then 0
      else me_ratio env (normalize_name env (the a)) (normalize_name env (the b)))"

text \<open>\<open>s.split(sep)\<close> for a longer separator.\<close>

function split_str :: "string \<Rightarrow> string \<Rightarrow> string \<Rightarrow> string list" where
  "split_str sep acc s =
     (if s = [] then [rev acc]
      else if sep \<noteq> [] \<and> startswith s sep then rev acc # split_str sep [] (drop (length sep) s)
      else split_str sep (hd s # acc) (tl s))"
  by pat_completeness auto
termination
  by (relation "measure (\<lambda>(sep, acc, s). length s)") auto

declare split_str.simps [simp del]

definition linkedin_slug :: "string \<Rightarrow> string" where
  "linkedin_slug linkedin =
     lower (replace_char CHR ''-'' '' '' (hd (split_on CHR ''/'' (last (split_str ''/in/'' [] linkedin)))))"

definition linkedin_name_match :: "string \<Rightarrow> string \<Rightarrow> bool" where
  "linkedin_name_match linkedin name =
     (let slug = linkedin_slug linkedin
      in (slug \<noteq> [] \<and> contains slug (lower name)) \<or> contains (lower name) slug)"

definition corroborating_signals :: "id_signals \<Rightarrow> id_signals \<Rightarrow> string list option" where
  "corroborating_signals a b =
     (case url_match (sg_blog_url a) (sg_website_url b) of
        None \<Rightarrow> None
      | Some same_site \<Rightarrow>
          (let linkedin = (if str_truthy (sg_linkedin_url a) then sg_linkedin_url a else sg_linkedin_url b);
               name = (if str_truthy (sg_display_name b) then sg_display_name b else sg_display_name a)
           in Some ((if exact_match (sg_location a) (sg_location b) then [''same_location''] else [])
              @ (if exact_match (sg_company a) (sg_company b) then [''same_company''] else [])
              @ (if same_site then [''blog_website_match''] else [])
              @ (if str_truthy linkedin \<and> str_truthy name \<and> linkedin_name_match (the linkedin) (the name)
                 then [''linkedin_name_match''] else []))))"

definition match_confidence :: "match_env \<Rightarrow> facts \<Rightarrow> facts \<Rightarrow> (real \<times> string list) option" where
  "match_confidence env obs_a obs_b =
     (let a = extract_signals obs_a; b = extract_signals obs_b
      in if exact_match (sg_email a) (sg_email b) then Some (1, [''email_exact''])
         else if exact_match (sg_twitter_handle a) (sg_twitter_handle b) then Some (95 / 100, [''twitter_exact''])
         else (case url_match (sg_blog_url a) (sg_website_url b) of
             None \<Rightarrow> None
           | Some True \<Rightarrow> Some (95 / 100, [''url_exact''])
           | Some False \<Rightarrow>
             (case url_match (sg_website_url a) (sg_blog_url b) of
                None \<Rightarrow> None
              | Some True \<Rightarrow> Some (95 / 100, [''url_exact''])
              | Some False \<Rightarrow>
                  if 90 \<le> name_similarity env (sg_display_name a) (sg_display_name b)
                  then (case corroborating_signals a b of
                      None \<Rightarrow> None
                    | Some corroboration \<Rightarrow>
                        if corroboration \<noteq> [] then Some (85 / 100, ''name_fuzzy'' # corroboration)
                        else Some (1 / 2, [''name_fuzzy_only'']))
                  else Some (0, []))))"

definition should_auto_merge :: "real \<Rightarrow> real \<Rightarrow> bool" where
  "should_auto_merge confidence threshold = (threshold \<le> confidence)"

definition merge_threshold :: real where "merge_threshold = 8 / 10"

section \<open>Blocking keys\<close>

definition observation_keys :: "string \<times> string \<Rightarrow> string list option" where
  "observation_keys pv = (case pv of (pred, val) \<Rightarrow>
     if pred = ''email'' \<and> CHR ''@'' \<in> set val
     then (let local = take 3 (lower (hd (split_on CHR ''@'' val)))
           in Some (if local \<noteq> [] then [''email:'' @ local] else []))
     else if pred = ''twitter_handle'' \<and> val \<noteq> [] then Some [''twitter:'' @ lower (strip val)]
     else if pred \<in> {''blog_url'', ''website_url''} \<and> val \<noteq> []
     then map_option (\<lambda>u. let domain = hd (split_on CHR ''/'' u)
                          in if domain \<noteq> [] then [''domain:'' @ domain] else []) (normalize_url val)
     else if pred = ''display_name'' \<and> val \<noteq> []
     then Some (map (\<lambda>token. ''name:'' @ take 3 token)
            (filter (\<lambda>token. 3 \<le> length token) (split_ws (lower (strip val)))))
     else Some [])"

fun build_blocking_keys :: "facts \<Rightarrow> string list option" where
  "build_blocking_keys [] = Some []"
| "build_blocking_keys (x # xs) =
     (case (observation_keys x, build_blocking_keys xs) of
        (Some ks, Some rest) \<Rightarrow> Some (ks @ rest) | _ \<Rightarrow> None)"

section \<open>Properties\<close>


definition sample_match_env :: match_env where
  "sample_match_env = \<lparr>me_deaccent = (\<lambda>s. s), me_ratio = (\<lambda>a b. if a = b then 100 else 0)\<rparr>"


text \<open>
  A LinkedIn address with nothing after its last \<open>/in/\<close> corroborates every name: the empty slug
  is in every text, so two people whose names are merely similar are merged.
\<close>

theorem empty_linkedin_slug_merges:
  assumes "linkedin_slug url = []" and "url \<noteq> []"
    and "extract_signals x = a\<lparr>sg_linkedin_url := Some url\<rparr>" and "extract_signals y = b"
    and "str_truthy (sg_display_name b)"
    and "90 \<le> name_similarity env (sg_display_name a) (sg_display_name b)"
    and "match_confidence env x y = Some (conf, reasons)"
  shows "should_auto_merge conf merge_threshold"
proof -
  have "linkedin_name_match url name" for name
    using assms(1) by (cases "lower name") (simp_all add: linkedin_name_match_def startswith_def)
  with assms show ?thesis
    unfolding match_confidence_def Let_def should_auto_merge_def merge_threshold_def corroborating_signals_def
    by (auto split: if_splits option.splits bool.splits)
qed

theorem empty_linkedin_slug_merges_witness:
  "should_auto_merge (85 / 100) merge_threshold
   \<and> linkedin_slug ''https://linkedin.com/in/'' = []"
proof -
  let ?x = "[(''display_name'', ''Ada Byron''), (''linkedin_url'', ''https://linkedin.com/in/'')]"
    and ?y = "[(''display_name'', ''Ada Byron'')]"
  let ?a = "extract_signals ?x" and ?b = "extract_signals ?y"
  have s: "linkedin_slug ''https://linkedin.com/in/'' = []" by code_simp
  have u: "?a = ?a\<lparr>sg_linkedin_url := Some ''https://linkedin.com/in/''\<rparr>" by code_simp
  have n: "str_truthy (sg_display_name ?b)" by code_simp
  have r: "90 \<le> name_similarity sample_match_env (sg_display_name ?a) (sg_display_name ?b)" by code_simp
  have m: "match_confidence sample_match_env ?x ?y = Some (85 / 100, [''name_fuzzy'', ''linkedin_name_match''])" by code_simp
  from empty_linkedin_slug_merges [OF s _ u refl n r m] s show ?thesis by simp
qed

end
