(* ===== verification/Merge_Persons.thy ===== *)
theory Merge_Persons
  imports Matchers Pipeline_Safety
begin

text \<open>
  Merging two people, \<^verbatim>\<open>app/identity/merge.py\<close>, and identity resolution over all people,
  \<^verbatim>\<open>app/identity/resolve.py\<close>. A bulk \<open>UPDATE\<close> is a map over its table. The primary key of
  \<open>opportunity_founders\<close> is the pair of opportunity and person, so reassigning a founder to an
  opportunity the canonical person already founded violates it and the transaction fails. The
  candidate pairs are a set, whose order Python does not fix: \<open>order\<close> is the order a run takes.
\<close>

section \<open>Merging\<close>

fun merge_handles :: "string dict \<Rightarrow> string dict \<Rightarrow> string dict" where
  "merge_handles merged [] = merged"
| "merge_handles merged ((source, handle) # rest) =
     merge_handles (if dget merged source = None then dset merged source handle else merged) rest"

definition merged_name :: "string option \<Rightarrow> string option \<Rightarrow> string option" where
  "merged_name keep duplicate =
     (if \<not> str_truthy keep \<and> str_truthy duplicate then duplicate
      else if str_truthy keep \<and> str_truthy duplicate
              \<and> length (the keep) < length (the duplicate) then duplicate
      else keep)"

definition merged_canonical :: "person \<Rightarrow> person \<Rightarrow> person" where
  "merged_canonical keep duplicate = keep\<lparr>
     p_handles := Some (merge_handles (case p_handles keep of Some h \<Rightarrow> h | None \<Rightarrow> [])
                          (case p_handles duplicate of Some h \<Rightarrow> h | None \<Rightarrow> [])),
     p_display_name := merged_name (p_display_name keep) (p_display_name duplicate),
     p_email := (if \<not> str_truthy (p_email keep) \<and> str_truthy (p_email duplicate)
                 then p_email duplicate else p_email keep)\<rparr>"

definition founder_clash :: "db \<Rightarrow> uuid \<Rightarrow> uuid \<Rightarrow> bool" where
  "founder_clash d keep duplicate =
     list_ex (\<lambda>f. of_person_id f = duplicate \<and>
       list_ex (\<lambda>g. of_person_id g = keep \<and> of_opportunity_id g = of_opportunity_id f) (founders d))
     (founders d)"

definition reassign :: "uuid \<Rightarrow> uuid \<Rightarrow> uuid \<Rightarrow> uuid" where
  "reassign keep duplicate i = (if i = duplicate then keep else i)"

definition reassign_rows :: "uuid \<Rightarrow> uuid \<Rightarrow> db \<Rightarrow> db" where
  "reassign_rows c dup d = d\<lparr>
     observations := map (\<lambda>x. x\<lparr>ob_subject_id := map_option (reassign c dup) (ob_subject_id x)\<rparr>) (observations d),
     relationships := filter (\<lambda>r. \<not> (r_person_a r = c \<and> r_person_b r = c))
       (map (\<lambda>r. r\<lparr>r_person_a := reassign c dup (r_person_a r), r_person_b := reassign c dup (r_person_b r)\<rparr>)
         (relationships d)),
     score_snapshots := map (\<lambda>s. s\<lparr>s_subject_id := reassign c dup (s_subject_id s)\<rparr>) (score_snapshots d),
     founders := map (\<lambda>f. f\<lparr>of_person_id := reassign c dup (of_person_id f)\<rparr>) (founders d)\<rparr>"

definition merge_persons :: "instant \<Rightarrow> db \<Rightarrow> uuid \<Rightarrow> uuid \<Rightarrow> string + (person \<times> db)" where
  "merge_persons now d canonical_id duplicate_id =
     (case (get_row p_id (persons d) canonical_id, get_row p_id (persons d) duplicate_id) of
        (Some keep, Some duplicate) \<Rightarrow>
          (if \<not> p_canonical duplicate then Inr (keep, d)
           else if founder_clash d canonical_id duplicate_id then Inl ''IntegrityError: opportunity_founders''
           else
             (let merged = merged_canonical keep duplicate;
                  gone = duplicate\<lparr>p_canonical := False, p_superseded_by := Some canonical_id,
                                   p_merged_at := Some now\<rparr>;
                  d1 = reassign_rows canonical_id duplicate_id d
              in Inr (merged, d1\<lparr>persons := put_row p_id (put_row p_id (persons d1) merged) gone\<rparr>)))
      | _ \<Rightarrow> Inl (''Person not found: canonical='' @ canonical_id @ '' duplicate='' @ duplicate_id))"

section \<open>Resolution\<close>

definition review_threshold :: real where "review_threshold = 1 / 2"

definition fetch_observations :: "db \<Rightarrow> uuid \<Rightarrow> facts" where
  "fetch_observations d pid = map (\<lambda>x. (ob_predicate x, ob_object_value x))
     (filter (\<lambda>x. ob_subject_id x = Some pid) (observations d))"

fun all_keys :: "db \<Rightarrow> uuid list \<Rightarrow> (uuid \<times> string list) list option" where
  "all_keys d [] = Some []"
| "all_keys d (p # ps) =
     (case (build_blocking_keys (fetch_observations d p), all_keys d ps) of
        (Some ks, Some rest) \<Rightarrow> Some ((p, ks) # rest) | _ \<Rightarrow> None)"

text \<open>
  Two people are a candidate pair when one key lists both; a pair is stored smaller id first.
  The pairs come out in the order of the people, without repetition.
\<close>

definition ordered_pair :: "uuid \<Rightarrow> uuid \<Rightarrow> uuid \<times> uuid" where
  "ordered_pair a b = (if a < b then (a, b) else (b, a))"

fun pairs_with :: "uuid \<times> string list \<Rightarrow> (uuid \<times> string list) list \<Rightarrow> (uuid \<times> uuid) list" where
  "pairs_with x [] = []"
| "pairs_with x (y # ys) =
     (if fst x \<noteq> fst y \<and> list_ex (\<lambda>k. k \<in> set (snd y)) (snd x) then [ordered_pair (fst x) (fst y)] else [])
       @ pairs_with x ys"

fun candidate_pairs_of :: "(uuid \<times> string list) list \<Rightarrow> (uuid \<times> uuid) list" where
  "candidate_pairs_of [] = []"
| "candidate_pairs_of (x # xs) = pairs_with x xs @ candidate_pairs_of xs"

definition candidate_pairs :: "(uuid \<times> string list) list \<Rightarrow> (uuid \<times> uuid) list" where
  "candidate_pairs xs = fromkeys (candidate_pairs_of xs)"

record resolution =
  rs_db :: db
  rs_pairs :: nat
  rs_merged :: nat
  rs_flagged :: nat

definition pending_match :: "db \<Rightarrow> uuid \<Rightarrow> uuid \<Rightarrow> bool" where
  "pending_match d a b = list_ex (\<lambda>m. ((m_person_a m = a \<and> m_person_b m = b) \<or> (m_person_a m = b \<and> m_person_b m = a))
     \<and> m_status m = ''pending'') (person_matches d)"

definition pick_canonical :: "person \<Rightarrow> person \<Rightarrow> uuid \<Rightarrow> uuid \<Rightarrow> uuid \<times> uuid" where
  "pick_canonical pa pb a b =
     (case (p_created_at pa, p_created_at pb) of
        (Some ta, Some tb) \<Rightarrow> (if ta \<le> tb then (a, b) else (b, a)) | _ \<Rightarrow> (a, b))"

definition resolve_pair ::
  "match_env \<Rightarrow> (nat \<Rightarrow> uuid) \<Rightarrow> instant \<Rightarrow> uuid \<times> uuid \<Rightarrow> resolution \<Rightarrow> string + resolution" where
  "resolve_pair env ids now pair s =
     (case pair of (a, b) \<Rightarrow>
      (let d = rs_db s; s1 = s\<lparr>rs_pairs := rs_pairs s + 1\<rparr>
       in case (get_row p_id (persons d) a, get_row p_id (persons d) b) of
         (Some pa, Some pb) \<Rightarrow>
           (if \<not> p_canonical pa \<or> \<not> p_canonical pb then Inr s1
            else (case match_confidence env (fetch_observations d a) (fetch_observations d b) of
               None \<Rightarrow> Inl ''ValueError: Invalid IPv6 URL''
             | Some (confidence, reasons) \<Rightarrow>
                 (if should_auto_merge confidence merge_threshold
                  then (case pick_canonical pa pb a b of (c, dup) \<Rightarrow>
                     (case merge_persons now d c dup of
                        Inl e \<Rightarrow> Inl e
                      | Inr (_, d') \<Rightarrow> Inr (s1\<lparr>rs_db := d', rs_merged := rs_merged s + 1\<rparr>)))
                  else if review_threshold \<le> confidence
                  then (if pending_match d a b then Inr s1
                     else Inr (s1\<lparr>rs_db := d\<lparr>person_matches := person_matches d @
                           [\<lparr>m_id = ids (rs_flagged s), m_person_a = a, m_person_b = b, m_confidence = confidence,
                             m_reasons = PDict [(''reasons'', PList (map PStr reasons))], m_status = ''pending'',
                             m_resolved_by = None, m_resolved_at = None\<rparr>]\<rparr>,
                         rs_flagged := rs_flagged s + 1\<rparr>))
                  else Inr s1)))
       | _ \<Rightarrow> Inr s1))"

fun resolve_pairs ::
  "match_env \<Rightarrow> (nat \<Rightarrow> uuid) \<Rightarrow> instant \<Rightarrow> (uuid \<times> uuid) list \<Rightarrow> resolution \<Rightarrow> string + resolution" where
  "resolve_pairs env ids now [] s = Inr s"
| "resolve_pairs env ids now (p # ps) s =
     (case resolve_pair env ids now p s of Inl e \<Rightarrow> Inl e | Inr s' \<Rightarrow> resolve_pairs env ids now ps s')"

definition resolve_identities ::
  "match_env \<Rightarrow> (nat \<Rightarrow> uuid) \<Rightarrow> instant \<Rightarrow> ((uuid \<times> uuid) list \<Rightarrow> (uuid \<times> uuid) list) \<Rightarrow> db
   \<Rightarrow> string + resolution" where
  "resolve_identities env ids now order d =
     (let canon = map p_id (filter p_canonical (persons d));
          s0 = \<lparr>rs_db = d, rs_pairs = 0, rs_merged = 0, rs_flagged = 0\<rparr>
      in if length canon < 2 then Inr s0
         else (case all_keys d canon of
                 None \<Rightarrow> Inl ''ValueError: Invalid IPv6 URL''
               | Some keys \<Rightarrow> resolve_pairs env ids now (order (candidate_pairs keys)) s0))"

section \<open>Samples\<close>

definition twin_claim :: claim where
  "twin_claim = \<lparr>c_id = ''c1'', c_observation_ids = [], c_artifact_metadata = [], c_subject_id = Some ''p2'',
     c_opportunity_id = Some ''o1'', c_predicate = ''role'', c_object_value = ''CEO'', c_status = ''supported'',
     c_confidence = 1, c_trust_version = None, c_trust_score = None, c_trust_interval = None,
     c_trust_components = [], c_trust_explanation = None, c_valid_start = 0, c_valid_end = None,
     c_supersession_id = None, c_created_at = 0\<rparr>"

definition twin_db :: db where
  "twin_db = empty_db\<lparr>persons := [sample_person, sample_person\<lparr>p_id := ''p2''\<rparr>],
     founders := [\<lparr>of_opportunity_id = ''o1'', of_person_id = ''p2'', of_role = ''founder''\<rparr>],
     claims := [twin_claim]\<rparr>"

lemma twin_merge:
  "get_row p_id (persons twin_db) ''p2'' = Some (sample_person\<lparr>p_id := ''p2''\<rparr>)"
  "p_canonical (sample_person\<lparr>p_id := ''p2''\<rparr>)"
  "\<exists>p d'. merge_persons 9 twin_db ''p1'' ''p2'' = Inr (p, d')"
  by (simp_all add: twin_db_def sample_person_def get_row_def merge_persons_def founder_clash_def Let_def)

section \<open>What a merge does\<close>

lemma dget_merge_handles: "dget (merge_handles m e) k = (case dget m k of Some v \<Rightarrow> Some v | None \<Rightarrow> dget e k)"
proof (induction m e rule: merge_handles.induct)
  case (2 m s h rest)
  then show ?case by (auto split: option.splits)
qed (simp split: option.splits)

lemma reassign_ne [simp]: "c \<noteq> dup \<Longrightarrow> reassign c dup i \<noteq> dup"
  by (simp add: reassign_def)

lemma merge_Inr:
  assumes "merge_persons now d c dup = Inr (p, d')" "get_row p_id (persons d) dup = Some q" "p_canonical q"
  shows "\<exists>pc. get_row p_id (persons d) c = Some pc \<and> \<not> founder_clash d c dup \<and> p = merged_canonical pc q
    \<and> d' = (reassign_rows c dup d)\<lparr>persons := put_row p_id (put_row p_id (persons d) (merged_canonical pc q))
        (q\<lparr>p_canonical := False, p_superseded_by := Some c, p_merged_at := Some now\<rparr>)\<rparr>"
  using assms by (auto simp: merge_persons_def Let_def reassign_rows_def split: option.splits if_splits)

text \<open>
  A merge moves everything it reassigns: afterwards no observation, relationship, score or founder
  link points to the duplicate, no relationship joins the canonical person to itself, no row but such
  a relationship is lost, the duplicate points to the canonical person, and the canonical person
  keeps its own handles and gains the others.
\<close>

theorem merge_reassigns:
  assumes "merge_persons now d c dup = Inr (p, d')" and "c \<noteq> dup"
    and "get_row p_id (persons d) dup = Some q" and "p_canonical q"
  shows "(\<forall>x \<in> set (observations d'). ob_subject_id x \<noteq> Some dup)
    \<and> (\<forall>r \<in> set (relationships d'). r_person_a r \<noteq> dup \<and> r_person_b r \<noteq> dup \<and> (r_person_a r, r_person_b r) \<noteq> (c, c))
    \<and> (\<forall>s \<in> set (score_snapshots d'). s_subject_id s \<noteq> dup) \<and> (\<forall>f \<in> set (founders d'). of_person_id f \<noteq> dup)
    \<and> map ob_id (observations d') = map ob_id (observations d) \<and> map s_id (score_snapshots d') = map s_id (score_snapshots d)
    \<and> map of_opportunity_id (founders d') = map of_opportunity_id (founders d)
    \<and> map p_id (persons d') = map p_id (persons d)
    \<and> (\<exists>g. get_row p_id (persons d') dup = Some g \<and> \<not> p_canonical g \<and> p_superseded_by g = Some c)
    \<and> (\<exists>pc h. get_row p_id (persons d) c = Some pc \<and> p_handles p = Some h \<and>
         (\<forall>k v. (\<exists>h0. p_handles pc = Some h0 \<and> dget h0 k = Some v) \<longrightarrow> dget h k = Some v))"
proof -
  from merge_Inr [OF assms(1,3,4)] obtain pc where
    pc: "get_row p_id (persons d) c = Some pc" and p: "p = merged_canonical pc q"
    and d': "d' = (reassign_rows c dup d)\<lparr>persons := put_row p_id (put_row p_id (persons d) (merged_canonical pc q))
        (q\<lparr>p_canonical := False, p_superseded_by := Some c, p_merged_at := Some now\<rparr>)\<rparr>" by blast
  note ids = get_row_key [OF assms(3)] get_row_key [OF pc]
  have mid: "p_id (merged_canonical pc q) = c" using ids by (simp add: merged_canonical_def)
  have gone: "get_row p_id (persons d') dup = Some (q\<lparr>p_canonical := False, p_superseded_by := Some c, p_merged_at := Some now\<rparr>)"
    using assms(2,3) ids mid by (simp add: d' get_row_put_row)
  have rows: "(\<forall>x \<in> set (observations d'). ob_subject_id x \<noteq> Some dup)"
    "(\<forall>r \<in> set (relationships d'). r_person_a r \<noteq> dup \<and> r_person_b r \<noteq> dup \<and> (r_person_a r, r_person_b r) \<noteq> (c, c))"
    "(\<forall>s \<in> set (score_snapshots d'). s_subject_id s \<noteq> dup)" "(\<forall>f \<in> set (founders d'). of_person_id f \<noteq> dup)"
    using assms(2) by (auto simp: d' reassign_rows_def)
  have maps: "map ob_id (observations d') = map ob_id (observations d)" "map s_id (score_snapshots d') = map s_id (score_snapshots d)"
    "map of_opportunity_id (founders d') = map of_opportunity_id (founders d)" "map p_id (persons d') = map p_id (persons d)"
    by (simp_all add: d' reassign_rows_def comp_def)
  have "\<exists>h. p_handles p = Some h \<and>
      (\<forall>k v. (\<exists>h0. p_handles pc = Some h0 \<and> dget h0 k = Some v) \<longrightarrow> dget h k = Some v)"
    unfolding p merged_canonical_def by (auto simp: dget_merge_handles)
  then show ?thesis using rows maps gone pc by auto
qed

theorem merge_reassigns_witness:
  "\<exists>p d'. merge_persons 9 twin_db ''p1'' ''p2'' = Inr (p, d')
     \<and> (\<exists>g. get_row p_id (persons d') ''p2'' = Some g \<and> \<not> p_canonical g \<and> p_superseded_by g = Some ''p1'')"
proof -
  from twin_merge(3) obtain p d' where m: "merge_persons 9 twin_db ''p1'' ''p2'' = Inr (p, d')" by blast
  have "''p1'' \<noteq> ''p2''" by simp
  from merge_reassigns [OF m this twin_merge(1,2)] m show ?thesis by blast
qed

text \<open>
  A merge leaves the claims behind: they keep pointing to the duplicate, so an inbound deal whose
  claims named the duplicate has no scoped claims of its founder after the merge, and its way to
  triage is closed again.
\<close>

theorem merge_strands_claims:
  assumes "merge_persons now d c dup = Inr (p, d')" and "c \<noteq> dup"
    and "has_scoped_claims d dup oid" and "\<not> has_scoped_claims d c oid"
    and "get_row p_id (persons d) dup = Some q" and "p_canonical q"
    and "\<lparr>of_opportunity_id = oid, of_person_id = dup, of_role = role\<rparr> \<in> set (founders d)"
  shows "\<lparr>of_opportunity_id = oid, of_person_id = c, of_role = role\<rparr> \<in> set (founders d')
    \<and> \<not> has_scoped_claims d' c oid"
proof -
  from merge_Inr [OF assms(1,5,6)] obtain pp where
    d': "d' = (reassign_rows c dup d)\<lparr>persons := pp\<rparr>" by blast
  have "claims d' = claims d" by (simp add: d' reassign_rows_def)
  with assms(4) have "\<not> has_scoped_claims d' c oid" by (simp add: has_scoped_claims_def)
  moreover have "\<lparr>of_opportunity_id = oid, of_person_id = c, of_role = role\<rparr> \<in> set (founders d')"
    using imageI [OF assms(7), of "\<lambda>f. f\<lparr>of_person_id := reassign c dup (of_person_id f)\<rparr>"]
    by (simp add: d' reassign_rows_def reassign_def)
  ultimately show ?thesis by simp
qed

theorem merge_strands_claims_witness:
  "\<exists>p d'. merge_persons 9 twin_db ''p1'' ''p2'' = Inr (p, d')
     \<and> \<lparr>of_opportunity_id = ''o1'', of_person_id = ''p1'', of_role = ''founder''\<rparr> \<in> set (founders d')
     \<and> \<not> has_scoped_claims d' ''p1'' ''o1''"
proof -
  from twin_merge(3) obtain p d' where m: "merge_persons 9 twin_db ''p1'' ''p2'' = Inr (p, d')" by blast
  have n: "''p1'' \<noteq> ''p2''" by simp
  have c: "has_scoped_claims twin_db ''p2'' ''o1''" "\<not> has_scoped_claims twin_db ''p1'' ''o1''"
    by (simp_all add: has_scoped_claims_def twin_db_def twin_claim_def)
  have f: "\<lparr>of_opportunity_id = ''o1'', of_person_id = ''p2'', of_role = ''founder''\<rparr> \<in> set (founders twin_db)"
    by (simp add: twin_db_def)
  from merge_strands_claims [OF m n c twin_merge(1,2) f] m show ?thesis by blast
qed

section \<open>What a resolution does\<close>

lemma count_put_row:
  assumes "distinct (map key rows)" "get_row key rows (key r) = Some r0"
  shows "length (filter P (put_row key rows r)) + (if P r0 then 1 else 0)
    = length (filter P rows) + (if P r then 1 else (0 :: nat))"
  using assms
proof (induction rows)
  case (Cons x rows)
  show ?case
  proof (cases "key x = key r")
    case True
    with Cons.prems have "key r \<notin> key ` set rows" by auto
    then have "\<forall>y \<in> set rows. key y \<noteq> key r" by (metis imageI)
    then have "put_row key rows r = rows" by (auto simp: put_row_def intro!: map_idI)
    moreover have "x = r0" using True Cons.prems(2) by (simp add: get_row_def)
    ultimately show ?thesis using True by (simp add: put_row_def)
  next
    case False
    with Cons.IH Cons.prems have "length (filter P (put_row key rows r)) + (if P r0 then 1 else 0)
        = length (filter P rows) + (if P r then 1 else (0 :: nat))"
      by (simp add: get_row_def)
    with False show ?thesis by (simp add: put_row_def)
  qed
qed (simp add: get_row_def)

definition canonical_count :: "db \<Rightarrow> nat" where
  "canonical_count d = length (filter p_canonical (persons d))"

lemma merge_count:
  assumes "merge_persons now d c dup = Inr (p, d')" "c \<noteq> dup" "distinct (map p_id (persons d))"
    and "get_row p_id (persons d) dup = Some q" "p_canonical q"
  shows "canonical_count d' + 1 = canonical_count d \<and> map p_id (persons d') = map p_id (persons d)
    \<and> person_matches d' = person_matches d"
proof -
  from merge_Inr [OF assms(1,4,5)] obtain pc where
    pc: "get_row p_id (persons d) c = Some pc"
    and d': "d' = (reassign_rows c dup d)\<lparr>persons := put_row p_id (put_row p_id (persons d) (merged_canonical pc q))
        (q\<lparr>p_canonical := False, p_superseded_by := Some c, p_merged_at := Some now\<rparr>)\<rparr>" by blast
  let ?m = "merged_canonical pc q" and ?g = "q\<lparr>p_canonical := False, p_superseded_by := Some c, p_merged_at := Some now\<rparr>"
  note ids = get_row_key [OF assms(4)] get_row_key [OF pc]
  have m: "p_id ?m = c" "p_canonical ?m = p_canonical pc" using ids by (simp_all add: merged_canonical_def)
  have "length (filter p_canonical (put_row p_id (persons d) ?m)) = length (filter p_canonical (persons d))"
    using count_put_row [of p_id "persons d" ?m pc p_canonical] assms(3) pc m by (simp split: if_splits)
  moreover have "get_row p_id (put_row p_id (persons d) ?m) (p_id ?g) = Some q"
    using assms(2,4) ids m by (simp add: get_row_put_row)
  ultimately have "length (filter p_canonical (persons d')) + 1 = length (filter p_canonical (persons d))"
    using count_put_row [of p_id "put_row p_id (persons d) ?m" ?g q p_canonical] assms(3,5)
    by (simp add: d')
  then show ?thesis by (simp add: canonical_count_def d' reassign_rows_def)
qed

definition accounts :: "db \<Rightarrow> resolution \<Rightarrow> bool" where
  "accounts d s = (map p_id (persons (rs_db s)) = map p_id (persons d)
     \<and> canonical_count (rs_db s) + rs_merged s = canonical_count d
     \<and> length (person_matches (rs_db s)) = length (person_matches d) + rs_flagged s
     \<and> rs_merged s + rs_flagged s \<le> rs_pairs s)"

lemma resolve_pair_accounts:
  assumes "resolve_pair env ids now (a, b) s = Inr s'" "accounts d s" "a \<noteq> b" "distinct (map p_id (persons d))"
  shows "accounts d s'"
proof -
  have dist: "distinct (map p_id (persons (rs_db s)))" using assms(2,4) by (simp add: accounts_def)
  have merge: "accounts d (s\<lparr>rs_pairs := rs_pairs s + 1, rs_db := d', rs_merged := rs_merged s + 1\<rparr>)"
    if "merge_persons now (rs_db s) c dup = Inr (p, d')" "{c, dup} = {a, b}" "c \<noteq> dup"
      "get_row p_id (persons (rs_db s)) a = Some pa" "get_row p_id (persons (rs_db s)) b = Some pb"
      "p_canonical pa" "p_canonical pb" for c dup p d' pa pb
  proof -
    from that have "\<exists>q. get_row p_id (persons (rs_db s)) dup = Some q \<and> p_canonical q"
      by (auto simp: doubleton_eq_iff)
    then obtain q where q: "get_row p_id (persons (rs_db s)) dup = Some q" "p_canonical q" by blast
    from merge_count [OF that(1,3) dist q] assms(2) show ?thesis by (simp add: accounts_def)
  qed
  have pick: "pick_canonical pa pb a b = (a, b) \<or> pick_canonical pa pb a b = (b, a)" for pa pb
    by (auto simp: pick_canonical_def split: option.splits)
  from assms(1) consider (same) "s' = s\<lparr>rs_pairs := rs_pairs s + 1\<rparr>"
    | (merge) pa pb c dup p d' where "get_row p_id (persons (rs_db s)) a = Some pa"
        "get_row p_id (persons (rs_db s)) b = Some pb" "p_canonical pa" "p_canonical pb"
        "pick_canonical pa pb a b = (c, dup)" "merge_persons now (rs_db s) c dup = Inr (p, d')"
        "s' = s\<lparr>rs_pairs := rs_pairs s + 1, rs_db := d', rs_merged := rs_merged s + 1\<rparr>"
    | (flag) m where "s' = s\<lparr>rs_pairs := rs_pairs s + 1,
        rs_db := (rs_db s)\<lparr>person_matches := person_matches (rs_db s) @ [m]\<rparr>, rs_flagged := rs_flagged s + 1\<rparr>"
    unfolding resolve_pair_def Let_def by (auto split: option.splits if_splits prod.splits sum.splits)
  then show ?thesis
  proof cases
    case same
    with assms(2) show ?thesis by (simp add: accounts_def)
  next
    case m: merge
    have "{c, dup} = {a, b}" "c \<noteq> dup" using pick [of pa pb] m(5) assms(3) by auto
    with merge [OF m(6) _ _ m(1-4)] m(7) show ?thesis by simp
  next
    case flag
    with assms(2) show ?thesis by (simp add: accounts_def canonical_count_def)
  qed
qed

lemma resolve_pairs_accounts:
  assumes "resolve_pairs env ids now ps s = Inr s'" "accounts d s" "\<forall>(a, b) \<in> set ps. a \<noteq> b"
    and "distinct (map p_id (persons d))"
  shows "accounts d s'"
  using assms
proof (induction ps arbitrary: s)
  case (Cons p ps)
  obtain a b where p: "p = (a, b)" by force
  from Cons.prems(1) obtain s1 where s1: "resolve_pair env ids now (a, b) s = Inr s1"
    "resolve_pairs env ids now ps s1 = Inr s'"
    by (auto simp: p split: sum.splits)
  have "accounts d s1" using resolve_pair_accounts [OF s1(1) Cons.prems(2) _ Cons.prems(4)] Cons.prems(3) p by simp
  with Cons.IH [OF s1(2)] Cons.prems show ?case by simp
qed auto

lemma pairs_with_ne: "(a, b) \<in> set (pairs_with x ys) \<Longrightarrow> a \<noteq> b"
  by (induction x ys rule: pairs_with.induct) (auto simp: ordered_pair_def split: if_splits)

lemma candidate_pairs_ne: "(a, b) \<in> set (candidate_pairs xs) \<Longrightarrow> a \<noteq> b"
  unfolding candidate_pairs_def by (induction xs) (auto dest: pairs_with_ne)

lemma resolve_identities_accounts:
  assumes "resolve_identities env ids now order d = Inr s" and "distinct (map p_id (persons d))"
    and "\<forall>xs. set (order xs) = set xs"
  shows "accounts d s"
proof -
  let ?s0 = "\<lparr>rs_db = d, rs_pairs = 0, rs_merged = 0, rs_flagged = 0\<rparr>"
  have s0: "accounts d ?s0" by (simp add: accounts_def)
  show ?thesis
  proof (cases "length (map p_id (filter p_canonical (persons d))) < 2")
    case True
    with assms(1) s0 show ?thesis by (simp add: resolve_identities_def Let_def)
  next
    case False
    with assms(1) obtain keys where "resolve_pairs env ids now (order (candidate_pairs keys)) ?s0 = Inr s"
      by (auto simp: resolve_identities_def Let_def split: option.splits)
    from resolve_pairs_accounts [OF this s0 _ assms(2)] assms(3) candidate_pairs_ne show ?thesis by blast
  qed
qed

text \<open>
  A resolution balances, in whatever order the pairs are taken: no person appears or disappears,
  every automatic merge retires exactly one canonical person, every flag adds exactly one review
  entry, and no pair is counted twice.
\<close>

theorem resolution_balances:
  assumes "resolve_identities env ids now order d = Inr s" and "distinct (map p_id (persons d))"
    and "\<forall>xs. set (order xs) = set xs"
  shows "map p_id (persons (rs_db s)) = map p_id (persons d)
    \<and> length (filter p_canonical (persons (rs_db s))) + rs_merged s = length (filter p_canonical (persons d))
    \<and> length (person_matches (rs_db s)) = length (person_matches d) + rs_flagged s
    \<and> rs_merged s + rs_flagged s \<le> rs_pairs s"
  using resolve_identities_accounts [OF assms] by (simp add: accounts_def canonical_count_def)

theorem resolution_balances_witness:
  "\<exists>s. resolve_identities sample_match_env (\<lambda>n. []) 9 (\<lambda>xs. xs) twin_db = Inr s
     \<and> map p_id (persons (rs_db s)) = [''p1'', ''p2'']"
proof -
  have "\<exists>s. resolve_identities sample_match_env (\<lambda>n. []) 9 (\<lambda>xs. xs) twin_db = Inr s"
    by (simp add: resolve_identities_def twin_db_def sample_person_def fetch_observations_def empty_db_def
        candidate_pairs_def fromkeys_def Let_def)
  then obtain s where s: "resolve_identities sample_match_env (\<lambda>n. []) 9 (\<lambda>xs. xs) twin_db = Inr s" ..
  have "distinct (map p_id (persons twin_db))" by (simp add: twin_db_def sample_person_def)
  from resolution_balances [OF s this] s show ?thesis by (auto simp: twin_db_def sample_person_def)
qed

end
