(* ===== verification/Artifact_Provenance.thy ===== *)
theory Artifact_Provenance
  imports Py_Text
begin

text \<open>
  The provenance contract of derived artifacts, \<^verbatim>\<open>app/artifact_provenance.py\<close>: the
  metadata every derived row carries and the fingerprint of its inputs. \<open>digest\<close> stands for the
  hexadecimal SHA-256 of the JSON text of a key-sorted value.
\<close>

definition artifact_provenance_version :: string where
  "artifact_provenance_version = ''artifact-provenance-v1''"

definition fingerprint_payload :: "(pyval \<Rightarrow> string) \<Rightarrow> pyval \<Rightarrow> string" where
  "fingerprint_payload digest payload = digest (canonical payload)"

record artifact_options =
  ao_rubric_versions :: "string list"
  ao_prompt_version :: "string option"
  ao_model_version :: "string option"
  ao_parameters :: "pyval dict option"
  ao_latency_ms :: "int option"
  ao_cost_usd :: "real option"
  ao_validator_status :: string
  ao_validator_errors :: "string list"
  ao_compatibility :: "pyval dict option"

definition default_options :: artifact_options where
  "default_options = \<lparr>ao_rubric_versions = [], ao_prompt_version = None, ao_model_version = None,
     ao_parameters = None, ao_latency_ms = None, ao_cost_usd = None,
     ao_validator_status = ''not_applicable'', ao_validator_errors = [], ao_compatibility = None\<rparr>"

definition opt_str :: "string option \<Rightarrow> pyval" where
  "opt_str x = (case x of None \<Rightarrow> PNone | Some s \<Rightarrow> PStr s)"

definition dict_or :: "pyval dict option \<Rightarrow> pyval dict \<Rightarrow> pyval dict" where
  "dict_or x dflt = (case x of None \<Rightarrow> dflt | Some d \<Rightarrow> if d = [] then dflt else d)"

definition build_artifact_metadata ::
  "uuid \<Rightarrow> string \<Rightarrow> string \<Rightarrow> string \<Rightarrow> artifact_options \<Rightarrow> pyval dict" where
  "build_artifact_metadata run_id artifact_type code_version input_fingerprint opts = [
     (''contract_version'', PStr artifact_provenance_version),
     (''artifact_type'', PStr artifact_type),
     (''run_id'', PStr run_id),
     (''code_version'', PStr code_version),
     (''rubric_versions'', PList (map PStr (ao_rubric_versions opts))),
     (''prompt_version'', opt_str (ao_prompt_version opts)),
     (''model_version'', opt_str (ao_model_version opts)),
     (''parameters'', PDict (dict_or (ao_parameters opts) [])),
     (''input_fingerprint'', PStr input_fingerprint),
     (''latency_ms'', (case ao_latency_ms opts of None \<Rightarrow> PNone | Some i \<Rightarrow> PInt i)),
     (''cost_usd'', (case ao_cost_usd opts of None \<Rightarrow> PNone | Some x \<Rightarrow> PFloat x)),
     (''validator_status'', PStr (ao_validator_status opts)),
     (''validator_errors'', PList (map PStr (ao_validator_errors opts))),
     (''compatibility'', PDict (dict_or (ao_compatibility opts)
        [(''reader'', PStr artifact_provenance_version)]))]"

lemma metadata_keys_distinct: "distinct (map fst (build_artifact_metadata r t c f x))"
  by (simp add: build_artifact_metadata_def)

lemma sort_key_perm:
  assumes "set xs = set ys" "distinct (map f xs)" "distinct (map f ys)"
  shows "sort_key f xs = sort_key f ys"
proof -
  have inj: "inj_on f (set xs)" "distinct xs" "distinct ys" using assms by (simp_all add: distinct_map)
  have "map f (sort_key f xs) = map f (sort_key f ys)"
    by (rule sorted_distinct_set_unique) (use assms inj in \<open>auto simp: distinct_map\<close>)
  then show ?thesis
    using inj(1) assms(1) by (intro map_inj_on [of f]) simp_all
qed

text \<open>
  A fingerprint depends on what the payload says, not on how it was put together: two dicts
  with the same items have the same fingerprint, in whatever order their keys were inserted.
\<close>

theorem fingerprint_ignores_key_order:
  assumes "set d = set e" and "distinct (map fst d)" and "distinct (map fst e)"
  shows "fingerprint_payload digest (PDict d) = fingerprint_payload digest (PDict e)"
proof -
  let ?c = "\<lambda>(k, v). (k, canonical v)"
  have f: "map fst (map ?c xs) = map fst xs" for xs :: "pyval dict"
    by (simp add: case_prod_beta comp_def)
  have "sort_key fst (map ?c d) = sort_key fst (map ?c e)"
    by (rule sort_key_perm) (use assms in \<open>simp_all only: f set_map\<close>)
  then show ?thesis by (simp add: fingerprint_payload_def)
qed

theorem fingerprint_ignores_key_order_witness:
  "fingerprint_payload (\<lambda>v. case v of PDict ((k, PStr s) # r) \<Rightarrow> k @ s | v \<Rightarrow> []) (PDict [(''b'', PNone), (''a'', PStr ''x'')])
   = fingerprint_payload (\<lambda>v. case v of PDict ((k, PStr s) # r) \<Rightarrow> k @ s | v \<Rightarrow> []) (PDict [(''a'', PStr ''x''), (''b'', PNone)])"
  by (rule fingerprint_ignores_key_order) auto

end
