(* ===== verification/Reconcile.thy ===== *)
theory Reconcile
  imports Schema Artifact_Provenance
begin

text \<open>
  Reconciliation of observations into claims, \<^verbatim>\<open>app/processing/reconcile.py\<close>. The clock of
  a run is the argument \<open>clock\<close>; the identifiers it generates are \<open>ids n\<close> for the \<open>n\<close>-th
  claim and \<open>run_id\<close> for the run. The ORM objects of \<open>existing_claims\<close> are the rows of the
  claim table, so the in-place updates of superseded claims are updates of that table.
\<close>

section \<open>Trust\<close>

definition trust_version :: string where "trust_version = ''claim-trust-v1''"

definition source_authority :: "real dict" where
  "source_authority = [(''inbound'', 9 / 10), (''public'', 8 / 10), (''github'', 7 / 10),
     (''producthunt'', 5 / 10), (''hackernews'', 4 / 10), (''tavily'', 3 / 10)]"

definition source_kind :: "observation \<Rightarrow> string" where
  "source_kind x = lower (hd (split_on CHR ''-'' (str_or (Some (ob_extractor_version x)) ''unknown'')))"

text \<open>The set comprehension, as the list of its distinct members: only sums and sizes are taken.\<close>

definition source_kinds :: "observation list \<Rightarrow> string list" where
  "source_kinds xs = fromkeys (map source_kind xs)"

definition freshness_of :: "instant \<Rightarrow> observation \<Rightarrow> real" where
  "freshness_of clock x =
     max (1 / 2) (1 - real_of_int (max 0 (days_between clock (ob_observed_at x))) / 365)"

record trust_result =
  tr_score :: real
  tr_components :: "pyval dict"
  tr_low :: real
  tr_high :: real
  tr_explanation :: string

definition trust_for_observations :: "instant \<Rightarrow> observation list \<Rightarrow> bool \<Rightarrow> trust_result" where
  "trust_for_observations clock xs contradicted =
     (let kinds = source_kinds xs;
          authority = sum_real (map (\<lambda>k. case dget source_authority k of Some a \<Rightarrow> a | None \<Rightarrow> 1 / 2) kinds)
            / real (max 1 (length kinds));
          directness = (if list_ex (\<lambda>k. k \<in> {''inbound'', ''github'', ''public''}) kinds then 8 / 10 else 1 / 2);
          independence = min 1 (real (length kinds) / 2);
          corroboration = min 1 (real (length xs) / 3);
          freshness = sum_real (map (freshness_of clock) xs) / real (max 1 (length xs));
          extraction = sum_real (map (\<lambda>x. max 0 (min 1 (ob_confidence x))) xs) / real (max 1 (length xs));
          identity = 1 / 2;
          penalty = (if contradicted then 2 / 10 else 0);
          score = max 0 (min 1 (2 / 10 * authority + 1 / 10 * directness + 1 / 10 * independence
            + 15 / 100 * corroboration + 15 / 100 * freshness + 2 / 10 * extraction
            + 1 / 10 * identity - penalty));
          width = max (1 / 10) (35 / 100 - 2 / 10 * extraction - 1 / 10 * corroboration)
      in \<lparr>tr_score = py_round 4 score,
          tr_components = [
            (''source_authority'', PFloat (py_round 4 authority)),
            (''directness'', PFloat (py_round 4 directness)),
            (''independence'', PFloat (py_round 4 independence)),
            (''corroboration'', PFloat (py_round 4 corroboration)),
            (''freshness'', PFloat (py_round 4 freshness)),
            (''extraction_confidence'', PFloat (py_round 4 extraction)),
            (''identity_confidence'', PFloat identity),
            (''contradiction_penalty'', PFloat penalty),
            (''observation_count'', PInt (int (length xs)))],
          tr_low = py_round 4 (max 0 (score - width)),
          tr_high = py_round 4 (min 1 (score + width)),
          tr_explanation = ''Trust '' @ fmt_fixed 2 score
            @ '' from authority, directness, independence, corroboration, ''
            @ ''freshness, extraction confidence, and an explicit unknown identity confidence ''
            @ ''of '' @ fmt_fixed 2 identity @ ''.''
            @ (if contradicted then '' Contradiction penalty applied; counter-evidence remains visible.'' else [])\<rparr>)"

definition apply_trust :: "instant \<Rightarrow> claim \<Rightarrow> observation list \<Rightarrow> bool \<Rightarrow> claim" where
  "apply_trust clock c xs contradicted =
     (let t = trust_for_observations clock xs contradicted
      in c\<lparr>c_trust_version := Some trust_version, c_trust_score := Some (tr_score t),
           c_trust_components := tr_components t, c_trust_interval := Some (tr_low t, tr_high t),
           c_trust_explanation := Some (tr_explanation t)\<rparr>)"

definition observation_strength :: "instant \<Rightarrow> observation \<Rightarrow> real" where
  "observation_strength clock x =
     (let confidence = (if ob_confidence x \<noteq> 0 then ob_confidence x else 1 / 2);
          age_days = days_between clock (ob_observed_at x);
          recency = max (1 / 2) (1 - real_of_int age_days / 365)
      in confidence * recency)"

section \<open>Claims\<close>

definition claim_matches :: "claim \<Rightarrow> string \<Rightarrow> string \<Rightarrow> string \<Rightarrow> uuid list \<Rightarrow> bool" where
  "claim_matches c predicate object_value status observation_ids =
     (c_predicate c = predicate \<and> strip (c_object_value c) = strip object_value
      \<and> c_status c = status \<and> c_observation_ids c = observation_ids)"

definition find_matching_claim ::
  "claim list \<Rightarrow> string \<Rightarrow> string \<Rightarrow> string \<Rightarrow> uuid list \<Rightarrow> claim option" where
  "find_matching_claim cs predicate object_value status observation_ids =
     find (\<lambda>c. claim_matches c predicate object_value status observation_ids) cs"

definition close_superseded_claims :: "claim list \<Rightarrow> claim \<Rightarrow> string \<Rightarrow> db \<Rightarrow> db" where
  "close_superseded_claims scoped replacement predicate d =
     d\<lparr>claims := map (\<lambda>c.
        if c_id c \<notin> set (map c_id scoped) \<or> c_id c = c_id replacement \<or> c_predicate c \<noteq> predicate
           \<or> c_supersession_id c \<noteq> None then c
        else c\<lparr>c_supersession_id := Some (c_id replacement),
               c_valid_end := Some (c_valid_start replacement)\<rparr>) (claims d)\<rparr>"

definition link_claim_observations :: "claim \<Rightarrow> db \<Rightarrow> db" where
  "link_claim_observations c d = d\<lparr>claim_links := claim_links d @
     map (\<lambda>i. \<lparr>l_claim_id = c_id c, l_observation_id = i\<rparr>) (c_observation_ids c)\<rparr>"

definition claim_artifact_metadata ::
  "(pyval \<Rightarrow> string) \<Rightarrow> uuid \<Rightarrow> uuid list \<Rightarrow> string \<Rightarrow> uuid option \<Rightarrow> pyval dict" where
  "claim_artifact_metadata digest run_id observation_ids predicate opportunity_id =
     build_artifact_metadata run_id ''claim'' ''reconcile-v2''
       (fingerprint_payload digest (PList (map PStr (sort observation_ids))))
       (default_options\<lparr>ao_parameters := Some [(''predicate'', PStr predicate),
          (''opportunity_id'', opt_str opportunity_id)]\<rparr>)"

text \<open>What a run carries: the identifiers it generates, its clock and its run id.\<close>

record run_env =
  re_digest :: "pyval \<Rightarrow> string"
  re_ids :: "nat \<Rightarrow> uuid"
  re_run_id :: uuid
  re_clock :: instant

definition new_claim ::
  "run_env \<Rightarrow> nat \<Rightarrow> uuid \<Rightarrow> uuid option \<Rightarrow> string \<Rightarrow> string \<Rightarrow> string \<Rightarrow> real \<Rightarrow> instant
   \<Rightarrow> uuid list \<Rightarrow> observation list \<Rightarrow> claim" where
  "new_claim env n person opportunity predicate object_value status confidence start ids evidence =
     apply_trust (re_clock env)
       \<lparr>c_id = re_ids env n, c_observation_ids = ids,
        c_artifact_metadata = claim_artifact_metadata (re_digest env) (re_run_id env) ids predicate opportunity,
        c_subject_id = Some person, c_opportunity_id = opportunity, c_predicate = predicate,
        c_object_value = object_value, c_status = status, c_confidence = confidence,
        c_trust_version = None, c_trust_score = None, c_trust_interval = None, c_trust_components = [],
        c_trust_explanation = None, c_valid_start = start, c_valid_end = None,
        c_supersession_id = None, c_created_at = re_clock env\<rparr>
       evidence (status = ''contradicted'')"

text \<open>\<open>session.add\<close>, flush and link.\<close>

definition store_claim :: "claim \<Rightarrow> db \<Rightarrow> db" where
  "store_claim c d = link_claim_observations c (d\<lparr>claims := claims d @ [c]\<rparr>)"

section \<open>The run\<close>

definition scoped_claims :: "db \<Rightarrow> uuid \<Rightarrow> uuid option \<Rightarrow> claim list" where
  "scoped_claims d person opportunity =
     filter (\<lambda>c. c_subject_id c = Some person \<and> c_opportunity_id c = opportunity) (claims d)"

text \<open>Python's \<open>max(group, key=f)\<close>, the first of the largest, and the stable descending sort.\<close>

fun max_first :: "('a \<Rightarrow> real) \<Rightarrow> 'a \<Rightarrow> 'a list \<Rightarrow> 'a" where
  "max_first f best [] = best"
| "max_first f best (x # xs) = max_first f (if f best < f x then x else best) xs"

definition sorted_desc :: "('a \<Rightarrow> real) \<Rightarrow> 'a list \<Rightarrow> 'a list" where
  "sorted_desc f xs = sort_key (\<lambda>x. - f x) xs"

fun group_insert :: "(string \<times> uuid option) \<Rightarrow> observation \<Rightarrow>
    ((string \<times> uuid option) \<times> observation list) list \<Rightarrow> ((string \<times> uuid option) \<times> observation list) list" where
  "group_insert k x [] = [(k, [x])]"
| "group_insert k x ((k', xs) # gs) = (if k' = k then (k', xs @ [x]) # gs else (k', xs) # group_insert k x gs)"

definition by_predicate :: "observation list \<Rightarrow> ((string \<times> uuid option) \<times> observation list) list" where
  "by_predicate xs = foldl (\<lambda>gs x. group_insert (ob_predicate x, ob_opportunity_id x) x gs) [] xs"

text \<open>The state of a run is the database and the number of claims created.\<close>

type_synonym run_state = "db \<times> nat"

text \<open>The claim of one observation, unless it is there: the single and the losing observations.\<close>

definition claim_observation ::
  "run_env \<Rightarrow> uuid \<Rightarrow> uuid option \<Rightarrow> string \<Rightarrow> string \<Rightarrow> claim list \<Rightarrow> observation \<Rightarrow> run_state \<Rightarrow> run_state" where
  "claim_observation env person opportunity predicate status scoped x s =
     (case s of (d, n) \<Rightarrow>
        if find_matching_claim scoped predicate (ob_object_value x) status [ob_id x] \<noteq> None then (d, n)
        else (store_claim (new_claim env n person opportunity predicate (ob_object_value x) status
                (ob_confidence x) (ob_observed_at x) [ob_id x] [x]) d, n + 1))"

definition reconcile_supported ::
  "run_env \<Rightarrow> uuid \<Rightarrow> uuid option \<Rightarrow> string \<Rightarrow> claim list \<Rightarrow> observation list \<Rightarrow> run_state \<Rightarrow> run_state" where
  "reconcile_supported env person opportunity predicate scoped grp s =
     (case s of (d, n) \<Rightarrow>
        let strongest = max_first (observation_strength (re_clock env)) (hd grp) (tl grp);
            ids = map ob_id grp
        in if find_matching_claim scoped predicate (ob_object_value strongest) ''supported'' ids \<noteq> None
           then (d, n)
           else (let c = new_claim env n person opportunity predicate (ob_object_value strongest)
                       ''supported'' (Max (set (map ob_confidence grp))) (ob_observed_at strongest) ids grp
                 in (close_superseded_claims scoped c predicate (store_claim c d), n + 1)))"

definition reconcile_winner ::
  "run_env \<Rightarrow> uuid \<Rightarrow> uuid option \<Rightarrow> string \<Rightarrow> claim list \<Rightarrow> observation \<Rightarrow> run_state \<Rightarrow> run_state" where
  "reconcile_winner env person opportunity predicate scoped winner s =
     (case s of (d, n) \<Rightarrow>
        if find_matching_claim scoped predicate (ob_object_value winner) ''contradicted'' [ob_id winner] \<noteq> None
        then (d, n)
        else (let c = new_claim env n person opportunity predicate (ob_object_value winner) ''contradicted''
                    (ob_confidence winner) (ob_observed_at winner) [ob_id winner] [winner]
              in (close_superseded_claims scoped c predicate (store_claim c d), n + 1)))"

text \<open>After each new counter claim, the scope the next loser is matched against has grown by it.\<close>

fun reconcile_losers ::
  "run_env \<Rightarrow> uuid \<Rightarrow> uuid option \<Rightarrow> string \<Rightarrow> observation list \<Rightarrow> run_state \<Rightarrow> run_state" where
  "reconcile_losers env person opportunity predicate [] s = s"
| "reconcile_losers env person opportunity predicate (x # xs) s =
     reconcile_losers env person opportunity predicate xs
       (claim_observation env person opportunity predicate ''contradicted''
          (scoped_claims (fst s) person opportunity) x s)"

definition reconcile_group ::
  "run_env \<Rightarrow> uuid \<Rightarrow> (string \<times> uuid option) \<times> observation list \<Rightarrow> run_state \<Rightarrow> run_state" where
  "reconcile_group env person g s =
     (case g of ((predicate, opportunity), grp) \<Rightarrow>
        let scoped = scoped_claims (fst s) person opportunity
        in if length grp = 1
           then claim_observation env person opportunity predicate ''unverified'' scoped (hd grp) s
           else if length (fromkeys (map (\<lambda>x. strip (ob_object_value x)) grp)) = 1
           then reconcile_supported env person opportunity predicate scoped grp s
           else (let sorted_obs = sorted_desc (observation_strength (re_clock env)) grp
                 in reconcile_losers env person opportunity predicate (tl sorted_obs)
                      (reconcile_winner env person opportunity predicate scoped (hd sorted_obs) s)))"

definition person_observations :: "db \<Rightarrow> uuid \<Rightarrow> observation list" where
  "person_observations d person =
     sort_key (\<lambda>x. - ob_observed_at x)
       (rev (sort_key ob_id (filter (\<lambda>x. ob_subject_id x = Some person) (observations d))))"

definition reconcile_observations :: "run_env \<Rightarrow> uuid \<Rightarrow> db \<Rightarrow> nat \<times> db" where
  "reconcile_observations env person d =
     (let xs = person_observations d person
      in if xs = [] then (0, d)
         else (case foldl (\<lambda>s g. reconcile_group env person g s) (d, 0) (by_predicate xs) of
                 (d', n) \<Rightarrow> (n, d')))"

section \<open>Trust is a probability with an interval around it\<close>

lemma trust_parts:
  fixes clock xs contradicted
  defines "t \<equiv> trust_for_observations clock xs contradicted"
  shows "\<exists>raw width. tr_score t = py_round 4 raw
    \<and> tr_low t = py_round 4 (max 0 (raw - width)) \<and> tr_high t = py_round 4 (min 1 (raw + width))
    \<and> 1 / 10 \<le> width \<and> 0 \<le> raw \<and> raw \<le> 1"
  unfolding t_def trust_for_observations_def Let_def trust_result.simps
  by (intro exI conjI, rule refl, rule refl, rule refl, rule max.cobounded1, rule max.cobounded1)
    (intro max.boundedI min.cobounded1, simp)

lemma trust_raw: "\<exists>a. \<forall>con. tr_score (trust_for_observations clock xs con)
    = py_round 4 (max 0 (min 1 (a - (if con then 2 / 10 else 0))))"
  unfolding trust_for_observations_def Let_def trust_result.simps
  by (intro exI allI) (rule refl)

text \<open>
  Trust is a probability inside its own interval, for any evidence and any clock, and a
  contradiction never raises it.
\<close>

theorem trust_bounds:
  "0 \<le> tr_low (trust_for_observations clock xs con)
   \<and> tr_low (trust_for_observations clock xs con) \<le> tr_score (trust_for_observations clock xs con)
   \<and> tr_score (trust_for_observations clock xs con) \<le> tr_high (trust_for_observations clock xs con)
   \<and> tr_high (trust_for_observations clock xs con) \<le> 1
   \<and> tr_score (trust_for_observations clock xs True) \<le> tr_score (trust_for_observations clock xs False)"
proof -
  obtain raw width where w: "1 / 10 \<le> width" "0 \<le> raw" "raw \<le> 1"
    and t: "tr_score (trust_for_observations clock xs con) = py_round 4 raw"
      "tr_low (trust_for_observations clock xs con) = py_round 4 (max 0 (raw - width))"
      "tr_high (trust_for_observations clock xs con) = py_round 4 (min 1 (raw + width))"
    using trust_parts by blast
  have "max 0 (raw - width) \<le> raw" "raw \<le> min 1 (raw + width)" using w by auto
  moreover obtain a where "\<forall>con. tr_score (trust_for_observations clock xs con)
      = py_round 4 (max 0 (min 1 (a - (if con then 2 / 10 else 0))))"
    using trust_raw by blast
  ultimately show ?thesis
    unfolding t by (auto intro!: py_round_nonneg py_round_le1 py_round_mono)
qed

text \<open>
  An observation with confidence zero outranks one with a low confidence: the strength reads zero
  as missing and takes one half.
\<close>

theorem zero_confidence_outranks:
  assumes "ob_confidence x = 0" and "0 < ob_confidence y" and "ob_confidence y < 1 / 2"
    and "ob_observed_at x = ob_observed_at y"
  shows "observation_strength clock y < observation_strength clock x"
proof -
  define r where "r = max (1 / 2) (1 - real_of_int (days_between clock (ob_observed_at y)) / 365)"
  have "0 < r" unfolding r_def by (rule less_le_trans [OF _ max.cobounded1]) simp
  then have "ob_confidence y * r < 1 / 2 * r" using assms(3) by (intro mult_strict_right_mono)
  with assms show ?thesis by (simp add: observation_strength_def r_def)
qed

section \<open>What a claim table already says\<close>

definition has_match :: "db \<Rightarrow> uuid \<Rightarrow> uuid option \<Rightarrow> string \<Rightarrow> string \<Rightarrow> string \<Rightarrow> uuid list \<Rightarrow> bool" where
  "has_match d person opportunity predicate value status ids =
     (\<exists>c \<in> set (scoped_claims d person opportunity). claim_matches c predicate value status ids)"

lemma find_match_iff:
  "find_matching_claim (scoped_claims d person opportunity) predicate value status ids \<noteq> None
   \<longleftrightarrow> has_match d person opportunity predicate value status ids"
  by (auto simp: find_matching_claim_def has_match_def find_None_iff)

lemma find_match_cases:
  "(find_matching_claim (scoped_claims d person opportunity) predicate value status ids = None)
   = (\<not> has_match d person opportunity predicate value status ids)"
  using find_match_iff by blast

lemma apply_trust_frame [simp]:
  "c_id (apply_trust k c xs b) = c_id c" "c_observation_ids (apply_trust k c xs b) = c_observation_ids c"
  "c_subject_id (apply_trust k c xs b) = c_subject_id c" "c_opportunity_id (apply_trust k c xs b) = c_opportunity_id c"
  "c_predicate (apply_trust k c xs b) = c_predicate c" "c_object_value (apply_trust k c xs b) = c_object_value c"
  "c_status (apply_trust k c xs b) = c_status c" "c_supersession_id (apply_trust k c xs b) = c_supersession_id c"
  "c_valid_start (apply_trust k c xs b) = c_valid_start c"
  by (simp_all add: apply_trust_def Let_def)

lemma new_claim_simps [simp]:
  "c_id (new_claim env n p q pr v st cf t ids ev) = re_ids env n"
  "c_observation_ids (new_claim env n p q pr v st cf t ids ev) = ids"
  "c_subject_id (new_claim env n p q pr v st cf t ids ev) = Some p"
  "c_opportunity_id (new_claim env n p q pr v st cf t ids ev) = q"
  "c_predicate (new_claim env n p q pr v st cf t ids ev) = pr"
  "c_object_value (new_claim env n p q pr v st cf t ids ev) = v"
  "c_status (new_claim env n p q pr v st cf t ids ev) = st"
  "c_supersession_id (new_claim env n p q pr v st cf t ids ev) = None"
  by (simp_all add: new_claim_def)

lemma claims_store [simp]: "claims (store_claim c d) = claims d @ [c]"
  by (simp add: store_claim_def link_claim_observations_def)

lemma observations_frame [simp]:
  "observations (store_claim c d) = observations d"
  "observations (close_superseded_claims cs r p d) = observations d"
  by (simp_all add: store_claim_def link_claim_observations_def close_superseded_claims_def)

lemma has_match_store:
  "has_match (store_claim c d) p q pr v st ids \<longleftrightarrow>
     has_match d p q pr v st ids \<or>
     (c_subject_id c = Some p \<and> c_opportunity_id c = q \<and> claim_matches c pr v st ids)"
  by (auto simp: has_match_def scoped_claims_def)

lemma ex_filter_map:
  "(\<And>c. P (u c) = P c \<and> Q (u c) = Q c) \<Longrightarrow>
   (\<exists>c \<in> set (filter P (map u xs)). Q c) = (\<exists>c \<in> set (filter P xs). Q c)"
  by auto

lemma has_match_close [simp]:
  "has_match (close_superseded_claims cs r p' d) p q pr v st ids = has_match d p q pr v st ids"
proof -
  let ?u = "\<lambda>c. if c_id c \<notin> set (map c_id cs) \<or> c_id c = c_id r \<or> c_predicate c \<noteq> p'
      \<or> c_supersession_id c \<noteq> None then c
    else c\<lparr>c_supersession_id := Some (c_id r), c_valid_end := Some (c_valid_start r)\<rparr>"
  have "claims (close_superseded_claims cs r p' d) = map ?u (claims d)"
    by (simp add: close_superseded_claims_def)
  then show ?thesis
    unfolding has_match_def scoped_claims_def
    by (simp only:) (rule ex_filter_map, simp add: claim_matches_def)
qed

section \<open>What a group of observations requires\<close>

definition contradictory :: "observation list \<Rightarrow> bool" where
  "contradictory grp = (length grp \<noteq> 1 \<and> length (fromkeys (map (\<lambda>x. strip (ob_object_value x)) grp)) \<noteq> 1)"

definition covered :: "db \<Rightarrow> uuid \<Rightarrow> (string \<times> uuid option) \<times> observation list \<Rightarrow> bool" where
  "covered d person g = (case g of ((predicate, q), grp) \<Rightarrow>
     if length grp = 1 then has_match d person q predicate (ob_object_value (hd grp)) ''unverified'' [ob_id (hd grp)]
     else if \<not> contradictory grp
     then (\<forall>x \<in> set grp. has_match d person q predicate (ob_object_value x) ''supported'' (map ob_id grp))
     else (\<forall>x \<in> set grp. has_match d person q predicate (ob_object_value x) ''contradicted'' [ob_id x]))"

definition matches_grow :: "db \<Rightarrow> db \<Rightarrow> bool" where
  "matches_grow d d' = (observations d' = observations d \<and>
     (\<forall>p q pr v st ids. has_match d p q pr v st ids \<longrightarrow> has_match d' p q pr v st ids))"

lemma matches_grow_refl [simp]: "matches_grow d d"
  by (simp add: matches_grow_def)

lemma matches_grow_trans: "matches_grow d d' \<Longrightarrow> matches_grow d' d'' \<Longrightarrow> matches_grow d d''"
  by (simp add: matches_grow_def)

lemma matches_grow_store [simp]: "matches_grow d (store_claim c d)"
  by (simp add: matches_grow_def has_match_store)

lemma matches_grow_close [simp]: "matches_grow d (close_superseded_claims cs r p d') = matches_grow d d'"
  by (simp add: matches_grow_def)

lemma covered_grow: "covered d person g \<Longrightarrow> matches_grow d d' \<Longrightarrow> covered d' person g"
  by (auto simp: covered_def matches_grow_def split: prod.splits if_splits)

lemma has_match_strip: "strip v = strip v' \<Longrightarrow> has_match d p q pr v st ids = has_match d p q pr v' st ids"
  by (simp add: has_match_def claim_matches_def)

lemma max_first_in: "max_first f b xs \<in> insert b (set xs)"
  by (induction f b xs rule: max_first.induct) auto

lemma length_1_fromkeys:
  assumes "length (fromkeys ys) = 1" "a \<in> set ys" "b \<in> set ys"
  shows "a = b"
proof -
  obtain z where "fromkeys ys = [z]" using assms(1) by (metis One_nat_def length_0_conv length_Suc_conv)
  then have "set ys = {z}" using set_fromkeys [of ys] by simp
  with assms show ?thesis by simp
qed

lemma set_sorted_desc [simp]: "set (sorted_desc f xs) = set xs"
  by (simp add: sorted_desc_def)

lemma sorted_desc_Nil [simp]: "sorted_desc f xs = [] \<longleftrightarrow> xs = []"
  by (metis set_empty set_sorted_desc)

lemma claim_observation_grow:
  fixes env p q pr st x and s :: run_state
  defines "s' \<equiv> claim_observation env p q pr st (scoped_claims (fst s) p q) x s"
  shows "matches_grow (fst s) (fst s')" "has_match (fst s') p q pr (ob_object_value x) st [ob_id x]"
proof -
  obtain d n where s: "s = (d, n)" by force
  show "matches_grow (fst s) (fst s')" "has_match (fst s') p q pr (ob_object_value x) st [ob_id x]"
    unfolding s'_def s
    by (simp_all add: claim_observation_def find_match_cases has_match_store claim_matches_def del: not_None_eq)
qed

lemma losers_grow:
  "matches_grow (fst s) (fst (reconcile_losers env p q pr xs s))
   \<and> (\<forall>x \<in> set xs. has_match (fst (reconcile_losers env p q pr xs s)) p q pr (ob_object_value x) ''contradicted'' [ob_id x])"
proof (induction xs arbitrary: s)
  case (Cons x xs)
  let ?s = "claim_observation env p q pr ''contradicted'' (scoped_claims (fst s) p q) x s"
  from Cons.IH [of ?s] claim_observation_grow [where s = s and env = env and p = p and q = q and pr = pr and st = "''contradicted''" and x = x]
  show ?case by (auto simp: matches_grow_def)
qed simp

lemma winner_grow:
  "matches_grow (fst s) (fst (reconcile_winner env p q pr (scoped_claims (fst s) p q) x s))"
  "has_match (fst (reconcile_winner env p q pr (scoped_claims (fst s) p q) x s)) p q pr (ob_object_value x) ''contradicted'' [ob_id x]"
  by (cases s; simp add: reconcile_winner_def find_match_cases has_match_store claim_matches_def Let_def del: not_None_eq)+

lemma supported_grow:
  assumes "grp \<noteq> []" "\<not> contradictory grp" "length grp \<noteq> 1"
  shows "matches_grow (fst s) (fst (reconcile_supported env p q pr (scoped_claims (fst s) p q) grp s))
    \<and> (\<forall>x \<in> set grp. has_match (fst (reconcile_supported env p q pr (scoped_claims (fst s) p q) grp s)) p q pr
         (ob_object_value x) ''supported'' (map ob_id grp))"
proof -
  obtain d n where s: "s = (d, n)" by force
  let ?m = "max_first (observation_strength (re_clock env)) (hd grp) (tl grp)"
  let ?d = "fst (reconcile_supported env p q pr (scoped_claims (fst s) p q) grp s)"
  have m: "?m \<in> set grp" using max_first_in [of _ "hd grp" "tl grp"] assms(1) by (cases grp) auto
  have "matches_grow (fst s) ?d \<and> has_match ?d p q pr (ob_object_value ?m) ''supported'' (map ob_id grp)"
    using s by (simp add: reconcile_supported_def find_match_cases has_match_store claim_matches_def Let_def del: not_None_eq)
  moreover have "strip (ob_object_value x) = strip (ob_object_value ?m)" if "x \<in> set grp" for x
    using length_1_fromkeys [of "map (\<lambda>x. strip (ob_object_value x)) grp"] that m assms(2,3)
    by (auto simp: contradictory_def)
  ultimately show ?thesis using has_match_strip by blast
qed

lemma group_covers:
  assumes "snd g \<noteq> []"
  shows "matches_grow (fst s) (fst (reconcile_group env p g s)) \<and> covered (fst (reconcile_group env p g s)) p g"
proof -
  obtain pr q grp where g: "g = ((pr, q), grp)" by (cases g) auto
  consider "length grp = 1" | "length grp \<noteq> 1" "\<not> contradictory grp" | "length grp \<noteq> 1" "contradictory grp" by blast
  then show ?thesis
  proof cases
    case 1
    then show ?thesis
      using claim_observation_grow [where s = s] g by (simp add: reconcile_group_def covered_def)
  next
    case 2
    then show ?thesis
      using supported_grow [of grp s] assms g by (simp add: reconcile_group_def covered_def contradictory_def)
  next
    case 3
    let ?o = "sorted_desc (observation_strength (re_clock env)) grp"
    let ?w = "reconcile_winner env p q pr (scoped_claims (fst s) p q) (hd ?o) s"
    have ne: "?o \<noteq> []" using assms g by simp
    have r: "reconcile_group env p g s = reconcile_losers env p q pr (tl ?o) ?w"
      using 3 g by (simp add: reconcile_group_def contradictory_def Let_def)
    note w = winner_grow [where s = s and env = env and p = p and q = q and pr = pr and x = "hd ?o"]
    note l = losers_grow [of ?w env p q pr "tl ?o"]
    have "has_match (fst (reconcile_group env p g s)) p q pr (ob_object_value x) ''contradicted'' [ob_id x]"
      if "x \<in> set grp" for x
    proof -
      from that have "x \<in> set ?o" by simp
      with ne have "x = hd ?o \<or> x \<in> set (tl ?o)" by (cases ?o) auto
      then show ?thesis using w l unfolding r by (auto simp: matches_grow_def)
    qed
    moreover have "matches_grow (fst s) (fst (reconcile_group env p g s))"
      unfolding r using w(1) l matches_grow_trans by blast
    ultimately show ?thesis using 3 g by (simp add: covered_def)
  qed
qed

lemma losers_covered:
  "\<forall>x \<in> set xs. has_match (fst s) p q pr (ob_object_value x) ''contradicted'' [ob_id x] \<Longrightarrow>
   reconcile_losers env p q pr xs s = s"
  by (induction xs) (auto simp: claim_observation_def find_match_cases simp del: not_None_eq split: prod.splits)

lemma group_covered:
  assumes "covered (fst s) p g" "snd g \<noteq> []"
  shows "reconcile_group env p g s = s"
proof -
  obtain pr q grp where g: "g = ((pr, q), grp)" by (cases g) auto
  obtain d n where s: "s = (d, n)" by force
  consider "length grp = 1" | "length grp \<noteq> 1" "\<not> contradictory grp" | "length grp \<noteq> 1" "contradictory grp" by blast
  then show ?thesis
  proof cases
    case 1
    with assms g s show ?thesis by (simp add: reconcile_group_def covered_def claim_observation_def find_match_cases del: not_None_eq)
  next
    case 2
    let ?m = "max_first (observation_strength (re_clock env)) (hd grp) (tl grp)"
    have "?m \<in> set grp" using max_first_in [of _ "hd grp" "tl grp"] assms(2) g by (cases grp) auto
    with 2 assms g s show ?thesis
      by (simp add: reconcile_group_def covered_def contradictory_def reconcile_supported_def find_match_cases Let_def del: not_None_eq)
  next
    case 3
    let ?o = "sorted_desc (observation_strength (re_clock env)) grp"
    have ne: "?o \<noteq> []" using assms(2) g by simp
    have all: "has_match d p q pr (ob_object_value x) ''contradicted'' [ob_id x]" if "x \<in> set ?o" for x
      using that 3 assms(1) g s by (simp add: covered_def)
    have "reconcile_winner env p q pr (scoped_claims d p q) (hd ?o) s = s"
      using all [OF list.set_sel(1) [OF ne]] s by (simp add: reconcile_winner_def find_match_cases del: not_None_eq)
    moreover have "reconcile_losers env p q pr (tl ?o) s = s"
      by (rule losers_covered) (use all s in \<open>auto dest: list.set_sel(2) [OF ne]\<close>)
    ultimately show ?thesis using 3 g s by (simp add: reconcile_group_def contradictory_def Let_def)
  qed
qed

lemma fold_groups:
  assumes "\<forall>g \<in> set gs. snd g \<noteq> []"
  shows "matches_grow (fst s) (fst (foldl (\<lambda>s g. reconcile_group env p g s) s gs))
    \<and> (\<forall>g \<in> set gs. covered (fst (foldl (\<lambda>s g. reconcile_group env p g s) s gs)) p g)"
  using assms
proof (induction gs rule: rev_induct)
  case (snoc g gs)
  let ?s = "foldl (\<lambda>s g. reconcile_group env p g s) s gs"
  from group_covers [of g ?s env p] snoc show ?case
    by (auto intro: covered_grow matches_grow_trans)
qed simp

lemma fold_covered:
  "\<forall>g \<in> set gs. covered (fst s) p g \<and> snd g \<noteq> [] \<Longrightarrow> foldl (\<lambda>s g. reconcile_group env p g s) s gs = s"
  by (induction gs) (auto simp: group_covered)

lemma group_insert_ne: "\<forall>g \<in> set gs. snd g \<noteq> [] \<Longrightarrow> \<forall>g \<in> set (group_insert k x gs). snd g \<noteq> []"
  by (induction k x gs rule: group_insert.induct) auto

lemma by_predicate_ne: "g \<in> set (by_predicate xs) \<Longrightarrow> snd g \<noteq> []"
proof -
  have "\<forall>g \<in> set (by_predicate xs). snd g \<noteq> []"
    unfolding by_predicate_def by (induction xs rule: rev_induct) (simp_all add: group_insert_ne)
  then show "g \<in> set (by_predicate xs) \<Longrightarrow> snd g \<noteq> []" by blast
qed

lemma reconcile_covers:
  assumes "reconcile_observations env p d = (n, d')"
  shows "matches_grow d d' \<and> (\<forall>g \<in> set (by_predicate (person_observations d p)). covered d' p g)"
proof (cases "person_observations d p = []")
  case True
  with assms show ?thesis by (simp add: reconcile_observations_def by_predicate_def)
next
  case False
  with assms have "fst (foldl (\<lambda>s g. reconcile_group env p g s) (d, 0) (by_predicate (person_observations d p))) = d'"
    by (auto simp: reconcile_observations_def Let_def split: prod.splits)
  with fold_groups [of "by_predicate (person_observations d p)" "(d, 0)" env p] by_predicate_ne
  show ?thesis by auto
qed

lemma reconcile_covered:
  assumes "\<forall>g \<in> set (by_predicate (person_observations d person)). covered d person g"
  shows "reconcile_observations env person d = (0, d)"
proof -
  have "foldl (\<lambda>s g. reconcile_group env person g s) (d, 0) (by_predicate (person_observations d person)) = (d, 0)"
    by (rule fold_covered) (use assms by_predicate_ne in auto)
  then show ?thesis by (simp add: reconcile_observations_def Let_def)
qed

lemma covered_after:
  assumes "reconcile_observations env person d = (n, d')" and "matches_grow d' d''"
  shows "\<forall>g \<in> set (by_predicate (person_observations d'' person)). covered d'' person g"
proof -
  note c = reconcile_covers [OF assms(1)]
  then have "person_observations d'' person = person_observations d person"
    using assms(2) by (simp add: person_observations_def matches_grow_def)
  with c covered_grow [OF _ assms(2)] show ?thesis by simp
qed

text \<open>
  C4. Reconciliation is idempotent: running it again on the same observations, at any later clock and
  with any new identifiers, creates no claim and changes nothing, although the strengths that choose
  a winner depend on the clock.
\<close>

theorem reconcile_idempotent:
  assumes "reconcile_observations env person d = (n, d')"
  shows "reconcile_observations env' person d' = (0, d')"
  by (rule reconcile_covered [OF covered_after [OF assms matches_grow_refl]])

section \<open>Samples\<close>

definition sample_observation :: "uuid \<Rightarrow> string \<Rightarrow> real \<Rightarrow> observation" where
  "sample_observation i value conf = \<lparr>ob_id = i, ob_snapshot_id = ''s1'', ob_subject_id = Some ''p1'',
     ob_opportunity_id = None, ob_predicate = ''role'', ob_object_value = value, ob_source_locator = PNone,
     ob_observed_at = 0, ob_extractor_version = ''github-v1'', ob_fingerprint = None, ob_confidence = conf,
     ob_embedding = None, ob_created_at = 0\<rparr>"

definition sample_env :: run_env where
  "sample_env = \<lparr>re_digest = (\<lambda>v. []), re_ids = (\<lambda>n. ''c'' @ replicate n CHR ''x''),
     re_run_id = ''r1'', re_clock = 0\<rparr>"

definition observed_db :: db where
  "observed_db = empty_db\<lparr>observations := [sample_observation ''a'' ''CTO'' 1, sample_observation ''b'' ''CEO'' (1 / 2)]\<rparr>"

theorem zero_confidence_outranks_witness:
  "observation_strength 0 (sample_observation ''b'' ''CEO'' (3 / 10))
   < observation_strength 0 (sample_observation ''a'' ''CTO'' 0)"
  by (rule zero_confidence_outranks) (simp_all add: sample_observation_def)

theorem reconcile_idempotent_witness:
  "reconcile_observations (sample_env\<lparr>re_clock := 10 ^ 15\<rparr>) ''p1''
     (snd (reconcile_observations sample_env ''p1'' observed_db))
   = (0, snd (reconcile_observations sample_env ''p1'' observed_db))"
  by (rule reconcile_idempotent [where env = sample_env and d = observed_db
        and n = "fst (reconcile_observations sample_env ''p1'' observed_db)"]) simp

lemma group_insert_keep: "(k, xs) \<in> set gs \<Longrightarrow> \<exists>ys. (k, ys) \<in> set (group_insert k' x gs) \<and> set xs \<subseteq> set ys"
  by (induction k' x gs rule: group_insert.induct) (auto split: if_splits)

lemma group_insert_new: "\<exists>ys. (k, ys) \<in> set (group_insert k x gs) \<and> x \<in> set ys"
  by (induction k x gs rule: group_insert.induct) auto

lemma by_predicate_mem:
  "x \<in> set xs \<Longrightarrow> \<exists>ys. ((ob_predicate x, ob_opportunity_id x), ys) \<in> set (by_predicate xs) \<and> x \<in> set ys"
proof (induction xs rule: rev_induct)
  case (snoc y xs)
  have b: "by_predicate (xs @ [y]) = group_insert (ob_predicate y, ob_opportunity_id y) y (by_predicate xs)"
    by (simp add: by_predicate_def)
  show ?case
  proof (cases "x \<in> set xs")
    case True
    with snoc.IH obtain ys where ys: "((ob_predicate x, ob_opportunity_id x), ys) \<in> set (by_predicate xs)" "x \<in> set ys"
      by blast
    from group_insert_keep [OF ys(1)] ys(2) show ?thesis unfolding b by blast
  next
    case False
    with snoc.prems have "x = y" by simp
    with group_insert_new show ?thesis unfolding b by blast
  qed
qed simp

lemma has_match_claim:
  assumes "has_match d p q pr v st ids"
  shows "\<exists>c \<in> set (claims d). c_subject_id c = Some p \<and> c_opportunity_id c = q \<and> c_predicate c = pr
    \<and> strip (c_object_value c) = strip v \<and> c_status c = st \<and> c_observation_ids c = ids"
  using assms by (auto simp: has_match_def scoped_claims_def claim_matches_def)

lemma covered_backs:
  assumes "\<forall>g \<in> set (by_predicate (person_observations d person)). covered d' person g"
    and "x \<in> set (observations d)" and "ob_subject_id x = Some person"
  shows "\<exists>c \<in> set (claims d'). c_subject_id c = Some person \<and> c_opportunity_id c = ob_opportunity_id x
    \<and> c_predicate c = ob_predicate x \<and> strip (c_object_value c) = strip (ob_object_value x)
    \<and> ob_id x \<in> set (c_observation_ids c)"
proof -
  have "x \<in> set (person_observations d person)"
    using assms(2,3) by (simp add: person_observations_def)
  from by_predicate_mem [OF this] obtain grp where
    g: "((ob_predicate x, ob_opportunity_id x), grp) \<in> set (by_predicate (person_observations d person))"
    and x: "x \<in> set grp" by blast
  with assms(1) have cov: "covered d' person ((ob_predicate x, ob_opportunity_id x), grp)"
    by blast
  consider "length grp = 1" | "length grp \<noteq> 1" by blast
  then obtain st ids where "has_match d' person (ob_opportunity_id x) (ob_predicate x) (ob_object_value x) st ids"
    "ob_id x \<in> set ids"
  proof cases
    case 1
    with x have "hd grp = x" by (cases grp) auto
    with 1 cov that [of "''unverified''" "[ob_id x]"] show ?thesis by (simp add: covered_def)
  next
    case 2
    with cov x that [of "''supported''" "map ob_id grp"] that [of "''contradicted''" "[ob_id x]"]
    show ?thesis by (auto simp: covered_def split: if_splits)
  qed
  from has_match_claim [OF this(1)] this(2) show ?thesis by blast
qed

text \<open>
  No observation is dropped: after reconciliation every observation of the person backs a claim
  of its own predicate and opportunity that states its value, also when it lost a contradiction.
\<close>

theorem reconcile_drops_nothing:
  assumes "reconcile_observations env person d = (n, d')"
    and "x \<in> set (observations d)" and "ob_subject_id x = Some person"
  shows "\<exists>c \<in> set (claims d'). c_subject_id c = Some person \<and> c_opportunity_id c = ob_opportunity_id x
    \<and> c_predicate c = ob_predicate x \<and> strip (c_object_value c) = strip (ob_object_value x)
    \<and> ob_id x \<in> set (c_observation_ids c)"
  using covered_backs [OF conjunct2 [OF reconcile_covers [OF assms(1)]] assms(2,3)] .

theorem reconcile_drops_nothing_witness:
  "\<exists>c \<in> set (claims (snd (reconcile_observations sample_env ''p1'' observed_db))).
     c_predicate c = ''role'' \<and> strip (c_object_value c) = strip ''CEO'' \<and> ''b'' \<in> set (c_observation_ids c)"
proof -
  let ?x = "sample_observation ''b'' ''CEO'' (1 / 2)"
  have "?x \<in> set (observations observed_db)" "ob_subject_id ?x = Some ''p1''"
    by (simp_all add: observed_db_def sample_observation_def)
  from reconcile_drops_nothing [OF surjective_pairing this, of sample_env] show ?thesis
    by (auto simp: sample_observation_def)
qed

section \<open>Counter-evidence and later winners\<close>

definition current_in :: "db \<Rightarrow> uuid \<Rightarrow> uuid option \<Rightarrow> string \<Rightarrow> claim list" where
  "current_in d person q pr = filter (\<lambda>c. c_subject_id c = Some person \<and> c_opportunity_id c = q
     \<and> c_predicate c = pr \<and> c_supersession_id c = None) (claims d)"

definition hidden :: "db \<Rightarrow> uuid \<Rightarrow> uuid option \<Rightarrow> string \<Rightarrow> uuid \<Rightarrow> bool" where
  "hidden d person q pr i = (\<forall>c \<in> set (current_in d person q pr). i \<notin> set (c_observation_ids c))"

lemma losers_hidden:
  assumes "hidden (fst s) p q pr i" and "\<forall>y \<in> set ys. ob_id y = i \<longrightarrow>
      has_match (fst s) p q pr (ob_object_value y) ''contradicted'' [ob_id y]"
  shows "hidden (fst (reconcile_losers env p q pr ys s)) p q pr i"
  using assms
proof (induction ys arbitrary: s)
  case (Cons y ys)
  obtain d n where s: "s = (d, n)" by force
  let ?s = "claim_observation env p q pr ''contradicted'' (scoped_claims d p q) y s"
  have "hidden (fst ?s) p q pr i"
  proof (cases "has_match d p q pr (ob_object_value y) ''contradicted'' [ob_id y]")
    case True
    with Cons.prems s show ?thesis by (simp add: claim_observation_def find_match_cases del: not_None_eq)
  next
    case False
    with Cons.prems s have "ob_id y \<noteq> i" by auto
    with Cons.prems s False show ?thesis
      by (auto simp: claim_observation_def find_match_cases hidden_def current_in_def simp del: not_None_eq)
  qed
  moreover have "\<forall>z \<in> set ys. ob_id z = i \<longrightarrow> has_match (fst ?s) p q pr (ob_object_value z) ''contradicted'' [ob_id z]"
    using Cons.prems(2) claim_observation_grow(1) [where s = s and env = env and p = p and q = q and pr = pr
        and st = "''contradicted''" and x = y] s by (auto simp: matches_grow_def)
  ultimately show ?case using Cons.IH [of ?s] s by simp
qed simp

text \<open>
  A later winner hides earlier counter-evidence: when a contradiction gets a new winner while a
  loser already has its contradicted claim, that claim is closed with the rest and is not made again,
  so no current claim of the predicate shows the losing observation any more.
\<close>

theorem new_winner_hides_counter_evidence:
  assumes "contradictory grp" and "sorted_desc (observation_strength (re_clock env)) grp = winner # losers"
    and "\<not> has_match d person q pr (ob_object_value winner) ''contradicted'' [ob_id winner]"
    and "x \<in> set losers" and "has_match d person q pr (ob_object_value x) ''contradicted'' [ob_id x]"
    and "distinct (map ob_id (winner # losers))" and "re_ids env n \<notin> c_id ` set (claims d)"
  shows "hidden (fst (reconcile_group env person ((pr, q), grp) (d, n))) person q pr (ob_id x)"
proof -
  let ?c = "new_claim env n person q pr (ob_object_value winner) ''contradicted'' (ob_confidence winner)
      (ob_observed_at winner) [ob_id winner] [winner]"
  let ?s = "reconcile_winner env person q pr (scoped_claims d person q) winner (d, n)"
  have r: "reconcile_group env person ((pr, q), grp) (d, n) = reconcile_losers env person q pr losers ?s"
    using assms(1,2) by (simp add: reconcile_group_def contradictory_def Let_def)
  have w: "fst ?s = close_superseded_claims (scoped_claims d person q) ?c pr (store_claim ?c d)"
    using assms(3) by (simp add: reconcile_winner_def find_match_cases Let_def del: not_None_eq)
  have "ob_id winner \<notin> ob_id ` set losers" using assms(6) by simp
  with imageI [OF assms(4)] have xw: "ob_id x \<noteq> ob_id winner" by metis
  have "c = ?c" if "c \<in> set (current_in (fst ?s) person q pr)" for c
  proof -
    define u :: "claim \<Rightarrow> claim" where "u = (\<lambda>c0. if c_id c0 \<notin> set (map c_id (scoped_claims d person q)) \<or> c_id c0 = c_id ?c
        \<or> c_predicate c0 \<noteq> pr \<or> c_supersession_id c0 \<noteq> None then c0
      else c0\<lparr>c_supersession_id := Some (c_id ?c), c_valid_end := Some (c_valid_start ?c)\<rparr>)"
    have "claims (fst ?s) = map u (claims d @ [?c])"
      unfolding w u_def by (simp add: close_superseded_claims_def del: new_claim_simps)
    moreover from that have "c \<in> set (claims (fst ?s))"
      and cur: "c_supersession_id c = None" "c_predicate c = pr" "c_subject_id c = Some person" "c_opportunity_id c = q"
      by (auto simp: current_in_def)
    ultimately obtain c0 where c0: "c0 \<in> insert ?c (set (claims d))" and c: "c = u c0" by auto
    show "c = ?c"
    proof (rule ccontr)
      assume ne: "c \<noteq> ?c"
      have "u c0 = c0 \<or> c_supersession_id (u c0) \<noteq> None" by (simp add: u_def)
      with c cur(1) have same: "c = c0" by metis
      with ne c0 have d0: "c0 \<in> set (claims d)" by auto
      with same cur have "c_id c0 \<in> set (map c_id (scoped_claims d person q))" by (auto simp: scoped_claims_def)
      moreover have "c_id c0 \<noteq> c_id ?c" using imageI [OF d0, of c_id] assms(7) new_claim_simps(1) by metis
      ultimately have "c_supersession_id (u c0) \<noteq> None" using cur same by (simp add: u_def)
      with c cur(1) show False by simp
    qed
  qed
  then have "hidden (fst ?s) person q pr (ob_id x)" using xw by (fastforce simp: hidden_def)
  moreover have "has_match (fst ?s) person q pr (ob_object_value y) ''contradicted'' [ob_id y]"
    if "y \<in> set losers" "ob_id y = ob_id x" for y
  proof -
    have "y = x" using that assms(4,6) by (auto simp: distinct_map inj_on_def)
    then show ?thesis using assms(5) winner_grow(1) [of "(d, n)" env person q pr winner]
      by (auto simp: matches_grow_def)
  qed
  ultimately show ?thesis unfolding r by (intro losers_hidden) auto
qed

definition loser_claim :: claim where
  "loser_claim = new_claim sample_env 0 ''p1'' None ''role'' ''CEO'' ''contradicted'' (1 / 2) 0 [''b'']
     [sample_observation ''b'' ''CEO'' (1 / 2)]"

definition contested_db :: db where
  "contested_db = store_claim loser_claim observed_db"

theorem new_winner_hides_counter_evidence_witness:
  "hidden (fst (reconcile_group sample_env ''p1'' ((''role'', None), observations observed_db) (contested_db, 1)))
     ''p1'' None ''role'' ''b''"
proof -
  let ?w = "sample_observation ''a'' ''CTO'' 1" and ?x = "sample_observation ''b'' ''CEO'' (1 / 2)"
  have "contradictory (observations observed_db)"
  proof -
    have "strip ''CTO'' \<noteq> strip ''CEO''" by code_simp
    then show ?thesis by (simp add: contradictory_def observed_db_def sample_observation_def fromkeys_def)
  qed
  moreover have "sorted_desc (observation_strength (re_clock sample_env)) (observations observed_db) = ?w # [?x]"
    by (simp add: sorted_desc_def observed_db_def sample_observation_def observation_strength_def sample_env_def
        days_between_def)
  moreover have "\<not> has_match contested_db ''p1'' None ''role'' (ob_object_value ?w) ''contradicted'' [ob_id ?w]"
    "has_match contested_db ''p1'' None ''role'' (ob_object_value ?x) ''contradicted'' [ob_id ?x]"
    by (simp_all add: has_match_store contested_db_def loser_claim_def has_match_def scoped_claims_def
        observed_db_def empty_db_def claim_matches_def sample_observation_def)
  moreover have "?x \<in> set [?x]" by simp
  moreover have "distinct (map ob_id (?w # [?x]))" by (simp add: sample_observation_def)
  moreover have "re_ids sample_env 1 \<notin> c_id ` set (claims contested_db)"
    by (simp add: contested_db_def loser_claim_def observed_db_def empty_db_def sample_env_def)
  ultimately have "hidden (fst (reconcile_group sample_env ''p1'' ((''role'', None), observations observed_db) (contested_db, 1)))
      ''p1'' None ''role'' (ob_id ?x)"
    using new_winner_hides_counter_evidence [where winner = ?w and losers = "[?x]" and x = ?x] by metis
  then show ?thesis by (simp add: sample_observation_def)
qed

end
