(* ===== verification/Outbox.thy ===== *)
theory Outbox
  imports Schema
begin

text \<open>
  The durable outbox of \<^verbatim>\<open>app/outbox.py\<close>: the dispatch event of an inbound submission and
  the sweep that hands ready events to Arq. \<open>send\<close> is \<open>redis.enqueue_job\<close>: \<open>None\<close> when it accepts
  the job, the text of its exception otherwise. \<open>py_text\<close> is \<open>str\<close> of a value that is no string.
  A row is known by its unique \<open>dedupe_key\<close>.
\<close>

definition inbound_outbox_event :: "inbound_submission \<Rightarrow> string \<Rightarrow> string option \<Rightarrow> instant \<Rightarrow> outbox_event" where
  "inbound_outbox_event sub company_name job_id now =
     (let kwargs = [(''person_id'', PStr (sub_person_id sub)), (''snapshot_id'', PStr (sub_snapshot_id sub)),
            (''opportunity_id'', PStr (sub_opportunity_id sub)), (''company_name'', PStr company_name),
            (''founder_evidence'', PDict (map (\<lambda>(k, v). (k, PStr v)) (sub_founder_evidence sub)))]
          @ (case job_id of None \<Rightarrow> [] | Some j \<Rightarrow> [(''job_id'', PStr j)])
      in \<lparr>ob_dedupe_key = ''inbound-submission:'' @ sub_idempotency_key sub,
          ob_event_type = ''inbound_pitch.accepted'', ob_aggregate_id = sub_opportunity_id sub,
          ob_payload = [(''job_name'', PStr ''process_inbound_pitch_job''), (''kwargs'', PDict kwargs)],
          ob_status = ''pending'', ob_attempts = 0, ob_available_at = now, ob_dispatched_at = None,
          ob_last_error = None, ob_event_created_at = now\<rparr>)"

definition backoff_seconds :: "int \<Rightarrow> int" where
  "backoff_seconds attempts = min 300 (2 ^ nat (min attempts 8))"

record arq_env =
  ae_send :: "string \<Rightarrow> pyval dict \<Rightarrow> string option"
  ae_text :: "pyval \<Rightarrow> string"

fun text_of :: "arq_env \<Rightarrow> pyval \<Rightarrow> string" where
  "text_of env (PStr s) = s"
| "text_of env v = ae_text env v"

text \<open>What the \<open>try\<close> block of one event raises, if it raises.\<close>

definition send_event :: "arq_env \<Rightarrow> outbox_event \<Rightarrow> string option" where
  "send_event env e =
     (case dget (ob_payload e) ''job_name'' of
        None \<Rightarrow> Some [CHR 39, CHR ''j'', CHR ''o'', CHR ''b'', CHR ''_'', CHR ''n'', CHR ''a'', CHR ''m'', CHR ''e'', CHR 39]
      | Some name \<Rightarrow>
          (case (case dget (ob_payload e) ''kwargs'' of Some v \<Rightarrow> v | None \<Rightarrow> PDict []) of
             PDict kwargs \<Rightarrow> ae_send env (text_of env name) kwargs
           | _ \<Rightarrow> Some ''outbox kwargs must be an object''))"

definition settle_event :: "arq_env \<Rightarrow> instant \<Rightarrow> outbox_event \<Rightarrow> outbox_event \<times> bool" where
  "settle_event env now e =
     (case send_event env e of
        Some err \<Rightarrow>
          (let attempts = ob_attempts e + 1
           in (e\<lparr>ob_attempts := attempts,
                 ob_available_at := now + backoff_seconds attempts * us_second,
                 ob_last_error := Some (take 1000 err)\<rparr>, False))
      | None \<Rightarrow> (e\<lparr>ob_status := ''dispatched'', ob_dispatched_at := Some now, ob_last_error := None\<rparr>, True))"

definition ready_events :: "instant \<Rightarrow> (string \<Rightarrow> bool) \<Rightarrow> int \<Rightarrow> outbox_event list \<Rightarrow> outbox_event list" where
  "ready_events now locked limit table =
     take (nat (max 1 (min limit 200))) (sort_key ob_event_created_at
       (filter (\<lambda>e. ob_status e = ''pending'' \<and> ob_available_at e \<le> now \<and> \<not> locked (ob_dedupe_key e)) table))"

fun settle_events :: "arq_env \<Rightarrow> instant \<Rightarrow> outbox_event list \<Rightarrow> outbox_event list \<Rightarrow> outbox_event list \<times> nat \<times> nat" where
  "settle_events env now [] table = (table, 0, 0)"
| "settle_events env now (e # es) table =
     (case settle_event env now e of (e', ok) \<Rightarrow>
       (case settle_events env now es (put_row ob_dedupe_key table e') of
          (table', dispatched, failed) \<Rightarrow>
            (table', (if ok then dispatched + 1 else dispatched), (if ok then failed else failed + 1))))"

definition dispatch_pending_outbox ::
  "arq_env \<Rightarrow> instant \<Rightarrow> (string \<Rightarrow> bool) \<Rightarrow> int \<Rightarrow> outbox_event list \<Rightarrow> (nat \<times> nat \<times> nat) \<times> outbox_event list" where
  "dispatch_pending_outbox env now locked limit table =
     (let events = ready_events now locked limit table
      in case settle_events env now events table of
           (table', dispatched, failed) \<Rightarrow> ((length events, dispatched, failed), table'))"

section \<open>Lemmas\<close>

lemma backoff_bounds: "1 \<le> backoff_seconds n \<and> backoff_seconds n \<le> 300"
  by (simp add: backoff_seconds_def)

lemma settle_key [simp]: "ob_dedupe_key (fst (settle_event env now e)) = ob_dedupe_key e"
  by (auto simp: settle_event_def Let_def split: option.splits)

lemma settle_events_frame:
  "map ob_dedupe_key (fst (settle_events env now es table)) = map ob_dedupe_key table
   \<and> fst (snd (settle_events env now es table)) + snd (snd (settle_events env now es table)) = length es"
proof (induction es arbitrary: table)
  case (Cons e es)
  obtain e' ok where s: "settle_event env now e = (e', ok)" by force
  obtain t' x y where r: "settle_events env now es (put_row ob_dedupe_key table e') = (t', x, y)"
    by (metis prod.exhaust)
  from Cons.IH [of "put_row ob_dedupe_key table e'"] s r show ?case by auto
qed simp

lemma settle_events_rows:
  assumes "distinct (map ob_dedupe_key es)" "r \<in> set (fst (settle_events env now es table))"
  shows "r \<in> set table \<and> ob_dedupe_key r \<notin> ob_dedupe_key ` set es
    \<or> (\<exists>e \<in> set es. r = fst (settle_event env now e))"
  using assms
proof (induction es arbitrary: table)
  case (Cons e es)
  obtain e' ok where s: "settle_event env now e = (e', ok)" by force
  have key: "ob_dedupe_key e' = ob_dedupe_key e" using settle_key [of env now e] s by simp
  have "r \<in> set (fst (settle_events env now es (put_row ob_dedupe_key table e')))"
    using Cons.prems(2) s by (simp split: prod.splits)
  moreover have "distinct (map ob_dedupe_key es)" using Cons.prems(1) by simp
  ultimately consider "r \<in> set (put_row ob_dedupe_key table e')" "ob_dedupe_key r \<notin> ob_dedupe_key ` set es"
    | x where "x \<in> set es" "r = fst (settle_event env now x)"
    using Cons.IH [of "put_row ob_dedupe_key table e'"] by blast
  then show ?case
  proof cases
    case 1
    then have "r = e' \<or> r \<in> set table \<and> ob_dedupe_key r \<noteq> ob_dedupe_key e"
      using key by (auto simp: put_row_def)
    then show ?thesis
    proof
      assume "r = e'"
      with s have "r = fst (settle_event env now e)" by simp
      then show ?thesis by auto
    next
      assume "r \<in> set table \<and> ob_dedupe_key r \<noteq> ob_dedupe_key e"
      with 1(2) show ?thesis by simp
    qed
  next
    case 2
    then show ?thesis by auto
  qed
qed simp

lemma ready_events_facts:
  "e \<in> set (ready_events now locked limit table) \<Longrightarrow>
     e \<in> set table \<and> ob_status e = ''pending'' \<and> ob_available_at e \<le> now"
  "distinct (map ob_dedupe_key table) \<Longrightarrow> distinct (map ob_dedupe_key (ready_events now locked limit table))"
proof -
  show "e \<in> set (ready_events now locked limit table) \<Longrightarrow>
     e \<in> set table \<and> ob_status e = ''pending'' \<and> ob_available_at e \<le> now"
    by (auto simp: ready_events_def dest: in_set_takeD)
  assume d: "distinct (map ob_dedupe_key table)"
  let ?f = "filter (\<lambda>e. ob_status e = ''pending'' \<and> ob_available_at e \<le> now \<and> \<not> locked (ob_dedupe_key e)) table"
  have "distinct (map ob_dedupe_key ?f)" using d by (simp add: distinct_map_filter)
  then have "distinct (map ob_dedupe_key (sort_key ob_event_created_at ?f))"
    by (auto simp: distinct_map)
  then show "distinct (map ob_dedupe_key (ready_events now locked limit table))"
    unfolding ready_events_def take_map [symmetric] by (rule distinct_take)
qed

text \<open>
  The outbox delivers at least once and loses nothing: a sweep keeps every event, counts every
  event it found as dispatched or failed, marks an event dispatched only when Arq accepted its job,
  and leaves a failed one pending with its attempt counted, its error kept and a next try between 1
  and 300 seconds away; an event that was not ready is untouched.
\<close>

theorem outbox_sweep:
  assumes "distinct (map ob_dedupe_key table)"
    and "dispatch_pending_outbox env now locked limit table = ((found, dispatched, failed), table')"
  shows "map ob_dedupe_key table' = map ob_dedupe_key table \<and> dispatched + failed = found
    \<and> (\<forall>r \<in> set table'. r \<in> set table \<or> (\<exists>e \<in> set table. ob_dedupe_key r = ob_dedupe_key e
         \<and> ob_status e = ''pending'' \<and> ob_available_at e \<le> now
         \<and> (ob_status r = ''dispatched'' \<and> send_event env e = None \<and> ob_dispatched_at r = Some now
            \<or> ob_status r = ''pending'' \<and> send_event env e \<noteq> None \<and> ob_attempts r = ob_attempts e + 1
              \<and> ob_last_error r \<noteq> None \<and> now + us_second \<le> ob_available_at r
              \<and> ob_available_at r \<le> now + 300 * us_second)))"
proof -
  let ?es = "ready_events now locked limit table"
  have t: "table' = fst (settle_events env now ?es table)"
    "dispatched = fst (snd (settle_events env now ?es table))"
    "failed = snd (snd (settle_events env now ?es table))" "found = length ?es"
    using assms(2) by (auto simp: dispatch_pending_outbox_def Let_def split: prod.splits)
  have "r \<in> set table \<or> (\<exists>e \<in> set table. ob_dedupe_key r = ob_dedupe_key e
      \<and> ob_status e = ''pending'' \<and> ob_available_at e \<le> now
      \<and> (ob_status r = ''dispatched'' \<and> send_event env e = None \<and> ob_dispatched_at r = Some now
         \<or> ob_status r = ''pending'' \<and> send_event env e \<noteq> None \<and> ob_attempts r = ob_attempts e + 1
           \<and> ob_last_error r \<noteq> None \<and> now + us_second \<le> ob_available_at r
           \<and> ob_available_at r \<le> now + 300 * us_second))" if r: "r \<in> set table'" for r
  proof -
    from settle_events_rows [OF ready_events_facts(2) [OF assms(1)] r [unfolded t(1)]]
    consider "r \<in> set table" | e where "e \<in> set ?es" "r = fst (settle_event env now e)" by blast
    then show ?thesis
    proof cases
      case 2
      note e = ready_events_facts(1) [OF 2(1)]
      have "us_second \<le> backoff_seconds (ob_attempts e + 1) * us_second
          \<and> backoff_seconds (ob_attempts e + 1) * us_second \<le> 300 * us_second"
        using backoff_bounds [of "ob_attempts e + 1"] by (simp add: us_second_def)
      then have "ob_dedupe_key r = ob_dedupe_key e \<and>
         (ob_status r = ''dispatched'' \<and> send_event env e = None \<and> ob_dispatched_at r = Some now
         \<or> ob_status r = ''pending'' \<and> send_event env e \<noteq> None \<and> ob_attempts r = ob_attempts e + 1
           \<and> ob_last_error r \<noteq> None \<and> now + us_second \<le> ob_available_at r
           \<and> ob_available_at r \<le> now + 300 * us_second)"
        using e 2(2) by (cases "send_event env e") (simp_all add: settle_event_def Let_def)
      with e show ?thesis by blast
    qed simp
  qed
  then show ?thesis using settle_events_frame [of env now ?es table] t by auto
qed

definition sample_submission :: inbound_submission where
  "sample_submission = \<lparr>sub_idempotency_key = ''k1'', sub_person_id = ''p1'', sub_opportunity_id = ''o1'',
     sub_snapshot_id = ''s1'', sub_status = ''accepted'', sub_founder_evidence = []\<rparr>"

theorem outbox_sweep_witness:
  "map ob_dedupe_key (snd (dispatch_pending_outbox \<lparr>ae_send = (\<lambda>f k. Some ''down''), ae_text = (\<lambda>v. [])\<rparr>
     5 (\<lambda>k. False) 50 [inbound_outbox_event sample_submission ''Acme'' None 1])) = [''inbound-submission:k1'']"
proof -
  let ?t = "[inbound_outbox_event sample_submission ''Acme'' None 1]"
    and ?env = "\<lparr>ae_send = (\<lambda>f k. Some ''down''), ae_text = (\<lambda>v. [])\<rparr>"
  let ?r = "dispatch_pending_outbox ?env 5 (\<lambda>k. False) 50 ?t"
  have d: "distinct (map ob_dedupe_key ?t)" by simp
  have r: "?r = ((fst (fst ?r), fst (snd (fst ?r)), snd (snd (fst ?r))), snd ?r)" by simp
  from outbox_sweep [OF d r] show ?thesis
    by (simp add: inbound_outbox_event_def sample_submission_def Let_def)
qed

end
