(* ===== verification/Outreach_Delivery.thy ===== *)
theory Outreach_Delivery
  imports Schema
begin

text \<open>
  Outreach suppression and provider delivery states, \<^verbatim>\<open>app/outreach_delivery.py\<close>.
\<close>

definition suppressed_consent_states :: "string set" where
  "suppressed_consent_states = {''opted_out'', ''suppressed'', ''do_not_contact''}"

definition delivery_transitions :: "string list dict" where
  "delivery_transitions = [
     (''send_requested'', [''sent'', ''failed'']),
     (''sent'', [''delivered'', ''bounced'', ''replied'', ''opted_out'']),
     (''delivered'', [''replied'', ''opted_out'']),
     (''replied'', [''opted_out''])]"

definition contact_block_reason :: "person \<Rightarrow> string option" where
  "contact_block_reason p =
     (if \<not> str_truthy (p_email p) then Some ''no_verified_recipient_email''
      else if p_consent_state p \<in> suppressed_consent_states
      then Some (''suppressed_consent_state:'' @ p_consent_state p)
      else None)"

definition transition_provider_state ::
  "instant \<Rightarrow> outreach_message \<Rightarrow> string \<Rightarrow> string option \<Rightarrow> string option \<Rightarrow> string + outreach_message" where
  "transition_provider_state now m new_status provider_message_id failure_reason =
     (if new_status \<notin> set (case dget delivery_transitions (om_status m) of Some ts \<Rightarrow> ts | None \<Rightarrow> [])
      then Inl (''Invalid outreach transition: '' @ om_status m @ '' -> '' @ new_status)
      else (let m1 = m\<lparr>om_status := new_status,
                om_provider_message_id := (if str_truthy provider_message_id then provider_message_id
                                           else om_provider_message_id m),
                om_failure_reason := failure_reason\<rparr>
            in Inr (if new_status = ''sent'' then m1\<lparr>om_sent_at := Some now\<rparr> else m1)))"

section \<open>The delivery machine\<close>

datatype delivery = Send_Requested | Sent | Delivered | Bounced | Replied | Opted_Out | Failed

fun delivery_key :: "delivery \<Rightarrow> string" where
  "delivery_key Send_Requested = ''send_requested''"
| "delivery_key Sent = ''sent''"
| "delivery_key Delivered = ''delivered''"
| "delivery_key Bounced = ''bounced''"
| "delivery_key Replied = ''replied''"
| "delivery_key Opted_Out = ''opted_out''"
| "delivery_key Failed = ''failed''"

inductive delivers :: "delivery \<Rightarrow> delivery \<Rightarrow> bool" where
  "delivers Send_Requested Sent"
| "delivers Send_Requested Failed"
| "delivers Sent Delivered"
| "delivers Sent Bounced"
| "x \<in> {Sent, Delivered} \<Longrightarrow> delivers x Replied"
| "x \<in> {Sent, Delivered, Replied} \<Longrightarrow> delivers x Opted_Out"

inductive_simps delivers_simps: "delivers x y"

text \<open>The events still to come, as a linear order of the states: every step goes down.\<close>

primrec delivery_rank :: "delivery \<Rightarrow> nat" where
  "delivery_rank Send_Requested = 6"
| "delivery_rank Sent = 5"
| "delivery_rank Delivered = 4"
| "delivery_rank Replied = 3"
| "delivery_rank Bounced = 2"
| "delivery_rank Opted_Out = 1"
| "delivery_rank Failed = 0"

instantiation delivery :: linorder
begin

definition less_eq_delivery :: "delivery \<Rightarrow> delivery \<Rightarrow> bool" where
  "less_eq_delivery x y = (delivery_rank x \<le> delivery_rank y)"

definition less_delivery :: "delivery \<Rightarrow> delivery \<Rightarrow> bool" where
  "less_delivery x y = (delivery_rank x < delivery_rank y)"

instance
proof
  fix x y :: delivery
  show "x \<le> y \<Longrightarrow> y \<le> x \<Longrightarrow> x = y"
    by (cases x; cases y) (simp_all add: less_eq_delivery_def)
qed (auto simp: less_eq_delivery_def less_delivery_def)

end

lemma delivers_decreases: "delivers x y \<Longrightarrow> y < x"
  by (induction rule: delivers.induct) (auto simp: less_delivery_def)

lemma delivery_table:
  "new \<in> set (case dget delivery_transitions old of Some ts \<Rightarrow> ts | None \<Rightarrow> [])
   \<longleftrightarrow> (\<exists>x y. old = delivery_key x \<and> new = delivery_key y \<and> delivers x y)"
proof
  assume "new \<in> set (case dget delivery_transitions old of Some ts \<Rightarrow> ts | None \<Rightarrow> [])"
  then consider "old = ''send_requested''" "new \<in> {''sent'', ''failed''}"
    | "old = ''sent''" "new \<in> {''delivered'', ''bounced'', ''replied'', ''opted_out''}"
    | "old = ''delivered''" "new \<in> {''replied'', ''opted_out''}" | "old = ''replied''" "new = ''opted_out''"
    by (auto simp: delivery_transitions_def split: if_splits)
  then show "\<exists>x y. old = delivery_key x \<and> new = delivery_key y \<and> delivers x y"
  proof cases
    case 1
    then show ?thesis
      using delivers.intros(1,2) delivery_key.simps(1,2,7) by (metis empty_iff insert_iff)
  next
    case 2
    then show ?thesis
      using delivers.intros(3,4) delivers.intros(5,6) [of Sent] delivery_key.simps(2-6)
      by (metis empty_iff insert_iff)
  next
    case 3
    then show ?thesis
      using delivers.intros(5,6) [of Delivered] delivery_key.simps(3,5,6) by (metis empty_iff insert_iff)
  next
    case 4
    then show ?thesis
      using delivers.intros(6) [of Replied] delivery_key.simps(5,6) by (metis insert_iff)
  qed
next
  assume "\<exists>x y. old = delivery_key x \<and> new = delivery_key y \<and> delivers x y"
  then show "new \<in> set (case dget delivery_transitions old of Some ts \<Rightarrow> ts | None \<Rightarrow> [])"
    by (auto simp: delivers_simps delivery_transitions_def)
qed

text \<open>
  Delivery states move only on provider events that can follow: a message changes status exactly
  along the delivery machine, which never goes back, keeps its provider id unless a new one is given,
  and is stamped when it is sent.
\<close>

theorem provider_events_follow_machine:
  "case transition_provider_state now m new_status pid why of
     Inl _ \<Rightarrow> \<not> (\<exists>x y. om_status m = delivery_key x \<and> new_status = delivery_key y \<and> delivers x y)
   | Inr m' \<Rightarrow> (\<exists>x y. om_status m = delivery_key x \<and> new_status = delivery_key y \<and> delivers x y \<and> y < x)
       \<and> om_status m' = new_status \<and> om_failure_reason m' = why
       \<and> om_provider_message_id m' \<in> {pid, om_provider_message_id m}
       \<and> om_sent_at m' = (if new_status = ''sent'' then Some now else om_sent_at m)"
proof (cases "new_status \<in> set (case dget delivery_transitions (om_status m) of Some ts \<Rightarrow> ts | None \<Rightarrow> [])")
  case True
  then have "\<exists>x y. om_status m = delivery_key x \<and> new_status = delivery_key y \<and> delivers x y \<and> y < x"
    using delivers_decreases unfolding delivery_table by blast
  with True show ?thesis by (simp add: transition_provider_state_def Let_def)
next
  case False
  then have "\<not> (\<exists>x y. om_status m = delivery_key x \<and> new_status = delivery_key y \<and> delivers x y)"
    unfolding delivery_table .
  with False show ?thesis by (simp add: transition_provider_state_def)
qed

end
