(* ===== verification/Privacy_Policy.thy ===== *)
theory Privacy_Policy
  imports Schema
begin

text \<open>
  The gates before data reaches an external model: the purpose gate over a person's privacy fields
  and the redaction of contact data (\<^verbatim>\<open>app/privacy.py\<close>), and the source-use policy of a snapshot
  (\<^verbatim>\<open>app/source_policy.py\<close>). A pattern is modelled by its match function: how many characters it
  takes from a position, given the character before it; word characters are the ASCII ones.
\<close>

section \<open>The purpose gate\<close>

definition privacy_contract_version :: string where
  "privacy_contract_version = ''privacy-ai-v1''"

definition blocking_consent_states :: "string set" where
  "blocking_consent_states = {''pending'', ''unknown'', ''opted_out'', ''suppressed'', ''do_not_contact''}"

record ai_use_decision =
  ai_allowed :: bool
  ai_purpose :: string
  ai_reason :: string
  ai_contract_version :: string

definition ai_decision :: "bool \<Rightarrow> string \<Rightarrow> string \<Rightarrow> ai_use_decision" where
  "ai_decision allowed purpose reason =
     \<lparr>ai_allowed = allowed, ai_purpose = purpose, ai_reason = reason,
      ai_contract_version = privacy_contract_version\<rparr>"

text \<open>\<open>isinstance(x, int) and x > 0\<close>; a \<open>bool\<close> is an \<open>int\<close>.\<close>

fun positive_int :: "pyval \<Rightarrow> bool" where
  "positive_int (PInt n) = (0 < n)"
| "positive_int (PBool b) = b"
| "positive_int _ = False"

fun purpose_granted :: "pyval \<Rightarrow> string \<Rightarrow> bool" where
  "purpose_granted (PDict d) purpose = (dget d purpose = Some (PStr ''granted''))"
| "purpose_granted _ purpose = False"

definition consent_of :: "person \<Rightarrow> string" where
  "consent_of p = (if p_consent_state p = [] then ''pending'' else p_consent_state p)"

definition external_ai_use_decision :: "person \<Rightarrow> string \<Rightarrow> ai_use_decision" where
  "external_ai_use_decision p purpose =
     (if consent_of p \<in> blocking_consent_states
      then ai_decision False purpose (''consent_state:'' @ consent_of p)
      else if \<not> str_truthy (p_legal_basis p)
      then ai_decision False purpose ''privacy_legal_basis_missing''
      else if \<not> str_truthy (p_notice_version p)
      then ai_decision False purpose ''privacy_notice_version_missing''
      else if \<not> purpose_granted (p_purposes p) purpose
      then ai_decision False purpose (''purpose_not_granted:'' @ purpose)
      else if \<not> str_truthy (p_provider_policy p)
      then ai_decision False purpose ''provider_policy_version_missing''
      else if \<not> positive_int (p_retention_days p)
      then ai_decision False purpose ''retention_policy_missing''
      else if \<not> str_truthy (p_residency p)
      then ai_decision False purpose ''residency_policy_missing''
      else ai_decision True purpose ''policy_granted'')"

section \<open>Redaction\<close>

definition is_alpha :: "char \<Rightarrow> bool" where
  "is_alpha c = (let n = char_code c in (65 \<le> n \<and> n \<le> 90) \<or> (97 \<le> n \<and> n \<le> 122))"

definition is_word :: "char \<Rightarrow> bool" where
  "is_word c = (is_alpha c \<or> is_digit c \<or> c = CHR ''_'')"

definition word_at :: "char option \<Rightarrow> bool" where
  "word_at c = (case c of None \<Rightarrow> False | Some x \<Rightarrow> is_word x)"

definition first_char :: "string \<Rightarrow> char option" where
  "first_char s = (case s of [] \<Rightarrow> None | c # _ \<Rightarrow> Some c)"

text \<open>The domain part: the last dot that is followed by two or more letters and a word boundary.\<close>

definition domain_ends :: "string \<Rightarrow> nat \<Rightarrow> nat option" where
  "domain_ends s m =
     (let letters = takeWhile is_alpha (drop (m + 1) s); n = m + 1 + length letters
      in if m < length s \<and> s ! m = CHR ''.'' \<and> 2 \<le> length letters \<and> \<not> word_at (first_char (drop n s))
         then Some n else None)"

fun longest_domain :: "string \<Rightarrow> nat \<Rightarrow> nat option" where
  "longest_domain s 0 = None"
| "longest_domain s (Suc m) = (case domain_ends s (Suc m) of Some n \<Rightarrow> Some n | None \<Rightarrow> longest_domain s m)"

text \<open>\<^verbatim>\<open>\b[\w.+-]+@[\w.-]+\.[A-Za-z]{2,}\b\<close>\<close>

definition email_match :: "char option \<Rightarrow> string \<Rightarrow> nat option" where
  "email_match prev s =
     (let local = takeWhile (\<lambda>c. is_word c \<or> c \<in> {CHR ''.'', CHR ''+'', CHR ''-''}) s;
          rest = drop (length local) s
      in if local \<noteq> [] \<and> word_at prev \<noteq> word_at (first_char s) \<and> first_char rest = Some CHR ''@''
         then (let dom = takeWhile (\<lambda>c. is_word c \<or> c \<in> {CHR ''.'', CHR ''-''}) (tl rest)
               in map_option (\<lambda>n. length local + 1 + n) (longest_domain (tl rest) (length dom)))
         else None)"

text \<open>The longest run of phone characters that ends in a digit before a word boundary.\<close>

fun longest_phone :: "string \<Rightarrow> nat \<Rightarrow> nat option" where
  "longest_phone s 0 = None"
| "longest_phone s (Suc n) =
     (if 8 \<le> Suc n \<and> is_digit (s ! n) \<and> \<not> word_at (first_char (drop (Suc n) s)) then Some (Suc n)
      else longest_phone s n)"

definition phone_char :: "char \<Rightarrow> bool" where
  "phone_char c = (is_digit c \<or> c \<in> {CHR '' '', CHR ''('', CHR '')'', CHR ''-''})"

text \<open>\<^verbatim>\<open>(?<!\w)(?:\+?\d[\d ()-]{7,}\d)(?!\w)\<close>\<close>

definition phone_match :: "char option \<Rightarrow> string \<Rightarrow> nat option" where
  "phone_match prev s =
     (let plus = (if first_char s = Some CHR ''+'' then 1 else 0); t = drop plus s
      in if \<not> word_at prev \<and> (case t of [] \<Rightarrow> False | c # _ \<Rightarrow> is_digit c)
         then map_option (\<lambda>n. plus + 1 + n) (longest_phone (tl t) (length (takeWhile phone_char (tl t))))
         else None)"

text \<open>\<open>pattern.sub(rep, s)\<close> for a pattern that never matches the empty string.\<close>

function sub_all :: "(char option \<Rightarrow> string \<Rightarrow> nat option) \<Rightarrow> string \<Rightarrow> char option \<Rightarrow> string \<Rightarrow> string" where
  "sub_all m rep prev s =
     (if s = [] then []
      else (case m prev s of
              None \<Rightarrow> hd s # sub_all m rep (Some (hd s)) (tl s)
            | Some n \<Rightarrow> rep @ sub_all m rep (Some (last (take (max 1 n) s))) (drop (max 1 n) s)))"
  by pat_completeness auto
termination
  by (relation "measure (\<lambda>(m, rep, prev, s). length s)") auto

declare sub_all.simps [simp del]

definition redact_direct_identifiers :: "string \<Rightarrow> string" where
  "redact_direct_identifiers s =
     sub_all phone_match ''[REDACTED_PHONE]'' None (sub_all email_match ''[REDACTED_EMAIL]'' None s)"

lemma sub_all_no_match:
  "(\<And>prev t. suffix t s \<Longrightarrow> m prev t = None) \<Longrightarrow> sub_all m rep prev s = s"
proof (induction s arbitrary: prev)
  case (Cons c s)
  then have "sub_all m rep (Some c) s = s" by (meson suffix_ConsI)
  then show ?case using Cons.prems [of "c # s" prev] by (subst sub_all.simps) simp
qed (simp add: sub_all.simps)

lemma email_needs_at: "CHR ''@'' \<notin> set s \<Longrightarrow> sub_all email_match rep prev s = s"
proof (rule sub_all_no_match)
  fix prev t assume s: "CHR ''@'' \<notin> set s" "suffix t s"
  have "first_char r = Some c \<Longrightarrow> c \<in> set r" for r c by (auto simp: first_char_def split: list.splits)
  then have "first_char (drop n t) \<noteq> Some CHR ''@''" for n
    using s set_mono_suffix in_set_dropD by (metis subsetD)
  then show "email_match prev t = None" by (simp add: email_match_def Let_def)
qed

section \<open>The source-use policy\<close>

definition source_policy_version :: string where
  "source_policy_version = ''source-use-v1''"

definition build_source_use_policy :: "string \<Rightarrow> pyval dict option \<Rightarrow> pyval dict" where
  "build_source_use_policy source_type license =
     (let policy0 = [(''version'', PStr source_policy_version), (''source_type'', PStr source_type),
            (''status'', PStr ''unknown''), (''collection'', PStr ''review''),
            (''retention'', PStr ''review''), (''display'', PStr ''denied''),
            (''model_use'', PStr ''denied''), (''contact'', PStr ''denied''),
            (''export'', PStr ''denied'')];
          policy1 = (if source_type \<in> {''inbound_deck'', ''outreach''}
            then dupdate policy0 [(''status'', PStr ''allowed''), (''collection'', PStr ''allowed''),
              (''retention'', PStr ''allowed''), (''display'', PStr ''allowed''),
              (''model_use'', PStr ''allowed''),
              (''contact'', PStr (if source_type = ''outreach'' then ''allowed'' else ''denied''))]
            else policy0);
          policy2 = (case license of
              Some l \<Rightarrow> if dget l ''model_use'' = Some (PStr ''allowed'')
                then dupdate policy1 [(''status'', PStr ''allowed''), (''collection'', PStr ''allowed''),
                  (''retention'', PStr ''allowed''), (''model_use'', PStr ''allowed'')]
                else policy1
            | None \<Rightarrow> policy1)
      in (case license of
            Some l \<Rightarrow> if l \<noteq> [] then dset policy2 ''license_metadata'' (PDict l) else policy2
          | None \<Rightarrow> policy2))"

fun source_allows_model_use :: "source_snapshot \<Rightarrow> bool" where
  "source_allows_model_use s =
     (case sn_use_policy s of
        PDict policy \<Rightarrow> dget policy ''model_use'' = Some (PStr ''allowed'')
      | _ \<Rightarrow> False)"

section \<open>Properties\<close>

text \<open>
  The conditions of the purpose gate in the order they are checked, each with the reason it gives
  when it fails.
\<close>

definition privacy_conditions :: "person \<Rightarrow> string \<Rightarrow> (bool \<times> string) list" where
  "privacy_conditions p purpose =
     [(consent_of p \<notin> blocking_consent_states, ''consent_state:'' @ consent_of p),
      (str_truthy (p_legal_basis p), ''privacy_legal_basis_missing''),
      (str_truthy (p_notice_version p), ''privacy_notice_version_missing''),
      (purpose_granted (p_purposes p) purpose, ''purpose_not_granted:'' @ purpose),
      (str_truthy (p_provider_policy p), ''provider_policy_version_missing''),
      (positive_int (p_retention_days p), ''retention_policy_missing''),
      (str_truthy (p_residency p), ''residency_policy_missing'')]"

lemma ai_decision_simps [simp]:
  "ai_allowed (ai_decision a p r) = a" "ai_purpose (ai_decision a p r) = p"
  "ai_reason (ai_decision a p r) = r"
  by (simp_all add: ai_decision_def)

text \<open>
  The gate denies by default: an external model may be used exactly when every privacy condition
  holds for that purpose, and otherwise the decision names the first condition that fails. In
  particular, granting one purpose never opens another.
\<close>

theorem external_ai_use_denies_by_default:
  "(ai_allowed (external_ai_use_decision p purpose) \<longleftrightarrow> (\<forall>c \<in> set (privacy_conditions p purpose). fst c))
   \<and> ai_reason (external_ai_use_decision p purpose) =
       (case filter (\<lambda>c. \<not> fst c) (privacy_conditions p purpose) of
          [] \<Rightarrow> ''policy_granted'' | c # _ \<Rightarrow> snd c)
   \<and> (ai_allowed (external_ai_use_decision (p\<lparr>p_purposes := PDict [(purpose, PStr ''granted'')]\<rparr>) other)
      \<longrightarrow> other = purpose)"
  by (simp add: external_ai_use_decision_def privacy_conditions_def consent_of_def)

definition consenting_person :: person where
  "consenting_person = \<lparr>p_id = ''p1'', p_stable_id = ''s1'', p_display_name = Some ''Ada'',
     p_email = Some ''a@b.io'', p_handles = None, p_consent_state = ''granted'',
     p_legal_basis = Some ''consent'', p_notice_version = Some ''v1'',
     p_purposes = PDict [(''scoring'', PStr ''granted'')], p_provider_policy = Some ''v1'',
     p_retention_days = PInt 30, p_residency = Some ''eu'', p_avatar_data = None,
     p_avatar_mime_type = None, p_avatar_sha256 = None, p_avatar_source_type = None,
     p_avatar_source_url = None, p_avatar_image_url = None, p_avatar_fetched_at = None,
     p_superseded_by = None, p_canonical = True, p_merged_at = None, p_created_at = None\<rparr>"

theorem external_ai_use_denies_by_default_witness:
  "ai_allowed (external_ai_use_decision consenting_person ''scoring'')
   \<and> \<not> ai_allowed (external_ai_use_decision consenting_person ''outreach'')"
  using external_ai_use_denies_by_default [of consenting_person "''scoring''"]
    external_ai_use_denies_by_default [of consenting_person "''outreach''"]
  by (simp add: privacy_conditions_def consenting_person_def consent_of_def blocking_consent_states_def)

definition licensed :: "pyval dict option \<Rightarrow> bool" where
  "licensed license = (case license of None \<Rightarrow> False | Some l \<Rightarrow> dget l ''model_use'' = Some (PStr ''allowed''))"

text \<open>
  A snapshot stored with a compiled policy may enter a model's input exactly when the founder
  sent it or its license allows model use; nothing else opens with it: display needs a first-party
  source, contact is allowed for outreach only, and export is always denied.
\<close>

theorem source_policy_denies_by_default:
  "(source_allows_model_use (s\<lparr>sn_use_policy := PDict (build_source_use_policy kind license)\<rparr>)
     \<longleftrightarrow> kind \<in> {''inbound_deck'', ''outreach''} \<or> licensed license)
   \<and> (dget (build_source_use_policy kind license) ''display'' = Some (PStr ''allowed'')
     \<longleftrightarrow> kind \<in> {''inbound_deck'', ''outreach''})
   \<and> (dget (build_source_use_policy kind license) ''contact'' = Some (PStr ''allowed'')
     \<longleftrightarrow> kind = ''outreach'')
   \<and> dget (build_source_use_policy kind license) ''export'' = Some (PStr ''denied'')"
  by (cases license) (auto simp: build_source_use_policy_def Let_def dget_dupdate licensed_def)

end
