(* ===== verification/Weights.thy ===== *)
theory Weights
  imports Py_Prelude
begin

text \<open>
  Weight dicts as the scorers normalise them: negative weights count as zero and the rest are divided
  by their sum, or by one when there is none.
\<close>

definition normalized_weights :: "real dict \<Rightarrow> real dict" where
  "normalized_weights raw =
     (let s = sum_real (map (\<lambda>(k, x). max 0 x) raw);
          total = (if s = 0 then 1 else s)
      in map (\<lambda>(k, x). (k, max 0 x / total)) raw)"

definition weight_of :: "real dict \<Rightarrow> string \<Rightarrow> real" where
  "weight_of ws k = (case dget ws k of Some x \<Rightarrow> x | None \<Rightarrow> 0)"

lemma distinct_dupdate: "distinct (map fst d) \<Longrightarrow> distinct (map fst (dupdate d e))"
  unfolding dupdate_def by (induction e arbitrary: d) (auto intro: distinct_keys_dset)

lemma weight_of_Nil [simp]: "weight_of [] k = 0"
  by (simp add: weight_of_def)

lemma weight_of_Cons [simp]: "weight_of ((k', x) # ws) k = (if k = k' then x else weight_of ws k)"
  by (simp add: weight_of_def)

lemma weight_of_nonneg: "(\<And>k x. (k, x) \<in> set ws \<Longrightarrow> 0 \<le> x) \<Longrightarrow> 0 \<le> weight_of ws k"
  by (auto simp: weight_of_def split: option.splits dest: dget_SomeD)

lemma weight_of_sum:
  assumes "finite K" and "\<And>k x. (k, x) \<in> set ws \<Longrightarrow> 0 \<le> x"
  shows "(\<Sum>k\<in>K. weight_of ws k) \<le> sum_list (map snd ws)"
  using assms
proof (induction ws arbitrary: K)
  case (Cons kx ws)
  obtain k0 x where [simp]: "kx = (k0, x)" by force
  have x: "0 \<le> x" using Cons.prems(2) [of k0 x] by simp
  have ih: "(\<Sum>k\<in>K - {k0}. weight_of ws k) \<le> sum_list (map snd ws)"
    using Cons by (meson finite_Diff list.set_intros(2))
  have same: "(\<Sum>k\<in>K - {k0}. weight_of (kx # ws) k) = (\<Sum>k\<in>K - {k0}. weight_of ws k)"
    by (intro sum.cong) auto
  show ?case
  proof (cases "k0 \<in> K")
    case True
    then have "(\<Sum>k\<in>K. weight_of (kx # ws) k) = x + (\<Sum>k\<in>K - {k0}. weight_of (kx # ws) k)"
      using Cons.prems(1) by (simp add: sum.remove)
    then show ?thesis using ih same by simp
  next
    case False
    then have "(\<Sum>k\<in>K. weight_of (kx # ws) k) = (\<Sum>k\<in>K - {k0}. weight_of (kx # ws) k)" by simp
    then show ?thesis using ih same x by simp
  qed
qed simp

lemma sum_list_over: "(\<Sum>x\<leftarrow>xs. f x / c) = (\<Sum>x\<leftarrow>xs. f x) / (c :: real)"
  by (induction xs) (simp_all add: add_divide_distrib)

lemma normalized_nonneg: "(k, x) \<in> set (normalized_weights raw) \<Longrightarrow> 0 \<le> x"
  by (auto simp: normalized_weights_def Let_def intro!: divide_nonneg_nonneg sum_real_nonneg)

lemma normalized_total: "sum_list (map snd (normalized_weights raw)) \<le> 1"
proof -
  define s where "s = sum_real (map (\<lambda>(k, x). max 0 x) raw)"
  have "map snd (normalized_weights raw) = map (\<lambda>(k, x). max 0 x / (if s = 0 then 1 else s)) raw"
    by (auto simp: normalized_weights_def Let_def s_def)
  then have "sum_list (map snd (normalized_weights raw)) = s / (if s = 0 then 1 else s)"
    by (simp add: s_def sum_real_sum_list case_prod_unfold sum_list_over)
  then show ?thesis by simp
qed

lemma normalized_weight_nonneg [simp]: "0 \<le> weight_of (normalized_weights raw) k"
  by (rule weight_of_nonneg) (rule normalized_nonneg)

text \<open>A weighted mean over distinct keys stays below the largest value.\<close>

lemma normalized_sum:
  "distinct ks \<Longrightarrow> (\<Sum>k\<leftarrow>ks. weight_of (normalized_weights raw) k) \<le> 1"
  using weight_of_sum [of "set ks" "normalized_weights raw"] normalized_nonneg normalized_total [of raw]
  by (fastforce simp: sum_list_distinct_conv_sum_set)

lemma weighted_mean_bounds:
  assumes "distinct (map fst kvs)" "\<And>k x. (k, x) \<in> set kvs \<Longrightarrow> 0 \<le> x \<and> x \<le> b" "0 \<le> b"
  shows "0 \<le> (\<Sum>(k, x)\<leftarrow>kvs. weight_of (normalized_weights raw) k * x)
    \<and> (\<Sum>(k, x)\<leftarrow>kvs. weight_of (normalized_weights raw) k * x) \<le> b"
proof -
  let ?w = "weight_of (normalized_weights raw)"
  have "0 \<le> (\<Sum>(k, x)\<leftarrow>kvs. ?w k * x)"
    using assms(2) by (induction kvs) (auto intro!: add_nonneg_nonneg mult_nonneg_nonneg)
  moreover have "(\<Sum>(k, x)\<leftarrow>kvs. ?w k * x) \<le> b * (\<Sum>k\<leftarrow>map fst kvs. ?w k)"
    using assms(2)
  proof (induction kvs)
    case (Cons kx kvs)
    obtain k x where [simp]: "kx = (k, x)" by force
    have "?w k * x \<le> b * ?w k"
      using Cons.prems [of k x] by (simp add: mult.commute mult_right_mono)
    moreover have "(\<Sum>(k, x)\<leftarrow>kvs. ?w k * x) \<le> b * (\<Sum>k\<leftarrow>map fst kvs. ?w k)"
      using Cons by (meson list.set_intros(2))
    ultimately show ?case by (simp add: distrib_left)
  qed simp
  moreover have "b * (\<Sum>k\<leftarrow>map fst kvs. ?w k) \<le> b * 1"
    using assms(1,3) by (intro mult_left_mono normalized_sum)
  ultimately show ?thesis by linarith
qed

section \<open>Averages over what is known\<close>

definition weighted_average :: "(real \<times> real) list \<Rightarrow> real" where
  "weighted_average ps = (if sum_real (map fst ps) \<noteq> 0
     then sum_real (map (\<lambda>(w, x). x * w) ps) / sum_real (map fst ps) else 0)"

lemma weighted_mean:
  assumes "\<And>w x. (w, x) \<in> set ps \<Longrightarrow> 0 \<le> w \<and> lo \<le> x \<and> x \<le> hi"
  shows "lo * sum_real (map fst ps) \<le> sum_real (map (\<lambda>(w, x). x * w) ps)
    \<and> sum_real (map (\<lambda>(w, x). x * w) ps) \<le> (hi :: real) * sum_real (map fst ps)"
  using assms
proof (induction ps)
  case (Cons p ps)
  obtain w x where p: "p = (w, x)" by force
  with Cons.prems [of w x] have "lo * w \<le> x * w" "x * w \<le> hi * w" by (auto intro: mult_right_mono)
  moreover have "lo * sum_real (map fst ps) \<le> sum_real (map (\<lambda>(w, x). x * w) ps)
      \<and> sum_real (map (\<lambda>(w, x). x * w) ps) \<le> hi * sum_real (map fst ps)"
    using Cons by (meson list.set_intros(2))
  ultimately show ?case by (simp add: p distrib_left)
qed simp

lemma weighted_average_between:
  assumes "ps \<noteq> []" "\<And>x v. (x, v) \<in> set ps \<Longrightarrow> 0 < x \<and> lo \<le> v \<and> v \<le> hi"
  shows "lo \<le> weighted_average ps \<and> weighted_average ps \<le> hi"
proof -
  obtain q qs where q: "ps = q # qs" using assms(1) by (cases ps) auto
  have "0 \<le> sum_real (map fst qs)" using assms(2) q by (intro sum_real_nonneg) force
  moreover have "0 < fst q" using assms(2) [of "fst q" "snd q"] q by simp
  ultimately have pos: "0 < sum_real (map fst ps)" using q by simp
  have "lo * sum_real (map fst ps) \<le> sum_real (map (\<lambda>(w, x). x * w) ps)
      \<and> sum_real (map (\<lambda>(w, x). x * w) ps) \<le> hi * sum_real (map fst ps)"
    by (rule weighted_mean) (use assms(2) in force)
  with pos show ?thesis by (simp add: weighted_average_def pos_le_divide_eq pos_divide_le_eq)
qed

end
