(* ===== verification/Job_Ledger.thy ===== *)
theory Job_Ledger
  imports Schema
begin

text \<open>
  The durable job ledger of \<^verbatim>\<open>app/job_ledger.py\<close>. The ledger is the table of job rows;
  an operation returns the row, when there is one, and the table. \<open>uuid.UUID(text)\<close> takes the
  usual spellings of a UUID and gives its canonical text.
\<close>

section \<open>Identifiers\<close>

definition is_hex :: "char \<Rightarrow> bool" where
  "is_hex c = (is_digit c \<or> (let n = char_code c in 97 \<le> n \<and> n \<le> 102))"

definition strip_braces :: "string \<Rightarrow> string" where
  "strip_braces s = (let b = (\<lambda>c. c = CHR 0x7B \<or> c = CHR 0x7D) in rev (dropWhile b (rev (dropWhile b s))))"

definition parse_uuid :: "string \<Rightarrow> uuid option" where
  "parse_uuid text =
     (let h = lower (filter (\<lambda>c. c \<noteq> CHR ''-'')
            (strip_braces (replace_str ''uuid:'' [] (replace_str ''urn:'' [] text))))
      in if length h = 32 \<and> list_all is_hex h
         then Some (take 8 h @ ''-'' @ take 4 (drop 8 h) @ ''-'' @ take 4 (drop 12 h) @ ''-''
                    @ take 4 (drop 16 h) @ ''-'' @ drop 20 h)
         else None)"

section \<open>Operations\<close>

definition create_job :: "uuid \<Rightarrow> job_run list \<Rightarrow> string \<Rightarrow> job_run \<times> job_run list" where
  "create_job job_id table job_type =
     (let job = \<lparr>j_id = job_id, j_type = job_type, j_status = ''queued'', j_phase = ''queued'',
           j_attempt = 0, j_progress = 0, j_last_error = None, j_result = None,
           j_cancel_requested = False, j_started_at = None, j_finished_at = None\<rparr>
      in (job, table @ [job]))"

record job_update =
  ju_status :: string
  ju_phase :: string
  ju_attempt :: "int option"
  ju_progress :: "real option"
  ju_last_error :: "string option"
  ju_clear_error :: bool
  ju_result :: "pyval dict option"

definition apply_update :: "instant \<Rightarrow> job_update \<Rightarrow> job_run \<Rightarrow> job_run" where
  "apply_update now u job0 =
     (let job1 = job0\<lparr>j_status := ju_status u, j_phase := ju_phase u\<rparr>;
          job2 = (case ju_attempt u of Some a \<Rightarrow> job1\<lparr>j_attempt := max 0 a\<rparr> | None \<Rightarrow> job1);
          job3 = (case ju_progress u of Some p \<Rightarrow> job2\<lparr>j_progress := max 0 (min 1 p)\<rparr> | None \<Rightarrow> job2);
          job4 = (if ju_clear_error u then job3\<lparr>j_last_error := None\<rparr>
                  else (case ju_last_error u of Some e \<Rightarrow> job3\<lparr>j_last_error := Some e\<rparr> | None \<Rightarrow> job3));
          job5 = (case ju_result u of Some r \<Rightarrow> job4\<lparr>j_result := Some r\<rparr> | None \<Rightarrow> job4);
          job6 = (if ju_status u = ''running'' \<and> j_started_at job5 = None
                  then job5\<lparr>j_started_at := Some now\<rparr> else job5)
      in if ju_status u \<in> {''succeeded'', ''failed'', ''cancelled''}
         then (let job7 = job6\<lparr>j_finished_at := Some now\<rparr>
               in if ju_status u = ''succeeded'' then job7\<lparr>j_progress := 1\<rparr> else job7)
         else job6)"

definition update_job :: "instant \<Rightarrow> job_run list \<Rightarrow> string \<Rightarrow> job_update \<Rightarrow> job_run option \<times> job_run list" where
  "update_job now table job_id u =
     (case parse_uuid job_id of
        None \<Rightarrow> (None, table)
      | Some i \<Rightarrow>
          (case get_row j_id table i of
             None \<Rightarrow> (None, table)
           | Some job \<Rightarrow> (let job' = apply_update now u job in (Some job', put_row j_id table job'))))"

definition start_job :: "instant \<Rightarrow> job_run list \<Rightarrow> string \<Rightarrow> string \<Rightarrow> job_run option \<times> job_run list" where
  "start_job now table job_id phase =
     (case parse_uuid job_id of
        None \<Rightarrow> (None, table)
      | Some i \<Rightarrow>
          (case get_row j_id table i of
             None \<Rightarrow> (None, table)
           | Some job \<Rightarrow>
               (if j_status job \<in> {''succeeded'', ''cancelled''} then (Some job, table)
                else (let job' = apply_update now \<lparr>ju_status = ''running'', ju_phase = phase,
                            ju_attempt = Some (max 1 (j_attempt job + 1)), ju_progress = None,
                            ju_last_error = None, ju_clear_error = True, ju_result = None\<rparr> job
                      in (Some job', put_row j_id table job')))))"

section \<open>Properties\<close>

text \<open>What the ledger promises of a row.\<close>

definition job_ok :: "job_run \<Rightarrow> bool" where
  "job_ok j = (0 \<le> j_attempt j \<and> 0 \<le> j_progress j \<and> j_progress j \<le> 1
     \<and> (j_status j = ''succeeded'' \<longrightarrow> j_progress j = 1 \<and> j_finished_at j \<noteq> None)
     \<and> (j_status j = ''running'' \<longrightarrow> j_started_at j \<noteq> None))"

definition ledger_ok :: "job_run list \<Rightarrow> bool" where
  "ledger_ok table = list_all job_ok table"

lemma apply_update_ok: "job_ok j \<Longrightarrow> job_ok (apply_update now u j)"
  by (auto simp: job_ok_def apply_update_def Let_def split: option.splits)

lemma apply_update_id [simp]: "j_id (apply_update now u j) = j_id j"
  by (auto simp: apply_update_def Let_def split: option.splits)

lemma ledger_ok_put: "ledger_ok table \<Longrightarrow> job_ok j \<Longrightarrow> ledger_ok (put_row j_id table j)"
  by (auto simp: ledger_ok_def list_all_iff put_row_def)

lemma ledger_ok_get: "ledger_ok table \<Longrightarrow> get_row j_id table i = Some j \<Longrightarrow> job_ok j"
  by (auto simp: ledger_ok_def list_all_iff dest: get_row_key)

lemma update_job_ledger: "ledger_ok table \<Longrightarrow> ledger_ok (snd (update_job now table job_id u))"
  by (auto simp: update_job_def Let_def split: option.splits intro!: ledger_ok_put apply_update_ok dest: ledger_ok_get)

lemma start_job_ledger: "ledger_ok table \<Longrightarrow> ledger_ok (snd (start_job now table job_id phase))"
  by (auto simp: start_job_def Let_def split: option.splits intro!: ledger_ok_put apply_update_ok dest: ledger_ok_get)



end
