(* ===== verification/Job_World.thy ===== *)
theory Job_World
  imports Job_Ledger
begin

text \<open>
  What the background jobs share: the database with its snapshots, job ledger, connector telemetry and
  object store, and the start and the ledger updates of a job.
\<close>

section \<open>State\<close>

record world =
  w_db :: db
  w_snapshots :: "source_snapshot list"
  w_jobs :: "job_run list"
  w_telemetry :: "connector_telemetry list"
  w_objects :: "(string \<times> char list) list"

section \<open>Ledger steps of a job\<close>

definition set_job :: "instant \<Rightarrow> string option \<Rightarrow> job_update \<Rightarrow> world \<Rightarrow> world" where
  "set_job now job_id u w =
     (case job_id of
        None \<Rightarrow> w
      | Some j \<Rightarrow> if j = [] then w else w\<lparr>w_jobs := snd (update_job now (w_jobs w) j u)\<rparr>)"

text \<open>The start of a job: \<open>Inl\<close> a duplicate delivery after a final result, else the attempt.\<close>

definition begin_job :: "instant \<Rightarrow> string option \<Rightarrow> string \<Rightarrow> world \<Rightarrow> (uuid + int) \<times> world" where
  "begin_job now job_id phase w =
     (case job_id of
        None \<Rightarrow> (Inr 1, w)
      | Some j \<Rightarrow>
          if j = [] then (Inr 1, w)
          else (case start_job now (w_jobs w) j phase of
                  (None, jobs) \<Rightarrow> (Inr 1, w\<lparr>w_jobs := jobs\<rparr>)
                | (Some row, jobs) \<Rightarrow>
                    (if j_status row \<in> {''succeeded'', ''cancelled''} then (Inl (j_id row), w\<lparr>w_jobs := jobs\<rparr>)
                     else (Inr (j_attempt row), w\<lparr>w_jobs := jobs\<rparr>))))"

definition failed_update :: "string \<Rightarrow> int \<Rightarrow> string \<Rightarrow> pyval dict \<Rightarrow> job_update" where
  "failed_update phase attempt err res = \<lparr>ju_status = ''failed'', ju_phase = phase, ju_attempt = Some attempt,
     ju_progress = None, ju_last_error = Some err, ju_clear_error = False, ju_result = Some res\<rparr>"

section \<open>Frame and ledger lemmas\<close>

lemma set_job_db [simp]:
  "w_db (set_job now j u w) = w_db w" "w_snapshots (set_job now j u w) = w_snapshots w"
  "w_telemetry (set_job now j u w) = w_telemetry w" "w_objects (set_job now j u w) = w_objects w"
  by (simp_all add: set_job_def split: option.splits)

lemma begin_job_db:
  "w_db (snd (begin_job now j phase w)) = w_db w \<and> w_snapshots (snd (begin_job now j phase w)) = w_snapshots w"
  by (auto simp: begin_job_def split: option.splits prod.splits)

lemma set_job_ledger: "ledger_ok (w_jobs w) \<Longrightarrow> ledger_ok (w_jobs (set_job now j u w))"
  by (auto simp: set_job_def update_job_ledger split: option.splits)

lemma begin_job_ledger: "ledger_ok (w_jobs w) \<Longrightarrow> ledger_ok (w_jobs (snd (begin_job now j phase w)))"
  using start_job_ledger [of "w_jobs w"]
  by (auto simp: begin_job_def split: option.splits prod.splits) (metis snd_conv)+

end
