(* ===== verification/Scoring_Job.thy ===== *)
theory Scoring_Job
  imports Committee Job_World Artifact_Provenance Pipeline_Advance
begin

text \<open>
  The scoring job, \<^verbatim>\<open>app/agents/scoring_job.py\<close>: one person's committee run from the evidence the
  sources allow, behind the purpose gate, with its ledger row and its score snapshot. The session's
  commits are the value the job returns; an exception that leaves the job is \<open>Inl\<close>.
\<close>

section \<open>Environment\<close>

record job_env =
  en_digest :: "pyval \<Rightarrow> string"
  en_new_id :: uuid
  en_proposal_id :: uuid
  en_run_id :: uuid
  en_clock :: instant
  en_latency :: int
  en_codec :: codec
  en_ask :: llm
  en_api_key :: string
  en_model :: string
  en_concurrency :: int
  en_error_text :: "py_error \<Rightarrow> string"

section \<open>The job\<close>

definition model_use_allowed :: "world \<Rightarrow> observation \<Rightarrow> bool" where
  "model_use_allowed w x =
     list_ex (\<lambda>s. sn_id s = ob_snapshot_id x \<and> source_allows_model_use s) (w_snapshots w)"

definition scoring_evidence :: "world \<Rightarrow> uuid \<Rightarrow> observation list" where
  "scoring_evidence w person =
     take 500 (sort_key (\<lambda>x. - ob_observed_at x)
       (filter (\<lambda>x. ob_subject_id x = Some person \<and> model_use_allowed w x) (observations (w_db w))))"

fun verdict_key :: "verdict \<Rightarrow> string" where
  "verdict_key Passed = ''passed''"
| "verdict_key Invalid = ''failed''"
| "verdict_key Unavailable = ''unavailable''"

definition issue_value :: "issue \<Rightarrow> pyval" where
  "issue_value i = PDict [(''severity'', PStr (is_severity i)), (''description'', PStr (is_description i)),
     (''evidence_id'', opt_str (is_evidence_id i))]"

definition strs :: "string list \<Rightarrow> pyval" where
  "strs xs = PList (map PStr xs)"

definition assessment_value :: "agent_assessment \<Rightarrow> pyval" where
  "assessment_value a = PDict [(''dimension'', PStr (aa_dimension a)), (''score'', PFloat (aa_score a)),
     (''confidence'', PFloat (aa_confidence a)), (''evidence'', strs (aa_evidence a)),
     (''counter_evidence'', strs (aa_counter_evidence a)), (''unknowns'', strs (aa_unknowns a)),
     (''recommendation'', PStr (aa_recommendation a)), (''rationale'', PStr (aa_rationale a)),
     (''validation_status'', PStr (verdict_key (aa_status a))), (''validation_errors'', strs (aa_errors a))]"

definition score_components :: "scorecard \<Rightarrow> pyval dict" where
  "score_components sc = [(''founder'', PFloat (sc_composite sc / 100)), (''execution'', PFloat (sc_execution sc)),
     (''technical'', PFloat (sc_technical sc)), (''commercial'', PFloat (sc_commercial sc)),
     (''evidence_confidence'', PFloat (sc_confidence sc)), (''hard_eligible'', PBool (sc_hard_eligible sc)),
     (''validator_status'', PStr (verdict_key (sc_status sc))), (''validation_errors'', strs (sc_errors sc)),
     (''critique'', PList (map issue_value (sc_critique sc))),
     (''agents'', PDict (map (\<lambda>(k, a). (k, assessment_value a)) (sc_agents sc)))]"

definition founder_snapshot :: "job_env \<Rightarrow> uuid \<Rightarrow> uuid list \<Rightarrow> scorecard \<Rightarrow> score_snapshot" where
  "founder_snapshot env person obs_ids sc =
     (let margin = (1 - sc_confidence sc) * 10
      in \<lparr>s_id = en_new_id env, s_subject_id = person, s_subject_type = ''person'',
          s_rubric_version = ''founder-agent-v1'', s_components = score_components sc,
          s_interval = Some [(''composite'', PDict [
            (''low'', PFloat (py_round 2 (max 0 (sc_composite sc - margin)))),
            (''high'', PFloat (py_round 2 (min 100 (sc_composite sc + margin))))])],
          s_evidence_ids = take 50 obs_ids, s_input_fingerprint = None, s_provenance = PNone,
          s_artifact_metadata = build_artifact_metadata (en_run_id env) ''score_snapshot'' ''scoring-job-v2''
            (fingerprint_payload (en_digest env)
               (PDict [(''observation_ids'', strs obs_ids), (''model'', PStr (en_model env))]))
            (default_options\<lparr>ao_rubric_versions := [''founder-agent-v1''],
               ao_prompt_version := Some ''scoring-prompts-v1'', ao_model_version := Some (en_model env),
               ao_parameters := Some [(''concurrency'', PInt (en_concurrency env))],
               ao_latency_ms := Some (en_latency env), ao_validator_status := verdict_key (sc_status sc),
               ao_validator_errors := sc_errors sc,
               ao_compatibility := Some [(''reader'', PStr ''score-snapshot-v1'')]\<rparr>),
          s_created_at = en_clock env\<rparr>)"

definition client_of :: "job_env \<Rightarrow> llm option" where
  "client_of env = (if en_api_key env = [] then None else Some (en_ask env))"

definition finish_error :: "job_env \<Rightarrow> string option \<Rightarrow> int \<Rightarrow> string \<Rightarrow> world
    \<Rightarrow> (py_error + pyval dict) \<times> world" where
  "finish_error env job_id attempt err w =
     (Inr [(''error'', PStr err)],
      set_job (en_clock env) job_id (failed_update ''scoring'' attempt err [(''error'', PStr err)]) w)"

definition score_person :: "job_env \<Rightarrow> person \<Rightarrow> string \<Rightarrow> string option \<Rightarrow> int \<Rightarrow> world
    \<Rightarrow> (py_error + pyval dict) \<times> world" where
  "score_person env p person_id job_id attempt w =
     (let xs = scoring_evidence w (p_id p);
          policy = external_ai_use_decision p ''scoring''
      in if xs = [] then finish_error env job_id attempt ''no_observations'' w
         else if en_api_key env \<noteq> [] \<and> \<not> ai_allowed policy then
           (let res = [(''error'', PStr ''external_ai_blocked''), (''purpose'', PStr (ai_purpose policy)),
                  (''reason'', PStr (ai_reason policy))]
            in (Inr res, set_job (en_clock env) job_id (failed_update ''scoring'' attempt (ai_reason policy) res) w))
         else (case build_evidence_text xs p [] of (text, obs_ids) \<Rightarrow>
           (case score_candidate_run (en_codec env) (client_of env) text [] of
              Inl e \<Rightarrow> (Inl e, set_job (en_clock env) job_id (failed_update ''scoring'' attempt (en_error_text env e)
                  [(''error'', PStr ''scoring_failed'')]) w)
            | Inr sc \<Rightarrow>
                (let res = [(''person_id'', PStr person_id), (''composite'', PFloat (sc_composite sc)),
                       (''confidence'', PFloat (sc_confidence sc)), (''hard_eligible'', PBool (sc_hard_eligible sc)),
                       (''model'', PStr (en_model env))];
                     d = w_db w;
                     w1 = w\<lparr>w_db := d\<lparr>score_snapshots := score_snapshots d
                            @ [founder_snapshot env (p_id p) obs_ids sc]\<rparr>\<rparr>
                 in (Inr res, set_job (en_clock env) job_id \<lparr>ju_status = ''succeeded'', ju_phase = ''complete'',
                       ju_attempt = Some attempt, ju_progress = None, ju_last_error = None,
                       ju_clear_error = True, ju_result = Some res\<rparr> w1)))))"

definition score_candidate_job :: "job_env \<Rightarrow> string \<Rightarrow> string option \<Rightarrow> world
    \<Rightarrow> (py_error + pyval dict) \<times> world" where
  "score_candidate_job env person_id job_id w =
     (case begin_job (en_clock env) job_id ''scoring'' w of
        (Inl row, w1) \<Rightarrow> (Inr [(''person_id'', PStr person_id), (''status'', PStr ''already_terminal''),
            (''job_id'', PStr row)], w1)
      | (Inr attempt, w1) \<Rightarrow>
          (case parse_uuid person_id of
             None \<Rightarrow> finish_error env job_id attempt ''invalid_person_id'' w1
           | Some pid \<Rightarrow>
               (case get_row p_id (persons (w_db w1)) pid of
                  None \<Rightarrow> finish_error env job_id attempt ''person_not_found'' w1
                | Some p \<Rightarrow>
                    if \<not> p_canonical p then finish_error env job_id attempt ''person_not_canonical'' w1
                    else score_person env p person_id job_id attempt w1)))"

section \<open>The model is asked only with consent and from allowed sources\<close>

lemma scoring_needs_consent:
  assumes "parse_uuid person_id = Some pid" and "get_row p_id (persons (w_db w)) pid = Some p"
    and "\<not> ai_allowed (external_ai_use_decision p ''scoring'')"
  shows "score_candidate_job (env\<lparr>en_ask := ask1\<rparr>) person_id job_id w
       = score_candidate_job (env\<lparr>en_ask := ask2\<rparr>) person_id job_id w"
proof -
  have "score_person (env\<lparr>en_ask := ask1\<rparr>) p person_id job_id attempt w1
      = score_person (env\<lparr>en_ask := ask2\<rparr>) p person_id job_id attempt w1" for attempt w1
    using assms(3) by (simp add: score_person_def client_of_def finish_error_def founder_snapshot_def Let_def
        split: prod.split sum.split)
  moreover have "finish_error (env\<lparr>en_ask := ask1\<rparr>) = finish_error (env\<lparr>en_ask := ask2\<rparr>)"
    by (simp add: finish_error_def fun_eq_iff)
  ultimately show ?thesis
    using begin_job_db [of "en_clock env" job_id "''scoring''" w] assms(1,2)
    by (auto simp: score_candidate_job_def split: prod.splits sum.splits)
qed

text \<open>A world without the observations that no source allows a model to see.\<close>

definition visible_only :: "world \<Rightarrow> world" where
  "visible_only w = w\<lparr>w_db := (w_db w)\<lparr>observations := filter (model_use_allowed w) (observations (w_db w))\<rparr>\<rparr>"

lemma model_use_frame [simp]:
  "model_use_allowed (w\<lparr>w_db := d\<rparr>) = model_use_allowed w" "model_use_allowed (w\<lparr>w_jobs := js\<rparr>) = model_use_allowed w"
  "model_use_allowed (w\<lparr>w_db := d, w_jobs := js\<rparr>) = model_use_allowed w"
  by (simp_all add: model_use_allowed_def fun_eq_iff)

lemma evidence_visible: "scoring_evidence (visible_only w) pid = scoring_evidence w pid"
proof -
  have "model_use_allowed (visible_only w) = model_use_allowed w" by (simp add: visible_only_def)
  then show ?thesis by (simp add: scoring_evidence_def visible_only_def conj_commute)
qed

lemma set_job_visible: "set_job now j u (visible_only w) = visible_only (set_job now j u w)"
  by (auto simp: set_job_def visible_only_def split: option.splits)

lemma begin_job_visible:
  "begin_job now j phase (visible_only w) = (fst (begin_job now j phase w), visible_only (snd (begin_job now j phase w)))"
  by (auto simp: begin_job_def visible_only_def split: option.splits prod.splits)

lemma score_person_visible:
  "score_person env p person_id job_id attempt (visible_only w)
   = (fst (score_person env p person_id job_id attempt w), visible_only (snd (score_person env p person_id job_id attempt w)))"
proof -
  have add: "(visible_only w)\<lparr>w_db := (w_db (visible_only w))\<lparr>score_snapshots := score_snapshots (w_db (visible_only w)) @ xs\<rparr>\<rparr>
      = visible_only (w\<lparr>w_db := (w_db w)\<lparr>score_snapshots := score_snapshots (w_db w) @ xs\<rparr>\<rparr>)" for xs
    by (simp add: visible_only_def)
  show ?thesis
    by (simp add: score_person_def finish_error_def evidence_visible set_job_visible add Let_def
        split: prod.split sum.split)
qed

text \<open>
  C38. The committee sees only what the sources allow: removing every observation whose snapshot does
  not allow model use changes neither the result of the job nor what it stores.
\<close>

theorem scoring_sees_allowed_sources_only:
  "score_candidate_job env person_id job_id (visible_only w)
   = (fst (score_candidate_job env person_id job_id w), visible_only (snd (score_candidate_job env person_id job_id w)))"
proof -
  have persons: "persons (w_db (visible_only v)) = persons (w_db v)" for v by (simp add: visible_only_def)
  show ?thesis
    by (simp add: score_candidate_job_def begin_job_visible persons score_person_visible finish_error_def
        set_job_visible split: prod.split sum.split option.split)
qed

section \<open>Effects of the job\<close>

text \<open>What a run may leave in the database: nothing, or one founder score of that person.\<close>

definition scored_effect :: "py_error + pyval dict \<Rightarrow> db \<Rightarrow> db \<Rightarrow> bool" where
  "scored_effect r d d' =
     (case r of
        Inr res \<Rightarrow> if dget res ''composite'' = None then d' = d
          else (\<exists>s pid. d' = d\<lparr>score_snapshots := score_snapshots d @ [s]\<rparr> \<and> s_subject_id s = pid
                 \<and> has_founder_score d' pid)
      | Inl _ \<Rightarrow> d' = d)"

definition job_effect :: "world \<Rightarrow> (py_error + pyval dict) \<times> world \<Rightarrow> bool" where
  "job_effect w out = (ledger_ok (w_jobs (snd out)) \<and> w_snapshots (snd out) = w_snapshots w
     \<and> scored_effect (fst out) (w_db w) (w_db (snd out)))"

lemma founder_snapshot_gate:
  "s_subject_id (founder_snapshot env pid ids sc) = pid"
  "s_subject_type (founder_snapshot env pid ids sc) = ''person''"
  "s_rubric_version (founder_snapshot env pid ids sc) = ''founder-agent-v1''"
  by (simp_all add: founder_snapshot_def Let_def)

lemma finish_error_effect: "ledger_ok (w_jobs w) \<Longrightarrow> job_effect w (finish_error env job_id attempt err w)"
  by (simp add: finish_error_def job_effect_def scored_effect_def set_job_ledger)

lemma kept_effect:
  "ledger_ok (w_jobs w) \<Longrightarrow> dget res ''composite'' = None \<Longrightarrow> job_effect w (Inr res, set_job now j u w)"
  "ledger_ok (w_jobs w) \<Longrightarrow> job_effect w (Inl e, set_job now j u w)"
  by (simp_all add: job_effect_def scored_effect_def set_job_ledger)

lemma added_effect:
  assumes "ledger_ok (w_jobs w)" "dget res ''composite'' \<noteq> None"
  shows "job_effect w (Inr res, set_job now j u (w\<lparr>w_db := (w_db w)\<lparr>score_snapshots :=
    score_snapshots (w_db w) @ [founder_snapshot env pid ids sc]\<rparr>\<rparr>))"
proof -
  have "has_founder_score ((w_db w)\<lparr>score_snapshots := score_snapshots (w_db w) @ [founder_snapshot env pid ids sc]\<rparr>) pid"
    by (simp add: has_founder_score_def founder_snapshot_gate)
  then show ?thesis
    using assms by (auto simp: job_effect_def scored_effect_def set_job_ledger founder_snapshot_gate simp del: not_None_eq)
qed

lemma score_person_effect:
  "ledger_ok (w_jobs w) \<Longrightarrow> job_effect w (score_person env p person_id job_id attempt w)"
  by (simp add: score_person_def Let_def finish_error_effect kept_effect added_effect split: prod.split sum.split)


definition scoring_world :: world where
  "scoring_world = \<lparr>w_db = empty_db\<lparr>persons := [consenting_person\<lparr>p_id := ''00000000-0000-0000-0000-000000000001''\<rparr>]\<rparr>,
     w_snapshots = [], w_jobs = [], w_telemetry = [], w_objects = []\<rparr>"

definition scoring_env0 :: job_env where
  "scoring_env0 = \<lparr>en_digest = (\<lambda>v. []), en_new_id = ''s1'', en_proposal_id = ''dp1'', en_run_id = ''r1'', en_clock = 0, en_latency = 1,
     en_codec = empty_codec, en_ask = (\<lambda>system user. Call_Failed), en_api_key = ''key'', en_model = ''m'',
     en_concurrency = 2, en_error_text = (\<lambda>e. [])\<rparr>"


definition silent_world :: world where
  "silent_world = scoring_world\<lparr>w_db := (w_db scoring_world)\<lparr>persons :=
     [consenting_person\<lparr>p_id := ''00000000-0000-0000-0000-000000000001'', p_purposes := PDict []\<rparr>]\<rparr>\<rparr>"

end
