(* ===== verification/Decision_Proposal.thy ===== *)
theory Decision_Proposal
  imports Schema
begin

text \<open>
  The deterministic decision proposal of \<^verbatim>\<open>app/decision_proposal.py\<close>, built from the opportunity's
  assessments, its claims and the state of its memo.
\<close>

definition decision_proposal_version :: string where
  "decision_proposal_version = ''decision-proposal-v1''"

definition axes :: "string list" where
  "axes = [''Founder'', ''Market'', ''Idea-Market'']"

record proposal_values =
  pv_action :: string
  pv_check_amount :: "real option"
  pv_ownership_target :: "real option"
  pv_conviction :: "string option"
  pv_assessment_ids :: "uuid option dict"
  pv_top_evidence :: "string list"
  pv_top_risks :: "string list"
  pv_open_conditions :: "string list"
  pv_readiness_blockers :: "string list"
  pv_readiness_status :: string
  pv_thesis_version :: "string option"
  pv_rubric_versions :: "string list"
  pv_memo_model_version :: "string option"
  pv_override_reason :: "string option"
  pv_status :: string

definition canonical_axis :: "string \<Rightarrow> string option" where
  "canonical_axis axis = find (\<lambda>item. lower item = lower axis) axes"

definition add_axis :: "assessment dict \<Rightarrow> assessment \<Rightarrow> assessment dict" where
  "add_axis d a = (case canonical_axis (a_axis a) of
     None \<Rightarrow> d | Some k \<Rightarrow> if dget d k = None then dset d k a else d)"

definition by_axis :: "assessment list \<Rightarrow> assessment dict" where
  "by_axis xs = foldl add_axis [] xs"

definition axis_slug :: "string \<Rightarrow> string" where
  "axis_slug axis = replace_char CHR ''-'' ''_'' (lower axis)"

definition readiness_blockers :: "assessment dict \<Rightarrow> string \<Rightarrow> string list" where
  "readiness_blockers d memo_state =
     map (\<lambda>axis. ''missing_'' @ axis_slug axis @ ''_assessment'') (filter (\<lambda>axis. dget d axis = None) axes)
     @ (if memo_state = ''succeeded'' then [] else [''memo_not_validated''])"

definition ratings_of :: "assessment dict \<Rightarrow> string list" where
  "ratings_of d = map (\<lambda>(k, a). lower (a_rating a)) d"

definition proposed_action :: "string list \<Rightarrow> string" where
  "proposed_action ratings =
     (if ''bearish'' \<in> set ratings then ''hold''
      else if length ratings = length axes \<and> list_all (\<lambda>r. r = ''bullish'') ratings then ''invest''
      else ''investigate'')"

definition conviction_of :: "real list \<Rightarrow> string \<Rightarrow> string option" where
  "conviction_of confidences action =
     (let average = mean_or 0 confidences
      in if confidences = [] then None
         else if average \<ge> 75 / 100 \<and> action = ''invest'' then Some ''high''
         else if average \<ge> 55 / 100 then Some ''medium''
         else Some ''low'')"

definition add_unknown :: "string list \<Rightarrow> string \<Rightarrow> string list" where
  "add_unknown risks u = (if u \<in> set risks then risks else risks @ [u])"

definition axis_risks :: "assessment dict \<Rightarrow> string list \<Rightarrow> string \<Rightarrow> string list" where
  "axis_risks d risks axis =
     (case dget d axis of
        None \<Rightarrow> risks
      | Some a \<Rightarrow>
          foldl add_unknown
            (if lower (a_rating a) = ''bearish'' then risks @ [axis @ '' assessment is Bearish''] else risks)
            (a_unknowns a))"

definition top_risks :: "assessment dict \<Rightarrow> string list" where
  "top_risks d = foldl (axis_risks d) [] axes"

record proposal_options =
  po_rubric_versions :: "string list"
  po_action :: "string option"
  po_override_reason :: "string option"
  po_status :: string

definition build_decision_proposal ::
  "assessment list \<Rightarrow> string list \<Rightarrow> string option \<Rightarrow> string \<Rightarrow> string option \<Rightarrow> proposal_options \<Rightarrow> proposal_values" where
  "build_decision_proposal assessments claim_ids thesis_version memo_state memo_version opts =
     (let d = by_axis assessments;
          blockers = readiness_blockers d memo_state;
          action = (case po_action opts of Some a \<Rightarrow> a | None \<Rightarrow> proposed_action (ratings_of d));
          risks = top_risks d
      in \<lparr>pv_action = action, pv_check_amount = None, pv_ownership_target = None,
          pv_conviction = conviction_of (map (\<lambda>(k, a). a_confidence a) d) action,
          pv_assessment_ids = map (\<lambda>axis. (axis_slug axis @ ''_assessment_id'', map_option a_id (dget d axis))) axes,
          pv_top_evidence = take 8 (fromkeys claim_ids), pv_top_risks = take 8 risks,
          pv_open_conditions = take 8 (map (\<lambda>r. ''Resolve: '' @ r) risks),
          pv_readiness_blockers = blockers,
          pv_readiness_status = (if blockers = [] then ''ready'' else ''blocked''),
          pv_thesis_version = thesis_version,
          pv_rubric_versions = fromkeys (po_rubric_versions opts @ [decision_proposal_version]),
          pv_memo_model_version = memo_version, pv_override_reason = po_override_reason opts,
          pv_status = po_status opts\<rparr>)"

definition draft_options :: "string list \<Rightarrow> proposal_options" where
  "draft_options rubrics =
     \<lparr>po_rubric_versions = rubrics, po_action = None, po_override_reason = None, po_status = ''draft''\<rparr>"

section \<open>What the axis table holds\<close>

lemma axes_distinct: "distinct axes" "distinct (map lower axes)"
  by code_simp+

lemma find_key:
  "distinct (map f xs) \<Longrightarrow> find (\<lambda>x. f x = y) xs = Some k \<longleftrightarrow> k \<in> set xs \<and> f k = y"
  by (induction xs) auto

lemma canonical_axis_Some: "canonical_axis s = Some k \<longleftrightarrow> k \<in> set axes \<and> lower k = lower s"
  unfolding canonical_axis_def by (rule find_key) (rule axes_distinct(2))

lemma dget_by_axis:
  assumes "k \<in> set axes"
  shows "dget (by_axis xs) k = find (\<lambda>a. lower (a_axis a) = lower k) xs"
proof -
  have "dget (foldl add_axis d xs) k
      = (case dget d k of Some a \<Rightarrow> Some a | None \<Rightarrow> find (\<lambda>a. lower (a_axis a) = lower k) xs)" for d
  proof (induction xs arbitrary: d)
    case (Cons a xs)
    show ?case
    proof (cases "lower (a_axis a) = lower k")
      case True
      then have "canonical_axis (a_axis a) = Some k" using assms by (simp add: canonical_axis_Some)
      then show ?thesis using Cons True by (simp add: add_axis_def split: option.splits)
    next
      case False
      then have "canonical_axis (a_axis a) \<noteq> Some k" by (auto simp: canonical_axis_Some)
      then have "dget (add_axis d a) k = dget d k"
        by (auto simp: add_axis_def split: option.splits)
      then show ?thesis using Cons False by (simp split: option.splits)
    qed
  qed (simp split: option.splits)
  from this [of "[]"] show ?thesis by (simp add: by_axis_def)
qed

lemma by_axis_keys: "fst ` set (by_axis xs) \<subseteq> set axes \<and> distinct (map fst (by_axis xs))"
proof -
  have "fst ` set d \<subseteq> set axes \<and> distinct (map fst d) \<Longrightarrow>
      fst ` set (foldl add_axis d xs) \<subseteq> set axes \<and> distinct (map fst (foldl add_axis d xs))" for d
  proof (induction xs arbitrary: d)
    case (Cons a xs)
    have "fst ` set (add_axis d a) \<subseteq> set axes \<and> distinct (map fst (add_axis d a))"
      using Cons.prems by (auto simp: add_axis_def keys_dset canonical_axis_Some
          intro: distinct_keys_dset split: option.splits)
    then show ?case using Cons.IH by simp
  qed simp
  from this [of "[]"] show ?thesis by (simp add: by_axis_def)
qed

section \<open>Properties\<close>

text \<open>The assessment that speaks for an axis: the first one of it.\<close>

definition speaks_for :: "assessment list \<Rightarrow> string \<Rightarrow> assessment option" where
  "speaks_for xs axis = find (\<lambda>a. lower (a_axis a) = lower axis) xs"

definition rated :: "assessment list \<Rightarrow> string \<Rightarrow> string \<Rightarrow> bool" where
  "rated xs rating axis = (case speaks_for xs axis of None \<Rightarrow> False | Some a \<Rightarrow> lower (a_rating a) = rating)"

lemma in_by_axis: "(k, a) \<in> set (by_axis xs) \<longleftrightarrow> k \<in> set axes \<and> speaks_for xs k = Some a"
proof -
  have "(k, a) \<in> set (by_axis xs) \<longleftrightarrow> dget (by_axis xs) k = Some a"
    using conjunct2 [OF by_axis_keys [of xs]] by (simp add: dget_def)
  moreover have "dget (by_axis xs) k = Some a \<Longrightarrow> k \<in> set axes"
    using conjunct1 [OF by_axis_keys [of xs]] dget_SomeD [of "by_axis xs" k a] by (auto dest: imageI [where f = fst])
  ultimately show ?thesis using dget_by_axis [of k xs] by (auto simp: speaks_for_def)
qed

lemma all_axes_present:
  "length (by_axis xs) = length axes \<longleftrightarrow> (\<forall>axis \<in> set axes. speaks_for xs axis \<noteq> None)"
proof -
  let ?K = "fst ` set (by_axis xs)"
  have "length (by_axis xs) = card ?K"
    using by_axis_keys [of xs] by (metis distinct_card length_map set_map)
  moreover have "length axes = card (set axes)" using axes_distinct(1) by (simp add: distinct_card)
  moreover have "?K \<subseteq> set axes" using by_axis_keys by blast
  ultimately have "length (by_axis xs) = length axes \<longleftrightarrow> ?K = set axes"
    by (metis List.finite_set card_subset_eq)
  also have "\<dots> \<longleftrightarrow> (\<forall>axis \<in> set axes. speaks_for xs axis \<noteq> None)"
    using in_by_axis [of _ _ xs] by (force simp: image_iff)
  finally show ?thesis .
qed

lemma bearish_rating:
  "''bearish'' \<in> set (ratings_of (by_axis xs)) \<longleftrightarrow> (\<exists>axis \<in> set axes. rated xs ''bearish'' axis)"
proof -
  have "''bearish'' \<in> set (ratings_of (by_axis xs))
      \<longleftrightarrow> (\<exists>k a. (k, a) \<in> set (by_axis xs) \<and> lower (a_rating a) = ''bearish'')"
    by (force simp: ratings_of_def image_iff)
  then show ?thesis by (auto simp: in_by_axis rated_def split: option.splits)
qed

lemma all_bullish:
  "length (ratings_of (by_axis xs)) = length axes \<and> list_all (\<lambda>r. r = ''bullish'') (ratings_of (by_axis xs))
   \<longleftrightarrow> (\<forall>axis \<in> set axes. rated xs ''bullish'' axis)"
proof -
  have "length (ratings_of (by_axis xs)) = length (by_axis xs)" by (simp add: ratings_of_def)
  moreover have "list_all (\<lambda>r. r = ''bullish'') (ratings_of (by_axis xs))
      \<longleftrightarrow> (\<forall>k a. (k, a) \<in> set (by_axis xs) \<longrightarrow> lower (a_rating a) = ''bullish'')"
    by (auto simp: ratings_of_def list_all_iff)
  ultimately show ?thesis
    by (auto simp: in_by_axis all_axes_present rated_def split: option.splits)
qed

lemma ready_iff:
  "readiness_blockers (by_axis xs) memo_state = []
   \<longleftrightarrow> (\<forall>axis \<in> set axes. speaks_for xs axis \<noteq> None) \<and> memo_state = ''succeeded''"
  using dget_by_axis [of _ xs] by (auto simp: readiness_blockers_def filter_empty_conv speaks_for_def)

text \<open>
  A proposal says what its inputs say. It is ready exactly when each of the three axes has an
  assessment and the memo is validated; it proposes to invest exactly when every axis is rated
  bullish, and to hold exactly when one is rated bearish; conviction is high only for an investment.
\<close>

theorem proposal_follows_inputs:
  fixes xs claim_ids thesis memo_state model rubrics
  defines "v \<equiv> build_decision_proposal xs claim_ids thesis memo_state model (draft_options rubrics)"
  shows "(pv_readiness_status v = ''ready''
        \<longleftrightarrow> (\<forall>axis \<in> set axes. speaks_for xs axis \<noteq> None) \<and> memo_state = ''succeeded'')
    \<and> (pv_action v = ''invest'' \<longleftrightarrow> (\<forall>axis \<in> set axes. rated xs ''bullish'' axis))
    \<and> (pv_action v = ''hold'' \<longleftrightarrow> (\<exists>axis \<in> set axes. rated xs ''bearish'' axis))
    \<and> (pv_conviction v = Some ''high'' \<longrightarrow> pv_action v = ''invest'')"
proof -
  have act: "pv_action v = proposed_action (ratings_of (by_axis xs))"
    by (simp add: v_def build_decision_proposal_def draft_options_def Let_def)
  have excl: "\<not> ((\<forall>axis \<in> set axes. rated xs ''bullish'' axis) \<and> (\<exists>axis \<in> set axes. rated xs ''bearish'' axis))"
    unfolding rated_def by (auto split: option.splits) fastforce
  have "pv_readiness_status v = ''ready''
      \<longleftrightarrow> (\<forall>axis \<in> set axes. speaks_for xs axis \<noteq> None) \<and> memo_state = ''succeeded''"
    unfolding ready_iff [symmetric] by (simp add: v_def build_decision_proposal_def Let_def)
  moreover have "pv_action v = ''invest'' \<longleftrightarrow> (\<forall>axis \<in> set axes. rated xs ''bullish'' axis)"
    unfolding act proposed_action_def bearish_rating all_bullish using excl by auto
  moreover have "pv_action v = ''hold'' \<longleftrightarrow> (\<exists>axis \<in> set axes. rated xs ''bearish'' axis)"
    unfolding act proposed_action_def bearish_rating by simp
  moreover have "pv_conviction v = Some ''high'' \<longrightarrow> pv_action v = ''invest''"
    by (simp add: v_def build_decision_proposal_def conviction_of_def Let_def)
  ultimately show ?thesis by blast
qed

definition bullish_on :: "string \<Rightarrow> assessment" where
  "bullish_on axis = \<lparr>a_id = ''a'' @ axis, a_opportunity_id = ''o1'', a_axis = axis, a_rating = ''Bullish'',
     a_trend = ''Stable'', a_confidence = 8 / 10, a_evidence_ids = [], a_counter_evidence_ids = [],
     a_unknowns = [], a_artifact_metadata = [], a_created_at = 0\<rparr>"

theorem proposal_follows_inputs_witness:
  "pv_action (build_decision_proposal (map bullish_on axes) [] None ''succeeded'' None (draft_options [])) = ''invest''
   \<and> pv_readiness_status (build_decision_proposal (map bullish_on axes) [] None ''succeeded'' None (draft_options [])) = ''ready''"
proof -
  have a: "\<forall>axis \<in> set axes. rated (map bullish_on axes) ''bullish'' axis" by code_simp
  then have "\<forall>axis \<in> set axes. speaks_for (map bullish_on axes) axis \<noteq> None"
    by (auto simp: rated_def split: option.splits)
  with a show ?thesis
    using proposal_follows_inputs [of "map bullish_on axes" "[]" None "''succeeded''" None "[]"] by blast
qed

end
