(* ===== verification/Thesis_Scoring.thy ===== *)
theory Thesis_Scoring
  imports Schema Artifact_Provenance Weights
begin

text \<open>
  Thesis alignment, \<^verbatim>\<open>app/scoring/thesis.py\<close>: what the observations say of stage, sector,
  geography and check size, the four criteria against the active thesis, the weighted score with its
  hard constraints, and the run that scores every canonical person.
\<close>

section \<open>Vocabulary\<close>

datatype criterion_status = Matched | Failed | Unknown

definition default_weights :: "real dict" where
  "default_weights = [(''stage'', 30 / 100), (''sector'', 40 / 100), (''geography'', 20 / 100), (''check_size'', 10 / 100)]"

definition stage_patterns :: "string list dict" where
  "stage_patterns = [
     (''series-c'', [''series c'', ''series-c'']),
     (''series-b'', [''series b'', ''series-b'']),
     (''series-a'', [''series a'', ''series-a'']),
     (''seed'', [''seed round'', ''seed-stage'', '' seed '']),
     (''pre-seed'', [''pre-seed'', ''preseed'', ''first round'', ''initial round'', ''angel round''])]"

definition sector_terms :: "string list dict" where
  "sector_terms = [
     (''ai'', [''artificial intelligence'', ''machine learning'', ''generative ai'', ''llm'', '' ai '']),
     (''deep-tech'', [''deep tech'', ''robotics'', ''quantum'', ''semiconductor'', ''infrastructure'']),
     (''b2b'', [''b2b'', ''saas'', ''enterprise'', ''developer tool'', ''customer operations'',
        ''customer service'', ''product analytics'', ''recruiting platform'', ''business software'']),
     (''climate'', [''climate'', ''clean energy'', ''carbon'', ''sustainability'']),
     (''fintech'', [''fintech'', ''payments'', ''banking'', ''insurance'', ''crypto'']),
     (''health'', [''healthcare'', ''health tech'', ''biotech'', ''medical'', ''therapeutic''])]"

definition region_terms :: "string list dict" where
  "region_terms = [
     (''dach'', [''germany'', ''berlin'', ''munich'', ''hamburg'', ''austria'', ''vienna'', ''switzerland'']),
     (''europe'', [''europe'', ''germany'', ''berlin'', ''austria'', ''switzerland'', ''ireland'', ''dublin'',
        ''united kingdom'', ''london'', ''france'', ''paris'', ''netherlands'', ''amsterdam'']),
     (''uk'', [''united kingdom'', '' uk '', ''london'', ''england'', ''scotland'']),
     (''us'', [''united states'', '' usa '', '' us '', ''san francisco'', ''silicon valley'', ''new york''])]"

section \<open>Reading the observations\<close>

definition bounded_text :: "string list \<Rightarrow> string" where
  "bounded_text values = '' '' @ lower (join '' '' values) @ '' ''"

definition observations_for :: "observation list \<Rightarrow> string list \<Rightarrow> observation list" where
  "observations_for xs predicates = filter (\<lambda>x. lower (ob_predicate x) \<in> set predicates) xs"

definition text_of :: "observation list \<Rightarrow> string" where
  "text_of xs = bounded_text (map ob_object_value xs)"

text \<open>The keys of a table one of whose terms is in the text, in the order of the table.\<close>

definition detected :: "string list dict \<Rightarrow> string \<Rightarrow> string list" where
  "detected table t = map fst (filter (\<lambda>(k, terms). list_ex (contains t) terms) table)"

definition detect_stage :: "observation list \<Rightarrow> string option \<times> observation list" where
  "detect_stage xs =
     (let relevant = observations_for xs [''pitch_deck_stage'', ''stage'', ''funding_stage'',
            ''inbound_summary'', ''research_founder_summary'']
      in ((case detected stage_patterns (text_of relevant) of [] \<Rightarrow> None | s # _ \<Rightarrow> Some s), relevant))"

definition detect_sectors :: "observation list \<Rightarrow> string list \<times> observation list" where
  "detect_sectors xs =
     (let relevant = observations_for xs [''sector'', ''company'', ''bio'', ''inbound_summary'',
            ''research_market_summary'', ''research_idea_market_summary'']
      in (detected sector_terms (text_of relevant), relevant))"

definition detect_regions :: "observation list \<Rightarrow> string list \<times> observation list" where
  "detect_regions xs =
     (let relevant = observations_for xs [''location'', ''city'', ''country'', ''headquarters'']
      in (detected region_terms (text_of relevant), relevant))"

text \<open>The first match of \<^verbatim>\<open>\d+(?:\.\d+)?\<close>, as a number.\<close>

definition digits_value :: "string \<Rightarrow> real" where
  "digits_value s = foldl (\<lambda>acc c. 10 * acc + real (char_code c - 48)) 0 s"

definition first_number :: "string \<Rightarrow> real option" where
  "first_number s =
     (let t = dropWhile (\<lambda>c. \<not> is_digit c) s;
          whole = takeWhile is_digit t; rest = dropWhile is_digit t
      in if whole = [] then None
         else (case rest of
             c # cs \<Rightarrow> (let frac = takeWhile is_digit cs
               in if c = CHR ''.'' \<and> frac \<noteq> []
                  then Some (digits_value whole + digits_value frac / 10 ^ length frac)
                  else Some (digits_value whole))
           | [] \<Rightarrow> Some (digits_value whole)))"

fun first_check :: "observation list \<Rightarrow> real option" where
  "first_check [] = None"
| "first_check (x # xs) =
     (case first_number (replace_char CHR '','' [] (ob_object_value x)) of
        Some r \<Rightarrow> Some r | None \<Rightarrow> first_check xs)"

definition detect_requested_check :: "observation list \<Rightarrow> real option \<times> observation list" where
  "detect_requested_check xs =
     (let relevant = observations_for xs [''target_check_k_eur'', ''requested_check_k_eur'']
      in (first_check relevant, relevant))"

section \<open>The criteria\<close>

record criterion =
  cr_status :: criterion_status
  cr_expected :: pyval
  cr_observed :: pyval
  cr_explanation :: string
  cr_hard :: bool
  cr_evidence_ids :: "uuid list"

definition mk_criterion ::
  "criterion_status \<Rightarrow> pyval \<Rightarrow> pyval \<Rightarrow> string \<Rightarrow> observation list \<Rightarrow> bool \<Rightarrow> criterion" where
  "mk_criterion status expected observed explanation evidence hard =
     \<lparr>cr_status = status, cr_expected = expected, cr_observed = observed,
      cr_explanation = explanation, cr_hard = hard, cr_evidence_ids = map ob_id evidence\<rparr>"

definition str_list :: "string list \<Rightarrow> pyval" where
  "str_list xs = PList (map PStr xs)"

definition opt_real :: "real option \<Rightarrow> pyval" where
  "opt_real x = (case x of None \<Rightarrow> PNone | Some r \<Rightarrow> PFloat r)"

text \<open>\<open>sorted(set(xs) & set(ys))\<close>.\<close>

definition common :: "string list \<Rightarrow> string list \<Rightarrow> string list" where
  "common xs ys = sort (filter (\<lambda>x. x \<in> set ys) (fromkeys xs))"

definition stage_criterion :: "investment_thesis \<Rightarrow> observation list \<Rightarrow> criterion" where
  "stage_criterion th xs =
     (case detect_stage xs of (stage, evidence) \<Rightarrow>
        let (status, explanation) =
          (case stage of
             None \<Rightarrow> (Unknown, ''Company stage is not supported by available evidence.'')
           | Some s \<Rightarrow> if s \<in> set (t_stages th)
               then (Matched, ''Observed '' @ s @ '' is inside the active stage mandate.'')
               else (Failed, ''Observed '' @ s @ '' is outside the active stage mandate.''))
        in mk_criterion status (str_list (t_stages th)) (opt_str stage) explanation evidence True)"

definition excluded_matches :: "investment_thesis \<Rightarrow> observation list \<Rightarrow> string list" where
  "excluded_matches th xs = common (fst (detect_sectors xs)) (t_excluded_sectors th)"

definition sector_criterion :: "investment_thesis \<Rightarrow> observation list \<Rightarrow> criterion" where
  "sector_criterion th xs =
     (case detect_sectors xs of (sectors, evidence) \<Rightarrow>
        let excluded = excluded_matches th xs; preferred = common sectors (t_sectors th);
            (status, explanation) =
              (if sectors = [] then (Unknown, ''Sector could not be classified from current evidence.'')
               else if excluded \<noteq> []
               then (Failed, ''Detected excluded sector: '' @ join '', '' excluded @ ''.'')
               else if preferred \<noteq> []
               then (Matched, ''Detected preferred sector: '' @ join '', '' preferred @ ''.'')
               else (Failed, ''Detected sectors do not overlap the active thesis.''))
        in mk_criterion status (str_list (t_sectors th)) (str_list sectors) explanation evidence
             (excluded \<noteq> []))"

definition geography_criterion :: "investment_thesis \<Rightarrow> observation list \<Rightarrow> criterion" where
  "geography_criterion th xs =
     (case detect_regions xs of (regions, evidence) \<Rightarrow>
        let eligible = common regions (t_regions th);
            (status, explanation) =
              (if ''global'' \<in> set (t_regions th) then (Matched, ''The thesis accepts companies globally.'')
               else if regions = [] then (Unknown, ''Geography is not supported by available evidence.'')
               else if eligible \<noteq> []
               then (Matched, ''Detected eligible geography: '' @ join '', '' eligible @ ''.'')
               else (Failed, ''Detected geography is outside the active thesis.''))
        in mk_criterion status (str_list (t_regions th)) (str_list regions) explanation evidence False)"

definition outside_ticket :: "investment_thesis \<Rightarrow> real \<Rightarrow> bool" where
  "outside_ticket th r =
     ((case t_check_min th of None \<Rightarrow> False | Some lo \<Rightarrow> r < lo)
      \<or> (case t_check_max th of None \<Rightarrow> False | Some hi \<Rightarrow> r > hi))"

definition check_criterion :: "investment_thesis \<Rightarrow> observation list \<Rightarrow> criterion" where
  "check_criterion th xs =
     (case detect_requested_check xs of (requested, evidence) \<Rightarrow>
        let (status, explanation) =
          (case requested of
             None \<Rightarrow> (Unknown, ''Requested investor check size has not been disclosed.'')
           | Some r \<Rightarrow> if outside_ticket th r
               then (Failed, ''Requested check is outside the configured ticket range.'')
               else (Matched, ''Requested check is inside the configured ticket range.''))
        in mk_criterion status (PList [opt_real (t_check_min th), opt_real (t_check_max th)])
             (opt_real requested) explanation evidence False)"

definition criteria_of :: "investment_thesis \<Rightarrow> observation list \<Rightarrow> criterion dict" where
  "criteria_of th xs = [(''stage'', stage_criterion th xs), (''sector'', sector_criterion th xs),
     (''geography'', geography_criterion th xs), (''check_size'', check_criterion th xs)]"

section \<open>The score\<close>

definition thesis_weights :: "investment_thesis \<Rightarrow> real dict" where
  "thesis_weights th = normalized_weights (dupdate default_weights (t_scoring_weights th))"

fun points :: "criterion_status \<Rightarrow> real" where
  "points Matched = 1"
| "points Failed = 0"
| "points Unknown = 1 / 2"

definition criterion_labels :: "string dict" where
  "criterion_labels = [(''stage'', ''Stage''), (''sector'', ''Sector''), (''geography'', ''Geography''),
     (''check_size'', ''Check size'')]"

record thesis_score =
  ts_score :: real
  ts_confidence :: real
  ts_hard_eligible :: bool
  ts_criteria :: "criterion dict"
  ts_matched :: "string list"
  ts_failed :: "string list"
  ts_unknown :: "string list"
  ts_evidence_ids :: "uuid list"

definition labels_with :: "criterion_status \<Rightarrow> criterion dict \<Rightarrow> string list" where
  "labels_with st cs =
     map (\<lambda>(k, c). case dget criterion_labels k of Some l \<Rightarrow> l | None \<Rightarrow> k) (filter (\<lambda>(k, c). cr_status c = st) cs)"

definition relevant_evidence :: "observation list \<Rightarrow> observation list" where
  "relevant_evidence xs = snd (detect_stage xs) @ snd (detect_sectors xs) @ snd (detect_regions xs)
     @ snd (detect_requested_check xs)"

definition weighted_points :: "real dict \<Rightarrow> criterion dict \<Rightarrow> real" where
  "weighted_points ws cs = sum_real (map (\<lambda>(k, c). weight_of ws k * points (cr_status c)) cs)"

definition known_weight :: "real dict \<Rightarrow> criterion dict \<Rightarrow> real" where
  "known_weight ws cs = sum_real (map (\<lambda>(k, c). weight_of ws k) (filter (\<lambda>(k, c). cr_status c \<noteq> Unknown) cs))"

definition score_thesis_alignment :: "investment_thesis \<Rightarrow> observation list \<Rightarrow> thesis_score" where
  "score_thesis_alignment th xs =
     (let ws = thesis_weights th;
          cs = criteria_of th xs;
          raw = weighted_points ws cs;
          eligible = cr_status (stage_criterion th xs) \<noteq> Failed \<and> excluded_matches th xs = [];
          score = (if eligible then raw else min raw (35 / 100));
          average = mean_or 0 (map ob_confidence (relevant_evidence xs));
          confidence = max (15 / 100) (known_weight ws cs * average)
      in \<lparr>ts_score = py_round 4 score, ts_confidence = py_round 4 (min 1 confidence),
          ts_hard_eligible = eligible, ts_criteria = cs, ts_matched = labels_with Matched cs,
          ts_failed = labels_with Failed cs, ts_unknown = labels_with Unknown cs,
          ts_evidence_ids = fromkeys (map ob_id (relevant_evidence xs))\<rparr>)"

section \<open>The run\<close>

fun status_key :: "criterion_status \<Rightarrow> string" where
  "status_key Matched = ''matched''"
| "status_key Failed = ''failed''"
| "status_key Unknown = ''unknown''"

definition criterion_value :: "criterion \<Rightarrow> pyval" where
  "criterion_value c = PDict [(''status'', PStr (status_key (cr_status c))), (''expected'', cr_expected c),
     (''observed'', cr_observed c), (''explanation'', PStr (cr_explanation c)),
     (''hard_constraint'', PBool (cr_hard c)), (''evidence_ids'', str_list (cr_evidence_ids c))]"

record scoring_env =
  se_digest :: "pyval \<Rightarrow> string"
  se_snapshot_id :: "uuid \<Rightarrow> uuid"
  se_run_id :: uuid
  se_clock :: instant

definition thesis_snapshot :: "scoring_env \<Rightarrow> investment_thesis \<Rightarrow> uuid \<Rightarrow> thesis_score \<Rightarrow> score_snapshot" where
  "thesis_snapshot env th person r =
     (let rubric = ''thesis-match-v1:'' @ t_version th;
          margin = py_round 4 ((1 - ts_confidence r) * (2 / 10))
      in \<lparr>s_id = se_snapshot_id env person, s_subject_id = person, s_subject_type = ''person'',
          s_rubric_version = rubric,
          s_components = [(''thesis_fit'', PFloat (ts_score r)), (''thesis_confidence'', PFloat (ts_confidence r)),
            (''thesis_version'', PStr (t_version th)), (''hard_eligible'', PBool (ts_hard_eligible r)),
            (''criteria'', PDict (map (\<lambda>(k, c). (k, criterion_value c)) (ts_criteria r))),
            (''matched'', str_list (ts_matched r)), (''failed'', str_list (ts_failed r)),
            (''unknown'', str_list (ts_unknown r))],
          s_interval = Some [(''thesis_fit'', PDict [
            (''low'', PFloat (py_round 4 (max 0 (ts_score r - margin)))),
            (''high'', PFloat (py_round 4 (min 1 (ts_score r + margin))))])],
          s_evidence_ids = ts_evidence_ids r, s_input_fingerprint = None, s_provenance = PNone,
          s_artifact_metadata = build_artifact_metadata (se_run_id env) ''score_snapshot'' ''thesis-scoring-v2''
            (fingerprint_payload (se_digest env) (PDict [(''person_id'', PStr person),
               (''thesis_version'', PStr (t_version th)), (''evidence_ids'', str_list (ts_evidence_ids r))]))
            (default_options\<lparr>ao_rubric_versions := [rubric],
               ao_parameters := Some [(''weights'', PDict (map (\<lambda>(k, x). (k, PFloat x)) default_weights))],
               ao_validator_status := ''not_applicable''\<rparr>),
          s_created_at = se_clock env\<rparr>)"

text \<open>Observations of a person, newest first, and the newest opportunity of a person.\<close>

definition evidence_of :: "db \<Rightarrow> uuid \<Rightarrow> observation list" where
  "evidence_of d person = sort_key (\<lambda>x. - ob_observed_at x) (filter (\<lambda>x. ob_subject_id x = Some person) (observations d))"

definition founder_opportunities :: "db \<Rightarrow> uuid \<Rightarrow> opportunity list" where
  "founder_opportunities d person =
     sort_key (\<lambda>x. - o_created_at x)
       (concat (map (\<lambda>f. if of_person_id f = person
                         then filter (\<lambda>x. o_id x = of_opportunity_id f) (opportunities d) else []) (founders d)))"

definition mark_thesis :: "string \<Rightarrow> opportunity option \<Rightarrow> db \<Rightarrow> db" where
  "mark_thesis version x d =
     (case x of None \<Rightarrow> d
      | Some opp \<Rightarrow> d\<lparr>opportunities := map (\<lambda>y. if o_id y = o_id opp then y\<lparr>o_thesis_version := Some version\<rparr> else y)
                        (opportunities d)\<rparr>)"

definition score_candidate :: "scoring_env \<Rightarrow> investment_thesis \<Rightarrow> person \<Rightarrow> db \<Rightarrow> db" where
  "score_candidate env th p d =
     (let r = score_thesis_alignment th (evidence_of d (p_id p))
      in mark_thesis (t_version th)
           (case founder_opportunities d (p_id p) of [] \<Rightarrow> None | x # _ \<Rightarrow> Some x)
           (d\<lparr>score_snapshots := score_snapshots d @ [thesis_snapshot env th (p_id p) r]\<rparr>))"

definition score_all_candidates :: "scoring_env \<Rightarrow> investment_thesis \<Rightarrow> db \<Rightarrow> nat \<times> db" where
  "score_all_candidates env th d =
     (let people = filter p_canonical (persons d)
      in if people = [] then (0, d)
         else (length people, fold (score_candidate env th) people d))"

section \<open>Bounds of the score\<close>

lemma criteria_keys: "map fst (criteria_of th xs) = [''stage'', ''sector'', ''geography'', ''check_size'']"
  by (simp add: criteria_of_def)

lemma points_bounds [simp]: "0 \<le> points st" "points st \<le> 1"
  by (cases st; simp)+

lemma weighted_points_bounds:
  "0 \<le> weighted_points (thesis_weights th) (criteria_of th xs)
   \<and> weighted_points (thesis_weights th) (criteria_of th xs) \<le> 1"
proof -
  define cs where "cs = map (\<lambda>(k, c). (k, points (cr_status c))) (criteria_of th xs)"
  define raw where "raw = dupdate default_weights (t_scoring_weights th)"
  have "weighted_points (thesis_weights th) (criteria_of th xs)
      = (\<Sum>(k, x)\<leftarrow>cs. weight_of (normalized_weights raw) k * x)"
    by (simp add: weighted_points_def thesis_weights_def sum_real_sum_list criteria_of_def cs_def raw_def)
  moreover have "distinct (map fst cs)" "\<And>k x. (k, x) \<in> set cs \<Longrightarrow> 0 \<le> x \<and> x \<le> 1"
    by (auto simp: criteria_of_def cs_def)
  ultimately show ?thesis
    using weighted_mean_bounds [of cs 1 raw] by simp
qed

lemma py_round_4_35: "py_round 4 (35 / 100) = 35 / 100"
  using half_even_of_int [of 3500] by (simp add: py_round_def)

lemma py_round_4_15 [simp]: "py_round 4 (3 / 20) = 3 / 20"
  using half_even_of_int [of 1500] by (simp add: py_round_def)

section \<open>Properties\<close>

text \<open>
  The thesis score is a bounded number: score and confidence are fractions, the confidence is at
  least 0.15, and a company outside the mandate, by its stage or by an excluded sector, is reported
  ineligible and never scores above 0.35.
\<close>

theorem thesis_score_bounds:
  "let r = score_thesis_alignment th xs in
     0 \<le> ts_score r \<and> ts_score r \<le> 1 \<and> 15 / 100 \<le> ts_confidence r \<and> ts_confidence r \<le> 1
     \<and> (ts_hard_eligible r \<longleftrightarrow> (case fst (detect_stage xs) of None \<Rightarrow> True | Some s \<Rightarrow> s \<in> set (t_stages th))
          \<and> set (fst (detect_sectors xs)) \<inter> set (t_excluded_sectors th) = {})
     \<and> (\<not> ts_hard_eligible r \<longrightarrow> ts_score r \<le> 35 / 100)"
proof -
  define r where "r = score_thesis_alignment th xs"
  define w where "w = weighted_points (thesis_weights th) (criteria_of th xs)"
  have w: "0 \<le> w" "w \<le> 1" unfolding w_def using weighted_points_bounds by blast+
  have stage: "cr_status (stage_criterion th xs) \<noteq> Failed
      \<longleftrightarrow> (case fst (detect_stage xs) of None \<Rightarrow> True | Some s \<Rightarrow> s \<in> set (t_stages th))"
    by (auto simp: stage_criterion_def mk_criterion_def case_prod_beta Let_def split: option.splits)
  have excluded: "excluded_matches th xs = []
      \<longleftrightarrow> set (fst (detect_sectors xs)) \<inter> set (t_excluded_sectors th) = {}"
  proof -
    have "excluded_matches th xs = [] \<longleftrightarrow> set (excluded_matches th xs) = {}" by simp
    then show ?thesis by (auto simp: excluded_matches_def common_def)
  qed
  have e: "ts_hard_eligible r = (cr_status (stage_criterion th xs) \<noteq> Failed \<and> excluded_matches th xs = [])"
    and sc: "ts_score r = py_round 4 (if ts_hard_eligible r then w else min w (35 / 100))"
    by (simp_all add: r_def score_thesis_alignment_def Let_def w_def)
  have "0 \<le> ts_score r" "ts_score r \<le> 1"
    using w unfolding sc by (auto intro: py_round_nonneg py_round_le1)
  moreover have "\<not> ts_hard_eligible r \<longrightarrow> ts_score r \<le> 35 / 100"
  proof -
    have "py_round 4 (min w (35 / 100)) \<le> 35 / 100"
      using py_round_mono [of "min w (35 / 100)" "35 / 100" 4] unfolding py_round_4_35 by (simp only: min.cobounded2)
    then show ?thesis by (simp only: sc if_False) simp
  qed
  moreover obtain c where "ts_confidence r = py_round 4 (min 1 (max (15 / 100) c))"
    by (simp add: r_def score_thesis_alignment_def Let_def)
  then have "15 / 100 \<le> ts_confidence r \<and> ts_confidence r \<le> 1"
    using py_round_mono [of "15 / 100" "min 1 (max (15 / 100) c)" 4] by (auto intro: py_round_le1)
  ultimately show ?thesis unfolding Let_def r_def [symmetric] using e stage excluded by blast
qed

definition sample_thesis :: investment_thesis where
  "sample_thesis = \<lparr>t_id = ''t1'', t_version = ''thesis-v001'', t_name = ''Early'', t_is_active = True,
     t_stages = [''pre-seed''], t_sectors = [''ai''], t_excluded_sectors = [''fintech''], t_regions = [''europe''],
     t_check_min = Some 250, t_check_max = Some 500, t_ownership_target = None,
     t_risk_appetite = ''balanced'', t_scoring_weights = [], t_discovery_queries = [],
     t_source_freshness_days = [], t_created_at = 0\<rparr>"

definition said :: "string \<Rightarrow> string \<Rightarrow> observation" where
  "said predicate text = \<lparr>ob_id = ''x1'', ob_snapshot_id = ''sn1'', ob_subject_id = Some ''p1'',
     ob_opportunity_id = None, ob_predicate = predicate, ob_object_value = text, ob_source_locator = PNone,
     ob_observed_at = 0, ob_extractor_version = ''v1'', ob_fingerprint = None, ob_confidence = 1,
     ob_embedding = None, ob_created_at = 0\<rparr>"

lemma detect_stage_pre_seed:
  assumes "lower (ob_predicate x) = ''stage''" "lower (ob_object_value x) = ''pre-seed round''"
  shows "detect_stage [x] = (Some ''seed'', [x])"
proof -
  have "observations_for [x] [''pitch_deck_stage'', ''stage'', ''funding_stage'',
            ''inbound_summary'', ''research_founder_summary''] = [x]"
    using assms(1) by (simp add: observations_for_def)
  moreover have "text_of [x] = '' pre-seed round ''"
    using assms(2) by (simp add: text_of_def bounded_text_def)
  moreover have "detected stage_patterns '' pre-seed round '' = [''seed'', ''pre-seed'']" by code_simp
  ultimately show ?thesis by (simp add: detect_stage_def Let_def)
qed

text \<open>
  A pre-seed round is read as a seed round: the seed patterns are tried before the pre-seed ones,
  and the text of a pre-seed round contains theirs. A thesis that invests in pre-seed companies only
  therefore reports it ineligible.
\<close>

theorem pre_seed_round_read_as_seed:
  assumes "lower (ob_predicate x) = ''stage''" and "lower (ob_object_value x) = ''pre-seed round''"
    and "''seed'' \<notin> set (t_stages th)"
  shows "fst (detect_stage [x]) = Some ''seed'' \<and> \<not> ts_hard_eligible (score_thesis_alignment th [x])"
  using assms(3)
  by (simp add: detect_stage_pre_seed [OF assms(1,2)] score_thesis_alignment_def Let_def stage_criterion_def
      mk_criterion_def)

theorem pre_seed_round_read_as_seed_witness:
  "t_stages sample_thesis = [''pre-seed'']
   \<and> \<not> ts_hard_eligible (score_thesis_alignment sample_thesis [said ''stage'' ''Pre-seed round''])"
proof -
  have "lower (ob_predicate (said ''stage'' ''Pre-seed round'')) = ''stage''"
    "lower (ob_object_value (said ''stage'' ''Pre-seed round'')) = ''pre-seed round''"
    "''seed'' \<notin> set (t_stages sample_thesis)" by code_simp+
  from pre_seed_round_read_as_seed [OF this] show ?thesis by (simp add: sample_thesis_def)
qed

theorem thesis_score_bounds_witness:
  "\<not> ts_hard_eligible (score_thesis_alignment sample_thesis [said ''sector'' ''Payments''])
   \<and> ts_score (score_thesis_alignment sample_thesis [said ''sector'' ''Payments'']) \<le> 35 / 100"
proof -
  have "fst (detect_sectors [said ''sector'' ''Payments'']) = [''fintech'']" by code_simp
  moreover have "t_excluded_sectors sample_thesis = [''fintech'']" by (simp add: sample_thesis_def)
  ultimately show ?thesis
    using thesis_score_bounds [of sample_thesis "[said ''sector'' ''Payments'']"] by (simp add: Let_def)
qed

text \<open>The predicates the criteria read.\<close>

definition scored_predicates :: "string list" where
  "scored_predicates = [''pitch_deck_stage'', ''stage'', ''funding_stage'', ''inbound_summary'',
     ''research_founder_summary'', ''sector'', ''company'', ''bio'', ''research_market_summary'',
     ''research_idea_market_summary'', ''location'', ''city'', ''country'', ''headquarters'',
     ''target_check_k_eur'', ''requested_check_k_eur'']"

lemma observations_for_none:
  assumes "\<forall>x \<in> set xs. lower (ob_predicate x) \<notin> set scored_predicates" "set ps \<subseteq> set scored_predicates"
  shows "observations_for xs ps = []"
  using assms by (auto simp: observations_for_def filter_empty_conv)

lemma no_text:
  "detected stage_patterns (text_of []) = []" "detected sector_terms (text_of []) = []"
  "detected region_terms (text_of []) = []"
  by code_simp+

lemma nothing_detected:
  assumes "\<forall>x \<in> set xs. lower (ob_predicate x) \<notin> set scored_predicates"
  shows "detect_stage xs = (None, []) \<and> detect_sectors xs = ([], []) \<and> detect_regions xs = ([], [])
    \<and> detect_requested_check xs = (None, [])"
  using observations_for_none [OF assms]
  by (simp add: detect_stage_def detect_sectors_def detect_regions_def detect_requested_check_def
      scored_predicates_def no_text)

lemma weights_default:
  assumes "t_scoring_weights th = []"
  shows "thesis_weights th = default_weights"
  using assms by (simp add: thesis_weights_def normalized_weights_def default_weights_def dupdate_def)

lemma py_round_half [simp]: "py_round 4 (1 / 2) = 1 / 2"
  using half_even_of_int [of 5000] by (simp add: py_round_def)

text \<open>
  Missing evidence is not a negative signal: when nothing relevant is known, every criterion is
  unknown, the company stays eligible and scores exactly one half with the lowest confidence.
\<close>

theorem missing_evidence_is_neutral:
  assumes "\<forall>x \<in> set xs. lower (ob_predicate x) \<notin> set scored_predicates"
    and "''global'' \<notin> set (t_regions th)" and "t_scoring_weights th = []"
  shows "ts_unknown (score_thesis_alignment th xs) = [''Stage'', ''Sector'', ''Geography'', ''Check size'']
    \<and> ts_hard_eligible (score_thesis_alignment th xs) \<and> ts_score (score_thesis_alignment th xs) = 1 / 2
    \<and> ts_confidence (score_thesis_alignment th xs) = 15 / 100"
proof -
  note none = nothing_detected [OF assms(1)]
  have st: "cr_status (stage_criterion th xs) = Unknown" "cr_status (sector_criterion th xs) = Unknown"
    "cr_status (geography_criterion th xs) = Unknown" "cr_status (check_criterion th xs) = Unknown"
    using none assms(2) by (simp_all add: stage_criterion_def sector_criterion_def geography_criterion_def
        check_criterion_def mk_criterion_def)
  have "excluded_matches th xs = []" "relevant_evidence xs = []"
    using none by (simp_all add: excluded_matches_def common_def fromkeys_def relevant_evidence_def)
  then show ?thesis
    using st by (simp add: score_thesis_alignment_def Let_def weights_default [OF assms(3)] labels_with_def
        criteria_of_def criterion_labels_def weighted_points_def known_weight_def mean_or_def
        default_weights_def)
qed

theorem missing_evidence_is_neutral_witness:
  "ts_score (score_thesis_alignment sample_thesis [said ''github_stars'' ''12'']) = 1 / 2"
proof -
  have a: "\<forall>x \<in> set [said ''github_stars'' ''12'']. lower (ob_predicate x) \<notin> set scored_predicates"
    by code_simp
  have b: "''global'' \<notin> set (t_regions sample_thesis)" "t_scoring_weights sample_thesis = []"
    by (simp_all add: sample_thesis_def)
  show ?thesis using missing_evidence_is_neutral [OF a b] by blast
qed

section \<open>The scoring run\<close>

lemma mark_thesis_simps [simp]:
  "observations (mark_thesis v x d) = observations d" "score_snapshots (mark_thesis v x d) = score_snapshots d"
  "persons (mark_thesis v x d) = persons d"
  by (simp_all add: mark_thesis_def split: option.splits)

lemma evidence_of_mark [simp]:
  "evidence_of (mark_thesis v x d) = evidence_of d" "evidence_of (d\<lparr>score_snapshots := z\<rparr>) = evidence_of d"
  "evidence_of (d\<lparr>score_snapshots := z, opportunities := y\<rparr>) = evidence_of d"
  by (simp_all add: evidence_of_def fun_eq_iff)

definition scored_by :: "scoring_env \<Rightarrow> investment_thesis \<Rightarrow> db \<Rightarrow> person \<Rightarrow> score_snapshot" where
  "scored_by env th d p = thesis_snapshot env th (p_id p) (score_thesis_alignment th (evidence_of d (p_id p)))"

text \<open>Opportunities up to the thesis version a run may stamp.\<close>

definition same_but_thesis :: "string \<Rightarrow> opportunity \<Rightarrow> opportunity \<Rightarrow> bool" where
  "same_but_thesis v x y = (y = x \<or> y = x\<lparr>o_thesis_version := Some v\<rparr>)"

lemma mark_thesis_opportunities:
  "list_all2 (same_but_thesis v) (opportunities d) (opportunities (mark_thesis v x d))"
  by (auto simp: mark_thesis_def same_but_thesis_def list_all2_conv_all_nth split: option.splits)

lemma same_but_thesis_trans: "same_but_thesis v x y \<Longrightarrow> same_but_thesis v y z \<Longrightarrow> same_but_thesis v x z"
  by (auto simp: same_but_thesis_def)

lemma mark_thesis_frame: "mark_thesis v x d\<lparr>opportunities := opportunities d\<rparr> = d"
  by (simp add: mark_thesis_def split: option.splits)

lemma score_candidate_step:
  "score_snapshots (score_candidate env th p d) = score_snapshots d @ [scored_by env th d p]
   \<and> list_all2 (same_but_thesis (t_version th)) (opportunities d) (opportunities (score_candidate env th p d))
   \<and> (score_candidate env th p d)\<lparr>score_snapshots := score_snapshots d, opportunities := opportunities d\<rparr> = d
   \<and> evidence_of (score_candidate env th p d) = evidence_of d"
  unfolding score_candidate_def Let_def scored_by_def
  using mark_thesis_opportunities [of "t_version th" "d\<lparr>score_snapshots := z\<rparr>" x for z x]
  by (auto simp: mark_thesis_def split: option.splits)

lemma frame_trans:
  assumes "a\<lparr>score_snapshots := score_snapshots e, opportunities := opportunities e\<rparr> = e"
  shows "a\<lparr>score_snapshots := x, opportunities := y\<rparr> = e\<lparr>score_snapshots := x, opportunities := y\<rparr>"
proof -
  have "a\<lparr>score_snapshots := x, opportunities := y\<rparr>
      = (a\<lparr>score_snapshots := score_snapshots e, opportunities := opportunities e\<rparr>)\<lparr>score_snapshots := x, opportunities := y\<rparr>"
    by simp
  then show ?thesis unfolding assms .
qed

lemma score_fold:
  "score_snapshots (fold (score_candidate env th) ps d) = score_snapshots d @ map (scored_by env th d) ps
   \<and> list_all2 (same_but_thesis (t_version th)) (opportunities d) (opportunities (fold (score_candidate env th) ps d))
   \<and> (fold (score_candidate env th) ps d)\<lparr>score_snapshots := score_snapshots d, opportunities := opportunities d\<rparr> = d"
proof (induction ps arbitrary: d)
  case Nil
  then show ?case by (simp add: list_all2_refl same_but_thesis_def)
next
  case (Cons p ps)
  let ?e = "score_candidate env th p d"
  note step = score_candidate_step [of env th p d] and ih = Cons [of ?e]
  have "map (scored_by env th ?e) ps = map (scored_by env th d) ps"
    using step by (simp add: scored_by_def)
  moreover have "list_all2 (same_but_thesis (t_version th)) (opportunities d)
      (opportunities (fold (score_candidate env th) ps ?e))"
    using step ih list_all2_trans [of "same_but_thesis (t_version th)" "same_but_thesis (t_version th)"
        "same_but_thesis (t_version th)"] same_but_thesis_trans by blast
  moreover have "(fold (score_candidate env th) ps ?e)\<lparr>score_snapshots := score_snapshots d,
      opportunities := opportunities d\<rparr> = ?e\<lparr>score_snapshots := score_snapshots d, opportunities := opportunities d\<rparr>"
    using ih frame_trans by blast
  ultimately show ?case using step ih by simp
qed

text \<open>
  A scoring run appends one snapshot to every canonical person, made from that person's
  observations, and reports how many; it changes nothing else but the thesis version stamped on
  opportunities.
\<close>

theorem scoring_run_appends_one_snapshot_each:
  "case score_all_candidates env th d of (n, d') \<Rightarrow>
     n = length (filter p_canonical (persons d))
     \<and> score_snapshots d' = score_snapshots d @ map (scored_by env th d) (filter p_canonical (persons d))
     \<and> list_all2 (same_but_thesis (t_version th)) (opportunities d) (opportunities d')
     \<and> d'\<lparr>score_snapshots := score_snapshots d, opportunities := opportunities d\<rparr> = d"
  using score_fold [of env th "filter p_canonical (persons d)" d]
  by (simp add: score_all_candidates_def Let_def list_all2_refl same_but_thesis_def)

end
