(* ===== verification/Memo_Job.thy ===== *)
theory Memo_Job
  imports Scoring_Job Memo_Agent Decision_Proposal Thesis_Scoring
begin

text \<open>
  The memo job, \<^verbatim>\<open>app/agents/memo_job.py\<close>: the immutable input package of accepted claims and
  their observations, the pinned thesis, the memo row that is pending while the model writes and
  final when the job returns, and the decision proposal beside it.
\<close>

section \<open>State\<close>

record decision_proposal =
  dp_id :: uuid
  dp_opportunity_id :: uuid
  dp_memo_id :: uuid
  dp_values :: proposal_values
  dp_artifact_metadata :: "pyval dict"

record memo_world =
  mw_world :: world
  mw_theses :: "investment_thesis list"
  mw_assessments :: "assessment list"
  mw_proposals :: "decision_proposal list"

definition mw_set_job :: "instant \<Rightarrow> string option \<Rightarrow> job_update \<Rightarrow> memo_world \<Rightarrow> memo_world" where
  "mw_set_job now job_id u w = w\<lparr>mw_world := set_job now job_id u (mw_world w)\<rparr>"

section \<open>The input package\<close>

text \<open>\<open>None\<close> when an id is malformed.\<close>

definition claim_observation_ids :: "claim \<Rightarrow> uuid list option" where
  "claim_observation_ids c =
     (let parsed = map parse_uuid (c_observation_ids c)
      in if None \<in> set parsed then None else Some (map the parsed))"

definition claim_context :: "claim list \<Rightarrow> string" where
  "claim_context cs = join newline (''--- accepted claims ---'' # map (\<lambda>c. ''['' @ c_id c @ ''] '' @ c_predicate c
     @ '': '' @ take 500 (c_object_value c) @ '' (observations: '' @ join '', '' (c_observation_ids c) @ '')'') cs)"

definition contradiction_context :: "claim list \<Rightarrow> string" where
  "contradiction_context cs =
     (if cs = [] then ''Contradictions: none recorded for this opportunity.''
      else join newline (''Contradictions (excluded from accepted facts; resolve in diligence):''
        # map (\<lambda>c. ''- ['' @ c_id c @ ''] '' @ c_predicate c @ '': '' @ c_object_value c) cs))"

definition claims_with :: "string \<Rightarrow> db \<Rightarrow> uuid \<Rightarrow> uuid \<Rightarrow> claim list" where
  "claims_with status d person opp =
     sort_key c_created_at (sort_key c_id (filter (\<lambda>c. c_subject_id c = Some person
       \<and> c_opportunity_id c = Some opp \<and> c_status c = status \<and> c_supersession_id c = None) (claims d)))"

definition ids_or_nil :: "claim \<Rightarrow> uuid list" where
  "ids_or_nil c = (case claim_observation_ids c of Some xs \<Rightarrow> xs | None \<Rightarrow> [])"

definition scoped_observations :: "db \<Rightarrow> uuid \<Rightarrow> uuid \<Rightarrow> uuid list \<Rightarrow> observation list" where
  "scoped_observations d person opp ids =
     sort_key ob_observed_at (sort_key ob_id (filter (\<lambda>x. ob_id x \<in> set ids \<and> ob_subject_id x = Some person
       \<and> ob_opportunity_id x = Some opp) (observations d)))"

text \<open>The claims whose observations are all in scope, and those observations, each once.\<close>

definition accepted_claims :: "observation list \<Rightarrow> claim list \<Rightarrow> claim list" where
  "accepted_claims xs cs =
     filter (\<lambda>c. ids_or_nil c \<noteq> [] \<and> set (ids_or_nil c) \<subseteq> set (map ob_id xs)) cs"

definition package_observations :: "observation list \<Rightarrow> claim list \<Rightarrow> observation list" where
  "package_observations xs cs =
     List.map_filter (\<lambda>i. find (\<lambda>x. ob_id x = i) xs) (fromkeys (concat (map ids_or_nil cs)))"

definition latest_founder_score :: "db \<Rightarrow> uuid \<Rightarrow> score_snapshot option" where
  "latest_founder_score d person =
     (case sort_key (\<lambda>s. - s_created_at s) (filter (\<lambda>s. s_subject_id s = person
        \<and> s_rubric_version s = ''founder-agent-v1'') (score_snapshots d)) of [] \<Rightarrow> None | s # _ \<Rightarrow> Some s)"

definition opportunity_assessments :: "memo_world \<Rightarrow> uuid \<Rightarrow> assessment list" where
  "opportunity_assessments w opp =
     sort_key a_created_at (sort_key a_id (filter (\<lambda>a. a_opportunity_id a = opp) (mw_assessments w)))"

definition dash :: string where
  "dash = '' '' @ [CHR 0xE2, CHR 0x80, CHR 0x94] @ '' ''"

definition scorecard_summary :: "codec \<Rightarrow> score_snapshot option \<Rightarrow> assessment list \<Rightarrow> claim list \<Rightarrow> string" where
  "scorecard_summary cx score assessments contradictions =
     (case score of Some s \<Rightarrow> cx_dumps cx (PDict (s_components s)) | None \<Rightarrow> ''No agent scorecard available yet.'')
     @ (if assessments = [] then newline @ newline @ ''Assessments: unavailable for this opportunity.''
        else newline @ newline @ ''Assessments:'' @ newline @ join newline (map (\<lambda>a. ''- '' @ a_axis a @ '': ''
          @ a_rating a @ '' (conf '' @ py_str cx (PFloat (a_confidence a)) @ '')'' @ dash
          @ py_str cx (strs (a_unknowns a))) assessments))
     @ newline @ newline @ contradiction_context contradictions"

definition pinned_thesis :: "memo_world \<Rightarrow> opportunity \<Rightarrow> investment_thesis option" where
  "pinned_thesis w opp =
     (if str_truthy (o_thesis_version opp)
      then find (\<lambda>t. Some (t_version t) = o_thesis_version opp) (mw_theses w)
      else (case sort_key (\<lambda>t. - t_created_at t) (filter t_is_active (mw_theses w)) of
              [] \<Rightarrow> None | t # _ \<Rightarrow> Some t))"

definition thesis_summary :: "codec \<Rightarrow> investment_thesis \<Rightarrow> string" where
  "thesis_summary cx t = t_name t @ '' ('' @ t_version t @ '')'' @ dash @ ''stages: '' @ py_str cx (strs (t_stages t))
     @ '', sectors: '' @ py_str cx (strs (t_sectors t)) @ '', regions: '' @ py_str cx (strs (t_regions t))"

definition memo_rubrics :: "string list" where
  "memo_rubrics = [''founder-agent-v1'', ''opportunity-axes-v1'']"

section \<open>Rows\<close>

record memo_input =
  mi_person :: person
  mi_opportunity_id :: uuid
  mi_claim_ids :: "uuid list"
  mi_assessments :: "assessment list"
  mi_thesis :: investment_thesis
  mi_obs_ids :: "uuid list"
  mi_evidence_text :: string
  mi_scorecard :: string

definition memo_fingerprint :: "job_env \<Rightarrow> memo_input \<Rightarrow> string" where
  "memo_fingerprint env mi = fingerprint_payload (en_digest env) (PDict [
     (''claim_ids'', strs (mi_claim_ids mi)), (''observation_ids'', strs (mi_obs_ids mi)),
     (''assessment_ids'', strs (map a_id (mi_assessments mi))),
     (''thesis_version'', PStr (t_version (mi_thesis mi))), (''scorecard'', PStr (mi_scorecard mi))])"

definition memo_metadata ::
  "job_env \<Rightarrow> memo_input \<Rightarrow> string \<Rightarrow> int option \<Rightarrow> string \<Rightarrow> string list \<Rightarrow> pyval dict" where
  "memo_metadata env mi model latency status errors =
     build_artifact_metadata (en_run_id env) ''investment_memo'' ''memo-job-v2'' (memo_fingerprint env mi)
       (default_options\<lparr>ao_rubric_versions := memo_rubrics, ao_prompt_version := Some ''memo-prompts-v1'',
          ao_model_version := Some model, ao_parameters := Some [(''required_sections'', PInt 5)],
          ao_latency_ms := latency, ao_validator_status := status, ao_validator_errors := errors\<rparr>)"

definition pending_proposal_metadata :: "job_env \<Rightarrow> memo_input \<Rightarrow> pyval dict" where
  "pending_proposal_metadata env mi =
     build_artifact_metadata (en_run_id env) ''decision_proposal'' ''decision-proposal-v1'' (memo_fingerprint env mi)
       (default_options\<lparr>ao_rubric_versions := memo_rubrics, ao_prompt_version := Some ''memo-prompts-v1'',
          ao_model_version := Some (en_model env), ao_parameters := Some [(''source'', PStr ''memo-job'')],
          ao_validator_status := ''pending''\<rparr>)"

definition proposal_metadata :: "pyval dict \<Rightarrow> pyval dict" where
  "proposal_metadata meta = dupdate meta [(''artifact_type'', PStr ''decision_proposal''),
     (''code_version'', PStr ''decision-proposal-v1'')]"

definition memo_row :: "job_env \<Rightarrow> memo_input \<Rightarrow> string \<Rightarrow> pyval dict \<Rightarrow> uuid list \<Rightarrow> string \<Rightarrow> pyval dict
    \<Rightarrow> investment_memo" where
  "memo_row env mi status sections evidence model meta =
     \<lparr>memo_id = en_new_id env, memo_opportunity_id = mi_opportunity_id mi,
      memo_thesis_version = t_version (mi_thesis mi), memo_status = status, memo_claim_ids = mi_claim_ids mi,
      memo_assessment_ids = map a_id (mi_assessments mi), memo_sections = sections,
      memo_evidence_ids = evidence, memo_model_version = model, memo_artifact_metadata = meta\<rparr>"

definition proposal_for :: "memo_input \<Rightarrow> string \<Rightarrow> string \<Rightarrow> proposal_values" where
  "proposal_for mi status model = build_decision_proposal (mi_assessments mi) (mi_claim_ids mi)
     (Some (t_version (mi_thesis mi))) status (Some model) (draft_options memo_rubrics)"

definition proposal_row :: "job_env \<Rightarrow> memo_input \<Rightarrow> string \<Rightarrow> string \<Rightarrow> pyval dict \<Rightarrow> decision_proposal" where
  "proposal_row env mi status model meta = \<lparr>dp_id = en_proposal_id env, dp_opportunity_id = mi_opportunity_id mi, dp_memo_id = en_new_id env,
     dp_values = proposal_for mi status model, dp_artifact_metadata = meta\<rparr>"

definition add_rows :: "investment_memo \<Rightarrow> decision_proposal \<Rightarrow> memo_world \<Rightarrow> memo_world" where
  "add_rows m p w = (let v = mw_world w; d = w_db v
     in w\<lparr>mw_world := v\<lparr>w_db := d\<lparr>memos := memos d @ [m]\<rparr>\<rparr>, mw_proposals := mw_proposals w @ [p]\<rparr>)"

text \<open>Assigning to the memo and the proposal the session holds: the rows added last.\<close>

definition set_rows :: "investment_memo \<Rightarrow> decision_proposal \<Rightarrow> memo_world \<Rightarrow> memo_world" where
  "set_rows m p w = (let v = mw_world w; d = w_db v
     in w\<lparr>mw_world := v\<lparr>w_db := d\<lparr>memos := butlast (memos d) @ [m]\<rparr>\<rparr>,
          mw_proposals := butlast (mw_proposals w) @ [p]\<rparr>)"

definition section_value :: "memo_section \<Rightarrow> pyval" where
  "section_value s = PDict [(''title'', PStr (ms_title s)), (''text'', PStr (ms_text s)),
     (''evidence_ids'', strs (ms_evidence_ids s)), (''claim_ids'', strs (ms_claim_ids s))]"

section \<open>The run\<close>

definition persist_pending :: "job_env \<Rightarrow> memo_input \<Rightarrow> memo_world \<Rightarrow> memo_world" where
  "persist_pending env mi w = add_rows
     (memo_row env mi ''pending'' [(''sections'', PList []), (''generation_mode'', PStr ''pending'')]
        (sort (mi_obs_ids mi)) (en_model env) (memo_metadata env mi (en_model env) None ''pending'' []))
     (proposal_row env mi ''pending'' (en_model env) (pending_proposal_metadata env mi)) w"

definition finish_failed :: "job_env \<Rightarrow> memo_input \<Rightarrow> string \<Rightarrow> string option \<Rightarrow> int \<Rightarrow> memo_world
    \<Rightarrow> pyval dict \<times> memo_world" where
  "finish_failed env mi person_id job_id attempt w =
     (let meta = memo_metadata env mi (en_model env) (Some (en_latency env)) ''failed'' [''memo generation failed''];
          res = [(''person_id'', PStr person_id), (''status'', PStr ''failed'')];
          w1 = set_rows
            (memo_row env mi ''failed'' [(''sections'', PList []), (''generation_mode'', PStr ''failed''),
               (''error'', PStr ''memo generation failed'')] (sort (mi_obs_ids mi)) (en_model env) meta)
            (proposal_row env mi ''failed'' (en_model env) (proposal_metadata meta)) w
      in (res, mw_set_job (en_clock env) job_id (failed_update ''memo'' attempt ''memo generation failed'' res) w1))"

definition memo_job_error :: "memo_doc \<Rightarrow> string option" where
  "memo_job_error m =
     (if md_status m = ''degraded'' then Some ''memo degraded; validated generation did not complete''
      else if md_errors m \<noteq> [] then Some ''memo validation failed'' else None)"

definition finish_memo :: "job_env \<Rightarrow> memo_input \<Rightarrow> string \<Rightarrow> string option \<Rightarrow> int \<Rightarrow> memo_doc \<Rightarrow> memo_world
    \<Rightarrow> pyval dict \<times> memo_world" where
  "finish_memo env mi person_id job_id attempt m w =
     (let model = (if md_model_version m = [] then en_model env else md_model_version m);
          meta = memo_metadata env mi model (Some (en_latency env))
            (if md_errors m \<noteq> [] then ''failed'' else ''passed'') (md_errors m);
          res = [(''person_id'', PStr person_id), (''sections'', PInt (int (length (md_sections m)))),
            (''generation_mode'', PStr (md_generation_mode m)), (''status'', PStr (md_status m))];
          w1 = set_rows
            (memo_row env mi (md_status m) [(''sections'', PList (map section_value (md_sections m))),
               (''generation_mode'', PStr (md_generation_mode m)), (''validation_errors'', strs (md_errors m))]
               (mi_obs_ids mi) model meta)
            (proposal_row env mi (md_status m) model (proposal_metadata meta)) w
      in (res, mw_set_job (en_clock env) job_id
            \<lparr>ju_status = (if md_status m = ''succeeded'' then ''succeeded'' else ''failed''),
             ju_phase = ''complete'', ju_attempt = Some attempt, ju_progress = None,
             ju_last_error = memo_job_error m, ju_clear_error = (memo_job_error m = None), ju_result = Some res\<rparr> w1))"

definition memo_client :: "job_env \<Rightarrow> person \<Rightarrow> llm option" where
  "memo_client env p =
     (if en_api_key env \<noteq> [] \<and> ai_allowed (external_ai_use_decision p ''memo'') then Some (en_ask env) else None)"

definition run_memo :: "job_env \<Rightarrow> memo_input \<Rightarrow> string \<Rightarrow> string option \<Rightarrow> int \<Rightarrow> memo_world
    \<Rightarrow> pyval dict \<times> memo_world" where
  "run_memo env mi person_id job_id attempt w =
     (let w1 = persist_pending env mi w; p = mi_person mi
      in (case generate_memo (en_codec env) (memo_client env p)
            \<lparr>mq_evidence_text = mi_evidence_text mi, mq_scorecard = mi_scorecard mi,
             mq_thesis = thesis_summary (en_codec env) (mi_thesis mi),
             mq_person_name = str_or (p_display_name p) (p_stable_id p), mq_model = en_model env,
             mq_allowed_claims = Some (mi_claim_ids mi), mq_allowed_evidence = Some (mi_obs_ids mi)\<rparr> of
            Inl e \<Rightarrow> finish_failed env mi person_id job_id attempt w1
          | Inr m \<Rightarrow> finish_memo env mi person_id job_id attempt m w1))"

definition memo_error :: "job_env \<Rightarrow> string \<Rightarrow> string option \<Rightarrow> int \<Rightarrow> string \<Rightarrow> memo_world
    \<Rightarrow> pyval dict \<times> memo_world" where
  "memo_error env person_id job_id attempt err w =
     (let res = [(''error'', PStr err), (''person_id'', PStr person_id)]
      in (res, mw_set_job (en_clock env) job_id (failed_update ''memo'' attempt err res) w))"

definition pin_thesis :: "opportunity \<Rightarrow> investment_thesis \<Rightarrow> memo_world \<Rightarrow> memo_world" where
  "pin_thesis opp t w =
     (if o_thesis_version opp = None
      then (let v = mw_world w; d = w_db v in w\<lparr>mw_world := v\<lparr>w_db := d\<lparr>opportunities :=
              put_row o_id (opportunities d) (opp\<lparr>o_thesis_version := Some (t_version t)\<rparr>)\<rparr>\<rparr>\<rparr>)
      else w)"

definition memo_for :: "job_env \<Rightarrow> person \<Rightarrow> opportunity \<Rightarrow> string \<Rightarrow> string option \<Rightarrow> int \<Rightarrow> memo_world
    \<Rightarrow> pyval dict \<times> memo_world" where
  "memo_for env p opp person_id job_id attempt w =
     (let d = w_db (mw_world w);
          candidates = claims_with ''supported'' d (p_id p) (o_id opp);
          ids = concat (map ids_or_nil candidates);
          scoped = scoped_observations d (p_id p) (o_id opp) ids;
          cs = accepted_claims scoped candidates;
          assessments = opportunity_assessments w (o_id opp)
      in if ids = [] then memo_error env person_id job_id attempt ''no_accepted_claims'' w
         else if cs = [] then memo_error env person_id job_id attempt ''no_accepted_claim_evidence'' w
         else (case build_evidence_text (package_observations scoped cs) p [] of (text, obs_ids) \<Rightarrow>
           (case pinned_thesis w opp of
              None \<Rightarrow> memo_error env person_id job_id attempt ''no_pinned_thesis'' w
            | Some t \<Rightarrow>
                run_memo env \<lparr>mi_person = p, mi_opportunity_id = o_id opp, mi_claim_ids = map c_id cs,
                    mi_assessments = assessments, mi_thesis = t, mi_obs_ids = obs_ids,
                    mi_evidence_text = redact_direct_identifiers (claim_context cs @ newline @ newline @ text),
                    mi_scorecard = scorecard_summary (en_codec env) (latest_founder_score d (p_id p)) assessments
                      (claims_with ''contradicted'' d (p_id p) (o_id opp))\<rparr>
                  person_id job_id attempt (pin_thesis opp t w))))"

definition generate_memo_job :: "job_env \<Rightarrow> string \<Rightarrow> string \<Rightarrow> string option \<Rightarrow> memo_world
    \<Rightarrow> pyval dict \<times> memo_world" where
  "generate_memo_job env person_id opportunity_id job_id w0 =
     (case begin_job (en_clock env) job_id ''memo'' (mw_world w0) of
        (Inl row, v) \<Rightarrow> ([(''person_id'', PStr person_id), (''status'', PStr ''already_terminal''),
            (''job_id'', PStr row)], w0\<lparr>mw_world := v\<rparr>)
      | (Inr attempt, v) \<Rightarrow>
          (let w = w0\<lparr>mw_world := v\<rparr>; d = w_db v
           in (case parse_uuid person_id of
                 None \<Rightarrow> memo_error env person_id job_id attempt ''invalid_person_id'' w
               | Some pid \<Rightarrow>
                   (case get_row p_id (persons d) pid of
                      None \<Rightarrow> memo_error env person_id job_id attempt ''person_not_found'' w
                    | Some p \<Rightarrow>
                        (case parse_uuid opportunity_id of
                           None \<Rightarrow> memo_error env person_id job_id attempt ''opportunity_id_required'' w
                         | Some oid \<Rightarrow>
                             (case (if list_ex (\<lambda>f. of_opportunity_id f = oid \<and> of_person_id f = p_id p) (founders d)
                                    then get_row o_id (opportunities d) oid else None) of
                                None \<Rightarrow> memo_error env person_id job_id attempt ''opportunity_not_found'' w
                              | Some opp \<Rightarrow> memo_for env p opp person_id job_id attempt w))))))"

section \<open>What a run leaves\<close>

text \<open>A claim that may enter a memo of an opportunity.\<close>

definition acceptable :: "db \<Rightarrow> uuid \<Rightarrow> uuid \<Rightarrow> bool" where
  "acceptable d opp i = list_ex (\<lambda>c. c_id c = i \<and> c_status c = ''supported'' \<and> c_supersession_id c = None
     \<and> c_opportunity_id c = Some opp) (claims d)"

definition final_memo :: "db \<Rightarrow> investment_memo \<Rightarrow> decision_proposal \<Rightarrow> bool" where
  "final_memo d m p = (memo_status m \<in> {''succeeded'', ''failed'', ''degraded''}
     \<and> list_all (acceptable d (memo_opportunity_id m)) (memo_claim_ids m)
     \<and> dp_memo_id p = memo_id m \<and> dp_opportunity_id p = memo_opportunity_id m
     \<and> (pv_readiness_status (dp_values p) = ''ready'' \<longrightarrow> memo_status m = ''succeeded''))"

definition memo_effect :: "memo_world \<Rightarrow> pyval dict \<times> memo_world \<Rightarrow> bool" where
  "memo_effect w out =
     (let d = w_db (mw_world w); d' = w_db (mw_world (snd out))
      in ledger_ok (w_jobs (mw_world (snd out))) \<and> claims d' = claims d
         \<and> (memos d' = memos d \<and> mw_proposals (snd out) = mw_proposals w
            \<or> (\<exists>m p. memos d' = memos d @ [m] \<and> mw_proposals (snd out) = mw_proposals w @ [p] \<and> final_memo d m p)))"

definition memo_ledger :: "memo_world \<Rightarrow> bool" where
  "memo_ledger w = ledger_ok (w_jobs (mw_world w))"

lemma memo_error_effect: "memo_ledger w \<Longrightarrow> memo_effect w (memo_error env person_id job_id attempt err w)"
  by (simp add: memo_error_def memo_effect_def Let_def mw_set_job_def set_job_ledger memo_ledger_def)

lemma proposal_ready: "pv_readiness_status (proposal_for mi st model) = ''ready'' \<Longrightarrow> st = ''succeeded''"
  using ready_iff [of "mi_assessments mi" st]
  by (simp add: proposal_for_def build_decision_proposal_def Let_def split: if_splits)

lemma memo_row_simps [simp]:
  "memo_id (memo_row env mi st se ev mo me) = en_new_id env" "memo_status (memo_row env mi st se ev mo me) = st"
  "memo_opportunity_id (memo_row env mi st se ev mo me) = mi_opportunity_id mi"
  "memo_claim_ids (memo_row env mi st se ev mo me) = mi_claim_ids mi"
  "memo_artifact_metadata (memo_row env mi st se ev mo me) = me"
  by (simp_all add: memo_row_def)

lemma final_rows:
  assumes "st \<in> {''succeeded'', ''failed'', ''degraded''}" "list_all (acceptable d (mi_opportunity_id mi)) (mi_claim_ids mi)"
  shows "final_memo d (memo_row env mi st se ev mo me) (proposal_row env mi st mo' me')"
  using assms proposal_ready by (simp add: final_memo_def proposal_row_def)

lemma replaced_rows:
  "w_db (mw_world (set_rows m p (persist_pending env mi w)))
     = (w_db (mw_world w))\<lparr>memos := memos (w_db (mw_world w)) @ [m]\<rparr>"
  "mw_proposals (set_rows m p (persist_pending env mi w)) = mw_proposals w @ [p]"
  "w_jobs (mw_world (set_rows m p (persist_pending env mi w))) = w_jobs (mw_world w)"
  by (simp_all add: set_rows_def persist_pending_def add_rows_def Let_def)

lemma mw_set_job_simps [simp]:
  "w_db (mw_world (mw_set_job now j u w)) = w_db (mw_world w)" "mw_proposals (mw_set_job now j u w) = mw_proposals w"
  by (simp_all add: mw_set_job_def)

lemma mw_set_job_ledger: "memo_ledger w \<Longrightarrow> memo_ledger (mw_set_job now j u w)"
  by (simp add: memo_ledger_def mw_set_job_def set_job_ledger)

lemma generated_status:
  assumes "generate_memo cx client q = Inr m"
  shows "md_status m \<in> {''succeeded'', ''failed'', ''degraded''}"
  using assms by (auto simp: generate_memo_def fallback_memo_def memo_of_items_def Let_def case_prod_beta
      split: option.splits reply.splits pyval.splits sum.splits)

lemma rows_effect:
  assumes "memo_ledger w" "final_memo (w_db (mw_world w)) m p"
  shows "memo_effect w (res, mw_set_job now j u (set_rows m p (persist_pending env mi w)))"
  using assms mw_set_job_ledger [of "set_rows m p (persist_pending env mi w)" now j u]
  by (auto simp: memo_effect_def Let_def replaced_rows memo_ledger_def)

lemma run_memo_effect:
  assumes "memo_ledger w" "list_all (acceptable (w_db (mw_world w)) (mi_opportunity_id mi)) (mi_claim_ids mi)"
  shows "memo_effect w (run_memo env mi person_id job_id attempt w)"
proof -
  have failed: "memo_effect w (finish_failed env mi person_id job_id attempt (persist_pending env mi w))"
    unfolding finish_failed_def Let_def
    by (rule rows_effect [OF assms(1)], rule final_rows [OF _ assms(2)]) simp
  have "memo_effect w (finish_memo env mi person_id job_id attempt m (persist_pending env mi w))"
    if "md_status m \<in> {''succeeded'', ''failed'', ''degraded''}" for m
    unfolding finish_memo_def Let_def
    by (rule rows_effect [OF assms(1)], rule final_rows [OF that assms(2)])
  with failed show ?thesis
    by (auto simp: run_memo_def Let_def dest: generated_status split: sum.split)
qed

lemma accepted_acceptable:
  assumes "c \<in> set (accepted_claims xs (claims_with ''supported'' d person opp))"
  shows "acceptable d opp (c_id c)"
  using assms by (auto simp: acceptable_def accepted_claims_def claims_with_def list_ex_iff)

lemma pin_thesis_simps [simp]:
  "claims (w_db (mw_world (pin_thesis x t w))) = claims (w_db (mw_world w))"
  "memos (w_db (mw_world (pin_thesis x t w))) = memos (w_db (mw_world w))"
  "w_jobs (mw_world (pin_thesis x t w)) = w_jobs (mw_world w)" "mw_proposals (pin_thesis x t w) = mw_proposals w"
  by (simp_all add: pin_thesis_def Let_def)

lemma acceptable_cong: "claims d' = claims d \<Longrightarrow> acceptable d' = acceptable d"
  by (simp add: acceptable_def fun_eq_iff)

text \<open>An effect carries over between worlds that agree on the claims, the memos and the ledger.\<close>

lemma memo_effect_cong:
  assumes "claims (w_db (mw_world v)) = claims (w_db (mw_world w))"
    "memos (w_db (mw_world v)) = memos (w_db (mw_world w))" "mw_proposals v = mw_proposals w"
  shows "memo_effect v out \<Longrightarrow> memo_effect w out"
  using assms acceptable_cong [OF assms(1)] by (simp add: memo_effect_def final_memo_def Let_def)

lemma memo_for_effect:
  assumes "memo_ledger w"
  shows "memo_effect w (memo_for env p opp person_id job_id attempt w)"
proof -
  let ?d = "w_db (mw_world w)"
  have run: "memo_effect w (run_memo env mi person_id job_id attempt (pin_thesis opp t w))"
    if "mi_opportunity_id mi = o_id opp"
      "mi_claim_ids mi = map c_id (accepted_claims xs (claims_with ''supported'' ?d (p_id p) (o_id opp)))" for mi t xs
  proof (rule memo_effect_cong [of "pin_thesis opp t w"])
    have "acceptable (w_db (mw_world (pin_thesis opp t w))) = acceptable ?d"
      by (rule acceptable_cong) simp
    then show "memo_effect (pin_thesis opp t w) (run_memo env mi person_id job_id attempt (pin_thesis opp t w))"
      using that assms accepted_acceptable
      by (intro run_memo_effect) (auto simp: memo_ledger_def list_all_iff)
  qed simp_all
  show ?thesis
    by (auto simp: memo_for_def Let_def memo_error_effect [OF assms] intro!: run split: prod.split option.split)
qed


definition memo_world0 :: memo_world where
  "memo_world0 = \<lparr>mw_world = scoring_world, mw_theses = [], mw_assessments = [], mw_proposals = []\<rparr>"


section \<open>Consent\<close>

lemma memo_needs_consent:
  assumes "parse_uuid person_id = Some pid" and "get_row p_id (persons (w_db (mw_world w))) pid = Some p"
    and "\<not> ai_allowed (external_ai_use_decision p ''memo'')"
  shows "generate_memo_job (env\<lparr>en_ask := ask1\<rparr>) person_id opportunity_id job_id w
       = generate_memo_job (env\<lparr>en_ask := ask2\<rparr>) person_id opportunity_id job_id w"
proof -
  have fp: "memo_fingerprint (env\<lparr>en_ask := ask1\<rparr>) = memo_fingerprint (env\<lparr>en_ask := ask2\<rparr>)"
    by (simp add: memo_fingerprint_def fun_eq_iff)
  have client: "memo_client (env\<lparr>en_ask := a\<rparr>) p = None" for a using assms(3) by (simp add: memo_client_def)
  have "run_memo (env\<lparr>en_ask := ask1\<rparr>) mi person_id job_id attempt v
      = run_memo (env\<lparr>en_ask := ask2\<rparr>) mi person_id job_id attempt v" if "mi_person mi = p" for mi attempt v
    unfolding run_memo_def Let_def that client
    by (simp add: persist_pending_def finish_failed_def finish_memo_def memo_metadata_def fp memo_row_def
        proposal_row_def pending_proposal_metadata_def Let_def split: sum.split)
  moreover have err: "memo_error (env\<lparr>en_ask := ask1\<rparr>) = memo_error (env\<lparr>en_ask := ask2\<rparr>)"
    by (simp add: memo_error_def fun_eq_iff)
  ultimately have "memo_for (env\<lparr>en_ask := ask1\<rparr>) p opp person_id job_id attempt v
      = memo_for (env\<lparr>en_ask := ask2\<rparr>) p opp person_id job_id attempt v" for opp attempt v
    by (simp add: memo_for_def Let_def split: prod.split option.split)
  then show ?thesis
    using begin_job_db [of "en_clock env" job_id "''memo''" "mw_world w"] assms(1,2) err
    by (auto simp: generate_memo_job_def Let_def split: prod.splits sum.splits option.splits)
qed

text \<open>
  C8. Without consent no model is asked: when a person's purpose gate denies scoring, or denies the
  memo, the job of that purpose does the same, result and state, whatever model stands behind it.
\<close>

theorem external_model_needs_consent:
  assumes "parse_uuid person_id = Some pid" and "get_row p_id (persons (w_db (mw_world w))) pid = Some p"
  shows "(\<not> ai_allowed (external_ai_use_decision p ''scoring'') \<longrightarrow>
      score_candidate_job (env\<lparr>en_ask := ask1\<rparr>) person_id job_id (mw_world w)
      = score_candidate_job (env\<lparr>en_ask := ask2\<rparr>) person_id job_id (mw_world w))
    \<and> (\<not> ai_allowed (external_ai_use_decision p ''memo'') \<longrightarrow>
      generate_memo_job (env\<lparr>en_ask := ask1\<rparr>) person_id opportunity_id job_id w
      = generate_memo_job (env\<lparr>en_ask := ask2\<rparr>) person_id opportunity_id job_id w)"
  using scoring_needs_consent [OF assms] memo_needs_consent [OF assms] by blast

definition silent_world :: memo_world where
  "silent_world = memo_world0\<lparr>mw_world := scoring_world\<lparr>w_db := (w_db scoring_world)\<lparr>persons :=
     [consenting_person\<lparr>p_id := ''00000000-0000-0000-0000-000000000001'', p_purposes := PDict []\<rparr>]\<rparr>\<rparr>\<rparr>"

theorem external_model_needs_consent_witness:
  "score_candidate_job (scoring_env0\<lparr>en_ask := (\<lambda>s u. Call_Failed)\<rparr>) ''00000000-0000-0000-0000-000000000001'' None (mw_world silent_world)
   = score_candidate_job (scoring_env0\<lparr>en_ask := (\<lambda>s u. Content None)\<rparr>) ''00000000-0000-0000-0000-000000000001'' None (mw_world silent_world)"
proof -
  let ?p = "consenting_person\<lparr>p_id := ''00000000-0000-0000-0000-000000000001'', p_purposes := PDict []\<rparr>"
  have id: "parse_uuid ''00000000-0000-0000-0000-000000000001'' = Some ''00000000-0000-0000-0000-000000000001''"
    by code_simp
  have row: "get_row p_id (persons (w_db (mw_world silent_world))) ''00000000-0000-0000-0000-000000000001'' = Some ?p"
    by (simp add: silent_world_def get_row_def)
  have "\<not> ai_allowed (external_ai_use_decision ?p ''scoring'')"
    by (simp add: consenting_person_def external_ai_use_decision_def consent_of_def blocking_consent_states_def)
  with external_model_needs_consent [OF id row] show ?thesis by blast
qed

section \<open>What the metadata says of a memo that was not validated\<close>

lemma memo_metadata_status:
  "dget (memo_metadata env mi model latency st errors) ''validator_status'' = Some (PStr st)"
  by (simp add: memo_metadata_def build_artifact_metadata_def default_options_def)

text \<open>
  A memo nobody validated is recorded as validated: without a model the job stores the template
  as a degraded memo, and the artifact metadata of that row says its validator passed.
\<close>

theorem degraded_memo_marked_passed:
  assumes "en_api_key env = []"
  shows "\<exists>m. memos (w_db (mw_world (snd (run_memo env mi person_id job_id attempt w))))
      = memos (w_db (mw_world w)) @ [m]
    \<and> memo_status m = ''degraded'' \<and> dget (memo_artifact_metadata m) ''validator_status'' = Some (PStr ''passed'')"
proof -
  have "generate_memo (en_codec env) (memo_client env p) q = Inr (fallback_memo (mq_person_name q) ''degraded'')" for p q
    using assms by (simp add: memo_client_def generate_memo_def)
  then show ?thesis
    by (simp add: run_memo_def Let_def finish_memo_def replaced_rows fallback_memo_def memo_metadata_status)
qed

definition memo_input0 :: memo_input where
  "memo_input0 = \<lparr>mi_person = consenting_person, mi_opportunity_id = ''o1'', mi_claim_ids = [], mi_assessments = [],
     mi_thesis = sample_thesis, mi_obs_ids = [], mi_evidence_text = [], mi_scorecard = []\<rparr>"

theorem degraded_memo_marked_passed_witness:
  "\<exists>m. memo_status m = ''degraded'' \<and> dget (memo_artifact_metadata m) ''validator_status'' = Some (PStr ''passed'')
     \<and> memos (w_db (mw_world (snd (run_memo (scoring_env0\<lparr>en_api_key := []\<rparr>) memo_input0 ''p1'' None 1 memo_world0)))) = [m]"
  using degraded_memo_marked_passed [of "scoring_env0\<lparr>en_api_key := []\<rparr>" memo_input0 "''p1''" None 1 memo_world0]
  by (auto simp: memo_world0_def scoring_world_def empty_db_def)

section \<open>Redaction and citations\<close>

definition numbered_claim :: claim where
  "numbered_claim = \<lparr>c_id = ''12345678-1234-4567-89ab-0123456789ab'', c_observation_ids = [''x1''],
     c_artifact_metadata = [], c_subject_id = Some ''p1'', c_opportunity_id = Some ''o1'', c_predicate = ''bio'',
     c_object_value = ''ok'', c_status = ''supported'', c_confidence = 1, c_trust_version = None,
     c_trust_score = None, c_trust_interval = None, c_trust_components = [], c_trust_explanation = None,
     c_valid_start = 0, c_valid_end = None, c_supersession_id = None, c_created_at = 0\<rparr>"

definition numbered_text :: string where
  "numbered_text = ''--- accepted claims ---'' @ newline
     @ ''[12345678-1234-4567-89ab-0123456789ab] bio: ok (observations: x1)''"

lemma numbered_context: "claim_context [numbered_claim] = numbered_text"
  by (simp add: claim_context_def numbered_claim_def numbered_text_def)

lemma numbered_redacted:
  "redact_direct_identifiers numbered_text
   = ''--- accepted claims ---'' @ newline @ ''[[REDACTED_PHONE]-89ab-0123456789ab] bio: ok (observations: x1)''"
proof -
  have "CHR ''@'' \<notin> set numbered_text" by (simp add: numbered_text_def newline_def)
  moreover have "sub_all phone_match ''[REDACTED_PHONE]'' None numbered_text
      = ''--- accepted claims ---'' @ newline @ ''[[REDACTED_PHONE]-89ab-0123456789ab] bio: ok (observations: x1)''"
    by code_simp
  ultimately show ?thesis by (simp add: redact_direct_identifiers_def email_needs_at)
qed

text \<open>
  Redaction takes an identifier for a phone number: the memo job redacts the whole input package,
  and a claim id whose first groups are decimal digits loses them, so the model that is told to cite
  it never sees it.
\<close>

theorem redaction_hides_claim_ids:
  "contains (claim_context [numbered_claim]) (c_id numbered_claim)
   \<and> \<not> contains (redact_direct_identifiers (claim_context [numbered_claim])) (c_id numbered_claim)
   \<and> contains (redact_direct_identifiers (claim_context [numbered_claim])) ''[[REDACTED_PHONE]-89ab-0123456789ab] bio: ok''"
proof -
  have "contains numbered_text (c_id numbered_claim)" by code_simp
  moreover have "\<not> contains (''--- accepted claims ---'' @ newline
      @ ''[[REDACTED_PHONE]-89ab-0123456789ab] bio: ok (observations: x1)'') (c_id numbered_claim)" by code_simp
  moreover have "contains (''--- accepted claims ---'' @ newline
      @ ''[[REDACTED_PHONE]-89ab-0123456789ab] bio: ok (observations: x1)'')
      ''[[REDACTED_PHONE]-89ab-0123456789ab] bio: ok''" by code_simp
  ultimately show ?thesis by (simp only: numbered_context numbered_redacted simp_thms)
qed

end
