(* ===== verification/Connector_Contract.thy ===== *)
theory Connector_Contract
  imports Privacy_Policy Py_Text
begin

text \<open>
  The contract between connectors and the collector, \<^verbatim>\<open>app/collectors/base.py\<close>: the seeds and
  material a connector may return, and the classification of its failures for retry. An exception is
  what the classifier reads of it: its class, the name of the class and its text.
\<close>

section \<open>Failures\<close>

datatype failure_kind = Transient | Rate_Limited | Permanent

datatype exception_class =
    Connector_Error failure_kind bool
  | Connection_Lost
  | Os_Error
  | Other_Error

record exc =
  x_class :: exception_class
  x_name :: string
  x_text :: string

text \<open>\<open>re.findall\<close> for a pattern with one group: the length of a match and the group.\<close>

function find_all :: "(char option \<Rightarrow> string \<Rightarrow> (nat \<times> 'a) option) \<Rightarrow> char option \<Rightarrow> string \<Rightarrow> 'a list" where
  "find_all m prev s =
     (if s = [] then []
      else (case m prev s of
              None \<Rightarrow> find_all m (Some (hd s)) (tl s)
            | Some (n, v) \<Rightarrow> v # find_all m (Some (last (take (max 1 n) s))) (drop (max 1 n) s)))"
  by pat_completeness auto
termination
  by (relation "measure (\<lambda>(m, prev, s). length s)") auto

declare find_all.simps [simp del]

definition digits3 :: "string \<Rightarrow> int option" where
  "digits3 s =
     (if 3 \<le> length s \<and> list_all is_digit (take 3 s) \<and> \<not> word_at (first_char (drop 3 s))
      then Some (100 * digit_val (s ! 0) + 10 * digit_val (s ! 1) + digit_val (s ! 2)) else None)"

text \<open>The rest of the status pattern, \<^verbatim>\<open>\s*[:=]?\s*(\d{3})\b\<close>.\<close>

definition status_tail :: "string \<Rightarrow> (nat \<times> int) option" where
  "status_tail s =
     (let a = dropWhile is_space s;
          b = (case a of c # cs \<Rightarrow> if c \<in> {CHR '':'', CHR ''=''} then cs else a | [] \<Rightarrow> []);
          t = dropWhile is_space b
      in map_option (\<lambda>v. (length s - length t + 3, v)) (digits3 t))"

definition after_prefix :: "string \<Rightarrow> string \<Rightarrow> (nat \<times> int) option" where
  "after_prefix p s = (if startswith s p
     then map_option (\<lambda>(n, v). (length p + n, v)) (status_tail (drop (length p) s)) else None)"

text \<open>\<^verbatim>\<open>(?:\bhttp(?:\s+status)?|\bstatus(?:_code)?|\bstatus)\s*[:=]?\s*(\d{3})\b\<close>, alternatives in order.\<close>

definition http_status :: "string \<Rightarrow> (nat \<times> int) option" where
  "http_status s =
     (if startswith s ''http'' then
        (let r = drop 4 s; spaces = length (takeWhile is_space r); t = drop spaces r
         in if 0 < spaces \<and> startswith t ''status''
            then map_option (\<lambda>(n, v). (4 + spaces + n, v)) (after_prefix ''status'' t) else None)
      else None)"

definition status_match :: "char option \<Rightarrow> string \<Rightarrow> (nat \<times> int) option" where
  "status_match prev s =
     (if word_at prev then None
      else (case http_status s of Some x \<Rightarrow> Some x | None \<Rightarrow>
            case after_prefix ''http'' s of Some x \<Rightarrow> Some x | None \<Rightarrow>
            case after_prefix ''status_code'' s of Some x \<Rightarrow> Some x | None \<Rightarrow> after_prefix ''status'' s))"

text \<open>\<^verbatim>\<open>(?:error|code|response)\D+([45]\d{2})\b\<close>\<close>

definition coded_match :: "char option \<Rightarrow> string \<Rightarrow> (nat \<times> int) option" where
  "coded_match prev s =
     (case filter (startswith s) [''error'', ''code'', ''response''] of
        [] \<Rightarrow> None
      | p # _ \<Rightarrow>
          (let r = drop (length p) s; gap = length (takeWhile (\<lambda>c. \<not> is_digit c) r); t = drop gap r
           in if 0 < gap \<and> first_char t \<in> {Some CHR ''4'', Some CHR ''5''}
              then map_option (\<lambda>v. (length p + gap + 3, v)) (digits3 t) else None))"

text \<open>\<^verbatim>\<open>\b429\b\<close>\<close>

definition match_429 :: "char option \<Rightarrow> string \<Rightarrow> (nat \<times> unit) option" where
  "match_429 prev s = (if \<not> word_at prev \<and> startswith s ''429'' \<and> \<not> word_at (first_char (drop 3 s))
     then Some (3, ()) else None)"

definition transient_tokens :: "string list" where
  "transient_tokens = [''timeout'', ''timed out'', ''connection reset'', ''connection refused'',
     ''connection failed'', ''network error'', ''all connection attempts failed'',
     ''server disconnected'', ''disconnected without'', ''temporarily unavailable'']"

definition classify_connector_message :: "string \<Rightarrow> failure_kind \<times> bool" where
  "classify_connector_message text =
     (let message = lower text;
          statuses = find_all status_match None message
      in if find_all match_429 None message \<noteq> [] \<or> list_ex (contains message)
              [''rate limit'', ''rate_limited'', ''throttl'', ''too many requests'']
         then (Rate_Limited, True)
         else (let all_statuses = statuses @ find_all coded_match None message
               in if list_ex (\<lambda>n. 500 \<le> n \<and> n \<le> 599) all_statuses then (Transient, True)
                  else if list_ex (\<lambda>n. n = 408 \<or> n = 425) all_statuses then (Transient, True)
                  else if list_ex (\<lambda>n. 400 \<le> n \<and> n \<le> 499) all_statuses then (Permanent, False)
                  else if list_ex (contains message) transient_tokens then (Transient, True)
                  else (Permanent, False)))"

definition classify_connector_failure :: "exc \<Rightarrow> failure_kind \<times> bool" where
  "classify_connector_failure x =
     (case x_class x of
        Connector_Error kind retryable \<Rightarrow> (kind, retryable)
      | cls \<Rightarrow>
          (let name = lower (x_name x); text = lower (x_text x)
           in if cls = Connection_Lost then (Transient, True)
              else if list_ex (contains name) [''ratelimit'', ''throttle''] then (Rate_Limited, True)
              else if cls = Os_Error \<and> list_ex (contains text)
                [''network'', ''connection'', ''unreachable'', ''broken pipe''] then (Transient, True)
              else if list_ex (contains name) [''timeout'', ''connecterror'', ''networkerror'', ''readerror'',
                ''writeerror'', ''remoteprotocol'', ''protocolerror''] then (Transient, True)
              else classify_connector_message (x_text x)))"

text \<open>The constructor of a connector error, with its optional overrides.\<close>

definition connector_error :: "string \<Rightarrow> failure_kind option \<Rightarrow> bool option \<Rightarrow> exc" where
  "connector_error message kind retryable =
     (case classify_connector_message message of (inferred, inferred_retry) \<Rightarrow>
        let k = (case kind of Some k \<Rightarrow> k | None \<Rightarrow> inferred);
            r = (case retryable of Some r \<Rightarrow> r
                 | None \<Rightarrow> (case kind of None \<Rightarrow> inferred_retry | Some k \<Rightarrow> k \<in> {Transient, Rate_Limited}))
        in \<lparr>x_class = Connector_Error k r, x_name = ''ConnectorError'', x_text = message\<rparr>)"

definition normalize_connector_error :: "exc \<Rightarrow> string \<Rightarrow> exc" where
  "normalize_connector_error x ctx =
     (case x_class x of
        Connector_Error k r \<Rightarrow> x
      | _ \<Rightarrow> (case classify_connector_failure x of (kind, retryable) \<Rightarrow>
          connector_error (ctx @ '': '' @ (if x_text x = [] then x_name x else x_text x)) (Some kind) (Some retryable)))"

fun failure_key :: "failure_kind \<Rightarrow> string" where
  "failure_key Transient = ''transient''"
| "failure_key Rate_Limited = ''rate_limited''"
| "failure_key Permanent = ''permanent''"

text \<open>A loop that stops at the first exception, or gives what every step gave.\<close>

fun each_ok :: "('a \<Rightarrow> exc + 'b) \<Rightarrow> 'a list \<Rightarrow> exc + 'b list" where
  "each_ok f [] = Inr []"
| "each_ok f (x # xs) =
     (case f x of Inl e \<Rightarrow> Inl e
      | Inr y \<Rightarrow> (case each_ok f xs of Inl e \<Rightarrow> Inl e | Inr ys \<Rightarrow> Inr (y # ys)))"

section \<open>Discovered seeds\<close>

record seed =
  sd_source_type :: string
  sd_handle :: string
  sd_display_hint :: string
  sd_metadata :: "pyval dict"

text \<open>What a connector hands over: anything, a list of anything, seeds with untyped fields.\<close>

record raw_seed =
  raw_source_type :: pyval
  raw_handle :: pyval
  raw_display_hint :: string
  raw_metadata :: pyval

datatype discovered = Not_A_List | Seed_List "raw_seed option list"

definition max_discovery_page_size :: nat where
  "max_discovery_page_size = 100"

definition contract_error :: "string \<Rightarrow> exc" where
  "contract_error message = connector_error message None None"

fun text_value :: "pyval \<Rightarrow> string option" where
  "text_value (PStr s) = (if strip s = [] then None else Some s)"
| "text_value _ = None"

fun dict_value :: "pyval \<Rightarrow> pyval dict option" where
  "dict_value (PDict d) = Some d"
| "dict_value _ = None"

definition validate_seed :: "nat \<Rightarrow> raw_seed option \<Rightarrow> exc + seed" where
  "validate_seed i raw =
     (let at_seed = ''connector discovery seed '' @ nat_str i
      in case raw of
           None \<Rightarrow> Inl (contract_error (at_seed @ '' must be a Seed''))
         | Some r \<Rightarrow>
             (case text_value (raw_source_type r) of
                None \<Rightarrow> Inl (contract_error (at_seed @ '' is missing source_type''))
              | Some src \<Rightarrow>
                  (case text_value (raw_handle r) of
                     None \<Rightarrow> Inl (contract_error (at_seed @ '' is missing handle''))
                   | Some h \<Rightarrow>
                       (case dict_value (raw_metadata r) of
                          None \<Rightarrow> Inl (contract_error (at_seed @ '' metadata must be an object''))
                        | Some m \<Rightarrow> Inr \<lparr>sd_source_type = src, sd_handle = h,
                            sd_display_hint = raw_display_hint r, sd_metadata = m\<rparr>))))"

fun validate_seeds :: "nat \<Rightarrow> raw_seed option list \<Rightarrow> exc + seed list" where
  "validate_seeds i [] = Inr []"
| "validate_seeds i (r # rs) =
     (case validate_seed i r of
        Inl e \<Rightarrow> Inl e
      | Inr s \<Rightarrow> (case validate_seeds (i + 1) rs of Inl e \<Rightarrow> Inl e | Inr ss \<Rightarrow> Inr (s # ss)))"

definition validate_discovered :: "discovered \<Rightarrow> exc + seed list" where
  "validate_discovered x =
     (case x of
        Not_A_List \<Rightarrow> Inl (contract_error ''connector discovery output must be a list'')
      | Seed_List rs \<Rightarrow>
          if max_discovery_page_size < length rs
          then Inl (contract_error (''connector discovery page exceeds '' @ nat_str max_discovery_page_size @ '' seeds''))
          else validate_seeds 0 rs)"

section \<open>Collected material\<close>

record collected =
  co_content :: "char list"
  co_content_type :: string
  co_observations :: "pyval dict list"
  co_source_type :: string
  co_uri :: string
  co_license_hint :: "pyval dict option"

record raw_collected =
  rc_content :: pyval
  rc_content_type :: pyval
  rc_observations :: pyval
  rc_source_type :: pyval
  rc_uri :: pyval
  rc_license_hint :: pyval

text \<open>
  The first fault of an observation, if any. \<open>parse_iso\<close> is \<open>datetime.fromisoformat\<close>: the instant an ISO
  text denotes, a naive one read as UTC.
\<close>

definition observation_fault :: "(string \<Rightarrow> instant option) \<Rightarrow> pyval dict \<Rightarrow> string option" where
  "observation_fault parse_iso d =
     (let field = (\<lambda>k. case dget d k of Some v \<Rightarrow> v | None \<Rightarrow> PNone)
      in if text_value (field ''predicate'') = None then Some ''connector observation is missing predicate''
         else if dget d ''object_value'' = None then Some ''connector observation is missing object_value''
         else (case field ''object_value'' of
             PStr v \<Rightarrow>
               if strip v = [] then Some ''connector observation has an empty object_value''
               else (case field ''observed_at'' of
                   PNone \<Rightarrow> Some ''connector observation is missing observed_at''
                 | PTime _ \<Rightarrow> None
                 | PStr t \<Rightarrow> if strip t = [] then Some ''connector observation is missing observed_at''
                     else if parse_iso t = None then Some ''connector observation has an invalid observed_at''
                     else None
                 | _ \<Rightarrow> Some ''connector observation has an invalid observed_at'')
           | _ \<Rightarrow> Some ''connector observation object_value must be a string''))"

fun validate_observations :: "(string \<Rightarrow> instant option) \<Rightarrow> pyval list \<Rightarrow> exc + pyval dict list" where
  "validate_observations parse_iso [] = Inr []"
| "validate_observations parse_iso (x # xs) =
     (case dict_value x of
        None \<Rightarrow> Inl (contract_error ''connector observations must be objects'')
      | Some d \<Rightarrow>
          (case observation_fault parse_iso d of
             Some why \<Rightarrow> Inl (contract_error why)
           | None \<Rightarrow> (case validate_observations parse_iso xs of Inl e \<Rightarrow> Inl e | Inr ds \<Rightarrow> Inr (d # ds))))"

definition validate_collected :: "(string \<Rightarrow> instant option) \<Rightarrow> raw_collected \<Rightarrow> exc + collected" where
  "validate_collected parse_iso r =
     (case rc_content r of
        PBytes content \<Rightarrow>
          if content = [] then Inl (contract_error ''connector returned empty content'')
          else (case text_value (rc_content_type r) of
              None \<Rightarrow> Inl (contract_error ''connector returned an empty content type'')
            | Some ct \<Rightarrow> (case text_value (rc_source_type r) of
                None \<Rightarrow> Inl (contract_error ''connector returned an empty source type'')
              | Some src \<Rightarrow> (case text_value (rc_uri r) of
                  None \<Rightarrow> Inl (contract_error ''connector returned an empty source URI'')
                | Some uri \<Rightarrow>
                    if rc_license_hint r \<noteq> PNone \<and> dict_value (rc_license_hint r) = None
                    then Inl (contract_error ''connector license hint must be an object'')
                    else (case rc_observations r of
                        PList xs \<Rightarrow> (case validate_observations parse_iso xs of
                            Inl e \<Rightarrow> Inl e
                          | Inr ds \<Rightarrow> Inr \<lparr>co_content = content, co_content_type = ct, co_observations = ds,
                              co_source_type = src, co_uri = uri, co_license_hint = dict_value (rc_license_hint r)\<rparr>)
                      | _ \<Rightarrow> Inl (contract_error ''connector observations must be a list'')))))
      | _ \<Rightarrow> Inl (contract_error ''connector content must be bytes''))"

section \<open>Properties\<close>

text \<open>An error is marked for retry exactly when it is not permanent.\<close>

definition consistent :: "failure_kind \<times> bool \<Rightarrow> bool" where
  "consistent c = (snd c \<longleftrightarrow> fst c \<noteq> Permanent)"

lemma classify_message_consistent: "consistent (classify_connector_message t)"
  by (simp add: classify_connector_message_def Let_def consistent_def)

lemma classify_failure_consistent:
  assumes "\<And>k r. x_class x = Connector_Error k r \<Longrightarrow> consistent (k, r)"
  shows "consistent (classify_connector_failure x)"
  using assms classify_message_consistent [of "x_text x"]
  by (cases "x_class x") (simp_all add: classify_connector_failure_def Let_def consistent_def)

lemma contract_error_consistent:
  "\<exists>k r. x_class (contract_error m) = Connector_Error k r \<and> consistent (k, r)"
  using classify_message_consistent [of m]
  by (auto simp: contract_error_def connector_error_def Let_def consistent_def split: prod.split)

text \<open>
  Every failure the collector classifies by itself is marked for retry exactly when its kind is
  not permanent; turning it into a connector error keeps the classification, and doing so twice
  changes nothing.
\<close>

theorem failure_classification_stable:
  assumes "\<And>k r. x_class x = Connector_Error k r \<Longrightarrow> r = (k \<noteq> Permanent)"
  shows "snd (classify_connector_failure x) = (fst (classify_connector_failure x) \<noteq> Permanent)
    \<and> classify_connector_failure (normalize_connector_error x ctx) = classify_connector_failure x
    \<and> normalize_connector_error (normalize_connector_error x ctx) ctx' = normalize_connector_error x ctx"
proof -
  have "consistent (classify_connector_failure x)"
    by (rule classify_failure_consistent) (simp add: assms consistent_def)
  moreover have cls: "x_class (normalize_connector_error x ctx)
      = Connector_Error (fst (classify_connector_failure x)) (snd (classify_connector_failure x))"
    by (cases "x_class x")
      (simp_all add: normalize_connector_error_def classify_connector_failure_def [of x] connector_error_def
        Let_def case_prod_beta)
  ultimately show ?thesis
    by (simp add: consistent_def normalize_connector_error_def [of "normalize_connector_error x ctx"]
        classify_connector_failure_def [of "normalize_connector_error x ctx"] prod_eq_iff)
qed

theorem failure_classification_stable_witness:
  "classify_connector_failure (normalize_connector_error
     \<lparr>x_class = Other_Error, x_name = ''HTTPStatusError'', x_text = ''HTTP status: 503''\<rparr> ''github'') = (Transient, True)"
proof -
  let ?x = "\<lparr>x_class = Other_Error, x_name = ''HTTPStatusError'', x_text = ''HTTP status: 503''\<rparr>"
  have "classify_connector_failure ?x = (Transient, True)" by code_simp
  with failure_classification_stable [of ?x "''github''"] show ?thesis by simp
qed

end
