(* ===== verification/Collection_Store.thy ===== *)
theory Collection_Store
  imports Connector_Contract Job_World Merge_Persons Committee
begin

text \<open>
  What a collection leaves behind: the deduplication fingerprints of
  \<^verbatim>\<open>app/collectors/persistence.py\<close>, the content-addressed object store of \<^verbatim>\<open>app/storage.py\<close>, the
  success watermarks of \<^verbatim>\<open>app/collectors/telemetry.py\<close>, and the writers of people, snapshots and
  observations in \<^verbatim>\<open>app/collectors/jobs.py\<close>. Rows that other collectors commit between a writer's
  lookup and its insert are an argument of the writer; the digests are arguments too.
\<close>

section \<open>Fingerprints\<close>

definition length_prefixed :: "string \<Rightarrow> string" where
  "length_prefixed s = nat_str (length s) @ '':'' @ s"

definition fingerprint_text :: "string option list \<Rightarrow> string" where
  "fingerprint_text parts = concat (map (\<lambda>p. length_prefixed (case p of None \<Rightarrow> [] | Some s \<Rightarrow> s)) parts)"

definition fingerprint :: "(char list \<Rightarrow> string) \<Rightarrow> string option list \<Rightarrow> string" where
  "fingerprint md5 parts = md5 (fingerprint_text parts)"

definition snapshot_persistence_fingerprint :: "(char list \<Rightarrow> string) \<Rightarrow> string \<Rightarrow> string \<Rightarrow> string \<Rightarrow> string" where
  "snapshot_persistence_fingerprint md5 uri source_type content_hash =
     fingerprint md5 [Some uri, Some source_type, Some content_hash]"

text \<open>The locator is the compact key-sorted text of its JSON value.\<close>

definition observation_persistence_fingerprint :: "(char list \<Rightarrow> string) \<Rightarrow> (pyval \<Rightarrow> string) \<Rightarrow> uuid \<Rightarrow> uuid option
    \<Rightarrow> uuid option \<Rightarrow> string \<Rightarrow> string \<Rightarrow> string \<Rightarrow> pyval option \<Rightarrow> string" where
  "observation_persistence_fingerprint md5 dumps snapshot_id subject_id opportunity_id predicate object_value
     extractor_version source_locator =
     fingerprint md5 [Some snapshot_id, subject_id, opportunity_id, Some predicate, Some object_value,
       Some extractor_version, Some (case source_locator of None \<Rightarrow> [] | Some v \<Rightarrow> dumps (canonical v))]"

text \<open>A reader of the fingerprinted text: digits up to a colon, then that many bytes.\<close>

lemma drop_Cons_shorter: "x # xs = drop n s \<Longrightarrow> length xs < length s"
  by (metis diff_le_self le_imp_less_Suc length_Cons length_drop less_le_trans lessI)

function read_parts :: "string \<Rightarrow> string list option" where
  "read_parts s =
     (if s = [] then Some []
      else (let ds = takeWhile is_digit s; rest = drop (length ds) s
            in case (digits_from 0 ds, rest) of
                 (Some n, c # body) \<Rightarrow>
                   if c = CHR '':'' \<and> nat n \<le> length body
                   then map_option ((#) (take (nat n) body)) (read_parts (drop (nat n) body))
                   else None
               | _ \<Rightarrow> None))"
  by pat_completeness auto
termination
  by (relation "measure length") (auto dest!: drop_Cons_shorter)

declare read_parts.simps [simp del]

lemma takeWhile_digits: "takeWhile is_digit (nat_str n @ '':'' @ r) = nat_str n"
proof -
  have "\<not> is_digit CHR '':''" by code_simp
  then show ?thesis using nat_str_digits [of n] by (simp add: takeWhile_append)
qed

lemma read_length_prefixed: "read_parts (length_prefixed p @ r) = map_option ((#) p) (read_parts r)"
  by (subst read_parts.simps)
    (simp add: length_prefixed_def takeWhile_digits digits_from_nat_str takeWhile_digits [simplified])

lemma read_fingerprint_text:
  "read_parts (fingerprint_text parts) = Some (map (\<lambda>p. case p of None \<Rightarrow> [] | Some s \<Rightarrow> s) parts)"
proof (induction parts)
  case Nil
  then show ?case by (simp add: fingerprint_text_def read_parts.simps)
next
  case (Cons p parts)
  then show ?case by (simp add: fingerprint_text_def read_length_prefixed)
qed

section \<open>The object store\<close>

definition object_path :: "string \<Rightarrow> string \<Rightarrow> string" where
  "object_path source_type content_hash = source_type @ ''/'' @ content_hash"

definition put_snapshot :: "(char list \<Rightarrow> string) \<Rightarrow> (string \<times> char list) list \<Rightarrow> char list \<Rightarrow> string
    \<Rightarrow> (string \<times> string) \<times> (string \<times> char list) list" where
  "put_snapshot sha objects content source_type =
     (let content_hash = sha content; path = object_path source_type content_hash
      in ((content_hash, path), if dget objects path = None then dset objects path content else objects))"

definition get_snapshot :: "(string \<times> char list) list \<Rightarrow> string \<Rightarrow> char list option" where
  "get_snapshot objects path = dget objects path"

text \<open>Every object lies under the digest of its content.\<close>

definition content_addressed :: "(char list \<Rightarrow> string) \<Rightarrow> (string \<times> char list) list \<Rightarrow> bool" where
  "content_addressed sha objects = list_all (\<lambda>(path, content). suffix (''/'' @ sha content) path) objects"

text \<open>
  What a writer of snapshots relies on: a stored object is found under the path it was given, with the
  digest it was given; nothing stored before changes.
\<close>

locale object_store =
  fixes store :: "'s \<Rightarrow> char list \<Rightarrow> string \<Rightarrow> (string \<times> string) \<times> 's"
    and fetch :: "'s \<Rightarrow> string \<Rightarrow> char list option"
    and sound :: "'s \<Rightarrow> bool"
    and digest :: "char list \<Rightarrow> string"
  assumes sound_store: "sound st \<Longrightarrow> sound (snd (store st content src))"
    and store_hash: "fst (fst (store st content src)) = digest content"
    and fetch_stored: "sound st \<Longrightarrow> \<exists>kept. fetch (snd (store st content src)) (snd (fst (store st content src))) = Some kept
      \<and> digest kept = digest content"
    and fetch_kept: "fetch st path = Some kept \<Longrightarrow> fetch (snd (store st content src)) path = Some kept"
begin

fun store_all :: "'s \<Rightarrow> (char list \<times> string) list \<Rightarrow> 's" where
  "store_all st [] = st"
| "store_all st ((content, src) # rest) = store_all (snd (store st content src)) rest"

lemma sound_store_all: "sound st \<Longrightarrow> sound (store_all st cs)"
  by (induction st cs rule: store_all.induct) (auto intro: sound_store)

lemma fetch_store_all: "fetch st path = Some kept \<Longrightarrow> fetch (store_all st cs) path = Some kept"
  by (induction st cs rule: store_all.induct) (auto intro: fetch_kept)

text \<open>An object outlives everything stored after it, and is the stored one when digests do not collide.\<close>

lemma stored_survives:
  assumes "sound st"
  shows "\<exists>kept. fetch (store_all (snd (store st content src)) cs) (snd (fst (store st content src))) = Some kept
    \<and> digest kept = digest content"
  using fetch_stored [OF assms] fetch_store_all by blast

end

text \<open>A digest of the width of SHA-256's hexadecimal text; the identity on one that has it.\<close>

definition hex64 :: "(char list \<Rightarrow> string) \<Rightarrow> char list \<Rightarrow> string" where
  "hex64 sha content = take 64 (sha content @ replicate 64 CHR ''0'')"

lemma length_hex64 [simp]: "length (hex64 sha content) = 64"
  by (simp add: hex64_def)

lemma hex64_id: "(\<And>c. length (sha c) = 64) \<Longrightarrow> hex64 sha = sha"
  by (simp add: hex64_def fun_eq_iff)

lemma suffix_same_length: "suffix xs ys \<Longrightarrow> suffix zs ys \<Longrightarrow> length xs = length zs \<Longrightarrow> xs = zs"
  by (auto simp: suffix_def)

lemma content_addressed_get:
  "content_addressed sha objects \<Longrightarrow> dget objects path = Some kept \<Longrightarrow> suffix (''/'' @ sha kept) path"
  by (auto simp: content_addressed_def list_all_iff dest!: dget_SomeD)

lemma content_addressed_put:
  "content_addressed sha objects \<Longrightarrow> content_addressed sha (snd (put_snapshot sha objects content src))"
proof -
  have fresh: "dget d k = None \<Longrightarrow> dset d k v = d @ [(k, v)]" for d :: "(string \<times> char list) list" and k v
    by (induction d k v rule: dset.induct) (auto split: if_splits)
  assume "content_addressed sha objects"
  then show ?thesis
    by (auto simp: content_addressed_def put_snapshot_def Let_def fresh object_path_def suffix_def)
qed

interpretation minio: object_store "put_snapshot (hex64 sha)" get_snapshot "content_addressed (hex64 sha)" "hex64 sha"
  for sha :: "char list \<Rightarrow> string"
proof (unfold_locales, goal_cases)
  case (1 st content src)
  then show ?case by (rule content_addressed_put)
next
  case (2 st content src)
  then show ?case by (simp add: put_snapshot_def Let_def)
next
  case (3 st content src)
  let ?path = "object_path src (hex64 sha content)"
  show ?case
  proof (cases "dget st ?path")
    case None
    then show ?thesis by (simp add: put_snapshot_def Let_def get_snapshot_def)
  next
    case (Some kept)
    have "suffix (''/'' @ hex64 sha kept) ?path" "suffix (''/'' @ hex64 sha content) ?path"
      using content_addressed_get [OF 3 Some] by (auto simp: object_path_def suffix_def)
    from suffix_same_length [OF this] have "hex64 sha kept = hex64 sha content" by simp
    with Some show ?thesis by (simp add: put_snapshot_def Let_def get_snapshot_def)
  qed
next
  case (4 st path kept content src)
  then show ?case by (auto simp: put_snapshot_def Let_def get_snapshot_def)
qed

section \<open>Success watermarks\<close>

text \<open>
  \<open>INSERT ... ON CONFLICT DO UPDATE\<close> with the later of the two times; \<open>Inl\<close> a blank source type.
\<close>

fun upsert_watermark :: "string \<Rightarrow> instant \<Rightarrow> connector_telemetry list \<Rightarrow> connector_telemetry list" where
  "upsert_watermark src t [] = [\<lparr>tel_source_type = src, tel_last_success_at = t\<rparr>]"
| "upsert_watermark src t (row # rows) =
     (if tel_source_type row = src then row\<lparr>tel_last_success_at := max (tel_last_success_at row) t\<rparr> # rows
      else row # upsert_watermark src t rows)"

definition record_connector_success :: "instant \<Rightarrow> connector_telemetry list \<Rightarrow> string \<Rightarrow> pydatetime option
    \<Rightarrow> string + connector_telemetry list" where
  "record_connector_success now rows src occurred_at =
     (if strip src = [] then Inl ''source_type must be a non-empty string''
      else (let t = (case occurred_at of None \<Rightarrow> now | Some (Naive i) \<Rightarrow> i | Some (Aware i offset) \<Rightarrow> i)
            in Inr (upsert_watermark src t rows)))"

definition watermark :: "connector_telemetry list \<Rightarrow> string \<Rightarrow> instant option" where
  "watermark rows src = map_option tel_last_success_at (find (\<lambda>r. tel_source_type r = src) rows)"

lemma watermark_upsert:
  "watermark (upsert_watermark src t rows) src' =
     (if src' = src then Some (case watermark rows src of None \<Rightarrow> t | Some u \<Rightarrow> max u t) else watermark rows src')"
  by (induction src t rows rule: upsert_watermark.induct) (auto simp: watermark_def)

section \<open>People\<close>

datatype store_error = Multiple_Results | Integrity_Error | Chain_Too_Long

text \<open>
  What a writer takes from outside: the clock, the ids of new rows by table and row number, the digests,
  the codec of texts, \<open>datetime.fromisoformat\<close>, the hash of a value's JSON text (a time as ISO text) and the
  elapsed milliseconds.
\<close>

record store_env =
  sv_now :: instant
  sv_id :: "string \<Rightarrow> nat \<Rightarrow> uuid"
  sv_sha :: "char list \<Rightarrow> string"
  sv_md5 :: "char list \<Rightarrow> string"
  sv_codec :: codec
  sv_parse_iso :: "string \<Rightarrow> instant option"
  sv_digest :: "pyval \<Rightarrow> string"
  sv_latency :: int

text \<open>The supersession chain of a person: \<open>None\<close> when the fuel runs out, \<open>Some None\<close> when it leaves the table.\<close>

fun follow_chain :: "nat \<Rightarrow> person list \<Rightarrow> person \<Rightarrow> person option option" where
  "follow_chain 0 people p = None"
| "follow_chain (Suc fuel) people p =
     (if \<not> p_canonical p \<and> str_truthy (p_superseded_by p)
      then (case get_row p_id people (the (p_superseded_by p)) of
              None \<Rightarrow> Some None
            | Some q \<Rightarrow> follow_chain fuel people q)
      else Some (Some p))"

definition has_handle :: "string \<Rightarrow> string \<Rightarrow> person \<Rightarrow> bool" where
  "has_handle source_type handle p =
     (case p_handles p of None \<Rightarrow> False | Some hs \<Rightarrow> dget hs source_type = Some handle)"

definition new_person :: "uuid \<Rightarrow> instant \<Rightarrow> string \<Rightarrow> string \<Rightarrow> string \<Rightarrow> person" where
  "new_person i now source_type handle display_hint =
     \<lparr>p_id = i, p_stable_id = source_type @ '':'' @ handle,
      p_display_name = Some (if display_hint = [] then handle else display_hint), p_email = None,
      p_handles = Some [(source_type, handle)], p_consent_state = ''pending'', p_legal_basis = None,
      p_notice_version = None, p_purposes = PDict [], p_provider_policy = None, p_retention_days = PNone,
      p_residency = None, p_avatar_data = None, p_avatar_mime_type = None, p_avatar_sha256 = None,
      p_avatar_source_type = None, p_avatar_source_url = None, p_avatar_image_url = None,
      p_avatar_fetched_at = None, p_superseded_by = None, p_canonical = True, p_merged_at = None,
      p_created_at = Some now\<rparr>"

definition get_or_create_person :: "store_env \<Rightarrow> db \<Rightarrow> string \<Rightarrow> string \<Rightarrow> string
    \<Rightarrow> store_error + (person option \<times> db)" where
  "get_or_create_person env d source_type handle display_hint =
     (case filter (has_handle source_type handle) (persons d) of
        p # q # rest \<Rightarrow> Inl Multiple_Results
      | [p] \<Rightarrow> (case follow_chain (Suc (length (persons d))) (persons d) p of
            None \<Rightarrow> Inl Chain_Too_Long
          | Some x \<Rightarrow> Inr (x, d))
      | [] \<Rightarrow>
          (let p = new_person (sv_id env ''persons'' (length (persons d))) (sv_now env) source_type handle display_hint
           in if list_ex (\<lambda>q. p_stable_id q = p_stable_id p) (persons d) then Inl Integrity_Error
              else Inr (Some p, d\<lparr>persons := persons d @ [p]\<rparr>)))"

section \<open>Unique inserts\<close>

text \<open>The partial unique index on the fingerprint: a row whose key is taken is refused.\<close>

definition unique_insert :: "('r \<Rightarrow> string option) \<Rightarrow> 'r \<Rightarrow> 'r list \<Rightarrow> 'r list option" where
  "unique_insert fp r rows =
     (if fp r \<noteq> None \<and> list_ex (\<lambda>x. fp x = fp r) rows then None else Some (rows @ [r]))"

definition commit_rivals :: "('r \<Rightarrow> string option) \<Rightarrow> 'r list \<Rightarrow> 'r list \<Rightarrow> 'r list" where
  "commit_rivals fp rivals rows =
     foldl (\<lambda>acc r. case unique_insert fp r acc of None \<Rightarrow> acc | Some acc' \<Rightarrow> acc') rows rivals"

definition newest :: "('r \<Rightarrow> instant) \<Rightarrow> 'r list \<Rightarrow> 'r option" where
  "newest key rows = (case sort_key (\<lambda>r. - key r) rows of [] \<Rightarrow> None | r # _ \<Rightarrow> Some r)"

section \<open>Snapshots\<close>

definition same_version :: "string \<Rightarrow> string \<Rightarrow> string \<Rightarrow> source_snapshot \<Rightarrow> bool" where
  "same_version uri source_type content_hash s =
     (sn_uri s = uri \<and> sn_source_type s = source_type \<and> sn_content_hash s = content_hash)"

definition new_snapshot :: "store_env \<Rightarrow> collected \<Rightarrow> string \<Rightarrow> string \<Rightarrow> nat \<Rightarrow> source_snapshot" where
  "new_snapshot env co content_hash path n =
     \<lparr>sn_id = sv_id env ''source_snapshots'' n, sn_uri = co_uri co, sn_source_type = co_source_type co,
      sn_content_hash = content_hash,
      sn_fingerprint = Some (snapshot_persistence_fingerprint (sv_md5 env) (co_uri co) (co_source_type co) content_hash),
      sn_storage_path = path, sn_license_metadata = co_license_hint co,
      sn_use_policy = PDict (build_source_use_policy (co_source_type co) (co_license_hint co)),
      sn_collected_at = sv_now env\<rparr>"

text \<open>The object stays stored when the row fails; a savepoint keeps the rows of the transaction.\<close>

definition write_snapshot :: "store_env \<Rightarrow> source_snapshot list \<Rightarrow> collected \<Rightarrow> world
    \<Rightarrow> (store_error + source_snapshot) \<times> world" where
  "write_snapshot env rivals co w =
     (case put_snapshot (sv_sha env) (w_objects w) (co_content co) (co_source_type co) of
        ((content_hash, path), objects) \<Rightarrow>
          (let w1 = w\<lparr>w_objects := objects\<rparr>;
               version = same_version (co_uri co) (co_source_type co) content_hash
           in case newest sn_collected_at (filter version (w_snapshots w)) of
                Some s \<Rightarrow> (Inr s, w1)
              | None \<Rightarrow>
                  (let rows = commit_rivals sn_fingerprint rivals (w_snapshots w);
                       s = new_snapshot env co content_hash path (length rows)
                   in case unique_insert sn_fingerprint s rows of
                        Some rows' \<Rightarrow> (Inr s, w1\<lparr>w_snapshots := rows'\<rparr>)
                      | None \<Rightarrow>
                          (case newest sn_collected_at (filter version rows) of
                             None \<Rightarrow> (Inl Integrity_Error, w1\<lparr>w_snapshots := rows\<rparr>)
                           | Some s' \<Rightarrow> (Inr s', w1\<lparr>w_snapshots := rows\<rparr>)))))"

section \<open>Observations\<close>

record draft =
  dr_predicate :: string
  dr_object_value :: string
  dr_observed_at :: instant
  dr_confidence :: real
  dr_locator :: pyval

text \<open>\<open>None\<close> for an \<open>observed_at\<close> that is not the text of a datetime.\<close>

definition observed_time :: "store_env \<Rightarrow> pyval dict \<Rightarrow> instant option" where
  "observed_time env raw =
     (case dget raw ''observed_at'' of
        Some (PStr t) \<Rightarrow> sv_parse_iso env t
      | Some (PTime i) \<Rightarrow> Some i
      | _ \<Rightarrow> Some (sv_now env))"

definition fallback_locator :: "source_snapshot \<Rightarrow> pyval" where
  "fallback_locator s = PDict [(''kind'', PStr ''source_snapshot''), (''source_uri'', PStr (sn_uri s)),
     (''reason'', PStr ''coordinate unavailable from connector'')]"

definition accept_observation :: "store_env \<Rightarrow> source_snapshot \<Rightarrow> pyval dict \<Rightarrow> draft option" where
  "accept_observation env s raw =
     (case observed_time env raw of
        None \<Rightarrow> None
      | Some at_time \<Rightarrow>
          (let predicate = py_str (sv_codec env) (get_or raw ''predicate'' (PStr []));
               object_value = py_str (sv_codec env) (get_or raw ''object_value'' (PStr []))
           in if sv_now env + 5 * us_minute < at_time then None
              else if strip predicate = [] \<or> strip object_value = [] then None
              else (case py_float (sv_codec env) (PStr (py_str (sv_codec env) (get_or raw ''confidence'' (PFloat 1)))) of
                      Inl e \<Rightarrow> None
                    | Inr confidence \<Rightarrow>
                        if confidence < 0 \<or> 1 < confidence then None
                        else Some \<lparr>dr_predicate = predicate, dr_object_value = object_value,
                          dr_observed_at = at_time, dr_confidence = confidence,
                          dr_locator = (case get_or raw ''source_locator'' PNone of PDict l \<Rightarrow> PDict l
                            | _ \<Rightarrow> fallback_locator s)\<rparr>)))"

definition extractor_of :: "source_snapshot \<Rightarrow> string" where
  "extractor_of s = sn_source_type s @ ''-v1''"

definition same_output :: "source_snapshot \<Rightarrow> uuid option \<Rightarrow> uuid option \<Rightarrow> draft \<Rightarrow> observation \<Rightarrow> bool" where
  "same_output s subject_id opportunity_id dr x =
     (ob_snapshot_id x = sn_id s \<and> ob_subject_id x = subject_id \<and> ob_opportunity_id x = opportunity_id
      \<and> ob_predicate x = dr_predicate dr \<and> ob_object_value x = dr_object_value dr
      \<and> ob_extractor_version x = extractor_of s)"

definition new_observation :: "store_env \<Rightarrow> source_snapshot \<Rightarrow> uuid option \<Rightarrow> uuid option \<Rightarrow> draft \<Rightarrow> nat
    \<Rightarrow> observation" where
  "new_observation env s subject_id opportunity_id dr n =
     \<lparr>ob_id = sv_id env ''observations'' n, ob_snapshot_id = sn_id s, ob_subject_id = subject_id,
      ob_opportunity_id = opportunity_id, ob_predicate = dr_predicate dr, ob_object_value = dr_object_value dr,
      ob_source_locator = dr_locator dr, ob_observed_at = dr_observed_at dr, ob_extractor_version = extractor_of s,
      ob_fingerprint = Some (observation_persistence_fingerprint (sv_md5 env) (cx_dumps (sv_codec env)) (sn_id s)
        subject_id opportunity_id (dr_predicate dr) (dr_object_value dr) (extractor_of s) None),
      ob_confidence = dr_confidence dr, ob_embedding = None, ob_created_at = sv_now env\<rparr>"

definition write_observation :: "store_env \<Rightarrow> source_snapshot \<Rightarrow> uuid option \<Rightarrow> uuid option \<Rightarrow> observation list
    \<Rightarrow> draft \<Rightarrow> observation list \<Rightarrow> store_error + (uuid \<times> observation list)" where
  "write_observation env s subject_id opportunity_id rivals dr rows =
     (let same = same_output s subject_id opportunity_id dr
      in case find same rows of
           Some x \<Rightarrow> Inr (ob_id x, rows)
         | None \<Rightarrow>
             (let rows1 = commit_rivals ob_fingerprint rivals rows;
                  x = new_observation env s subject_id opportunity_id dr (length rows1)
              in case unique_insert ob_fingerprint x rows1 of
                   Some rows2 \<Rightarrow> Inr (ob_id x, rows2)
                 | None \<Rightarrow> (case newest ob_created_at (filter same rows1) of
                       None \<Rightarrow> Inl Integrity_Error
                     | Some y \<Rightarrow> Inr (ob_id y, rows1))))"

text \<open>The loop over the connector's observations; \<open>rivals n\<close> are committed while the \<open>n\<close>-th from the end is written.\<close>

fun write_each :: "store_env \<Rightarrow> source_snapshot \<Rightarrow> uuid option \<Rightarrow> uuid option \<Rightarrow> (nat \<Rightarrow> observation list)
    \<Rightarrow> pyval dict list \<Rightarrow> observation list \<Rightarrow> store_error + (uuid list \<times> observation list)" where
  "write_each env s subject_id opportunity_id rivals [] rows = Inr ([], rows)"
| "write_each env s subject_id opportunity_id rivals (raw # raws) rows =
     (case accept_observation env s raw of
        None \<Rightarrow> write_each env s subject_id opportunity_id rivals raws rows
      | Some dr \<Rightarrow>
          (case write_observation env s subject_id opportunity_id (rivals (length raws)) dr rows of
             Inl e \<Rightarrow> Inl e
           | Inr (i, rows1) \<Rightarrow>
               (case write_each env s subject_id opportunity_id rivals raws rows1 of
                  Inl e \<Rightarrow> Inl e
                | Inr (ids, rows2) \<Rightarrow> Inr (i # ids, rows2))))"

definition quarantined :: "source_snapshot \<Rightarrow> bool" where
  "quarantined s = (case sn_use_policy s of PDict policy \<Rightarrow> \<not> source_allows_model_use s | _ \<Rightarrow> False)"

definition write_observations :: "store_env \<Rightarrow> source_snapshot \<Rightarrow> pyval dict list \<Rightarrow> uuid option \<Rightarrow> uuid option
    \<Rightarrow> (nat \<Rightarrow> observation list) \<Rightarrow> db \<Rightarrow> store_error + (uuid list \<times> db)" where
  "write_observations env s raws subject_id opportunity_id rivals d =
     (if quarantined s then Inr ([], d)
      else (case write_each env s subject_id opportunity_id rivals raws (observations d) of
              Inl e \<Rightarrow> Inl e
            | Inr (ids, rows) \<Rightarrow> Inr (ids, d\<lparr>observations := rows\<rparr>)))"

section \<open>The unique index\<close>

definition unique_index :: "('r \<Rightarrow> string option) \<Rightarrow> 'r list \<Rightarrow> bool" where
  "unique_index fp rows = distinct (filter (\<lambda>k. k \<noteq> None) (map fp rows))"

lemma unique_insert_index: "unique_index fp rows \<Longrightarrow> unique_insert fp r rows = Some rows' \<Longrightarrow> unique_index fp rows'"
  by (auto simp: unique_index_def unique_insert_def list_ex_iff split: if_splits)

lemma unique_insert_Some: "unique_insert fp r rows = Some rows' \<Longrightarrow> rows' = rows @ [r]"
  by (auto simp: unique_insert_def split: if_splits)

lemma commit_rivals_index: "unique_index fp rows \<Longrightarrow> unique_index fp (commit_rivals fp rivals rows)"
  by (induction rivals arbitrary: rows)
    (auto simp: commit_rivals_def unique_insert_index split: option.split)

lemma commit_rivals_prefix: "prefix rows (commit_rivals fp rivals rows)"
proof (induction rivals arbitrary: rows)
  case Nil
  then show ?case by (simp add: commit_rivals_def)
next
  case (Cons r rivals)
  let ?next = "case unique_insert fp r rows of None \<Rightarrow> rows | Some acc \<Rightarrow> acc"
  have "prefix rows ?next" by (auto dest: unique_insert_Some split: option.split)
  also have "prefix ?next (commit_rivals fp (r # rivals) rows)"
    using Cons [of ?next] by (simp add: commit_rivals_def)
  finally show ?case .
qed

lemma newest_SomeD: "newest key rows = Some r \<Longrightarrow> r \<in> set rows"
  using set_sort [of "\<lambda>r. - key r" rows]
  by (cases "sort_key (\<lambda>r. - key r) rows") (auto simp: newest_def simp del: set_sort)

lemma newest_Nil [simp]: "newest key [] = None"
  by (simp add: newest_def)

lemma newest_None_iff [simp]: "newest key rows = None \<longleftrightarrow> rows = []"
proof -
  have "newest key rows = None \<longleftrightarrow> sort_key (\<lambda>r. - key r) rows = []"
    by (cases "sort_key (\<lambda>r. - key r) rows") (simp_all add: newest_def)
  also have "\<dots> \<longleftrightarrow> rows = []" by (metis length_0_conv length_sort)
  finally show ?thesis .
qed

section \<open>What a writer leaves\<close>

text \<open>One row was found or added for a draft: its id is returned, the table only grew.\<close>

definition recorded :: "source_snapshot \<Rightarrow> uuid option \<Rightarrow> uuid option \<Rightarrow> draft \<Rightarrow> uuid \<Rightarrow> observation list \<Rightarrow> bool" where
  "recorded s subject_id opportunity_id dr i rows =
     list_ex (\<lambda>x. ob_id x = i \<and> same_output s subject_id opportunity_id dr x) rows"

lemma recorded_mono: "recorded s u v dr i rows \<Longrightarrow> prefix rows rows' \<Longrightarrow> recorded s u v dr i rows'"
  by (auto simp: recorded_def list_ex_iff prefix_def)

lemma recordedI: "x \<in> set rows \<Longrightarrow> same_output s u v dr x \<Longrightarrow> recorded s u v dr (ob_id x) rows"
  by (auto simp: recorded_def list_ex_iff)

lemma new_observation_same: "same_output s u v dr (new_observation env s u v dr n)"
  by (simp add: same_output_def new_observation_def)

lemma write_observation_sound:
  assumes "write_observation env s u v rivals dr rows = Inr (i, rows')" "unique_index ob_fingerprint rows"
  shows "unique_index ob_fingerprint rows' \<and> prefix rows rows' \<and> recorded s u v dr i rows'"
proof (cases "find (same_output s u v dr) rows")
  case (Some x)
  then have "x \<in> set rows" "same_output s u v dr x" by (auto simp: find_Some_iff)
  with assms Some recordedI show ?thesis by (auto simp: write_observation_def Let_def)
next
  case None
  let ?rows1 = "commit_rivals ob_fingerprint rivals rows"
  let ?x = "new_observation env s u v dr (length ?rows1)"
  have i1: "unique_index ob_fingerprint ?rows1" and p1: "prefix rows ?rows1"
    using assms(2) commit_rivals_index commit_rivals_prefix by blast+
  show ?thesis
  proof (cases "unique_insert ob_fingerprint ?x ?rows1")
    case (Some rows2)
    then have r: "rows' = rows2" "i = ob_id ?x" "rows2 = ?rows1 @ [?x]"
      using assms(1) None unique_insert_Some [OF Some] by (auto simp: write_observation_def Let_def)
    have "?x \<in> set rows2" using r by simp
    from recordedI [OF this new_observation_same] unique_insert_index [OF i1 Some] p1 r show ?thesis by simp
  next
    case clash: None
    from assms(1) None clash obtain y where y: "newest ob_created_at (filter (same_output s u v dr) ?rows1) = Some y"
      "i = ob_id y" "rows' = ?rows1" by (auto simp: write_observation_def Let_def split: option.splits)
    from newest_SomeD [OF y(1)] y i1 p1 recordedI show ?thesis by auto
  qed
qed

lemma write_each_sound:
  assumes "write_each env s u v rivals raws rows = Inr (ids, rows')" "unique_index ob_fingerprint rows"
  shows "unique_index ob_fingerprint rows' \<and> prefix rows rows'
    \<and> list_all2 (\<lambda>dr i. recorded s u v dr i rows') (List.map_filter (accept_observation env s) raws) ids"
  using assms
proof (induction raws arbitrary: rows ids)
  case Nil
  then show ?case by (simp add: List.map_filter_def)
next
  case (Cons raw raws)
  show ?case
  proof (cases "accept_observation env s raw")
    case None
    with Cons show ?thesis by (simp add: List.map_filter_def)
  next
    case (Some dr)
    with Cons.prems(1) obtain i rows1 ids1 where
      one: "write_observation env s u v (rivals (length raws)) dr rows = Inr (i, rows1)" and
      rest: "write_each env s u v rivals raws rows1 = Inr (ids1, rows')" and ids: "ids = i # ids1"
      by (auto split: sum.splits)
    from write_observation_sound [OF one Cons.prems(2)] have
      w: "unique_index ob_fingerprint rows1" "prefix rows rows1" "recorded s u v dr i rows1" by auto
    from Cons.IH [OF rest w(1)] w Some ids show ?thesis
      by (auto simp: List.map_filter_def intro: recorded_mono)
  qed
qed

lemma write_observation_again:
  assumes "write_observation env s u v [] dr rows = Inr (i, rows')" "prefix rows' rows''"
  shows "write_observation env s u v rivals dr rows'' = Inr (i, rows'')"
proof -
  have rivals: "commit_rivals ob_fingerprint [] rows = rows" by (simp add: commit_rivals_def)
  have "\<exists>x. find (same_output s u v dr) rows' = Some x \<and> ob_id x = i"
  proof (cases "find (same_output s u v dr) rows")
    case (Some x)
    with assms(1) show ?thesis by (auto simp: write_observation_def Let_def)
  next
    case None
    then have "filter (same_output s u v dr) rows = []" by (auto simp: find_None_iff filter_empty_conv)
    then have "newest ob_created_at (filter (same_output s u v dr) rows) = None" by simp
    with assms(1) None rivals new_observation_same show ?thesis
      by (auto simp: write_observation_def Let_def find_append dest!: unique_insert_Some split: option.splits)
  qed
  with assms(2) show ?thesis by (auto simp: write_observation_def Let_def prefix_def find_append)
qed

lemma write_each_again:
  assumes "write_each env s u v (\<lambda>_. []) raws rows = Inr (ids, rows')" "unique_index ob_fingerprint rows"
    "prefix rows' rows''"
  shows "write_each env s u v rivals raws rows'' = Inr (ids, rows'')"
  using assms
proof (induction raws arbitrary: rows ids)
  case (Cons raw raws)
  show ?case
  proof (cases "accept_observation env s raw")
    case None
    with Cons show ?thesis by simp
  next
    case (Some dr)
    with Cons.prems(1) obtain i rows1 ids1 where
      one: "write_observation env s u v [] dr rows = Inr (i, rows1)" and
      rest: "write_each env s u v (\<lambda>_. []) raws rows1 = Inr (ids1, rows')" and ids: "ids = i # ids1"
      by (auto split: sum.splits)
    have u1: "unique_index ob_fingerprint rows1" using write_observation_sound [OF one Cons.prems(2)] by blast
    have "prefix rows1 rows''" using write_each_sound [OF rest u1] Cons.prems(3) by (meson prefix_order.trans)
    with one Cons.IH [OF rest u1 Cons.prems(3)] Some ids show ?thesis by (simp add: write_observation_again)
  qed
qed simp

lemma twice_filter:
  assumes "x \<in> set xs" "y \<in> set xs" "x \<noteq> y" "P x" "P y"
  shows "\<exists>a b rest. filter P xs = a # b # rest"
proof -
  have "{x, y} \<subseteq> set (filter P xs)" using assms by auto
  moreover have "ys = [] \<or> (\<exists>a. ys = [a]) \<or> (\<exists>a b rest. ys = a # b # rest)" for ys :: "'a list"
    by (cases ys; cases "tl ys") auto
  ultimately show ?thesis using assms(3) by (metis empty_set empty_subsetI insert_subset list.simps(15) singletonD subset_empty)
qed

section \<open>Properties\<close>

text \<open>
  The text a fingerprint hashes can be read back: the lengths in front of the parts make it
  unambiguous, so two keys give the same text only when they are equal, a missing part counting as
  an empty one, whatever delimiters the parts contain.
\<close>

theorem fingerprint_text_roundtrip:
  "read_parts (fingerprint_text parts) = Some (map (\<lambda>p. case p of None \<Rightarrow> [] | Some s \<Rightarrow> s) parts)
   \<and> (fingerprint_text parts = fingerprint_text parts'
      \<longleftrightarrow> map (\<lambda>p. case p of None \<Rightarrow> [] | Some s \<Rightarrow> s) parts = map (\<lambda>p. case p of None \<Rightarrow> [] | Some s \<Rightarrow> s) parts')"
proof -
  have texts: "fingerprint_text ps = concat (map length_prefixed (map (\<lambda>p. case p of None \<Rightarrow> [] | Some s \<Rightarrow> s) ps))" for ps
    by (simp add: fingerprint_text_def comp_def)
  show ?thesis
    using read_fingerprint_text [of parts] read_fingerprint_text [of parts'] texts [of parts] texts [of parts']
    by (metis option.inject)
qed

text \<open>
  C17. The observation writer is safe under concurrent collectors: whatever rows others commit while it
  runs, the unique index holds afterwards, the table only grew, and there is exactly one id for each
  accepted observation, of a row with its snapshot, subject, opportunity, predicate and value.
\<close>

theorem observation_writer_sound:
  assumes "write_observations env s raws u v rivals d = Inr (ids, d')" and "unique_index ob_fingerprint (observations d)"
  shows "unique_index ob_fingerprint (observations d') \<and> prefix (observations d) (observations d')
    \<and> d' = d\<lparr>observations := observations d'\<rparr>
    \<and> (if quarantined s then ids = [] \<and> d' = d
       else list_all2 (\<lambda>dr i. recorded s u v dr i (observations d')) (List.map_filter (accept_observation env s) raws) ids)"
proof (cases "quarantined s")
  case True
  with assms show ?thesis by (simp add: write_observations_def)
next
  case False
  with assms(1) obtain rows where w: "write_each env s u v rivals raws (observations d) = Inr (ids, rows)"
    "d' = d\<lparr>observations := rows\<rparr>" by (auto simp: write_observations_def split: sum.splits)
  from write_each_sound [OF w(1) assms(2)] w(2) False show ?thesis by simp
qed

text \<open>
  Writing the same observations again stores nothing: a second delivery returns the ids of the first
  and leaves the database as it was, whatever other collectors try to commit meanwhile.
\<close>

theorem observation_rewrite_idempotent:
  assumes "write_observations env s raws u v (\<lambda>_. []) d = Inr (ids, d')" and "unique_index ob_fingerprint (observations d)"
  shows "write_observations env s raws u v rivals d' = Inr (ids, d')"
proof (cases "quarantined s")
  case True
  with assms(1) show ?thesis by (simp add: write_observations_def)
next
  case False
  with assms(1) obtain rows where w: "write_each env s u v (\<lambda>_. []) raws (observations d) = Inr (ids, rows)"
    "d' = d\<lparr>observations := rows\<rparr>" by (auto simp: write_observations_def split: sum.splits)
  from write_each_again [OF w(1) assms(2), of rows] w(2) False show ?thesis by (simp add: write_observations_def)
qed

text \<open>
  A merge breaks discovery of the merged handle: the canonical person receives the duplicate's
  handles but the duplicate keeps them, so the next lookup by that handle finds two rows and fails.
\<close>

theorem merged_handle_blocks_discovery:
  assumes "merge_persons now d c dup = Inr (p, d')" and "c \<noteq> dup"
    and "get_row p_id (persons d) dup = Some q" and "p_canonical q" and "has_handle src handle q"
    and "get_row p_id (persons d) c = Some k" and "p_handles k = None \<or> dget (the (p_handles k)) src = None"
  shows "get_or_create_person env d' src handle hint = Inl Multiple_Results"
proof -
  let ?m = "merged_canonical k q"
  let ?g = "q\<lparr>p_canonical := False, p_superseded_by := Some c, p_merged_at := Some now\<rparr>"
  from merge_Inr [OF assms(1,3,4)] assms(6) have
    people: "persons d' = put_row p_id (put_row p_id (persons d) ?m) ?g" by auto
  have ids: "p_id ?m = c" "p_id q = dup"
    using get_row_key [OF assms(6)] get_row_key [OF assms(3)] by (simp_all add: merged_canonical_def)
  have "get_row p_id (persons d') c = Some ?m" "get_row p_id (persons d') dup = Some ?g"
    using ids assms(2,3,6) by (simp_all add: people get_row_put_row)
  then have rows: "?m \<in> set (persons d')" "?g \<in> set (persons d')" using get_row_key by fast+
  have "has_handle src handle ?m" "has_handle src handle ?g"
    using assms(5,7) by (auto simp: has_handle_def merged_canonical_def dget_merge_handles split: option.splits)
  moreover have "?m \<noteq> ?g" using ids assms(2) by (auto dest: arg_cong [where f = p_id])
  ultimately obtain a b rest where "filter (has_handle src handle) (persons d') = a # b # rest"
    using twice_filter [OF rows] by blast
  then show ?thesis by (simp add: get_or_create_person_def)
qed

section \<open>Samples\<close>

definition sample_store_env :: store_env where
  "sample_store_env = \<lparr>sv_now = 1000, sv_id = (\<lambda>table n. table @ nat_str n), sv_sha = hex64 (\<lambda>c. c), sv_md5 = (\<lambda>c. c),
     sv_codec = \<lparr>cx_loads = (\<lambda>_. None), cx_dumps = (\<lambda>_. []), cx_show = (\<lambda>v. if v = PFloat 1 then ''1.0'' else []),
       cx_float = (\<lambda>t. if t = ''1.0'' then Some 1 else None)\<rparr>,
     sv_parse_iso = (\<lambda>_. None), sv_digest = (\<lambda>_. []), sv_latency = 0\<rparr>"

definition sample_collected :: "pyval dict option \<Rightarrow> collected" where
  "sample_collected license = \<lparr>co_content = ''{}'', co_content_type = ''application/json'',
     co_observations = [[(''predicate'', PStr ''github_login''), (''object_value'', PStr ''ada'')]],
     co_source_type = ''github'', co_uri = ''https://github.com/ada'', co_license_hint = license\<rparr>"

definition sample_snapshot :: source_snapshot where
  "sample_snapshot = new_snapshot sample_store_env (sample_collected (Some [(''model_use'', PStr ''allowed'')])) ''h'' ''github/h'' 0"

definition sample_draft :: draft where
  "sample_draft = \<lparr>dr_predicate = ''github_login'', dr_object_value = ''ada'', dr_observed_at = 1000, dr_confidence = 1,
     dr_locator = fallback_locator sample_snapshot\<rparr>"

lemma sample_not_quarantined: "\<not> quarantined sample_snapshot"
  by (simp add: quarantined_def sample_snapshot_def new_snapshot_def sample_collected_def
      build_source_use_policy_def dget_dupdate)

lemma sample_accept: "accept_observation sample_store_env sample_snapshot
    [(''predicate'', PStr ''github_login''), (''object_value'', PStr ''ada'')] = Some sample_draft"
proof -
  have "strip ''github_login'' \<noteq> []" "strip ''ada'' \<noteq> []" by code_simp+
  then show ?thesis
    by (simp add: accept_observation_def observed_time_def sample_store_env_def get_or_def py_str_def sample_draft_def us_defs)
qed

lemma sample_write:
  "write_observations sample_store_env sample_snapshot
     [[(''predicate'', PStr ''github_login''), (''object_value'', PStr ''ada'')]] (Some ''p1'') None (\<lambda>_. []) empty_db
   = Inr ([''observations0''], empty_db\<lparr>observations :=
       [new_observation sample_store_env sample_snapshot (Some ''p1'') None sample_draft 0]\<rparr>)"
proof -
  have "nat_str 0 = ''0''" by code_simp
  then show ?thesis
    by (simp add: write_observations_def sample_not_quarantined sample_accept write_observation_def Let_def
        commit_rivals_def unique_insert_def empty_db_def new_observation_def) (simp add: sample_store_env_def)
qed

lemma unique_index_Nil [simp]: "unique_index fp []"
  by (simp add: unique_index_def)

theorem observation_writer_sound_witness:
  "unique_index ob_fingerprint [new_observation sample_store_env sample_snapshot (Some ''p1'') None sample_draft 0]"
  using observation_writer_sound [OF sample_write] by (simp add: empty_db_def)

theorem observation_rewrite_idempotent_witness:
  "write_observations sample_store_env sample_snapshot
     [[(''predicate'', PStr ''github_login''), (''object_value'', PStr ''ada'')]] (Some ''p1'') None (\<lambda>_. [])
     (empty_db\<lparr>observations := [new_observation sample_store_env sample_snapshot (Some ''p1'') None sample_draft 0]\<rparr>)
   = Inr ([''observations0''], empty_db\<lparr>observations :=
       [new_observation sample_store_env sample_snapshot (Some ''p1'') None sample_draft 0]\<rparr>)"
  by (rule observation_rewrite_idempotent [OF sample_write]) (simp add: empty_db_def)

definition handle_db :: db where
  "handle_db = empty_db\<lparr>persons := [sample_person, sample_person\<lparr>p_id := ''p2'',
     p_stable_id := ''web:ada'', p_handles := Some [(''web'', ''ada'')]\<rparr>]\<rparr>"

theorem merged_handle_blocks_discovery_witness:
  "\<exists>p d'. merge_persons 9 handle_db ''p1'' ''p2'' = Inr (p, d')
     \<and> get_or_create_person sample_store_env d' ''web'' ''ada'' [] = Inl Multiple_Results"
proof -
  let ?q = "sample_person\<lparr>p_id := ''p2'', p_stable_id := ''web:ada'', p_handles := Some [(''web'', ''ada'')]\<rparr>"
  obtain p d' where m: "merge_persons 9 handle_db ''p1'' ''p2'' = Inr (p, d')"
    by (simp add: handle_db_def sample_person_def get_row_def merge_persons_def founder_clash_def Let_def empty_db_def)
  have "get_row p_id (persons handle_db) ''p2'' = Some ?q" "get_row p_id (persons handle_db) ''p1'' = Some sample_person"
    "p_canonical ?q" "has_handle ''web'' ''ada'' ?q" "p_handles sample_person = None"
    by (simp_all add: handle_db_def sample_person_def get_row_def has_handle_def)
  with merged_handle_blocks_discovery [OF m] m show ?thesis by fastforce
qed

section \<open>Snapshots, licences and watermarks\<close>

lemma write_snapshot_objects:
  "w_objects (snd (write_snapshot env rivals co w))
     = snd (put_snapshot (sv_sha env) (w_objects w) (co_content co) (co_source_type co))"
  by (simp add: write_snapshot_def Let_def split: prod.split option.split)

lemma write_snapshot_rows:
  assumes "write_snapshot env rivals co w = (Inr s, w')" "unique_index sn_fingerprint (w_snapshots w)"
  shows "unique_index sn_fingerprint (w_snapshots w') \<and> prefix (w_snapshots w) (w_snapshots w') \<and> s \<in> set (w_snapshots w')
    \<and> same_version (co_uri co) (co_source_type co) (sv_sha env (co_content co)) s \<and> w_db w' = w_db w"
proof -
  let ?hash = "sv_sha env (co_content co)" and ?path = "object_path (co_source_type co) (sv_sha env (co_content co))"
  let ?version = "same_version (co_uri co) (co_source_type co) ?hash"
  let ?rows = "commit_rivals sn_fingerprint rivals (w_snapshots w)"
  let ?s = "new_snapshot env co ?hash ?path (length ?rows)"
  have new: "?version ?s" by (simp add: same_version_def new_snapshot_def)
  note facts = assms(2) commit_rivals_index [OF assms(2)] commit_rivals_prefix [of "w_snapshots w" sn_fingerprint rivals]
  show ?thesis
  proof (cases "newest sn_collected_at (filter ?version (w_snapshots w))")
    case (Some x)
    with assms newest_SomeD [OF Some] show ?thesis
      by (auto simp: write_snapshot_def put_snapshot_def Let_def)
  next
    case None
    show ?thesis
    proof (cases "unique_insert sn_fingerprint ?s ?rows")
      case (Some rows')
      with None assms(1) have "s = ?s" "w_snapshots w' = rows'" "w_db w' = w_db w"
        by (auto simp: write_snapshot_def put_snapshot_def Let_def simp del: newest_None_iff)
      with new unique_insert_Some [OF Some] unique_insert_index [OF facts(2) Some] facts(3)
      show ?thesis by simp
    next
      case clash: None
      with None assms(1) obtain y where "newest sn_collected_at (filter ?version ?rows) = Some y" "s = y"
        "w_snapshots w' = ?rows" "w_db w' = w_db w"
        by (auto simp: write_snapshot_def put_snapshot_def Let_def simp del: newest_None_iff split: option.splits)
      with newest_SomeD facts show ?thesis by fastforce
    qed
  qed
qed

text \<open>
  Collected material is kept: after the writer ran, the object under the path of the content's digest
  has that digest, every object stored before is unchanged, the row it returns is in the table with
  the connector's address and the digest, and the index on the snapshots still holds.
\<close>

theorem snapshot_writer_sound:
  assumes "write_snapshot env rivals co w = (Inr s, w')" and "unique_index sn_fingerprint (w_snapshots w)"
    and "sv_sha env = hex64 sha" and "content_addressed (hex64 sha) (w_objects w)"
  shows "(\<exists>kept. get_snapshot (w_objects w') (object_path (co_source_type co) (hex64 sha (co_content co))) = Some kept
            \<and> hex64 sha kept = hex64 sha (co_content co))
    \<and> content_addressed (hex64 sha) (w_objects w')
    \<and> (\<forall>path kept. get_snapshot (w_objects w) path = Some kept \<longrightarrow> get_snapshot (w_objects w') path = Some kept)
    \<and> unique_index sn_fingerprint (w_snapshots w') \<and> s \<in> set (w_snapshots w')
    \<and> same_version (co_uri co) (co_source_type co) (hex64 sha (co_content co)) s"
proof -
  have o: "w_objects w' = snd (put_snapshot (hex64 sha) (w_objects w) (co_content co) (co_source_type co))"
    using write_snapshot_objects [of env rivals co w] assms(1,3) by simp
  have path: "snd (fst (put_snapshot (hex64 sha) (w_objects w) (co_content co) (co_source_type co)))
      = object_path (co_source_type co) (hex64 sha (co_content co))" by (simp add: put_snapshot_def Let_def)
  from minio.stored_survives [OF assms(4), of "co_content co" "co_source_type co" "[]"] o path
    minio.sound_store [OF assms(4)] minio.fetch_kept write_snapshot_rows [OF assms(1,2)] assms(3)
  show ?thesis by auto
qed

lemma sample_write_snapshot: "\<exists>s w'. write_snapshot sample_store_env [] (sample_collected license)
    \<lparr>w_db = empty_db, w_snapshots = [], w_jobs = [], w_telemetry = [], w_objects = []\<rparr> = (Inr s, w')"
  by (simp add: write_snapshot_def put_snapshot_def Let_def commit_rivals_def unique_insert_def)

theorem snapshot_writer_sound_witness:
  "\<exists>s w'. write_snapshot sample_store_env [] (sample_collected None)
     \<lparr>w_db = empty_db, w_snapshots = [], w_jobs = [], w_telemetry = [], w_objects = []\<rparr> = (Inr s, w') \<and> s \<in> set (w_snapshots w')"
proof -
  obtain s w' where w: "write_snapshot sample_store_env [] (sample_collected None)
     \<lparr>w_db = empty_db, w_snapshots = [], w_jobs = [], w_telemetry = [], w_objects = []\<rparr> = (Inr s, w')"
    using sample_write_snapshot by blast
  have "sv_sha sample_store_env = hex64 (\<lambda>c. c)" by (simp add: sample_store_env_def)
  from snapshot_writer_sound [OF w _ this] w show ?thesis by (auto simp: content_addressed_def)
qed

lemma commit_rivals_subset: "set (commit_rivals fp rivals rows) \<subseteq> set rows \<union> set rivals"
proof (induction rivals arbitrary: rows)
  case Nil
  then show ?case by (simp add: commit_rivals_def)
next
  case (Cons r rivals)
  let ?next = "case unique_insert fp r rows of None \<Rightarrow> rows | Some acc \<Rightarrow> acc"
  have "set ?next \<subseteq> insert r (set rows)" by (auto dest: unique_insert_Some split: option.splits)
  with Cons [of ?next] show ?case by (auto simp: commit_rivals_def)
qed

lemma new_snapshot_quarantined:
  "co_source_type co \<notin> {''inbound_deck'', ''outreach''} \<Longrightarrow> \<not> licensed (co_license_hint co) \<Longrightarrow>
   quarantined (new_snapshot env co h path n)"
  by (cases "co_license_hint co")
    (auto simp: quarantined_def new_snapshot_def build_source_use_policy_def Let_def dget_dupdate licensed_def)

lemma write_snapshot_origin:
  assumes "write_snapshot env rivals co w = (Inr s, w')"
  shows "(s \<in> set (w_snapshots w) \<union> set rivals \<and> same_version (co_uri co) (co_source_type co) (sv_sha env (co_content co)) s)
    \<or> (\<exists>path n. s = new_snapshot env co (sv_sha env (co_content co)) path n)"
  using assms commit_rivals_subset [of sn_fingerprint rivals "w_snapshots w"]
  by (auto simp: write_snapshot_def put_snapshot_def Let_def simp del: newest_None_iff
      dest!: newest_SomeD split: option.splits if_splits)

text \<open>
  Unlicensed material never becomes evidence: when the licence a connector reports does not say that
  models may use the content, and no earlier version of it was admitted, every observation of it is
  dropped, so the database keeps the observations it had.
\<close>

theorem unlicensed_material_quarantined:
  assumes "write_snapshot env rivals co w = (Inr s, w')"
    and "co_source_type co \<notin> {''inbound_deck'', ''outreach''}" and "\<not> licensed (co_license_hint co)"
    and "\<And>x. x \<in> set (w_snapshots w) \<union> set rivals \<Longrightarrow>
      same_version (co_uri co) (co_source_type co) (sv_sha env (co_content co)) x \<Longrightarrow> quarantined x"
  shows "write_observations env s raws u v rv d = Inr ([], d)"
proof -
  have "quarantined s"
    using write_snapshot_origin [OF assms(1)] assms(2-4) new_snapshot_quarantined by blast
  then show ?thesis by (simp add: write_observations_def)
qed

theorem unlicensed_material_quarantined_witness:
  "\<exists>s w'. write_snapshot sample_store_env [] (sample_collected (Some [(''source'', PStr ''GitHub API'')]))
     \<lparr>w_db = empty_db, w_snapshots = [], w_jobs = [], w_telemetry = [], w_objects = []\<rparr> = (Inr s, w')
   \<and> write_observations sample_store_env s (co_observations (sample_collected None)) (Some ''p1'') None (\<lambda>_. []) empty_db
     = Inr ([], empty_db)"
proof -
  obtain s w' where w: "write_snapshot sample_store_env [] (sample_collected (Some [(''source'', PStr ''GitHub API'')]))
     \<lparr>w_db = empty_db, w_snapshots = [], w_jobs = [], w_telemetry = [], w_objects = []\<rparr> = (Inr s, w')"
    using sample_write_snapshot by blast
  from unlicensed_material_quarantined [OF w] w show ?thesis
    by (simp add: sample_collected_def licensed_def)
qed

text \<open>Merging keeps the chains finite: along a chain some rank falls, and the fuel covers it.\<close>

lemma follow_chain_total:
  assumes "\<And>q r. q \<in> set people \<Longrightarrow> p_superseded_by q = Some r \<Longrightarrow> rank r < rank (p_id q)" and "p \<in> set people"
    and "rank (p_id p) < fuel"
  shows "\<exists>x. follow_chain fuel people p = Some x"
  using assms(2,3)
proof (induction fuel arbitrary: p)
  case (Suc fuel)
  show ?case
  proof (cases "\<not> p_canonical p \<and> str_truthy (p_superseded_by p)")
    case True
    then obtain r where r: "p_superseded_by p = Some r" by (cases "p_superseded_by p") auto
    show ?thesis
    proof (cases "get_row p_id people r")
      case None
      with True r show ?thesis by simp
    next
      case (Some q)
      from get_row_key [OF Some] assms(1) [OF Suc.prems(1) r] Suc.prems(2)
      have "q \<in> set people" "rank (p_id q) < fuel" by auto
      from Suc.IH [OF this] True r Some show ?thesis by simp
    qed
  next
    case False
    then show ?thesis by auto
  qed
qed simp

lemma followed_is_canonical:
  "follow_chain fuel people p = Some (Some q) \<Longrightarrow> p_canonical q \<or> \<not> str_truthy (p_superseded_by q)"
  by (induction fuel people p rule: follow_chain.induct) (auto split: if_splits option.splits)

section \<open>Frames\<close>

lemma write_snapshot_frame:
  assumes "write_snapshot env rivals co w = (res, w')"
  shows "w_db w' = w_db w \<and> w_jobs w' = w_jobs w \<and> w_telemetry w' = w_telemetry w
    \<and> prefix (w_snapshots w) (w_snapshots w')
    \<and> (unique_index sn_fingerprint (w_snapshots w) \<longrightarrow> unique_index sn_fingerprint (w_snapshots w'))"
  using assms commit_rivals_prefix [of "w_snapshots w" sn_fingerprint rivals]
    commit_rivals_index [of sn_fingerprint "w_snapshots w" rivals]
  by (auto simp: write_snapshot_def put_snapshot_def Let_def dest: unique_insert_index unique_insert_Some
      split: option.splits simp del: newest_None_iff)

lemma write_each_prefix: "write_each env s u v rivals raws rows = Inr (ids, rows') \<Longrightarrow> prefix rows rows'"
proof (induction raws arbitrary: rows ids)
  case (Cons raw raws)
  have one: "prefix rows rows1" if "write_observation env s u v rv dr rows = Inr (i, rows1)" for dr i rows1 rv
    using that commit_rivals_prefix [of rows ob_fingerprint rv]
    by (auto simp: write_observation_def Let_def dest!: unique_insert_Some split: option.splits)
  show ?case
  proof (cases "accept_observation env s raw")
    case None
    with Cons show ?thesis by simp
  next
    case (Some dr)
    with Cons.prems obtain i rows1 ids1 where "write_observation env s u v (rivals (length raws)) dr rows = Inr (i, rows1)"
      "write_each env s u v rivals raws rows1 = Inr (ids1, rows')" by (auto split: sum.splits)
    with one Cons.IH show ?thesis by (meson prefix_order.trans)
  qed
qed simp

lemma write_observations_frame:
  assumes "write_observations env s raws u v rivals d = Inr (ids, d')"
  shows "d' = d\<lparr>observations := observations d'\<rparr> \<and> prefix (observations d) (observations d')
    \<and> (unique_index ob_fingerprint (observations d) \<longrightarrow> unique_index ob_fingerprint (observations d'))"
  using assms write_each_prefix write_each_sound
  by (fastforce simp: write_observations_def split: if_splits sum.splits)

end
