(* ===== verification/Priority.thy ===== *)
theory Priority
  imports Weights
begin

text \<open>
  The priority of collection tasks, \<^verbatim>\<open>app/collectors/priority.py\<close>, and the activation priority it defers
  to, \<^verbatim>\<open>app/activation_priority.py\<close>. An input that is not known is \<open>None\<close>.
\<close>

section \<open>Activation priority\<close>

definition activation_weights :: "real dict" where
  "activation_weights = [(''thesis_fit'', 18 / 100), (''novelty'', 12 / 100), (''momentum'', 10 / 100),
     (''evidence_confidence'', 14 / 100), (''identity_confidence'', 12 / 100), (''contactability'', 10 / 100),
     (''deadline_pressure'', 10 / 100), (''cost_efficiency'', 8 / 100), (''exploration_quota'', 6 / 100)]"

record activation_inputs =
  thesis_fit :: "real option"
  novelty :: "real option"
  momentum :: "real option"
  evidence_confidence :: "real option"
  identity_confidence :: "real option"
  contactability :: "real option"
  deadline_pressure :: "real option"
  exploration_quota :: "real option"

definition unknown_inputs :: activation_inputs where
  "unknown_inputs = \<lparr>thesis_fit = None, novelty = None, momentum = None, evidence_confidence = None,
     identity_confidence = None, contactability = None, deadline_pressure = None, exploration_quota = None\<rparr>"

definition bounded :: "real option \<Rightarrow> real option" where
  "bounded v = map_option clamp01 v"

definition cost_efficiency :: "real option \<Rightarrow> real option" where
  "cost_efficiency cost = map_option (\<lambda>c. 1 / (1 + max 0 c)) cost"

definition activation_components :: "activation_inputs \<Rightarrow> real option \<Rightarrow> real option dict" where
  "activation_components i cost = [(''thesis_fit'', bounded (thesis_fit i)), (''novelty'', bounded (novelty i)),
     (''momentum'', bounded (momentum i)), (''evidence_confidence'', bounded (evidence_confidence i)),
     (''identity_confidence'', bounded (identity_confidence i)), (''contactability'', bounded (contactability i)),
     (''deadline_pressure'', bounded (deadline_pressure i)), (''cost_efficiency'', cost_efficiency cost),
     (''exploration_quota'', bounded (exploration_quota i))]"

record activation_priority =
  ap_score :: real
  ap_components :: "real option dict"
  ap_missing :: "string list"
  ap_rationale :: string

definition compute_activation_priority :: "activation_inputs \<Rightarrow> real option \<Rightarrow> activation_priority" where
  "compute_activation_priority i cost =
     (let components = activation_components i cost;
          known = concat (map (\<lambda>(k, v). case v of None \<Rightarrow> [] | Some x \<Rightarrow> [(k, x)]) components);
          weight_of = (\<lambda>k. case dget activation_weights k of Some w \<Rightarrow> w | None \<Rightarrow> 0);
          weight = sum_real (map (\<lambda>(k, x). weight_of k) known);
          score = (if weight \<noteq> 0 then sum_real (map (\<lambda>(k, x). x * weight_of k) known) / weight else 0);
          missing = filter (\<lambda>k. k \<notin> fst ` set known) (map fst activation_weights)
      in \<lparr>ap_score = py_round 4 score, ap_components = components, ap_missing = missing,
          ap_rationale = (if missing \<noteq> []
            then ''Known activation signals were renormalized; missing: '' @ join '', '' missing @ ''.''
            else ''All activation signals are present and weighted by activation-priority-v1.'')\<rparr>)"

section \<open>Collection priority\<close>

definition info_gain :: "real \<Rightarrow> real \<Rightarrow> real \<Rightarrow> real" where
  "info_gain signal_score staleness_days pressure =
     (let signal_factor = 1 - (2 / (1 + exp (- 3 * signal_score)) - 1);
          staleness_factor = min 1 (staleness_days / 90);
          deadline_factor = min 1 pressure
      in 5 / 10 * signal_factor + 3 / 10 * staleness_factor + 2 / 10 * deadline_factor)"

definition priority :: "real \<Rightarrow> real \<Rightarrow> real \<Rightarrow> activation_inputs \<Rightarrow> real" where
  "priority gain cost authority i =
     (if i \<noteq> unknown_inputs
      then py_round 4 (10 * ap_score (compute_activation_priority i (Some cost)) * (5 / 10 + 5 / 10 * clamp01 authority))
      else (let c = (if cost \<le> 0 then 1 / 100 else cost) in gain * (1 / c) * (5 / 10 + 5 / 10 * authority)))"

section \<open>Bounds\<close>

text \<open>The known inputs with their weights.\<close>

definition known_inputs :: "activation_inputs \<Rightarrow> real option \<Rightarrow> (real \<times> real) list" where
  "known_inputs i cost = concat (map (\<lambda>(w, v). case v of None \<Rightarrow> [] | Some x \<Rightarrow> [(w, x)])
     (zip (map snd activation_weights) (map snd (activation_components i cost))))"

lemma known_inputs_pos: "(w, x) \<in> set (known_inputs i cost) \<Longrightarrow> 0 < w \<and> 0 \<le> x \<and> x \<le> 1"
  by (auto simp: known_inputs_def activation_weights_def activation_components_def bounded_def cost_efficiency_def
      split: option.splits)

lemma activation_score:
  "ap_score (compute_activation_priority i cost) = py_round 4 (weighted_average (known_inputs i cost))"
proof -
  let ?f = "\<lambda>(k :: string, v). case v of None \<Rightarrow> [] | Some x \<Rightarrow> [(k, x :: real)]"
  let ?g = "\<lambda>(w :: real, v). case v of None \<Rightarrow> [] | Some x \<Rightarrow> [(w, x :: real)]"
  define wof where "wof = (\<lambda>k. case dget activation_weights k of Some w \<Rightarrow> w | None \<Rightarrow> 0)"
  have step: "map (\<lambda>(k, x). (wof k, x)) (concat (map ?f cs)) = concat (map ?g (map (\<lambda>(k, v). (wof k, v)) cs))" for cs
    by (induction cs) (auto split: option.splits)
  have "map (\<lambda>(k, v). (wof k, v)) (activation_components i cost)
      = zip (map snd activation_weights) (map snd (activation_components i cost))"
    by (simp add: activation_components_def activation_weights_def wof_def)
  then have ws: "known_inputs i cost = map (\<lambda>(k, x). (wof k, x)) (concat (map ?f (activation_components i cost)))"
    by (simp add: known_inputs_def step)
  show ?thesis
    by (simp add: compute_activation_priority_def Let_def wof_def [symmetric] ws comp_def case_prod_unfold weighted_average_def)
qed

text \<open>
  The activation score weighs only what is known: it lies between the bounds of the known inputs,
  whatever is missing, and so between 0 and 1; a collection priority that knows some input lies between
  0 and 10 and does not depend on the information gain it is given.
\<close>

theorem activation_renormalises:
  assumes "known_inputs i cost \<noteq> []" and "\<And>w x. (w, x) \<in> set (known_inputs i cost) \<Longrightarrow> lo \<le> x \<and> x \<le> hi"
  shows "py_round 4 lo \<le> ap_score (compute_activation_priority i cost)
    \<and> ap_score (compute_activation_priority i cost) \<le> py_round 4 hi
    \<and> 0 \<le> ap_score (compute_activation_priority i cost) \<and> ap_score (compute_activation_priority i cost) \<le> 1
    \<and> (i \<noteq> unknown_inputs \<longrightarrow> 0 \<le> priority gain c authority i \<and> priority gain c authority i \<le> 10
        \<and> priority gain c authority i = priority gain' c authority i)"
proof -
  have b: "lo \<le> weighted_average (known_inputs i cost) \<and> weighted_average (known_inputs i cost) \<le> hi"
    by (rule weighted_average_between [OF assms(1)]) (use assms(2) known_inputs_pos in blast)
  have unit: "0 \<le> ap_score (compute_activation_priority i k) \<and> ap_score (compute_activation_priority i k) \<le> 1" for k
  proof (cases "known_inputs i k = []")
    case True
    then show ?thesis by (simp add: activation_score weighted_average_def)
  next
    case False
    have "0 \<le> weighted_average (known_inputs i k) \<and> weighted_average (known_inputs i k) \<le> 1"
      by (rule weighted_average_between [OF False]) (use known_inputs_pos in blast)
    then show ?thesis by (simp add: activation_score py_round_nonneg py_round_le1)
  qed
  define q where "q = 5 / 10 + 5 / 10 * clamp01 authority"
  have q: "0 \<le> q" "q \<le> 1" using clamp01_bounds(1) [of authority] clamp01_bounds(2) [of authority]
    unfolding q_def by linarith+
  have "0 \<le> 10 * ap_score (compute_activation_priority i (Some c)) * q"
    "10 * ap_score (compute_activation_priority i (Some c)) * q \<le> 10 * 1 * 1"
    using unit q by (simp, intro mult_mono) simp_all
  then have "0 \<le> py_round 4 (10 * ap_score (compute_activation_priority i (Some c)) * q)"
    "py_round 4 (10 * ap_score (compute_activation_priority i (Some c)) * q) \<le> 10"
    by (auto intro: py_round_nonneg py_round_le_numeral)
  moreover have "i \<noteq> unknown_inputs \<Longrightarrow> priority gain c authority i
      = py_round 4 (10 * ap_score (compute_activation_priority i (Some c)) * q)"
    unfolding priority_def q_def by (rule if_P)
  ultimately have "i \<noteq> unknown_inputs \<Longrightarrow> 0 \<le> priority gain c authority i \<and> priority gain c authority i \<le> 10"
    by simp
  moreover have "i \<noteq> unknown_inputs \<Longrightarrow> priority gain c authority i = priority gain' c authority i"
    by (simp add: priority_def)
  ultimately show ?thesis using b unit by (simp add: activation_score py_round_mono)
qed

lemma coverage_known: "known_inputs (unknown_inputs\<lparr>evidence_confidence := Some (1 / 2)\<rparr>) None = [(14 / 100, 1 / 2)]"
  by (simp add: known_inputs_def activation_weights_def activation_components_def unknown_inputs_def bounded_def
      clamp01_id cost_efficiency_def)

theorem activation_renormalises_witness:
  "ap_score (compute_activation_priority (unknown_inputs\<lparr>evidence_confidence := Some (1 / 2)\<rparr>) None) = 1 / 2"
proof -
  have r: "py_round 4 (1 / 2 :: real) = 1 / 2" by (simp add: py_round_def half_even_def Let_def)
  have ne: "known_inputs (unknown_inputs\<lparr>evidence_confidence := Some (1 / 2)\<rparr>) None \<noteq> []" by (simp add: coverage_known)
  from activation_renormalises [OF ne, of "1 / 2" "1 / 2"]
  have "1 / 2 \<le> ap_score (compute_activation_priority (unknown_inputs\<lparr>evidence_confidence := Some (1 / 2)\<rparr>) None)
    \<and> ap_score (compute_activation_priority (unknown_inputs\<lparr>evidence_confidence := Some (1 / 2)\<rparr>) None) \<le> 1 / 2"
    unfolding r coverage_known by simp
  then show ?thesis by linarith
qed

lemma info_gain_bounds:
  assumes "0 \<le> s" "0 \<le> d" "0 \<le> p"
  shows "0 \<le> info_gain s d p \<and> info_gain s d p \<le> 1"
proof -
  define e f where "e = exp (- (3 * s))" and "f = 2 / (1 + e)"
  have "0 < e" "e \<le> 1" using assms(1) by (simp_all add: e_def)
  then have f: "1 \<le> f" "f \<le> 2" by (simp_all add: f_def divide_simps)
  have "info_gain s d p = 5 / 10 * (2 - f) + 3 / 10 * min 1 (d / 90) + 2 / 10 * min 1 p"
    by (simp add: info_gain_def Let_def e_def f_def)
  moreover have "5 / 10 * (2 - f) + 3 / 10 * x + 2 / 10 * y \<le> 1" "0 \<le> 5 / 10 * (2 - f) + 3 / 10 * x + 2 / 10 * y"
    if "0 \<le> x" "x \<le> 1" "0 \<le> y" "y \<le> 1" for x y :: real
    using f that by (simp_all add: field_simps)
  ultimately show ?thesis using assms(2,3) by simp
qed

end
