(* ===== verification/Signals.thy ===== *)
theory Signals
  imports Collection_Store Artifact_Provenance Priority "HOL-Library.Product_Lexorder"
begin

text \<open>
  The signal score, a first-pass score of a person's public footprint: \<^verbatim>\<open>app/collectors/signals.py\<close> and
  the selection, fingerprint and storage of its inputs in \<^verbatim>\<open>app/collectors/jobs.py\<close>. The sigmoid uses
  the real exponential and logarithm.
\<close>

section \<open>Components\<close>

definition composite_weights :: "real dict" where
  "composite_weights = [(''github_signal'', 35 / 100), (''producthunt_signal'', 25 / 100), (''arxiv_signal'', 20 / 100),
     (''web_signal'', 20 / 100)]"

definition sigmoid :: "real \<Rightarrow> real \<Rightarrow> real \<Rightarrow> real" where
  "sigmoid x midpoint steepness = 1 / (1 + exp (- steepness * (x - midpoint)))"

definition log1p :: "nat \<Rightarrow> real" where
  "log1p n = ln (1 + real n)"

definition github_signal :: "nat \<Rightarrow> nat \<Rightarrow> nat \<Rightarrow> bool \<Rightarrow> real" where
  "github_signal public_repos total_stars top_language_count has_readme =
     (let repo_score = sigmoid (real public_repos) 5 (3 / 10);
          star_score = sigmoid (log1p total_stars) 3 (1 / 2);
          lang_score = sigmoid (real top_language_count) 2 (1 / 2);
          readme_score = (if has_readme then 2 / 10 else 0)
      in 3 / 10 * repo_score + 4 / 10 * star_score + 2 / 10 * lang_score + 1 / 10 * readme_score)"

definition producthunt_signal :: "nat \<Rightarrow> nat \<Rightarrow> bool \<Rightarrow> real" where
  "producthunt_signal total_upvotes launch_count has_maker_profile =
     (let upvote_score = sigmoid (log1p total_upvotes) 4 (4 / 10);
          launch_score = sigmoid (real launch_count) 1 1;
          profile_score = (if has_maker_profile then 3 / 10 else 0)
      in 5 / 10 * upvote_score + 3 / 10 * launch_score + 2 / 10 * profile_score)"

definition arxiv_signal :: "nat \<Rightarrow> nat \<Rightarrow> bool \<Rightarrow> real" where
  "arxiv_signal paper_count total_citations in_relevant_categories =
     (let paper_score = sigmoid (real paper_count) 3 (4 / 10);
          citation_score = sigmoid (log1p total_citations) 3 (1 / 2);
          category_boost = (if in_relevant_categories then 2 / 10 else 0)
      in 4 / 10 * paper_score + 4 / 10 * citation_score + 2 / 10 * category_boost)"

definition web_signal :: "bool \<Rightarrow> bool \<Rightarrow> bool \<Rightarrow> bool \<Rightarrow> real" where
  "web_signal has_company_site has_blog has_podcast_appearance has_youtube_talk =
     min 1 ((if has_company_site then 3 / 10 else 0) + (if has_blog then 2 / 10 else 0)
       + (if has_podcast_appearance then 25 / 100 else 0) + (if has_youtube_talk then 25 / 100 else 0))"

definition compute_signal_score :: "real \<Rightarrow> real \<Rightarrow> real \<Rightarrow> real \<Rightarrow> real dict" where
  "compute_signal_score github producthunt arxiv web =
     (let components = [(''github_signal'', py_round 4 github), (''producthunt_signal'', py_round 4 producthunt),
            (''arxiv_signal'', py_round 4 arxiv), (''web_signal'', py_round 4 web)];
          value = (\<lambda>k. case dget components k of Some x \<Rightarrow> x | None \<Rightarrow> 0);
          available = filter (\<lambda>(k, weight). 0 < value k) composite_weights;
          available_weight = sum_real (map snd available);
          composite = (if available_weight \<noteq> 0
            then sum_real (map (\<lambda>(k, weight). value k * weight) available) / available_weight else 0)
      in components @ [(''composite'', py_round 4 composite), (''signal_coverage'', py_round 4 available_weight)])"

definition component :: "real dict \<Rightarrow> string \<Rightarrow> real" where
  "component d k = (case dget d k of Some x \<Rightarrow> x | None \<Rightarrow> 0)"

definition above_threshold :: "real dict \<Rightarrow> real \<Rightarrow> bool" where
  "above_threshold components threshold = (threshold \<le> component components ''composite'')"

section \<open>Inputs\<close>

definition signal_numeric_predicates :: "string list" where
  "signal_numeric_predicates = [''github_public_repos'', ''github_total_stars'', ''producthunt_total_upvotes'',
     ''producthunt_posts'', ''arxiv_paper_count'', ''arxiv_total_citations'']"

definition signal_predicates :: "string list" where
  "signal_predicates = [''github_login'', ''github_languages'', ''github_public_repos'', ''github_total_stars'',
     ''github_top_repo_readme'', ''producthunt_username'', ''producthunt_total_upvotes'', ''producthunt_posts'',
     ''arxiv_paper_count'', ''arxiv_total_citations'', ''page_content'', ''blog_url'', ''podcast_url'',
     ''youtube_recent_videos'']"

definition parse_signal_count :: "string \<Rightarrow> string \<Rightarrow> nat option" where
  "parse_signal_count predicate value =
     (if predicate \<notin> set signal_numeric_predicates then None
      else (let stripped = strip value
            in if stripped = [] \<or> \<not> list_all is_digit stripped then None
               else map_option nat (digits_from 0 stripped)))"

text \<open>Newest first by observation time, then creation, then id; equal keys keep their order.\<close>

definition recency :: "observation \<Rightarrow> instant \<times> instant \<times> uuid" where
  "recency x = (ob_observed_at x, ob_created_at x, ob_id x)"

definition newest_first :: "observation list \<Rightarrow> observation list" where
  "newest_first xs = rev (sort_key recency (rev xs))"

definition usable :: "observation \<Rightarrow> bool" where
  "usable x = (ob_predicate x \<in> set signal_predicates \<and> strip (ob_object_value x) \<noteq> []
     \<and> (ob_predicate x \<in> set signal_numeric_predicates \<longrightarrow> parse_signal_count (ob_predicate x) (ob_object_value x) \<noteq> None))"

fun select_signals :: "observation list \<Rightarrow> observation dict \<Rightarrow> uuid list \<Rightarrow> observation dict \<times> uuid list" where
  "select_signals [] selected rejected = (selected, rejected)"
| "select_signals (x # xs) selected rejected =
     (let predicate = ob_predicate x
      in if predicate \<notin> set signal_predicates \<or> dget selected predicate \<noteq> None then select_signals xs selected rejected
         else if strip (ob_object_value x) = [] then select_signals xs selected rejected
         else if predicate \<in> set signal_numeric_predicates \<and> parse_signal_count predicate (ob_object_value x) = None
         then select_signals xs selected (rejected @ [ob_id x])
         else select_signals xs (dset selected predicate x) rejected)"

definition select_latest_signal_observations :: "observation list \<Rightarrow> observation dict \<times> uuid list" where
  "select_latest_signal_observations xs = select_signals (newest_first xs) [] []"

definition reals_value :: "real dict \<Rightarrow> pyval" where
  "reals_value d = PDict (map (\<lambda>(k, x). (k, PFloat x)) d)"

definition signal_input_fingerprint :: "(pyval \<Rightarrow> string) \<Rightarrow> observation dict \<Rightarrow> real dict \<Rightarrow> string" where
  "signal_input_fingerprint digest selected components =
     digest (canonical (PDict [(''rubric_version'', PStr ''signal-v1''), (''provenance_version'', PStr ''signal-v2''),
       (''components'', reals_value components),
       (''observations'', PList (map (\<lambda>(predicate, x). PDict [(''id'', PStr (ob_id x)), (''predicate'', PStr predicate),
          (''object_value'', PStr (ob_object_value x)), (''observed_at'', PTime (ob_observed_at x)),
          (''confidence'', PFloat (ob_confidence x))]) (sort_key fst selected)))]))"

section \<open>Scoring a person\<close>

definition value_or :: "observation dict \<Rightarrow> string \<Rightarrow> string \<Rightarrow> string" where
  "value_or selected predicate dflt = (case dget selected predicate of Some x \<Rightarrow> ob_object_value x | None \<Rightarrow> dflt)"

definition count_of :: "observation dict \<Rightarrow> string \<Rightarrow> nat" where
  "count_of selected predicate =
     (case parse_signal_count predicate (value_or selected predicate ''0'') of Some n \<Rightarrow> n | None \<Rightarrow> 0)"

definition languages_of :: "observation dict \<Rightarrow> string list" where
  "languages_of selected = filter (\<lambda>t. t \<noteq> []) (map strip (split_on (CHR '','') (value_or selected ''github_languages'' [])))"

definition signal_components :: "observation dict \<Rightarrow> real dict" where
  "signal_components selected =
     (let has = (\<lambda>p. dget selected p \<noteq> None);
          github_score = (if has ''github_login'' then github_signal (count_of selected ''github_public_repos'')
              (count_of selected ''github_total_stars'') (length (languages_of selected)) (has ''github_top_repo_readme'')
            else 0);
          producthunt_score = (if has ''producthunt_username'' then
              producthunt_signal (count_of selected ''producthunt_total_upvotes'') (count_of selected ''producthunt_posts'') True
            else 0);
          arxiv_score = (if has ''arxiv_paper_count'' then
              arxiv_signal (count_of selected ''arxiv_paper_count'') (count_of selected ''arxiv_total_citations'') True
            else 0);
          web_score = web_signal (has ''page_content'') (has ''blog_url'') (has ''podcast_url'') (has ''youtube_recent_videos'')
      in compute_signal_score github_score producthunt_score arxiv_score web_score)"

definition source_confidence :: "observation dict \<Rightarrow> real" where
  "source_confidence selected =
     (if selected = [] then 0
      else py_round 4 (sum_real (map (\<lambda>(k, x). ob_confidence x) selected) / real (length selected)))"

definition strings :: "string list \<Rightarrow> pyval" where
  "strings xs = PList (map PStr xs)"

definition signal_provenance :: "observation dict \<Rightarrow> uuid list \<Rightarrow> real dict \<Rightarrow> string \<Rightarrow> pyval" where
  "signal_provenance selected rejected components fp =
     PDict [(''kind'', PStr ''signal_snapshot''), (''version'', PStr ''signal-v2''), (''input_fingerprint'', PStr fp),
       (''observation_ids'', strings (sort (map (\<lambda>(k, x). ob_id x) selected))),
       (''selected_predicates'', strings (sort (map fst selected))),
       (''signal_coverage'', PFloat (component components ''signal_coverage'')),
       (''source_confidence'', PFloat (source_confidence selected)),
       (''rejected_numeric_observation_ids'', strings (sort rejected))]"

definition signal_row :: "store_env \<Rightarrow> uuid \<Rightarrow> string \<Rightarrow> observation list \<Rightarrow> nat \<Rightarrow> score_snapshot" where
  "signal_row env person source_type xs n =
     (case select_latest_signal_observations xs of (selected, rejected) \<Rightarrow>
        let components = signal_components selected;
            fp = signal_input_fingerprint (sv_digest env) selected components
        in \<lparr>s_id = sv_id env ''score_snapshots'' n, s_subject_id = person, s_subject_type = ''person'',
            s_rubric_version = ''signal-v1'', s_components = map (\<lambda>(k, x). (k, PFloat x)) components, s_interval = None,
            s_evidence_ids = sort (map (\<lambda>(k, x). ob_id x) selected), s_input_fingerprint = Some fp,
            s_provenance = signal_provenance selected rejected components fp,
            s_artifact_metadata = build_artifact_metadata (sv_id env ''runs'' n) ''score_snapshot'' ''signal-scoring-v2'' fp
              (default_options\<lparr>ao_rubric_versions := [''signal-v1''],
                 ao_parameters := Some [(''source_type'', PStr source_type)], ao_latency_ms := Some (sv_latency env),
                 ao_validator_status := ''not_applicable''\<rparr>),
            s_created_at = sv_now env\<rparr>)"

definition observations_of :: "db \<Rightarrow> uuid \<Rightarrow> observation list" where
  "observations_of d person = filter (\<lambda>x. ob_subject_id x = Some person) (observations d)"

definition compute_and_store_signal :: "store_env \<Rightarrow> uuid \<Rightarrow> string \<Rightarrow> db \<Rightarrow> real dict \<times> db" where
  "compute_and_store_signal env person source_type d =
     (let xs = observations_of d person
      in (signal_components (fst (select_latest_signal_observations xs)),
          d\<lparr>score_snapshots := score_snapshots d
              @ [signal_row env person source_type xs (length (score_snapshots d))]\<rparr>))"

section \<open>Bounds\<close>

lemma sigmoid_bounds: "0 < sigmoid x m k" "sigmoid x m k < 1"
proof -
  define e where "e = exp (- k * (x - m))"
  have "0 < e" by (simp add: e_def)
  moreover have "sigmoid x m k = 1 / (1 + e)" by (simp add: sigmoid_def e_def)
  ultimately show "0 < sigmoid x m k" "sigmoid x m k < 1" by simp_all
qed

lemma signal_bounds:
  "0 < github_signal a b c r" "github_signal a b c r < 1"
  "0 < producthunt_signal a b r" "producthunt_signal a b r < 1"
  "0 < arxiv_signal a b r" "arxiv_signal a b r < 1"
proof -
  note s = sigmoid_bounds
  show "0 < github_signal a b c r" "github_signal a b c r < 1"
    using s [of "real a" 5 "3 / 10"] s [of "log1p b" 3 "1 / 2"] s [of "real c" 2 "1 / 2"]
    by (auto simp: github_signal_def Let_def)
  show "0 < producthunt_signal a b r" "producthunt_signal a b r < 1"
    using s [of "log1p a" 4 "4 / 10"] s [of "real b" 1 1]
    by (auto simp: producthunt_signal_def Let_def)
  show "0 < arxiv_signal a b r" "arxiv_signal a b r < 1"
    using s [of "real a" 3 "4 / 10"] s [of "log1p b" 3 "1 / 2"]
    by (auto simp: arxiv_signal_def Let_def)
qed

lemma web_signal_bounds: "0 \<le> web_signal a b c e" "web_signal a b c e \<le> 1"
  by (simp_all add: web_signal_def)

definition score_values :: "real \<Rightarrow> real \<Rightarrow> real \<Rightarrow> real \<Rightarrow> (real \<times> real) list" where
  "score_values g p a w = [(35 / 100, py_round 4 g), (25 / 100, py_round 4 p), (20 / 100, py_round 4 a), (20 / 100, py_round 4 w)]"

definition supplied :: "real \<Rightarrow> real \<Rightarrow> real \<Rightarrow> real \<Rightarrow> (real \<times> real) list" where
  "supplied g p a w = filter (\<lambda>(w, x). 0 < x) (score_values g p a w)"

lemma score_simps:
  "component (compute_signal_score g p a w) ''github_signal'' = py_round 4 g"
  "component (compute_signal_score g p a w) ''producthunt_signal'' = py_round 4 p"
  "component (compute_signal_score g p a w) ''arxiv_signal'' = py_round 4 a"
  "component (compute_signal_score g p a w) ''web_signal'' = py_round 4 w"
  "component (compute_signal_score g p a w) ''composite'' = py_round 4 (weighted_average (supplied g p a w))"
  "component (compute_signal_score g p a w) ''signal_coverage'' = py_round 4 (sum_real (map fst (supplied g p a w)))"
  by (simp_all add: component_def compute_signal_score_def Let_def composite_weights_def supplied_def score_values_def
      weighted_average_def)

lemma compute_signal_score_eq:
  "compute_signal_score g p a w = [(''github_signal'', py_round 4 g), (''producthunt_signal'', py_round 4 p),
     (''arxiv_signal'', py_round 4 a), (''web_signal'', py_round 4 w),
     (''composite'', py_round 4 (weighted_average (supplied g p a w))),
     (''signal_coverage'', py_round 4 (sum_real (map fst (supplied g p a w))))]"
  by (simp add: compute_signal_score_def Let_def composite_weights_def supplied_def score_values_def weighted_average_def)

lemma supplied_member:
  "(x, v) \<in> set (supplied g p a w) \<longleftrightarrow> 0 < v \<and> (x, v) \<in> set (score_values g p a w)"
  by (auto simp: supplied_def)

lemma supplied_weights: "(x, v) \<in> set (supplied g p a w) \<Longrightarrow> 0 < x \<and> 0 < v"
  by (auto simp: supplied_def score_values_def split: if_splits)

lemma supplied_total: "0 \<le> sum_real (map fst (supplied g p a w))" "sum_real (map fst (supplied g p a w)) \<le> 1"
  by (simp_all add: supplied_def score_values_def)

lemma signal_components_form:
  "\<exists>g p a w. signal_components selected = compute_signal_score g p a w
     \<and> 0 \<le> g \<and> g \<le> 1 \<and> 0 \<le> p \<and> p \<le> 1 \<and> 0 \<le> a \<and> a \<le> 1 \<and> 0 \<le> w \<and> w \<le> 1"
  unfolding signal_components_def Let_def
  by (intro exI conjI, rule refl) (simp_all add: signal_bounds less_imp_le web_signal_bounds)

text \<open>
  Missing sources reduce coverage and not the score: every component of the signal score, the composite
  and the coverage lie between 0 and 1, and when some source supplied a signal the composite lies between
  the bounds of the supplied signals, whichever sources are absent.
\<close>

theorem signal_score_bounds:
  assumes "\<And>k. k \<in> fst ` set composite_weights \<Longrightarrow> 0 < component (signal_components selected) k \<Longrightarrow>
      lo \<le> component (signal_components selected) k \<and> component (signal_components selected) k \<le> hi"
    and "\<exists>k \<in> fst ` set composite_weights. 0 < component (signal_components selected) k"
  shows "list_all (\<lambda>(k, x). 0 \<le> x \<and> x \<le> 1) (signal_components selected)
    \<and> 0 < component (signal_components selected) ''signal_coverage''
    \<and> py_round 4 lo \<le> component (signal_components selected) ''composite''
    \<and> component (signal_components selected) ''composite'' \<le> py_round 4 hi"
proof -
  obtain g p a w where c: "signal_components selected = compute_signal_score g p a w" and
    r: "0 \<le> g" "g \<le> 1" "0 \<le> p" "p \<le> 1" "0 \<le> a" "a \<le> 1" "0 \<le> w" "w \<le> 1"
    using signal_components_form by blast
  let ?s = "supplied g p a w"
  have keys: "fst ` set composite_weights = {''github_signal'', ''producthunt_signal'', ''arxiv_signal'', ''web_signal''}"
    by (simp add: composite_weights_def)
  have ne: "?s \<noteq> []" using assms(2) unfolding c keys
    by (auto simp: score_simps supplied_def score_values_def)
  have named: "\<exists>k \<in> fst ` set composite_weights. v = component (signal_components selected) k"
    if "(x, v) \<in> set ?s" for x v
    using that unfolding c keys supplied_member by (auto simp: score_simps score_values_def)
  have "lo \<le> v \<and> v \<le> hi" if "(x, v) \<in> set ?s" for x v
    using named [OF that] assms(1) that unfolding supplied_member by auto
  with weighted_average_between [OF ne] supplied_weights have
    b: "lo \<le> weighted_average ?s" "weighted_average ?s \<le> hi" by blast+
  have v01: "0 \<le> v \<and> v \<le> 1" if "(x, v) \<in> set ?s" for x v
    using that r unfolding supplied_member by (auto simp: score_values_def py_round_le1)
  have b01: "0 \<le> weighted_average ?s" "weighted_average ?s \<le> 1"
    using weighted_average_between [OF ne, of 0 1] v01 supplied_weights by blast+
  obtain x v rest where q: "?s = (x, v) # rest" using ne by (cases ?s) auto
  have "1 / 5 \<le> x" using supplied_member [of x v g p a w] q by (auto simp: score_values_def)
  moreover have "0 \<le> sum_real (map fst rest)"
    using supplied_weights [of _ _ g p a w] q by (intro sum_real_nonneg) (fastforce simp: less_imp_le)
  ultimately have "1 / 5 \<le> sum_real (map fst ?s)" by (simp add: q)
  then have "py_round 4 (1 / 5) \<le> py_round 4 (sum_real (map fst ?s))" by (rule py_round_mono)
  moreover have "py_round 4 (1 / 5 :: real) = 1 / 5" by (simp add: py_round_def half_even_def Let_def)
  ultimately have cov: "0 < py_round 4 (sum_real (map fst ?s))" by simp
  have all: "list_all (\<lambda>(k, x). 0 \<le> x \<and> x \<le> 1) (signal_components selected)"
    unfolding c compute_signal_score_eq using r b01 supplied_total [of g p a w]
    by (simp add: py_round_nonneg py_round_le1)
  from all cov b show ?thesis by (simp add: c score_simps py_round_mono)
qed

section \<open>Selection\<close>

lemma newest_first_set [simp]: "set (newest_first xs) = set xs"
  by (simp add: newest_first_def)

lemma newest_first_sorted: "sorted_wrt (\<lambda>x y. recency y \<le> recency x) (newest_first xs)"
proof -
  have "sorted (map recency (sort_key recency (rev xs)))" by simp
  then have "sorted_wrt (\<lambda>x y. recency x \<le> recency y) (sort_key recency (rev xs))" by (simp add: sorted_map)
  then show ?thesis by (simp add: newest_first_def sorted_wrt_rev)
qed

text \<open>What the loop selects for a predicate: what it had, else the first usable row of the predicate.\<close>

lemma select_signals_get:
  "dget (fst (select_signals xs selected rejected)) k =
     (case dget selected k of Some x \<Rightarrow> Some x | None \<Rightarrow> find (\<lambda>x. ob_predicate x = k \<and> usable x) xs)"
proof (induction xs selected rejected rule: select_signals.induct)
  case (1 selected rejected)
  then show ?case by (simp split: option.split)
next
  case (2 x xs selected rejected)
  show ?case
  proof (cases "ob_predicate x \<notin> set signal_predicates \<or> dget selected (ob_predicate x) \<noteq> None")
    case True
    with 2(1) [OF refl] show ?thesis by (auto simp: Let_def usable_def simp del: not_None_eq split: option.splits)
  next
    case a: False
    show ?thesis
    proof (cases "strip (ob_object_value x) = []")
      case True
      with 2(2) [OF refl] a show ?thesis by (auto simp: Let_def usable_def split: option.splits)
    next
      case b: False
      show ?thesis
      proof (cases "ob_predicate x \<in> set signal_numeric_predicates
          \<and> parse_signal_count (ob_predicate x) (ob_object_value x) = None")
        case True
        with 2(3) [OF refl] a b show ?thesis by (auto simp: Let_def usable_def split: option.splits)
      next
        case False
        with 2(4) [OF refl] a b show ?thesis by (auto simp: Let_def usable_def split: option.splits)
      qed
    qed
  qed
qed

lemma find_SomeD: "find P xs = Some x \<Longrightarrow> x \<in> set xs \<and> P x"
  by (induction xs) (auto split: if_splits)

lemma find_sorted:
  assumes "sorted_wrt R xs" "find P xs = Some x" "y \<in> set xs" "P y"
  shows "y = x \<or> R x y"
  using assms by (induction xs) (auto split: if_splits)

text \<open>
  The signal is computed from the newest usable observation of each predicate: one is selected
  exactly when the person has a usable observation of the predicate, it is one of those, and no other
  one is newer. With distinct ids the selection does not depend on the order the rows came in.
\<close>

theorem signal_selection_latest:
  assumes "distinct (map ob_id xs)" and "set ys = set xs" and "distinct (map ob_id ys)"
  shows "(case dget (fst (select_latest_signal_observations xs)) k of
      None \<Rightarrow> \<forall>x \<in> set xs. ob_predicate x = k \<longrightarrow> \<not> usable x
    | Some x \<Rightarrow> x \<in> set xs \<and> ob_predicate x = k \<and> usable x
        \<and> (\<forall>y \<in> set xs. ob_predicate y = k \<and> usable y \<longrightarrow> recency y \<le> recency x))
    \<and> select_latest_signal_observations ys = select_latest_signal_observations xs"
proof -
  let ?P = "\<lambda>x. ob_predicate x = k \<and> usable x"
  have get: "dget (fst (select_latest_signal_observations xs)) k = find ?P (newest_first xs)"
    by (simp add: select_latest_signal_observations_def select_signals_get)
  have one: "case find ?P (newest_first xs) of
      None \<Rightarrow> \<forall>x \<in> set xs. ob_predicate x = k \<longrightarrow> \<not> usable x
    | Some x \<Rightarrow> x \<in> set xs \<and> ob_predicate x = k \<and> usable x \<and> (\<forall>y \<in> set xs. ?P y \<longrightarrow> recency y \<le> recency x)"
  proof (cases "find ?P (newest_first xs)")
    case None
    then have "\<forall>x \<in> set xs. ob_predicate x = k \<longrightarrow> \<not> usable x"
      unfolding find_None_iff by simp
    with None show ?thesis by simp
  next
    case (Some x)
    then have "x \<in> set (newest_first xs)" "?P x" using find_SomeD by fast+
    moreover have "recency y \<le> recency x" if "y \<in> set xs" "?P y" for y
      using find_sorted [OF newest_first_sorted Some, of y] that by auto
    ultimately show ?thesis using Some by auto
  qed
  have dist: "distinct (map recency zs)" if "distinct (map ob_id zs)" for zs
  proof -
    have "map ob_id zs = map (\<lambda>(a, b, c). c) (map recency zs)" by (simp add: recency_def)
    with that show ?thesis by (metis distinct_map)
  qed
  have "sort_key recency (rev ys) = sort_key recency (rev xs)"
    by (rule sort_key_perm) (use assms dist in \<open>simp_all add: rev_map [symmetric]\<close>)
  then have "newest_first ys = newest_first xs" by (simp add: newest_first_def)
  with get one show ?thesis by (simp add: select_latest_signal_observations_def)
qed

section \<open>Samples\<close>

definition seen :: "uuid \<Rightarrow> string \<Rightarrow> string \<Rightarrow> instant \<Rightarrow> observation" where
  "seen i predicate value t = \<lparr>ob_id = i, ob_snapshot_id = ''s1'', ob_subject_id = Some ''p1'', ob_opportunity_id = None,
     ob_predicate = predicate, ob_object_value = value, ob_source_locator = PNone, ob_observed_at = t,
     ob_extractor_version = ''web-v1'', ob_fingerprint = None, ob_confidence = 1, ob_embedding = None, ob_created_at = t\<rparr>"

theorem signal_selection_latest_witness:
  "select_latest_signal_observations [seen ''b'' ''blog_url'' ''x'' 2, seen ''a'' ''blog_url'' ''y'' 1]
   = select_latest_signal_observations [seen ''a'' ''blog_url'' ''y'' 1, seen ''b'' ''blog_url'' ''x'' 2]"
proof -
  have d: "distinct (map ob_id [seen ''a'' ''blog_url'' ''y'' 1, seen ''b'' ''blog_url'' ''x'' 2])"
    "set [seen ''b'' ''blog_url'' ''x'' 2, seen ''a'' ''blog_url'' ''y'' 1] = set [seen ''a'' ''blog_url'' ''y'' 1, seen ''b'' ''blog_url'' ''x'' 2]"
    "distinct (map ob_id [seen ''b'' ''blog_url'' ''x'' 2, seen ''a'' ''blog_url'' ''y'' 1])"
    by (auto simp: seen_def)
  from signal_selection_latest [OF d] show ?thesis by blast
qed

lemma blog_components: "signal_components [(''blog_url'', x)] = compute_signal_score 0 0 0 (1 / 5)"
  by (simp add: signal_components_def Let_def web_signal_def)

theorem signal_score_bounds_witness:
  "list_all (\<lambda>(k, x). 0 \<le> x \<and> x \<le> 1) (signal_components [(''blog_url'', seen ''a'' ''blog_url'' ''x'' 1)])"
proof -
  have r: "py_round 4 (1 / 5 :: real) = 1 / 5" by (simp add: py_round_def half_even_def Let_def)
  have w: "(k \<in> fst ` set composite_weights \<Longrightarrow> 0 < component (signal_components [(''blog_url'', seen ''a'' ''blog_url'' ''x'' 1)]) k \<Longrightarrow>
      1 / 5 \<le> component (signal_components [(''blog_url'', seen ''a'' ''blog_url'' ''x'' 1)]) k
      \<and> component (signal_components [(''blog_url'', seen ''a'' ''blog_url'' ''x'' 1)]) k \<le> 1 / 5)" for k
    by (auto simp: blog_components composite_weights_def score_simps r)
  have "\<exists>k \<in> fst ` set composite_weights. 0 < component (signal_components [(''blog_url'', seen ''a'' ''blog_url'' ''x'' 1)]) k"
    by (simp add: blog_components composite_weights_def score_simps r)
  from signal_score_bounds [OF w this] show ?thesis by blast
qed

end
