(* ===== verification/Discovery_Jobs.thy ===== *)
theory Discovery_Jobs
  imports Signals Collection_Queue
begin

text \<open>
  The discovery and collection jobs of \<^verbatim>\<open>app/collectors/jobs.py\<close>: seeds are classified, stored as people
  with their material, scored, turned into outbound deals and queued for deep collection. A connector is
  an argument, one function per phase. The database side of a run is dropped when an exception leaves it,
  the objects and the queue are not. An exception that leaves a job is \<open>Inl\<close>.
\<close>

section \<open>Environment and state\<close>

record connector =
  cn_cost :: real
  cn_authority :: real
  cn_discover :: "string \<Rightarrow> int \<Rightarrow> exc + discovered"
  cn_collect :: "seed \<Rightarrow> string \<Rightarrow> exc + raw_collected"

record 'r disc_env =
  dv_store :: store_env
  dv_redis :: "'r redis_ops"
  dv_attempts :: "nat \<Rightarrow> 'r attempt"
  dv_connectors :: "string \<Rightarrow> connector"
  dv_theses :: "investment_thesis list"
  dv_freshness :: "string \<Rightarrow> int"
  dv_threshold :: real
  dv_rival_snapshots :: "source_snapshot list"
  dv_rival_observations :: "nat \<Rightarrow> observation list"
  dv_store_exc :: "store_error \<Rightarrow> exc"
  dv_bad_uuid :: exc

record 'r run =
  rn_world :: world
  rn_redis :: 'r
  rn_counts :: "int dict"
  rn_above :: int

definition other_error :: "string \<Rightarrow> string \<Rightarrow> exc" where
  "other_error name text = \<lparr>x_class = Other_Error, x_name = name, x_text = text\<rparr>"

definition builtin_sources :: "string list" where
  "builtin_sources = [''github'', ''producthunt'', ''arxiv'', ''web'', ''tavily_search'', ''hackernews'', ''youtube'',
     ''podcasts'', ''hackathons'', ''linkedin'']"

definition py_quote :: "string \<Rightarrow> string" where
  "py_quote s = [char_of (39 :: nat)] @ s @ [char_of (39 :: nat)]"

definition get_connector :: "'r disc_env \<Rightarrow> string \<Rightarrow> exc + connector" where
  "get_connector env source_type =
     (if source_type \<in> set builtin_sources then Inr (dv_connectors env source_type)
      else Inl (other_error ''KeyError'' (py_quote (''Unknown source_type: '' @ source_type))))"

section \<open>Classification of seeds\<close>

definition seed_entity_classifications :: "(string \<times> real) dict" where
  "seed_entity_classifications = [(''arxiv'', (''person'', 92 / 100)), (''github'', (''person'', 95 / 100)),
     (''hackernews'', (''person'', 9 / 10)), (''linkedin'', (''person'', 9 / 10)), (''producthunt'', (''person'', 88 / 100)),
     (''hackathons'', (''project'', 98 / 100)), (''podcasts'', (''event'', 9 / 10)), (''youtube'', (''channel'', 98 / 100)),
     (''tavily_entity'', (''unknown'', 35 / 100)), (''web'', (''unknown'', 35 / 100))]"

definition effective_source :: "string \<Rightarrow> seed \<Rightarrow> string" where
  "effective_source requested sd = (if sd_source_type sd = [] then requested else sd_source_type sd)"

fun stated_confidence :: "pyval \<Rightarrow> real" where
  "stated_confidence (PInt i) = of_int i"
| "stated_confidence (PFloat r) = r"
| "stated_confidence (PBool b) = (if b then 1 else 0)"
| "stated_confidence _ = 3 / 4"

definition classify_seed_entity :: "string \<Rightarrow> seed \<Rightarrow> string \<times> real" where
  "classify_seed_entity requested sd =
     (case dget (sd_metadata sd) ''entity_type'' of
        Some (PStr t) \<Rightarrow>
          if t \<in> {''person'', ''organization'', ''project'', ''channel'', ''event''}
          then (t, clamp01 (stated_confidence (get_or (sd_metadata sd) ''entity_confidence'' (PFloat (3 / 4)))))
          else (case dget seed_entity_classifications (effective_source requested sd) of
                  Some c \<Rightarrow> c | None \<Rightarrow> (''unknown'', 0))
      | _ \<Rightarrow> (case dget seed_entity_classifications (effective_source requested sd) of
                Some c \<Rightarrow> c | None \<Rightarrow> (''unknown'', 0)))"

definition collection_source_for_seed :: "string \<Rightarrow> seed \<Rightarrow> string option" where
  "collection_source_for_seed requested sd =
     (if requested \<noteq> ''tavily_search'' then Some (effective_source requested sd)
      else if sd_source_type sd = ''web'' \<and> (startswith (sd_handle sd) ''http://'' \<or> startswith (sd_handle sd) ''https://'')
      then Some ''web'' else None)"

section \<open>One person's material\<close>

definition collect_checked :: "'r disc_env \<Rightarrow> connector \<Rightarrow> seed \<Rightarrow> string \<Rightarrow> exc + collected" where
  "collect_checked env cn sd depth =
     (case cn_collect cn sd depth of
        Inl e \<Rightarrow> Inl e
      | Inr raw \<Rightarrow> validate_collected (sv_parse_iso (dv_store env)) raw)"

definition write_collected :: "'r disc_env \<Rightarrow> uuid \<Rightarrow> collected \<Rightarrow> world \<Rightarrow> exc option \<times> world" where
  "write_collected env person co w =
     (case write_snapshot (dv_store env) (dv_rival_snapshots env) co w of
        (Inl e, w1) \<Rightarrow> (Some (dv_store_exc env e), w1)
      | (Inr s, w1) \<Rightarrow>
          (case write_observations (dv_store env) s (co_observations co) (Some person) None
              (dv_rival_observations env) (w_db w1) of
             Inl e \<Rightarrow> (Some (dv_store_exc env e), w1)
           | Inr (ids, d) \<Rightarrow> (None, w1\<lparr>w_db := d\<rparr>)))"

definition record_success :: "'r disc_env \<Rightarrow> string \<Rightarrow> world \<Rightarrow> exc option \<times> world" where
  "record_success env src w =
     (case record_connector_success (sv_now (dv_store env)) (w_telemetry w) src None of
        Inl msg \<Rightarrow> (Some (other_error ''ValueError'' msg), w)
      | Inr rows \<Rightarrow> (None, w\<lparr>w_telemetry := rows\<rparr>))"

definition collected_name :: "'r disc_env \<Rightarrow> collected \<Rightarrow> string option" where
  "collected_name env co =
     map_option (\<lambda>ob. strip (py_str (sv_codec (dv_store env)) (get_or ob ''object_value'' (PStr []))))
       (find (\<lambda>ob. dget ob ''predicate'' = Some (PStr ''display_name'')) (co_observations co))"

definition set_display_name :: "person \<Rightarrow> string \<Rightarrow> world \<Rightarrow> world" where
  "set_display_name p name w =
     w\<lparr>w_db := (w_db w)\<lparr>persons := put_row p_id (persons (w_db w)) (p\<lparr>p_display_name := Some name\<rparr>)\<rparr>\<rparr>"

section \<open>Signal, deal and queue\<close>

definition deep_task :: "uuid \<Rightarrow> string \<Rightarrow> string \<Rightarrow> pyval" where
  "deep_task person src handle = PDict [(''person_id'', PStr person), (''source'', PStr src), (''depth'', PStr ''deep''),
     (''handle'', PStr handle)]"

definition task_priority :: "connector \<Rightarrow> real dict \<Rightarrow> real" where
  "task_priority cn components =
     priority (info_gain (component components ''composite'') 0 0) (cn_cost cn) (cn_authority cn)
       (unknown_inputs\<lparr>evidence_confidence := dget components ''signal_coverage''\<rparr>)"

definition promote :: "'r disc_env \<Rightarrow> real \<Rightarrow> opportunity \<Rightarrow> db \<Rightarrow> exc option \<times> db" where
  "promote env composite opp d =
     (if dv_threshold env \<le> composite \<and> o_lifecycle_state opp = ''discovered'' then
        (case transition_opportunity (sv_now (dv_store env)) d opp ''interesting'' ''pipeline:auto''
            (''Signal composite '' @ fmt_fixed 3 composite @ '' >= threshold ''
              @ py_str (sv_codec (dv_store env)) (PFloat (dv_threshold env))) of
           Inl msg \<Rightarrow> (Some (other_error ''ValueError'' msg), d)
         | Inr (event, opp', d') \<Rightarrow> (None, d'))
      else (None, d))"

definition settle_seed :: "'r disc_env \<Rightarrow> string \<Rightarrow> string \<Rightarrow> seed \<Rightarrow> person \<Rightarrow> connector \<Rightarrow> 'r run
    \<Rightarrow> exc option \<times> 'r run" where
  "settle_seed env src query sd p cn st =
     (let w = rn_world st; se = dv_store env;
          (components, d1) = compute_and_store_signal se (p_id p) src (w_db w);
          (opp, d2) = get_or_create_opportunity (sv_md5 se) (sv_now se)
            (sv_id se ''organizations'' (length (organizations d1))) (sv_id se ''opportunities'' (length (opportunities d1)))
            d1 p ''outbound'' ''discovered'' None (Some src) ''discovery'' (Some query) (Some (sd_handle sd));
          composite = component components ''composite''
      in case promote env composite opp d2 of
           (Some e, d3) \<Rightarrow> (Some e, st\<lparr>rn_world := w\<lparr>w_db := d3\<rparr>\<rparr>)
         | (None, d3) \<Rightarrow>
             (let st1 = st\<lparr>rn_world := w\<lparr>w_db := d3\<rparr>\<rparr>
              in (None, if above_threshold components (dv_threshold env)
                   then st1\<lparr>rn_above := rn_above st + 1,
                     rn_redis := enqueue (dv_redis env) (rn_redis st) (deep_task (p_id p) src (sd_handle sd))
                       (task_priority cn components)\<rparr>
                   else st1)))"

section \<open>One seed\<close>

definition freshness_days :: "'r disc_env \<Rightarrow> string \<Rightarrow> int" where
  "freshness_days env src =
     (case newest t_created_at (filter t_is_active (dv_theses env)) of
        Some t \<Rightarrow> (case dget (t_source_freshness_days t) src of Some n \<Rightarrow> n | None \<Rightarrow> 7)
      | None \<Rightarrow> dv_freshness env src)"

definition recently_collected :: "'r disc_env \<Rightarrow> uuid \<Rightarrow> string \<Rightarrow> world \<Rightarrow> bool" where
  "recently_collected env person src w =
     (let cutoff = sv_now (dv_store env) - freshness_days env src * us_day
      in list_ex (\<lambda>s. sn_source_type s = src \<and> cutoff \<le> sn_collected_at s
            \<and> list_ex (\<lambda>x. ob_snapshot_id x = sn_id s \<and> ob_subject_id x = Some person) (observations (w_db w)))
          (w_snapshots w))"

definition rename_discovered :: "'r disc_env \<Rightarrow> person \<Rightarrow> collected \<Rightarrow> world \<Rightarrow> person \<times> world" where
  "rename_discovered env p co w =
     (case collected_name env co of
        None \<Rightarrow> (p, w)
      | Some name \<Rightarrow> if name \<noteq> [] \<and> p_display_name p \<noteq> Some name
          then (p\<lparr>p_display_name := Some name\<rparr>, set_display_name p name w) else (p, w))"

definition collect_seed :: "'r disc_env \<Rightarrow> string \<Rightarrow> string \<Rightarrow> seed \<Rightarrow> person \<Rightarrow> connector \<Rightarrow> 'r run
    \<Rightarrow> exc option \<times> 'r run" where
  "collect_seed env src query sd p cn st =
     (case collect_checked env cn sd ''light'' of
        Inl e \<Rightarrow> (None, st)
      | Inr co \<Rightarrow>
          (case write_collected env (p_id p) co (rn_world st) of
             (Some e, w1) \<Rightarrow> (Some e, st\<lparr>rn_world := w1\<rparr>)
           | (None, w1) \<Rightarrow>
               (case record_success env src w1 of
                  (Some e, w2) \<Rightarrow> (Some e, st\<lparr>rn_world := w2\<rparr>)
                | (None, w2) \<Rightarrow>
                    (case rename_discovered env p co w2 of
                       (p', w3) \<Rightarrow> settle_seed env src query sd p' cn (st\<lparr>rn_world := w3\<rparr>)))))"

definition count_kind :: "string \<Rightarrow> int dict \<Rightarrow> int dict" where
  "count_kind kind tally = dset tally kind ((case dget tally kind of Some n \<Rightarrow> n | None \<Rightarrow> 0) + 1)"

definition discover_seed :: "'r disc_env \<Rightarrow> string \<Rightarrow> string \<Rightarrow> seed \<Rightarrow> 'r run \<Rightarrow> exc option \<times> 'r run" where
  "discover_seed env source query sd st0 =
     (case classify_seed_entity source sd of
        (kind, confidence) \<Rightarrow>
          (let st = st0\<lparr>rn_counts := count_kind kind (rn_counts st0)\<rparr>
           in if kind \<noteq> ''person'' \<or> confidence < 8 / 10 then (None, st)
              else (case collection_source_for_seed source sd of
                  None \<Rightarrow> (None, st)
                | Some src \<Rightarrow>
                    (case get_connector env src of
                       Inl e \<Rightarrow> (Some e, st)
                     | Inr cn \<Rightarrow>
                         (case get_or_create_person (dv_store env) (w_db (rn_world st)) src (sd_handle sd) (sd_display_hint sd) of
                            Inl e \<Rightarrow> (Some (dv_store_exc env e), st)
                          | Inr (None, d) \<Rightarrow> (Some (other_error ''AttributeError'' (py_quote ''NoneType'' @ '' object has no attribute '' @ py_quote ''id'')), st)
                          | Inr (Some p, d) \<Rightarrow>
                              (let st1 = st\<lparr>rn_world := (rn_world st)\<lparr>w_db := d\<rparr>\<rparr>
                               in if recently_collected env (p_id p) src (rn_world st1)
                                  then settle_seed env src query sd p cn st1
                                  else collect_seed env src query sd p cn st1))))))"

section \<open>The discovery job\<close>

text \<open>The seeds in order; the first exception ends the run.\<close>

fun discover_seeds :: "'r disc_env \<Rightarrow> string \<Rightarrow> string \<Rightarrow> seed list \<Rightarrow> 'r run \<Rightarrow> exc option \<times> 'r run" where
  "discover_seeds env source query [] st = (None, st)"
| "discover_seeds env source query (sd # sds) st =
     (case discover_seed env source query sd st of
        (Some e, st1) \<Rightarrow> (Some e, st1)
      | (None, st1) \<Rightarrow> discover_seeds env source query sds st1)"

definition terminal_result :: "world \<Rightarrow> uuid \<Rightarrow> pyval dict" where
  "terminal_result w i =
     (case get_row j_id (w_jobs w) i of
        None \<Rightarrow> []
      | Some j \<Rightarrow> (case j_result j of
          Some res \<Rightarrow> if res = [] then [(''status'', PStr (j_status j))] else res
        | None \<Rightarrow> [(''status'', PStr (j_status j))]))"

definition failure_result :: "exc \<Rightarrow> pyval dict" where
  "failure_result x =
     (case classify_connector_failure x of (kind, retryable) \<Rightarrow>
        [(''status'', PStr ''failed''), (''error'', PStr (x_text x)), (''failure_kind'', PStr (failure_key kind)),
         (''retryable'', PBool retryable)])"

text \<open>
  The end of a failed run: the reserved page goes back, the ledger keeps the failure, and a failure worth
  a retry is raised to the worker.
\<close>

definition fail_discovery :: "'r disc_env \<Rightarrow> string \<Rightarrow> string \<Rightarrow> string option \<Rightarrow> int \<Rightarrow> int \<Rightarrow> exc \<Rightarrow> world \<Rightarrow> 'r
    \<Rightarrow> (exc + pyval dict) \<times> (world \<times> 'r)" where
  "fail_discovery env source query job_id page attempt x w r =
     (let failure = normalize_connector_error x (source @ ''_discover_failed'');
          res = failure_result failure;
          r1 = rollback_discovery_page (dv_redis env) (dv_attempts env) r source query page;
          w1 = set_job (sv_now (dv_store env)) job_id (failed_update ''discover'' attempt (x_text failure) res) w
      in (if snd (classify_connector_failure failure) then Inl failure else Inr res, (w1, r1)))"

definition counts_value :: "int dict \<Rightarrow> pyval" where
  "counts_value tally = PDict (map (\<lambda>(k, n). (k, PInt n)) tally)"

definition discover_summary :: "string \<Rightarrow> string \<Rightarrow> seed list \<Rightarrow> 'r run \<Rightarrow> pyval dict" where
  "discover_summary query source seeds st =
     [(''query'', PStr query), (''source'', PStr source), (''seeds'', PInt (int (length seeds))),
      (''entity_counts'', counts_value (rn_counts st)), (''above_threshold'', PInt (rn_above st))]"

definition progress_update :: "string \<Rightarrow> string \<Rightarrow> int option \<Rightarrow> pyval dict option \<Rightarrow> job_update" where
  "progress_update status phase attempt res = \<lparr>ju_status = status, ju_phase = phase, ju_attempt = attempt,
     ju_progress = None, ju_last_error = None, ju_clear_error = (status = ''succeeded''), ju_result = res\<rparr>"

definition start_run :: "world \<Rightarrow> 'r \<Rightarrow> 'r run" where
  "start_run w r = \<lparr>rn_world = w, rn_redis = r, rn_counts = [], rn_above = 0\<rparr>"

definition process_seeds :: "'r disc_env \<Rightarrow> string \<Rightarrow> string \<Rightarrow> string option \<Rightarrow> int \<Rightarrow> seed list \<Rightarrow> world \<Rightarrow> 'r
    \<Rightarrow> exc option \<times> 'r run" where
  "process_seeds env source query job_id attempt seeds w r =
     (let now = sv_now (dv_store env);
          w1 = set_job now job_id (progress_update ''running'' ''collect'' (Some attempt) None) w
      in case discover_seeds env source query seeds (start_run w1 r) of
           (Some e, st) \<Rightarrow> (Some e, st)
         | (None, st) \<Rightarrow>
             (case record_success env source (rn_world st) of
                (Some e, w2) \<Rightarrow> (Some e, st\<lparr>rn_world := w2\<rparr>)
              | (None, w2) \<Rightarrow> (None, st\<lparr>rn_world := set_job now job_id
                  (progress_update ''succeeded'' ''complete'' None (Some (discover_summary query source seeds st))) w2\<rparr>)))"

definition discover_job :: "'r disc_env \<Rightarrow> string \<Rightarrow> string \<Rightarrow> string option \<Rightarrow> world \<Rightarrow> 'r
    \<Rightarrow> (exc + pyval dict) \<times> (world \<times> 'r)" where
  "discover_job env query source job_id w r =
     (case get_connector env source of
        Inl e \<Rightarrow> (Inl e, (w, r))
      | Inr cn \<Rightarrow>
          (case get_discovery_page (dv_redis env) (dv_attempts env) r source query of
             (Inl msg, r1) \<Rightarrow> (Inl (other_error ''RuntimeError'' msg), (w, r1))
           | (Inr page, r1) \<Rightarrow>
               (case begin_job (sv_now (dv_store env)) job_id ''discover'' w of
                  (Inl row, w1) \<Rightarrow> (Inr (terminal_result w1 row),
                      (w1, rollback_discovery_page (dv_redis env) (dv_attempts env) r1 source query page))
                | (Inr started, w1) \<Rightarrow>
                    (let attempt = max 1 started
                     in case (case cn_discover cn query page of Inl e \<Rightarrow> Inl e | Inr x \<Rightarrow> validate_discovered x) of
                          Inl e \<Rightarrow> fail_discovery env source query job_id page attempt e w1 r1
                        | Inr seeds \<Rightarrow>
                            (case process_seeds env source query job_id attempt seeds w1 r1 of
                               (Some e, st) \<Rightarrow> fail_discovery env source query job_id page attempt e
                                   (w1\<lparr>w_objects := w_objects (rn_world st)\<rparr>) (rn_redis st)
                             | (None, st) \<Rightarrow> (Inr (discover_summary query source seeds st), (rn_world st, rn_redis st)))))))"

section \<open>The collection job\<close>

definition collect_seed_of :: "person \<Rightarrow> string \<Rightarrow> string \<Rightarrow> seed" where
  "collect_seed_of p src handle0 =
     (let handle = (if handle0 = [] then (case p_handles p of None \<Rightarrow> []
            | Some hs \<Rightarrow> (case dget hs src of Some h \<Rightarrow> h | None \<Rightarrow> [])) else handle0)
      in \<lparr>sd_source_type = src, sd_handle = handle, sd_display_hint = str_or (p_display_name p) handle, sd_metadata = []\<rparr>)"

definition rename_collected :: "'r disc_env \<Rightarrow> person \<Rightarrow> string \<Rightarrow> collected \<Rightarrow> world \<Rightarrow> world" where
  "rename_collected env p handle co w =
     (case collected_name env co of
        None \<Rightarrow> w
      | Some name \<Rightarrow> if name \<noteq> [] \<and> lower name \<noteq> lower handle then set_display_name p name w else w)"

definition person_not_found :: "pyval dict" where
  "person_not_found = [(''status'', PStr ''failed''), (''error'', PStr ''person_not_found''),
     (''failure_kind'', PStr ''permanent''), (''retryable'', PBool False)]"

text \<open>The ledger row of a collection: the given one, else a new one.\<close>

definition ledger_job :: "store_env \<Rightarrow> string option \<Rightarrow> string \<Rightarrow> world \<Rightarrow> string option \<times> world" where
  "ledger_job se job_id kind w =
     (case job_id of
        Some j \<Rightarrow> (Some j, w)
      | None \<Rightarrow> (case create_job (sv_id se ''job_runs'' (length (w_jobs w))) (w_jobs w) kind of
          (job, rows) \<Rightarrow> (Some (j_id job), w\<lparr>w_jobs := rows\<rparr>)))"

definition store_person_material :: "'r disc_env \<Rightarrow> person \<Rightarrow> string \<Rightarrow> string \<Rightarrow> collected \<Rightarrow> world \<Rightarrow> exc option \<times> world" where
  "store_person_material env p src handle co w =
     (case write_collected env (p_id p) co w of
        (Some e, w1) \<Rightarrow> (Some e, w1)
      | (None, w1) \<Rightarrow>
          (let w2 = rename_collected env p handle co w1;
               w3 = w2\<lparr>w_db := snd (compute_and_store_signal (dv_store env) (p_id p) src (w_db w2))\<rparr>
           in record_success env src w3))"

definition collect_person :: "'r disc_env \<Rightarrow> string \<Rightarrow> string \<Rightarrow> string \<Rightarrow> string \<Rightarrow> world
    \<Rightarrow> (exc + (exc option \<times> pyval dict)) \<times> world" where
  "collect_person env person_id src depth handle w =
     (case parse_uuid person_id of
        None \<Rightarrow> (Inl (dv_bad_uuid env), w)
      | Some pid \<Rightarrow>
          (case get_row p_id (persons (w_db w)) pid of
             None \<Rightarrow> (Inr (Some (other_error [] ''person_not_found''), person_not_found), w)
           | Some p \<Rightarrow>
               (let sd = collect_seed_of p src handle
                in case get_connector env src of
                     Inl e \<Rightarrow> (Inl e, w)
                   | Inr cn \<Rightarrow>
                       (case collect_checked env cn sd depth of
                          Inl e \<Rightarrow> (Inr (Some e, failure_result e), w)
                        | Inr co \<Rightarrow>
                            (case store_person_material env p src (sd_handle sd) co w of
                               (Some e, w1) \<Rightarrow> (Inl e, w1)
                             | (None, w1) \<Rightarrow> (Inr (None, [(''person_id'', PStr person_id), (''source'', PStr src),
                                 (''depth'', PStr depth), (''observations'', PInt (int (length (co_observations co))))]), w1))))))"

definition collect_job :: "'r disc_env \<Rightarrow> string \<Rightarrow> string \<Rightarrow> string \<Rightarrow> string \<Rightarrow> string option \<Rightarrow> world
    \<Rightarrow> (exc + pyval dict) \<times> world" where
  "collect_job env person_id src depth handle job_id w0 =
     (let now = sv_now (dv_store env); (ledger, w) = ledger_job (dv_store env) job_id ''collect'' w0
      in case begin_job now ledger ''collect'' w of
           (Inl row, w1) \<Rightarrow> (Inr (terminal_result w1 row), w1)
         | (Inr attempt, w1) \<Rightarrow>
             (case collect_person env person_id src depth handle w1 of
                (Inl e, w2) \<Rightarrow> (Inl e, set_job now ledger (failed_update ''collect'' attempt (x_text e) (failure_result e))
                    (w1\<lparr>w_objects := w_objects w2\<rparr>))
              | (Inr (Some e, res), w2) \<Rightarrow> (Inr res, set_job now ledger (failed_update ''collect'' attempt (x_text e) res) w2)
              | (Inr (None, res), w2) \<Rightarrow> (Inr res, set_job now ledger
                  (progress_update ''succeeded'' ''complete'' (Some attempt) (Some res)) w2)))"

end
