(* ===== verification/Discovery_Effects.thy ===== *)
theory Discovery_Effects
  imports Discovery_Jobs
begin

text \<open>
  What the discovery and collection jobs do to the database: the contract every step keeps, that a run
  commits as a whole or not at all, and that without licences nothing is escalated.
\<close>

section \<open>What a step may change\<close>

text \<open>
  The contract of every step of a run: rows are only added, the unique indexes keep holding, claims and
  memos are untouched, and the people are the old ones and those with the given stable ids.
\<close>

definition material_step :: "string set \<Rightarrow> world \<Rightarrow> world \<Rightarrow> bool" where
  "material_step new w w' =
     (prefix (w_snapshots w) (w_snapshots w') \<and> prefix (observations (w_db w)) (observations (w_db w'))
      \<and> prefix (score_snapshots (w_db w)) (score_snapshots (w_db w'))
      \<and> (unique_index sn_fingerprint (w_snapshots w) \<longrightarrow> unique_index sn_fingerprint (w_snapshots w'))
      \<and> (unique_index ob_fingerprint (observations (w_db w)) \<longrightarrow> unique_index ob_fingerprint (observations (w_db w')))
      \<and> claims (w_db w') = claims (w_db w) \<and> memos (w_db w') = memos (w_db w) \<and> w_jobs w' = w_jobs w
      \<and> p_stable_id ` set (persons (w_db w')) \<subseteq> p_stable_id ` set (persons (w_db w)) \<union> new)"

lemma material_step_refl: "material_step {} w w"
  by (simp add: material_step_def)

lemma material_step_trans:
  "material_step a w1 w2 \<Longrightarrow> material_step b w2 w3 \<Longrightarrow> material_step (a \<union> b) w1 w3"
  unfolding material_step_def
  by (elim conjE, intro conjI) (erule (1) prefix_order.trans | simp | blast)+

lemma material_step_mono: "material_step a w1 w2 \<Longrightarrow> a \<subseteq> b \<Longrightarrow> material_step b w1 w2"
  unfolding material_step_def by blast

lemma follow_chain_in:
  "follow_chain fuel people p = Some (Some q) \<Longrightarrow> p \<in> set people \<Longrightarrow> q \<in> set people"
  by (induction fuel people p rule: follow_chain.induct) (auto split: if_splits option.splits dest: get_row_key)

lemma get_or_create_person_step:
  assumes "get_or_create_person se (w_db w) src handle hint = Inr (x, d)"
  shows "material_step {src @ '':'' @ handle} w (w\<lparr>w_db := d\<rparr>) \<and> (\<forall>p. x = Some p \<longrightarrow> p \<in> set (persons d))"
proof (cases "filter (has_handle src handle) (persons (w_db w))")
  case Nil
  with assms show ?thesis
    by (auto simp: get_or_create_person_def Let_def new_person_def material_step_def split: if_splits)
next
  case (Cons p rest)
  then have "p \<in> set (filter (has_handle src handle) (persons (w_db w)))" by simp
  then have p: "p \<in> set (persons (w_db w))" by simp
  from Cons assms have "d = w_db w \<and> follow_chain (Suc (length (persons (w_db w)))) (persons (w_db w)) p = Some x"
    by (auto simp: get_or_create_person_def simp del: follow_chain.simps split: list.splits option.splits)
  with p show ?thesis
    using follow_chain_in [of _ "persons (w_db w)" p] by (auto simp: material_step_def simp del: follow_chain.simps)
qed

lemma write_collected_step:
  "write_collected env pid co w = (e, w') \<Longrightarrow> material_step {} w w' \<and> persons (w_db w') = persons (w_db w)"
proof -
  assume a: "write_collected env pid co w = (e, w')"
  obtain res w1 where s: "write_snapshot (dv_store env) (dv_rival_snapshots env) co w = (res, w1)" by force
  note f = write_snapshot_frame [OF s]
  show ?thesis
  proof (cases res)
    case (Inl x)
    with a s f show ?thesis by (simp add: write_collected_def material_step_def)
  next
    case (Inr sn)
    show ?thesis
    proof (cases "write_observations (dv_store env) sn (co_observations co) (Some pid) None (dv_rival_observations env) (w_db w1)")
      case (Inl x)
      with a s f \<open>res = Inr sn\<close> show ?thesis by (simp add: write_collected_def material_step_def)
    next
      case ok: (Inr r)
      obtain ids d where r: "r = (ids, d)" by force
      from write_observations_frame [OF ok [unfolded r]] obtain obs where "d = (w_db w1)\<lparr>observations := obs\<rparr>"
        "prefix (observations (w_db w1)) obs" "unique_index ob_fingerprint (observations (w_db w1)) \<longrightarrow> unique_index ob_fingerprint obs"
        by (metis)
      with a s f ok r \<open>res = Inr sn\<close> show ?thesis by (auto simp: write_collected_def material_step_def)
    qed
  qed
qed

lemma record_success_step: "record_success env src w = (e, w') \<Longrightarrow> material_step {} w w' \<and> w_db w' = w_db w"
  by (auto simp: record_success_def material_step_def split: sum.splits)

lemma set_display_name_step:
  assumes "p_stable_id p \<in> p_stable_id ` set (persons (w_db w))"
  shows "material_step {} w (set_display_name p name w)"
  using assms by (auto simp: material_step_def set_display_name_def put_row_def)

lemma organization_frame:
  assumes "get_or_create_organization md5 i d name = (org, d')"
  shows "observations d' = observations d \<and> score_snapshots d' = score_snapshots d \<and> claims d' = claims d
    \<and> memos d' = memos d \<and> persons d' = persons d \<and> opportunities d' = opportunities d
    \<and> decision_events d' = decision_events d"
  using assms by (auto simp: get_or_create_organization_def Let_def split: option.splits)

lemma get_or_create_opportunity_frame:
  assumes "get_or_create_opportunity md5 now i j d p kind state company ch tt query ref = (opp, d')"
  shows "observations d' = observations d \<and> score_snapshots d' = score_snapshots d \<and> claims d' = claims d
    \<and> memos d' = memos d \<and> persons d' = persons d \<and> decision_events d' = decision_events d"
  using assms organization_frame
  by (auto simp: get_or_create_opportunity_def Let_def add_opportunity_def record_channel_touch_def
      split: option.splits prod.splits)

lemma promote_frame:
  assumes "promote env composite opp d = (e, d')"
  shows "observations d' = observations d \<and> score_snapshots d' = score_snapshots d \<and> claims d' = claims d
    \<and> memos d' = memos d \<and> persons d' = persons d"
  using assms by (auto simp: promote_def save_opportunity_def add_event_def dest!: transition_Inr
      split: if_splits sum.splits)

lemma settle_seed_step:
  assumes "settle_seed env src query sd p cn st = (e, st')"
  shows "material_step {} (rn_world st) (rn_world st') \<and> w_objects (rn_world st') = w_objects (rn_world st)
    \<and> w_telemetry (rn_world st') = w_telemetry (rn_world st) \<and> rn_counts st' = rn_counts st"
proof -
  let ?w = "rn_world st" and ?se = "dv_store env"
  obtain comps d1 where c: "compute_and_store_signal ?se (p_id p) src (w_db ?w) = (comps, d1)" by force
  obtain opp d2 where o: "get_or_create_opportunity (sv_md5 ?se) (sv_now ?se)
      (sv_id ?se ''organizations'' (length (organizations d1))) (sv_id ?se ''opportunities'' (length (opportunities d1)))
      d1 p ''outbound'' ''discovered'' None (Some src) ''discovery'' (Some query) (Some (sd_handle sd)) = (opp, d2)" by force
  obtain x d3 where m: "promote env (component comps ''composite'') opp d2 = (x, d3)" by force
  have d1: "observations d1 = observations (w_db ?w)" "claims d1 = claims (w_db ?w)" "memos d1 = memos (w_db ?w)"
    "persons d1 = persons (w_db ?w)" "prefix (score_snapshots (w_db ?w)) (score_snapshots d1)"
    using c by (auto simp: compute_and_store_signal_def Let_def)
  have st': "rn_world st' = ?w\<lparr>w_db := d3\<rparr> \<and> rn_counts st' = rn_counts st"
    using assms c o m by (auto simp: settle_seed_def Let_def split: option.splits if_splits)
  with d1 get_or_create_opportunity_frame [OF o] promote_frame [OF m] show ?thesis
    by (simp add: material_step_def)
qed

lemma rename_discovered_step:
  assumes "rename_discovered env p co w = (p', w')" "p \<in> set (persons (w_db w))"
  shows "material_step {} w w'"
  using assms set_display_name_step material_step_refl
  by (auto simp: rename_discovered_def split: option.splits if_splits)

lemma collect_seed_step:
  assumes "collect_seed env src query sd p cn st = (e, st')" "p \<in> set (persons (w_db (rn_world st)))"
  shows "material_step {} (rn_world st) (rn_world st') \<and> rn_counts st' = rn_counts st"
proof (cases "collect_checked env cn sd ''light''")
  case (Inl x)
  with assms(1) material_step_refl show ?thesis by (simp add: collect_seed_def)
next
  case (Inr co)
  obtain x1 w1 where w1: "write_collected env (p_id p) co (rn_world st) = (x1, w1)" by force
  note s1 = conjunct1 [OF write_collected_step [OF w1]]
  show ?thesis
  proof (cases x1)
    case (Some y)
    with assms(1) Inr w1 s1 show ?thesis by (auto simp: collect_seed_def)
  next
    case None
    obtain x2 w2 where w2: "record_success env src w1 = (x2, w2)" by force
    from material_step_trans [OF s1 conjunct1 [OF record_success_step [OF w2]]] have
      s2: "material_step {} (rn_world st) w2" by simp
    show ?thesis
    proof (cases x2)
      case (Some y)
      with assms(1) Inr w1 None w2 s2 show ?thesis by (auto simp: collect_seed_def)
    next
      case ok: None
      have p2: "p \<in> set (persons (w_db w2))"
        using assms(2) write_collected_step [OF w1] record_success_step [OF w2] by simp
      obtain p' w3 where w3: "rename_discovered env p co w2 = (p', w3)" by force
      have "settle_seed env src query sd p' cn (st\<lparr>rn_world := w3\<rparr>) = (e, st')"
        using assms(1) Inr w1 None w2 ok w3 by (simp add: collect_seed_def)
      from settle_seed_step [OF this] material_step_trans [OF s2 rename_discovered_step [OF w3 p2]]
      show ?thesis by (auto dest: material_step_trans)
    qed
  qed
qed

text \<open>The stable ids a list of seeds may bring: those of seeds taken for a person with high confidence.\<close>

definition eligible_ids :: "string \<Rightarrow> seed list \<Rightarrow> string set" where
  "eligible_ids source sds = set (concat (map (\<lambda>sd. case classify_seed_entity source sd of (kind, confidence) \<Rightarrow>
     if kind = ''person'' \<and> 8 / 10 \<le> confidence
     then (case collection_source_for_seed source sd of None \<Rightarrow> [] | Some src \<Rightarrow> [src @ '':'' @ sd_handle sd]) else []) sds))"

lemma eligible_Cons: "eligible_ids source (sd # sds) = eligible_ids source [sd] \<union> eligible_ids source sds"
  unfolding eligible_ids_def by (simp only: list.map concat.simps set_append append_Nil2)

lemma discover_seed_step:
  assumes "discover_seed env source query sd st = (e, st')"
  shows "material_step (eligible_ids source [sd]) (rn_world st) (rn_world st')
    \<and> rn_counts st' = count_kind (fst (classify_seed_entity source sd)) (rn_counts st)"
proof -
  obtain kind conf where k: "classify_seed_entity source sd = (kind, conf)" by force
  let ?st = "st\<lparr>rn_counts := count_kind kind (rn_counts st)\<rparr>"
  have none: "material_step a (rn_world st) (rn_world st)" for a
    using material_step_mono [OF material_step_refl] by blast
  show ?thesis
  proof (cases "kind \<noteq> ''person'' \<or> conf < 8 / 10")
    case True
    with assms k none show ?thesis by (auto simp: discover_seed_def Let_def)
  next
    case person: False
    show ?thesis
    proof (cases "collection_source_for_seed source sd")
      case None
      with assms k person none show ?thesis by (auto simp: discover_seed_def Let_def)
    next
      case src: (Some src)
      have el: "eligible_ids source [sd] = {src @ '':'' @ sd_handle sd}"
        using k person src by (simp add: eligible_ids_def)
      show ?thesis
      proof (cases "get_connector env src")
        case (Inl x)
        with assms k person src none show ?thesis by (auto simp: discover_seed_def Let_def)
      next
        case cn: (Inr cn)
        show ?thesis
        proof (cases "get_or_create_person (dv_store env) (w_db (rn_world st)) src (sd_handle sd) (sd_display_hint sd)")
          case (Inl x)
          with assms k person src cn none show ?thesis by (auto simp: discover_seed_def Let_def)
        next
          case found: (Inr r)
          obtain x d where r: "r = (x, d)" by force
          note step = get_or_create_person_step [OF found [unfolded r]]
          show ?thesis
          proof (cases x)
            case None
            with assms k person src cn found r none show ?thesis by (auto simp: discover_seed_def Let_def)
          next
            case (Some p)
            let ?st1 = "?st\<lparr>rn_world := (rn_world st)\<lparr>w_db := d\<rparr>\<rparr>"
            have "settle_seed env src query sd p cn ?st1 = (e, st') \<or> collect_seed env src query sd p cn ?st1 = (e, st')"
              using assms k person src cn found r Some by (auto simp: discover_seed_def Let_def split: if_splits)
            then have "material_step {} (rn_world ?st1) (rn_world st') \<and> rn_counts st' = rn_counts ?st1"
              using settle_seed_step [of env src query sd p cn ?st1 e st'] collect_seed_step [of env src query sd p cn ?st1 e st']
                step Some by fastforce
            with material_step_trans [OF conjunct1 [OF step]] k el show ?thesis by fastforce
          qed
        qed
      qed
    qed
  qed
qed

lemma sum_count_kind: "sum_list (map snd (count_kind k c)) = sum_list (map snd c) + 1"
proof -
  have "sum_list (map snd (dset c k v)) = sum_list (map snd c) + v - (case dget c k of Some n \<Rightarrow> n | None \<Rightarrow> 0)" for v :: int
    by (induction c k v rule: dset.induct) auto
  then show ?thesis by (simp add: count_kind_def)
qed

lemma discover_seeds_step:
  assumes "discover_seeds env source query sds st = (e, st')"
  shows "material_step (eligible_ids source sds) (rn_world st) (rn_world st')
    \<and> (e = None \<longrightarrow> sum_list (map snd (rn_counts st')) = sum_list (map snd (rn_counts st)) + int (length sds))"
  using assms
proof (induction sds arbitrary: st)
  case Nil
  then show ?case using material_step_mono [OF material_step_refl] by auto
next
  case (Cons sd sds)
  obtain x st1 where one: "discover_seed env source query sd st = (x, st1)" by force
  note s1 = discover_seed_step [OF one]
  show ?case
  proof (cases x)
    case (Some y)
    with Cons.prems one s1 show ?thesis
      by (auto simp: eligible_Cons [of _ _ sds] intro: material_step_mono)
  next
    case None
    with Cons.prems one have "discover_seeds env source query sds st1 = (e, st')" by simp
    from Cons.IH [OF this] s1 show ?thesis
      by (auto simp: eligible_Cons [of _ _ sds] sum_count_kind intro: material_step_trans)
  qed
qed


section \<open>Discovery without licences\<close>

text \<open>No material of a connector comes with a licence for models, and neither do the rivals' snapshots.\<close>

definition unlicensed_sources :: "'r disc_env \<Rightarrow> bool" where
  "unlicensed_sources env = (list_all quarantined (dv_rival_snapshots env)
     \<and> (\<forall>src sd co. collect_checked env (dv_connectors env src) sd ''light'' = Inr co \<longrightarrow>
          co_source_type co \<notin> {''inbound_deck'', ''outreach''} \<and> \<not> licensed (co_license_hint co)))"

definition silent :: "decision_event list \<Rightarrow> 'r \<Rightarrow> 'r run \<Rightarrow> bool" where
  "silent events r st = (observations (w_db (rn_world st)) = [] \<and> decision_events (w_db (rn_world st)) = events
     \<and> list_all quarantined (w_snapshots (rn_world st)) \<and> rn_redis st = r \<and> rn_above st = 0)"

lemma no_signal: "component (signal_components (fst (select_latest_signal_observations []))) ''composite'' = 0"
proof -
  have "signal_components [] = compute_signal_score 0 0 0 0" by (simp add: signal_components_def Let_def web_signal_def)
  moreover have "supplied 0 0 0 0 = []" by (simp add: supplied_def score_values_def)
  ultimately show ?thesis
    by (simp add: select_latest_signal_observations_def newest_first_def score_simps weighted_average_def)
qed

lemma settle_seed_silent:
  assumes "settle_seed env src query sd p cn st = (e, st')" "silent events r st" "0 < dv_threshold env"
  shows "silent events r st'"
proof -
  let ?w = "rn_world st" and ?se = "dv_store env"
  obtain comps d1 where c: "compute_and_store_signal ?se (p_id p) src (w_db ?w) = (comps, d1)" by force
  obtain opp d2 where o: "get_or_create_opportunity (sv_md5 ?se) (sv_now ?se)
      (sv_id ?se ''organizations'' (length (organizations d1))) (sv_id ?se ''opportunities'' (length (opportunities d1)))
      d1 p ''outbound'' ''discovered'' None (Some src) ''discovery'' (Some query) (Some (sd_handle sd)) = (opp, d2)" by force
  have z: "component comps ''composite'' = 0" and d1: "observations d1 = []" "decision_events d1 = events"
    using c assms(2) no_signal by (auto simp: compute_and_store_signal_def Let_def observations_of_def silent_def)
  have "promote env (component comps ''composite'') opp d2 = (None, d2)" "\<not> above_threshold comps (dv_threshold env)"
    using assms(3) z by (simp_all add: promote_def above_threshold_def)
  then have "st' = st\<lparr>rn_world := ?w\<lparr>w_db := d2\<rparr>\<rparr>" using assms(1) c o by (simp add: settle_seed_def Let_def)
  with get_or_create_opportunity_frame [OF o] d1 assms(2) show ?thesis by (simp add: silent_def)
qed

lemma write_snapshot_quarantined:
  assumes "write_snapshot env rivals co w = (res, w')" "list_all quarantined rivals" "list_all quarantined (w_snapshots w)"
    "co_source_type co \<notin> {''inbound_deck'', ''outreach''}" "\<not> licensed (co_license_hint co)"
  shows "list_all quarantined (w_snapshots w') \<and> (\<forall>s. res = Inr s \<longrightarrow> quarantined s)"
proof -
  have q: "quarantined (new_snapshot env co h path n)" for h path n
    by (rule new_snapshot_quarantined) (use assms(4,5) in auto)
  have c: "list_all quarantined (commit_rivals sn_fingerprint rivals (w_snapshots w))"
    using commit_rivals_subset [of sn_fingerprint rivals "w_snapshots w"] assms(2,3) by (auto simp: list_all_iff)
  have "list_all quarantined (w_snapshots w')"
    using assms(1,3) c q by (auto simp: write_snapshot_def put_snapshot_def Let_def dest!: unique_insert_Some
        split: option.splits simp del: newest_None_iff)
  moreover have "quarantined s" if "res = Inr s" for s
    using write_snapshot_origin [OF assms(1) [unfolded that]] assms(2,3) q by (auto simp: list_all_iff)
  ultimately show ?thesis by blast
qed

lemma write_collected_silent:
  assumes "write_collected env pid co w = (e, w')" "list_all quarantined (w_snapshots w)" "observations (w_db w) = []"
    "list_all quarantined (dv_rival_snapshots env)"
    "co_source_type co \<notin> {''inbound_deck'', ''outreach''}" "\<not> licensed (co_license_hint co)"
  shows "list_all quarantined (w_snapshots w') \<and> w_db w' = w_db w"
proof -
  obtain res w1 where s: "write_snapshot (dv_store env) (dv_rival_snapshots env) co w = (res, w1)" by force
  note q = write_snapshot_quarantined [OF s assms(4,2,5,6)]
  show ?thesis
    using assms(1) s q write_snapshot_frame [OF s]
    by (cases res) (auto simp: write_collected_def write_observations_def)
qed

lemma collect_seed_silent:
  assumes "collect_seed env src query sd p (dv_connectors env src) st = (e, st')" "silent events r st" "0 < dv_threshold env"
    "unlicensed_sources env"
  shows "silent events r st'"
proof (cases "collect_checked env (dv_connectors env src) sd ''light''")
  case (Inl x)
  with assms(1,2) show ?thesis by (simp add: collect_seed_def)
next
  case (Inr co)
  obtain x1 w1 where w1: "write_collected env (p_id p) co (rn_world st) = (x1, w1)" by force
  have "list_all quarantined (w_snapshots w1) \<and> w_db w1 = w_db (rn_world st)"
    by (rule write_collected_silent [OF w1]) (use assms(2,4) Inr in \<open>auto simp: silent_def unlicensed_sources_def\<close>)
  with assms(2) have s1: "silent events r (st\<lparr>rn_world := w1\<rparr>)" by (simp add: silent_def)
  obtain x2 w2 where w2: "record_success env src w1 = (x2, w2)" by force
  have s2: "silent events r (st\<lparr>rn_world := w2\<rparr>)"
    using w2 s1 by (auto simp: record_success_def silent_def split: sum.splits)
  obtain p' w3 where w3: "rename_discovered env p co w2 = (p', w3)" by force
  have s3: "silent events r (st\<lparr>rn_world := w3\<rparr>)"
    using w3 s2 by (auto simp: rename_discovered_def set_display_name_def silent_def split: option.splits if_splits)
  show ?thesis
    using assms(1) Inr w1 w2 w3 s1 s2 settle_seed_silent [OF _ s3 assms(3)]
    by (auto simp: collect_seed_def split: option.splits)
qed

lemma discover_seed_silent:
  assumes "discover_seed env source query sd st = (e, st')" "silent events r st" "0 < dv_threshold env" "unlicensed_sources env"
  shows "silent events r st'"
proof -
  have counted: "silent events r (st\<lparr>rn_counts := c\<rparr>)" for c using assms(2) by (simp add: silent_def)
  have found: "silent events r (st\<lparr>rn_counts := c, rn_world := (rn_world st)\<lparr>w_db := d\<rparr>\<rparr>)"
    if "get_or_create_person (dv_store env) (w_db (rn_world st)) src h hint = Inr (x, d)" for c d src h hint x
    using that assms(2) by (auto simp: silent_def get_or_create_person_def Let_def simp del: follow_chain.simps
        split: list.splits option.splits if_splits)
  have cn: "get_connector env src = Inr c \<Longrightarrow> c = dv_connectors env src" for src c
    by (auto simp: get_connector_def split: if_splits)
  show ?thesis
    using assms(1) counted
    by (auto simp: discover_seed_def Let_def dest!: cn split: prod.splits if_splits option.splits sum.splits
        intro: settle_seed_silent [OF _ found assms(3)] collect_seed_silent [OF _ found assms(3,4)])
qed

lemma discover_seeds_silent:
  assumes "discover_seeds env source query sds st = (e, st')" "silent events r st" "0 < dv_threshold env" "unlicensed_sources env"
  shows "silent events r st'"
  using assms
proof (induction sds arbitrary: st)
  case (Cons sd sds)
  obtain x st1 where one: "discover_seed env source query sd st = (x, st1)" by force
  from discover_seed_silent [OF this Cons.prems(2-4)] Cons one show ?case by (cases x) auto
qed simp

text \<open>
  Without licences discovery escalates nothing: while no connector reports a licence for models,
  every run leaves the evidence empty and the audit log as it was, so no deal leaves the first stage, no
  person is counted above the threshold and nothing is queued for deep collection, whatever it finds.
\<close>

theorem unlicensed_discovery_escalates_nothing:
  assumes "discover_job env query source None w r = (res, (w', r'))" and "unlicensed_sources env"
    and "list_all quarantined (w_snapshots w)" and "observations (w_db w) = []" and "0 < dv_threshold env"
  shows "observations (w_db w') = [] \<and> decision_events (w_db w') = decision_events (w_db w)
    \<and> (\<forall>d. res = Inr d \<longrightarrow> dget d ''above_threshold'' \<in> {None, Some (PInt 0)})
    \<and> (\<exists>page. r' \<in> {r, snd (get_discovery_page (dv_redis env) (dv_attempts env) r source query),
        rollback_discovery_page (dv_redis env) (dv_attempts env)
          (snd (get_discovery_page (dv_redis env) (dv_attempts env) r source query)) source query page})"
proof -
  let ?r1 = "snd (get_discovery_page (dv_redis env) (dv_attempts env) r source query)"
  have seeds: "silent (decision_events (w_db w)) ?r1 st'"
    if "discover_seeds env source query sds (start_run w ?r1) = (e, st')" for sds e st'
    by (rule discover_seeds_silent [OF that _ assms(5,2)]) (use assms(3,4) in \<open>simp add: silent_def start_run_def\<close>)
  have nojob: "begin_job now None phase v = (Inr 1, v)" "set_job now None u v = v" for now phase u v
    by (simp_all add: begin_job_def set_job_def)
  have process: "silent (decision_events (w_db w)) ?r1 st'"
    if "process_seeds env source query None a sds w ?r1 = (e, st')" for a sds e st'
  proof -
    obtain x st1 where d: "discover_seeds env source query sds (start_run w ?r1) = (x, st1)" by force
    from that d seeds [OF d] show ?thesis
      by (cases x) (auto simp: process_seeds_def nojob Let_def record_success_def silent_def split: sum.splits)
  qed
  have fail: "res = fst (fail_discovery env source query None page a x v rr) \<Longrightarrow> res = Inr d \<Longrightarrow> dget d ''above_threshold'' = None"
    for page a x v rr d
    by (auto simp: fail_discovery_def failure_result_def Let_def split: if_splits prod.splits)
  have fail2: "snd (fail_discovery env source query None page a x v rr)
      = (v, rollback_discovery_page (dv_redis env) (dv_attempts env) rr source query page)" for page a x v rr
    by (simp add: fail_discovery_def Let_def nojob)
  show ?thesis
  proof (cases "get_connector env source")
    case (Inl x)
    with assms(1,4) show ?thesis by (auto simp: discover_job_def)
  next
    case cn: (Inr cn)
    obtain pg r1 where pg: "get_discovery_page (dv_redis env) (dv_attempts env) r source query = (pg, r1)" by force
    show ?thesis
    proof (cases pg)
      case (Inl x)
      with assms(1,4) cn pg show ?thesis by (auto simp: discover_job_def)
    next
      case page: (Inr page)
      let ?seeds = "case cn_discover cn query page of Inl e \<Rightarrow> Inl e | Inr x \<Rightarrow> validate_discovered x"
      show ?thesis
      proof (cases ?seeds)
        case (Inl x)
        with assms(1) cn pg page nojob have out: "(res, (w', r')) = fail_discovery env source query None page 1 x w r1"
          by (simp add: discover_job_def)
        with fail [of page 1 x w r1] fail2 [of page 1 x w r1] pg assms(4) show ?thesis by (metis fst_conv insertCI prod.inject snd_conv)
      next
        case seeds: (Inr sds)
        obtain e st where p: "process_seeds env source query None 1 sds w r1 = (e, st)" by force
        have sil: "silent (decision_events (w_db w)) r1 st" using process [of 1 sds e st] p pg by simp
        show ?thesis
        proof (cases e)
          case None
          with assms(1) cn pg page nojob seeds p have "res = Inr (discover_summary query source sds st)"
            "w' = rn_world st" "r' = rn_redis st" by (simp_all add: discover_job_def)
          with sil pg show ?thesis by (auto simp: silent_def discover_summary_def)
        next
          case (Some x)
          let ?v = "w\<lparr>w_objects := w_objects (rn_world st)\<rparr>"
          from assms(1) cn pg page nojob seeds p Some have
            out: "(res, (w', r')) = fail_discovery env source query None page 1 x ?v (rn_redis st)"
            by (simp add: discover_job_def)
          have "w' = ?v" "r' = rollback_discovery_page (dv_redis env) (dv_attempts env) r1 source query page"
            using out fail2 [of page 1 x ?v "rn_redis st"] sil by (auto simp: silent_def dest: arg_cong [where f = snd])
          with fail [of page 1 x ?v "rn_redis st"] out pg assms(4) show ?thesis
            by (auto dest: arg_cong [where f = fst])
        qed
      qed
    qed
  qed
qed

section \<open>Collection commits whole runs\<close>

lemma store_person_material_step:
  assumes "store_person_material env p src handle co w = (e, w')" "p \<in> set (persons (w_db w))"
  shows "material_step {} w w'"
proof -
  obtain x w1 where w1: "write_collected env (p_id p) co w = (x, w1)" by force
  note s1 = write_collected_step [OF w1]
  show ?thesis
  proof (cases x)
    case (Some y)
    with assms(1) w1 s1 show ?thesis by (auto simp: store_person_material_def)
  next
    case None
    let ?w2 = "rename_collected env p handle co w1"
    let ?w3 = "?w2\<lparr>w_db := snd (compute_and_store_signal (dv_store env) (p_id p) src (w_db ?w2))\<rparr>"
    have "material_step {} w1 ?w2"
      using s1 assms(2) set_display_name_step material_step_refl
      by (auto simp: rename_collected_def split: option.splits)
    moreover have "material_step {} ?w2 ?w3"
      by (simp add: material_step_def compute_and_store_signal_def Let_def)
    moreover have "record_success env src ?w3 = (e, w')"
      using assms(1) w1 None by (simp add: store_person_material_def Let_def)
    ultimately show ?thesis using s1 record_success_step by (metis material_step_trans sup_idem)
  qed
qed

lemma ledger_job_ok: "ledger_job se job_id kind w = (l, w') \<Longrightarrow> ledger_ok (w_jobs w) \<Longrightarrow>
   ledger_ok (w_jobs w') \<and> w_db w' = w_db w \<and> w_snapshots w' = w_snapshots w \<and> w_telemetry w' = w_telemetry w"
  by (auto simp: ledger_job_def create_job_def ledger_ok_def job_ok_def Let_def split: option.splits)

text \<open>
  A collection commits all or nothing: the ledger stays sound, and either the database, the snapshots
  and the watermarks are as they were, or the run succeeded, its summary is returned, nothing was lost,
  no person was added and the indexes still hold; an exception never leaves a partial collection.
\<close>

theorem collection_commits_whole_runs:
  assumes "collect_job env person_id src depth handle job_id w = (res, w')" and "ledger_ok (w_jobs w)"
  shows "ledger_ok (w_jobs w') \<and>
    (w_db w' = w_db w \<and> w_snapshots w' = w_snapshots w \<and> w_telemetry w' = w_telemetry w
     \<or> (\<exists>d. res = Inr d \<and> dget d ''person_id'' = Some (PStr person_id))
       \<and> material_step {} (w\<lparr>w_jobs := w_jobs w'\<rparr>) w')"
proof -
  let ?now = "sv_now (dv_store env)"
  define kept :: "world \<Rightarrow> bool" where "kept v = (ledger_ok (w_jobs v) \<and> w_db v = w_db w \<and> w_snapshots v = w_snapshots w
    \<and> w_telemetry v = w_telemetry w)" for v
  obtain l w0 where l: "ledger_job (dv_store env) job_id ''collect'' w = (l, w0)" by force
  obtain b w1 where b: "begin_job ?now l ''collect'' w0 = (b, w1)" by force
  have "kept w0" using ledger_job_ok [OF l assms(2)] by (simp add: kept_def)
  then have w1: "kept w1"
    using begin_job_ledger [of w0 ?now l "''collect''"] b
    by (auto simp: kept_def begin_job_def split: option.splits prod.splits if_splits)
  have set_kept: "kept v \<Longrightarrow> kept (set_job ?now l u v)" for u v by (simp add: kept_def set_job_ledger)
  have failed: "w2 = w1" if "collect_person env person_id src depth handle w1 = (Inr (Some e, d), w2)" for e d w2
    using that by (auto simp: collect_person_def Let_def split: option.splits sum.splits prod.splits)
  have done_: "material_step {} w1 w2 \<and> dget d ''person_id'' = Some (PStr person_id)"
    if "collect_person env person_id src depth handle w1 = (Inr (None, d), w2)" for d w2
    using that store_person_material_step
    by (auto simp: collect_person_def Let_def dest!: get_row_key split: option.splits sum.splits prod.splits)
  show ?thesis
  proof (cases b)
    case (Inl row)
    with assms(1) l b w1 show ?thesis by (auto simp: collect_job_def kept_def)
  next
    case (Inr attempt)
    obtain c w2 where c: "collect_person env person_id src depth handle w1 = (c, w2)" by force
    consider (raised) e where "c = Inl e" | (failed) e d where "c = Inr (Some e, d)" | (ok) d where "c = Inr (None, d)"
      by (metis sum.exhaust prod.exhaust option.exhaust)
    then show ?thesis
    proof cases
      case raised
      with assms(1) l b Inr c have "w' = set_job ?now l (failed_update ''collect'' attempt (x_text e) (failure_result e))
          (w1\<lparr>w_objects := w_objects w2\<rparr>)" by (simp add: collect_job_def Let_def)
      moreover have "kept (w1\<lparr>w_objects := w_objects w2\<rparr>)" using w1 by (simp add: kept_def)
      ultimately show ?thesis using set_kept by (simp add: kept_def)
    next
      case failed: failed
      with assms(1) l b Inr c have "w' = set_job ?now l (failed_update ''collect'' attempt (x_text e) d) w2"
        by (simp add: collect_job_def Let_def)
      moreover have "kept w2" using \<open>\<And>e d w2. collect_person env person_id src depth handle w1 = (Inr (Some e, d), w2) \<Longrightarrow> w2 = w1\<close>
        c failed w1 by blast
      ultimately show ?thesis using set_kept by (simp add: kept_def)
    next
      case ok
      with assms(1) l b Inr c have out: "res = Inr d" "w' = set_job ?now l
          (progress_update ''succeeded'' ''complete'' (Some attempt) (Some d)) w2"
        by (simp_all add: collect_job_def Let_def)
      from done_ c ok have s: "material_step {} w1 w2" "dget d ''person_id'' = Some (PStr person_id)" by auto
      then have "ledger_ok (w_jobs w2)" using w1 by (simp add: material_step_def kept_def)
      with out s w1 show ?thesis by (simp add: material_step_def kept_def set_job_ledger)
    qed
  qed
qed

section \<open>Samples\<close>

definition sample_raw :: raw_collected where
  "sample_raw = \<lparr>rc_content = PBytes ''{}'', rc_content_type = PStr ''application/json'', rc_observations = PList [],
     rc_source_type = PStr ''github'', rc_uri = PStr ''https://github.com/ada'', rc_license_hint = PNone\<rparr>"

definition sample_connector :: connector where
  "sample_connector = \<lparr>cn_cost = 1, cn_authority = 1,
     cn_discover = (\<lambda>query page. Inr (Seed_List [Some \<lparr>raw_source_type = PStr ''github'', raw_handle = PStr ''ada'',
        raw_display_hint = [], raw_metadata = PDict []\<rparr>])),
     cn_collect = (\<lambda>sd depth. Inr sample_raw)\<rparr>"

definition sample_disc :: "list_redis disc_env" where
  "sample_disc = \<lparr>dv_store = sample_store_env, dv_redis = sample_ops, dv_attempts = (\<lambda>n. (\<lambda>r. r, False)),
     dv_connectors = (\<lambda>src. sample_connector), dv_theses = [], dv_freshness = (\<lambda>src. 7), dv_threshold = 45 / 100,
     dv_rival_snapshots = [], dv_rival_observations = (\<lambda>n. []), dv_store_exc = (\<lambda>e. other_error ''IntegrityError'' []),
     dv_bad_uuid = other_error ''DataError'' []\<rparr>"

definition blank_world :: world where
  "blank_world = \<lparr>w_db = empty_db, w_snapshots = [], w_jobs = [], w_telemetry = [], w_objects = []\<rparr>"

lemma sample_unlicensed: "unlicensed_sources sample_disc"
proof -
  have "co_source_type co = ''github'' \<and> co_license_hint co = None" if "validate_collected f sample_raw = Inr co" for co f
    using that by (auto simp: validate_collected_def sample_raw_def split: if_splits)
  then show ?thesis
    by (auto simp: unlicensed_sources_def sample_disc_def collect_checked_def sample_connector_def licensed_def)
qed

theorem unlicensed_discovery_escalates_nothing_witness:
  "\<exists>res w' r'. discover_job sample_disc ''rust'' ''github'' None blank_world empty_redis = (res, (w', r'))
     \<and> observations (w_db w') = [] \<and> decision_events (w_db w') = []"
proof -
  obtain res w' r' where out: "discover_job sample_disc ''rust'' ''github'' None blank_world empty_redis = (res, (w', r'))"
    by (metis prod.exhaust)
  have "list_all quarantined (w_snapshots blank_world)" "observations (w_db blank_world) = []" "0 < dv_threshold sample_disc"
    "decision_events (w_db blank_world) = []"
    by (simp_all add: blank_world_def empty_db_def sample_disc_def)
  with unlicensed_discovery_escalates_nothing [OF out sample_unlicensed] out show ?thesis by auto
qed


theorem collection_commits_whole_runs_witness:
  "\<exists>res w'. collect_job sample_disc ''p1'' ''github'' ''deep'' [] None blank_world = (res, w') \<and> ledger_ok (w_jobs w')"
proof -
  obtain res w' where out: "collect_job sample_disc ''p1'' ''github'' ''deep'' [] None blank_world = (res, w')"
    by (metis prod.exhaust)
  have "ledger_ok (w_jobs blank_world)" by (simp add: blank_world_def ledger_ok_def)
  from collection_commits_whole_runs [OF out this] out show ?thesis by blast
qed

end
