(* ===== verification/Cron_Jobs.thy ===== *)
theory Cron_Jobs
  imports Discovery_Effects
begin

text \<open>
  The periodic jobs of \<^verbatim>\<open>app/collectors/jobs.py\<close> beside the dispatcher: the recomputation of signals,
  identity resolution behind its ledger row, and the automatic discovery of the active thesis, whose
  jobs are keyed by thesis, query and hour.
\<close>

section \<open>Recomputing signals\<close>

definition deep_sources :: "string list" where
  "deep_sources = [''github'', ''producthunt'', ''arxiv'', ''web'']"

definition recompute_task :: "uuid \<Rightarrow> string \<Rightarrow> pyval" where
  "recompute_task person src = PDict [(''person_id'', PStr person), (''source'', PStr src), (''depth'', PStr ''deep'')]"

definition enqueue_deep :: "'r disc_env \<Rightarrow> uuid \<Rightarrow> real dict \<Rightarrow> 'r \<Rightarrow> 'r" where
  "enqueue_deep env person components r =
     foldl (\<lambda>acc src. enqueue (dv_redis env) acc (recompute_task person src)
       (priority (info_gain (component components ''composite'') 30 0) 1 (7 / 10) unknown_inputs)) r deep_sources"

text \<open>\<open>people\<close> is the answer of the query: the 500 people updated last.\<close>

fun recompute_people :: "'r disc_env \<Rightarrow> person list \<Rightarrow> db \<Rightarrow> 'r \<Rightarrow> int \<Rightarrow> db \<times> 'r \<times> int" where
  "recompute_people env [] d r hits = (d, r, hits)"
| "recompute_people env (p # ps) d r hits =
     (case compute_and_store_signal (dv_store env) (p_id p) ''recompute'' d of
        (components, d1) \<Rightarrow>
          if above_threshold components (dv_threshold env)
          then recompute_people env ps d1 (enqueue_deep env (p_id p) components r) (hits + 1)
          else recompute_people env ps d1 r hits)"

definition recompute_signals_job :: "'r disc_env \<Rightarrow> person list \<Rightarrow> world \<Rightarrow> 'r \<Rightarrow> pyval dict \<times> (world \<times> 'r)" where
  "recompute_signals_job env people w r =
     (case recompute_people env people (w_db w) r 0 of
        (d, r1, hits) \<Rightarrow> ([(''persons_checked'', PInt (int (length people))), (''above_threshold'', PInt hits)],
          (w\<lparr>w_db := d\<rparr>, r1)))"

section \<open>Identity resolution\<close>

definition resolution_summary :: "resolution \<Rightarrow> int dict" where
  "resolution_summary s = [(''pairs_evaluated'', int (rs_pairs s)), (''auto_merged'', int (rs_merged s)),
     (''flagged_for_review'', int (rs_flagged s))]"

fun int_entries :: "pyval dict \<Rightarrow> int dict" where
  "int_entries [] = []"
| "int_entries ((k, PInt i) # d) = (k, i) # int_entries d"
| "int_entries ((k, PBool b) # d) = (k, if b then 1 else 0) # int_entries d"
| "int_entries (entry # d) = int_entries d"

definition resolve_identities_job :: "store_env \<Rightarrow> match_env \<Rightarrow> ((uuid \<times> uuid) list \<Rightarrow> (uuid \<times> uuid) list)
    \<Rightarrow> (string \<Rightarrow> exc) \<Rightarrow> string option \<Rightarrow> world \<Rightarrow> (exc + int dict) \<times> world" where
  "resolve_identities_job se matcher order raised job_id w0 =
     (let now = sv_now se; (ledger, w) = ledger_job se job_id ''resolve_identities'' w0
      in case begin_job now ledger ''identity'' w of
           (Inl row, w1) \<Rightarrow> (Inr (case get_row j_id (w_jobs w1) row of
               None \<Rightarrow> [] | Some j \<Rightarrow> int_entries (case j_result j of None \<Rightarrow> [] | Some res \<Rightarrow> res)), w1)
         | (Inr attempt, w1) \<Rightarrow>
             (let d = w_db w1; ids = (\<lambda>n. sv_id se ''person_matches'' (length (person_matches d) + n))
              in case resolve_identities matcher ids now order d of
                   Inl msg \<Rightarrow> (let e = raised msg in (Inl e, set_job now ledger
                       (failed_update ''identity'' attempt (x_text e) (failure_result e)) w1))
                 | Inr s \<Rightarrow> (let summary = resolution_summary s
                     in (Inr summary, set_job now ledger (progress_update ''succeeded'' ''complete'' (Some attempt)
                         (Some (map (\<lambda>(k, i). (k, PInt i)) summary))) (w1\<lparr>w_db := rs_db s\<rparr>)))))"

section \<open>Automatic discovery\<close>

text \<open>
  \<open>uuid5\<close> keys a job by name, \<open>hour\<close> writes the start of the current hour, and \<open>refuses\<close> says with which
  exception the queue refuses a query, if it does.
\<close>

record 'r auto_env =
  au_disc :: "'r disc_env"
  au_uuid5 :: "string \<Rightarrow> uuid"
  au_hour :: "instant \<Rightarrow> string"
  au_refuses :: "string \<Rightarrow> exc option"

record 'r auto_run =
  ar_jobs :: "job_run list"
  ar_redis :: 'r
  ar_enqueued :: int
  ar_failed :: int

definition auto_job_id :: "'r auto_env \<Rightarrow> investment_thesis \<Rightarrow> string \<Rightarrow> uuid" where
  "auto_job_id env t query = au_uuid5 env (''vcbrain:auto-discovery:'' @ t_id t @ '':'' @ query @ '':''
     @ au_hour env (sv_now (dv_store (au_disc env))))"

definition queue_failed :: "job_run \<Rightarrow> bool" where
  "queue_failed j = (j_status j = ''failed'' \<and>
     get_or (case j_result j of Some res \<Rightarrow> res | None \<Rightarrow> []) ''error'' PNone = PStr ''queue_failed'')"

definition requeued :: "job_run \<Rightarrow> job_run" where
  "requeued j = j\<lparr>j_status := ''queued'', j_phase := ''queued'', j_progress := 0, j_last_error := None, j_result := None,
     j_finished_at := None\<rparr>"

definition discover_task :: "string \<Rightarrow> uuid \<Rightarrow> pyval" where
  "discover_task query job_id = PDict [(''job_type'', PStr ''discover''), (''query'', PStr query), (''source'', PStr ''github''),
     (''job_id'', PStr job_id)]"

definition hand_over :: "'r auto_env \<Rightarrow> string \<Rightarrow> uuid \<Rightarrow> 'r auto_run \<Rightarrow> 'r auto_run" where
  "hand_over env query i st =
     (case au_refuses env query of
        Some e \<Rightarrow> st\<lparr>ar_failed := ar_failed st + 1,
          ar_jobs := snd (update_job (sv_now (dv_store (au_disc env))) (ar_jobs st) i
            \<lparr>ju_status = ''failed'', ju_phase = ''queue'', ju_attempt = None, ju_progress = None,
             ju_last_error = Some ''queue_failed'', ju_clear_error = False,
             ju_result = Some [(''status'', PStr ''failed''), (''error'', PStr ''queue_failed''),
               (''error_type'', PStr (x_name e))]\<rparr>)\<rparr>
      | None \<Rightarrow> st\<lparr>ar_enqueued := ar_enqueued st + 1,
          ar_redis := enqueue (dv_redis (au_disc env)) (ar_redis st) (discover_task query i) 5\<rparr>)"

definition auto_query :: "'r auto_env \<Rightarrow> investment_thesis \<Rightarrow> string \<Rightarrow> 'r auto_run \<Rightarrow> 'r auto_run" where
  "auto_query env t query st =
     (let i = auto_job_id env t query
      in case get_row j_id (ar_jobs st) i of
           Some j \<Rightarrow>
             (if queue_failed j
              then hand_over env query i (st\<lparr>ar_jobs := put_row j_id (ar_jobs st) (requeued j)\<rparr>)
              else st)
         | None \<Rightarrow> hand_over env query i (st\<lparr>ar_jobs := snd (create_job i (ar_jobs st) ''discover'')\<rparr>))"

definition auto_discovery_job :: "'r auto_env \<Rightarrow> world \<Rightarrow> 'r \<Rightarrow> (int \<times> int) \<times> (world \<times> 'r)" where
  "auto_discovery_job env w r =
     (case newest t_created_at (filter t_is_active (dv_theses (au_disc env))) of
        None \<Rightarrow> ((0, 0), (w, r))
      | Some t \<Rightarrow>
          (let st = foldl (\<lambda>acc query. auto_query env t query acc)
                 \<lparr>ar_jobs = w_jobs w, ar_redis = r, ar_enqueued = 0, ar_failed = 0\<rparr> (t_discovery_queries t)
           in ((ar_enqueued st, ar_failed st), (w\<lparr>w_jobs := ar_jobs st\<rparr>, ar_redis st))))"

section \<open>What the jobs leave\<close>

lemma recompute_people_snapshots:
  assumes "recompute_people env ps d r hits = (d', r', n)"
  shows "\<exists>rows. d' = d\<lparr>score_snapshots := score_snapshots d @ rows\<rparr> \<and> map s_subject_id rows = map p_id ps
    \<and> list_all (\<lambda>s. s_rubric_version s = ''signal-v1'') rows \<and> hits \<le> n \<and> n \<le> hits + int (length ps)
    \<and> (n = hits \<longrightarrow> r' = r)"
  using assms
proof (induction env ps d r hits rule: recompute_people.induct)
  case (2 env p ps d r hits)
  obtain components d1 where c: "compute_and_store_signal (dv_store env) (p_id p) ''recompute'' d = (components, d1)" by force
  then obtain row where row: "d1 = d\<lparr>score_snapshots := score_snapshots d @ [row]\<rparr>" "s_subject_id row = p_id p"
    "s_rubric_version row = ''signal-v1''"
    by (auto simp: compute_and_store_signal_def signal_row_def Let_def case_prod_unfold)
  show ?case
  proof (cases "above_threshold components (dv_threshold env)")
    case True
    from 2(1) [OF c [symmetric] True] 2(3) c True obtain rows where
      "d' = d1\<lparr>score_snapshots := score_snapshots d1 @ rows\<rparr>" "map s_subject_id rows = map p_id ps"
      "list_all (\<lambda>s. s_rubric_version s = ''signal-v1'') rows" "hits + 1 \<le> n" "n \<le> hits + 1 + int (length ps)" by auto
    with row show ?thesis by (intro exI [of _ "row # rows"]) simp
  next
    case False
    from 2(2) [OF c [symmetric] False] 2(3) c False obtain rows where
      "d' = d1\<lparr>score_snapshots := score_snapshots d1 @ rows\<rparr>" "map s_subject_id rows = map p_id ps"
      "list_all (\<lambda>s. s_rubric_version s = ''signal-v1'') rows" "hits \<le> n" "n \<le> hits + int (length ps)"
      "n = hits \<longrightarrow> r' = r" by auto
    with row show ?thesis by (intro exI [of _ "row # rows"]) simp
  qed
qed (auto simp: exI [of _ "[]"])

text \<open>A query whose job row exists and does not wait for the queue.\<close>

definition settled :: "'r auto_env \<Rightarrow> investment_thesis \<Rightarrow> job_run list \<Rightarrow> string \<Rightarrow> bool" where
  "settled env t jobs query =
     (case get_row j_id jobs (auto_job_id env t query) of None \<Rightarrow> False | Some j \<Rightarrow> \<not> queue_failed j)"

lemma get_row_create:
  "get_row j_id (snd (create_job i jobs kind)) k =
     (case get_row j_id jobs k of Some j \<Rightarrow> Some j
      | None \<Rightarrow> if k = i then Some (fst (create_job i jobs kind)) else None)"
  by (auto simp: create_job_def Let_def get_row_def find_append split: option.split)

lemma auto_query_settles:
  assumes "au_refuses env query = None"
  shows "settled env t (ar_jobs (auto_query env t query st)) query"
proof (cases "get_row j_id (ar_jobs st) (auto_job_id env t query)")
  case None
  have "\<not> queue_failed (fst (create_job i jobs kind))" for i jobs kind
    by (simp add: create_job_def Let_def queue_failed_def)
  with None assms show ?thesis
    by (simp add: auto_query_def hand_over_def settled_def Let_def get_row_create)
next
  case (Some j)
  then have key: "j_id j = auto_job_id env t query" using get_row_key by fast
  show ?thesis
    using assms Some key
    by (auto simp: auto_query_def hand_over_def settled_def Let_def get_row_put_row requeued_def queue_failed_def)
qed

lemma auto_query_keeps_settled:
  assumes "settled env t (ar_jobs st) q" "au_refuses env query = None"
  shows "settled env t (ar_jobs (auto_query env t query st)) q"
proof (cases "auto_job_id env t q = auto_job_id env t query")
  case True
  with assms show ?thesis using auto_query_settles [OF assms(2)] by (simp add: settled_def)
next
  case False
  with assms show ?thesis
    by (auto simp: settled_def auto_query_def hand_over_def Let_def get_row_create get_row_put_row requeued_def
        dest: get_row_key split: option.splits if_splits)
qed

lemma auto_run_settles:
  assumes "\<And>q. au_refuses env q = None"
  shows "(\<forall>q \<in> set qs. settled env t (ar_jobs (foldl (\<lambda>acc q. auto_query env t q acc) st qs)) q)
    \<and> (\<forall>q. settled env t (ar_jobs st) q \<longrightarrow> settled env t (ar_jobs (foldl (\<lambda>acc q. auto_query env t q acc) st qs)) q)
    \<and> ar_failed (foldl (\<lambda>acc q. auto_query env t q acc) st qs) = ar_failed st"
proof (induction qs arbitrary: st)
  case (Cons x qs)
  have "ar_failed (auto_query env t x st) = ar_failed st"
    using assms by (auto simp: auto_query_def hand_over_def Let_def split: option.split)
  with Cons [of "auto_query env t x st"] auto_query_settles [OF assms, of t x st] auto_query_keeps_settled [OF _ assms]
  show ?case by auto
qed simp

lemma auto_run_settled:
  "\<forall>q \<in> set qs. settled env t (ar_jobs st) q \<Longrightarrow> foldl (\<lambda>acc q. auto_query env t q acc) st qs = st"
proof (induction qs)
  case (Cons x qs)
  then have "auto_query env t x st = st"
    by (auto simp: auto_query_def settled_def Let_def split: option.splits)
  with Cons show ?case by simp
qed simp

text \<open>
  Automatic discovery hands over every query and does it once an hour: a run whose queue accepts
  everything fails on nothing, leaves a job row for every query of the active thesis that does not wait
  for the queue, and a second run in the same hour changes neither the ledger nor the queue.
\<close>

theorem auto_discovery_once_an_hour:
  assumes "\<And>q. au_refuses env q = None" and "auto_discovery_job env w r = (out, (w', r'))"
  shows "snd out = 0
    \<and> (\<forall>t. newest t_created_at (filter t_is_active (dv_theses (au_disc env))) = Some t \<longrightarrow>
         (\<forall>q \<in> set (t_discovery_queries t). settled env t (w_jobs w') q))
    \<and> auto_discovery_job env w' r' = ((0, 0), (w', r'))"
proof (cases "newest t_created_at (filter t_is_active (dv_theses (au_disc env)))")
  case None
  with assms(2) show ?thesis by (auto simp: auto_discovery_job_def simp del: newest_None_iff)
next
  case (Some t)
  let ?st0 = "\<lambda>jobs rr. \<lparr>ar_jobs = jobs, ar_redis = rr, ar_enqueued = 0, ar_failed = 0\<rparr>"
  let ?run = "\<lambda>st. foldl (\<lambda>acc q. auto_query env t q acc) st (t_discovery_queries t)"
  have first: "out = (ar_enqueued (?run (?st0 (w_jobs w) r)), ar_failed (?run (?st0 (w_jobs w) r)))"
    "w' = w\<lparr>w_jobs := ar_jobs (?run (?st0 (w_jobs w) r))\<rparr>" "r' = ar_redis (?run (?st0 (w_jobs w) r))"
    using assms(2) Some by (simp_all add: auto_discovery_job_def Let_def)
  note s = auto_run_settles [OF assms(1), of "t_discovery_queries t" t "?st0 (w_jobs w) r"]
  have all: "\<forall>q \<in> set (t_discovery_queries t). settled env t (w_jobs w') q" using s first(2) by simp
  then have "?run (?st0 (w_jobs w') r') = ?st0 (w_jobs w') r'" by (intro auto_run_settled) simp
  then have "auto_discovery_job env w' r' = ((0, 0), (w', r'))" using Some by (simp add: auto_discovery_job_def Let_def)
  with all s first Some show ?thesis by simp
qed

definition sample_auto :: "list_redis auto_env" where
  "sample_auto = \<lparr>au_disc = sample_disc, au_uuid5 = (\<lambda>name. name), au_hour = (\<lambda>t. ''h''), au_refuses = (\<lambda>q. None)\<rparr>"

theorem auto_discovery_once_an_hour_witness:
  "\<exists>out w' r'. auto_discovery_job sample_auto blank_world empty_redis = (out, (w', r'))
     \<and> auto_discovery_job sample_auto w' r' = ((0, 0), (w', r'))"
proof -
  obtain out w' r' where run: "auto_discovery_job sample_auto blank_world empty_redis = (out, (w', r'))"
    by (metis prod.exhaust)
  have "au_refuses sample_auto q = None" for q by (simp add: sample_auto_def)
  from auto_discovery_once_an_hour [OF this run] run show ?thesis by blast
qed

text \<open>
  Identity resolution behind its ledger row is all or nothing: the ledger stays sound; a run that
  raises, or repeats a finished one, leaves the database as it was, and a run that succeeds keeps every
  person and retires exactly as many canonical people as it reports merged.
\<close>

theorem identity_job_balances:
  assumes "resolve_identities_job se matcher order raised job_id w = (res, w')" and "ledger_ok (w_jobs w)"
    and "distinct (map p_id (persons (w_db w)))" and "\<forall>xs. set (order xs) = set xs"
  shows "ledger_ok (w_jobs w') \<and> map p_id (persons (w_db w')) = map p_id (persons (w_db w))
    \<and> (w_db w' = w_db w \<or> (\<exists>summary. res = Inr summary
         \<and> int (canonical_count (w_db w)) = int (canonical_count (w_db w')) + the (dget summary ''auto_merged'')))"
proof -
  let ?now = "sv_now se"
  obtain l w0 where l: "ledger_job se job_id ''resolve_identities'' w = (l, w0)" by force
  obtain b w1 where b: "begin_job ?now l ''identity'' w0 = (b, w1)" by force
  have w0: "ledger_ok (w_jobs w0)" "w_db w0 = w_db w" using ledger_job_ok [OF l assms(2)] by simp_all
  have w1: "ledger_ok (w_jobs w1)" "w_db w1 = w_db w"
    using begin_job_ledger [OF w0(1), of ?now l "''identity''"] begin_job_db [of ?now l "''identity''" w0] b w0(2) by simp_all
  show ?thesis
  proof (cases b)
    case (Inl row)
    with assms(1) l b w1 show ?thesis by (simp add: resolve_identities_job_def)
  next
    case (Inr attempt)
    let ?ids = "\<lambda>n. sv_id se ''person_matches'' (length (person_matches (w_db w)) + n)"
    show ?thesis
    proof (cases "resolve_identities matcher ?ids ?now order (w_db w)")
      case (Inl msg)
      with assms(1) l b Inr w1 show ?thesis by (auto simp: resolve_identities_job_def Let_def set_job_ledger)
    next
      case ok: (Inr s)
      from resolve_identities_accounts [OF ok assms(3,4)]
      have acc: "map p_id (persons (rs_db s)) = map p_id (persons (w_db w))"
        "canonical_count (rs_db s) + rs_merged s = canonical_count (w_db w)" by (simp_all add: accounts_def)
      from assms(1) l b Inr w1 ok have out: "res = Inr (resolution_summary s)" "w_db w' = rs_db s" "ledger_ok (w_jobs w')"
        by (auto simp: resolve_identities_job_def Let_def set_job_ledger)
      have "the (dget (resolution_summary s) ''auto_merged'') = int (rs_merged s)" by (simp add: resolution_summary_def)
      with acc out show ?thesis by (auto simp: int_ops [symmetric])
    qed
  qed
qed

theorem identity_job_balances_witness:
  "\<exists>res w'. resolve_identities_job sample_store_env sample_match_env (\<lambda>xs. xs) (other_error ''ValueError'') None
     (blank_world\<lparr>w_db := twin_db\<rparr>) = (res, w') \<and> map p_id (persons (w_db w')) = [''p1'', ''p2'']"
proof -
  obtain res w' where run: "resolve_identities_job sample_store_env sample_match_env (\<lambda>xs. xs) (other_error ''ValueError'') None
     (blank_world\<lparr>w_db := twin_db\<rparr>) = (res, w')" by force
  have "ledger_ok (w_jobs (blank_world\<lparr>w_db := twin_db\<rparr>))" "distinct (map p_id (persons (w_db (blank_world\<lparr>w_db := twin_db\<rparr>))))"
    by (simp_all add: blank_world_def ledger_ok_def twin_db_def sample_person_def)
  from identity_job_balances [OF run this] run show ?thesis by (simp add: twin_db_def sample_person_def)
qed

end
