(* ===== verification/Research_Job.thy ===== *)
theory Research_Job
  imports Collection_Store Memo_Job Artifact_Provenance
begin

text \<open>
  The research job of \<^verbatim>\<open>app/collectors/jobs.py\<close>: three web searches for a founder's deal, each scored
  from the relevance and language of its results, stored as evidence, and turned into one assessment per
  axis and one score of the deal. The search client is an argument.
\<close>

section \<open>Axes\<close>

definition axis_labels_of :: "string dict" where
  "axis_labels_of = [(''founder'', ''Founder''), (''market'', ''Market''), (''idea_market'', ''Idea-Market'')]"

definition axis_keywords :: "(string list \<times> string list) dict" where
  "axis_keywords =
     [(''founder'', ([''founder'', ''co-founder'', ''built'', ''launched'', ''led'', ''scaled'', ''acquired'', ''patent'',
         ''open source'', ''award''], [''fraud'', ''lawsuit'', ''misconduct'', ''controversy'', ''bankrupt'', ''sanction''])),
      (''market'', ([''market growth'', ''cagr'', ''demand'', ''adoption'', ''billion'', ''funding'', ''tailwind'', ''expanding''],
         [''shrinking'', ''saturated'', ''commoditized'', ''regulatory risk'', ''declining demand'', ''crowded''])),
      (''idea_market'', ([''customer'', ''revenue'', ''pilot'', ''traction'', ''contract'', ''users'', ''launch'',
         ''product-market fit'', ''growth''], [''no revenue'', ''pre-revenue'', ''shutdown'', ''pivoted away'', ''no customers'',
         ''stalled'']))]"

section \<open>Queries\<close>

definition candidate_company :: "observation list \<Rightarrow> person \<Rightarrow> string" where
  "candidate_company xs p =
     (let hits = concat (map (\<lambda>predicate. filter (\<lambda>x. lower (ob_predicate x) = predicate \<and> strip (ob_object_value x) \<noteq> []) xs)
        [''company'', ''company_name'', ''github_company'', ''organization''])
      in case hits of
           x # _ \<Rightarrow> take 512 (dropWhile (\<lambda>c. c = CHR ''@'') (strip (ob_object_value x)))
         | [] \<Rightarrow> str_or (p_display_name p) (p_stable_id p))"

definition handle_values :: "person \<Rightarrow> string list" where
  "handle_values p = (case p_handles p of None \<Rightarrow> [] | Some hs \<Rightarrow> map snd hs)"

definition quoted :: "string \<Rightarrow> string" where
  "quoted s = [CHR 0x22] @ s @ [CHR 0x22]"

definition research_queries :: "person \<Rightarrow> string \<Rightarrow> string dict" where
  "research_queries p company =
     (let name = str_or (p_display_name p) (p_stable_id p);
          subject = strip (quoted name @ '' '' @ join '' '' (handle_values p));
          company_term = (if company \<noteq> [] \<and> company \<noteq> name then quoted company else subject)
      in [(''founder'', subject @ '' founder track record leadership previous companies achievements execution reputation''),
          (''market'', company_term @ '' product sector market size growth competitors industry outlook''),
          (''idea_market'', company_term @ '' product customers revenue traction pilots contracts adoption reviews'')])"

section \<open>The score of an axis\<close>

record axis_score =
  as_score :: real
  as_confidence :: real
  as_relevance :: real
  as_diversity :: real
  as_positive :: real
  as_negative :: real
  as_results :: nat

text \<open>\<open>s.count(sub)\<close>: non-overlapping occurrences.\<close>

function count_sub :: "string \<Rightarrow> string \<Rightarrow> nat" where
  "count_sub sub s =
     (if s = [] \<or> sub = [] then 0
      else if startswith s sub then 1 + count_sub sub (drop (length sub) s)
      else count_sub sub (tl s))"
  by pat_completeness auto
termination
  by (relation "measure (\<lambda>(sub, s). length s)") auto

declare count_sub.simps [simp del]

fun list_items :: "pyval \<Rightarrow> pyval list" where
  "list_items (PList xs) = xs"
| "list_items _ = []"

fun number_of :: "pyval \<Rightarrow> real option" where
  "number_of (PInt i) = Some (of_int i)"
| "number_of (PFloat r) = Some r"
| "number_of (PBool b) = Some (if b then 1 else 0)"
| "number_of _ = None"

definition results_of :: "pyval dict \<Rightarrow> pyval dict list" where
  "results_of response = List.map_filter dict_value (list_items (get_or response ''results'' (PList [])))"

definition result_count :: "pyval dict \<Rightarrow> nat" where
  "result_count response = length (list_items (get_or response ''results'' (PList [])))"

definition answer_of :: "codec \<Rightarrow> pyval dict \<Rightarrow> string" where
  "answer_of cx response = (let v = get_or response ''answer'' (PStr []) in if py_truthy v then py_str cx v else [])"

text \<open>\<^verbatim>\<open>https?://([^/]+)\<close> at the start of the address.\<close>

definition url_host :: "string \<Rightarrow> string option" where
  "url_host url =
     (let rest = (if startswith url ''http://'' then Some (drop 7 url)
          else if startswith url ''https://'' then Some (drop 8 url) else None)
      in case rest of
           None \<Rightarrow> None
         | Some r \<Rightarrow> (let host = takeWhile (\<lambda>c. c \<noteq> CHR ''/'') r in if host = [] then None else Some host))"

definition domain_of :: "string \<Rightarrow> string option" where
  "domain_of url = map_option (\<lambda>h. let l = lower h in if startswith l ''www.'' then drop 4 l else l) (url_host url)"

definition field_text :: "codec \<Rightarrow> pyval dict \<Rightarrow> string \<Rightarrow> string" where
  "field_text cx item k = py_str cx (get_or item k (PStr []))"

record axis_measures =
  ms_relevance :: real
  ms_diversity :: real
  ms_coverage :: real
  ms_identity :: real
  ms_positive :: real
  ms_negative :: real

definition measure_axis :: "codec \<Rightarrow> string \<Rightarrow> pyval dict \<Rightarrow> string list \<Rightarrow> axis_measures" where
  "measure_axis cx axis response subject_terms =
     (let items = results_of response;
          corpus = lower (join '' '' (answer_of cx response
            # map (\<lambda>i. field_text cx i ''title'' @ '' '' @ field_text cx i ''content'') items));
          relevances = map clamp01 (List.map_filter (\<lambda>i. number_of (get_or i ''score'' (PFloat 0))) items);
          domains = remdups (List.map_filter (\<lambda>i. domain_of (field_text cx i ''url'')) items);
          (positive_words, negative_words) = (case dget axis_keywords axis of Some ws \<Rightarrow> ws | None \<Rightarrow> ([], []));
          positive_hits = sum_list (map (\<lambda>w. count_sub w corpus) positive_words);
          negative_hits = sum_list (map (\<lambda>w. count_sub w corpus) negative_words);
          term_hits = length (filter (\<lambda>t. t \<noteq> [] \<and> contains corpus (lower t)) subject_terms)
      in \<lparr>ms_relevance = mean_or 0 relevances, ms_diversity = min 1 (real (length domains) / 5),
          ms_coverage = min 1 (real (result_count response) / 5),
          ms_identity = min 1 (real term_hits / real (max 1 (min 2 (length subject_terms)))),
          ms_positive = min 1 (real positive_hits / 6), ms_negative = min 1 (real negative_hits / 3)\<rparr>)"

definition weigh_axis :: "nat \<Rightarrow> axis_measures \<Rightarrow> axis_score" where
  "weigh_axis n m =
     (let score = (if n = 0 then 1 / 2
            else 18 / 100 + 27 / 100 * ms_relevance m + 14 / 100 * ms_diversity m + 18 / 100 * ms_positive m
              + 13 / 100 * ms_identity m + 10 / 100 * ms_coverage m - 18 / 100 * ms_negative m);
          confidence = (if n = 0 then 0
            else 10 / 100 + 40 / 100 * ms_relevance m + 25 / 100 * ms_coverage m + 15 / 100 * ms_diversity m
              + 10 / 100 * ms_identity m)
      in \<lparr>as_score = py_round 4 (max (5 / 100) (min (95 / 100) score)),
          as_confidence = py_round 4 (max 0 (min (95 / 100) confidence)), as_relevance = py_round 4 (ms_relevance m),
          as_diversity = py_round 4 (ms_diversity m), as_positive = py_round 4 (ms_positive m),
          as_negative = py_round 4 (ms_negative m), as_results = n\<rparr>)"

definition score_research_axis :: "codec \<Rightarrow> string \<Rightarrow> pyval dict \<Rightarrow> string list \<Rightarrow> axis_score" where
  "score_research_axis cx axis response subject_terms =
     weigh_axis (result_count response) (measure_axis cx axis response subject_terms)"

definition rating_of :: "real \<Rightarrow> string" where
  "rating_of score = (if 67 / 100 \<le> score then ''Bullish'' else if score < 42 / 100 then ''Bearish'' else ''Neutral'')"

definition trend_of :: "real \<Rightarrow> real option \<Rightarrow> string" where
  "trend_of score previous =
     (case previous of
        None \<Rightarrow> ''Stable''
      | Some p \<Rightarrow> if \<bar>score - p\<bar> < 5 / 100 then ''Stable'' else if p < score then ''Improving'' else ''Declining'')"

definition axis_unknowns :: "string \<Rightarrow> nat \<Rightarrow> real \<Rightarrow> string list" where
  "axis_unknowns axis n confidence =
     (if n < 3 then [''Fewer than three relevant public sources were found''] else [])
     @ (if confidence < 55 / 100 then [''Evidence confidence is below the investment-review threshold''] else [])
     @ [if axis = ''founder'' then ''Private references and team feedback require human diligence''
        else if axis = ''market'' then ''Bottom-up market sizing has not been independently verified''
        else ''Customer retention and unit economics require primary evidence'']"

section \<open>Material of an axis\<close>

record research_env =
  rv_store :: store_env
  rv_api_key :: string
  rv_client_ok :: bool
  rv_search :: "string \<Rightarrow> exc + pyval dict"
  rv_json :: "pyval \<Rightarrow> char list"
  rv_run_id :: uuid
  rv_store_exc :: "store_error \<Rightarrow> exc"

definition search_licence :: "string \<Rightarrow> pyval dict" where
  "search_licence query = [(''source'', PStr ''Tavily Search''), (''query'', PStr query)]"

definition evidence_item :: "research_env \<Rightarrow> string \<Rightarrow> string \<Rightarrow> char list \<Rightarrow> string \<Rightarrow> string \<Rightarrow> real \<Rightarrow> collected" where
  "evidence_item env predicate object_value content uri query confidence =
     \<lparr>co_content = content, co_content_type = ''application/json'',
      co_observations = [[(''predicate'', PStr predicate), (''object_value'', PStr object_value),
        (''observed_at'', PTime (sv_now (rv_store env))), (''confidence'', PFloat confidence)]],
      co_source_type = ''tavily_search'', co_uri = uri, co_license_hint = Some (search_licence query)\<rparr>"

definition axis_material :: "research_env \<Rightarrow> string \<Rightarrow> string \<Rightarrow> pyval dict \<Rightarrow> axis_score \<Rightarrow> collected list" where
  "axis_material env axis query response scored =
     (let cx = sv_codec (rv_store env); answer = strip (answer_of cx response)
      in concat (map (\<lambda>item. let url = field_text cx item ''url'';
              confidence = (case number_of (get_or item ''score'' (PFloat (1 / 2))) of Some r \<Rightarrow> r | None \<Rightarrow> 1 / 2)
            in if url = [] then []
               else [evidence_item env (''research_'' @ axis @ ''_evidence'')
                  (field_text cx item ''title'' @ dash @ field_text cx item ''content'') (rv_json env (PDict item)) url query
                  (max (1 / 10) (min 1 confidence))]) (results_of response))
         @ (if answer = [] then []
            else [evidence_item env (''research_'' @ axis @ ''_summary'') answer
                (rv_json env (PDict [(''query'', PStr query), (''answer'', PStr answer)])) ''https://api.tavily.com/search'' query
                (as_confidence scored)]))"

fun store_evidence :: "research_env \<Rightarrow> uuid \<Rightarrow> uuid \<Rightarrow> collected list \<Rightarrow> world \<Rightarrow> (store_error + uuid list) \<times> world" where
  "store_evidence env person opp [] w = (Inr [], w)"
| "store_evidence env person opp (co # rest) w =
     (case write_snapshot (rv_store env) [] co w of
        (Inl e, w1) \<Rightarrow> (Inl e, w1)
      | (Inr s, w1) \<Rightarrow>
          (case write_observations (rv_store env) s (co_observations co) (Some person) (Some opp) (\<lambda>_. []) (w_db w1) of
             Inl e \<Rightarrow> (Inl e, w1)
           | Inr (ids, d) \<Rightarrow>
               (case store_evidence env person opp rest (w1\<lparr>w_db := d\<rparr>) of
                  (Inl e, w2) \<Rightarrow> (Inl e, w2)
                | (Inr ids', w2) \<Rightarrow> (Inr (ids @ ids'), w2))))"

section \<open>The job\<close>

record research_subject =
  rb_person :: person
  rb_opportunity :: uuid
  rb_company :: string
  rb_queries :: "string dict"
  rb_previous :: "pyval dict"

record axis_run =
  ax_axis :: string
  ax_score :: axis_score
  ax_answer :: string
  ax_evidence :: "uuid list"

datatype research_stop = Search_Failed exc | Store_Failed exc

definition subject_terms_of :: "research_subject \<Rightarrow> string list" where
  "subject_terms_of b = [str_or (p_display_name (rb_person b)) [], rb_company b] @ handle_values (rb_person b)"

definition run_axis :: "research_env \<Rightarrow> research_subject \<Rightarrow> string \<Rightarrow> string \<Rightarrow> world \<Rightarrow> (research_stop + axis_run) \<times> world" where
  "run_axis env b axis query w =
     (case rv_search env query of
        Inl e \<Rightarrow> (Inl (Search_Failed e), w)
      | Inr response \<Rightarrow>
          (let scored = score_research_axis (sv_codec (rv_store env)) axis response (subject_terms_of b)
           in case store_evidence env (p_id (rb_person b)) (rb_opportunity b)
                (axis_material env axis query response scored) w of
                (Inl e, w1) \<Rightarrow> (Inl (Store_Failed (rv_store_exc env e)), w1)
              | (Inr ids, w1) \<Rightarrow> (Inr \<lparr>ax_axis = axis, ax_score = scored,
                    ax_answer = strip (answer_of (sv_codec (rv_store env)) response), ax_evidence = ids\<rparr>, w1)))"

fun run_axes :: "research_env \<Rightarrow> research_subject \<Rightarrow> string dict \<Rightarrow> world \<Rightarrow> (research_stop + axis_run list) \<times> world" where
  "run_axes env b [] w = (Inr [], w)"
| "run_axes env b ((axis, query) # rest) w =
     (case run_axis env b axis query w of
        (Inl e, w1) \<Rightarrow> (Inl e, w1)
      | (Inr r, w1) \<Rightarrow>
          (case run_axes env b rest w1 of
             (Inl e, w2) \<Rightarrow> (Inl e, w2)
           | (Inr rs, w2) \<Rightarrow> (Inr (r # rs), w2)))"

definition research_assessment :: "research_env \<Rightarrow> research_subject \<Rightarrow> axis_run \<Rightarrow> nat \<Rightarrow> assessment" where
  "research_assessment env b r n =
     (let se = rv_store env; sc = ax_score r; digest = sv_digest se;
          query = (case dget (rb_queries b) (ax_axis r) of Some q \<Rightarrow> q | None \<Rightarrow> [])
      in \<lparr>a_id = sv_id se ''assessments'' n, a_opportunity_id = rb_opportunity b,
          a_axis = (case dget axis_labels_of (ax_axis r) of Some l \<Rightarrow> l | None \<Rightarrow> []),
          a_rating = rating_of (as_score sc),
          a_trend = trend_of (as_score sc) (number_of (get_or (rb_previous b) (ax_axis r) PNone)),
          a_confidence = as_confidence sc, a_evidence_ids = ax_evidence r, a_counter_evidence_ids = [],
          a_unknowns = axis_unknowns (ax_axis r) (as_results sc) (as_confidence sc),
          a_artifact_metadata = build_artifact_metadata (rv_run_id env) ''assessment'' ''research-job-v2''
            (fingerprint_payload digest (PDict [(''person_id'', PStr (p_id (rb_person b))),
               (''opportunity_id'', PStr (rb_opportunity b)), (''axis'', PStr (ax_axis r)),
               (''evidence_ids'', strs (ax_evidence r))]))
            (default_options\<lparr>ao_rubric_versions := [''opportunity-axes-v1''],
               ao_parameters := Some [(''axis'', PStr (ax_axis r)),
                 (''query_fingerprint'', PStr (fingerprint_payload digest (PStr query)))],
               ao_latency_ms := Some (sv_latency se), ao_validator_status := ''not_applicable''\<rparr>),
          a_created_at = sv_now se\<rparr>)"

definition axis_of :: "axis_run list \<Rightarrow> string \<Rightarrow> axis_score option" where
  "axis_of rs axis = map_option ax_score (find (\<lambda>r. ax_axis r = axis) rs)"

definition on_axis :: "axis_run list \<Rightarrow> (axis_score \<Rightarrow> real) \<Rightarrow> string \<Rightarrow> pyval" where
  "on_axis rs f axis = PFloat (case axis_of rs axis of Some sc \<Rightarrow> f sc | None \<Rightarrow> 0)"

definition research_components :: "axis_run list \<Rightarrow> pyval dict" where
  "research_components rs =
     [(''founder'', on_axis rs as_score ''founder''), (''market'', on_axis rs as_score ''market''),
      (''idea_market'', on_axis rs as_score ''idea_market''),
      (''evidence_confidence'', PFloat (py_round 4 (sum_real (map (\<lambda>r. as_confidence (ax_score r)) rs) / 3))),
      (''founder_relevance'', on_axis rs as_relevance ''founder''),
      (''market_relevance'', on_axis rs as_relevance ''market''),
      (''idea_market_relevance'', on_axis rs as_relevance ''idea_market'')]"

definition axis_interval :: "axis_run \<Rightarrow> string \<times> pyval" where
  "axis_interval r =
     (let sc = ax_score r; margin = (1 - as_confidence sc) * (2 / 10)
      in (ax_axis r, PDict [(''low'', PFloat (py_round 4 (max 0 (as_score sc - margin)))),
            (''high'', PFloat (py_round 4 (min 1 (as_score sc + margin))))]))"

definition research_snapshot :: "research_env \<Rightarrow> research_subject \<Rightarrow> axis_run list \<Rightarrow> nat \<Rightarrow> score_snapshot" where
  "research_snapshot env b rs n =
     (let se = rv_store env
      in \<lparr>s_id = sv_id se ''score_snapshots'' n, s_subject_id = rb_opportunity b, s_subject_type = ''opportunity'',
          s_rubric_version = ''opportunity-axes-v1'', s_components = research_components rs,
          s_interval = Some (map axis_interval rs), s_evidence_ids = concat (map ax_evidence rs),
          s_input_fingerprint = None, s_provenance = PNone,
          s_artifact_metadata = build_artifact_metadata (rv_run_id env) ''score_snapshot'' ''research-job-v2''
            (fingerprint_payload (sv_digest se) (PDict [(''person_id'', PStr (p_id (rb_person b))),
               (''opportunity_id'', PStr (rb_opportunity b)),
               (''evidence_ids'', PDict (map (\<lambda>r. (ax_axis r, strs (ax_evidence r))) rs))]))
            (default_options\<lparr>ao_rubric_versions := [''opportunity-axes-v1''],
               ao_parameters := Some [(''axes'', strs (map fst (rb_queries b)))],
               ao_latency_ms := Some (sv_latency se), ao_validator_status := ''not_applicable''\<rparr>),
          s_created_at = sv_now se\<rparr>)"

definition previous_components :: "db \<Rightarrow> uuid \<Rightarrow> pyval dict" where
  "previous_components d opp =
     (case newest s_created_at (filter (\<lambda>s. s_subject_id s = opp \<and> s_subject_type s = ''opportunity''
        \<and> s_rubric_version s = ''opportunity-axes-v1'') (score_snapshots d)) of
        Some s \<Rightarrow> s_components s | None \<Rightarrow> [])"

definition research_error :: "research_env \<Rightarrow> string \<Rightarrow> string option \<Rightarrow> int \<Rightarrow> string \<Rightarrow> pyval dict \<Rightarrow> memo_world
    \<Rightarrow> (exc + pyval dict) \<times> memo_world" where
  "research_error env person_id job_id attempt err details w =
     (let res = [(''error'', PStr err), (''person_id'', PStr person_id)] @ details;
          reason = py_str (sv_codec (rv_store env)) (get_or details ''reason'' (PStr err))
      in (Inr res, mw_set_job (sv_now (rv_store env)) job_id (failed_update ''research'' attempt reason res) w))"

text \<open>The rows of a finished run.\<close>

definition finish_research :: "research_env \<Rightarrow> research_subject \<Rightarrow> string \<Rightarrow> string option \<Rightarrow> int \<Rightarrow> axis_run list
    \<Rightarrow> memo_world \<Rightarrow> (exc + pyval dict) \<times> memo_world" where
  "finish_research env b person_id job_id attempt rs w =
     (let v = mw_world w; d = w_db v;
          rows = map (\<lambda>(n, r). research_assessment env b r n) (zip [length (mw_assessments w)..<length (mw_assessments w) + length rs] rs);
          res = [(''person_id'', PStr person_id), (''scores'', PDict (research_components rs)),
            (''answers'', PDict (map (\<lambda>r. (ax_axis r, PStr (ax_answer r))) rs))];
          w1 = w\<lparr>mw_assessments := mw_assessments w @ rows,
            mw_world := v\<lparr>w_db := d\<lparr>score_snapshots := score_snapshots d
              @ [research_snapshot env b rs (length (score_snapshots d))]\<rparr>\<rparr>\<rparr>
      in (Inr res, mw_set_job (sv_now (rv_store env)) job_id \<lparr>ju_status = ''succeeded'', ju_phase = ''complete'',
            ju_attempt = Some attempt, ju_progress = None, ju_last_error = None, ju_clear_error = True,
            ju_result = Some res\<rparr> w1))"

text \<open>
  A failed search with a ledger row commits the evidence of the axes before it; without one, and when
  storing fails, the database side is dropped and the objects stay.
\<close>

definition research_for :: "research_env \<Rightarrow> research_subject \<Rightarrow> string \<Rightarrow> string option \<Rightarrow> int \<Rightarrow> memo_world
    \<Rightarrow> (exc + pyval dict) \<times> memo_world" where
  "research_for env b person_id job_id attempt w =
     (case run_axes env b (rb_queries b) (mw_world w) of
        (Inr rs, v) \<Rightarrow> finish_research env b person_id job_id attempt rs (w\<lparr>mw_world := v\<rparr>)
      | (Inl (Store_Failed e), v) \<Rightarrow> (Inl e, w\<lparr>mw_world := (mw_world w)\<lparr>w_objects := w_objects v\<rparr>\<rparr>)
      | (Inl (Search_Failed e), v) \<Rightarrow>
          (Inl e, if str_truthy job_id
             then mw_set_job (sv_now (rv_store env)) job_id (failed_update ''research'' attempt (x_text e)
                 [(''error'', PStr ''research_failed''), (''person_id'', PStr person_id)]) (w\<lparr>mw_world := v\<rparr>)
             else w\<lparr>mw_world := (mw_world w)\<lparr>w_objects := w_objects v\<rparr>\<rparr>))"

definition research_person :: "research_env \<Rightarrow> person \<Rightarrow> string \<Rightarrow> string \<Rightarrow> string option \<Rightarrow> int \<Rightarrow> memo_world
    \<Rightarrow> (exc + pyval dict) \<times> memo_world" where
  "research_person env p person_id opportunity_id job_id attempt w =
     (let d = w_db (mw_world w); policy = external_ai_use_decision p ''research''
      in if \<not> ai_allowed policy then research_error env person_id job_id attempt ''external_ai_blocked''
             [(''purpose'', PStr (ai_purpose policy)), (''reason'', PStr (ai_reason policy))] w
         else (case parse_uuid opportunity_id of
             None \<Rightarrow> research_error env person_id job_id attempt ''opportunity_id_required'' [] w
           | Some oid \<Rightarrow>
               (case (if list_ex (\<lambda>f. of_opportunity_id f = oid \<and> of_person_id f = p_id p) (founders d)
                      then get_row o_id (opportunities d) oid else None) of
                  None \<Rightarrow> research_error env person_id job_id attempt ''opportunity_not_found'' [] w
                | Some opp \<Rightarrow>
                    if \<not> rv_client_ok env then research_error env person_id job_id attempt ''tavily_client_init_failed'' [] w
                    else (let xs = filter (\<lambda>x. ob_subject_id x = Some (p_id p)) (observations d);
                              company = candidate_company xs p
                          in research_for env \<lparr>rb_person = p, rb_opportunity = o_id opp, rb_company = company,
                               rb_queries = research_queries p company, rb_previous = previous_components d (o_id opp)\<rparr>
                               person_id job_id attempt w))))"

definition research_candidate_job :: "research_env \<Rightarrow> string \<Rightarrow> string \<Rightarrow> string option \<Rightarrow> memo_world
    \<Rightarrow> (exc + pyval dict) \<times> memo_world" where
  "research_candidate_job env person_id opportunity_id job_id w0 =
     (case begin_job (sv_now (rv_store env)) job_id ''research'' (mw_world w0) of
        (Inl row, v) \<Rightarrow> (Inr [(''person_id'', PStr person_id), (''status'', PStr ''already_terminal''),
            (''job_id'', PStr row)], w0\<lparr>mw_world := v\<rparr>)
      | (Inr attempt, v) \<Rightarrow>
          (let w = w0\<lparr>mw_world := v\<rparr>
           in if rv_api_key env = [] then research_error env person_id job_id attempt ''tavily_not_configured'' [] w
              else (case parse_uuid person_id of
                  None \<Rightarrow> research_error env person_id job_id attempt ''invalid_person_id'' [] w
                | Some pid \<Rightarrow>
                    (case get_row p_id (persons (w_db v)) pid of
                       None \<Rightarrow> research_error env person_id job_id attempt ''person_not_found'' [] w
                     | Some p \<Rightarrow>
                         if \<not> p_canonical p then research_error env person_id job_id attempt ''person_not_found'' [] w
                         else research_person env p person_id opportunity_id job_id attempt w))))"

section \<open>Scores and ratings\<close>

lemma axis_confidence_bounds:
  "0 \<le> as_confidence (score_research_axis cx axis response terms)"
  "as_confidence (score_research_axis cx axis response terms) \<le> 1"
  by (simp_all add: score_research_axis_def weigh_axis_def Let_def py_round_nonneg py_round_le1)

lemma axis_score_bounds:
  "5 / 100 \<le> as_score (score_research_axis cx axis response terms)"
  "as_score (score_research_axis cx axis response terms) \<le> 95 / 100"
proof -
  have r: "py_round 4 (5 / 100 :: real) = 5 / 100" "py_round 4 (95 / 100 :: real) = 95 / 100"
    by (simp_all add: py_round_def half_even_def Let_def)
  have b: "py_round 4 (5 / 100) \<le> py_round 4 (max (5 / 100) (min (95 / 100) x))"
    "py_round 4 (max (5 / 100) (min (95 / 100) x)) \<le> py_round 4 (95 / 100)" for x :: real
    by (rule py_round_mono, simp)+
  show "5 / 100 \<le> as_score (score_research_axis cx axis response terms)"
    "as_score (score_research_axis cx axis response terms) \<le> 95 / 100"
    using b [unfolded r] by (simp_all only: score_research_axis_def weigh_axis_def Let_def axis_score.select_convs)
qed

lemma no_results_neutral:
  "result_count response = 0 \<Longrightarrow> as_score (score_research_axis cx axis response terms) = 1 / 2
    \<and> as_confidence (score_research_axis cx axis response terms) = 0"
  by (simp add: score_research_axis_def weigh_axis_def py_round_def half_even_def Let_def)

text \<open>What the database accepts of an assessment, and what the memo expects of it.\<close>

definition assessment_ok :: "assessment \<Rightarrow> bool" where
  "assessment_ok a = (ck_assessments_axis (a_axis a) \<and> ck_assessments_rating (a_rating a) \<and> ck_assessments_trend (a_trend a)
     \<and> 0 \<le> a_confidence a \<and> a_confidence a \<le> 1 \<and> a_unknowns a \<noteq> [])"

definition scored_run :: "axis_run \<Rightarrow> bool" where
  "scored_run r = (0 \<le> as_confidence (ax_score r) \<and> as_confidence (ax_score r) \<le> 1)"

lemma research_assessment_ok:
  assumes "ax_axis r \<in> {''founder'', ''market'', ''idea_market''}" "scored_run r"
  shows "assessment_ok (research_assessment env b r n)"
proof -
  have "ck_assessments_rating (rating_of x)" "ck_assessments_trend (trend_of x y)" "axis_unknowns ax k x \<noteq> []" for x y ax k
    by (simp_all add: rating_of_def trend_of_def axis_unknowns_def ck_assessments_rating_def ck_assessments_trend_def
        split: option.split)
  moreover have "ck_assessments_axis (case dget axis_labels_of (ax_axis r) of Some l \<Rightarrow> l | None \<Rightarrow> [])"
    using assms(1) by (auto simp: axis_labels_of_def ck_assessments_axis_def)
  ultimately show ?thesis using assms(2) by (simp add: assessment_ok_def research_assessment_def Let_def scored_run_def)
qed

section \<open>Frames\<close>

lemma store_evidence_frame:
  assumes "store_evidence env person opp cos' w = (res, w')"
  shows "w_jobs w' = w_jobs w \<and> score_snapshots (w_db w') = score_snapshots (w_db w) \<and> claims (w_db w') = claims (w_db w)
    \<and> persons (w_db w') = persons (w_db w)"
  using assms
proof (induction env person opp cos' w arbitrary: res w' rule: store_evidence.induct)
  case (2 env person opp co rest w)
  obtain sn w1 where w1: "write_snapshot (rv_store env) [] co w = (sn, w1)" by force
  note f = write_snapshot_frame [OF w1]
  show ?case
  proof (cases sn)
    case (Inl e)
    with 2(2) w1 f show ?thesis by simp
  next
    case (Inr s)
    show ?thesis
    proof (cases "write_observations (rv_store env) s (co_observations co) (Some person) (Some opp) (\<lambda>_. []) (w_db w1)")
      case (Inl e)
      with 2(2) w1 f Inr show ?thesis by simp
    next
      case ok: (Inr r)
      obtain ids d where r: "r = (ids, d)" by force
      obtain out w2 where rest: "store_evidence env person opp rest (w1\<lparr>w_db := d\<rparr>) = (out, w2)" by force
      have "w' = w2" using 2(2) w1 Inr ok r rest by (auto split: sum.splits)
      moreover obtain obs where "d = (w_db w1)\<lparr>observations := obs\<rparr>"
        using write_observations_frame [OF ok [unfolded r]] by blast
      ultimately show ?thesis using 2(1) [OF w1 [symmetric] Inr ok r [symmetric] rest] f by simp
    qed
  qed
qed simp

lemma run_axes_frame:
  assumes "run_axes env b qs w = (res, w')"
  shows "w_jobs w' = w_jobs w \<and> score_snapshots (w_db w') = score_snapshots (w_db w) \<and> claims (w_db w') = claims (w_db w)
    \<and> (\<forall>rs. res = Inr rs \<longrightarrow> map ax_axis rs = map fst qs \<and> list_all scored_run rs)"
  using assms
proof (induction env b qs w arbitrary: res w' rule: run_axes.induct)
  case (2 env b axis query rest w)
  obtain one w1 where one: "run_axis env b axis query w = (one, w1)" by force
  have f: "w_jobs w1 = w_jobs w \<and> score_snapshots (w_db w1) = score_snapshots (w_db w) \<and> claims (w_db w1) = claims (w_db w)
      \<and> (\<forall>r. one = Inr r \<longrightarrow> ax_axis r = axis \<and> scored_run r)"
    using one store_evidence_frame axis_confidence_bounds
    by (fastforce simp: run_axis_def Let_def scored_run_def split: sum.splits prod.splits)
  show ?case
  proof (cases one)
    case (Inl e)
    with 2(2) one f show ?thesis by auto
  next
    case (Inr r)
    obtain out w2 where out: "run_axes env b rest w1 = (out, w2)" by force
    from 2(1) [OF one [symmetric] Inr out] 2(2) one Inr out f show ?thesis by (auto split: sum.splits)
  qed
qed simp

section \<open>What the job does\<close>

text \<open>Without a licence in the hint the evidence of a search is quarantined, and no id comes back.\<close>

definition search_quarantined :: "world \<Rightarrow> bool" where
  "search_quarantined w = list_all (\<lambda>s. sn_source_type s = ''tavily_search'' \<longrightarrow> quarantined s) (w_snapshots w)"

definition search_item :: "collected \<Rightarrow> bool" where
  "search_item co = (co_source_type co = ''tavily_search'' \<and> \<not> licensed (co_license_hint co))"

lemma axis_material_items: "list_all search_item (axis_material env axis query response scored)"
  by (auto simp: axis_material_def evidence_item_def search_item_def licensed_def search_licence_def Let_def list_all_iff)

lemma store_evidence_empty:
  assumes "store_evidence env person opp items w = (res, w')" "search_quarantined w" "list_all search_item items"
  shows "search_quarantined w' \<and> observations (w_db w') = observations (w_db w) \<and> (\<forall>ids. res = Inr ids \<longrightarrow> ids = [])"
  using assms
proof (induction env person opp items w arbitrary: res w' rule: store_evidence.induct)
  case (2 env person opp co rest w)
  obtain sn w1 where w1: "write_snapshot (rv_store env) [] co w = (sn, w1)" by force
  note f = write_snapshot_frame [OF w1]
  have lic: "co_source_type co \<notin> {''inbound_deck'', ''outreach''}" "\<not> licensed (co_license_hint co)"
    "co_source_type co = ''tavily_search''" using 2(4) by (auto simp: search_item_def)
  have q1: "search_quarantined w1"
    using w1 2(3) lic new_snapshot_quarantined [OF lic(1,2)]
    by (auto simp: write_snapshot_def put_snapshot_def Let_def search_quarantined_def commit_rivals_def
        dest!: unique_insert_Some split: option.splits simp del: newest_None_iff)
  show ?case
  proof (cases sn)
    case (Inl e)
    with 2(2) w1 f q1 show ?thesis by auto
  next
    case (Inr s)
    have "quarantined s"
      using write_snapshot_origin [OF w1 [unfolded Inr]] 2(3) lic new_snapshot_quarantined [OF lic(1,2)]
      by (auto simp: search_quarantined_def list_all_iff same_version_def)
    then have ok: "write_observations (rv_store env) s (co_observations co) (Some person) (Some opp) (\<lambda>_. []) (w_db w1)
        = Inr ([], w_db w1)" by (simp add: write_observations_def)
    obtain out w2 where rest: "store_evidence env person opp rest (w1\<lparr>w_db := w_db w1\<rparr>) = (out, w2)" by force
    have "search_quarantined (w1\<lparr>w_db := w_db w1\<rparr>)" using q1 by simp
    from 2(1) [OF w1 [symmetric] Inr ok refl rest this] 2(2,4) w1 Inr ok rest f show ?thesis
      by (auto split: sum.splits)
  qed
qed simp

lemma run_axes_empty:
  assumes "run_axes env b qs w = (res, w')" "search_quarantined w"
  shows "search_quarantined w' \<and> observations (w_db w') = observations (w_db w)
    \<and> (\<forall>rs. res = Inr rs \<longrightarrow> list_all (\<lambda>r. ax_evidence r = []) rs)"
  using assms
proof (induction env b qs w arbitrary: res w' rule: run_axes.induct)
  case (2 env b axis query rest w)
  obtain one w1 where one: "run_axis env b axis query w = (one, w1)" by force
  have f: "search_quarantined w1 \<and> observations (w_db w1) = observations (w_db w) \<and> (\<forall>r. one = Inr r \<longrightarrow> ax_evidence r = [])"
    using one 2(3) store_evidence_empty [OF _ 2(3) axis_material_items]
    by (fastforce simp: run_axis_def Let_def split: sum.splits prod.splits)
  show ?case
  proof (cases one)
    case (Inl e)
    with 2(2) one f show ?thesis by auto
  next
    case (Inr r)
    obtain out w2 where out: "run_axes env b rest w1 = (out, w2)" by force
    from 2(1) [OF one [symmetric] Inr out conjunct1 [OF f]] 2(2) one Inr out f show ?thesis by (auto split: sum.splits)
  qed
qed simp

text \<open>What a run may add: nothing, or one assessment per axis and one score of the deal.\<close>

definition research_effect :: "memo_world \<Rightarrow> (exc + pyval dict) \<times> memo_world \<Rightarrow> bool" where
  "research_effect w out = (case out of (res, w') \<Rightarrow>
     ledger_ok (w_jobs (mw_world w')) \<and> claims (w_db (mw_world w')) = claims (w_db (mw_world w))
     \<and> mw_theses w' = mw_theses w \<and> mw_proposals w' = mw_proposals w
     \<and> (mw_assessments w' = mw_assessments w \<and> score_snapshots (w_db (mw_world w')) = score_snapshots (w_db (mw_world w))
        \<or> (\<exists>as s. mw_assessments w' = mw_assessments w @ as \<and> list_all assessment_ok as
             \<and> map a_axis as = [''Founder'', ''Market'', ''Idea-Market'']
             \<and> list_all (\<lambda>a. a_opportunity_id a = s_subject_id s) as
             \<and> score_snapshots (w_db (mw_world w')) = score_snapshots (w_db (mw_world w)) @ [s]
             \<and> s_rubric_version s = ''opportunity-axes-v1'' \<and> (\<exists>d. res = Inr d))))"

lemma research_error_effect:
  "ledger_ok (w_jobs (mw_world w)) \<Longrightarrow> research_effect w (research_error env person_id job_id attempt err details w)"
  by (simp add: research_error_def research_effect_def Let_def mw_set_job_def set_job_ledger)

lemma map_snd_zip_upt: "map snd (zip [m..<m + length xs] xs) = xs"
  by simp

lemma finish_research_effect:
  assumes "map ax_axis rs = [''founder'', ''market'', ''idea_market'']" "list_all scored_run rs"
    "ledger_ok (w_jobs (mw_world w))"
  shows "research_effect w (finish_research env b person_id job_id attempt rs w)"
proof -
  let ?m = "length (mw_assessments w)"
  let ?rows = "map (\<lambda>(n, r). research_assessment env b r n) (zip [?m..<?m + length rs] rs)"
  let ?s = "research_snapshot env b rs (length (score_snapshots (w_db (mw_world w))))"
  obtain x y z where rs: "rs = [x, y, z]" using assms(1) by (auto simp: map_eq_Cons_conv)
  have ax: "ax_axis x = ''founder''" "ax_axis y = ''market''" "ax_axis z = ''idea_market''"
    using assms(1) by (simp_all add: rs)
  have up: "[?m..<?m + length rs] = [?m, Suc ?m, Suc (Suc ?m)]" by (simp add: rs upt_rec)
  have "map a_axis ?rows = [''Founder'', ''Market'', ''Idea-Market'']"
    unfolding up by (simp add: rs ax research_assessment_def Let_def axis_labels_of_def)
  moreover have "list_all assessment_ok ?rows"
    unfolding up using assms(2) by (simp add: rs ax research_assessment_ok)
  moreover have "list_all (\<lambda>a. a_opportunity_id a = s_subject_id ?s) ?rows"
    unfolding up by (simp add: rs research_assessment_def research_snapshot_def Let_def)
  moreover have "s_rubric_version ?s = ''opportunity-axes-v1''" by (simp add: research_snapshot_def Let_def)
  ultimately show ?thesis
    using assms(3) unfolding research_effect_def finish_research_def Let_def prod.case
    by (intro conjI disjI2 exI [of _ ?rows] exI [of _ ?s]) (simp_all add: mw_set_job_def set_job_ledger)
qed

lemma research_for_effect:
  assumes "ledger_ok (w_jobs (mw_world w))" "map fst (rb_queries b) = [''founder'', ''market'', ''idea_market'']"
  shows "research_effect w (research_for env b person_id job_id attempt w)"
proof -
  obtain out v where out: "run_axes env b (rb_queries b) (mw_world w) = (out, v)" by force
  note f = run_axes_frame [OF out]
  have ledger: "ledger_ok (w_jobs v)" using f assms(1) by simp
  show ?thesis
  proof (cases out)
    case (Inr rs)
    have "research_effect (w\<lparr>mw_world := v\<rparr>) (finish_research env b person_id job_id attempt rs (w\<lparr>mw_world := v\<rparr>))"
      by (rule finish_research_effect) (use f Inr assms(2) ledger in auto)
    with f Inr out show ?thesis by (simp add: research_for_def research_effect_def case_prod_unfold)
  next
    case (Inl e)
    with out f ledger assms(1) show ?thesis
      by (cases e) (simp_all add: research_for_def research_effect_def mw_set_job_def set_job_ledger)
  qed
qed

lemma queries_axes: "map fst (research_queries p company) = [''founder'', ''market'', ''idea_market'']"
  by (simp add: research_queries_def Let_def)

lemma research_person_effect:
  "ledger_ok (w_jobs (mw_world w)) \<Longrightarrow> research_effect w (research_person env p person_id opp job_id attempt w)"
  by (simp add: research_person_def Let_def research_error_effect research_for_effect queries_axes split: option.split)


text \<open>
  Research without consent asks nothing: when the purpose gate refuses research for the person, the
  result and everything stored are the same whatever the search provider would answer.
\<close>

theorem research_needs_consent:
  assumes "parse_uuid person_id = Some pid" and "get_row p_id (persons (w_db (mw_world w))) pid = Some p"
    and "\<not> ai_allowed (external_ai_use_decision p ''research'')"
  shows "research_candidate_job (env\<lparr>rv_search := search1\<rparr>) person_id opportunity_id job_id w
       = research_candidate_job (env\<lparr>rv_search := search2\<rparr>) person_id opportunity_id job_id w"
proof -
  have err: "research_error (env\<lparr>rv_search := search1\<rparr>) = research_error (env\<lparr>rv_search := search2\<rparr>)"
    by (simp add: research_error_def fun_eq_iff)
  have "research_person (env\<lparr>rv_search := search1\<rparr>) p person_id opportunity_id job_id attempt v
      = research_person (env\<lparr>rv_search := search2\<rparr>) p person_id opportunity_id job_id attempt v" for attempt v
    using assms(3) err by (simp add: research_person_def Let_def)
  with err show ?thesis
    using begin_job_db [of "sv_now (rv_store env)" job_id "''research''" "mw_world w"] assms(1,2)
    by (auto simp: research_candidate_job_def Let_def split: prod.splits sum.splits)
qed

text \<open>
  Research persists no evidence: its searches report a licence without model use, so while no search
  result was admitted before, every observation is quarantined, the observations stay as they were and
  every assessment and score the job adds cites nothing.
\<close>

theorem research_persists_no_evidence:
  assumes "research_candidate_job env person_id opportunity_id job_id w = (res, w')"
    and "search_quarantined (mw_world w)"
  shows "observations (w_db (mw_world w')) = observations (w_db (mw_world w))
    \<and> (\<forall>a \<in> set (mw_assessments w'). a \<in> set (mw_assessments w) \<or> a_evidence_ids a = [])
    \<and> (\<forall>s \<in> set (score_snapshots (w_db (mw_world w'))).
         s \<in> set (score_snapshots (w_db (mw_world w))) \<or> s_evidence_ids s = [])"
proof -
  define quiet where "quiet u out = (case out of (r, u') \<Rightarrow>
      observations (w_db (mw_world u')) = observations (w_db (mw_world u))
      \<and> (\<forall>a \<in> set (mw_assessments u'). a \<in> set (mw_assessments u) \<or> a_evidence_ids a = [])
      \<and> (\<forall>s \<in> set (score_snapshots (w_db (mw_world u'))). s \<in> set (score_snapshots (w_db (mw_world u))) \<or> s_evidence_ids s = []))"
    for u :: memo_world and out :: "(exc + pyval dict) \<times> memo_world"
  obtain b v where b: "begin_job (sv_now (rv_store env)) job_id ''research'' (mw_world w) = (b, v)" by force
  let ?w = "w\<lparr>mw_world := v\<rparr>"
  have v: "w_db v = w_db (mw_world w)" "w_snapshots v = w_snapshots (mw_world w)"
    using begin_job_db [of "sv_now (rv_store env)" job_id "''research''" "mw_world w"] b by simp_all
  then have sq: "search_quarantined v" using assms(2) by (simp add: search_quarantined_def)
  have err: "quiet u (research_error env person_id job_id attempt e details u)" for u attempt e details
    by (simp add: quiet_def research_error_def Let_def mw_set_job_def)
  have done_: "quiet u (finish_research env x person_id job_id attempt rs u)"
    if "list_all (\<lambda>r. ax_evidence r = []) rs" for u x attempt rs
  proof -
    have "a_evidence_ids (research_assessment env x r n) = []" if "r \<in> set rs" for r n
      using that \<open>list_all _ rs\<close> by (simp add: research_assessment_def Let_def list_all_iff)
    moreover have "s_evidence_ids (research_snapshot env x rs n) = []" for n
      using \<open>list_all _ rs\<close> by (auto simp: research_snapshot_def Let_def list_all_iff)
    ultimately show ?thesis
      by (auto simp: quiet_def finish_research_def Let_def mw_set_job_def dest: set_zip_rightD)
  qed
  have run: "quiet ?w (research_for env x person_id job_id attempt ?w)" for x attempt
  proof -
    obtain out v1 where out: "run_axes env x (rb_queries x) v = (out, v1)" by force
    note f = run_axes_frame [OF out] run_axes_empty [OF out sq]
    have go: "quiet (?w\<lparr>mw_world := v1\<rparr>) o1 \<Longrightarrow> quiet ?w o1" for o1
      using f by (simp add: quiet_def case_prod_unfold)
    show ?thesis
    proof (cases out)
      case (Inr rs)
      with go [OF done_] f out show ?thesis by (simp add: research_for_def)
    next
      case (Inl e)
      with out f show ?thesis by (cases e) (simp_all add: research_for_def quiet_def mw_set_job_def)
    qed
  qed
  have person: "quiet ?w (research_person env p person_id opportunity_id job_id attempt ?w)" for p attempt
    by (simp add: research_person_def Let_def err run split: option.split)
  have same: "quiet ?w (Inr d, ?w)" for d by (simp add: quiet_def)
  have "quiet ?w (research_candidate_job env person_id opportunity_id job_id w)"
    unfolding research_candidate_job_def b Let_def prod.case
    by (simp add: same err person split: sum.split option.split)
  with assms(1) v show ?thesis by (simp add: quiet_def)
qed

section \<open>Samples\<close>

definition sample_research :: research_env where
  "sample_research = \<lparr>rv_store = sample_store_env, rv_api_key = ''key'', rv_client_ok = True,
     rv_search = (\<lambda>query. Inr [(''results'', PList [PDict [(''url'', PStr ''https://x.io''), (''title'', PStr ''x''),
       (''content'', PStr ''y'')]])]),
     rv_json = (\<lambda>v. ''{}''), rv_run_id = ''r'', rv_store_exc = (\<lambda>e. connector_error [] None None)\<rparr>"

definition research_world :: memo_world where
  "research_world = \<lparr>mw_world = \<lparr>w_db = empty_db\<lparr>persons := [sample_person\<lparr>p_id := ''00000000-0000-0000-0000-000000000001''\<rparr>]\<rparr>,
     w_snapshots = [], w_jobs = [], w_telemetry = [], w_objects = []\<rparr>, mw_theses = [], mw_assessments = [], mw_proposals = []\<rparr>"


theorem research_persists_no_evidence_witness:
  "\<exists>res w'. research_candidate_job sample_research ''p1'' ''o1'' None research_world = (res, w')
     \<and> observations (w_db (mw_world w')) = []"
proof -
  obtain res w' where out: "research_candidate_job sample_research ''p1'' ''o1'' None research_world = (res, w')" by force
  have "search_quarantined (mw_world research_world)" by (simp add: search_quarantined_def research_world_def)
  from research_persists_no_evidence [OF out this] out show ?thesis by (auto simp: research_world_def empty_db_def)
qed

theorem research_needs_consent_witness:
  "research_candidate_job (sample_research\<lparr>rv_search := \<lambda>q. Inr []\<rparr>) ''00000000-0000-0000-0000-000000000001'' ''o1'' None research_world
   = research_candidate_job (sample_research\<lparr>rv_search := \<lambda>q. Inl (connector_error q None None)\<rparr>) ''00000000-0000-0000-0000-000000000001'' ''o1'' None research_world"
proof -
  let ?p = "sample_person\<lparr>p_id := ''00000000-0000-0000-0000-000000000001''\<rparr>"
  have "parse_uuid ''00000000-0000-0000-0000-000000000001'' = Some ''00000000-0000-0000-0000-000000000001''" by code_simp
  moreover have "get_row p_id (persons (w_db (mw_world research_world))) ''00000000-0000-0000-0000-000000000001'' = Some ?p"
    by (simp add: research_world_def get_row_def empty_db_def)
  moreover have "\<not> ai_allowed (external_ai_use_decision ?p ''research'')"
    by (simp add: external_ai_use_decision_def consent_of_def sample_person_def blocking_consent_states_def)
  ultimately show ?thesis by (rule research_needs_consent)
qed

end
