(* ===== verification/Claim_Dedup.thy ===== *)
theory Claim_Dedup
  imports Reconcile Weights "HOL-Library.Multiset"
begin

text \<open>
  Deduplication of claims by embedding similarity and the generation of embeddings,
  \<^verbatim>\<open>app/processing/dedup.py\<close> and \<^verbatim>\<open>app/processing/embeddings.py\<close>. The order the
  database gives rows of one instant is the argument \<open>ties\<close>; the embedding service is a function
  from the texts of a batch to an error or its items, each an index with a vector.
\<close>

section \<open>Similarity\<close>

definition duplicate_threshold :: real where "duplicate_threshold = 92 / 100"

definition dot :: "real list \<Rightarrow> real list \<Rightarrow> real" where
  "dot a b = sum_real (map (\<lambda>(x, y). x * y) (zip a b))"

definition cosine_similarity :: "real list \<Rightarrow> real list \<Rightarrow> real" where
  "cosine_similarity a b =
     (if a = [] \<or> b = [] \<or> length a \<noteq> length b then 0
      else (let norm_a = sqrt (dot a a); norm_b = sqrt (dot b b)
            in if norm_a = 0 \<or> norm_b = 0 then 0 else dot a b / (norm_a * norm_b)))"

section \<open>Deduplication\<close>

definition open_for :: "uuid \<Rightarrow> claim \<Rightarrow> bool" where
  "open_for person c = (c_subject_id c = Some person \<and> c_supersession_id c = None)"

definition open_claims :: "(claim list \<Rightarrow> claim list) \<Rightarrow> db \<Rightarrow> uuid \<Rightarrow> claim list" where
  "open_claims ties d person = sort_key (\<lambda>c. - c_created_at c)
     (ties (filter (open_for person) (claims d)))"

text \<open>The vector of the first observation behind a claim; an absent and an empty one are alike.\<close>

definition claim_embedding :: "db \<Rightarrow> claim \<Rightarrow> real list option" where
  "claim_embedding d c =
     (case c_observation_ids c of
        [] \<Rightarrow> None
      | i # is \<Rightarrow> (case get_row ob_id (observations d) i of
          None \<Rightarrow> None
        | Some x \<Rightarrow> (if ob_embedding x = Some [] then None else ob_embedding x)))"

text \<open>The superseded claims so far, each with the claim that replaces it.\<close>

definition similar_claims :: "db \<Rightarrow> claim \<Rightarrow> claim \<Rightarrow> bool" where
  "similar_claims d a b =
     (c_predicate b = c_predicate a \<and> c_opportunity_id b = c_opportunity_id a
      \<and> (case (claim_embedding d a, claim_embedding d b) of
           (Some ea, Some eb) \<Rightarrow> duplicate_threshold \<le> cosine_similarity ea eb
         | _ \<Rightarrow> False))"

fun supersede_rest :: "db \<Rightarrow> claim \<Rightarrow> claim list \<Rightarrow> claim dict \<Rightarrow> claim dict" where
  "supersede_rest d a [] gone = gone"
| "supersede_rest d a (b # bs) gone =
     supersede_rest d a bs
       (if c_id b \<in> fst ` set gone then gone
        else if similar_claims d a b then gone @ [(c_id b, a)] else gone)"

fun supersede_all :: "db \<Rightarrow> claim list \<Rightarrow> claim dict \<Rightarrow> claim dict" where
  "supersede_all d [] gone = gone"
| "supersede_all d (a # rest) gone =
     supersede_all d rest
       (if c_id a \<in> fst ` set gone \<or> claim_embedding d a = None then gone else supersede_rest d a rest gone)"

definition supersede :: "claim dict \<Rightarrow> claim \<Rightarrow> claim" where
  "supersede gone c = (case dget gone (c_id c) of
     None \<Rightarrow> c
   | Some a \<Rightarrow> c\<lparr>c_supersession_id := Some (c_id a), c_valid_end := Some (c_valid_start a)\<rparr>)"

definition deduplicate_claims :: "(claim list \<Rightarrow> claim list) \<Rightarrow> uuid \<Rightarrow> db \<Rightarrow> nat \<times> db" where
  "deduplicate_claims ties person d =
     (let cs = open_claims ties d person
      in if length cs < 2 then (0, d)
         else (let gone = supersede_all d cs []
               in (length gone, d\<lparr>claims := map (supersede gone) (claims d)\<rparr>)))"

section \<open>Embeddings\<close>

datatype embed_service = No_Client | Embed_Client "string list \<Rightarrow> string + (int \<times> real list) list"

definition generate_embedding :: "embed_service \<Rightarrow> string \<Rightarrow> real list option" where
  "generate_embedding client text =
     (case client of
        No_Client \<Rightarrow> None
      | Embed_Client ask \<Rightarrow>
          (let bounded = take 8000 text
           in if strip bounded = [] then None
              else (case ask [bounded] of Inr ((i, v) # rest) \<Rightarrow> Some v | _ \<Rightarrow> None)))"

function batches :: "nat \<Rightarrow> 'a list \<Rightarrow> 'a list list" where
  "batches n xs = (if xs = [] \<or> n = 0 then [] else take n xs # batches n (drop n xs))"
  by auto
termination by (relation "measure (\<lambda>(n, xs). length xs)") (auto simp: neq_Nil_conv)

declare batches.simps [simp del]

definition pending_embeddings :: "(observation list \<Rightarrow> observation list) \<Rightarrow> db \<Rightarrow> uuid \<Rightarrow> observation list" where
  "pending_embeddings ties d person =
     filter (\<lambda>x. ob_object_value x \<noteq> [] \<and> (ob_embedding x = None \<or> ob_embedding x = Some []))
       (sort_key (\<lambda>x. - ob_observed_at x) (ties (filter (\<lambda>x. ob_subject_id x = Some person) (observations d))))"

text \<open>
  The strict zip of a batch with its vectors stores vector by vector; a service that returns another
  number of items makes it raise. A failed request skips the batch.
\<close>

fun store_vectors :: "observation list \<Rightarrow> real list list \<Rightarrow> observation list \<Rightarrow> observation list" where
  "store_vectors (x # xs) (v # vs) table =
     store_vectors xs vs (map (\<lambda>y. if ob_id y = ob_id x then y\<lparr>ob_embedding := Some v\<rparr> else y) table)"
| "store_vectors _ _ table = table"

fun embed_batches :: "(string list \<Rightarrow> string + (int \<times> real list) list) \<Rightarrow> observation list list
    \<Rightarrow> observation list \<Rightarrow> nat \<Rightarrow> string + (nat \<times> observation list)" where
  "embed_batches ask [] table n = Inr (n, table)"
| "embed_batches ask (b # bs) table n =
     (case ask (map (\<lambda>x. take 8000 (ob_object_value x)) b) of
        Inl e \<Rightarrow> embed_batches ask bs table n
      | Inr items \<Rightarrow>
          (if length items \<noteq> length b then Inl ''ValueError: zip() arguments differ in length''
           else embed_batches ask bs (store_vectors b (map snd (sort_key fst items)) table) (n + length b)))"

definition embed_observations :: "embed_service \<Rightarrow> (observation list \<Rightarrow> observation list) \<Rightarrow> uuid \<Rightarrow> db
    \<Rightarrow> string + (nat \<times> db)" where
  "embed_observations client ties person d =
     (case client of
        No_Client \<Rightarrow> Inr (0, d)
      | Embed_Client ask \<Rightarrow>
          (case embed_batches ask (batches 50 (pending_embeddings ties d person)) (observations d) 0 of
             Inl e \<Rightarrow> Inl e
           | Inr (n, table) \<Rightarrow> Inr (n, d\<lparr>observations := table\<rparr>)))"

section \<open>Similarity is a cosine\<close>

lemma dot_simps [simp]: "dot [] b = 0" "dot a [] = 0" "dot (x # a) (y # b) = x * y + dot a b"
  by (simp_all add: dot_def)

lemma dot_commute: "dot a b = dot b a"
  by (induction a b rule: list_induct2') (simp_all add: mult.commute)

lemma dot_self_nonneg: "0 \<le> dot a a"
  by (induction a) simp_all

lemma dot_self_0: "dot a a = 0 \<Longrightarrow> length a = length b \<Longrightarrow> dot a b = 0"
proof (induction a arbitrary: b)
  case (Cons x a)
  then obtain y b' where b: "b = y # b'" "length a = length b'" by (cases b) auto
  from Cons.prems(1) have "x * x = 0 \<and> dot a a = 0"
    using dot_self_nonneg [of a] by (simp add: add_nonneg_eq_0_iff)
  with Cons.IH [of b'] b show ?case by simp
qed simp

lemma cauchy_step:
  fixes d p q x y :: real
  assumes "d\<^sup>2 \<le> p * q" and "0 \<le> p" and "0 \<le> q"
  shows "(x * y + d)\<^sup>2 \<le> (x * x + p) * (y * y + q)"
proof -
  have "d \<le> sqrt p * sqrt q \<and> - d \<le> sqrt p * sqrt q"
    using real_sqrt_le_mono [OF assms(1)] by (simp add: real_sqrt_mult abs_le_iff)
  then have "\<bar>d\<bar> * \<bar>x * y\<bar> \<le> sqrt p * sqrt q * \<bar>x * y\<bar>"
    by (intro mult_right_mono) auto
  moreover have "x * y * d \<le> \<bar>d\<bar> * \<bar>x * y\<bar>"
    by (metis abs_ge_self abs_mult mult.commute)
  moreover have "0 \<le> (sqrt p * \<bar>y\<bar> - sqrt q * \<bar>x\<bar>)\<^sup>2" by simp
  then have "2 * (sqrt p * sqrt q * \<bar>x * y\<bar>) \<le> p * (y * y) + q * (x * x)"
    using assms(2,3) by (simp add: power2_diff power_mult_distrib abs_mult power2_eq_square algebra_simps)
  ultimately have "2 * (x * y * d) \<le> p * (y * y) + q * (x * x)" by linarith
  with assms(1) show ?thesis by (simp add: power2_eq_square algebra_simps)
qed

lemma cauchy_schwarz: "length a = length b \<Longrightarrow> (dot a b)\<^sup>2 \<le> dot a a * dot b b"
  by (induction a b rule: list_induct2) (simp_all add: cauchy_step dot_self_nonneg)

lemma cosine_commute: "cosine_similarity a b = cosine_similarity b a"
  unfolding cosine_similarity_def by (simp add: dot_commute [of a b] mult.commute Let_def)

lemma cosine_abs_le_1: "\<bar>cosine_similarity a b\<bar> \<le> 1"
proof (cases "a = [] \<or> b = [] \<or> length a \<noteq> length b \<or> dot a a = 0 \<or> dot b b = 0")
  case False
  then have len: "length a = length b" and pos: "0 < dot a a" "0 < dot b b"
    using dot_self_nonneg [of a] dot_self_nonneg [of b] by auto
  have "\<bar>dot a b\<bar> \<le> sqrt (dot a a) * sqrt (dot b b)"
    using real_sqrt_le_mono [OF cauchy_schwarz [OF len]] by (simp add: real_sqrt_mult)
  moreover have "cosine_similarity a b = dot a b / (sqrt (dot a a) * sqrt (dot b b))"
    using False by (simp add: cosine_similarity_def Let_def)
  ultimately show ?thesis using pos by (simp add: divide_le_eq)
qed (auto simp: cosine_similarity_def Let_def)

lemma cosine_self: "cosine_similarity a a = (if dot a a = 0 then 0 else 1)"
  using dot_self_nonneg [of a] by (auto simp: cosine_similarity_def Let_def)

text \<open>
  The similarity is a cosine: it is symmetric, lies between -1 and 1 for any two vectors, and a
  vector that is not zero is similar to each of its positive multiples to the degree 1.
\<close>

lemma dot_scale: "dot (map (\<lambda>x. k * x) a) b = k * dot a b"
  by (induction a b rule: list_induct2') (simp_all add: algebra_simps)

theorem cosine_similarity_laws:
  "cosine_similarity a b = cosine_similarity b a \<and> - 1 \<le> cosine_similarity a b \<and> cosine_similarity a b \<le> 1
   \<and> (0 < k \<and> dot a a \<noteq> 0 \<longrightarrow> cosine_similarity a (map (\<lambda>x. k * x) a) = 1)"
proof -
  have "cosine_similarity a (map (\<lambda>x. k * x) a) = 1" if k: "0 < k" and nz: "dot a a \<noteq> 0"
  proof -
    let ?b = "map (\<lambda>x. k * x) a"
    have ab: "dot a ?b = k * dot a a" by (metis dot_commute dot_scale)
    have bb: "dot ?b ?b = k * k * dot a a" using ab by (simp add: dot_scale)
    have pos: "0 < dot a a" using nz dot_self_nonneg [of a] by simp
    have ne: "a \<noteq> []" using nz by auto
    have "cosine_similarity a ?b = k * dot a a / (sqrt (dot a a) * sqrt (k * k * dot a a))"
      using ne pos k by (simp add: cosine_similarity_def Let_def bb ab)
    also have "sqrt (k * k * dot a a) = k * sqrt (dot a a)" using k by (simp add: real_sqrt_mult)
    finally show ?thesis using k pos by simp
  qed
  with cosine_abs_le_1 [of a b] cosine_commute [of a b] show ?thesis by (simp add: abs_le_iff)
qed

section \<open>Which claims are superseded\<close>

lemma similar_claims_commute: "similar_claims d a b = similar_claims d b a"
  by (auto simp: similar_claims_def cosine_commute split: option.splits)

lemma similar_claims_embedded: "similar_claims d a b \<Longrightarrow> claim_embedding d a \<noteq> None"
  by (auto simp: similar_claims_def split: option.splits)

lemma supersede_rest_eq:
  "distinct (map c_id bs) \<Longrightarrow> supersede_rest d a bs gone =
     gone @ map (\<lambda>b. (c_id b, a)) (filter (\<lambda>b. c_id b \<notin> fst ` set gone \<and> similar_claims d a b) bs)"
proof (induction bs arbitrary: gone)
  case (Cons b bs)
  have "filter (\<lambda>x. c_id x \<notin> fst ` set (gone @ [(c_id b, a)]) \<and> similar_claims d a x) bs
      = filter (\<lambda>x. c_id x \<notin> fst ` set gone \<and> similar_claims d a x) bs"
    by (rule filter_cong) (use Cons.prems in \<open>auto simp: image_iff\<close>)
  with Cons show ?case by simp
qed simp

text \<open>
  The pairs of a run: superseded claims are listed once, a replacement is never superseded itself, it
  is similar and comes earlier in the list, and no two claims left open are similar.
\<close>

definition dedup_result :: "db \<Rightarrow> (claim \<Rightarrow> claim \<Rightarrow> bool) \<Rightarrow> claim list \<Rightarrow> claim dict \<Rightarrow> claim dict \<Rightarrow> bool" where
  "dedup_result d before cs gone res =
     (\<exists>new. res = gone @ new \<and> distinct (map fst new) \<and> fst ` set new \<inter> fst ` set gone = {}
       \<and> (\<forall>i a. (i, a) \<in> set new \<longrightarrow> a \<in> set cs \<and> c_id a \<notin> fst ` set res
            \<and> (\<exists>b \<in> set cs. c_id b = i \<and> before a b \<and> similar_claims d a b))
       \<and> (\<forall>a \<in> set cs. \<forall>b \<in> set cs. a \<noteq> b \<longrightarrow> c_id a \<notin> fst ` set res \<longrightarrow> c_id b \<notin> fst ` set res
            \<longrightarrow> \<not> similar_claims d a b))"

lemma dedup_result_skip:
  assumes "dedup_result d before cs gone res" and "c_id a \<notin> c_id ` set cs"
    and "c_id a \<in> fst ` set gone \<or> claim_embedding d a = None"
  shows "dedup_result d before (a # cs) gone res"
proof -
  from assms(1) obtain new where new: "res = gone @ new" "distinct (map fst new)" "fst ` set new \<inter> fst ` set gone = {}"
    "\<forall>i x. (i, x) \<in> set new \<longrightarrow> x \<in> set cs \<and> c_id x \<notin> fst ` set res
       \<and> (\<exists>b \<in> set cs. c_id b = i \<and> before x b \<and> similar_claims d x b)"
    and left: "\<forall>x \<in> set cs. \<forall>y \<in> set cs. x \<noteq> y \<longrightarrow> c_id x \<notin> fst ` set res \<longrightarrow> c_id y \<notin> fst ` set res
      \<longrightarrow> \<not> similar_claims d x y"
    unfolding dedup_result_def by blast
  have skip: "\<not> similar_claims d a y \<and> \<not> similar_claims d y a" if "c_id a \<notin> fst ` set res" for y
    using assms(3) that new(1) similar_claims_embedded [of d a y] similar_claims_commute [of d y a] by auto
  have "\<forall>x \<in> set (a # cs). \<forall>y \<in> set (a # cs). x \<noteq> y \<longrightarrow> c_id x \<notin> fst ` set res \<longrightarrow> c_id y \<notin> fst ` set res
      \<longrightarrow> \<not> similar_claims d x y"
    using left skip by (metis set_ConsD)
  moreover have "\<forall>i x. (i, x) \<in> set new \<longrightarrow> x \<in> set (a # cs) \<and> c_id x \<notin> fst ` set res
       \<and> (\<exists>b \<in> set (a # cs). c_id b = i \<and> before x b \<and> similar_claims d x b)"
    using new(4) by (metis list.set_intros(2))
  ultimately show ?thesis unfolding dedup_result_def using new(1-3) by blast
qed

lemma dedup_result_step:
  assumes "dedup_result d before cs (supersede_rest d a cs gone) res" and "distinct (map c_id (a # cs))"
    and "c_id a \<notin> fst ` set gone" and "\<forall>b \<in> set cs. before a b"
  shows "dedup_result d before (a # cs) gone res"
proof -
  let ?hits = "filter (\<lambda>b. c_id b \<notin> fst ` set gone \<and> similar_claims d a b) cs"
  let ?first = "map (\<lambda>b. (c_id b, a)) ?hits"
  have rest: "supersede_rest d a cs gone = gone @ ?first"
    using assms(2) by (simp add: supersede_rest_eq)
  from assms(1) obtain new where new: "res = gone @ ?first @ new" "distinct (map fst new)"
    "fst ` set new \<inter> fst ` set (gone @ ?first) = {}"
    and pairs: "\<forall>i x. (i, x) \<in> set new \<longrightarrow> x \<in> set cs \<and> c_id x \<notin> fst ` set res
       \<and> (\<exists>b \<in> set cs. c_id b = i \<and> before x b \<and> similar_claims d x b)"
    and left: "\<forall>x \<in> set cs. \<forall>y \<in> set cs. x \<noteq> y \<longrightarrow> c_id x \<notin> fst ` set res \<longrightarrow> c_id y \<notin> fst ` set res
      \<longrightarrow> \<not> similar_claims d x y"
    unfolding dedup_result_def rest by auto
  have ids: "fst ` set new \<subseteq> c_id ` set cs"
  proof
    fix i
    assume "i \<in> fst ` set new"
    then obtain x where "(i, x) \<in> set new" by auto
    with pairs show "i \<in> c_id ` set cs" by blast
  qed
  have a_left: "c_id a \<notin> fst ` set res" using assms(2,3) ids by (auto simp: new(1) image_iff)
  have dist: "distinct (map fst ?first)"
    using assms(2) by (simp add: comp_def distinct_map_filter)
  have hit: "c_id b \<in> fst ` set res" if "b \<in> set cs" "similar_claims d a b" for b
  proof (cases "c_id b \<in> fst ` set gone")
    case False
    with that have "b \<in> set ?hits" by simp
    then have "(c_id b, a) \<in> set ?first" unfolding set_map by (rule imageI)
    then have "(c_id b, a) \<in> set res" unfolding new(1) set_append by blast
    then show ?thesis using image_eqI [of "c_id b" fst "(c_id b, a)"] by simp
  qed (simp add: new(1) image_Un)
  have ok: "x \<in> set (a # cs) \<and> c_id x \<notin> fst ` set res
      \<and> (\<exists>b \<in> set (a # cs). c_id b = i \<and> before x b \<and> similar_claims d x b)" if "(i, x) \<in> set (?first @ new)" for i x
  proof (cases "(i, x) \<in> set new")
    case True
    with pairs show ?thesis by (metis list.set_intros(2))
  next
    case False
    with that obtain b where "b \<in> set cs" "i = c_id b" "x = a" "similar_claims d a b" by auto
    with a_left assms(4) show ?thesis by auto
  qed
  have none: "\<not> similar_claims d x y"
    if "x \<in> set (a # cs)" "y \<in> set (a # cs)" "x \<noteq> y" "c_id x \<notin> fst ` set res" "c_id y \<notin> fst ` set res" for x y
    using that left hit similar_claims_commute by (metis set_ConsD)
  have apart: "fst ` set ?first \<inter> fst ` set new = {}" "fst ` set new \<inter> fst ` set gone = {}"
    using new(3) unfolding set_append image_Un by blast+
  then have "distinct (map fst (?first @ new))"
    using dist new(2) unfolding map_append distinct_append set_map by blast
  moreover have "fst ` set ?first \<inter> fst ` set gone = {}" by (auto simp: image_iff)
  with apart(2) have "fst ` set (?first @ new) \<inter> fst ` set gone = {}"
    unfolding set_append image_Un by blast
  ultimately show ?thesis using ok none new(1) unfolding dedup_result_def by (intro exI [of _ "?first @ new"]) blast
qed

lemma supersede_all_result:
  "distinct (map c_id cs) \<Longrightarrow> sorted_wrt before cs \<Longrightarrow> dedup_result d before cs gone (supersede_all d cs gone)"
proof (induction cs arbitrary: gone)
  case Nil
  then show ?case by (simp add: dedup_result_def)
next
  case (Cons a cs)
  show ?case
  proof (cases "c_id a \<in> fst ` set gone \<or> claim_embedding d a = None")
    case True
    then have "supersede_all d (a # cs) gone = supersede_all d cs gone" by auto
    with Cons True show ?thesis by (auto intro: dedup_result_skip)
  next
    case False
    then have "supersede_all d (a # cs) gone = supersede_all d cs (supersede_rest d a cs gone)" by auto
    with Cons False show ?thesis by (auto intro: dedup_result_step)
  qed
qed

section \<open>A run of the deduplication\<close>

text \<open>What a database may do with rows of one instant: any reordering.\<close>

definition reorders :: "('a list \<Rightarrow> 'a list) \<Rightarrow> bool" where
  "reorders ties = (\<forall>xs. mset (ties xs) = mset xs)"

lemma reorders_set: "reorders ties \<Longrightarrow> set (ties xs) = set xs"
  by (metis reorders_def set_mset_mset)

lemma open_claims_facts:
  assumes "reorders ties" and "distinct (map c_id (claims d))"
  shows "set (open_claims ties d p) = {c \<in> set (claims d). open_for p c}"
    and "distinct (map c_id (open_claims ties d p))"
    and "sorted_wrt (\<lambda>a b. c_created_at b \<le> c_created_at a) (open_claims ties d p)"
    and "length (open_claims ties d p)
      = length (filter (open_for p) (claims d))"
proof -
  let ?cs = "filter (open_for p) (claims d)"
  have m: "mset (open_claims ties d p) = mset ?cs" using assms(1) by (simp add: open_claims_def reorders_def)
  show "set (open_claims ties d p) = {c \<in> set (claims d). open_for p c}"
    using mset_eq_setD [OF m] by simp
  have "mset (map c_id (open_claims ties d p)) = mset (map c_id ?cs)" unfolding mset_map m ..
  then show "distinct (map c_id (open_claims ties d p))"
    using mset_eq_imp_distinct_iff distinct_map_filter [OF assms(2)] by blast
  have "sorted (map (\<lambda>c. - c_created_at c) (open_claims ties d p))" by (simp add: open_claims_def)
  then show "sorted_wrt (\<lambda>a b. c_created_at b \<le> c_created_at a) (open_claims ties d p)"
    by (simp add: sorted_map)
  show "length (open_claims ties d p) = length ?cs" by (rule mset_eq_length [OF m])
qed

lemma supersede_keeps [simp]:
  "c_id (supersede gone c) = c_id c" "c_subject_id (supersede gone c) = c_subject_id c"
  "c_opportunity_id (supersede gone c) = c_opportunity_id c" "c_predicate (supersede gone c) = c_predicate c"
  "c_object_value (supersede gone c) = c_object_value c" "c_status (supersede gone c) = c_status c"
  "c_observation_ids (supersede gone c) = c_observation_ids c" "c_created_at (supersede gone c) = c_created_at c"
  "claim_embedding d (supersede gone c) = claim_embedding d c"
  by (simp_all add: supersede_def claim_embedding_def split: option.splits)

lemma supersede_open: "open_for p (supersede gone c) \<longleftrightarrow> open_for p c \<and> c_id c \<notin> fst ` set gone"
  by (auto simp: open_for_def supersede_def dget_None_iff [symmetric] split: option.splits)

lemma supersede_id: "c_id c \<notin> fst ` set gone \<Longrightarrow> supersede gone c = c"
  by (simp add: supersede_def dget_None_iff [symmetric])

lemma claim_embedding_claims [simp]: "claim_embedding (d\<lparr>claims := cs\<rparr>) c = claim_embedding d c"
  by (cases "c_observation_ids c") (simp_all add: claim_embedding_def)

lemma similar_claims_run:
  "similar_claims (d\<lparr>claims := cs\<rparr>) (supersede gone a) (supersede gone b) = similar_claims d a b"
  by (simp add: similar_claims_def)

text \<open>One statement for both branches: the pairs of the run and what becomes of the claims.\<close>

lemma dedup_run:
  assumes "deduplicate_claims ties p d = (n, d')" and "reorders ties" and "distinct (map c_id (claims d))"
  shows "\<exists>gone. dedup_result d (\<lambda>a b. c_created_at b \<le> c_created_at a) (open_claims ties d p) [] gone
    \<and> n = length gone \<and> d' = d\<lparr>claims := map (supersede gone) (claims d)\<rparr>"
proof (cases "length (open_claims ties d p) < 2")
  case True
  then have "\<And>a b. a \<in> set (open_claims ties d p) \<Longrightarrow> b \<in> set (open_claims ties d p) \<Longrightarrow> a = b"
    by (cases "open_claims ties d p" rule: list.exhaust) auto
  then have "dedup_result d (\<lambda>a b. c_created_at b \<le> c_created_at a) (open_claims ties d p) [] []"
    unfolding dedup_result_def by fastforce
  moreover have "supersede [] = id" by (rule ext) (simp add: supersede_def)
  ultimately show ?thesis using True assms(1)
    by (intro exI [of _ "[]"]) (auto simp: deduplicate_claims_def)
next
  case False
  with assms(1) supersede_all_result [OF open_claims_facts(2,3) [OF assms(2,3)]] show ?thesis
    by (auto simp: deduplicate_claims_def Let_def)
qed

lemma supersede_Nil [simp]: "map (supersede []) cs = cs"
  by (simp add: supersede_def map_idI)

lemma dedup_frame:
  assumes "deduplicate_claims ties p d = (n, d')"
  obtains gone where "d' = d\<lparr>claims := map (supersede gone) (claims d)\<rparr>"
  using assms that [of "[]"] that by (auto simp: deduplicate_claims_def Let_def split: if_splits)

lemma length_filter_image:
  assumes "distinct (map f xs)" and "distinct ks" and "set ks \<subseteq> f ` {x \<in> set xs. P x}"
  shows "length (filter P xs) = length ks + length (filter (\<lambda>x. P x \<and> f x \<notin> set ks) xs)"
proof -
  have "set ks = set (map f (filter (\<lambda>x. P x \<and> f x \<in> set ks) xs))" using assms(3) by auto
  moreover have "distinct (map f (filter (\<lambda>x. P x \<and> f x \<in> set ks) xs))" by (rule distinct_map_filter [OF assms(1)])
  ultimately have "length ks = length (filter (\<lambda>x. P x \<and> f x \<in> set ks) xs)"
    using assms(2) by (metis distinct_card length_map)
  moreover have "length (filter P xs)
      = length (filter (\<lambda>x. P x \<and> f x \<in> set ks) xs) + length (filter (\<lambda>x. P x \<and> f x \<notin> set ks) xs)"
    by (induction xs) auto
  ultimately show ?thesis by simp
qed

lemma dedup_open:
  assumes "d' = d\<lparr>claims := map (supersede gone) (claims d)\<rparr>"
  shows "x \<in> set (claims d') \<and> open_for p x \<longleftrightarrow> x \<in> set (claims d) \<and> open_for p x \<and> c_id x \<notin> fst ` set gone"
proof
  assume x: "x \<in> set (claims d') \<and> open_for p x"
  then obtain b where b: "b \<in> set (claims d)" "x = supersede gone b" unfolding assms by auto
  with x have "c_id b \<notin> fst ` set gone" by (simp add: supersede_open)
  with b x supersede_id [OF this] show "x \<in> set (claims d) \<and> open_for p x \<and> c_id x \<notin> fst ` set gone" by simp
next
  assume x: "x \<in> set (claims d) \<and> open_for p x \<and> c_id x \<notin> fst ` set gone"
  then have "supersede gone x = x" by (simp add: supersede_id)
  with x have "x \<in> supersede gone ` set (claims d)" by (metis imageI)
  with x show "x \<in> set (claims d') \<and> open_for p x" unfolding assms by simp
qed

text \<open>
  C35. Deduplication closes near-duplicates only: no row is lost, and a claim either stays as it was or was
  a current claim that now points to a current, no older claim of the same person, predicate and
  deal whose evidence has cosine 0.92 or more to its own; the number returned is the number closed.
\<close>

theorem deduplicate_claims_sound:
  assumes "deduplicate_claims ties p d = (n, d')" and "reorders ties" and "distinct (map c_id (claims d))"
  shows "d' = d\<lparr>claims := claims d'\<rparr> \<and> map c_id (claims d') = map c_id (claims d)
    \<and> length (filter (open_for p) (claims d)) = n + length (filter (open_for p) (claims d'))
    \<and> (\<forall>c \<in> set (claims d'). c \<in> set (claims d) \<or>
        (\<exists>a \<in> set (claims d'). \<exists>b \<in> set (claims d). open_for p a \<and> open_for p b
           \<and> similar_claims d a b \<and> c_created_at b \<le> c_created_at a
           \<and> c = b\<lparr>c_supersession_id := Some (c_id a), c_valid_end := Some (c_valid_start a)\<rparr>))"
proof -
  note facts = open_claims_facts [OF assms(2,3), of p]
  from dedup_run [OF assms] obtain gone
    where res: "dedup_result d (\<lambda>a b. c_created_at b \<le> c_created_at a) (open_claims ties d p) [] gone"
      and n: "n = length gone" and d': "d' = d\<lparr>claims := map (supersede gone) (claims d)\<rparr>" by blast
  from res have dist: "distinct (map fst gone)" unfolding dedup_result_def by auto
  from res have pair: "a \<in> set (open_claims ties d p) \<and> c_id a \<notin> fst ` set gone
      \<and> (\<exists>b \<in> set (open_claims ties d p). c_id b = i \<and> c_created_at b \<le> c_created_at a \<and> similar_claims d a b)"
    if "(i, a) \<in> set gone" for i a
    using that unfolding dedup_result_def by simp
  have rows: "c \<in> set (claims d) \<or> (\<exists>a \<in> set (claims d'). \<exists>b \<in> set (claims d). open_for p a \<and> open_for p b
       \<and> similar_claims d a b \<and> c_created_at b \<le> c_created_at a
       \<and> c = b\<lparr>c_supersession_id := Some (c_id a), c_valid_end := Some (c_valid_start a)\<rparr>)"
    if "c \<in> set (claims d')" for c
  proof -
    from that d' obtain b where b: "b \<in> set (claims d)" "c = supersede gone b" by auto
    show ?thesis
    proof (cases "dget gone (c_id b)")
      case None
      with b show ?thesis by (simp add: supersede_def)
    next
      case (Some a)
      from pair [OF dget_SomeD [OF this]] obtain b' where a: "a \<in> set (open_claims ties d p)" "c_id a \<notin> fst ` set gone"
        and b': "b' \<in> set (open_claims ties d p)" "c_id b' = c_id b" "c_created_at b' \<le> c_created_at a" "similar_claims d a b'"
        by blast
      from b' facts(1) b(1) assms(3) have "b' = b" by (auto simp: distinct_map inj_on_def)
      moreover from a facts(1) dedup_open [OF d', of a p] have "a \<in> set (claims d')" "open_for p a" by auto
      ultimately show ?thesis using b b' facts(1) Some by (auto simp: supersede_def)
    qed
  qed
  have keys: "set (map fst gone) \<subseteq> c_id ` {x \<in> set (claims d). open_for p x}"
  proof
    fix i
    assume "i \<in> set (map fst gone)"
    then obtain a where "(i, a) \<in> set gone" by auto
    from pair [OF this] facts(1) show "i \<in> c_id ` {x \<in> set (claims d). open_for p x}" by auto
  qed
  have "length (filter (open_for p) (claims d')) = length (filter (\<lambda>x. open_for p x \<and> c_id x \<notin> set (map fst gone)) (claims d))"
    unfolding d' by (simp add: filter_map comp_def supersede_open)
  with length_filter_image [OF assms(3) dist keys] n
  have "length (filter (open_for p) (claims d)) = n + length (filter (open_for p) (claims d'))" by simp
  with rows show ?thesis by (simp add: d' comp_def)
qed

lemma dedup_separates:
  assumes "deduplicate_claims ties p d = (n, d')" and "reorders ties" and "distinct (map c_id (claims d))"
    and "a \<in> set (claims d')" "open_for p a" "b \<in> set (claims d')" "open_for p b" "a \<noteq> b"
  shows "a \<in> set (claims d) \<and> b \<in> set (claims d) \<and> \<not> similar_claims d a b"
proof -
  from dedup_run [OF assms(1-3)] obtain gone
    where res: "dedup_result d (\<lambda>a b. c_created_at b \<le> c_created_at a) (open_claims ties d p) [] gone"
      and d': "d' = d\<lparr>claims := map (supersede gone) (claims d)\<rparr>" by blast
  from dedup_open [OF d', of a p] dedup_open [OF d', of b p] assms(4-7)
  have "a \<in> set (claims d)" "c_id a \<notin> fst ` set gone" "b \<in> set (claims d)" "c_id b \<notin> fst ` set gone" by blast+
  with res open_claims_facts(1) [OF assms(2,3), of p] assms(5,7,8) show ?thesis
    unfolding dedup_result_def by simp
qed

lemma dedup_again:
  assumes "deduplicate_claims ties p d = (n, d')" and "reorders ties" and "reorders ties'"
    and "distinct (map c_id (claims d))"
  shows "deduplicate_claims ties' p d' = (0, d')"
proof -
  from dedup_run [OF assms(1,2,4)] obtain gone where d': "d' = d\<lparr>claims := map (supersede gone) (claims d)\<rparr>" by blast
  then have ids: "distinct (map c_id (claims d'))" using assms(4) by (simp add: comp_def)
  from dedup_run [OF surjective_pairing assms(3) ids, of p] obtain again
    where res: "dedup_result d' (\<lambda>a b. c_created_at b \<le> c_created_at a) (open_claims ties' d' p) [] again"
      and run: "fst (deduplicate_claims ties' p d') = length again"
        "snd (deduplicate_claims ties' p d') = d'\<lparr>claims := map (supersede again) (claims d')\<rparr>" by blast
  have "again = []"
  proof (rule ccontr)
    assume "again \<noteq> []"
    then obtain i a where ia: "(i, a) \<in> set again" by (cases again) auto
    with res obtain b where ab: "a \<in> set (open_claims ties' d' p)" "b \<in> set (open_claims ties' d' p)"
      "c_id a \<notin> fst ` set again" "c_id b = i" "similar_claims d' a b"
      unfolding dedup_result_def by auto
    with ia have "a \<noteq> b" by force
    with ab open_claims_facts(1) [OF assms(3) ids, of p] dedup_separates [OF assms(1,2,4), of a b]
    have "\<not> similar_claims d a b" by auto
    with ab(5) show False by (simp add: d' similar_claims_def)
  qed
  then show ?thesis using run by (simp add: prod_eq_iff)
qed

text \<open>
  Deduplication is idempotent, whatever order the database gives rows of one instant each time: after a run no
  two current claims of the person are near-duplicates, so another run closes nothing.
\<close>

theorem deduplicate_claims_idempotent:
  assumes "deduplicate_claims ties p d = (n, d')" and "reorders ties" and "reorders ties'"
    and "distinct (map c_id (claims d))"
  shows "deduplicate_claims ties' p d' = (0, d')"
  by (rule dedup_again [OF assms])

section \<open>Counter-evidence and deduplication\<close>

lemma has_match_supersede [simp]:
  "has_match (d\<lparr>claims := map (supersede gone) (claims d)\<rparr>) p q pr v st ids = has_match d p q pr v st ids"
proof -
  have "claims (d\<lparr>claims := map (supersede gone) (claims d)\<rparr>) = map (supersede gone) (claims d)" by simp
  then show ?thesis
    unfolding has_match_def scoped_claims_def by (simp only:) (rule ex_filter_map, simp add: claim_matches_def)
qed

text \<open>
  Deduplication hides counter-evidence for good: it asks neither for the values nor for the statuses
  of two claims, so of two contradicting claims whose texts have similar embeddings one is closed, and
  reconciling the same evidence again makes no claim that would show it.
\<close>

theorem dedup_hides_counter_evidence:
  assumes "reconcile_observations env p d = (n, d1)" and "deduplicate_claims ties p d1 = (m, d2)"
    and "reorders ties" and "distinct (map c_id (claims d1))"
    and "a \<in> set (claims d1)" and "b \<in> set (claims d1)" and "similar_claims d1 a b" and "a \<noteq> b"
  shows "\<not> (a \<in> set (claims d2) \<and> open_for p a \<and> b \<in> set (claims d2) \<and> open_for p b)
    \<and> reconcile_observations env' p d2 = (0, d2)"
proof -
  from dedup_run [OF assms(2-4)] obtain gone where d2: "d2 = d1\<lparr>claims := map (supersede gone) (claims d1)\<rparr>" by blast
  then have "matches_grow d1 d2" by (simp add: matches_grow_def)
  from reconcile_covered [OF covered_after [OF assms(1) this]] dedup_separates [OF assms(2-4)] assms(7,8)
  show ?thesis by blast
qed

section \<open>What the embeddings change\<close>

definition revectored :: "uuid set \<Rightarrow> observation \<Rightarrow> observation \<Rightarrow> bool" where
  "revectored ids x y = (y = x \<or> ob_id x \<in> ids \<and> (\<exists>v. y = x\<lparr>ob_embedding := Some v\<rparr>))"

definition embedded :: "observation \<Rightarrow> bool" where
  "embedded x = (\<exists>v. v \<noteq> [] \<and> ob_embedding x = Some v)"

lemma revectored_refl: "list_all2 (revectored ids) xs xs"
  by (simp add: revectored_def list.rel_refl)

lemma revectored_trans:
  assumes "list_all2 (revectored ids) xs ys" and "list_all2 (revectored ids) ys zs"
  shows "list_all2 (revectored ids) xs zs"
  by (rule list_all2_trans [OF _ assms]) (auto simp: revectored_def)

lemma revectored_mono: "list_all2 (revectored ids) xs ys \<Longrightarrow> ids \<subseteq> ids' \<Longrightarrow> list_all2 (revectored ids') xs ys"
  by (erule list_all2_mono) (auto simp: revectored_def)

lemma store_vectors_rows: "list_all2 (revectored (ob_id ` set xs)) table (store_vectors xs vs table)"
proof (induction xs vs table rule: store_vectors.induct)
  case (1 x xs v vs table)
  let ?t = "map (\<lambda>y. if ob_id y = ob_id x then y\<lparr>ob_embedding := Some v\<rparr> else y) table"
  have "list_all2 (revectored (ob_id ` set (x # xs))) table ?t"
    unfolding list_all2_map2 by (rule list.rel_refl_strong) (auto simp: revectored_def)
  moreover from 1 have "list_all2 (revectored (ob_id ` set (x # xs))) ?t (store_vectors xs vs ?t)"
    by (rule revectored_mono) auto
  ultimately show ?case unfolding store_vectors.simps by (rule revectored_trans)
qed (simp_all add: revectored_refl)

lemma store_vectors_embedded:
  assumes "length xs = length vs" and "\<forall>v \<in> set vs. v \<noteq> []" and "\<forall>y \<in> set table. ob_id y \<in> ids \<longrightarrow> embedded y"
  shows "\<forall>y \<in> set (store_vectors xs vs table). ob_id y \<in> ids \<union> ob_id ` set xs \<longrightarrow> embedded y"
  using assms
proof (induction xs vs arbitrary: table ids rule: list_induct2)
  case (Cons x xs v vs)
  let ?t = "map (\<lambda>y. if ob_id y = ob_id x then y\<lparr>ob_embedding := Some v\<rparr> else y) table"
  have t: "\<forall>y \<in> set ?t. ob_id y \<in> insert (ob_id x) ids \<longrightarrow> embedded y"
    using Cons.prems by (auto simp: embedded_def)
  from Cons.prems(1) have "\<forall>w \<in> set vs. w \<noteq> []" by simp
  from Cons.IH [OF this t] show ?case unfolding store_vectors.simps by auto
qed simp

lemma embed_batches_rows:
  "embed_batches ask bs table n = Inr (m, table') \<Longrightarrow>
   list_all2 (revectored (ob_id ` set (concat bs))) table table' \<and> m \<le> n + length (concat bs)"
proof (induction bs arbitrary: table n)
  case (Cons b bs)
  show ?case
  proof (cases "ask (map (\<lambda>x. take 8000 (ob_object_value x)) b)")
    case (Inl e)
    with Cons.IH [of table n] Cons.prems show ?thesis by (auto intro: revectored_mono)
  next
    case (Inr items)
    let ?t = "store_vectors b (map snd (sort_key fst items)) table"
    from Inr Cons.prems have "embed_batches ask bs ?t (n + length b) = Inr (m, table')" by (simp split: if_splits)
    from Cons.IH [OF this] have "list_all2 (revectored (ob_id ` set (concat (b # bs)))) ?t table'" "m \<le> n + length (concat (b # bs))"
      by (auto intro: revectored_mono)
    moreover have "list_all2 (revectored (ob_id ` set (concat (b # bs)))) table ?t"
      by (rule revectored_mono [OF store_vectors_rows]) auto
    ultimately show ?thesis using revectored_trans by blast
  qed
qed (simp add: revectored_refl)

lemma embed_batches_zero:
  "embed_batches ask bs table n = Inr (m, table') \<Longrightarrow> n \<le> m \<and> (m = n \<longrightarrow> (\<forall>b \<in> set bs. b \<noteq> []) \<longrightarrow> table' = table)"
proof (induction bs arbitrary: table n)
  case (Cons b bs)
  show ?case
  proof (cases "ask (map (\<lambda>x. take 8000 (ob_object_value x)) b)")
    case (Inr items)
    with Cons.prems have "embed_batches ask bs (store_vectors b (map snd (sort_key fst items)) table) (n + length b)
        = Inr (m, table')" by (simp split: if_splits)
    from Cons.IH [OF this] show ?thesis by (cases b) auto
  qed (use Cons in auto)
qed simp

text \<open>A service that answers every batch with one vector per text, none of them empty.\<close>

definition answers :: "(string list \<Rightarrow> string + (int \<times> real list) list) \<Rightarrow> bool" where
  "answers ask = (\<forall>texts. \<exists>items. ask texts = Inr items \<and> length items = length texts \<and> (\<forall>v \<in> snd ` set items. v \<noteq> []))"

lemma embed_batches_complete:
  assumes "answers ask" and "\<forall>y \<in> set table. ob_id y \<in> ids \<longrightarrow> embedded y"
  shows "\<exists>table'. embed_batches ask bs table n = Inr (n + length (concat bs), table')
    \<and> (\<forall>y \<in> set table'. ob_id y \<in> ids \<union> ob_id ` set (concat bs) \<longrightarrow> embedded y)"
  using assms(2)
proof (induction bs arbitrary: table n ids)
  case (Cons b bs)
  from assms(1) obtain items where items: "ask (map (\<lambda>x. take 8000 (ob_object_value x)) b) = Inr items"
    "length items = length b" "\<forall>v \<in> snd ` set items. v \<noteq> []"
    unfolding answers_def by (metis length_map)
  let ?t = "store_vectors b (map snd (sort_key fst items)) table"
  have "\<forall>y \<in> set ?t. ob_id y \<in> ids \<union> ob_id ` set b \<longrightarrow> embedded y"
    by (rule store_vectors_embedded) (use items Cons.prems in auto)
  from Cons.IH [OF this, of "n + length b"] items show ?case by (simp add: Un_assoc image_Un add.assoc)
qed simp

lemma concat_batches: "0 < n \<Longrightarrow> concat (batches n xs) = xs"
proof (induction n xs rule: batches.induct)
  case (1 n xs)
  then show ?case by (subst batches.simps) simp
qed

lemma length_batches: "b \<in> set (batches n xs) \<Longrightarrow> length b \<le> n"
proof (induction n xs rule: batches.induct)
  case (1 n xs)
  from "1.prems" have b: "\<not> (xs = [] \<or> n = 0)" "b \<in> set (take n xs # batches n (drop n xs))"
    by (subst (asm) batches.simps, auto split: if_splits)+
  with "1.IH" show ?case by auto
qed

lemma set_pending:
  "reorders ties \<Longrightarrow> set (pending_embeddings ties d p)
    = {x \<in> set (observations d). ob_subject_id x = Some p \<and> ob_object_value x \<noteq> [] \<and> \<not> embedded x}"
proof -
  have "(ob_embedding x = None \<or> ob_embedding x = Some []) = (\<not> embedded x)" for x
    by (cases "ob_embedding x") (auto simp: embedded_def)
  then show "reorders ties \<Longrightarrow> ?thesis" by (auto simp: pending_embeddings_def reorders_set)
qed

lemma batches_ne: "b \<in> set (batches n xs) \<Longrightarrow> b \<noteq> []"
proof (induction n xs rule: batches.induct)
  case (1 n xs)
  from "1.prems" have b: "\<not> (xs = [] \<or> n = 0)" "b \<in> set (take n xs # batches n (drop n xs))"
    by (subst (asm) batches.simps, auto split: if_splits)+
  with "1.IH" show ?case by auto
qed

lemma embed_frame:
  assumes "embed_observations client ties p d = Inr (n, d')"
  shows "\<exists>table. d' = d\<lparr>observations := table\<rparr> \<and> n \<le> length (pending_embeddings ties d p) \<and> (n = 0 \<longrightarrow> d' = d)
    \<and> list_all2 (revectored (ob_id ` set (pending_embeddings ties d p))) (observations d) table"
proof (cases client)
  case No_Client
  with assms show ?thesis
    by (intro exI [of _ "observations d"]) (simp add: embed_observations_def revectored_refl)
next
  case (Embed_Client ask)
  let ?todo = "pending_embeddings ties d p"
  from assms Embed_Client obtain table
    where run: "embed_batches ask (batches 50 ?todo) (observations d) 0 = Inr (n, table)"
      and d': "d' = d\<lparr>observations := table\<rparr>"
    by (auto simp: embed_observations_def split: sum.splits)
  from embed_batches_rows [OF run] embed_batches_zero [OF run] batches_ne [of _ 50 ?todo] d'
  show ?thesis by (intro exI [of _ table]) (simp add: concat_batches)
qed

text \<open>
  Embedding changes vectors only: every observation keeps all its other columns, and only
  observations of the person that had a text and no vector get one. When the service answers, every one of them
  is counted and embedded, and nothing is left for the next run.
\<close>

theorem embeddings_complete:
  assumes "reorders ties" and "distinct (map ob_id (observations d))"
    and "embed_observations client ties p d = Inr (n, d')"
  shows "d' = d\<lparr>observations := observations d'\<rparr> \<and> n \<le> length (pending_embeddings ties d p)
    \<and> list_all2 (revectored (ob_id ` set (pending_embeddings ties d p))) (observations d) (observations d')
    \<and> (\<forall>ask ties'. client = Embed_Client ask \<and> answers ask \<and> reorders ties' \<longrightarrow>
         n = length (pending_embeddings ties d p) \<and> pending_embeddings ties' d' p = [])"
proof (cases client)
  case No_Client
  with assms(3) show ?thesis by (auto simp: embed_observations_def revectored_refl)
next
  case (Embed_Client ask)
  let ?todo = "pending_embeddings ties d p"
  have bs: "concat (batches 50 ?todo) = ?todo" by (simp add: concat_batches)
  from assms(3) Embed_Client obtain table
    where run: "embed_batches ask (batches 50 ?todo) (observations d) 0 = Inr (n, table)"
      and d': "d' = d\<lparr>observations := table\<rparr>"
    by (auto simp: embed_observations_def split: sum.splits)
  from embed_batches_rows [OF run]
  have rows: "list_all2 (revectored (ob_id ` set ?todo)) (observations d) table" and le: "n \<le> length ?todo"
    by (simp_all add: bs)
  have "n = length ?todo \<and> pending_embeddings ties' d' p = []" if a: "answers ask" and t': "reorders ties'" for ties'
  proof -
    from embed_batches_complete [OF a, of "observations d" "{}" "batches 50 ?todo" 0] run
    have n: "n = length ?todo" and fin: "\<forall>y \<in> set table. ob_id y \<in> ob_id ` set ?todo \<longrightarrow> embedded y"
      by (simp_all add: bs)
    have "embedded y" if y: "y \<in> set table" "ob_subject_id y = Some p" "ob_object_value y \<noteq> []" for y
    proof -
      from y(1) rows obtain x where x: "x \<in> set (observations d)" "revectored (ob_id ` set ?todo) x y"
        by (metis list_all2_conv_all_nth in_set_conv_nth)
      show ?thesis
      proof (cases "y = x")
        case True
        with x y show ?thesis using fin set_pending [OF assms(1), of d p] by blast
      next
        case False
        with x(2) obtain v where "ob_id x \<in> ob_id ` set ?todo" "y = x\<lparr>ob_embedding := Some v\<rparr>"
          unfolding revectored_def by blast
        with fin y(1) show ?thesis by simp
      qed
    qed
    then have "set (pending_embeddings ties' d' p) = {}" unfolding set_pending [OF t'] d' by auto
    with n show ?thesis by simp
  qed
  with rows le Embed_Client show ?thesis by (auto simp: d')
qed

section \<open>Samples\<close>

theorem embeddings_complete_witness:
  "\<exists>n d'. embed_observations (Embed_Client (\<lambda>texts. Inr (map (\<lambda>t. (0, [1])) texts))) (\<lambda>xs. xs) ''p1'' observed_db = Inr (n, d')
     \<and> n = length (pending_embeddings (\<lambda>xs. xs) observed_db ''p1'') \<and> pending_embeddings rev d' ''p1'' = []"
proof -
  let ?ask = "\<lambda>texts. Inr (map (\<lambda>t. (0 :: int, [1 :: real])) texts)"
  have a: "answers ?ask" by (auto simp: answers_def)
  let ?bs = "batches 50 (pending_embeddings (\<lambda>xs. xs) observed_db ''p1'')"
  have "\<forall>y \<in> set (observations observed_db). ob_id y \<in> {} \<longrightarrow> embedded y" by simp
  from embed_batches_complete [OF a this, of ?bs 0] obtain table
    where "embed_batches ?ask ?bs (observations observed_db) 0 = Inr (0 + length (concat ?bs), table)" by blast
  then obtain n d' where run: "embed_observations (Embed_Client ?ask) (\<lambda>xs. xs) ''p1'' observed_db = Inr (n, d')"
    by (simp only: embed_observations_def embed_service.case sum.case prod.case)
  have ids: "distinct (map ob_id (observations observed_db))" by (simp add: observed_db_def sample_observation_def)
  have r: "reorders (\<lambda>xs. xs)" "reorders rev" by (simp_all add: reorders_def)
  from embeddings_complete [OF r(1) ids run] a r(2) have "n = length (pending_embeddings (\<lambda>xs. xs) observed_db ''p1'')
    \<and> pending_embeddings rev d' ''p1'' = []" by blast
  with run show ?thesis by blast
qed

theorem cosine_similarity_laws_witness: "cosine_similarity [3, 4] [6, 8] = 1"
  using cosine_similarity_laws [of "[3, 4]" "[]" 2] by simp

text \<open>Two observations that contradict each other and have the same embedding.\<close>

definition similar_db :: db where
  "similar_db = empty_db\<lparr>observations := map (\<lambda>x. x\<lparr>ob_embedding := Some [1]\<rparr>) (observations observed_db)\<rparr>"

definition similar_run :: db where
  "similar_run = snd (reconcile_observations sample_env ''p1'' similar_db)"

lemma similar_run_claims:
  "map (\<lambda>c. (c_id c, c_predicate c, c_opportunity_id c, c_status c, c_observation_ids c)) (claims similar_run)
   = [(''c'', ''role'', None, ''contradicted'', [''a'']), (''cx'', ''role'', None, ''contradicted'', [''b''])]"
proof -
  have w: "strip ''CTO'' = ''CTO''" "strip ''CEO'' = ''CEO''" by code_simp+
  show ?thesis
    by (simp add: similar_run_def reconcile_observations_def person_observations_def by_predicate_def
      reconcile_group_def similar_db_def observed_db_def empty_db_def sample_observation_def fromkeys_def w
      sorted_desc_def observation_strength_def sample_env_def days_between_def reconcile_winner_def
      claim_observation_def find_matching_claim_def scoped_claims_def claim_matches_def
      close_superseded_claims_def store_claim_def link_claim_observations_def Let_def)
qed

lemma similar_run_ids: "distinct (map c_id (claims similar_run))"
  using arg_cong [OF similar_run_claims, of "map fst"] by (simp add: comp_def)

lemma similar_run_pair:
  "\<exists>a b. a \<in> set (claims similar_run) \<and> b \<in> set (claims similar_run) \<and> similar_claims similar_run a b \<and> a \<noteq> b
     \<and> c_status a = ''contradicted'' \<and> c_status b = ''contradicted''"
proof -
  from similar_run_claims obtain a b where cs: "claims similar_run = [a, b]"
    and ab: "c_id a = ''c''" "c_id b = ''cx''" "c_predicate a = c_predicate b" "c_opportunity_id a = c_opportunity_id b"
      "c_observation_ids a = [''a'']" "c_observation_ids b = [''b'']" "c_status a = ''contradicted''" "c_status b = ''contradicted''"
    by (auto simp: map_eq_Cons_conv)
  have "observations similar_run = observations similar_db"
    using reconcile_covers [where env = sample_env and p = "''p1''" and d = similar_db, OF surjective_pairing]
    by (simp add: matches_grow_def similar_run_def)
  then have "claim_embedding similar_run a = Some [1]" "claim_embedding similar_run b = Some [1]"
    by (simp_all add: claim_embedding_def ab similar_db_def observed_db_def empty_db_def sample_observation_def get_row_def)
  then have "similar_claims similar_run a b"
    by (simp add: similar_claims_def ab cosine_self duplicate_threshold_def)
  with cs ab show ?thesis by (intro exI [of _ a] exI [of _ b]) auto
qed

lemma reorders_id: "reorders (\<lambda>xs. xs)" by (simp add: reorders_def)

theorem deduplicate_claims_sound_witness:
  "map c_id (claims (snd (deduplicate_claims (\<lambda>xs. xs) ''p1'' similar_run))) = [''c'', ''cx'']"
proof -
  have "map c_id (claims similar_run) = [''c'', ''cx'']"
    using arg_cong [OF similar_run_claims, of "map fst"] by (simp add: comp_def)
  with deduplicate_claims_sound [OF surjective_pairing reorders_id similar_run_ids] show ?thesis by metis
qed

theorem deduplicate_claims_idempotent_witness:
  "fst (deduplicate_claims rev ''p1'' (snd (deduplicate_claims (\<lambda>xs. xs) ''p1'' similar_run))) = 0"
proof -
  have "reorders rev" by (simp add: reorders_def)
  from deduplicate_claims_idempotent [OF surjective_pairing reorders_id this similar_run_ids] show ?thesis by simp
qed

theorem dedup_hides_counter_evidence_witness:
  "\<exists>a b. a \<in> set (claims similar_run) \<and> b \<in> set (claims similar_run) \<and> a \<noteq> b
     \<and> c_status a = ''contradicted'' \<and> c_status b = ''contradicted''
     \<and> \<not> (a \<in> set (claims (snd (deduplicate_claims (\<lambda>xs. xs) ''p1'' similar_run))) \<and> open_for ''p1'' a
          \<and> b \<in> set (claims (snd (deduplicate_claims (\<lambda>xs. xs) ''p1'' similar_run))) \<and> open_for ''p1'' b)
     \<and> fst (reconcile_observations sample_env ''p1'' (snd (deduplicate_claims (\<lambda>xs. xs) ''p1'' similar_run))) = 0"
proof -
  have "reconcile_observations sample_env ''p1'' similar_db
      = (fst (reconcile_observations sample_env ''p1'' similar_db), similar_run)" by (simp add: similar_run_def)
  from dedup_hides_counter_evidence [OF this surjective_pairing reorders_id similar_run_ids] similar_run_pair
  show ?thesis by (metis fst_conv)
qed

end
