(* ===== verification/Process_Job.thy ===== *)
theory Process_Job
  imports Claim_Dedup Discovery_Jobs Privacy_Policy
begin

text \<open>
  The processing of a candidate, \<^verbatim>\<open>app/processing/pipeline_job.py\<close>: reconciliation,
  embeddings and deduplication in one transaction behind a row of the job ledger.
\<close>

section \<open>The job\<close>

text \<open>
  The environment of a run: the key and the embedding service, the orders the database gives rows of
  one instant, what reconciliation needs, and the exceptions of a malformed id and of a batch
  whose answer has another length.
\<close>

record process_env =
  pc_store :: store_env
  pc_key :: string
  pc_ask :: "string list \<Rightarrow> string + (int \<times> real list) list"
  pc_claim_ties :: "claim list \<Rightarrow> claim list"
  pc_observation_ties :: "observation list \<Rightarrow> observation list"
  pc_reconcile :: run_env
  pc_raised :: "string \<Rightarrow> exc"
  pc_bad_uuid :: exc

definition embed_client :: "process_env \<Rightarrow> person \<Rightarrow> embed_service" where
  "embed_client env p =
     (if pc_key env = [] \<or> \<not> ai_allowed (external_ai_use_decision p ''embeddings'') then No_Client
      else Embed_Client (pc_ask env))"

definition process_steps :: "process_env \<Rightarrow> person \<Rightarrow> db \<Rightarrow> exc + ((nat \<times> nat \<times> nat) \<times> db)" where
  "process_steps env p d =
     (case reconcile_observations (pc_reconcile env) (p_id p) d of (created, d1) \<Rightarrow>
        (case embed_observations (embed_client env p) (pc_observation_ties env) (p_id p) d1 of
           Inl msg \<Rightarrow> Inl (pc_raised env msg)
         | Inr (vectors, d2) \<Rightarrow>
             (case deduplicate_claims (pc_claim_ties env) (p_id p) d2 of
                (deduped, d3) \<Rightarrow> Inr ((created, vectors, deduped), d3))))"

definition process_summary :: "string \<Rightarrow> nat \<times> nat \<times> nat \<Rightarrow> pyval dict" where
  "process_summary person_id n =
     [(''person_id'', PStr person_id), (''claims_created'', PInt (int (fst n))),
      (''embeddings_generated'', PInt (int (fst (snd n)))), (''claims_deduped'', PInt (int (snd (snd n))))]"

definition process_failure :: "string \<Rightarrow> exc \<Rightarrow> pyval dict" where
  "process_failure person_id e =
     (case classify_connector_failure e of (kind, retryable) \<Rightarrow>
        [(''status'', PStr ''failed''), (''error'', PStr (x_text e)), (''person_id'', PStr person_id),
         (''failure_kind'', PStr (failure_key kind)), (''retryable'', PBool retryable)])"

definition candidate_missing :: "string \<Rightarrow> pyval dict" where
  "candidate_missing person_id =
     [(''status'', PStr ''failed''), (''error'', PStr ''person_not_found''), (''person_id'', PStr person_id),
      (''failure_kind'', PStr ''permanent''), (''retryable'', PBool False)]"

definition process_person :: "process_env \<Rightarrow> string \<Rightarrow> string option \<Rightarrow> int \<Rightarrow> world \<Rightarrow> (exc + pyval dict) \<times> world" where
  "process_person env person_id ledger attempt w =
     (let now = sv_now (pc_store env);
          failed = (\<lambda>e. (Inl e, set_job now ledger
            (failed_update ''processing'' attempt (x_text e) (process_failure person_id e)) w))
      in case parse_uuid person_id of
           None \<Rightarrow> failed (pc_bad_uuid env)
         | Some pid \<Rightarrow>
             (case get_row p_id (persons (w_db w)) pid of
                None \<Rightarrow> (Inr [(''error'', PStr ''person_not_found''), (''person_id'', PStr person_id)],
                    set_job now ledger (failed_update ''processing'' attempt ''person_not_found''
                      (candidate_missing person_id)) w)
              | Some p \<Rightarrow>
                  (case process_steps env p (w_db w) of
                     Inl e \<Rightarrow> failed e
                   | Inr (n, d) \<Rightarrow> (Inr (process_summary person_id n), set_job now ledger
                       (progress_update ''succeeded'' ''complete'' (Some attempt) (Some (process_summary person_id n)))
                       (w\<lparr>w_db := d\<rparr>)))))"

definition process_candidate_job :: "process_env \<Rightarrow> string \<Rightarrow> string option \<Rightarrow> world \<Rightarrow> (exc + pyval dict) \<times> world" where
  "process_candidate_job env person_id job_id w0 =
     (case ledger_job (pc_store env) job_id ''process_candidate'' w0 of
        (ledger, w) \<Rightarrow>
          (case begin_job (sv_now (pc_store env)) ledger ''processing'' w of
             (Inl row, w1) \<Rightarrow> (Inr (terminal_result w1 row), w1)
           | (Inr attempt, w1) \<Rightarrow> process_person env person_id ledger attempt w1))"

section \<open>What reconciliation touches\<close>

definition claims_grow :: "db \<Rightarrow> db \<Rightarrow> bool" where
  "claims_grow d d' = (\<exists>cs ls. d' = d\<lparr>claims := cs, claim_links := claim_links d @ ls\<rparr>
     \<and> prefix (map c_id (claims d)) (map c_id cs))"

lemma claims_grow_refl [simp]: "claims_grow d d"
  unfolding claims_grow_def by (intro exI [of _ "claims d"] exI [of _ "[]"]) simp

lemma claims_growI: "prefix (map c_id (claims d)) (map c_id cs) \<Longrightarrow> claims_grow d (d\<lparr>claims := cs, claim_links := claim_links d @ ls\<rparr>)"
  unfolding claims_grow_def by blast

lemma claims_grow_trans:
  assumes "claims_grow d d'" and "claims_grow d' d''"
  shows "claims_grow d d''"
proof -
  from assms obtain cs ls cs' ls' where d': "d' = d\<lparr>claims := cs, claim_links := claim_links d @ ls\<rparr>"
    and pre: "prefix (map c_id (claims d)) (map c_id cs)" "prefix (map c_id cs) (map c_id cs')"
    and d'': "d'' = d'\<lparr>claims := cs', claim_links := claim_links d' @ ls'\<rparr>"
    unfolding claims_grow_def by auto
  from d' d'' have "d'' = d\<lparr>claims := cs', claim_links := claim_links d @ (ls @ ls')\<rparr>" by simp
  then show ?thesis using claims_growI [OF prefix_order.trans [OF pre]] by metis
qed

lemma claims_grow_store: "claims_grow d (store_claim c d)"
  unfolding claims_grow_def by (auto simp: store_claim_def link_claim_observations_def)

lemma claims_grow_close:
  assumes "claims_grow d d'"
  shows "claims_grow d (close_superseded_claims cs r pr d')"
proof -
  define u where "u c = (if c_id c \<notin> set (map c_id cs) \<or> c_id c = c_id r \<or> c_predicate c \<noteq> pr
      \<or> c_supersession_id c \<noteq> None then c
    else c\<lparr>c_supersession_id := Some (c_id r), c_valid_end := Some (c_valid_start r)\<rparr>)" for c :: claim
  have close: "close_superseded_claims cs r pr d' = d'\<lparr>claims := map u (claims d')\<rparr>"
    by (simp add: close_superseded_claims_def u_def)
  have "map c_id (map u xs) = map c_id xs" for xs by (simp add: u_def comp_def)
  moreover from assms obtain ks ls where d': "d' = d\<lparr>claims := ks, claim_links := claim_links d @ ls\<rparr>"
    and "prefix (map c_id (claims d)) (map c_id ks)" unfolding claims_grow_def by blast
  ultimately have "claims_grow d (d\<lparr>claims := map u ks, claim_links := claim_links d @ ls\<rparr>)"
    by (intro claims_growI) metis
  moreover have "close_superseded_claims cs r pr d' = d\<lparr>claims := map u ks, claim_links := claim_links d @ ls\<rparr>"
    unfolding close by (rule db.equality) (simp_all add: d')
  ultimately show ?thesis by simp
qed

lemma claim_observation_grows: "claims_grow (fst s) (fst (claim_observation env p q pr st cs x s))"
  by (auto simp: claim_observation_def case_prod_unfold claims_grow_store)

lemma losers_grows: "claims_grow (fst s) (fst (reconcile_losers env p q pr xs s))"
proof (induction env p q pr xs s rule: reconcile_losers.induct)
  case (2 env p q pr x xs s)
  then show ?case by (auto intro: claims_grow_trans [OF claim_observation_grows])
qed simp

lemma group_grows: "claims_grow (fst s) (fst (reconcile_group env p g s))"
proof -
  have "claims_grow (fst s) (fst (reconcile_winner env p q pr cs x s))" for q pr cs x
    by (auto simp: reconcile_winner_def case_prod_unfold Let_def claims_grow_close claims_grow_store)
  moreover have "claims_grow (fst s) (fst (reconcile_supported env p q pr cs xs s))" for q pr cs xs
    by (auto simp: reconcile_supported_def case_prod_unfold Let_def claims_grow_close claims_grow_store)
  moreover have "claims_grow (fst s) (fst (reconcile_losers env p q pr ys (reconcile_winner env p q pr cs x s)))"
    for q pr cs x ys using claims_grow_trans [OF calculation(1) losers_grows] .
  ultimately show ?thesis
    by (simp add: reconcile_group_def case_prod_unfold Let_def claim_observation_grows)
qed

lemma reconcile_grows:
  assumes "reconcile_observations env p d = (n, d')"
  shows "claims_grow d d'"
proof -
  have fold: "claims_grow (fst s) (fst (foldl (\<lambda>s g. reconcile_group env p g s) s gs))" for gs s
  proof (induction gs arbitrary: s)
    case (Cons g gs)
    from claims_grow_trans [OF group_grows Cons.IH] show ?case by simp
  qed simp
  show ?thesis
  proof (cases "person_observations d p = []")
    case True
    with assms show ?thesis by (simp add: reconcile_observations_def)
  next
    case False
    with assms have "d' = fst (foldl (\<lambda>s g. reconcile_group env p g s) (d, 0) (by_predicate (person_observations d p)))"
      by (auto simp: reconcile_observations_def Let_def split: prod.splits)
    with fold [of "(d, 0)"] show ?thesis by simp
  qed
qed

section \<open>Embeddings do not matter to reconciliation\<close>

definition erase :: "observation \<Rightarrow> observation" where
  "erase x = x\<lparr>ob_embedding := None\<rparr>"

lemma erase_simps [simp]:
  "ob_id (erase x) = ob_id x" "ob_subject_id (erase x) = ob_subject_id x" "ob_predicate (erase x) = ob_predicate x"
  "ob_opportunity_id (erase x) = ob_opportunity_id x" "ob_object_value (erase x) = ob_object_value x"
  "ob_observed_at (erase x) = ob_observed_at x"
  by (simp_all add: erase_def)

lemma revectored_erase: "list_all2 (revectored ids) xs ys \<Longrightarrow> map erase xs = map erase ys"
  by (induction rule: list_all2_induct) (auto simp: revectored_def erase_def)

lemma insort_key_map: "insort_key f (g x) (map g xs) = map g (insort_key (\<lambda>x. f (g x)) x xs)"
  by (induction xs) auto

lemma sort_key_map: "sort_key f (map g xs) = map g (sort_key (\<lambda>x. f (g x)) xs)"
  by (induction xs) (simp_all add: insort_key_map sort_key_def)

lemma group_insert_map:
  "group_insert k (erase x) (map (\<lambda>(k, xs). (k, map erase xs)) gs)
   = map (\<lambda>(k, xs). (k, map erase xs)) (group_insert k x gs)"
  by (induction k x gs rule: group_insert.induct) auto

lemma by_predicate_erase: "by_predicate (map erase xs) = map (\<lambda>(k, xs). (k, map erase xs)) (by_predicate xs)"
proof (induction xs rule: rev_induct)
  case (snoc x xs)
  then show ?case by (simp add: by_predicate_def group_insert_map)
qed (simp add: by_predicate_def)

lemma person_observations_erase:
  "person_observations (d\<lparr>observations := map erase (observations d)\<rparr>) p = map erase (person_observations d p)"
  by (simp add: person_observations_def filter_map comp_def sort_key_map rev_map)

lemma covered_erase: "covered d p (k, map erase xs) = covered d p (k, xs)"
  by (cases xs) (auto simp: covered_def contradictory_def comp_def)

lemma covered_revectored:
  assumes "map erase (observations d') = map erase (observations d)"
    and "\<forall>g \<in> set (by_predicate (person_observations d p)). covered d' p g"
  shows "\<forall>g \<in> set (by_predicate (person_observations d' p)). covered d' p g"
proof -
  have "map erase (person_observations d' p) = map erase (person_observations d p)"
    using person_observations_erase [of d' p] person_observations_erase [of d p] assms(1)
    by (simp add: person_observations_def)
  then have groups: "map (\<lambda>(k, xs). (k, map erase xs)) (by_predicate (person_observations d' p))
      = map (\<lambda>(k, xs). (k, map erase xs)) (by_predicate (person_observations d p))"
    by (metis by_predicate_erase)
  have "\<exists>g0 \<in> set (by_predicate (person_observations d p)). fst g = fst g0 \<and> map erase (snd g) = map erase (snd g0)"
    if "g \<in> set (by_predicate (person_observations d' p))" for g
  proof -
    have "(fst g, map erase (snd g)) \<in> (\<lambda>(k, xs). (k, map erase xs)) ` set (by_predicate (person_observations d' p))"
      using that by force
    then have "(fst g, map erase (snd g)) \<in> (\<lambda>(k, xs). (k, map erase xs)) ` set (by_predicate (person_observations d p))"
      using arg_cong [OF groups, of set] unfolding set_map by simp
    then show ?thesis by force
  qed
  then show ?thesis using assms(2) covered_erase by (metis prod.collapse)
qed

section \<open>One run of the three steps\<close>

definition ids_of :: "db \<Rightarrow> uuid \<Rightarrow> uuid set" where
  "ids_of d p = ob_id ` {x \<in> set (observations d). ob_subject_id x = Some p}"

text \<open>What processing does to the database: claims are added or closed, vectors are added, all evidence is covered.\<close>

definition processed :: "uuid \<Rightarrow> db \<Rightarrow> db \<Rightarrow> bool" where
  "processed p d d' =
     ((\<exists>cs ls table. d' = d\<lparr>claims := cs, claim_links := claim_links d @ ls, observations := table\<rparr>
         \<and> prefix (map c_id (claims d)) (map c_id cs) \<and> list_all2 (revectored (ids_of d p)) (observations d) table)
      \<and> (\<forall>g \<in> set (by_predicate (person_observations d' p)). covered d' p g))"

lemma supersede_covered:
  "covered (d\<lparr>claims := map (supersede gone) (claims d)\<rparr>) p g = covered d p g"
  by (auto simp: covered_def split: prod.split)

lemma process_steps_effect:
  assumes "process_steps env p d = Inr (n, d')" and "reorders (pc_observation_ties env)"
  shows "processed (p_id p) d d'"
proof -
  let ?p = "p_id p"
  from assms(1) obtain a d1 b d2 c where r: "reconcile_observations (pc_reconcile env) ?p d = (a, d1)"
    and e: "embed_observations (embed_client env p) (pc_observation_ties env) ?p d1 = Inr (b, d2)"
    and k: "deduplicate_claims (pc_claim_ties env) ?p d2 = (c, d')"
    by (auto simp: process_steps_def split: prod.splits sum.splits)
  from reconcile_grows [OF r] obtain cs ls where d1: "d1 = d\<lparr>claims := cs, claim_links := claim_links d @ ls\<rparr>"
    and pre: "prefix (map c_id (claims d)) (map c_id cs)" unfolding claims_grow_def by blast
  from embed_frame [OF e] obtain table where d2: "d2 = d1\<lparr>observations := table\<rparr>"
    and rows: "list_all2 (revectored (ob_id ` set (pending_embeddings (pc_observation_ties env) d1 ?p))) (observations d1) table"
    by blast
  from dedup_frame [OF k] obtain gone where d': "d' = d2\<lparr>claims := map (supersede gone) (claims d2)\<rparr>" .
  have "ob_id ` set (pending_embeddings (pc_observation_ties env) d1 ?p) \<subseteq> ids_of d ?p"
    unfolding set_pending [OF assms(2)] ids_of_def d1 by auto
  from revectored_mono [OF rows this] have rows: "list_all2 (revectored (ids_of d ?p)) (observations d) table"
    by (simp add: d1)
  have "map c_id (map (supersede gone) cs) = map c_id cs" by simp
  with pre have pre: "prefix (map c_id (claims d)) (map c_id (map (supersede gone) cs))" by metis
  have eq: "d' = d\<lparr>claims := map (supersede gone) cs, claim_links := claim_links d @ ls, observations := table\<rparr>"
    by (rule db.equality) (simp_all add: d' d2 d1)
  have claims: "covered d2 ?p g = covered d1 ?p g" for g
    by (auto simp: covered_def has_match_def scoped_claims_def d2 split: prod.split)
  have "\<forall>g \<in> set (by_predicate (person_observations d1 ?p)). covered d' ?p g"
    using covered_after [OF r matches_grow_refl] unfolding d' supersede_covered claims .
  moreover have "map erase (observations d') = map erase (observations d1)"
    using revectored_erase [OF rows] by (simp add: d' d2 d1)
  ultimately have "\<forall>g \<in> set (by_predicate (person_observations d' ?p)). covered d' ?p g"
    using covered_revectored by blast
  with eq pre rows show ?thesis unfolding processed_def by blast
qed

text \<open>
  Processing the same evidence again adds nothing: a second run makes no claim, whatever its clock,
  identifiers and embedding service, and when it generates no vector either, it closes no claim and
  leaves the database as it was.
\<close>

theorem processing_idempotent:
  assumes "process_steps env p d = Inr ((a, b, c), d')" and "process_steps env' p' d' = Inr ((a', b', c'), d'')"
    and "p_id p' = p_id p" and "reorders (pc_observation_ties env)"
    and "reorders (pc_claim_ties env)" and "reorders (pc_claim_ties env')" and "distinct (map c_id (claims d'))"
  shows "a' = 0 \<and> (b' = 0 \<longrightarrow> c' = 0 \<and> d'' = d')"
proof -
  let ?p = "p_id p"
  from process_steps_effect [OF assms(1,4)] have "reconcile_observations (pc_reconcile env') ?p d' = (0, d')"
    by (auto simp: processed_def intro: reconcile_covered)
  note again = assms(2) [unfolded process_steps_def assms(3) this prod.case]
  then obtain d2 where a': "a' = 0"
    and e: "embed_observations (embed_client env' p') (pc_observation_ties env') ?p d' = Inr (b', d2)"
    and k: "deduplicate_claims (pc_claim_ties env') ?p d2 = (c', d'')"
    by (auto split: prod.splits sum.splits)
  from assms(1) obtain d1 where first: "deduplicate_claims (pc_claim_ties env) ?p d1 = (c, d')"
    by (auto simp: process_steps_def split: prod.splits sum.splits)
  from dedup_frame [OF first] obtain gone where "d' = d1\<lparr>claims := map (supersede gone) (claims d1)\<rparr>" .
  then have "map c_id (claims d') = map c_id (claims d1)" by (simp add: comp_def)
  with assms(7) have "deduplicate_claims (pc_claim_ties env') ?p d' = (0, d')"
    by (intro dedup_again [OF first assms(5,6)]) metis
  with a' k embed_frame [OF e] show ?thesis by auto
qed

section \<open>The job as a whole\<close>

lemma set_job_frame: "set_job now j u w = w\<lparr>w_jobs := w_jobs (set_job now j u w)\<rparr>"
  by (simp add: set_job_def split: option.split)

lemma ledger_start:
  assumes "ledger_job se job_id kind w0 = (l, w)" and "begin_job now l phase w = (x, w1)" and "ledger_ok (w_jobs w0)"
  shows "ledger_ok (w_jobs w1) \<and> w1 = w0\<lparr>w_jobs := w_jobs w1\<rparr>"
proof -
  from assms(1,3) have "ledger_ok (w_jobs w) \<and> w = w0\<lparr>w_jobs := w_jobs w\<rparr>"
    by (auto simp: ledger_job_def create_job_def ledger_ok_def job_ok_def Let_def split: option.splits)
  moreover have "w1 = w\<lparr>w_jobs := w_jobs w1\<rparr>"
    using assms(2) by (auto simp: begin_job_def split: option.splits prod.splits if_splits)
  moreover have "ledger_ok (w_jobs w1)" using begin_job_ledger [of w now l phase] calculation(1) assms(2) by simp
  ultimately show ?thesis by (metis world.surjective world.update_convs(3))
qed

lemma process_person_cases:
  assumes "process_person env person_id l attempt w = (res, w')"
  obtains (kept) u where "w' = set_job (sv_now (pc_store env)) l u w"
  | (done_) pid p n d u where "parse_uuid person_id = Some pid" and "get_row p_id (persons (w_db w)) pid = Some p"
      and "process_steps env p (w_db w) = Inr (n, d)" and "res = Inr (process_summary person_id n)"
      and "w' = set_job (sv_now (pc_store env)) l u (w\<lparr>w_db := d\<rparr>)"
  using assms by (auto simp: process_person_def Let_def split: option.splits sum.splits prod.splits)

lemma process_job_run:
  assumes "process_candidate_job env person_id job_id w = (res, w')" and "ledger_ok (w_jobs w)"
    and "reorders (pc_observation_ties env)"
  shows "ledger_ok (w_jobs w') \<and> w' = w\<lparr>w_db := w_db w', w_jobs := w_jobs w'\<rparr>
    \<and> (w_db w' = w_db w \<or> (\<exists>pid n. parse_uuid person_id = Some pid \<and> res = Inr (process_summary person_id n)
         \<and> processed pid (w_db w) (w_db w')
         \<and> (\<forall>x \<in> set (observations (w_db w')). ob_subject_id x = Some pid \<longrightarrow>
              (\<exists>c \<in> set (claims (w_db w')). c_subject_id c = Some pid \<and> c_opportunity_id c = ob_opportunity_id x
                 \<and> c_predicate c = ob_predicate x \<and> strip (c_object_value c) = strip (ob_object_value x)
                 \<and> ob_id x \<in> set (c_observation_ids c)))))"
proof -
  obtain l w0 where l: "ledger_job (pc_store env) job_id ''process_candidate'' w = (l, w0)" by force
  obtain x w1 where b: "begin_job (sv_now (pc_store env)) l ''processing'' w0 = (x, w1)" by force
  from ledger_start [OF l b assms(2)] obtain jobs where ok: "ledger_ok jobs" and w1: "w1 = w\<lparr>w_jobs := jobs\<rparr>" by metis
  show ?thesis
  proof (cases x)
    case (Inl row)
    with assms(1) l b have "w' = w1" by (simp add: process_candidate_job_def)
    with ok w1 show ?thesis by simp
  next
    case (Inr attempt)
    with assms(1) l b have "process_person env person_id l attempt w1 = (res, w')"
      by (simp add: process_candidate_job_def)
    then show ?thesis
    proof (cases rule: process_person_cases)
      case (kept u)
      then show ?thesis using set_job_ledger [of w1] set_job_frame [of _ l u w1] ok w1 by simp
    next
      case (done_ pid p n d u)
      have "p_id p = pid" using done_(2) get_row_key by fast
      with process_steps_effect [OF done_(3) assms(3)] have eff: "processed pid (w_db w) d" by (simp add: w1)
      then have "\<forall>g \<in> set (by_predicate (person_observations d pid)). covered d pid g" by (simp add: processed_def)
      note backs = covered_backs [OF this]
      have "ledger_ok (w_jobs w')" and "w_db w' = d" and "w' = w\<lparr>w_db := w_db w', w_jobs := w_jobs w'\<rparr>"
        using done_(5) set_job_ledger [of "w1\<lparr>w_db := d\<rparr>"] set_job_frame [of _ l u "w1\<lparr>w_db := d\<rparr>"] ok w1 by simp_all
      with backs eff done_(1,4) show ?thesis by blast
    qed
  qed
qed

text \<open>
  Processing commits all of its steps or none: the ledger stays sound, and either the database is as it
  was, or the job returns its summary, no claim was lost, only vectors of the person's observations
  were added, all other tables are unchanged, and every observation of the person backs a claim of its
  own predicate, deal and value.
\<close>

theorem process_job_effects:
  assumes "process_candidate_job env person_id job_id w = (res, w')" and "ledger_ok (w_jobs w)"
    and "reorders (pc_observation_ties env)"
  shows "ledger_ok (w_jobs w') \<and> w' = w\<lparr>w_db := w_db w', w_jobs := w_jobs w'\<rparr>
    \<and> (w_db w' = w_db w \<or> (\<exists>pid n. parse_uuid person_id = Some pid \<and> res = Inr (process_summary person_id n)
         \<and> processed pid (w_db w) (w_db w')
         \<and> (\<forall>x \<in> set (observations (w_db w')). ob_subject_id x = Some pid \<longrightarrow>
              (\<exists>c \<in> set (claims (w_db w')). c_subject_id c = Some pid \<and> c_opportunity_id c = ob_opportunity_id x
                 \<and> c_predicate c = ob_predicate x \<and> strip (c_object_value c) = strip (ob_object_value x)
                 \<and> ob_id x \<in> set (c_observation_ids c)))))"
  using process_job_run [OF assms] .

text \<open>
  Without consent no text leaves the system for embeddings: when the purpose gate refuses embeddings for
  the person, the job's result and everything it stores are the same whatever the service would answer.
\<close>

theorem embeddings_need_consent:
  assumes "parse_uuid person_id = Some pid" and "get_row p_id (persons (w_db w)) pid = Some p"
    and "\<not> ai_allowed (external_ai_use_decision p ''embeddings'')"
  shows "process_candidate_job (env\<lparr>pc_ask := ask1\<rparr>) person_id job_id w
       = process_candidate_job (env\<lparr>pc_ask := ask2\<rparr>) person_id job_id w"
proof -
  obtain l w0 where l: "ledger_job (pc_store env) job_id ''process_candidate'' w = (l, w0)" by force
  obtain x w1 where b: "begin_job (sv_now (pc_store env)) l ''processing'' w0 = (x, w1)" by force
  have "w_db w0 = w_db w" using l by (auto simp: ledger_job_def split: option.splits prod.splits)
  with begin_job_db [of "sv_now (pc_store env)" l "''processing''" w0] b have "w_db w1 = w_db w" by simp
  moreover have "process_steps (env\<lparr>pc_ask := ask1\<rparr>) p d = process_steps (env\<lparr>pc_ask := ask2\<rparr>) p d" for d
    using assms(3) by (simp add: process_steps_def embed_client_def split: prod.split sum.split)
  ultimately have "process_person (env\<lparr>pc_ask := ask1\<rparr>) person_id l n w1 = process_person (env\<lparr>pc_ask := ask2\<rparr>) person_id l n w1" for n
    using assms(1,2) by (simp add: process_person_def)
  with l b show ?thesis by (simp add: process_candidate_job_def split: sum.split)
qed

section \<open>Samples\<close>

definition sample_process :: process_env where
  "sample_process = \<lparr>pc_store = sample_store_env, pc_key = ''key'', pc_ask = (\<lambda>texts. Inr (map (\<lambda>t. (0, [1])) texts)),
     pc_claim_ties = (\<lambda>xs. xs), pc_observation_ties = rev, pc_reconcile = sample_env,
     pc_raised = other_error ''ValueError'', pc_bad_uuid = other_error ''ValueError'' ''badly formed''\<rparr>"

definition process_world :: world where
  "process_world = \<lparr>w_db = similar_db\<lparr>persons := [sample_person\<lparr>p_id := ''00000000-0000-0000-0000-000000000001''\<rparr>]\<rparr>,
     w_snapshots = [], w_jobs = [], w_telemetry = [], w_objects = []\<rparr>"

theorem process_job_effects_witness:
  "ledger_ok (w_jobs (snd (process_candidate_job sample_process ''00000000-0000-0000-0000-000000000001'' None process_world)))"
proof -
  have "ledger_ok (w_jobs process_world)" by (simp add: process_world_def ledger_ok_def)
  moreover have "reorders (pc_observation_ties sample_process)" by (simp add: sample_process_def reorders_def)
  ultimately show ?thesis using process_job_effects [OF surjective_pairing] by blast
qed

theorem embeddings_need_consent_witness:
  "process_candidate_job (sample_process\<lparr>pc_ask := \<lambda>texts. Inl (hd texts)\<rparr>) ''00000000-0000-0000-0000-000000000001'' None process_world
   = process_candidate_job (sample_process\<lparr>pc_ask := \<lambda>texts. Inr []\<rparr>) ''00000000-0000-0000-0000-000000000001'' None process_world"
proof -
  let ?p = "sample_person\<lparr>p_id := ''00000000-0000-0000-0000-000000000001''\<rparr>"
  have "parse_uuid ''00000000-0000-0000-0000-000000000001'' = Some ''00000000-0000-0000-0000-000000000001''" by code_simp
  moreover have "get_row p_id (persons (w_db process_world)) ''00000000-0000-0000-0000-000000000001'' = Some ?p"
    by (simp add: process_world_def get_row_def)
  moreover have "\<not> ai_allowed (external_ai_use_decision ?p ''embeddings'')"
    by (simp add: external_ai_use_decision_def consent_of_def sample_person_def blocking_consent_states_def)
  ultimately show ?thesis by (rule embeddings_need_consent)
qed

theorem processing_idempotent_witness:
  "\<exists>a c d'. process_steps (sample_process\<lparr>pc_key := []\<rparr>) sample_person similar_db = Inr ((a, 0, c), d')
     \<and> process_steps (sample_process\<lparr>pc_key := []\<rparr>) sample_person d' = Inr ((0, 0, 0), d')"
proof -
  let ?env = "sample_process\<lparr>pc_key := []\<rparr>"
  have steps: "process_steps ?env sample_person d = Inr ((a, 0, c), d3)"
    if "reconcile_observations sample_env ''p1'' d = (a, d1)" "deduplicate_claims (\<lambda>xs. xs) ''p1'' d1 = (c, d3)" for d a d1 c d3
    using that by (simp add: process_steps_def embed_client_def embed_observations_def sample_process_def sample_person_def)
  obtain a where r: "reconcile_observations sample_env ''p1'' similar_db = (a, similar_run)"
    by (metis prod.collapse similar_run_def)
  obtain c d' where k: "deduplicate_claims (\<lambda>xs. xs) ''p1'' similar_run = (c, d')" by force
  note first = steps [OF r k]
  obtain a2 d2 where r2: "reconcile_observations sample_env ''p1'' d' = (a2, d2)" by force
  obtain c2 d3 where k2: "deduplicate_claims (\<lambda>xs. xs) ''p1'' d2 = (c2, d3)" by force
  note second = steps [OF r2 k2]
  from dedup_frame [OF k] obtain gone where "d' = similar_run\<lparr>claims := map (supersede gone) (claims similar_run)\<rparr>" .
  with similar_run_ids have ids: "distinct (map c_id (claims d'))" by (simp add: comp_def)
  have "reorders (pc_observation_ties ?env)" "reorders (pc_claim_ties ?env)" by (simp_all add: sample_process_def reorders_def)
  with processing_idempotent [OF first second refl _ _ _ ids] have "a2 = 0 \<and> c2 = 0 \<and> d3 = d'" by blast
  with first second show ?thesis by blast
qed

end
