(* ===== verification/Uploads.thy ===== *)
theory Uploads
  imports Py_Text "HOL-Library.Sublist"
begin

text \<open>
  Quarantine, validation and extraction of pitch decks, \<^verbatim>\<open>app/uploads.py\<close>. The PDF library
  is a function from bytes to an error or a document, the malware scanner one from bytes to an outcome.
\<close>

section \<open>File names\<close>

text \<open>\<open>Path(f).name\<close> and \<open>Path(f).suffix\<close> of a POSIX path.\<close>

definition path_name :: "string \<Rightarrow> string" where
  "path_name f = (case rev (filter (\<lambda>part. part \<noteq> [] \<and> part \<noteq> ''.'') (split_on CHR ''/'' f)) of
     [] \<Rightarrow> [] | part # _ \<Rightarrow> part)"

definition path_suffix :: "string \<Rightarrow> string" where
  "path_suffix f =
     (let name = path_name f; tail = takeWhile (\<lambda>c. c \<noteq> CHR ''.'') (rev name); stem = length name - length tail
      in if CHR ''.'' \<in> set name \<and> 1 < stem \<and> tail \<noteq> [] then CHR ''.'' # rev tail else [])"

definition validate_filename :: "string option \<Rightarrow> string + string" where
  "validate_filename filename =
     (case filename of
        None \<Rightarrow> Inl ''A safe PDF filename is required''
      | Some f \<Rightarrow>
          (if f = [] \<or> 255 < length f \<or> list_ex (\<lambda>c. char_code c < 32 \<or> char_code c = 127) f
           then Inl ''A safe PDF filename is required''
           else if path_name f \<noteq> f \<or> CHR ''/'' \<in> set f \<or> CHR 0x5C \<in> set f
           then Inl ''Path components are not allowed in filenames''
           else if lower (path_suffix f) \<noteq> ''.pdf'' then Inl ''Only PDF pitch decks are supported''
           else Inr f))"

section \<open>PDF bytes\<close>

text \<open>A parsed document: whether it is encrypted, and for each page its text, \<open>None\<close> when extracting it raises.\<close>

record pdf_document =
  pd_encrypted :: bool
  pd_pages :: "string option list"

type_synonym pdf_reader = "char list \<Rightarrow> string + pdf_document"

definition byte_space :: "char \<Rightarrow> bool" where
  "byte_space c = (char_code c = 32 \<or> (9 \<le> char_code c \<and> char_code c \<le> 13))"

text \<open>What follows the last occurrence of a pattern, if there is one: \<open>rfind\<close> and the slice after it.\<close>

fun after_last :: "char list \<Rightarrow> char list \<Rightarrow> char list option" where
  "after_last pat [] = (if pat = [] then Some [] else None)"
| "after_last pat (c # cs) =
     (case after_last pat cs of
        Some rest \<Rightarrow> Some rest
      | None \<Rightarrow> if startswith (c # cs) pat then Some (drop (length pat) (c # cs)) else None)"

definition pdf_eof :: "char list" where "pdf_eof = ''%%EOF''"

definition validate_pdf_bytes :: "pdf_reader \<Rightarrow> char list \<Rightarrow> nat \<Rightarrow> string + nat" where
  "validate_pdf_bytes reader content max_pages =
     (if \<not> startswith content ''%PDF-'' then Inl ''The upload is not a PDF''
      else (case after_last pdf_eof content of
          None \<Rightarrow> Inl ''The upload contains trailing content''
        | Some rest \<Rightarrow>
            (if \<not> list_all byte_space rest then Inl ''The upload contains trailing content''
             else (case reader content of
                 Inl e \<Rightarrow> Inl ''The PDF could not be parsed safely''
               | Inr doc \<Rightarrow>
                   (if pd_encrypted doc then Inl ''Encrypted PDFs cannot be processed''
                    else if length (pd_pages doc) < 1 then Inl ''The PDF must contain at least one page''
                    else if max_pages < length (pd_pages doc)
                    then Inl (''The PDF exceeds the '' @ nat_str max_pages @ ''-page limit'')
                    else Inr (length (pd_pages doc)))))))"

section \<open>Quarantine\<close>

record upload =
  up_filename :: "string option"
  up_content_type :: "string option"
  up_chunks :: "char list list"

datatype scan_outcome = Scan_Unavailable | Scan_Exit int

record upload_settings =
  us_max_bytes :: nat
  us_max_pages :: nat
  us_max_text_chars :: int
  us_scanner :: string
  us_environment :: string

text \<open>The loop reads until an empty chunk and stops at the first chunk that passes the limit.\<close>

fun stream_to_quarantine :: "char list list \<Rightarrow> nat \<Rightarrow> char list \<Rightarrow> string + char list" where
  "stream_to_quarantine [] max_bytes written = Inr written"
| "stream_to_quarantine (chunk # chunks) max_bytes written =
     (if chunk = [] then Inr written
      else if max_bytes < length written + length chunk
      then Inl (''The upload exceeds the '' @ nat_str max_bytes @ ''-byte limit'')
      else stream_to_quarantine chunks max_bytes (written @ chunk))"

definition scan_quarantined_file :: "(string \<Rightarrow> char list \<Rightarrow> scan_outcome) \<Rightarrow> upload_settings \<Rightarrow> char list \<Rightarrow> string option" where
  "scan_quarantined_file scanner st content =
     (let command = strip (us_scanner st)
      in if command = []
         then (if lower (us_environment st) \<notin> {''development'', ''test''}
               then Some ''Upload malware scanner is not configured'' else None)
         else (case scanner command content of
             Scan_Unavailable \<Rightarrow> Some ''Upload malware scan was unavailable''
           | Scan_Exit code \<Rightarrow> if code \<noteq> 0 then Some ''The upload did not pass malware scanning'' else None))"

definition quarantine_pitch_upload :: "pdf_reader \<Rightarrow> (string \<Rightarrow> char list \<Rightarrow> scan_outcome) \<Rightarrow> upload_settings \<Rightarrow> upload
    \<Rightarrow> string + char list" where
  "quarantine_pitch_upload reader scanner st u =
     (case validate_filename (up_filename u) of
        Inl e \<Rightarrow> Inl e
      | Inr f \<Rightarrow>
          (if up_content_type u \<notin> {None, Some [], Some ''application/pdf'', Some ''application/octet-stream''}
           then Inl ''The upload MIME type is not supported''
           else (case stream_to_quarantine (up_chunks u) (us_max_bytes st) [] of
               Inl e \<Rightarrow> Inl e
             | Inr content \<Rightarrow>
                 (case scan_quarantined_file scanner st content of
                    Some e \<Rightarrow> Inl e
                  | None \<Rightarrow>
                      (case validate_pdf_bytes reader content (us_max_pages st) of
                         Inl e \<Rightarrow> Inl e
                       | Inr n \<Rightarrow> Inr content)))))"

section \<open>Extraction\<close>

definition page_locator :: "nat \<Rightarrow> string \<Rightarrow> pyval dict" where
  "page_locator page text = [(''kind'', PStr ''pdf''), (''page'', PInt (int page)), (''char_start'', PInt 0),
     (''char_end'', PInt (int (length text)))]"

text \<open>\<open>None\<close> when extracting a page raises.\<close>

fun extract_pages :: "string option list \<Rightarrow> nat \<Rightarrow> int \<Rightarrow> (string \<times> pyval dict) list option" where
  "extract_pages [] page remaining = Some []"
| "extract_pages (raw # raws) page remaining =
     (if remaining \<le> 0 then Some []
      else (case raw of
          None \<Rightarrow> None
        | Some text \<Rightarrow>
            (let bounded = take (nat remaining) text
             in map_option ((#) (bounded, page_locator page bounded))
                  (extract_pages raws (page + 1) (remaining - int (length bounded))))))"

datatype 'a extraction = Rejected string | Extract_Error | Extracted 'a

definition extract_pdf_pages :: "pdf_reader \<Rightarrow> char list \<Rightarrow> nat \<Rightarrow> int \<Rightarrow> (string \<times> pyval dict) list extraction" where
  "extract_pdf_pages reader content max_pages max_text_chars =
     (case validate_pdf_bytes reader content max_pages of
        Inl e \<Rightarrow> Rejected e
      | Inr n \<Rightarrow>
          (case reader content of
             Inl e \<Rightarrow> Extract_Error
           | Inr doc \<Rightarrow>
               (case extract_pages (pd_pages doc) 1 max_text_chars of
                  None \<Rightarrow> Extract_Error | Some pages \<Rightarrow> Extracted pages)))"

definition extract_pdf_text :: "pdf_reader \<Rightarrow> char list \<Rightarrow> nat \<Rightarrow> int \<Rightarrow> string extraction" where
  "extract_pdf_text reader content max_pages max_text_chars =
     (case extract_pdf_pages reader content max_pages max_text_chars of
        Rejected e \<Rightarrow> Rejected e | Extract_Error \<Rightarrow> Extract_Error
      | Extracted pages \<Rightarrow> Extracted (join [CHR 0x0A] (map fst pages)))"

section \<open>What an accepted upload is\<close>

lemma stream_result:
  "stream_to_quarantine chunks n written = Inr content \<Longrightarrow> length written \<le> n \<Longrightarrow>
   length content \<le> n \<and> content = written @ concat (takeWhile (\<lambda>c. c \<noteq> []) chunks)"
  by (induction chunks n written rule: stream_to_quarantine.induct) (auto split: if_splits)

lemma after_last_Some:
  "after_last pat s = Some rest \<Longrightarrow> \<exists>pre. s = pre @ pat @ rest"
proof (induction pat s rule: after_last.induct)
  case (2 pat c cs)
  show ?case
  proof (cases "after_last pat cs")
    case None
    with "2.prems" have "startswith (c # cs) pat" "rest = drop (length pat) (c # cs)" by (auto split: if_splits)
    then have "c # cs = pat @ rest" by (metis append_take_drop_id startswith_def)
    then show ?thesis by (intro exI [of _ "[]"]) simp
  next
    case (Some r)
    with 2 obtain pre where "cs = pre @ pat @ rest" by auto
    then show ?thesis by (intro exI [of _ "c # pre"]) simp
  qed
qed (auto split: if_splits)

lemma validate_filename_ok:
  "validate_filename f = Inr g \<Longrightarrow> f = Some g \<and> g \<noteq> [] \<and> length g \<le> 255 \<and> CHR ''/'' \<notin> set g \<and> CHR 0x5C \<notin> set g
     \<and> list_all (\<lambda>c. 32 \<le> char_code c \<and> char_code c \<noteq> 127) g \<and> lower (path_suffix g) = ''.pdf''"
  by (auto simp: validate_filename_def list_ex_iff list_all_iff not_less split: option.splits if_splits)

lemma validate_pdf_bytes_ok:
  assumes "validate_pdf_bytes reader content m = Inr n"
  shows "\<exists>doc pre rest. reader content = Inr doc \<and> \<not> pd_encrypted doc \<and> n = length (pd_pages doc) \<and> 1 \<le> n \<and> n \<le> m
     \<and> startswith content ''%PDF-'' \<and> content = pre @ pdf_eof @ rest \<and> list_all byte_space rest"
proof -
  from assms obtain rest doc where "after_last pdf_eof content = Some rest" "list_all byte_space rest" "reader content = Inr doc"
    "\<not> pd_encrypted doc" "n = length (pd_pages doc)" "1 \<le> n" "n \<le> m" "startswith content ''%PDF-''"
    by (auto simp: validate_pdf_bytes_def Suc_le_eq not_less split: option.splits sum.splits if_splits)
  with after_last_Some show ?thesis by metis
qed

text \<open>
  C19. Quarantine fails closed: an accepted upload has a plain PDF file name and an expected type, its bytes are exactly
  the chunks up to the first empty one and within the limit, they begin and end as a PDF, parse as an
  unencrypted document of an allowed number of pages, and passed the scanner; without one the
  environment is development or test.
\<close>

theorem quarantine_fails_closed:
  assumes "quarantine_pitch_upload reader scanner st u = Inr content"
  shows "(\<exists>f. up_filename u = Some f \<and> validate_filename (Some f) = Inr f \<and> CHR ''/'' \<notin> set f \<and> lower (path_suffix f) = ''.pdf'')
    \<and> content = concat (takeWhile (\<lambda>c. c \<noteq> []) (up_chunks u)) \<and> length content \<le> us_max_bytes st
    \<and> (if strip (us_scanner st) = [] then lower (us_environment st) \<in> {''development'', ''test''}
       else scanner (strip (us_scanner st)) content = Scan_Exit 0)
    \<and> (\<exists>doc pre rest. reader content = Inr doc \<and> \<not> pd_encrypted doc \<and> 1 \<le> length (pd_pages doc)
         \<and> length (pd_pages doc) \<le> us_max_pages st \<and> startswith content ''%PDF-''
         \<and> content = pre @ pdf_eof @ rest \<and> list_all byte_space rest)"
proof -
  from assms obtain f n where f: "validate_filename (up_filename u) = Inr f"
    and st: "stream_to_quarantine (up_chunks u) (us_max_bytes st) [] = Inr content"
    and scan: "scan_quarantined_file scanner st content = None"
    and pdf: "validate_pdf_bytes reader content (us_max_pages st) = Inr n"
    by (auto simp: quarantine_pitch_upload_def split: sum.splits option.splits if_splits)
  from scan have "if strip (us_scanner st) = [] then lower (us_environment st) \<in> {''development'', ''test''}
       else scanner (strip (us_scanner st)) content = Scan_Exit 0"
    by (auto simp: scan_quarantined_file_def Let_def split: scan_outcome.splits if_splits)
  with validate_filename_ok [OF f] f stream_result [OF st] validate_pdf_bytes_ok [OF pdf] show ?thesis by auto
qed

section \<open>What extraction keeps\<close>

lemma extract_pages_take:
  assumes "extract_pages raws page k = Some ps"
  shows "concat (map fst ps) = take (nat k) (concat (map (case_option [] id) raws))
    \<and> map snd ps = map (\<lambda>(i, t). page_locator i t) (zip [page..<page + length ps] (map fst ps))
    \<and> length ps \<le> length raws \<and> (length ps < length raws \<longrightarrow> int (length (concat (map fst ps))) = max 0 k)"
  using assms
proof (induction raws page k arbitrary: ps rule: extract_pages.induct)
  case (2 raw raws page k)
  show ?case
  proof (cases "k \<le> 0")
    case True
    with "2.prems" show ?thesis by simp
  next
    case False
    with "2.prems" obtain tx qs where raw: "raw = Some tx"
      and qs: "extract_pages raws (page + 1) (k - int (length (take (nat k) tx))) = Some qs"
      and ps: "ps = (take (nat k) tx, page_locator page (take (nat k) tx)) # qs"
      by (auto simp: Let_def split: option.splits)
    from "2.IH" [OF False raw refl qs]
    have ih: "concat (map fst qs) = take (nat (k - int (length (take (nat k) tx)))) (concat (map (case_option [] id) raws))"
      "map snd qs = map (\<lambda>(i, t). page_locator i t) (zip [page + 1..<page + 1 + length qs] (map fst qs))"
      "length qs \<le> length raws"
      "length qs < length raws \<longrightarrow> int (length (concat (map fst qs))) = max 0 (k - int (length (take (nat k) tx)))"
      by auto
    have "nat (k - int (length (take (nat k) tx))) = nat k - length tx" using False by auto
    with ih(1) have "concat (map fst ps) = take (nat k) (concat (map (case_option [] id) (raw # raws)))"
      by (simp add: ps raw)
    moreover have "[page..<page + length ps] = page # [page + 1..<page + 1 + length qs]"
      using upt_conv_Cons [of page "page + length ps"] by (simp add: ps)
    with ih(2) have "map snd ps = map (\<lambda>(i, t). page_locator i t) (zip [page..<page + length ps] (map fst ps))"
      by (simp add: ps)
    moreover have "length ps < length (raw # raws) \<longrightarrow> int (length (concat (map fst ps))) = max 0 k"
      using ih(4) False by (auto simp: ps)
    ultimately show ?thesis using ih(3) by (simp add: ps)
  qed
qed auto

text \<open>
  Extraction keeps the text up to its budget: the extracted pages are the first pages in order,
  numbered from 1 with the length of their text, together they are exactly the first characters of the
  document's text up to the budget, and pages are left out only when the budget is used up.
\<close>

theorem extraction_is_prefix:
  assumes "extract_pdf_pages reader content max_pages k = Extracted ps"
  shows "\<exists>doc. reader content = Inr doc \<and> length ps \<le> length (pd_pages doc) \<and> length (pd_pages doc) \<le> max_pages
    \<and> concat (map fst ps) = take (nat k) (concat (map (case_option [] id) (pd_pages doc)))
    \<and> map snd ps = map (\<lambda>(i, t). page_locator i t) (zip [1..<1 + length ps] (map fst ps))
    \<and> (length ps < length (pd_pages doc) \<longrightarrow> int (length (concat (map fst ps))) = max 0 k)"
proof -
  from assms obtain n doc where v: "validate_pdf_bytes reader content max_pages = Inr n" and doc: "reader content = Inr doc"
    and ps: "extract_pages (pd_pages doc) 1 k = Some ps"
    by (auto simp: extract_pdf_pages_def split: sum.splits option.splits)
  from validate_pdf_bytes_ok [OF v] doc have "length (pd_pages doc) \<le> max_pages" by auto
  with extract_pages_take [OF ps] doc show ?thesis by auto
qed

section \<open>Samples\<close>

definition sample_reader :: pdf_reader where
  "sample_reader content = Inr \<lparr>pd_encrypted = False, pd_pages = [Some ''Deck'', Some ''Market size'']\<rparr>"

definition sample_upload :: upload where
  "sample_upload = \<lparr>up_filename = Some ''Deck.PDF'', up_content_type = Some ''application/pdf'',
     up_chunks = [''%PDF-1.7 '', ''body %%EOF '']\<rparr>"

definition sample_upload_settings :: upload_settings where
  "sample_upload_settings = \<lparr>us_max_bytes = 100, us_max_pages = 5, us_max_text_chars = 6, us_scanner = ''clamscan'',
     us_environment = ''production''\<rparr>"

theorem quarantine_fails_closed_witness:
  "quarantine_pitch_upload sample_reader (\<lambda>command content. Scan_Exit 0) sample_upload_settings sample_upload
     = Inr ''%PDF-1.7 body %%EOF ''
   \<and> length ''%PDF-1.7 body %%EOF '' \<le> us_max_bytes sample_upload_settings"
proof -
  have "quarantine_pitch_upload sample_reader (\<lambda>command content. Scan_Exit 0) sample_upload_settings sample_upload
     = Inr ''%PDF-1.7 body %%EOF ''" by code_simp
  with quarantine_fails_closed [OF this] show ?thesis by blast
qed

theorem extraction_is_prefix_witness:
  "\<exists>ps. extract_pdf_pages sample_reader ''%PDF-1.7 body %%EOF '' 5 6 = Extracted ps \<and> concat (map fst ps) = ''DeckMa''"
proof -
  have "extract_pdf_pages sample_reader ''%PDF-1.7 body %%EOF '' 5 6
      = Extracted [(''Deck'', page_locator 1 ''Deck''), (''Ma'', page_locator 2 ''Ma'')]" by code_simp
  from extraction_is_prefix [OF this] this show ?thesis by auto
qed

end
