(* ===== verification/Inbound_Job.thy ===== *)
theory Inbound_Job
  imports Process_Job Uploads
begin

text \<open>
  Processing a submitted pitch deck, \<^verbatim>\<open>app/agents/inbound_job.py\<close>: the deck is read from the
  object store, its pages, the company name and the founder's evidence become observations in one
  transaction, and the processing job runs on them before the ledger row is closed.
\<close>

section \<open>Calls and results\<close>

record inbound_call =
  ic_person :: string
  ic_snapshot :: string
  ic_opportunity :: string
  ic_company :: string
  ic_evidence :: "string dict"

text \<open>
  The exceptions are those of a malformed id, a missing object, a page that cannot be extracted and a
  refused row; \<open>ib_uuid5\<close> derives the id of the run a legacy task repeats.
\<close>

record inbound_env =
  ib_store :: store_env
  ib_uuid5 :: "string \<Rightarrow> uuid"
  ib_reader :: pdf_reader
  ib_limits :: upload_settings
  ib_bad_uuid :: exc
  ib_missing :: exc
  ib_extract :: exc
  ib_integrity :: exc
  ib_process :: process_env

definition inbound_failure :: "inbound_call \<Rightarrow> string \<Rightarrow> string \<Rightarrow> string \<Rightarrow> bool \<Rightarrow> pyval dict" where
  "inbound_failure c ledger error kind retryable =
     [(''status'', PStr ''failed''), (''error'', PStr error), (''person_id'', PStr (ic_person c)),
      (''snapshot_id'', PStr (ic_snapshot c)), (''opportunity_id'', PStr (ic_opportunity c)), (''job_id'', PStr ledger),
      (''failure_kind'', PStr kind), (''retryable'', PBool retryable)]"

definition terminalize :: "inbound_env \<Rightarrow> string \<Rightarrow> int \<Rightarrow> string \<Rightarrow> string \<Rightarrow> pyval dict \<Rightarrow> world \<Rightarrow> world" where
  "terminalize env ledger attempt phase error res w =
     set_job (sv_now (ib_store env)) (Some ledger) (failed_update phase attempt error res) w"

text \<open>A refused deck is a result; an exception is kept under a stable code and raised again.\<close>

definition inbound_refused :: "inbound_env \<Rightarrow> inbound_call \<Rightarrow> string \<Rightarrow> int \<Rightarrow> string \<Rightarrow> world
    \<Rightarrow> (exc + pyval dict) \<times> world" where
  "inbound_refused env c ledger attempt error w =
     (let res = inbound_failure c ledger error ''permanent'' False
      in (Inr res, terminalize env ledger attempt ''parsing'' error res w))"

definition inbound_raised :: "inbound_env \<Rightarrow> inbound_call \<Rightarrow> string \<Rightarrow> int \<Rightarrow> string \<Rightarrow> string \<Rightarrow> exc \<Rightarrow> world
    \<Rightarrow> (exc + pyval dict) \<times> world" where
  "inbound_raised env c ledger attempt phase error e w =
     (case classify_connector_failure e of (kind, retryable) \<Rightarrow>
        (Inl e, terminalize env ledger attempt phase error (inbound_failure c ledger error (failure_key kind) retryable) w))"

section \<open>The observations of a deck\<close>

record deck_draft =
  dd_predicate :: string
  dd_value :: string
  dd_locator :: pyval
  dd_version :: string

definition page_draft :: "string \<times> pyval dict \<Rightarrow> deck_draft" where
  "page_draft page = \<lparr>dd_predicate = ''pitch_deck_page_text'',
     dd_value = (if fst page = [] then ''[No extractable text on page]'' else fst page),
     dd_locator = PDict (snd page), dd_version = ''inbound-v1''\<rparr>"

definition company_draft :: "string \<Rightarrow> deck_draft" where
  "company_draft company = \<lparr>dd_predicate = ''company_name'', dd_value = company, dd_locator = PNone,
     dd_version = ''inbound-v1''\<rparr>"

definition evidence_predicates :: "string dict" where
  "evidence_predicates =
     [(''work_sample_url'', ''founder_work_sample_url''),
      (''work_sample_description'', ''founder_work_sample_description''),
      (''learning_velocity'', ''founder_learning_velocity''),
      (''reference_context'', ''founder_reference_context''),
      (''interview_context'', ''founder_interview_context'')]"

definition evidence_draft :: "string \<times> string \<Rightarrow> deck_draft option" where
  "evidence_draft entry =
     (case entry of (field, v) \<Rightarrow>
        (case dget evidence_predicates field of
           None \<Rightarrow> None
         | Some predicate \<Rightarrow>
             (if strip v = [] then None
              else Some \<lparr>dd_predicate = predicate, dd_value = strip v,
                dd_locator = PDict [(''kind'', PStr ''submission_field''), (''field'', PStr field)],
                dd_version = ''inbound-evidence-v1''\<rparr>)))"

definition deck_drafts :: "(string \<times> pyval dict) list \<Rightarrow> inbound_call \<Rightarrow> deck_draft list" where
  "deck_drafts pages c =
     map page_draft pages @ [company_draft (ic_company c)] @ List.map_filter evidence_draft (ic_evidence c)"

type_synonym deck_key = "string \<times> string \<times> string \<times> string"

definition locator_text :: "(pyval \<Rightarrow> string) \<Rightarrow> pyval \<Rightarrow> string" where
  "locator_text dumps v = dumps (canonical (if py_truthy v then v else PDict []))"

definition draft_key :: "(pyval \<Rightarrow> string) \<Rightarrow> deck_draft \<Rightarrow> deck_key" where
  "draft_key dumps x = (dd_predicate x, dd_value x, dd_version x, locator_text dumps (dd_locator x))"

definition observation_key :: "(pyval \<Rightarrow> string) \<Rightarrow> observation \<Rightarrow> deck_key" where
  "observation_key dumps x =
     (ob_predicate x, ob_object_value x, ob_extractor_version x, locator_text dumps (ob_source_locator x))"

fun fresh_drafts :: "(pyval \<Rightarrow> string) \<Rightarrow> deck_key list \<Rightarrow> deck_draft list \<Rightarrow> deck_draft list" where
  "fresh_drafts dumps keys [] = []"
| "fresh_drafts dumps keys (x # xs) =
     (if draft_key dumps x \<in> set keys then fresh_drafts dumps keys xs
      else x # fresh_drafts dumps (draft_key dumps x # keys) xs)"

definition deck_observation :: "store_env \<Rightarrow> uuid \<Rightarrow> uuid \<Rightarrow> uuid \<Rightarrow> deck_draft \<Rightarrow> nat \<Rightarrow> observation" where
  "deck_observation se snapshot person opportunity x n =
     \<lparr>ob_id = sv_id se ''observations'' n, ob_snapshot_id = snapshot, ob_subject_id = Some person,
      ob_opportunity_id = Some opportunity, ob_predicate = dd_predicate x, ob_object_value = dd_value x,
      ob_source_locator = dd_locator x, ob_observed_at = sv_now se, ob_extractor_version = dd_version x,
      ob_fingerprint = Some (observation_persistence_fingerprint (sv_md5 se) (cx_dumps (sv_codec se)) snapshot
        (Some person) (Some opportunity) (dd_predicate x) (dd_value x) (dd_version x)
        (if dd_locator x = PNone then None else Some (dd_locator x))),
      ob_confidence = 1, ob_embedding = None, ob_created_at = sv_now se\<rparr>"

definition deck_rows :: "uuid \<Rightarrow> uuid \<Rightarrow> uuid \<Rightarrow> observation list \<Rightarrow> observation list" where
  "deck_rows snapshot person opportunity rows =
     filter (\<lambda>x. ob_snapshot_id x = snapshot \<and> ob_subject_id x = Some person \<and> ob_opportunity_id x = Some opportunity) rows"

text \<open>\<open>add_all\<close> and the flush: \<open>None\<close> when the unique index refuses a row.\<close>

fun add_observations :: "store_env \<Rightarrow> uuid \<Rightarrow> uuid \<Rightarrow> uuid \<Rightarrow> deck_draft list \<Rightarrow> observation list \<Rightarrow> observation list option" where
  "add_observations se snapshot person opportunity [] rows = Some rows"
| "add_observations se snapshot person opportunity (x # xs) rows =
     (case unique_insert ob_fingerprint (deck_observation se snapshot person opportunity x (length rows)) rows of
        None \<Rightarrow> None
      | Some rows1 \<Rightarrow> add_observations se snapshot person opportunity xs rows1)"

section \<open>The job\<close>

text \<open>
  Parsing, up to the commit of the observations: \<open>Inl\<close> the end of a run that stops before, or \<open>Inr\<close> the
  number of observations created. \<open>rivals\<close> are committed by others after the existing rows were read.
\<close>

definition persist_deck :: "inbound_env \<Rightarrow> inbound_call \<Rightarrow> string \<Rightarrow> int \<Rightarrow> observation list \<Rightarrow> source_snapshot
    \<Rightarrow> (string \<times> pyval dict) list \<Rightarrow> world \<Rightarrow> ((exc + pyval dict) + nat) \<times> world" where
  "persist_deck env c ledger attempt rivals s pages w =
     (let se = ib_store env; dumps = cx_dumps (sv_codec se); d = w_db w;
          stop = (\<lambda>e v. case inbound_raised env c ledger attempt ''parsing'' ''database_failure'' e v of
            (res, v1) \<Rightarrow> (Inl res, v1))
      in case (parse_uuid (ic_person c), parse_uuid (ic_opportunity c)) of
           (Some pid, Some oid) \<Rightarrow>
             (let existing = map (observation_key dumps) (deck_rows (sn_id s) pid oid (observations d));
                  drafts = fresh_drafts dumps existing (deck_drafts pages c);
                  rows = commit_rivals ob_fingerprint rivals (observations d);
                  w0 = w\<lparr>w_db := d\<lparr>observations := rows\<rparr>\<rparr>
              in case add_observations se (sn_id s) pid oid drafts rows of
                   None \<Rightarrow> stop (ib_integrity env) w0
                 | Some rows1 \<Rightarrow> (Inr (length drafts), set_job (sv_now se) (Some ledger)
                     \<lparr>ju_status = ''running'', ju_phase = ''processing'', ju_attempt = Some attempt,
                      ju_progress = Some (8 / 10), ju_last_error = None, ju_clear_error = True, ju_result = None\<rparr>
                     (w\<lparr>w_db := d\<lparr>observations := rows1\<rparr>\<rparr>)))
         | _ \<Rightarrow> stop (ib_bad_uuid env) w)"

definition parse_deck :: "inbound_env \<Rightarrow> inbound_call \<Rightarrow> string \<Rightarrow> int \<Rightarrow> observation list \<Rightarrow> world
    \<Rightarrow> ((exc + pyval dict) + nat) \<times> world" where
  "parse_deck env c ledger attempt rivals w =
     (let st = ib_limits env;
          raised = (\<lambda>error e. case inbound_raised env c ledger attempt ''parsing'' error e w of (res, v) \<Rightarrow> (Inl res, v));
          refused = (\<lambda>error. case inbound_refused env c ledger attempt error w of (res, v) \<Rightarrow> (Inl res, v))
      in case parse_uuid (ic_snapshot c) of
           None \<Rightarrow> raised ''database_failure'' (ib_bad_uuid env)
         | Some sid \<Rightarrow>
             (case get_row sn_id (w_snapshots w) sid of
                None \<Rightarrow> refused ''snapshot_not_found''
              | Some s \<Rightarrow>
                  (case get_snapshot (w_objects w) (sn_storage_path s) of
                     None \<Rightarrow> raised ''snapshot_fetch_failed'' (ib_missing env)
                   | Some content \<Rightarrow>
                       (case extract_pdf_pages (ib_reader env) content (us_max_pages st) (us_max_text_chars st) of
                          Rejected msg \<Rightarrow> refused ''pdf_rejected''
                        | Extract_Error \<Rightarrow> raised ''pdf_extraction_failed'' (ib_extract env)
                        | Extracted pages \<Rightarrow> persist_deck env c ledger attempt rivals s pages w))))"

definition downstream_failed :: "pyval dict \<Rightarrow> bool" where
  "downstream_failed res = (dget res ''status'' = Some (PStr ''failed'') \<or> dget res ''error'' \<noteq> None)"

definition downstream_kind :: "pyval dict \<Rightarrow> string" where
  "downstream_kind res =
     (case dget res ''failure_kind'' of
        Some (PStr k) \<Rightarrow> if k \<in> {''transient'', ''rate_limited'', ''permanent''} then k else ''permanent''
      | _ \<Rightarrow> ''permanent'')"

definition downstream_retryable :: "pyval dict \<Rightarrow> bool" where
  "downstream_retryable res =
     (case dget res ''retryable'' of
        None \<Rightarrow> False
      | Some (PBool b) \<Rightarrow> b
      | Some v \<Rightarrow> downstream_kind res \<in> {''transient'', ''rate_limited''})"

definition inbound_success :: "inbound_call \<Rightarrow> string \<Rightarrow> nat \<Rightarrow> pyval dict \<Rightarrow> pyval dict" where
  "inbound_success c ledger n processing =
     [(''status'', PStr ''success''), (''person_id'', PStr (ic_person c)), (''snapshot_id'', PStr (ic_snapshot c)),
      (''opportunity_id'', PStr (ic_opportunity c)), (''job_id'', PStr ledger), (''observations_created'', PInt (int n)),
      (''next_stage'', PStr ''inbound_triage''), (''processing'', PDict processing)]"

definition process_deck :: "inbound_env \<Rightarrow> inbound_call \<Rightarrow> string \<Rightarrow> int \<Rightarrow> nat \<Rightarrow> world \<Rightarrow> (exc + pyval dict) \<times> world" where
  "process_deck env c ledger attempt n w =
     (case process_candidate_job (ib_process env) (ic_person c) None w of
        (Inl e, w1) \<Rightarrow> inbound_raised env c ledger attempt ''processing'' ''processing_failed'' e w1
      | (Inr processing, w1) \<Rightarrow>
          (if downstream_failed processing
           then (let res = inbound_failure c ledger ''processing_failed'' (downstream_kind processing)
                       (downstream_retryable processing)
                 in (Inr res, terminalize env ledger attempt ''processing'' ''processing_failed'' res w1))
           else (let res = inbound_success c ledger n processing
                 in (Inr res, set_job (sv_now (ib_store env)) (Some ledger)
                      \<lparr>ju_status = ''succeeded'', ju_phase = ''complete'', ju_attempt = Some attempt,
                       ju_progress = Some 1, ju_last_error = None, ju_clear_error = True, ju_result = Some res\<rparr> w1))))"

definition run_deck :: "inbound_env \<Rightarrow> inbound_call \<Rightarrow> string \<Rightarrow> int \<Rightarrow> observation list \<Rightarrow> world
    \<Rightarrow> (exc + pyval dict) \<times> world" where
  "run_deck env c ledger attempt rivals w =
     (case parse_deck env c ledger attempt rivals w of
        (Inl res, w1) \<Rightarrow> (res, w1)
      | (Inr n, w1) \<Rightarrow> process_deck env c ledger attempt n w1)"

definition inbound_ledger :: "inbound_env \<Rightarrow> inbound_call \<Rightarrow> string option \<Rightarrow> world \<Rightarrow> string \<times> world" where
  "inbound_ledger env c job_id w =
     (case job_id of
        Some j \<Rightarrow> (j, w)
      | None \<Rightarrow>
          (let i = ib_uuid5 env (''vcbrain:inbound:'' @ ic_person c @ '':'' @ ic_snapshot c @ '':'' @ ic_opportunity c)
           in (i, if get_row j_id (w_jobs w) i \<noteq> None then w
                  else w\<lparr>w_jobs := snd (create_job i (w_jobs w) ''process_inbound_pitch'')\<rparr>)))"

definition process_inbound_pitch_job :: "inbound_env \<Rightarrow> inbound_call \<Rightarrow> string option \<Rightarrow> observation list \<Rightarrow> world
    \<Rightarrow> (exc + pyval dict) \<times> world" where
  "process_inbound_pitch_job env c job_id rivals w0 =
     (case inbound_ledger env c job_id w0 of
        (ledger, w) \<Rightarrow>
          (case begin_job (sv_now (ib_store env)) (Some ledger) ''parsing'' w of
             (Inl row, w1) \<Rightarrow> (Inr (terminal_result w1 row), w1)
           | (Inr attempt, w1) \<Rightarrow> run_deck env c ledger attempt rivals w1))"

section \<open>Fresh drafts and added rows\<close>

lemma fresh_drafts_subset: "set (fresh_drafts dumps keys xs) \<subseteq> set xs"
  by (induction dumps keys xs rule: fresh_drafts.induct) auto

lemma fresh_drafts_new:
  "distinct (map (draft_key dumps) (fresh_drafts dumps keys xs))
   \<and> draft_key dumps ` set (fresh_drafts dumps keys xs) \<inter> set keys = {}"
proof (induction dumps keys xs rule: fresh_drafts.induct)
  case (2 dumps keys x xs)
  then show ?case by (cases "draft_key dumps x \<in> set keys") auto
qed simp

lemma fresh_drafts_cover: "draft_key dumps ` set xs \<subseteq> set keys \<union> draft_key dumps ` set (fresh_drafts dumps keys xs)"
proof (induction dumps keys xs rule: fresh_drafts.induct)
  case (2 dumps keys x xs)
  then show ?case by (cases "draft_key dumps x \<in> set keys") auto
qed simp

lemma fresh_drafts_none: "draft_key dumps ` set xs \<subseteq> set keys \<Longrightarrow> fresh_drafts dumps keys xs = []"
  by (induction dumps keys xs rule: fresh_drafts.induct) auto

lemma add_observations_rows:
  assumes "add_observations se s p q xs rows = Some rows'"
  shows "\<exists>new. rows' = rows @ new \<and> map (observation_key (cx_dumps (sv_codec se))) new = map (draft_key (cx_dumps (sv_codec se))) xs
    \<and> deck_rows s p q new = new \<and> (unique_index ob_fingerprint rows \<longrightarrow> unique_index ob_fingerprint rows')"
  using assms
proof (induction xs arbitrary: rows)
  case (Cons x xs)
  let ?x = "deck_observation se s p q x (length rows)"
  from Cons.prems obtain rows1 where r1: "unique_insert ob_fingerprint ?x rows = Some rows1"
    and rest: "add_observations se s p q xs rows1 = Some rows'" by (auto split: option.splits)
  from Cons.IH [OF rest] obtain new where new: "rows' = rows1 @ new"
    "map (observation_key (cx_dumps (sv_codec se))) new = map (draft_key (cx_dumps (sv_codec se))) xs"
    "deck_rows s p q new = new" "unique_index ob_fingerprint rows1 \<longrightarrow> unique_index ob_fingerprint rows'" by blast
  have "observation_key (cx_dumps (sv_codec se)) ?x = draft_key (cx_dumps (sv_codec se)) x"
    by (simp add: observation_key_def draft_key_def deck_observation_def)
  moreover have "deck_rows s p q (?x # new) = ?x # new"
    using new(3) by (simp add: deck_rows_def deck_observation_def)
  ultimately show ?case
    using unique_insert_Some [OF r1] unique_insert_index [OF _ r1] new by (intro exI [of _ "?x # new"]) auto
qed (auto simp: deck_rows_def)

text \<open>The whole deck is on file: every draft of it has a row of the snapshot, the founder and the deal.\<close>

definition deck_on_file :: "inbound_env \<Rightarrow> inbound_call \<Rightarrow> world \<Rightarrow> observation list \<Rightarrow> bool" where
  "deck_on_file env c w rows =
     (\<exists>sid s content pages pid oid. parse_uuid (ic_snapshot c) = Some sid \<and> get_row sn_id (w_snapshots w) sid = Some s
        \<and> get_snapshot (w_objects w) (sn_storage_path s) = Some content
        \<and> extract_pdf_pages (ib_reader env) content (us_max_pages (ib_limits env)) (us_max_text_chars (ib_limits env))
            = Extracted pages
        \<and> parse_uuid (ic_person c) = Some pid \<and> parse_uuid (ic_opportunity c) = Some oid
        \<and> draft_key (cx_dumps (sv_codec (ib_store env))) ` set (deck_drafts pages c)
            \<subseteq> observation_key (cx_dumps (sv_codec (ib_store env))) ` set (deck_rows (sn_id s) pid oid rows))"

lemma parse_deck_Inr:
  assumes "parse_deck env c l a rivals w = (Inr n, w1)"
  shows "\<exists>new jobs. w1 = w\<lparr>w_db := (w_db w)\<lparr>observations := commit_rivals ob_fingerprint rivals (observations (w_db w)) @ new\<rparr>,
      w_jobs := jobs\<rparr> \<and> length new = n \<and> deck_on_file env c w (observations (w_db w1))
    \<and> (ledger_ok (w_jobs w) \<longrightarrow> ledger_ok jobs)
    \<and> (unique_index ob_fingerprint (observations (w_db w)) \<longrightarrow> unique_index ob_fingerprint (observations (w_db w1)))"
proof -
  let ?se = "ib_store env" and ?dumps = "cx_dumps (sv_codec (ib_store env))" and ?obs = "observations (w_db w)"
  let ?rows = "commit_rivals ob_fingerprint rivals ?obs"
  from assms obtain sid s content pages where src: "parse_uuid (ic_snapshot c) = Some sid"
    "get_row sn_id (w_snapshots w) sid = Some s" "get_snapshot (w_objects w) (sn_storage_path s) = Some content"
    "extract_pdf_pages (ib_reader env) content (us_max_pages (ib_limits env)) (us_max_text_chars (ib_limits env)) = Extracted pages"
    and persist: "persist_deck env c l a rivals s pages w = (Inr n, w1)"
    by (auto simp: parse_deck_def Let_def inbound_raised_def inbound_refused_def split: option.splits extraction.splits prod.splits)
  from persist obtain pid oid where ids: "parse_uuid (ic_person c) = Some pid" "parse_uuid (ic_opportunity c) = Some oid"
    by (auto simp: persist_deck_def Let_def inbound_raised_def split: option.splits prod.splits)
  define drafts where "drafts = fresh_drafts ?dumps (map (observation_key ?dumps) (deck_rows (sn_id s) pid oid ?obs)) (deck_drafts pages c)"
  from persist ids obtain rows1 u where add: "add_observations ?se (sn_id s) pid oid drafts ?rows = Some rows1"
    and n: "n = length drafts" and w1: "w1 = set_job (sv_now ?se) (Some l) u (w\<lparr>w_db := (w_db w)\<lparr>observations := rows1\<rparr>\<rparr>)"
    by (auto simp: persist_deck_def Let_def inbound_raised_def drafts_def split: option.splits prod.splits)
  from add_observations_rows [OF add] obtain new where new: "rows1 = ?rows @ new"
    "map (observation_key ?dumps) new = map (draft_key ?dumps) drafts" "deck_rows (sn_id s) pid oid new = new"
    "unique_index ob_fingerprint ?rows \<longrightarrow> unique_index ob_fingerprint rows1" by blast
  have "prefix ?obs ?rows" by (rule commit_rivals_prefix)
  then have sub: "set (deck_rows (sn_id s) pid oid ?obs) \<union> set new \<subseteq> set (deck_rows (sn_id s) pid oid rows1)"
    using new(3) unfolding new(1) prefix_def deck_rows_def by auto
  have "draft_key ?dumps ` set drafts = observation_key ?dumps ` set new" using new(2) by (metis set_map)
  with fresh_drafts_cover [of ?dumps "deck_drafts pages c" "map (observation_key ?dumps) (deck_rows (sn_id s) pid oid ?obs)"]
  have "draft_key ?dumps ` set (deck_drafts pages c)
      \<subseteq> observation_key ?dumps ` (set (deck_rows (sn_id s) pid oid ?obs) \<union> set new)"
    by (simp add: drafts_def image_Un)
  also have "\<dots> \<subseteq> observation_key ?dumps ` set (deck_rows (sn_id s) pid oid rows1)" by (rule image_mono [OF sub])
  finally have filed: "deck_on_file env c w rows1" using src ids unfolding deck_on_file_def by blast
  have "length new = n" using arg_cong [OF new(2), of length] by (simp add: n)
  moreover have "w1 = w\<lparr>w_db := (w_db w)\<lparr>observations := ?rows @ new\<rparr>, w_jobs := w_jobs w1\<rparr>"
    using set_job_frame [of _ "Some l" u "w\<lparr>w_db := (w_db w)\<lparr>observations := rows1\<rparr>\<rparr>"] by (simp add: w1 new(1))
  moreover have "ledger_ok (w_jobs w) \<longrightarrow> ledger_ok (w_jobs w1)"
    using set_job_ledger [of "w\<lparr>w_db := (w_db w)\<lparr>observations := rows1\<rparr>\<rparr>"] by (simp add: w1)
  moreover have "w_db w1 = (w_db w)\<lparr>observations := rows1\<rparr>" by (simp add: w1)
  ultimately show ?thesis using filed new(4) commit_rivals_index [of ob_fingerprint ?obs rivals]
    by (intro exI [of _ new] exI [of _ "w_jobs w1"]) simp
qed

section \<open>Vectors do not matter to the deck\<close>

lemma revectored_deck_keys:
  assumes "list_all2 (revectored ids) xs ys"
  shows "observation_key dumps ` set (deck_rows s p q ys) = observation_key dumps ` set (deck_rows s p q xs)"
  using assms
proof (induction rule: list_all2_induct)
  case (Cons x xs y ys)
  then have "observation_key dumps y = observation_key dumps x"
    "(ob_snapshot_id y = s \<and> ob_subject_id y = Some p \<and> ob_opportunity_id y = Some q)
     = (ob_snapshot_id x = s \<and> ob_subject_id x = Some p \<and> ob_opportunity_id x = Some q)"
    by (auto simp: revectored_def observation_key_def)
  with Cons.IH show ?case by (simp add: deck_rows_def)
qed (simp add: deck_rows_def)

lemma deck_on_file_revectored:
  "list_all2 (revectored ids) rows rows' \<Longrightarrow> deck_on_file env c w rows' = deck_on_file env c w rows"
  by (simp add: deck_on_file_def revectored_deck_keys)

lemma deck_on_file_world:
  "w_snapshots w' = w_snapshots w \<Longrightarrow> w_objects w' = w_objects w \<Longrightarrow> deck_on_file env c w' rows = deck_on_file env c w rows"
  by (simp add: deck_on_file_def)

text \<open>A deck that is on file is not written again.\<close>

lemma parse_deck_again:
  assumes "deck_on_file env c w (observations (w_db w))" and "ib_reader env' = ib_reader env"
    and "ib_limits env' = ib_limits env" and "sv_codec (ib_store env') = sv_codec (ib_store env)"
  shows "\<exists>w'. parse_deck env' c l a [] w = (Inr 0, w') \<and> w_db w' = w_db w"
proof -
  let ?dumps = "cx_dumps (sv_codec (ib_store env'))"
  from assms obtain sid s content pages pid oid where src: "parse_uuid (ic_snapshot c) = Some sid"
    "get_row sn_id (w_snapshots w) sid = Some s" "get_snapshot (w_objects w) (sn_storage_path s) = Some content"
    "extract_pdf_pages (ib_reader env') content (us_max_pages (ib_limits env')) (us_max_text_chars (ib_limits env')) = Extracted pages"
    "parse_uuid (ic_person c) = Some pid" "parse_uuid (ic_opportunity c) = Some oid"
    and kept: "draft_key ?dumps ` set (deck_drafts pages c)
      \<subseteq> set (map (observation_key ?dumps) (deck_rows (sn_id s) pid oid (observations (w_db w))))"
    unfolding deck_on_file_def by auto
  have rows: "commit_rivals ob_fingerprint [] rows = rows" for rows by (simp add: commit_rivals_def)
  from src show ?thesis
    by (simp add: parse_deck_def persist_deck_def fresh_drafts_none [OF kept] rows)
qed

section \<open>What processing adds\<close>

lemma process_deck_effect:
  assumes "process_deck env c l a n w = (res, w')" and "ledger_ok (w_jobs w)"
    and "reorders (pc_observation_ties (ib_process env))"
  shows "ledger_ok (w_jobs w') \<and> w' = w\<lparr>w_db := w_db w', w_jobs := w_jobs w'\<rparr>
    \<and> list_all2 (revectored UNIV) (observations (w_db w)) (observations (w_db w'))"
proof -
  obtain r w1 where run: "process_candidate_job (ib_process env) (ic_person c) None w = (r, w1)" by force
  from assms(1) run obtain u where w': "w' = set_job (sv_now (ib_store env)) (Some l) u w1"
    by (cases r) (auto simp: process_deck_def inbound_raised_def terminalize_def Let_def split: prod.splits if_splits)
  from process_job_run [OF run assms(2,3)] have w1: "ledger_ok (w_jobs w1)" "w1 = w\<lparr>w_db := w_db w1, w_jobs := w_jobs w1\<rparr>"
    and db: "w_db w1 = w_db w \<or> (\<exists>pid. processed pid (w_db w) (w_db w1))" by blast+
  from db have "list_all2 (revectored UNIV) (observations (w_db w)) (observations (w_db w1))"
  proof
    assume "\<exists>pid. processed pid (w_db w) (w_db w1)"
    then show ?thesis unfolding processed_def by (auto intro: revectored_mono)
  qed (simp add: revectored_refl)
  moreover have "w' = w1\<lparr>w_jobs := w_jobs w'\<rparr>" using set_job_frame [of _ "Some l" u w1] by (simp add: w')
  ultimately show ?thesis using w1 set_job_ledger [OF w1(1)]
    by (metis w' set_job_db(1) world.surjective world.update_convs(1,3))
qed

lemma begin_job_only_jobs:
  assumes "begin_job now l ph w = (x, w1)"
  shows "w1 = w\<lparr>w_jobs := w_jobs w1\<rparr>"
  using assms by (auto simp: begin_job_def split: option.splits prod.splits if_splits)

text \<open>
  Redelivery adds no evidence: once a run has stored the deck, whatever became of the processing after
  it, another run of the same task, at any time and under any ledger row, stores no observation.
\<close>

theorem inbound_redelivery_adds_nothing:
  assumes "run_deck env c l a rivals w = (res, w')" and "fst (parse_deck env c l a rivals w) = Inr n"
    and "ledger_ok (w_jobs w)" and "reorders (pc_observation_ties (ib_process env))"
    and "ib_reader env' = ib_reader env" and "ib_limits env' = ib_limits env"
    and "sv_codec (ib_store env') = sv_codec (ib_store env)"
  shows "\<exists>w''. parse_deck env' c l' a' [] w' = (Inr 0, w'') \<and> w_db w'' = w_db w'"
proof -
  from assms(1,2) obtain w1 where parse: "parse_deck env c l a rivals w = (Inr n, w1)"
    and run: "process_deck env c l a n w1 = (res, w')"
    by (auto simp: run_deck_def split: prod.splits)
  from parse_deck_Inr [OF parse] assms(3) have ok: "ledger_ok (w_jobs w1)"
    and filed: "deck_on_file env c w (observations (w_db w1))"
    and same: "w_snapshots w1 = w_snapshots w" "w_objects w1 = w_objects w" by auto
  note eff = process_deck_effect [OF run ok assms(4)]
  then have frame: "w' = w1\<lparr>w_db := w_db w', w_jobs := w_jobs w'\<rparr>" by blast
  from arg_cong [OF frame, of w_snapshots] arg_cong [OF frame, of w_objects]
  have "w_snapshots w' = w_snapshots w" "w_objects w' = w_objects w" by (simp_all add: same)
  with filed eff have "deck_on_file env c w' (observations (w_db w'))"
    using deck_on_file_revectored deck_on_file_world by metis
  from parse_deck_again [OF this assms(5-7)] show ?thesis .
qed

section \<open>The job as a whole\<close>

lemma parse_deck_Inl:
  assumes "parse_deck env c l a rivals w = (Inl r, w1)" and "ledger_ok (w_jobs w)"
  shows "ledger_ok (w_jobs w1) \<and> (\<exists>rows jobs. w1 = w\<lparr>w_db := (w_db w)\<lparr>observations := rows\<rparr>, w_jobs := jobs\<rparr>
    \<and> rows \<in> {observations (w_db w), commit_rivals ob_fingerprint rivals (observations (w_db w))})"
proof -
  let ?rivals = "(w_db w)\<lparr>observations := commit_rivals ob_fingerprint rivals (observations (w_db w))\<rparr>"
  have "\<exists>u. w1 = set_job (sv_now (ib_store env)) (Some l) u w
      \<or> w1 = set_job (sv_now (ib_store env)) (Some l) u (w\<lparr>w_db := ?rivals\<rparr>)"
    using assms(1)
    by (auto simp: parse_deck_def persist_deck_def Let_def inbound_raised_def inbound_refused_def terminalize_def
        split: option.splits extraction.splits prod.splits)
  moreover have "w\<lparr>w_db := w_db w\<rparr> = w" by simp
  ultimately obtain u d where w1: "w1 = set_job (sv_now (ib_store env)) (Some l) u (w\<lparr>w_db := d\<rparr>)" and d: "d \<in> {w_db w, ?rivals}"
    by (metis insertCI)
  have "ledger_ok (w_jobs w1)" using set_job_ledger [of "w\<lparr>w_db := d\<rparr>"] assms(2) by (simp add: w1)
  moreover have "w1 = w\<lparr>w_db := d, w_jobs := w_jobs w1\<rparr>"
    using set_job_frame [of _ "Some l" u "w\<lparr>w_db := d\<rparr>"] by (simp add: w1)
  moreover have "d = (w_db w)\<lparr>observations := observations d\<rparr>"
    "observations d \<in> {observations (w_db w), commit_rivals ob_fingerprint rivals (observations (w_db w))}"
    using d by auto
  ultimately show ?thesis by (intro conjI exI [of _ "observations d"] exI [of _ "w_jobs w1"]) simp_all
qed


section \<open>Samples\<close>

definition deck_call :: inbound_call where
  "deck_call = \<lparr>ic_person = ''00000000-0000-0000-0000-000000000001'', ic_snapshot = ''00000000-0000-0000-0000-000000000002'',
     ic_opportunity = ''00000000-0000-0000-0000-000000000003'', ic_company = ''Acme'',
     ic_evidence = [(''learning_velocity'', '' fast '')]\<rparr>"

definition deck_env :: inbound_env where
  "deck_env = \<lparr>ib_store = sample_store_env, ib_uuid5 = (\<lambda>name. name), ib_reader = sample_reader,
     ib_limits = sample_upload_settings, ib_bad_uuid = other_error ''ValueError'' ''badly formed'',
     ib_missing = other_error ''S3Error'' ''no such key'', ib_extract = other_error ''PdfReadError'' ''broken page'',
     ib_integrity = other_error ''IntegrityError'' ''duplicate key'', ib_process = sample_process\<rparr>"

definition deck_world :: world where
  "deck_world = process_world\<lparr>w_snapshots := [sample_snapshot\<lparr>sn_id := ''00000000-0000-0000-0000-000000000002'',
       sn_storage_path := ''deck''\<rparr>],
     w_objects := [(''deck'', ''%PDF-1.7 body %%EOF '')]\<rparr>"

lemma deck_world_ok: "ledger_ok (w_jobs deck_world)" "reorders (pc_observation_ties (ib_process deck_env))"
  by (simp_all add: deck_world_def process_world_def ledger_ok_def deck_env_def sample_process_def reorders_def)

theorem inbound_redelivery_adds_nothing_witness:
  "\<exists>res w' w''. run_deck deck_env deck_call ''l'' 1 [] deck_world = (res, w')
     \<and> parse_deck deck_env deck_call ''m'' 2 [] w' = (Inr 0, w'') \<and> w_db w'' = w_db w'"
proof -
  obtain res w' where run: "run_deck deck_env deck_call ''l'' 1 [] deck_world = (res, w')" by force
  have "fst (parse_deck deck_env deck_call ''l'' 1 [] deck_world) = Inr 4" by code_simp
  from inbound_redelivery_adds_nothing [OF run this deck_world_ok refl refl refl] run show ?thesis by blast
qed


end
