(* ===== verification/Deck_Evidence.thy ===== *)
theory Deck_Evidence
  imports Inbound_Job Memo_Job
begin

text \<open>
  What becomes of a deck: how the observations that the inbound job stores, the claims that reconciliation
  derives from them and the claims that the memo job accepts fit together.
\<close>

section \<open>Groups of observations\<close>

lemma map_of_group_insert:
  "map_of (group_insert k x gs) k' =
     (if k' = k then Some ((case map_of gs k of None \<Rightarrow> [] | Some ys \<Rightarrow> ys) @ [x]) else map_of gs k')"
  by (induction k x gs rule: group_insert.induct) auto

lemma keys_group_insert: "fst ` set (group_insert k x gs) = insert k (fst ` set gs)"
  by (induction k x gs rule: group_insert.induct) auto

lemma distinct_group_insert: "distinct (map fst gs) \<Longrightarrow> distinct (map fst (group_insert k x gs))"
  by (induction k x gs rule: group_insert.induct) (auto simp: keys_group_insert [simplified] image_iff)

lemma by_predicate_groups:
  "distinct (map fst (by_predicate xs)) \<and> map_of (by_predicate xs) k =
     (let ys = filter (\<lambda>x. (ob_predicate x, ob_opportunity_id x) = k) xs in if ys = [] then None else Some ys)"
proof (induction xs rule: rev_induct)
  case (snoc x xs)
  have "by_predicate (xs @ [x]) = group_insert (ob_predicate x, ob_opportunity_id x) x (by_predicate xs)"
    by (simp add: by_predicate_def)
  with snoc show ?case by (auto simp: map_of_group_insert distinct_group_insert Let_def)
qed (simp add: by_predicate_def)

lemma by_predicate_filter:
  assumes "(k, ys) \<in> set (by_predicate xs)"
  shows "ys = filter (\<lambda>x. (ob_predicate x, ob_opportunity_id x) = k) xs"
proof -
  from assms by_predicate_groups have "map_of (by_predicate xs) k = Some ys" by (metis map_of_is_SomeI)
  with by_predicate_groups [of xs k] show ?thesis by (auto simp: Let_def split: if_splits)
qed

lemma mset_person_observations:
  "mset (person_observations d p) = mset (filter (\<lambda>x. ob_subject_id x = Some p) (observations d))"
  by (simp add: person_observations_def)

section \<open>Supported claims\<close>

text \<open>At least two observations of the person agree on what the claim says, and the claim names them.\<close>

definition agreed :: "uuid \<Rightarrow> observation list \<Rightarrow> claim \<Rightarrow> bool" where
  "agreed p rows c = (\<exists>xs. 2 \<le> length xs \<and> mset xs \<subseteq># mset rows \<and> c_observation_ids c = map ob_id xs
     \<and> (\<forall>x \<in> set xs. ob_subject_id x = Some p \<and> ob_predicate x = c_predicate c
          \<and> ob_opportunity_id x = c_opportunity_id c \<and> strip (ob_object_value x) = strip (c_object_value c)))"

text \<open>What a claim says, which closing it does not change.\<close>

definition says :: "claim \<Rightarrow> string \<times> uuid option \<times> string \<times> string \<times> uuid list \<times> uuid option" where
  "says c = (c_predicate c, c_opportunity_id c, c_object_value c, c_status c, c_observation_ids c, c_subject_id c)"

definition backed :: "uuid \<Rightarrow> db \<Rightarrow> db \<Rightarrow> bool" where
  "backed p d d' = (\<forall>c \<in> set (claims d'). c_status c = ''supported'' \<longrightarrow>
     says c \<in> says ` set (claims d) \<or> agreed p (observations d) c)"

lemma agreed_says: "says c = says c' \<Longrightarrow> agreed p rows c = agreed p rows c'"
  by (simp add: agreed_def says_def)

lemma backed_close: "backed p d (close_superseded_claims cs r pr d') = backed p d d'"
proof -
  define u where "u c = (if c_id c \<notin> set (map c_id cs) \<or> c_id c = c_id r \<or> c_predicate c \<noteq> pr
      \<or> c_supersession_id c \<noteq> None then c
    else c\<lparr>c_supersession_id := Some (c_id r), c_valid_end := Some (c_valid_start r)\<rparr>)" for c :: claim
  have "claims (close_superseded_claims cs r pr d') = map u (claims d')"
    by (simp add: close_superseded_claims_def u_def)
  moreover have u: "says (u c) = says c" "c_status (u c) = c_status c" for c by (simp_all add: says_def u_def)
  moreover have "agreed p (observations d) (u c) = agreed p (observations d) c" for c by (rule agreed_says [OF u(1)])
  ultimately show ?thesis by (simp add: backed_def)
qed

lemma backed_store:
  assumes "backed p d d'" and "c_status c \<noteq> ''supported'' \<or> agreed p (observations d) c"
  shows "backed p d (store_claim c d')"
  using assms by (auto simp: backed_def)

lemma backed_claim_observation:
  assumes "backed p d (fst s)" and "st \<noteq> ''supported''"
  shows "backed p d (fst (claim_observation env q o1 pr st cs x s))"
  using assms by (auto simp: claim_observation_def case_prod_unfold intro: backed_store)

lemma backed_losers:
  "backed p d (fst s) \<Longrightarrow> backed p d (fst (reconcile_losers env q o1 pr xs s))"
  by (induction env q o1 pr xs s rule: reconcile_losers.induct) (simp_all add: backed_claim_observation)

lemma backed_group:
  assumes "backed p d (fst s)" and "snd g = filter (\<lambda>x. (ob_predicate x, ob_opportunity_id x) = fst g) (person_observations d p)"
    and "snd g \<noteq> []"
  shows "backed p d (fst (reconcile_group env p g s))"
proof -
  obtain pr q grp where g: "g = ((pr, q), grp)" by (metis prod.collapse)
  have w: "backed p d (fst (reconcile_winner env p q pr cs x s))" for cs x
    using assms(1) by (auto simp: reconcile_winner_def case_prod_unfold Let_def backed_close intro: backed_store)
  have "backed p d (fst (reconcile_supported env p q pr cs grp s))"
    if len: "length grp \<noteq> 1" and same: "length (fromkeys (map (\<lambda>x. strip (ob_object_value x)) grp)) = 1" for cs
  proof -
    let ?top = "max_first (observation_strength (re_clock env)) (hd grp) (tl grp)"
    from assms(3) g have top: "?top \<in> set grp" using max_first_in [of "observation_strength (re_clock env)" "hd grp" "tl grp"]
      by (metis list.collapse list.simps(15) snd_conv)
    obtain v where v: "fromkeys (map (\<lambda>x. strip (ob_object_value x)) grp) = [v]"
      using same by (metis One_nat_def length_0_conv length_Suc_conv)
    have "(\<lambda>x. strip (ob_object_value x)) ` set grp = {v}"
      using arg_cong [OF v, of set] by simp
    with top have eq: "strip (ob_object_value x) = strip (ob_object_value ?top)" if "x \<in> set grp" for x
      using that by (metis image_eqI singletonD)
    have "2 \<le> length grp" using len assms(3) g by (cases grp rule: remdups_adj.cases) auto
    moreover have "mset grp \<subseteq># mset (observations d)"
      using assms(2) g mset_person_observations [of d p]
      by (metis multiset_filter_subset mset_filter snd_conv subset_mset.order_trans)
    moreover have "ob_subject_id x = Some p \<and> ob_predicate x = pr \<and> ob_opportunity_id x = q" if "x \<in> set grp" for x
    proof -
      from that assms(2) g have "x \<in> set (person_observations d p)" "(ob_predicate x, ob_opportunity_id x) = (pr, q)" by auto
      then show ?thesis by (simp add: person_observations_def)
    qed
    ultimately have "agreed p (observations d) (new_claim env n p q pr (ob_object_value ?top) ''supported'' cf t (map ob_id grp) grp)"
      for n cf t using eq unfolding agreed_def by (intro exI [of _ grp]) simp
    with assms(1) show ?thesis
      by (auto simp: reconcile_supported_def case_prod_unfold Let_def backed_close intro: backed_store)
  qed
  with w backed_losers backed_claim_observation [OF assms(1)] show ?thesis
    by (auto simp: g reconcile_group_def Let_def)
qed

lemma reconcile_backed:
  assumes "reconcile_observations env p d = (n, d')"
  shows "backed p d d'"
proof -
  have start: "backed p d d" by (auto simp: backed_def)
  have "backed p d (fst (foldl (\<lambda>s g. reconcile_group env p g s) s gs))"
    if "backed p d (fst s)" "set gs \<subseteq> set (by_predicate (person_observations d p))" for gs s
    using that
  proof (induction gs arbitrary: s)
    case (Cons g gs)
    then have "(fst g, snd g) \<in> set (by_predicate (person_observations d p))" by simp
    from backed_group [OF Cons.prems(1) by_predicate_filter [OF this] by_predicate_ne [OF this, simplified]] Cons
    show ?case by simp
  qed simp
  from this [of "(d, 0)" "by_predicate (person_observations d p)"] start assms show ?thesis
    by (auto simp: reconcile_observations_def Let_def split: if_splits prod.splits)
qed

text \<open>
  C23. A supported claim needs agreement: after reconciliation every supported claim either says what a claim
  said before, or names at least two observations of the person that agree with it in predicate,
  deal and text.
\<close>

theorem supported_needs_agreement:
  assumes "reconcile_observations env p d = (n, d')" and "c \<in> set (claims d')" and "c_status c = ''supported''"
  shows "(\<exists>c0 \<in> set (claims d). says c = says c0)
    \<or> (\<exists>xs. 2 \<le> length xs \<and> mset xs \<subseteq># mset (observations d) \<and> c_observation_ids c = map ob_id xs
         \<and> (\<forall>x \<in> set xs. ob_subject_id x = Some p \<and> ob_predicate x = c_predicate c
              \<and> ob_opportunity_id x = c_opportunity_id c \<and> strip (ob_object_value x) = strip (c_object_value c)))"
  using reconcile_backed [OF assms(1)] assms(2,3) unfolding backed_def agreed_def by blast

section \<open>From the deck to the memo\<close>

definition statement_of :: "observation \<Rightarrow> string \<times> uuid option \<times> string" where
  "statement_of x = (ob_predicate x, ob_opportunity_id x, strip (ob_object_value x))"

lemma distinct_submset: "mset xs \<subseteq># mset ys \<Longrightarrow> distinct ys \<Longrightarrow> distinct xs"
proof -
  assume sub: "mset xs \<subseteq># mset ys" and dist: "distinct ys"
  have "count (mset xs) a \<le> 1" for a
    using mset_subset_eq_count [OF sub, of a] dist by (metis distinct_count_atmost_1 le_trans order_refl zero_le_one)
  moreover have "1 \<le> count (mset xs) a" if "a \<in> set xs" for a
    using that by (simp add: Suc_le_eq)
  ultimately show "distinct xs"
    unfolding distinct_count_atmost_1 by (metis count_mset_0_iff le_antisym)
qed

lemma not_agreed:
  assumes "distinct (map statement_of (filter (\<lambda>x. ob_subject_id x = Some p) rows))"
  shows "\<not> agreed p rows c"
proof
  assume "agreed p rows c"
  then obtain xs where len: "2 \<le> length xs" and sub: "mset xs \<subseteq># mset rows"
    and xs: "\<forall>x \<in> set xs. ob_subject_id x = Some p \<and> ob_predicate x = c_predicate c
          \<and> ob_opportunity_id x = c_opportunity_id c \<and> strip (ob_object_value x) = strip (c_object_value c)"
    unfolding agreed_def by blast
  have "filter (\<lambda>x. ob_subject_id x = Some p) xs = xs" using xs by (simp add: filter_id_conv)
  then have "mset xs \<subseteq># mset (filter (\<lambda>x. ob_subject_id x = Some p) rows)"
    using multiset_filter_mono [OF sub, of "\<lambda>x. ob_subject_id x = Some p"] by (metis mset_filter)
  then have "mset (map statement_of xs) \<subseteq># mset (map statement_of (filter (\<lambda>x. ob_subject_id x = Some p) rows))"
    unfolding mset_map by (rule image_mset_subseteq_mono)
  from distinct_submset [OF this assms] have dist: "distinct (map statement_of xs)" .
  from len obtain x y zs where eq: "xs = x # y # zs" by (cases xs rule: remdups_adj.cases) auto
  then have "statement_of x = statement_of y" using xs by (simp add: statement_of_def)
  with dist eq show False by simp
qed

lemma process_steps_claims:
  assumes "process_steps env p d = Inr (n, d')" and "c \<in> set (claims d')"
  shows "\<exists>m d1. reconcile_observations (pc_reconcile env) (p_id p) d = (m, d1) \<and> (\<exists>c1 \<in> set (claims d1). says c = says c1)"
proof -
  from assms(1) obtain a d1 b d2 k where r: "reconcile_observations (pc_reconcile env) (p_id p) d = (a, d1)"
    and e: "embed_observations (embed_client env p) (pc_observation_ties env) (p_id p) d1 = Inr (b, d2)"
    and dd: "deduplicate_claims (pc_claim_ties env) (p_id p) d2 = (k, d')"
    by (auto simp: process_steps_def split: prod.splits sum.splits)
  from embed_frame [OF e] have "claims d2 = claims d1" by auto
  moreover from dedup_frame [OF dd] obtain gone where "d' = d2\<lparr>claims := map (supersede gone) (claims d2)\<rparr>" .
  ultimately have "claims d' = map (supersede gone) (claims d1)" by simp
  with assms(2) obtain c1 where "c1 \<in> set (claims d1)" "c = supersede gone c1" by auto
  with r show ?thesis by (auto simp: says_def)
qed

text \<open>
  A deck alone never leads to a memo: as long as no two observations of a founder make the same
  statement about a deal, which is so for the observations of a deck whose pages differ, processing
  them leaves no supported claim, and the memo job for the deal ends with no_accepted_claims.
\<close>

theorem deck_alone_gives_no_memo:
  assumes "process_steps env p d = Inr (n, d')"
    and "\<forall>c \<in> set (claims d). c_subject_id c = Some (p_id p) \<longrightarrow> c_status c \<noteq> ''supported''"
    and "distinct (map statement_of (filter (\<lambda>x. ob_subject_id x = Some (p_id p)) (observations d)))"
    and "w_db (mw_world w) = d'"
  shows "memo_for menv p opp person_id job_id attempt w = memo_error menv person_id job_id attempt ''no_accepted_claims'' w"
proof -
  have "c_status c \<noteq> ''supported''" if c: "c \<in> set (claims d')" "c_subject_id c = Some (p_id p)" for c
  proof
    assume st: "c_status c = ''supported''"
    from process_steps_claims [OF assms(1) c(1)] obtain m d1 c1
      where r: "reconcile_observations (pc_reconcile env) (p_id p) d = (m, d1)"
      and c1: "c1 \<in> set (claims d1)" "says c = says c1" by blast
    then have "c_status c1 = ''supported''" "c_subject_id c1 = Some (p_id p)" using st c(2) by (simp_all add: says_def)
    with reconcile_backed [OF r] c1(1) not_agreed [OF assms(3)] have "says c1 \<in> says ` set (claims d)"
      unfolding backed_def by blast
    with assms(2) st c(2) c1(2) show False by (auto simp: says_def)
  qed
  then have "filter (\<lambda>c. c_subject_id c = Some (p_id p) \<and> c_opportunity_id c = Some (o_id opp)
       \<and> c_status c = ''supported'' \<and> c_supersession_id c = None) (claims d') = []"
    by (auto simp: filter_empty_conv)
  then have "claims_with ''supported'' d' (p_id p) (o_id opp) = []" by (simp add: claims_with_def)
  with assms(4) show ?thesis by (simp add: memo_for_def)
qed

text \<open>
  Pages of a deck are weighed against each other as if they answered one question: two or more pages that all say
  the same, such as the placeholder of a scanned deck, become one supported claim; otherwise each
  page becomes a contradicted claim.
\<close>

theorem deck_pages_contradict_each_other:
  assumes "reconcile_observations env p d = (n, d')"
    and "xs = filter (\<lambda>x. (ob_predicate x, ob_opportunity_id x) = (''pitch_deck_page_text'', Some oid)) (person_observations d p)"
    and "2 \<le> length xs"
  shows "if (\<exists>v. \<forall>x \<in> set xs. strip (ob_object_value x) = v)
    then \<exists>c \<in> set (claims d'). c_subject_id c = Some p \<and> c_opportunity_id c = Some oid \<and> c_status c = ''supported''
           \<and> c_observation_ids c = map ob_id xs \<and> strip (c_object_value c) = strip (ob_object_value (hd xs))
    else \<forall>x \<in> set xs. \<exists>c \<in> set (claims d'). c_subject_id c = Some p \<and> c_opportunity_id c = Some oid
           \<and> c_status c = ''contradicted'' \<and> c_observation_ids c = [ob_id x]
           \<and> strip (c_object_value c) = strip (ob_object_value x)"
proof -
  let ?k = "(''pitch_deck_page_text'', Some oid)"
  have ne: "xs \<noteq> []" "length xs \<noteq> 1" using assms(3) by auto
  with assms(2) by_predicate_groups [of "person_observations d p" ?k]
  have "(?k, xs) \<in> set (by_predicate (person_observations d p))" by (auto simp: Let_def dest: map_of_SomeD)
  with reconcile_covers [OF assms(1)] have cov: "covered d' p (?k, xs)" by blast
  have "(length (fromkeys (map (\<lambda>x. strip (ob_object_value x)) xs)) = 1)
      = (\<exists>v. \<forall>x \<in> set xs. strip (ob_object_value x) = v)" (is "_ = ?same")
  proof
    assume "length (fromkeys (map (\<lambda>x. strip (ob_object_value x)) xs)) = 1"
    then obtain v where "fromkeys (map (\<lambda>x. strip (ob_object_value x)) xs) = [v]"
      by (metis One_nat_def length_0_conv length_Suc_conv)
    from arg_cong [OF this, of set] show ?same by (intro exI [of _ v]) auto
  next
    assume ?same
    then obtain v where "set (fromkeys (map (\<lambda>x. strip (ob_object_value x)) xs)) = {v}" using ne(1)
      by (cases xs) auto
    then show "length (fromkeys (map (\<lambda>x. strip (ob_object_value x)) xs)) = 1"
      by (metis One_nat_def card_1_singleton_iff distinct_card distinct_fromkeys)
  qed
  with ne(2) have con: "contradictory xs = (\<not> ?same)" by (simp add: contradictory_def)
  show ?thesis
  proof (cases ?same)
    case True
    with cov con ne have "has_match d' p (Some oid) ''pitch_deck_page_text'' (ob_object_value (hd xs)) ''supported'' (map ob_id xs)"
      by (simp add: covered_def)
    from has_match_claim [OF this] True show ?thesis by (simp only: if_True) blast
  next
    case False
    with cov con ne have "has_match d' p (Some oid) ''pitch_deck_page_text'' (ob_object_value x) ''contradicted'' [ob_id x]"
      if "x \<in> set xs" for x using that by (simp add: covered_def)
    from has_match_claim [OF this] False show ?thesis by (simp only: if_False) blast
  qed
qed

section \<open>Samples\<close>

text \<open>A scanned deck of two pages without text.\<close>

definition scanned_page :: "uuid \<Rightarrow> observation" where
  "scanned_page i = (sample_observation i ''[No extractable text on page]'' 1)\<lparr>ob_predicate := ''pitch_deck_page_text'',
     ob_opportunity_id := Some ''o1''\<rparr>"

definition scanned_db :: db where
  "scanned_db = empty_db\<lparr>observations := [scanned_page ''a'', scanned_page ''b'']\<rparr>"

lemma scanned_observations: "person_observations scanned_db ''p1'' = [scanned_page ''b'', scanned_page ''a'']"
  by (simp add: person_observations_def scanned_db_def empty_db_def scanned_page_def sample_observation_def)

theorem deck_pages_contradict_each_other_witness:
  "\<exists>c \<in> set (claims (snd (reconcile_observations sample_env ''p1'' scanned_db))).
     c_status c = ''supported'' \<and> c_observation_ids c = [''b'', ''a'']
     \<and> strip (c_object_value c) = strip ''[No extractable text on page]''"
proof -
  let ?xs = "[scanned_page ''b'', scanned_page ''a'']"
  have xs: "?xs = filter (\<lambda>x. (ob_predicate x, ob_opportunity_id x) = (''pitch_deck_page_text'', Some ''o1''))
      (person_observations scanned_db ''p1'')"
    by (simp add: scanned_observations scanned_page_def)
  have "\<exists>v. \<forall>x \<in> set ?xs. strip (ob_object_value x) = v"
    by (simp add: scanned_page_def sample_observation_def)
  with deck_pages_contradict_each_other [OF surjective_pairing xs] show ?thesis
    by (auto simp: scanned_page_def sample_observation_def)
qed

theorem supported_needs_agreement_witness:
  "\<exists>c \<in> set (claims (snd (reconcile_observations sample_env ''p1'' scanned_db))).
     c_status c = ''supported'' \<and> 2 \<le> length (c_observation_ids c)"
proof -
  have "covered (snd (reconcile_observations sample_env ''p1'' scanned_db)) ''p1''
      ((''pitch_deck_page_text'', Some ''o1''), [scanned_page ''b'', scanned_page ''a''])"
  proof -
    have "by_predicate (person_observations scanned_db ''p1'')
        = [((''pitch_deck_page_text'', Some ''o1''), [scanned_page ''b'', scanned_page ''a''])]"
      by (simp add: scanned_observations by_predicate_def scanned_page_def)
    with reconcile_covers [where env = sample_env and p = "''p1''" and d = scanned_db, OF surjective_pairing]
    show ?thesis by simp
  qed
  then have "has_match (snd (reconcile_observations sample_env ''p1'' scanned_db)) ''p1'' (Some ''o1'')
      ''pitch_deck_page_text'' ''[No extractable text on page]'' ''supported'' [''b'', ''a'']"
    by (simp add: covered_def contradictory_def scanned_page_def sample_observation_def fromkeys_def)
  from has_match_claim [OF this] obtain c where
    c: "c \<in> set (claims (snd (reconcile_observations sample_env ''p1'' scanned_db)))" "c_status c = ''supported''" by blast
  from supported_needs_agreement [OF surjective_pairing c] have "2 \<le> length (c_observation_ids c)"
    by (auto simp: scanned_db_def empty_db_def)
  with c show ?thesis by blast
qed

theorem deck_alone_gives_no_memo_witness:
  "\<exists>n d'. process_steps (sample_process\<lparr>pc_key := []\<rparr>) sample_person observed_db = Inr (n, d')
     \<and> fst (memo_for scoring_env0 sample_person sample_opportunity ''p1'' None 1
         (memo_world0\<lparr>mw_world := (mw_world memo_world0)\<lparr>w_db := d'\<rparr>\<rparr>))
       = [(''error'', PStr ''no_accepted_claims''), (''person_id'', PStr ''p1'')]"
proof -
  let ?env = "sample_process\<lparr>pc_key := []\<rparr>"
  obtain a d1 where r: "reconcile_observations sample_env ''p1'' observed_db = (a, d1)" by force
  obtain c d' where k: "deduplicate_claims (\<lambda>xs. xs) ''p1'' d1 = (c, d')" by force
  from r k have run: "process_steps ?env sample_person observed_db = Inr ((a, 0, c), d')"
    by (simp add: process_steps_def embed_client_def embed_observations_def sample_process_def sample_person_def)
  have "distinct (map statement_of (filter (\<lambda>x. ob_subject_id x = Some (p_id sample_person)) (observations observed_db)))"
  proof -
    have "strip ''CTO'' \<noteq> strip ''CEO''" by code_simp
    then show ?thesis by (simp add: observed_db_def sample_observation_def sample_person_def statement_of_def)
  qed
  moreover have "\<forall>c \<in> set (claims observed_db). c_subject_id c = Some (p_id sample_person) \<longrightarrow> c_status c \<noteq> ''supported''"
    by (simp add: observed_db_def empty_db_def)
  ultimately have "memo_for scoring_env0 sample_person sample_opportunity ''p1'' None 1
      (memo_world0\<lparr>mw_world := (mw_world memo_world0)\<lparr>w_db := d'\<rparr>\<rparr>)
    = memo_error scoring_env0 ''p1'' None 1 ''no_accepted_claims'' (memo_world0\<lparr>mw_world := (mw_world memo_world0)\<lparr>w_db := d'\<rparr>\<rparr>)"
    by (intro deck_alone_gives_no_memo [OF run]) simp_all
  with run show ?thesis by (auto simp: memo_error_def Let_def)
qed

end
