(* ===== verification/Route_Contract.thy ===== *)
theory Route_Contract
  imports Connector_Contract Job_World
begin

text \<open>
  What the request handlers of \<^verbatim>\<open>app/api/routes\<close> share: a handler returns its response or fails, with an
  \<open>HTTPException\<close> of a status code and a detail, or with an exception nothing catches, which the server
  answers with status 500. A session that is closed without a commit leaves the database as it was.
\<close>

datatype http_failure = Http_Error nat string | Unhandled exc

fun status_code :: "http_failure \<Rightarrow> nat" where
  "status_code (Http_Error code detail) = code"
| "status_code (Unhandled e) = 500"

section \<open>Queries\<close>

text \<open>The \<open>LIKE\<close> of PostgreSQL: a percent sign is any text, an underscore any character, a backslash takes the next literally.\<close>

function sql_like :: "string \<Rightarrow> string \<Rightarrow> bool" where
  "sql_like [] s = (s = [])"
| "sql_like (p # ps) s =
     (if p = CHR 0x25 then sql_like ps s \<or> (case s of [] \<Rightarrow> False | c # cs \<Rightarrow> sql_like (p # ps) cs)
      else (case s of
          [] \<Rightarrow> False
        | c # cs \<Rightarrow>
            (if p = CHR 0x5C then (case ps of [] \<Rightarrow> False | q # qs \<Rightarrow> c = q \<and> sql_like qs cs)
             else (p = CHR ''_'' \<or> p = c) \<and> sql_like ps cs)))"
  by pat_completeness auto
termination
  by (relation "measure (\<lambda>(p, s). length p + length s)") auto

text \<open>\<open>ORDER BY created_at DESC\<close> over people; the column is never NULL in a stored row.\<close>

definition newest_people :: "person list \<Rightarrow> person list" where
  "newest_people ps = sort_key (\<lambda>p. case p_created_at p of Some t \<Rightarrow> - t | None \<Rightarrow> 0) ps"

lemma set_newest_people [simp]: "set (newest_people ps) = set ps"
  by (simp add: newest_people_def)

text \<open>A person the routes answer for.\<close>

definition active_person :: "db \<Rightarrow> uuid \<Rightarrow> person option" where
  "active_person d i = (case get_row p_id (persons d) i of
     Some p \<Rightarrow> if p_canonical p then Some p else None | None \<Rightarrow> None)"

lemma active_person_SomeD: "active_person d i = Some p \<Longrightarrow> p \<in> set (persons d) \<and> p_id p = i \<and> p_canonical p"
  by (auto simp: active_person_def split: option.splits if_splits dest: get_row_key)

text \<open>\<open>[uuid.UUID(item) for item in items]\<close>; \<open>None\<close> when one is malformed.\<close>

definition parse_uuids :: "string list \<Rightarrow> uuid list option" where
  "parse_uuids items = (let xs = map parse_uuid items in if None \<in> set xs then None else Some (map the xs))"

end
