(* ===== verification/Inbound_Intake.thy ===== *)
theory Inbound_Intake
  imports Route_Contract Inbound_Job Outbox Opportunity_Service
begin

text \<open>
  The intake of a pitch, \<^verbatim>\<open>app/api/routes/inbound.py\<close>: one request with an idempotency key becomes a
  snapshot, a founder, a deal with its clock, a submission, a queued job and the outbox event that
  names it, in one transaction. What other requests commit meanwhile is an argument.
\<close>

section \<open>State\<close>

record intake_world =
  iw_world :: world
  iw_submissions :: "inbound_submission list"
  iw_events :: "outbox_event list"

record intake_env =
  ie_store :: store_env
  ie_reader :: pdf_reader
  ie_scanner :: "string \<Rightarrow> char list \<Rightarrow> scan_outcome"
  ie_limits :: upload_settings
  ie_bracket_host :: "string \<Rightarrow> bool"
  ie_value_error :: exc
  ie_integrity :: exc

record pitch_form =
  pf_founder_name :: string
  pf_founder_email :: string
  pf_company_name :: string
  pf_file :: upload
  pf_work_sample_url :: "string option"
  pf_work_sample_description :: "string option"
  pf_learning_velocity :: "string option"
  pf_reference_context :: "string option"
  pf_interview_context :: "string option"
  pf_idempotency_key :: string

record pitch_response =
  pr_status :: string
  pr_person_id :: uuid
  pr_opportunity_id :: uuid
  pr_job_id :: "string option"

section \<open>Founder evidence\<close>

definition founder_evidence_limits :: "(string \<times> nat) list" where
  "founder_evidence_limits = [(''work_sample_url'', 2048), (''work_sample_description'', 4000),
     (''learning_velocity'', 4000), (''reference_context'', 4000), (''interview_context'', 4000)]"

text \<open>
  \<open>urlsplit\<close> down to the scheme and the network location; \<open>None\<close> is its \<open>ValueError\<close>.
  \<open>bracket_host\<close> tells which bracketed locations it takes for an address.
\<close>

definition scheme_char :: "char \<Rightarrow> bool" where
  "scheme_char c = (is_alpha c \<or> is_digit c \<or> c \<in> {CHR ''+'', CHR ''-'', CHR ''.''})"

definition split_scheme :: "string \<Rightarrow> string \<times> string" where
  "split_scheme url =
     (let head = takeWhile (\<lambda>c. c \<noteq> CHR '':'') url
      in if length head < length url \<and> head \<noteq> [] \<and> is_alpha (hd head) \<and> list_all scheme_char head
         then (lower head, drop (length head + 1) url) else ([], url))"

definition split_url :: "(string \<Rightarrow> bool) \<Rightarrow> string \<Rightarrow> (string \<times> string) option" where
  "split_url bracket_host text =
     (let url = filter (\<lambda>c. c \<notin> {CHR 0x09, CHR 0x0A, CHR 0x0D}) (dropWhile (\<lambda>c. char_code c \<le> 32) text)
      in case split_scheme url of (scheme, rest) \<Rightarrow>
        (let netloc = (if startswith rest ''//'' then takeWhile (\<lambda>c. c \<notin> {CHR ''/'', CHR ''?'', CHR ''#''}) (drop 2 rest)
               else [])
         in if (CHR ''['' \<in> set netloc) \<noteq> (CHR '']'' \<in> set netloc) then None
            else if CHR ''['' \<in> set netloc \<and> \<not> bracket_host netloc then None
            else Some (scheme, netloc)))"

definition evidence_field :: "intake_env \<Rightarrow> string \<Rightarrow> string \<Rightarrow> http_failure option" where
  "evidence_field env field v =
     (let limit = (case map_of founder_evidence_limits field of Some n \<Rightarrow> n | None \<Rightarrow> 0)
      in if limit < length v
         then Some (Http_Error 400 (field @ '' exceeds '' @ nat_str limit @ '' characters''))
         else if field = ''work_sample_url''
         then (case split_url (ie_bracket_host env) v of
             None \<Rightarrow> Some (Unhandled (ie_value_error env))
           | Some (scheme, netloc) \<Rightarrow>
               if scheme \<notin> {''http'', ''https''} \<or> netloc = []
               then Some (Http_Error 400 ''work_sample_url must be an HTTP(S) URL'') else None)
         else None)"

fun founder_evidence :: "intake_env \<Rightarrow> (string \<times> string option) list \<Rightarrow> http_failure + string dict" where
  "founder_evidence env [] = Inr []"
| "founder_evidence env ((field, raw) # rest) =
     (let v = strip (str_or raw [])
      in if v = [] then founder_evidence env rest
         else (case evidence_field env field v of
             Some e \<Rightarrow> Inl e
           | None \<Rightarrow> (case founder_evidence env rest of Inl e \<Rightarrow> Inl e | Inr d \<Rightarrow> Inr ((field, v) # d))))"

definition evidence_fields :: "pitch_form \<Rightarrow> (string \<times> string option) list" where
  "evidence_fields f = [(''work_sample_url'', pf_work_sample_url f),
     (''work_sample_description'', pf_work_sample_description f), (''learning_velocity'', pf_learning_velocity f),
     (''reference_context'', pf_reference_context f), (''interview_context'', pf_interview_context f)]"

section \<open>Concurrent requests\<close>

text \<open>What other transactions commit between two points of a request, within the unique indexes.\<close>

record commits =
  cm_persons :: "person list"
  cm_organizations :: "organization list"
  cm_submissions :: "inbound_submission list"
  cm_events :: "outbox_event list"

definition unique_on :: "('r \<Rightarrow> string) \<Rightarrow> 'r list \<Rightarrow> 'r list \<Rightarrow> 'r list" where
  "unique_on key new rows = commit_rivals (\<lambda>r. Some (key r)) new rows"

definition with_commits :: "commits \<Rightarrow> intake_world \<Rightarrow> intake_world" where
  "with_commits c w =
     (let v = iw_world w; d = w_db v
      in w\<lparr>iw_world := v\<lparr>w_db := d\<lparr>persons := unique_on p_stable_id (cm_persons c) (persons d),
             organizations := unique_on org_stable_id (cm_organizations c) (organizations d)\<rparr>\<rparr>,
           iw_submissions := unique_on sub_idempotency_key (cm_submissions c) (iw_submissions w),
           iw_events := unique_on ob_dedupe_key (cm_events c) (iw_events w)\<rparr>)"

section \<open>The request\<close>

definition submission_with :: "intake_world \<Rightarrow> string \<Rightarrow> inbound_submission option" where
  "submission_with w key = find (\<lambda>s. sub_idempotency_key s = key) (iw_submissions w)"

definition submitted_job_id :: "codec \<Rightarrow> intake_world \<Rightarrow> string \<Rightarrow> string option" where
  "submitted_job_id cx w key =
     (case find (\<lambda>e. ob_dedupe_key e = ''inbound-submission:'' @ key) (iw_events w) of
        None \<Rightarrow> None
      | Some e \<Rightarrow>
          (case get_or (ob_payload e) ''kwargs'' (PDict []) of
             PDict kwargs \<Rightarrow>
               (case dget kwargs ''job_id'' of
                  None \<Rightarrow> None | Some v \<Rightarrow> if v = PNone then None else Some (py_str cx v))
           | _ \<Rightarrow> None))"

definition existing_response :: "codec \<Rightarrow> intake_world \<Rightarrow> inbound_submission \<Rightarrow> pitch_response" where
  "existing_response cx w s =
     \<lparr>pr_status = sub_status s, pr_person_id = sub_person_id s, pr_opportunity_id = sub_opportunity_id s,
      pr_job_id = submitted_job_id cx w (sub_idempotency_key s)\<rparr>"

definition inbound_founder :: "uuid \<Rightarrow> instant \<Rightarrow> pitch_form \<Rightarrow> person" where
  "inbound_founder i now f =
     \<lparr>p_id = i, p_stable_id = ''email:'' @ strip (lower (pf_founder_email f)), p_display_name = Some (pf_founder_name f),
      p_email = Some (pf_founder_email f), p_handles = Some [(''email'', pf_founder_email f)],
      p_consent_state = ''pending'', p_legal_basis = None, p_notice_version = None, p_purposes = PDict [],
      p_provider_policy = None, p_retention_days = PNone, p_residency = None, p_avatar_data = None,
      p_avatar_mime_type = None, p_avatar_sha256 = None, p_avatar_source_type = None, p_avatar_source_url = None,
      p_avatar_image_url = None, p_avatar_fetched_at = None, p_superseded_by = None, p_canonical = True,
      p_merged_at = None, p_created_at = Some now\<rparr>"

definition deck_snapshot :: "store_env \<Rightarrow> string option \<Rightarrow> string \<Rightarrow> string \<Rightarrow> nat \<Rightarrow> source_snapshot" where
  "deck_snapshot se filename content_hash path n =
     \<lparr>sn_id = sv_id se ''source_snapshots'' n, sn_uri = ''inbound://'' @ str_or filename ''None'',
      sn_source_type = ''inbound_deck'', sn_content_hash = content_hash, sn_fingerprint = None,
      sn_storage_path = path, sn_license_metadata = None,
      sn_use_policy = PDict (build_source_use_policy ''inbound_deck''
        (Some [(''source'', PStr ''founder-provided''), (''model_use'', PStr ''allowed'')])),
      sn_collected_at = sv_now se\<rparr>"

definition intake_founder :: "intake_env \<Rightarrow> pitch_form \<Rightarrow> db \<Rightarrow> person \<times> db" where
  "intake_founder env f d =
     (case find (\<lambda>p. p_stable_id p = ''email:'' @ strip (lower (pf_founder_email f))) (persons d) of
        Some p \<Rightarrow> (p, d)
      | None \<Rightarrow> (let p = inbound_founder (sv_id (ie_store env) ''persons'' (length (persons d))) (sv_now (ie_store env)) f
                in (p, d\<lparr>persons := persons d @ [p]\<rparr>)))"

text \<open>
  The rows of a new submission, from the snapshot to the outbox event. \<open>Inl\<close> is the unique index that
  refuses the founder or the organization in a flush before the commit.
\<close>

definition pitch_rows :: "intake_env \<Rightarrow> commits \<Rightarrow> pitch_form \<Rightarrow> string dict \<Rightarrow> string \<Rightarrow> string \<Rightarrow> string \<Rightarrow> intake_world
    \<Rightarrow> http_failure + (inbound_submission \<times> string \<times> intake_world)" where
  "pitch_rows env late f evidence key content_hash path w =
     (let se = ie_store env; v = iw_world w; d = w_db v;
          s = deck_snapshot se (up_filename (pf_file f)) content_hash path (length (w_snapshots v));
          (p, d1) = intake_founder env f d
      in if persons d1 \<noteq> persons d \<and> list_ex (\<lambda>q. p_stable_id q = p_stable_id p) (cm_persons late)
         then Inl (Unhandled (ie_integrity env))
         else (let (opp, d2) = create_inbound_opportunity (sv_md5 se) (sv_now se) (sv_id se ''organizations'' (length (organizations d)))
                     (sv_id se ''opportunities'' (length (opportunities d))) d1 p (Some (pf_company_name f)) None
               in if organizations d2 \<noteq> organizations d
                     \<and> list_ex (\<lambda>g. org_stable_id g = org_stable_id (last (organizations d2))) (cm_organizations late)
                  then Inl (Unhandled (ie_integrity env))
                  else (let d3 = record_channel_touch (sv_now se) d2 (o_id opp) ''inbound_application'' ''application_received''
                              None (Some (sn_id s)) (Some [(''source_type'', PStr ''founder_submission'')]);
                            sub = \<lparr>sub_idempotency_key = key, sub_person_id = p_id p, sub_opportunity_id = o_id opp,
                              sub_snapshot_id = sn_id s, sub_status = ''accepted'', sub_founder_evidence = evidence\<rparr>;
                            (job, jobs) = create_job (sv_id se ''job_runs'' (length (w_jobs v))) (w_jobs v) ''process_inbound_pitch'';
                            ev = inbound_outbox_event sub (pf_company_name f) (Some (j_id job)) (sv_now se)
                        in Inr (sub, j_id job, w\<lparr>iw_world := v\<lparr>w_db := d3, w_snapshots := w_snapshots v @ [s], w_jobs := jobs\<rparr>,
                             iw_submissions := iw_submissions w @ [sub], iw_events := iw_events w @ [ev]\<rparr>))))"

text \<open>
  \<open>early\<close> is committed by others after the key was looked up, \<open>late\<close> after the founder was. A commit whose
  key was used meanwhile is rolled back and answered from the row that is there.
\<close>

definition store_pitch :: "intake_env \<Rightarrow> commits \<Rightarrow> commits \<Rightarrow> pitch_form \<Rightarrow> string dict \<Rightarrow> string \<Rightarrow> char list
    \<Rightarrow> intake_world \<Rightarrow> (http_failure + pitch_response) \<times> intake_world" where
  "store_pitch env early late f evidence key content w =
     (case put_snapshot (sv_sha (ie_store env)) (w_objects (iw_world w)) content ''inbound_deck'' of
        ((content_hash, path), objects) \<Rightarrow>
          (let w1 = with_commits early (w\<lparr>iw_world := (iw_world w)\<lparr>w_objects := objects\<rparr>\<rparr>);
               w2 = with_commits late w1
           in case pitch_rows env late f evidence key content_hash path w1 of
                Inl e \<Rightarrow> (Inl e, w2)
              | Inr (sub, job_id, w3) \<Rightarrow>
                  (if submission_with w2 key = None
                      \<and> \<not> list_ex (\<lambda>e. ob_dedupe_key e = ''inbound-submission:'' @ key) (iw_events w2)
                   then (Inr \<lparr>pr_status = sub_status sub, pr_person_id = sub_person_id sub,
                           pr_opportunity_id = sub_opportunity_id sub, pr_job_id = Some job_id\<rparr>, with_commits late w3)
                   else (case submission_with w2 key of
                           None \<Rightarrow> (Inl (Unhandled (ie_integrity env)), w2)
                         | Some s \<Rightarrow> (Inr (existing_response (sv_codec (ie_store env)) w2 s), w2)))))"

definition submit_pitch :: "intake_env \<Rightarrow> commits \<Rightarrow> commits \<Rightarrow> pitch_form \<Rightarrow> intake_world
    \<Rightarrow> (http_failure + pitch_response) \<times> intake_world" where
  "submit_pitch env early late f w =
     (let key = strip (pf_idempotency_key f)
      in if \<not> (1 \<le> length key \<and> length key \<le> 128)
         then (Inl (Http_Error 400 ''Idempotency-Key must be 1-128 characters''), w)
         else (case founder_evidence env (evidence_fields f) of
             Inl e \<Rightarrow> (Inl e, w)
           | Inr evidence \<Rightarrow>
               (case submission_with w key of
                  Some s \<Rightarrow> (Inr (existing_response (sv_codec (ie_store env)) w s), w)
                | None \<Rightarrow>
                    (case quarantine_pitch_upload (ie_reader env) (ie_scanner env) (ie_limits env) (pf_file f) of
                       Inl msg \<Rightarrow> (Inl (Http_Error 400 msg), w)
                     | Inr content \<Rightarrow> store_pitch env early late f evidence key content w))))"

section \<open>Commits of others\<close>

definition no_commits :: commits where
  "no_commits = \<lparr>cm_persons = [], cm_organizations = [], cm_submissions = [], cm_events = []\<rparr>"

lemma unique_on_Nil [simp]: "unique_on key [] rows = rows"
  by (simp add: unique_on_def commit_rivals_def)

lemma with_no_commits [simp]: "with_commits no_commits w = w"
  by (simp add: with_commits_def no_commits_def Let_def)

lemma unique_on_snoc:
  "unique_on key (new @ [r]) rows = (let acc = unique_on key new rows
     in if list_ex (\<lambda>x. key x = key r) acc then acc else acc @ [r])"
  by (simp add: unique_on_def commit_rivals_def unique_insert_def Let_def)

lemma unique_on_grows: "\<exists>more. unique_on key new rows = rows @ more"
proof (induction new rule: rev_induct)
  case (snoc r new)
  then show ?case by (auto simp: unique_on_snoc Let_def)
qed simp

lemma unique_on_distinct: "distinct (map key rows) \<Longrightarrow> distinct (map key (unique_on key new rows))"
proof (induction new rule: rev_induct)
  case (snoc r new)
  then show ?case by (auto simp: unique_on_snoc Let_def list_ex_iff)
qed simp

lemma unique_on_keys: "key ` set (unique_on key new rows) = key ` set rows \<union> key ` set new"
proof (induction new rule: rev_induct)
  case (snoc r new)
  have "list_ex (\<lambda>x. key x = key r) (unique_on key new rows) \<longleftrightarrow> key r \<in> key ` set (unique_on key new rows)"
    unfolding list_ex_iff image_iff by metis
  with snoc.IH show ?case by (simp add: unique_on_snoc Let_def) blast
qed simp

lemma find_unique_on:
  assumes "find P rows = Some x" shows "find P (unique_on key new rows) = Some x"
  using unique_on_grows [of key new rows] assms by (auto simp: find_append)

lemma with_commits_fields [simp]:
  "iw_submissions (with_commits c w) = unique_on sub_idempotency_key (cm_submissions c) (iw_submissions w)"
  "iw_events (with_commits c w) = unique_on ob_dedupe_key (cm_events c) (iw_events w)"
  "w_snapshots (iw_world (with_commits c w)) = w_snapshots (iw_world w)"
  "w_jobs (iw_world (with_commits c w)) = w_jobs (iw_world w)"
  "w_objects (iw_world (with_commits c w)) = w_objects (iw_world w)"
  by (simp_all add: with_commits_def Let_def)

section \<open>The rows of a submission\<close>

lemma intake_founder_result:
  assumes "intake_founder env f d = (p, d1)"
  shows "p \<in> set (persons d1) \<and> p_stable_id p = ''email:'' @ strip (lower (pf_founder_email f))
    \<and> d1 = d\<lparr>persons := persons d1\<rparr> \<and> set (persons d) \<subseteq> set (persons d1)"
proof (cases "find (\<lambda>p. p_stable_id p = ''email:'' @ strip (lower (pf_founder_email f))) (persons d)")
  case None
  with assms show ?thesis by (auto simp: intake_founder_def inbound_founder_def Let_def)
next
  case (Some q)
  then have "q \<in> set (persons d) \<and> p_stable_id q = ''email:'' @ strip (lower (pf_founder_email f))"
    by (auto simp: find_Some_iff)
  with Some assms show ?thesis by (auto simp: intake_founder_def)
qed

lemma inbound_opportunity_result:
  assumes "create_inbound_opportunity md5 now i j d p c t = (opp, d')"
  shows "persons d' = persons d \<and> opportunities d' = opportunities d @ [opp] \<and> o_source_kind opp = ''inbound''
    \<and> o_lifecycle_state opp = ''received'' \<and> o_received_at opp \<noteq> None"
  using assms by (auto simp: create_inbound_opportunity_def get_or_create_organization_def add_opportunity_def Let_def
      initialize_sla_def new_opportunity_def split: option.splits if_splits prod.splits)

lemma deck_snapshot_fields [simp]:
  "sn_id (deck_snapshot se fn h path n) = sv_id se ''source_snapshots'' n" "sn_storage_path (deck_snapshot se fn h path n) = path"
  by (simp_all add: deck_snapshot_def)

lemma deck_snapshot_allowed: "source_allows_model_use (deck_snapshot se fn h path n)"
  by (simp add: deck_snapshot_def build_source_use_policy_def Let_def dget_dupdate)

lemma pitch_rows_result:
  assumes "pitch_rows env late f evidence key h path w = Inr (sub, job_id, w')"
  shows "\<exists>d s. w' = w\<lparr>iw_world := (iw_world w)\<lparr>w_db := d, w_snapshots := w_snapshots (iw_world w) @ [s],
        w_jobs := snd (create_job job_id (w_jobs (iw_world w)) ''process_inbound_pitch'')\<rparr>,
      iw_submissions := iw_submissions w @ [sub],
      iw_events := iw_events w @ [inbound_outbox_event sub (pf_company_name f) (Some job_id) (sv_now (ie_store env))]\<rparr>
    \<and> sub_idempotency_key sub = key \<and> sub_status sub = ''accepted'' \<and> sub_founder_evidence sub = evidence
    \<and> sn_id s = sub_snapshot_id sub \<and> sn_storage_path s = path \<and> source_allows_model_use s
    \<and> sn_id s = sv_id (ie_store env) ''source_snapshots'' (length (w_snapshots (iw_world w)))
    \<and> (\<exists>p \<in> set (persons d). p_id p = sub_person_id sub \<and> p_stable_id p = ''email:'' @ strip (lower (pf_founder_email f)))
    \<and> (\<exists>opp \<in> set (opportunities d). o_id opp = sub_opportunity_id sub \<and> o_source_kind opp = ''inbound''
         \<and> o_lifecycle_state opp = ''received'' \<and> o_received_at opp \<noteq> None)
    \<and> set (persons (w_db (iw_world w))) \<subseteq> set (persons d)
    \<and> set (opportunities (w_db (iw_world w))) \<subseteq> set (opportunities d)"
proof -
  let ?se = "ie_store env" let ?d = "w_db (iw_world w)"
  obtain p d1 where f: "intake_founder env f ?d = (p, d1)" by force
  obtain opp d2 where c: "create_inbound_opportunity (sv_md5 ?se) (sv_now ?se) (sv_id ?se ''organizations'' (length (organizations ?d)))
        (sv_id ?se ''opportunities'' (length (opportunities ?d))) d1 p (Some (pf_company_name f)) None = (opp, d2)"
    by (metis prod.exhaust)
  let ?s = "deck_snapshot ?se (up_filename (pf_file f)) h path (length (w_snapshots (iw_world w)))"
  let ?d3 = "record_channel_touch (sv_now ?se) d2 (o_id opp) ''inbound_application'' ''application_received''
     None (Some (sn_id ?s)) (Some [(''source_type'', PStr ''founder_submission'')])"
  have rows: "persons ?d3 = persons d2" "opportunities ?d3 = opportunities d2" by (simp_all add: record_channel_touch_def)
  note founder = intake_founder_result [OF f]
  then have old: "opportunities d1 = opportunities ?d" by (metis db.select_convs(3) db.surjective db.update_convs(1))
  note opp = inbound_opportunity_result [OF c]
  show ?thesis
    apply (rule exI [of _ ?d3], rule exI [of _ ?s])
    using assms f c founder opp old rows deck_snapshot_allowed
    by (auto simp: pitch_rows_def Let_def create_job_def simp del: source_allows_model_use.simps split: if_splits)
qed

section \<open>Accepted once\<close>

text \<open>What an accepted submission refers to is on file, and one event names its job.\<close>

definition linked :: "intake_world \<Rightarrow> inbound_submission \<Rightarrow> bool" where
  "linked w s =
     ((\<exists>p \<in> set (persons (w_db (iw_world w))). p_id p = sub_person_id s)
      \<and> (\<exists>x \<in> set (opportunities (w_db (iw_world w))). o_id x = sub_opportunity_id s)
      \<and> (\<exists>n \<in> set (w_snapshots (iw_world w)). sn_id n = sub_snapshot_id s)
      \<and> (\<exists>e \<in> set (iw_events w). \<exists>j \<in> set (w_jobs (iw_world w)). ob_dedupe_key e = ''inbound-submission:'' @ sub_idempotency_key s
           \<and> ob_aggregate_id e = sub_opportunity_id s \<and> j_type j = ''process_inbound_pitch''
           \<and> (case get_or (ob_payload e) ''kwargs'' PNone of PDict k \<Rightarrow> dget k ''job_id'' = Some (PStr (j_id j)) | _ \<Rightarrow> False)))"

definition intake_ok :: "intake_world \<Rightarrow> bool" where
  "intake_ok w = (distinct (map sub_idempotency_key (iw_submissions w)) \<and> distinct (map ob_dedupe_key (iw_events w))
     \<and> (\<forall>s \<in> set (iw_submissions w). linked w s))"

lemma submission_with_None: "submission_with w key = None \<longleftrightarrow> key \<notin> sub_idempotency_key ` set (iw_submissions w)"
  by (auto simp: submission_with_def find_None_iff)

lemma event_kwargs:
  "get_or (ob_payload (inbound_outbox_event sub company (Some job) now)) ''kwargs'' dflt = PDict
     [(''person_id'', PStr (sub_person_id sub)), (''snapshot_id'', PStr (sub_snapshot_id sub)),
      (''opportunity_id'', PStr (sub_opportunity_id sub)), (''company_name'', PStr company),
      (''founder_evidence'', PDict (map (\<lambda>(k, v). (k, PStr v)) (sub_founder_evidence sub))), (''job_id'', PStr job)]"
  "ob_dedupe_key (inbound_outbox_event sub company j now) = ''inbound-submission:'' @ sub_idempotency_key sub"
  "ob_aggregate_id (inbound_outbox_event sub company j now) = sub_opportunity_id sub"
  by (simp_all add: inbound_outbox_event_def Let_def get_or_def)

lemma evidence_field_error:
  "evidence_field env field v = Some e \<Longrightarrow> e = Unhandled (ie_value_error env) \<or> (\<exists>m. e = Http_Error 400 m)"
  by (auto simp: evidence_field_def Let_def split: if_splits option.splits prod.splits)

lemma founder_evidence_error:
  "founder_evidence env fs = Inl e \<Longrightarrow> e = Unhandled (ie_value_error env) \<or> (\<exists>m. e = Http_Error 400 m)"
  by (induction env fs rule: founder_evidence.induct)
    (auto simp: Let_def dest: evidence_field_error split: if_splits option.splits sum.splits)

text \<open>How a request ends.\<close>

lemma submit_pitch_cases:
  assumes "submit_pitch env early late f w = (res, w')"
  obtains (refused) m where "res = Inl (Http_Error 400 m) \<or> res = Inl (Unhandled (ie_value_error env))" "w' = w"
  | (repeated) s where "submission_with w (strip (pf_idempotency_key f)) = Some s" "w' = w"
      "res = Inr (existing_response (sv_codec (ie_store env)) w s)"
  | (stored) evidence content where "submission_with w (strip (pf_idempotency_key f)) = None"
      "founder_evidence env (evidence_fields f) = Inr evidence"
      "quarantine_pitch_upload (ie_reader env) (ie_scanner env) (ie_limits env) (pf_file f) = Inr content"
      "store_pitch env early late f evidence (strip (pf_idempotency_key f)) content w = (res, w')"
proof -
  let ?key = "strip (pf_idempotency_key f)"
  show thesis
  proof (cases "1 \<le> length ?key \<and> length ?key \<le> 128")
    case False
    with assms have "res = Inl (Http_Error 400 ''Idempotency-Key must be 1-128 characters'') \<and> w' = w"
      unfolding submit_pitch_def Let_def by simp
    with refused show thesis by blast
  next
    case len: True
    note run = assms [unfolded submit_pitch_def Let_def if_not_P [OF iffD2 [OF not_not len]]]
    show thesis
    proof (cases "founder_evidence env (evidence_fields f)")
      case (Inl e)
      with run have "res = Inl e \<and> w' = w" by simp
      with founder_evidence_error [OF Inl] refused show thesis by blast
    next
      case evid: (Inr evidence)
      show thesis
      proof (cases "submission_with w ?key")
        case (Some s)
        with run evid have "res = Inr (existing_response (sv_codec (ie_store env)) w s) \<and> w' = w" by auto
        with repeated [OF Some] show thesis by blast
      next
        case none: None
        show thesis
        proof (cases "quarantine_pitch_upload (ie_reader env) (ie_scanner env) (ie_limits env) (pf_file f)")
          case (Inl msg)
          with run evid none have "res = Inl (Http_Error 400 msg) \<and> w' = w" by simp
          with refused show thesis by blast
        next
          case (Inr content)
          with run evid none have "store_pitch env early late f evidence ?key content w = (res, w')" by simp
          with stored [OF none evid Inr] show thesis by blast
        qed
      qed
    qed
  qed
qed

lemma pitch_rows_error: "pitch_rows env late f evidence key h path w = Inl e \<Longrightarrow> e = Unhandled (ie_integrity env)"
  by (auto simp: pitch_rows_def Let_def split: prod.splits if_splits)

lemma store_pitch_cases:
  assumes "store_pitch env early late f evidence key content w = (res, w')"
    and "put_snapshot (sv_sha (ie_store env)) (w_objects (iw_world w)) content ''inbound_deck'' = ((h, path), objects)"
  obtains (escaped) "res = Inl (Unhandled (ie_integrity env))"
      "w' = with_commits late (with_commits early (w\<lparr>iw_world := (iw_world w)\<lparr>w_objects := objects\<rparr>\<rparr>))"
  | (raced) s where "submission_with w' key = Some s" "res = Inr (existing_response (sv_codec (ie_store env)) w' s)"
      "w' = with_commits late (with_commits early (w\<lparr>iw_world := (iw_world w)\<lparr>w_objects := objects\<rparr>\<rparr>))"
  | (accepted) sub job w3 where
      "pitch_rows env late f evidence key h path (with_commits early (w\<lparr>iw_world := (iw_world w)\<lparr>w_objects := objects\<rparr>\<rparr>)) = Inr (sub, job, w3)"
      "submission_with (with_commits late (with_commits early (w\<lparr>iw_world := (iw_world w)\<lparr>w_objects := objects\<rparr>\<rparr>))) key = None"
      "\<not> list_ex (\<lambda>e. ob_dedupe_key e = ''inbound-submission:'' @ key)
          (iw_events (with_commits late (with_commits early (w\<lparr>iw_world := (iw_world w)\<lparr>w_objects := objects\<rparr>\<rparr>))))"
      "w' = with_commits late w3"
      "res = Inr \<lparr>pr_status = sub_status sub, pr_person_id = sub_person_id sub, pr_opportunity_id = sub_opportunity_id sub,
         pr_job_id = Some job\<rparr>"
proof -
  let ?w1 = "with_commits early (w\<lparr>iw_world := (iw_world w)\<lparr>w_objects := objects\<rparr>\<rparr>)" let ?w2 = "with_commits late ?w1"
  note run = assms(1) [unfolded store_pitch_def assms(2) prod.case Let_def]
  show thesis
  proof (cases "pitch_rows env late f evidence key h path ?w1")
    case (Inl e)
    with run have "res = Inl e \<and> w' = ?w2" by simp
    with pitch_rows_error [OF Inl] escaped show thesis by blast
  next
    case (Inr x)
    obtain sub job w3 where x: "x = (sub, job, w3)" by (metis prod.exhaust)
    show thesis
    proof (cases "submission_with ?w2 key = None
        \<and> \<not> list_ex (\<lambda>e. ob_dedupe_key e = ''inbound-submission:'' @ key) (iw_events ?w2)")
      case True
      with run Inr x have "res = Inr \<lparr>pr_status = sub_status sub, pr_person_id = sub_person_id sub,
          pr_opportunity_id = sub_opportunity_id sub, pr_job_id = Some job\<rparr> \<and> w' = with_commits late w3" by simp
      then show thesis using accepted [OF Inr [unfolded x] conjunct1 [OF True] conjunct2 [OF True]] by (elim conjE)
    next
      case False
      show thesis
      proof (cases "submission_with ?w2 key")
        case None
        with run Inr x False have "res = Inl (Unhandled (ie_integrity env)) \<and> w' = ?w2" by simp
        with escaped show thesis by blast
      next
        case (Some s)
        with run Inr x False have "res = Inr (existing_response (sv_codec (ie_store env)) ?w2 s) \<and> w' = ?w2" by auto
        with raced [of s] Some show thesis by blast
      qed
    qed
  qed
qed

lemma linked_mono:
  assumes "linked w s" and "set (persons (w_db (iw_world w))) \<subseteq> set (persons (w_db (iw_world w')))"
    and "set (opportunities (w_db (iw_world w))) \<subseteq> set (opportunities (w_db (iw_world w')))"
    and "set (w_snapshots (iw_world w)) \<subseteq> set (w_snapshots (iw_world w'))" and "set (iw_events w) \<subseteq> set (iw_events w')"
    and "set (w_jobs (iw_world w)) \<subseteq> set (w_jobs (iw_world w'))"
  shows "linked w' s"
  using assms unfolding linked_def by (meson subsetD)

lemma put_snapshot_stored:
  assumes "put_snapshot sha objects content kind = ((h, path), objects')"
    and "dget objects (object_path kind (sha content)) \<in> {None, Some content}"
  shows "get_snapshot objects' path = Some content"
  using assms by (auto simp: put_snapshot_def get_snapshot_def Let_def split: if_splits)


section \<open>Retries\<close>

lemma submit_key_length:
  "submit_pitch env early late f w = (Inr r, w') \<Longrightarrow>
    1 \<le> length (strip (pf_idempotency_key f)) \<and> length (strip (pf_idempotency_key f)) \<le> 128"
  by (rule ccontr) (simp add: submit_pitch_def Let_def)

lemma submit_known:
  assumes "submission_with w (strip (pf_idempotency_key f)) = Some s" and "founder_evidence env (evidence_fields f) = Inr evidence"
    and "1 \<le> length (strip (pf_idempotency_key f))" and "length (strip (pf_idempotency_key f)) \<le> 128"
  shows "submit_pitch env early late f w = (Inr (existing_response (sv_codec (ie_store env)) w s), w)"
  using assms by (simp add: submit_pitch_def Let_def)

lemma accepted_on_file:
  assumes "submission_with w2 key = None" and "\<not> list_ex (\<lambda>e. ob_dedupe_key e = ''inbound-submission:'' @ key) (iw_events w2)"
    and "\<exists>more. iw_submissions w2 = iw_submissions w1 @ more" and "\<exists>more. iw_events w2 = iw_events w1 @ more"
    and "iw_submissions w3 = iw_submissions w1 @ [sub]" and "sub_idempotency_key sub = key"
    and "iw_events w3 = iw_events w1 @ [inbound_outbox_event sub company (Some job) now]"
  shows "submission_with (with_commits late w3) key = Some sub
    \<and> submitted_job_id cx (with_commits late w3) key = Some job"
proof -
  have none: "find (\<lambda>s. sub_idempotency_key s = key) (iw_submissions w1) = None"
    using assms(1,3) by (auto simp: submission_with_def find_None_iff)
  have none': "find (\<lambda>e. ob_dedupe_key e = ''inbound-submission:'' @ key) (iw_events w1) = None"
    using assms(2,4) by (auto simp: list_ex_iff find_None_iff)
  have "find (\<lambda>s. sub_idempotency_key s = key) (iw_submissions w3) = Some sub"
    using none assms(5,6) by (simp add: find_append)
  then have s: "submission_with (with_commits late w3) key = Some sub"
    unfolding submission_with_def with_commits_fields by (rule find_unique_on)
  have "find (\<lambda>e. ob_dedupe_key e = ''inbound-submission:'' @ key) (iw_events w3)
      = Some (inbound_outbox_event sub company (Some job) now)"
    using none' assms(6,7) by (simp add: find_append event_kwargs)
  from find_unique_on [OF this] have "find (\<lambda>e. ob_dedupe_key e = ''inbound-submission:'' @ key) (iw_events (with_commits late w3))
      = Some (inbound_outbox_event sub company (Some job) now)" by simp
  then have "submitted_job_id cx (with_commits late w3) key = Some job"
    unfolding submitted_job_id_def by (simp add: event_kwargs py_str_def)
  with s show ?thesis by blast
qed

lemma with_commits_more:
  "\<exists>more. iw_submissions (with_commits c w) = iw_submissions w @ more" "\<exists>more. iw_events (with_commits c w) = iw_events w @ more"
  by (simp_all add: unique_on_grows)

text \<open>
  A retry gets the same answer: once a key was accepted, every request with that key and valid evidence,
  whatever else it says and whatever others commit meanwhile, is answered with the same founder, deal and
  job, and changes nothing.
\<close>

theorem pitch_retry_same_answer:
  assumes "submit_pitch env early late f w = (Inr r, w')" and "strip (pf_idempotency_key f') = strip (pf_idempotency_key f)"
    and "founder_evidence env' (evidence_fields f') = Inr evidence'" and "sv_codec (ie_store env') = sv_codec (ie_store env)"
  shows "submit_pitch env' early' late' f' w' = (Inr r, w')"
proof -
  let ?key = "strip (pf_idempotency_key f)"
  have again: "submit_pitch env' early' late' f' w' = (Inr r, w')"
    if "submission_with w' ?key = Some s" and "r = existing_response (sv_codec (ie_store env)) w' s" for s
    using submit_known [of w' f' s env' evidence' early' late'] submit_key_length [OF assms(1)] that assms(2-4) by simp
  from assms(1) show ?thesis
  proof (cases rule: submit_pitch_cases)
    case (repeated s)
    with again [of s] show ?thesis by simp
  next
    case (stored evidence content)
    obtain h path objects where put: "put_snapshot (sv_sha (ie_store env)) (w_objects (iw_world w)) content ''inbound_deck'' = ((h, path), objects)"
      by (metis prod.exhaust)
    from stored(4) put show ?thesis
    proof (cases rule: store_pitch_cases)
      case (raced s)
      with again [of s] show ?thesis by simp
    next
      case (accepted sub job w3)
      let ?w1 = "with_commits early (w\<lparr>iw_world := (iw_world w)\<lparr>w_objects := objects\<rparr>\<rparr>)"
      from pitch_rows_result [OF accepted(1)] have w3: "iw_submissions w3 = iw_submissions ?w1 @ [sub]"
        "iw_events w3 = iw_events ?w1 @ [inbound_outbox_event sub (pf_company_name f) (Some job) (sv_now (ie_store env))]"
        "sub_idempotency_key sub = ?key" by auto
      note stored_rows = accepted_on_file [OF accepted(2,3) with_commits_more w3(1,3,2), of late]
      have "r = existing_response (sv_codec (ie_store env)) w' sub"
        using stored_rows accepted(4,5) w3(3) by (simp add: existing_response_def)
      with stored_rows accepted(4) show ?thesis by (intro again [of sub]) simp_all
    qed simp
  qed auto
qed

text \<open>
  A concurrent retry of a new founder is not answered but fails: when the twin request commits the founder after
  this one looked for it, the flush of the founder raises, outside the handler that would re-read the
  submission, although the submission with the key is then on file.
\<close>

theorem concurrent_retry_escapes:
  assumes "1 \<le> length (strip (pf_idempotency_key f))" and "length (strip (pf_idempotency_key f)) \<le> 128"
    and "founder_evidence env (evidence_fields f) = Inr evidence" and "submission_with w (strip (pf_idempotency_key f)) = None"
    and "quarantine_pitch_upload (ie_reader env) (ie_scanner env) (ie_limits env) (pf_file f) = Inr content"
    and "\<forall>p \<in> set (persons (w_db (iw_world (with_commits early w)))). p_stable_id p \<noteq> ''email:'' @ strip (lower (pf_founder_email f))"
    and "q \<in> set (cm_persons late)" and "p_stable_id q = ''email:'' @ strip (lower (pf_founder_email f))"
    and "s \<in> set (cm_submissions late)" and "sub_idempotency_key s = strip (pf_idempotency_key f)"
  shows "\<exists>w'. submit_pitch env early late f w = (Inl (Unhandled (ie_integrity env)), w')
    \<and> submission_with w' (strip (pf_idempotency_key f)) \<noteq> None"
proof -
  obtain h path objects where put: "put_snapshot (sv_sha (ie_store env)) (w_objects (iw_world w)) content ''inbound_deck'' = ((h, path), objects)"
    by (metis prod.exhaust)
  let ?w1 = "with_commits early (w\<lparr>iw_world := (iw_world w)\<lparr>w_objects := objects\<rparr>\<rparr>)"
  have ps: "persons (w_db (iw_world ?w1)) = persons (w_db (iw_world (with_commits early w)))"
    by (simp add: with_commits_def Let_def)
  have "find (\<lambda>p. p_stable_id p = ''email:'' @ strip (lower (pf_founder_email f))) (persons (w_db (iw_world ?w1))) = None"
    unfolding ps using assms(6) by (simp add: find_None_iff)
  then obtain p where "intake_founder env f (w_db (iw_world ?w1)) = (p, (w_db (iw_world ?w1))\<lparr>persons := persons (w_db (iw_world ?w1)) @ [p]\<rparr>)"
    by (simp add: intake_founder_def Let_def)
  moreover from intake_founder_result [OF this] have "list_ex (\<lambda>q. p_stable_id q = p_stable_id p) (cm_persons late)"
    using assms(7,8) by (auto simp: list_ex_iff)
  ultimately have "pitch_rows env late f evidence (strip (pf_idempotency_key f)) h path ?w1 = Inl (Unhandled (ie_integrity env))"
    by (simp add: pitch_rows_def Let_def)
  with assms put have "submit_pitch env early late f w = (Inl (Unhandled (ie_integrity env)), with_commits late ?w1)"
    by (simp add: submit_pitch_def store_pitch_def Let_def)
  moreover have "strip (pf_idempotency_key f) \<in> sub_idempotency_key ` set (cm_submissions late)"
    using assms(9,10) by (metis imageI)
  then have "submission_with (with_commits late ?w1) (strip (pf_idempotency_key f)) \<noteq> None"
    using unique_on_keys [of sub_idempotency_key "cm_submissions late" "iw_submissions ?w1"]
    by (simp add: submission_with_None del: not_None_eq)
  ultimately show ?thesis by blast
qed

section \<open>From the intake to the worker\<close>

text \<open>The keyword arguments an event holds, as the call of the worker's job.\<close>

definition delivered_call :: "pyval dict \<Rightarrow> (inbound_call \<times> string option) option" where
  "delivered_call k =
     (case (dget k ''person_id'', dget k ''snapshot_id'', dget k ''opportunity_id'', dget k ''company_name'') of
        (Some (PStr p), Some (PStr s), Some (PStr x), Some (PStr company)) \<Rightarrow>
          Some (\<lparr>ic_person = p, ic_snapshot = s, ic_opportunity = x, ic_company = company,
              ic_evidence = (case dget k ''founder_evidence'' of
                 Some (PDict d) \<Rightarrow> List.map_filter (\<lambda>(field, v). case v of PStr t \<Rightarrow> Some (field, t) | _ \<Rightarrow> None) d
               | _ \<Rightarrow> [])\<rparr>,
            case dget k ''job_id'' of Some (PStr j) \<Rightarrow> Some j | _ \<Rightarrow> None)
      | _ \<Rightarrow> None)"

lemma map_filter_strings:
  "List.map_filter (\<lambda>(field, v). case v of PStr t \<Rightarrow> Some (field, t) | _ \<Rightarrow> None) (map (\<lambda>(k, v). (k, PStr v)) d) = d"
  by (induction d) (auto simp: map_filter_simps)

lemma persist_deck_never_refuses: "persist_deck env c l a rivals s pages w \<noteq> (Inl (Inr res), v)"
  by (auto simp: persist_deck_def inbound_raised_def Let_def split: option.splits prod.splits)

lemma parse_deck_accepts:
  assumes "parse_uuid (ic_snapshot c) = Some sid" and "get_row sn_id (w_snapshots w) sid = Some s"
    and "get_snapshot (w_objects w) (sn_storage_path s) = Some content"
    and "validate_pdf_bytes (ib_reader env) content (us_max_pages (ib_limits env)) = Inr n"
  shows "parse_deck env c l a rivals w \<noteq> (Inl (Inr res), v)"
proof (cases "extract_pdf_pages (ib_reader env) content (us_max_pages (ib_limits env)) (us_max_text_chars (ib_limits env))")
  case (Rejected m)
  with assms(4) show ?thesis by (simp add: extract_pdf_pages_def split: option.splits sum.splits)
next
  case (Extracted pages)
  with assms(1-3) persist_deck_never_refuses show ?thesis by (auto simp: parse_deck_def Let_def)
qed (use assms(1-3) in \<open>auto simp: parse_deck_def inbound_raised_def Let_def split: prod.splits\<close>)

lemma quarantine_valid:
  "quarantine_pitch_upload reader scanner st u = Inr content \<Longrightarrow> \<exists>n. validate_pdf_bytes reader content (us_max_pages st) = Inr n"
  by (auto simp: quarantine_pitch_upload_def split: sum.splits option.splits if_splits)


section \<open>Samples\<close>

definition pitch_key :: uuid where "pitch_key = ''00000000-0000-0000-0000-000000000009''"

definition sample_intake :: intake_env where
  "sample_intake = \<lparr>ie_store = sample_store_env\<lparr>sv_id := (\<lambda>table n. pitch_key)\<rparr>, ie_reader = sample_reader,
     ie_scanner = (\<lambda>command content. Scan_Exit 0), ie_limits = sample_upload_settings, ie_bracket_host = (\<lambda>h. True),
     ie_value_error = other_error ''ValueError'' ''Invalid IPv6 URL'',
     ie_integrity = other_error ''IntegrityError'' ''duplicate key''\<rparr>"

definition sample_pitch :: pitch_form where
  "sample_pitch = \<lparr>pf_founder_name = ''Ada'', pf_founder_email = ''Ada@Lovelace.io'', pf_company_name = ''Engines'',
     pf_file = sample_upload, pf_work_sample_url = Some ''https://ada.io/notes'', pf_work_sample_description = None,
     pf_learning_velocity = Some '' fast '', pf_reference_context = None, pf_interview_context = Some [],
     pf_idempotency_key = '' k1 ''\<rparr>"

definition blank_intake :: intake_world where
  "blank_intake = \<lparr>iw_world = \<lparr>w_db = empty_db, w_snapshots = [], w_jobs = [], w_telemetry = [], w_objects = []\<rparr>,
     iw_submissions = [], iw_events = []\<rparr>"

definition twin_commits :: commits where
  "twin_commits = \<lparr>cm_persons = [inbound_founder ''p9'' 5 sample_pitch], cm_organizations = [],
     cm_submissions = [\<lparr>sub_idempotency_key = ''k1'', sub_person_id = ''p9'', sub_opportunity_id = ''o9'',
       sub_snapshot_id = ''s9'', sub_status = ''accepted'', sub_founder_evidence = []\<rparr>], cm_events = []\<rparr>"

lemma sample_pitch_key: "strip (pf_idempotency_key sample_pitch) = ''k1''"
  by (simp add: sample_pitch_def) code_simp

lemma sample_pitch_evidence:
  "founder_evidence sample_intake (evidence_fields sample_pitch)
   = Inr [(''work_sample_url'', ''https://ada.io/notes''), (''learning_velocity'', ''fast'')]"
  by code_simp

lemma sample_pitch_upload:
  "quarantine_pitch_upload (ie_reader sample_intake) (ie_scanner sample_intake) (ie_limits sample_intake) (pf_file sample_pitch)
   = Inr ''%PDF-1.7 body %%EOF ''"
  by code_simp

lemma blank_intake_ok: "intake_ok blank_intake" "submission_with blank_intake key = None"
  by (simp_all add: blank_intake_def intake_ok_def submission_with_def)

lemma sample_pitch_accepted:
  obtains r w' where "submit_pitch sample_intake no_commits no_commits sample_pitch blank_intake = (Inr r, w')"
proof -
  obtain h path objects where put: "put_snapshot (sv_sha (ie_store sample_intake)) (w_objects (iw_world blank_intake))
      ''%PDF-1.7 body %%EOF '' ''inbound_deck'' = ((h, path), objects)" by (metis prod.exhaust)
  let ?w = "blank_intake\<lparr>iw_world := (iw_world blank_intake)\<lparr>w_objects := objects\<rparr>\<rparr>"
  have "pitch_rows env no_commits f ev key h path w \<noteq> Inl e" for env f ev key w e
    by (auto simp: pitch_rows_def no_commits_def Let_def split: prod.splits)
  then obtain sub job w3 where "pitch_rows sample_intake no_commits sample_pitch [(''work_sample_url'', ''https://ada.io/notes''),
      (''learning_velocity'', ''fast'')] ''k1'' h path ?w = Inr (sub, job, w3)"
    by (metis sum.exhaust prod.exhaust)
  moreover have "submission_with ?w ''k1'' = None" "iw_events ?w = []" by (simp_all add: submission_with_def blank_intake_def)
  ultimately show thesis using put that
    by (simp add: submit_pitch_def sample_pitch_key sample_pitch_evidence sample_pitch_upload store_pitch_def blank_intake_ok Let_def)
qed


theorem pitch_retry_same_answer_witness:
  "\<exists>r w'. submit_pitch sample_intake no_commits no_commits sample_pitch blank_intake = (Inr r, w')
     \<and> submit_pitch sample_intake no_commits twin_commits sample_pitch w' = (Inr r, w')"
proof -
  obtain r w' where run: "submit_pitch sample_intake no_commits no_commits sample_pitch blank_intake = (Inr r, w')"
    by (rule sample_pitch_accepted)
  from pitch_retry_same_answer [OF run refl sample_pitch_evidence refl] run show ?thesis by blast
qed

theorem concurrent_retry_escapes_witness:
  "\<exists>w'. submit_pitch sample_intake no_commits twin_commits sample_pitch blank_intake
     = (Inl (Unhandled (ie_integrity sample_intake)), w') \<and> submission_with w' ''k1'' \<noteq> None"
proof -
  have q: "inbound_founder ''p9'' 5 sample_pitch \<in> set (cm_persons twin_commits)"
    "p_stable_id (inbound_founder ''p9'' 5 sample_pitch) = ''email:'' @ strip (lower (pf_founder_email sample_pitch))"
    by (simp_all add: twin_commits_def inbound_founder_def)
  obtain s where s: "s \<in> set (cm_submissions twin_commits)" "sub_idempotency_key s = ''k1''"
    by (simp add: twin_commits_def)
  have none: "\<forall>p \<in> set (persons (w_db (iw_world (with_commits no_commits blank_intake)))).
      p_stable_id p \<noteq> ''email:'' @ strip (lower (pf_founder_email sample_pitch))"
    by (simp add: blank_intake_def empty_db_def)
  have len: "1 \<le> length ''k1''" "length ''k1'' \<le> 128" by simp_all
  show ?thesis
    by (rule concurrent_retry_escapes [of sample_pitch, unfolded sample_pitch_key, OF len sample_pitch_evidence
          blank_intake_ok(2) sample_pitch_upload none q s])
qed


end
