(* ===== verification/Route_Jobs.thy ===== *)
theory Route_Jobs
  imports Route_Contract Discovery_Jobs Opportunity_Service Collection_Store
begin

text \<open>
  The handlers that queue background work, \<^verbatim>\<open>app/api/routes/collection.py\<close> and the memo and contact
  handlers of \<^verbatim>\<open>app/api/routes/candidates.py\<close>: a job row is committed before its task goes to Redis,
  and a task Redis refuses makes its job failed. A handler that queues one job returns the id of the job; the
  message beside it is left out. The identity review handlers are in Match_Review.
\<close>

section \<open>State and hand-over\<close>

record 'r route_world =
  rw_world :: world
  rw_redis :: "'r"

record 'r route_env =
  ro_ops :: "'r redis_ops"
  ro_refuses :: "pyval \<Rightarrow> exc option"
  ro_store :: store_env
  ro_bad_limit :: exc

definition queue_failed_update :: "exc \<Rightarrow> job_update" where
  "queue_failed_update e = \<lparr>ju_status = ''failed'', ju_phase = ''queue'', ju_attempt = None, ju_progress = None,
     ju_last_error = Some (x_text e), ju_clear_error = False, ju_result = Some [(''error'', PStr ''queue_failed'')]\<rparr>"

definition queue_job :: "'r route_env \<Rightarrow> string \<Rightarrow> 'r route_world \<Rightarrow> uuid \<times> 'r route_world" where
  "queue_job env kind w =
     (let v = rw_world w; (job, jobs) = create_job (sv_id (ro_store env) ''job_runs'' (length (w_jobs v))) (w_jobs v) kind
      in (j_id job, w\<lparr>rw_world := v\<lparr>w_jobs := jobs\<rparr>\<rparr>))"

text \<open>The \<open>try\<close> around \<open>queue_enqueue\<close>: the exception of a refused task, with the failed job.\<close>

definition offer_task :: "'r route_env \<Rightarrow> pyval \<Rightarrow> real \<Rightarrow> uuid \<Rightarrow> 'r route_world \<Rightarrow> exc option \<times> 'r route_world" where
  "offer_task env task prio i w =
     (case ro_refuses env task of
        Some e \<Rightarrow> (Some e, w\<lparr>rw_world := (rw_world w)\<lparr>w_jobs :=
            snd (update_job (sv_now (ro_store env)) (w_jobs (rw_world w)) i (queue_failed_update e))\<rparr>\<rparr>)
      | None \<Rightarrow> (None, w\<lparr>rw_redis := enqueue (ro_ops env) (rw_redis w) task prio\<rparr>))"

definition queue_one :: "'r route_env \<Rightarrow> string \<Rightarrow> (uuid \<Rightarrow> pyval) \<Rightarrow> real \<Rightarrow> string \<Rightarrow> 'r route_world
    \<Rightarrow> (http_failure + uuid) \<times> 'r route_world" where
  "queue_one env kind task prio detail w =
     (case queue_job env kind w of
        (i, w1) \<Rightarrow>
          (case offer_task env (task i) prio i w1 of
             (Some e, w2) \<Rightarrow> (Inl (Http_Error 503 detail), w2)
           | (None, w2) \<Rightarrow> (Inr i, w2)))"

text \<open>A batch creates all its jobs, then offers their tasks one by one.\<close>

fun queue_jobs :: "'r route_env \<Rightarrow> string \<Rightarrow> (uuid \<times> (uuid \<Rightarrow> pyval)) list \<Rightarrow> 'r route_world
    \<Rightarrow> (uuid \<times> pyval \<times> uuid) list \<times> 'r route_world" where
  "queue_jobs env kind [] w = ([], w)"
| "queue_jobs env kind ((pid, task) # rest) w =
     (case queue_job env kind w of
        (i, w1) \<Rightarrow> (case queue_jobs env kind rest w1 of (js, w2) \<Rightarrow> ((pid, task i, i) # js, w2)))"

fun offer_tasks :: "'r route_env \<Rightarrow> real \<Rightarrow> (uuid \<times> pyval \<times> uuid) list \<Rightarrow> 'r route_world
    \<Rightarrow> (uuid \<times> uuid) list \<times> 'r route_world" where
  "offer_tasks env prio [] w = ([], w)"
| "offer_tasks env prio ((pid, task, i) # rest) w =
     (case offer_task env task prio i w of
        (e, w1) \<Rightarrow> (case offer_tasks env prio rest w1 of
          (ok, w2) \<Rightarrow> ((if e = None then (pid, i) # ok else ok), w2)))"

record queue_answer =
  qa_queued :: nat
  qa_candidate_ids :: "uuid list"
  qa_job_ids :: "uuid list"
  qa_message :: string

definition queue_batch :: "'r route_env \<Rightarrow> string \<Rightarrow> (uuid \<times> (uuid \<Rightarrow> pyval)) list \<Rightarrow> real \<Rightarrow> string \<Rightarrow> 'r route_world
    \<Rightarrow> queue_answer \<times> 'r route_world" where
  "queue_batch env kind tasks prio what w =
     (case queue_jobs env kind tasks w of
        (js, w1) \<Rightarrow>
          (case offer_tasks env prio js w1 of
             (ok, w2) \<Rightarrow> (\<lparr>qa_queued = length ok, qa_candidate_ids = map fst ok, qa_job_ids = map snd ok,
                 qa_message = ''Queued '' @ what @ '' for '' @ nat_str (length ok) @ '' candidates''\<rparr>, w2)))"

section \<open>Tasks\<close>

definition job_task :: "string \<Rightarrow> pyval dict \<Rightarrow> uuid \<Rightarrow> pyval" where
  "job_task kind extra i = PDict ((''job_type'', PStr kind) # extra @ [(''job_id'', PStr i)])"

definition person_task :: "string \<Rightarrow> uuid \<Rightarrow> uuid \<Rightarrow> pyval" where
  "person_task kind pid = job_task kind [(''person_id'', PStr pid)]"

definition research_task :: "uuid \<Rightarrow> uuid \<Rightarrow> uuid \<Rightarrow> pyval" where
  "research_task pid oid = job_task ''research_candidate''
     [(''person_id'', PStr pid), (''opportunity_id'', PStr oid), (''source'', PStr ''tavily_search'')]"

section \<open>The handlers\<close>

definition trigger_discover :: "'r route_env \<Rightarrow> string \<Rightarrow> string \<Rightarrow> 'r route_world
    \<Rightarrow> (http_failure + uuid) \<times> 'r route_world" where
  "trigger_discover env query source w =
     (if source \<notin> set builtin_sources then (Inl (Http_Error 400 (''Unknown source: '' @ source)), w)
      else queue_one env ''discover'' (job_task ''discover'' [(''query'', PStr query), (''source'', PStr source)])
        10 ''Unable to queue discovery job'' w)"

definition current_opportunity :: "db \<Rightarrow> uuid \<Rightarrow> opportunity option" where
  "current_opportunity d pid = latest_opportunity d pid"

text \<open>The people a batch is for, each with the task of a job, those without a deal left out.\<close>

definition with_opportunity :: "db \<Rightarrow> (person \<Rightarrow> opportunity \<Rightarrow> uuid \<Rightarrow> pyval) \<Rightarrow> person list
    \<Rightarrow> (uuid \<times> (uuid \<Rightarrow> pyval)) list" where
  "with_opportunity d task ps = List.map_filter (\<lambda>p.
     map_option (\<lambda>opp. (p_id p, task p opp)) (current_opportunity d (p_id p))) ps"

definition avatar_people :: "db \<Rightarrow> uuid list option \<Rightarrow> bool \<Rightarrow> person list" where
  "avatar_people d ids force = newest_people (filter (\<lambda>p. p_canonical p
     \<and> list_ex (\<lambda>s. s_subject_id s = p_id p \<and> s_rubric_version s = ''founder-tavily-v1'') (score_snapshots d)
     \<and> (case ids of Some xs \<Rightarrow> p_id p \<in> set xs | None \<Rightarrow> True)
     \<and> (force \<or> p_avatar_data p = None)) (persons d))"

definition fetch_candidate_avatars :: "'r route_env \<Rightarrow> string list option \<Rightarrow> int \<Rightarrow> bool \<Rightarrow> 'r route_world
    \<Rightarrow> (http_failure + queue_answer) \<times> 'r route_world" where
  "fetch_candidate_avatars env candidate_ids limit force w =
     (case (case candidate_ids of Some (i # is) \<Rightarrow> map_option Some (parse_uuids (i # is)) | _ \<Rightarrow> Some None) of
        None \<Rightarrow> (Inl (Http_Error 400 ''Invalid candidate id''), w)
      | Some ids \<Rightarrow>
          (let d = w_db (rw_world w); people = take (nat (max 1 (min limit 200))) (avatar_people d ids force)
           in case queue_batch env ''fetch_candidate_avatar'' (with_opportunity d (\<lambda>p opp.
                  job_task ''fetch_candidate_avatar'' [(''person_id'', PStr (p_id p)), (''source'', PStr ''avatar'')]) people)
                10 ''avatar caching'' w of (a, w1) \<Rightarrow> (Inr a, w1)))"

text \<open>A name that is more than one of the person's handles.\<close>

definition named :: "person \<Rightarrow> bool" where
  "named p = (str_truthy (p_display_name p)
     \<and> lower (the (p_display_name p)) \<notin> set (map (lower \<circ> snd) (case p_handles p of Some h \<Rightarrow> h | None \<Rightarrow> [])))"

definition research_people :: "db \<Rightarrow> uuid list option \<Rightarrow> int \<Rightarrow> person list" where
  "research_people d ids limit =
     (let people = take 200 (newest_people (filter (\<lambda>p. p_canonical p
            \<and> (case ids of Some xs \<Rightarrow> p_id p \<in> set xs | None \<Rightarrow> True)) (persons d)))
      in take (nat (max 1 (min 100 limit))) (case ids of Some xs \<Rightarrow> people | None \<Rightarrow> filter named people))"

definition research_candidates :: "'r route_env \<Rightarrow> string list option \<Rightarrow> int \<Rightarrow> 'r route_world
    \<Rightarrow> (http_failure + queue_answer) \<times> 'r route_world" where
  "research_candidates env candidate_ids limit w =
     (case (case candidate_ids of Some (i # is) \<Rightarrow> map_option Some (parse_uuids (i # is)) | _ \<Rightarrow> Some None) of
        None \<Rightarrow> (Inl (Http_Error 400 ''Invalid candidate id''), w)
      | Some ids \<Rightarrow>
          (let d = w_db (rw_world w)
           in case queue_batch env ''research_candidate''
                  (with_opportunity d (\<lambda>p opp. research_task (p_id p) (o_id opp)) (research_people d ids limit))
                  10 ''Tavily multi-axis research'' w of (a, w1) \<Rightarrow> (Inr a, w1)))"

definition research_candidate :: "'r route_env \<Rightarrow> uuid \<Rightarrow> 'r route_world \<Rightarrow> (http_failure + uuid) \<times> 'r route_world" where
  "research_candidate env cid w =
     (case active_person (w_db (rw_world w)) cid of
        None \<Rightarrow> (Inl (Http_Error 404 ''Candidate not found''), w)
      | Some p \<Rightarrow>
          (case current_opportunity (w_db (rw_world w)) (p_id p) of
             None \<Rightarrow> (Inl (Http_Error 409 ''Candidate has no opportunity to research''), w)
           | Some opp \<Rightarrow> queue_one env ''research_candidate'' (research_task (p_id p) (o_id opp)) 10
               ''Unable to queue research job'' w))"

definition trigger_identity_resolve :: "'r route_env \<Rightarrow> 'r route_world \<Rightarrow> (http_failure + uuid) \<times> 'r route_world" where
  "trigger_identity_resolve env w =
     queue_one env ''resolve_identities'' (job_task ''resolve_identities'' []) 10 ''Unable to queue identity resolution'' w"

definition score_candidate_route :: "'r route_env \<Rightarrow> uuid \<Rightarrow> 'r route_world \<Rightarrow> (http_failure + uuid) \<times> 'r route_world" where
  "score_candidate_route env cid w =
     (case active_person (w_db (rw_world w)) cid of
        None \<Rightarrow> (Inl (Http_Error 404 ''Candidate not found''), w)
      | Some p \<Rightarrow> queue_one env ''score_candidate'' (person_task ''score_candidate'' (p_id p)) 10 ''Unable to queue scoring job'' w)"

text \<open>The rows come in no particular order, \<open>pick\<close>; PostgreSQL refuses a negative limit.\<close>

definition score_candidates_batch :: "'r route_env \<Rightarrow> (person list \<Rightarrow> person list) \<Rightarrow> int \<Rightarrow> 'r route_world
    \<Rightarrow> (http_failure + queue_answer) \<times> 'r route_world" where
  "score_candidates_batch env pick limit w =
     (if limit < 0 then (Inl (Unhandled (ro_bad_limit env)), w)
      else (case queue_batch env ''score_candidate'' (map (\<lambda>p. (p_id p, person_task ''score_candidate'' (p_id p)))
               (take (nat limit) (pick (filter p_canonical (persons (w_db (rw_world w))))))) 5 ''multi-agent scoring'' w of
             (a, w1) \<Rightarrow> (Inr a, w1)))"

definition process_candidate_route :: "'r route_env \<Rightarrow> uuid \<Rightarrow> 'r route_world \<Rightarrow> (http_failure + uuid) \<times> 'r route_world" where
  "process_candidate_route env cid w =
     (case active_person (w_db (rw_world w)) cid of
        None \<Rightarrow> (Inl (Http_Error 404 ''Candidate not found''), w)
      | Some p \<Rightarrow> queue_one env ''process_candidate'' (person_task ''process_candidate'' (p_id p)) 5 ''Unable to queue processing job'' w)"

definition founder_link :: "db \<Rightarrow> uuid \<Rightarrow> uuid \<Rightarrow> bool" where
  "founder_link d oid pid = list_ex (\<lambda>f. of_opportunity_id f = oid \<and> of_person_id f = pid) (founders d)"

definition generate_candidate_memo :: "'r route_env \<Rightarrow> uuid \<Rightarrow> uuid \<Rightarrow> 'r route_world
    \<Rightarrow> (http_failure + uuid) \<times> 'r route_world" where
  "generate_candidate_memo env cid oid w =
     (let d = w_db (rw_world w)
      in case active_person d cid of
           None \<Rightarrow> (Inl (Http_Error 404 ''Candidate not found''), w)
         | Some p \<Rightarrow>
             (if get_row o_id (opportunities d) oid = None \<or> \<not> founder_link d oid (p_id p)
              then (Inl (Http_Error 409 ''Candidate is not linked to this opportunity''), w)
              else queue_one env ''generate_memo'' (job_task ''generate_memo''
                  [(''person_id'', PStr (p_id p)), (''opportunity_id'', PStr oid)]) 10 ''Unable to queue memo job'' w))"

definition contact_task :: "uuid \<Rightarrow> pyval" where
  "contact_task pid = PDict [(''job_type'', PStr ''contact_outbound''), (''person_id'', PStr pid)]"

definition contact_candidate :: "'r route_env \<Rightarrow> uuid \<Rightarrow> 'r route_world \<Rightarrow> (http_failure + string) \<times> 'r route_world" where
  "contact_candidate env cid w =
     (case active_person (w_db (rw_world w)) cid of
        None \<Rightarrow> (Inl (Http_Error 404 ''Candidate not found''), w)
      | Some p \<Rightarrow>
          (case ro_refuses env (contact_task (p_id p)) of
             Some e \<Rightarrow> (Inl (Unhandled e), w)
           | None \<Rightarrow> (Inr (''Outreach queued for '' @ cid),
               w\<lparr>rw_redis := enqueue (ro_ops env) (rw_redis w) (contact_task (p_id p)) 10\<rparr>)))"

section \<open>Reading\<close>

definition get_job_status :: "uuid \<Rightarrow> 'r route_world \<Rightarrow> http_failure + job_run" where
  "get_job_status i w = (case get_row j_id (w_jobs (rw_world w)) i of
     None \<Rightarrow> Inl (Http_Error 404 ''Job not found'') | Some j \<Rightarrow> Inr j)"

record research_status =
  rt_candidate_id :: uuid
  rt_status :: string
  rt_observations :: nat
  rt_latest_scores :: "pyval dict option"
  rt_scored_at :: "instant option"

definition candidate_research_status :: "uuid \<Rightarrow> 'r route_world \<Rightarrow> http_failure + research_status" where
  "candidate_research_status cid w =
     (let d = w_db (rw_world w)
      in case get_row p_id (persons d) cid of
           None \<Rightarrow> Inl (Http_Error 404 ''Candidate not found'')
         | Some p \<Rightarrow>
             (let snapshot = (case current_opportunity d (p_id p) of
                    None \<Rightarrow> None
                  | Some opp \<Rightarrow> newest s_created_at (filter (\<lambda>s. s_subject_id s = o_id opp \<and> s_subject_type s = ''opportunity''
                      \<and> s_rubric_version s = ''opportunity-axes-v1'') (score_snapshots d)));
                  n = length (filter (\<lambda>x. ob_subject_id x = Some cid \<and> sql_like ''research_%'' (ob_predicate x)) (observations d))
              in Inr \<lparr>rt_candidate_id = cid,
                   rt_status = (if snapshot \<noteq> None then ''completed'' else if n \<noteq> 0 then ''pending'' else ''not_started''),
                   rt_observations = n, rt_latest_scores = map_option s_components snapshot,
                   rt_scored_at = map_option s_created_at snapshot\<rparr>))"

section \<open>Health of the collectors\<close>

record connector_readiness =
  cr_maturity :: string
  cr_contract_version :: string
  cr_limitations :: "string list"
  cr_last_success_at :: "instant option"

definition readiness :: "string \<Rightarrow> string \<Rightarrow> connector_readiness" where
  "readiness maturity limitation = \<lparr>cr_maturity = maturity, cr_contract_version = ''connector-contract-v1'',
     cr_limitations = [limitation], cr_last_success_at = None\<rparr>"

definition connector_readiness_table :: "connector_readiness dict" where
  "connector_readiness_table = [
     (''github'', readiness ''beta'' ''API credentials and rate limits apply''),
     (''producthunt'', readiness ''experimental'' ''API credentials required''),
     (''arxiv'', readiness ''beta'' ''PDF extraction depth varies by document''),
     (''web'', readiness ''beta'' ''Robots, licensing, and page structure vary''),
     (''tavily_search'', readiness ''experimental'' ''Search provider and budget dependent''),
     (''hackernews'', readiness ''beta'' ''Algolia result freshness varies''),
     (''youtube'', readiness ''experimental'' ''API credentials and transcript availability apply''),
     (''podcasts'', readiness ''experimental'' ''Transcript and primary-page coverage varies''),
     (''hackathons'', readiness ''experimental'' ''Discovery delegates to provider search''),
     (''linkedin'', readiness ''experimental'' ''Discovery delegates to provider search'')]"

record health_answer =
  ha_queue_depth :: "nat dict"
  ha_connectors :: "string dict"
  ha_readiness :: "connector_readiness dict"

text \<open>The telemetry is \<open>None\<close> when the database has no session or the query fails.\<close>

definition collection_health :: "'r redis_ops \<Rightarrow> connector_telemetry list option \<Rightarrow> 'r \<Rightarrow> health_answer" where
  "collection_health ops telemetry r =
     (let stamps = foldl (\<lambda>d t. dset d (tel_source_type t) (tel_last_success_at t)) []
            (case telemetry of Some ts \<Rightarrow> ts | None \<Rightarrow> [])
      in \<lparr>ha_queue_depth = queue_depth ops r,
          ha_connectors = map (\<lambda>name. (name, ''registered'')) builtin_sources,
          ha_readiness = map (\<lambda>(name, m). (name, m\<lparr>cr_last_success_at := dget stamps name\<rparr>)) connector_readiness_table\<rparr>)"

section \<open>Requests\<close>

datatype queue_request =
    Discover_Request string string
  | Avatar_Batch_Request "string list option" int bool
  | Research_Batch_Request "string list option" int
  | Research_Request uuid
  | Resolve_Request
  | Score_Request uuid
  | Score_Batch_Request int
  | Process_Request uuid
  | Memo_Request uuid uuid
  | Contact_Request uuid

text \<open>The job ids of the answer.\<close>

definition one_job :: "(http_failure + uuid) \<times> 'w \<Rightarrow> (http_failure + uuid list) \<times> 'w" where
  "one_job r = (case r of (Inl e, w) \<Rightarrow> (Inl e, w) | (Inr i, w) \<Rightarrow> (Inr [i], w))"

definition batch_jobs :: "(http_failure + queue_answer) \<times> 'w \<Rightarrow> (http_failure + uuid list) \<times> 'w" where
  "batch_jobs r = (case r of (Inl e, w) \<Rightarrow> (Inl e, w) | (Inr a, w) \<Rightarrow> (Inr (qa_job_ids a), w))"

definition serve :: "'r route_env \<Rightarrow> (person list \<Rightarrow> person list) \<Rightarrow> queue_request \<Rightarrow> 'r route_world
    \<Rightarrow> (http_failure + uuid list) \<times> 'r route_world" where
  "serve env pick req w =
     (case req of
        Discover_Request q s \<Rightarrow> one_job (trigger_discover env q s w)
      | Avatar_Batch_Request ids limit force \<Rightarrow> batch_jobs (fetch_candidate_avatars env ids limit force w)
      | Research_Batch_Request ids limit \<Rightarrow> batch_jobs (research_candidates env ids limit w)
      | Research_Request i \<Rightarrow> one_job (research_candidate env i w)
      | Resolve_Request \<Rightarrow> one_job (trigger_identity_resolve env w)
      | Score_Request i \<Rightarrow> one_job (score_candidate_route env i w)
      | Score_Batch_Request limit \<Rightarrow> batch_jobs (score_candidates_batch env pick limit w)
      | Process_Request i \<Rightarrow> one_job (process_candidate_route env i w)
      | Memo_Request i k \<Rightarrow> one_job (generate_candidate_memo env i k w)
      | Contact_Request i \<Rightarrow> (case contact_candidate env i w of
            (Inl e, w1) \<Rightarrow> (Inl e, w1) | (Inr m, w1) \<Rightarrow> (Inr [], w1)))"

section \<open>Jobs and tasks\<close>

text \<open>
  The identifiers of the job table are the ones the generator has given out; the first \<open>N\<close> of them
  are different and canonical.
\<close>

definition ids_issued :: "'r route_env \<Rightarrow> job_run list \<Rightarrow> bool" where
  "ids_issued env jobs = (map j_id jobs = map (sv_id (ro_store env) ''job_runs'') [0..<length jobs])"

definition id_source :: "nat \<Rightarrow> (nat \<Rightarrow> uuid) \<Rightarrow> bool" where
  "id_source N f = (inj_on f {..<N} \<and> (\<forall>n < N. parse_uuid (f n) = Some (f n)))"

text \<open>A task that starts the worker function of a job with the job's own id.\<close>

definition task_of :: "job_run \<Rightarrow> pyval \<Rightarrow> bool" where
  "task_of j t = (fst (job_call t) = j_type j @ ''_job'' \<and> task_get t ''job_id'' PNone = PStr (j_id j))"

text \<open>Every queued job has a task that waits in Redis, the jobs of \<open>S\<close> excepted.\<close>

definition handed_over :: "'r redis_ops \<Rightarrow> uuid set \<Rightarrow> 'r route_world \<Rightarrow> bool" where
  "handed_over ops S w = (\<forall>j \<in> set (w_jobs (rw_world w)). j_status j = ''queued'' \<longrightarrow> j_id j \<notin> S \<longrightarrow>
     (\<exists>t. task_of j t \<and> task_key t \<in> fst ` set (pending ops (rw_redis w))))"

text \<open>Nothing but the job table and Redis changes, no task is lost, and the first \<open>n\<close> jobs keep their rows.\<close>

definition extends :: "'r redis_ops \<Rightarrow> nat \<Rightarrow> 'r route_world \<Rightarrow> 'r route_world \<Rightarrow> bool" where
  "extends ops n w w' = (w_db (rw_world w') = w_db (rw_world w) \<and> w_snapshots (rw_world w') = w_snapshots (rw_world w)
     \<and> w_objects (rw_world w') = w_objects (rw_world w)
     \<and> take n (w_jobs (rw_world w')) = take n (w_jobs (rw_world w))
     \<and> length (w_jobs (rw_world w)) \<le> length (w_jobs (rw_world w'))
     \<and> fst ` set (pending ops (rw_redis w)) \<subseteq> fst ` set (pending ops (rw_redis w')))"

lemma extends_refl [simp]: "extends ops n w w"
  by (simp add: extends_def)

lemma extends_trans: "extends ops n a b \<Longrightarrow> extends ops n b c \<Longrightarrow> extends ops n a c"
  by (auto simp: extends_def)

lemma take_eq_less: "take n xs = take n ys \<Longrightarrow> m \<le> n \<Longrightarrow> take m xs = take m ys"
  by (metis min.absorb1 take_take)

lemma extends_less: "extends ops n a b \<Longrightarrow> m \<le> n \<Longrightarrow> extends ops m a b"
  unfolding extends_def by (elim conjE, intro conjI; (assumption | rule take_eq_less [of n]))

lemma job_task_get [simp]:
  "task_get (job_task kind [] i) ''job_id'' d = PStr i"
  "task_get (job_task kind [(''person_id'', a)] i) ''job_id'' d = PStr i"
  "task_get (job_task kind [(''query'', a), (''source'', b)] i) ''job_id'' d = PStr i"
  "task_get (job_task kind [(''person_id'', a), (''source'', b)] i) ''job_id'' d = PStr i"
  "task_get (job_task kind [(''person_id'', a), (''opportunity_id'', b)] i) ''job_id'' d = PStr i"
  "task_get (job_task kind [(''person_id'', a), (''opportunity_id'', b), (''source'', c)] i) ''job_id'' d = PStr i"
  "task_get (job_task kind extra i) ''job_type'' d = PStr kind"
  by (simp_all add: job_task_def dget_def)

lemma issued_index: "ids_issued env jobs \<Longrightarrow> k < length jobs \<Longrightarrow> j_id (jobs ! k) = sv_id (ro_store env) ''job_runs'' k"
  unfolding ids_issued_def by (drule arg_cong [where f = "\<lambda>xs. xs ! k"]) simp

text \<open>Adding a job leaves it outstanding; offering its task settles it.\<close>

lemma queue_job_step:
  assumes "queue_job env kind w = (i, w1)" and "ids_issued env (w_jobs (rw_world w))" and "handed_over ops S w"
  shows "i = sv_id (ro_store env) ''job_runs'' (length (w_jobs (rw_world w)))"
    and "ids_issued env (w_jobs (rw_world w1))" and "handed_over ops (insert i S) w1"
    and "extends ops (length (w_jobs (rw_world w))) w w1" and "rw_redis w1 = rw_redis w"
    and "\<exists>j. w_jobs (rw_world w1) = w_jobs (rw_world w) @ [j] \<and> j_id j = i \<and> j_type j = kind \<and> j_status j = ''queued''"
  using assms by (auto simp: queue_job_def create_job_def Let_def ids_issued_def handed_over_def extends_def)

definition new_job :: "string \<Rightarrow> uuid \<Rightarrow> job_run" where
  "new_job kind i = fst (create_job i [] kind)"

lemma new_job_fields [simp]: "j_id (new_job kind i) = i" "j_type (new_job kind i) = kind" "j_status (new_job kind i) = ''queued''"
  by (simp_all add: new_job_def create_job_def Let_def)

lemma queue_jobs_form:
  assumes "queue_jobs env kind tasks w = (js, w1)"
  shows "map (snd \<circ> snd) js
      = map (sv_id (ro_store env) ''job_runs'') [length (w_jobs (rw_world w))..<length (w_jobs (rw_world w)) + length tasks]
    \<and> w1 = w\<lparr>rw_world := (rw_world w)\<lparr>w_jobs := w_jobs (rw_world w) @ map (new_job kind \<circ> snd \<circ> snd) js\<rparr>\<rparr>
    \<and> (\<forall>(p, t, i) \<in> set js. \<exists>f. (p, f) \<in> set tasks \<and> t = f i)"
  using assms
proof (induction tasks arbitrary: w js w1)
  case Nil
  then show ?case by simp
next
  case (Cons a rest)
  obtain p f where a: "a = (p, f)" by (cases a)
  obtain i w0 where q: "queue_job env kind w = (i, w0)" by (cases "queue_job env kind w")
  obtain js' w2 where r: "queue_jobs env kind rest w0 = (js', w2)" by (cases "queue_jobs env kind rest w0")
  from q have w0: "i = sv_id (ro_store env) ''job_runs'' (length (w_jobs (rw_world w)))"
    "w0 = w\<lparr>rw_world := (rw_world w)\<lparr>w_jobs := w_jobs (rw_world w) @ [new_job kind i]\<rparr>\<rparr>"
    by (auto simp: queue_job_def create_job_def new_job_def Let_def)
  from Cons.prems a q r have js: "js = (p, f i, i) # js'" "w1 = w2" by simp_all
  note ih = Cons.IH [OF r]
  show ?case
  proof (intro conjI)
    show "map (snd \<circ> snd) js = map (sv_id (ro_store env) ''job_runs'')
        [length (w_jobs (rw_world w))..<length (w_jobs (rw_world w)) + length (a # rest)]"
      using conjunct1 [OF ih] js w0 by (simp add: upt_conv_Cons comp_def del: upt_Suc)
    show "w1 = w\<lparr>rw_world := (rw_world w)\<lparr>w_jobs := w_jobs (rw_world w) @ map (new_job kind \<circ> snd \<circ> snd) js\<rparr>\<rparr>"
      using conjunct1 [OF conjunct2 [OF ih]] js w0 by (simp add: comp_def)
    show "\<forall>(p, t, i) \<in> set js. \<exists>f. (p, f) \<in> set (a # rest) \<and> t = f i"
      using ih js a by fastforce
  qed
qed

lemma offer_task_length: "offer_task env task prio i w = (e, w1) \<Longrightarrow> length (w_jobs (rw_world w1)) = length (w_jobs (rw_world w))"
  by (auto simp: offer_task_def update_job_def Let_def split: option.splits)

lemma offer_tasks_length:
  "offer_tasks env prio js w = (ok, w1) \<Longrightarrow> length (w_jobs (rw_world w1)) = length (w_jobs (rw_world w))"
  by (induction env prio js w arbitrary: ok w1 rule: offer_tasks.induct)
    (auto split: prod.splits dest: offer_task_length)

lemma queue_one_grows:
  "queue_one env kind task prio detail w = (r, w') \<Longrightarrow> length (w_jobs (rw_world w)) \<le> length (w_jobs (rw_world w'))"
  by (auto simp: queue_one_def queue_job_def create_job_def Let_def split: prod.splits option.splits dest!: offer_task_length)

lemma queue_batch_grows:
  assumes "queue_batch env kind tasks prio what w = (a, w')"
  shows "length (w_jobs (rw_world w)) \<le> length (w_jobs (rw_world w'))"
proof -
  obtain js w1 where j: "queue_jobs env kind tasks w = (js, w1)" by (cases "queue_jobs env kind tasks w")
  obtain ok w2 where o: "offer_tasks env prio js w1 = (ok, w2)" by (cases "offer_tasks env prio js w1")
  have "length (w_jobs (rw_world w)) \<le> length (w_jobs (rw_world w1))" using queue_jobs_form [OF j] by simp
  with offer_tasks_length [OF o] assms j o show ?thesis by (auto simp: queue_batch_def)
qed

lemma serve_grows:
  assumes "serve env pick req w = (r, w')"
  shows "length (w_jobs (rw_world w)) \<le> length (w_jobs (rw_world w'))"
  using assms
  by (cases req) (auto simp: serve_def one_job_def batch_jobs_def Let_def trigger_discover_def fetch_candidate_avatars_def
      research_candidates_def research_candidate_def trigger_identity_resolve_def score_candidate_route_def
      score_candidates_batch_def process_candidate_route_def generate_candidate_memo_def contact_candidate_def
      split: sum.splits prod.splits option.splits if_splits dest!: queue_one_grows queue_batch_grows)

fun serve_all :: "'r route_env \<Rightarrow> (person list \<Rightarrow> person list) \<Rightarrow> queue_request list \<Rightarrow> 'r route_world \<Rightarrow> 'r route_world" where
  "serve_all env pick [] w = w"
| "serve_all env pick (req # reqs) w = serve_all env pick reqs (snd (serve env pick req w))"

lemma serve_all_grows: "length (w_jobs (rw_world w)) \<le> length (w_jobs (rw_world (serve_all env pick reqs w)))"
proof (induction reqs arbitrary: w)
  case (Cons req reqs)
  have "length (w_jobs (rw_world w)) \<le> length (w_jobs (rw_world (snd (serve env pick req w))))"
    by (rule serve_grows [of env pick req w "fst (serve env pick req w)"]) simp
  with Cons [of "snd (serve env pick req w)"] show ?case by simp
qed simp

context redis_service
begin

lemma offer_task_step:
  assumes ops: "ro_ops env = ops" and o: "offer_task env task prio i w = (e, w1)"
    and i: "i = sv_id (ro_store env) ''job_runs'' m" and m: "n \<le> m" "m < N" and len: "length (w_jobs (rw_world w)) \<le> N"
    and ids: "id_source N (sv_id (ro_store env) ''job_runs'')" "ids_issued env (w_jobs (rw_world w))"
    and h: "handed_over ops S w"
    and t: "\<And>j. j \<in> set (w_jobs (rw_world w)) \<Longrightarrow> j_id j = i \<Longrightarrow> task_of j task"
  shows "ids_issued env (w_jobs (rw_world w1)) \<and> handed_over ops (S - {i}) w1 \<and> extends ops n w w1
    \<and> map (\<lambda>j. (j_id j, j_type j)) (w_jobs (rw_world w1)) = map (\<lambda>j. (j_id j, j_type j)) (w_jobs (rw_world w))
    \<and> (\<forall>j \<in> set (w_jobs (rw_world w)). j_id j \<noteq> i \<longrightarrow> j \<in> set (w_jobs (rw_world w1)))
    \<and> (e = None \<longrightarrow> w_jobs (rw_world w1) = w_jobs (rw_world w))"
proof (cases "ro_refuses env task")
  case None
  with o ops have w1: "w1 = w\<lparr>rw_redis := enqueue ops (rw_redis w) task prio\<rparr>"
    by (simp add: offer_task_def)
  note k = pending_enqueue_keys [of task "rw_redis w" prio]
  have "handed_over ops (S - {i}) w1"
    unfolding handed_over_def
  proof (intro ballI impI)
    fix j assume j: "j \<in> set (w_jobs (rw_world w1))" "j_status j = ''queued''" "j_id j \<notin> S - {i}"
    show "\<exists>t. task_of j t \<and> task_key t \<in> fst ` set (pending ops (rw_redis w1))"
    proof (cases "j_id j = i")
      case True
      with j t w1 k show ?thesis by auto
    next
      case False
      with j w1 have "j \<in> set (w_jobs (rw_world w))" "j_id j \<notin> S" by auto
      with h j(2) obtain t where "task_of j t" "task_key t \<in> fst ` set (pending ops (rw_redis w))"
        unfolding handed_over_def by blast
      with k w1 show ?thesis by auto
    qed
  qed
  with ids k w1 show ?thesis by (auto simp: extends_def)
next
  case (Some x)
  let ?u = "queue_failed_update x" and ?v = "rw_world w"
  have p: "parse_uuid i = Some i" using ids(1) i m by (simp add: id_source_def)
  let ?f = "\<lambda>j. if j_id j = i then apply_update (sv_now (ro_store env)) ?u j else j"
  have u: "snd (update_job (sv_now (ro_store env)) (w_jobs ?v) i ?u) = map ?f (w_jobs ?v)"
  proof (cases "get_row j_id (w_jobs ?v) i")
    case None
    then have "\<forall>j \<in> set (w_jobs ?v). j_id j \<noteq> i" by (auto simp: get_row_def find_None_iff)
    with None p show ?thesis by (simp add: update_job_def map_idI)
  next
    case (Some a)
    have "j = a" if "j \<in> set (w_jobs ?v)" "j_id j = i" for j
    proof -
      have "inj_on (sv_id (ro_store env) ''job_runs'') (set [0..<length (w_jobs ?v)])"
        using ids(1) len by (auto simp: id_source_def inj_on_def)
      then have "distinct (map (sv_id (ro_store env) ''job_runs'') [0..<length (w_jobs ?v)])"
        by (simp add: distinct_map)
      with ids(2) have "distinct (map j_id (w_jobs ?v))" unfolding ids_issued_def by (rule ssubst)
      then have "inj_on j_id (set (w_jobs ?v))" by (simp add: distinct_map)
      with that get_row_key [OF Some] show ?thesis by (auto dest: inj_onD)
    qed
    with Some p show ?thesis by (auto simp: update_job_def put_row_def Let_def dest: get_row_key)
  qed
  with o Some have w1: "e = Some x" "w1 = w\<lparr>rw_world := ?v\<lparr>w_jobs := map ?f (w_jobs ?v)\<rparr>\<rparr>"
    by (simp_all add: offer_task_def)
  have st: "j_status (apply_update now ?u j) = ''failed''" "j_type (apply_update now ?u j) = j_type j" for now j
    by (auto simp: apply_update_def queue_failed_update_def Let_def)
  have tk: "take n (map ?f (w_jobs ?v)) = take n (w_jobs ?v)"
  proof (rule nth_equalityI)
    fix k assume k: "k < length (take n (map ?f (w_jobs ?v)))"
    then have "j_id (w_jobs ?v ! k) = sv_id (ro_store env) ''job_runs'' k" using issued_index [OF ids(2)] by simp
    moreover have "sv_id (ro_store env) ''job_runs'' k \<noteq> i"
      using k m i len ids(1) by (auto simp: id_source_def dest: inj_onD)
    ultimately show "take n (map ?f (w_jobs ?v)) ! k = take n (w_jobs ?v) ! k" using k by simp
  qed simp
  have idt: "map (\<lambda>j. (j_id j, j_type j)) (w_jobs (rw_world w1)) = map (\<lambda>j. (j_id j, j_type j)) (w_jobs ?v)"
    using w1 by (simp add: st)
  have iss: "ids_issued env (w_jobs (rw_world w1))"
  proof -
    have "map j_id (w_jobs (rw_world w1)) = map j_id (w_jobs ?v)" using w1 by simp
    with ids(2) w1 show ?thesis by (simp add: ids_issued_def)
  qed
  have ho: "handed_over ops (S - {i}) w1"
    unfolding handed_over_def
  proof (intro ballI impI)
    fix j assume j: "j \<in> set (w_jobs (rw_world w1))" "j_status j = ''queued''" "j_id j \<notin> S - {i}"
    from j(1) w1 obtain j0 where j0: "j0 \<in> set (w_jobs ?v)" "j = ?f j0" by auto
    with j(2) st(1) have "j = j0" "j_id j \<noteq> i" by (auto split: if_splits)
    with j j0 have "j \<in> set (w_jobs ?v)" "j_id j \<notin> S" by auto
    with h j(2) obtain t where "task_of j t" "task_key t \<in> fst ` set (pending ops (rw_redis w))"
      unfolding handed_over_def by blast
    with w1 show "\<exists>t. task_of j t \<and> task_key t \<in> fst ` set (pending ops (rw_redis w1))" by auto
  qed
  have ex: "extends ops n w w1" using w1 tk by (simp add: extends_def)
  have ot: "\<forall>j \<in> set (w_jobs ?v). j_id j \<noteq> i \<longrightarrow> j \<in> set (w_jobs (rw_world w1))"
    using w1 by force
  from idt iss ho ex ot w1(1) show ?thesis by blast
qed

lemma offer_tasks_step:
  assumes ops: "ro_ops env = ops" and ids: "id_source N (sv_id (ro_store env) ''job_runs'')"
  shows "offer_tasks env prio js w = (ok, w1) \<Longrightarrow> ids_issued env (w_jobs (rw_world w)) \<Longrightarrow>
    handed_over ops (snd ` snd ` set js) w \<Longrightarrow> distinct (map (snd \<circ> snd) js) \<Longrightarrow>
    length (w_jobs (rw_world w)) \<le> N \<Longrightarrow>
    (\<forall>(p, t, i) \<in> set js. (\<exists>m \<in> {n..<N}. i = sv_id (ro_store env) ''job_runs'' m)
       \<and> (\<forall>j \<in> set (w_jobs (rw_world w)). j_id j = i \<longrightarrow> task_of j t)
       \<and> (\<exists>j \<in> set (w_jobs (rw_world w)). j_id j = i \<and> j_status j = ''queued'')) \<Longrightarrow>
    ids_issued env (w_jobs (rw_world w1)) \<and> handed_over ops {} w1 \<and> extends ops n w w1
    \<and> (\<forall>j \<in> set (w_jobs (rw_world w)). j_id j \<notin> snd ` snd ` set js \<longrightarrow> j \<in> set (w_jobs (rw_world w1)))
    \<and> (\<forall>(p, i) \<in> set ok. \<exists>j \<in> set (w_jobs (rw_world w1)). j_id j = i \<and> j_status j = ''queued'')"
proof (induction js arbitrary: w ok w1)
  case Nil
  then show ?case by simp
next
  case (Cons a rest)
  obtain p t i where a: "a = (p, t, i)" by (cases a)
  obtain e w0 where o: "offer_task env t prio i w = (e, w0)" by (cases "offer_task env t prio i w")
  obtain ok' w2 where r: "offer_tasks env prio rest w0 = (ok', w2)" by (cases "offer_tasks env prio rest w0")
  from Cons.prems(1) a o r have res: "ok = (if e = None then (p, i) # ok' else ok')" "w1 = w2" by simp_all
  from Cons.prems(6) a obtain m where m: "n \<le> m" "m < N" "i = sv_id (ro_store env) ''job_runs'' m" by auto
  have t: "\<And>j. j \<in> set (w_jobs (rw_world w)) \<Longrightarrow> j_id j = i \<Longrightarrow> task_of j t" using Cons.prems(6) a by auto
  note st = offer_task_step [OF ops o m(3) m(1,2) Cons.prems(5) ids Cons.prems(2,3) t]
  have fresh: "i \<notin> snd ` snd ` set rest" using Cons.prems(4) a by (force simp: image_iff)
  have sub: "handed_over ops (snd ` snd ` set rest) w0"
    using st a fresh by (simp add: handed_over_def)
  have idt: "\<exists>j0 \<in> set (w_jobs (rw_world w)). j_id j0 = j_id j \<and> j_type j0 = j_type j" if "j \<in> set (w_jobs (rw_world w0))" for j
  proof -
    have "(j_id j, j_type j) \<in> set (map (\<lambda>j. (j_id j, j_type j)) (w_jobs (rw_world w)))"
      using that st by (metis (no_types, lifting) image_eqI list.set_map)
    then show ?thesis by force
  qed
  have pre: "\<forall>(p, t, i) \<in> set rest. (\<exists>m \<in> {n..<N}. i = sv_id (ro_store env) ''job_runs'' m)
       \<and> (\<forall>j \<in> set (w_jobs (rw_world w0)). j_id j = i \<longrightarrow> task_of j t)
       \<and> (\<exists>j \<in> set (w_jobs (rw_world w0)). j_id j = i \<and> j_status j = ''queued'')"
  proof (clarify, intro conjI)
    fix p' t' i' assume b: "(p', t', i') \<in> set rest"
    then have ne: "i' \<noteq> i" using fresh by force
    from b Cons.prems(6) have q: "\<exists>m \<in> {n..<N}. i' = sv_id (ro_store env) ''job_runs'' m"
      "\<forall>j \<in> set (w_jobs (rw_world w)). j_id j = i' \<longrightarrow> task_of j t'"
      "\<exists>j \<in> set (w_jobs (rw_world w)). j_id j = i' \<and> j_status j = ''queued''" by auto
    show "\<exists>m \<in> {n..<N}. i' = sv_id (ro_store env) ''job_runs'' m" by (rule q(1))
    show "\<forall>j \<in> set (w_jobs (rw_world w0)). j_id j = i' \<longrightarrow> task_of j t'"
      using q(2) idt unfolding task_of_def by metis
    show "\<exists>j \<in> set (w_jobs (rw_world w0)). j_id j = i' \<and> j_status j = ''queued''"
      using q(3) st ne by blast
  qed
  have dist: "distinct (map (snd \<circ> snd) rest)" using Cons.prems(4) by (simp add: comp_def)
  have is0: "ids_issued env (w_jobs (rw_world w0))" using st by blast
  have len0: "length (w_jobs (rw_world w0)) \<le> N"
    using offer_task_length [OF o] Cons.prems(5) by simp
  note ih = Cons.IH [OF r is0 sub dist len0 pre]
  have keep: "j \<in> set (w_jobs (rw_world w2))"
    if "j \<in> set (w_jobs (rw_world w))" "j_id j \<noteq> i \<or> e = None" "j_id j \<notin> snd ` snd ` set rest" for j
  proof -
    have "j \<in> set (w_jobs (rw_world w0))" using st that by auto
    then show ?thesis using ih that(3) by blast
  qed
  have own: "\<exists>j \<in> set (w_jobs (rw_world w2)). j_id j = i \<and> j_status j = ''queued''" if "e = None"
    using Cons.prems(6) a keep that fresh by auto
  show ?case
  proof (intro conjI)
    show "extends ops n w w1" using st ih res extends_trans by blast
    show "\<forall>j \<in> set (w_jobs (rw_world w)). j_id j \<notin> snd ` snd ` set (a # rest) \<longrightarrow> j \<in> set (w_jobs (rw_world w1))"
      using keep res a by auto
    show "\<forall>(p, i) \<in> set ok. \<exists>j \<in> set (w_jobs (rw_world w1)). j_id j = i \<and> j_status j = ''queued''"
      using own ih res by auto
  qed (use ih res in blast)+
qed

text \<open>What a handler leaves behind.\<close>

definition served :: "'r route_env \<Rightarrow> 'r route_world \<Rightarrow> uuid list \<Rightarrow> 'r route_world \<Rightarrow> bool" where
  "served env w answer w' = (ids_issued env (w_jobs (rw_world w')) \<and> handed_over ops {} w'
     \<and> extends ops (length (w_jobs (rw_world w))) w w'
     \<and> (\<forall>i \<in> set answer. \<exists>j \<in> set (w_jobs (rw_world w')). j_id j = i \<and> j_status j = ''queued''))"

definition starts :: "string \<Rightarrow> (uuid \<Rightarrow> pyval) \<Rightarrow> bool" where
  "starts kind f = (\<forall>i. task_of (new_job kind i) (f i))"

lemma issued_inj:
  assumes "id_source N (sv_id (ro_store env) ''job_runs'')" and "ids_issued env jobs" and "j \<in> set jobs"
    and "j_id j = sv_id (ro_store env) ''job_runs'' m" and "length jobs \<le> N" and "m < N"
  shows "j = jobs ! m"
proof -
  from assms(3) obtain k where k: "k < length jobs" "j = jobs ! k" by (metis in_set_conv_nth)
  with assms issued_index [OF assms(2) k(1)] have "k = m" by (auto simp: id_source_def dest: inj_onD)
  with k show ?thesis by simp
qed

lemma queue_batch_served:
  assumes ops: "ro_ops env = ops" and ids: "id_source N (sv_id (ro_store env) ''job_runs'')"
    and iss: "ids_issued env (w_jobs (rw_world w))" and h: "handed_over ops {} w"
    and t: "\<And>p f. (p, f) \<in> set tasks \<Longrightarrow> starts kind f"
    and q: "queue_batch env kind tasks prio what w = (a, w')" and bound: "length (w_jobs (rw_world w')) \<le> N"
  shows "served env w (qa_job_ids a) w'"
proof -
  obtain js w1 where j: "queue_jobs env kind tasks w = (js, w1)" by (cases "queue_jobs env kind tasks w")
  obtain ok w2 where o: "offer_tasks env prio js w1 = (ok, w2)" by (cases "offer_tasks env prio js w1")
  from q j o have a: "qa_job_ids a = map snd ok" "w' = w2" by (auto simp: queue_batch_def)
  let ?n = "length (w_jobs (rw_world w))" and ?f = "sv_id (ro_store env) ''job_runs''"
  let ?new = "map (new_job kind \<circ> snd \<circ> snd) js"
  note form = queue_jobs_form [OF j]
  have jobs: "w_jobs (rw_world w1) = w_jobs (rw_world w) @ ?new" using form by simp
  have idl: "map (snd \<circ> snd) js = map ?f [?n..<?n + length tasks]" using form by blast
  have len: "length js = length tasks" using arg_cong [OF idl, of length] by simp
  have newid: "map j_id ?new = map ?f [?n..<?n + length tasks]" using idl by (simp add: comp_def)
  have is1: "ids_issued env (w_jobs (rw_world w1))"
  proof -
    have "[0..<?n + length tasks] = [0..<?n] @ [?n..<?n + length tasks]" by (rule upt_add_eq_append) simp
    with iss newid jobs len show ?thesis by (simp add: ids_issued_def)
  qed
  have ids_js: "snd ` snd ` set js = set (map (snd \<circ> snd) js)" by (simp add: image_comp)
  have ho1: "handed_over ops (snd ` snd ` set js) w1"
    unfolding handed_over_def
  proof (intro ballI impI)
    fix j0 assume j0: "j0 \<in> set (w_jobs (rw_world w1))" "j_status j0 = ''queued''" "j_id j0 \<notin> snd ` snd ` set js"
    have "j0 \<notin> set ?new" using j0(3) by (auto simp: image_iff)
    with j0 jobs have "j0 \<in> set (w_jobs (rw_world w))" by auto
    with h j0(2) obtain t0 where "task_of j0 t0" "task_key t0 \<in> fst ` set (pending ops (rw_redis w))"
      unfolding handed_over_def by blast
    moreover have "rw_redis w1 = rw_redis w" using form by simp
    ultimately show "\<exists>t. task_of j0 t \<and> task_key t \<in> fst ` set (pending ops (rw_redis w1))" by auto
  qed
  have len1: "length (w_jobs (rw_world w1)) \<le> N" using offer_tasks_length [OF o] a bound by simp
  have tot: "?n + length tasks \<le> N" using len1 jobs len by simp
  have dist: "distinct (map (snd \<circ> snd) js)"
    using ids tot unfolding idl by (auto simp: distinct_map id_source_def inj_on_def)
  have pre: "\<forall>(p, t, i) \<in> set js. (\<exists>m \<in> {?n..<N}. i = ?f m)
       \<and> (\<forall>j \<in> set (w_jobs (rw_world w1)). j_id j = i \<longrightarrow> task_of j t)
       \<and> (\<exists>j \<in> set (w_jobs (rw_world w1)). j_id j = i \<and> j_status j = ''queued'')"
  proof (clarify, intro conjI)
    fix p0 t0 i0 assume b: "(p0, t0, i0) \<in> set js"
    then have "i0 \<in> set (map (snd \<circ> snd) js)" by force
    then obtain m where m0: "m \<in> {?n..<?n + length tasks}" "i0 = ?f m" unfolding idl by auto
    with tot have m: "m \<in> {?n..<N}" "i0 = ?f m" by auto
    then show "\<exists>m \<in> {?n..<N}. i0 = ?f m" by blast
    have row: "new_job kind i0 \<in> set (w_jobs (rw_world w1))" using b jobs by force
    then show "\<exists>j \<in> set (w_jobs (rw_world w1)). j_id j = i0 \<and> j_status j = ''queued''" by force
    from form b obtain f where "(p0, f) \<in> set tasks" "t0 = f i0" by blast
    with t have good: "task_of (new_job kind i0) t0" by (auto simp: starts_def)
    have uniq: "j = new_job kind i0" if "j \<in> set (w_jobs (rw_world w1))" "j_id j = i0" for j
    proof -
      have "j = w_jobs (rw_world w1) ! m" using issued_inj [OF ids is1 that(1) _ len1, of m] that(2) m by simp
      moreover have "new_job kind i0 = w_jobs (rw_world w1) ! m" using issued_inj [OF ids is1 row _ len1, of m] m by simp
      ultimately show ?thesis by simp
    qed
    show "\<forall>j \<in> set (w_jobs (rw_world w1)). j_id j = i0 \<longrightarrow> task_of j t0"
    proof (intro ballI impI)
      fix j assume "j \<in> set (w_jobs (rw_world w1))" "j_id j = i0"
      then have "j = new_job kind i0" by (rule uniq)
      with good show "task_of j t0" by (simp only:)
    qed
  qed
  note fin = offer_tasks_step [OF ops ids o is1 ho1 dist len1 pre]
  have "extends ops ?n w w1" using form jobs by (simp add: extends_def)
  then have "extends ops ?n w w'" using fin a extends_trans by blast
  with fin a show ?thesis unfolding served_def by fastforce
qed

lemma queue_one_served:
  assumes ops: "ro_ops env = ops" and ids: "id_source N (sv_id (ro_store env) ''job_runs'')"
    and iss: "ids_issued env (w_jobs (rw_world w))" and h: "handed_over ops {} w" and t: "starts kind task"
    and q: "queue_one env kind task prio detail w = (r, w')" and bound: "length (w_jobs (rw_world w')) \<le> N"
  shows "served env w (case r of Inl e \<Rightarrow> [] | Inr i \<Rightarrow> [i]) w'"
proof -
  let ?n = "length (w_jobs (rw_world w))"
  obtain i w1 where j: "queue_job env kind w = (i, w1)" by (cases "queue_job env kind w")
  obtain e w2 where o: "offer_task env (task i) prio i w1 = (e, w2)" by (cases "offer_task env (task i) prio i w1")
  note a = queue_job_step [OF j iss h]
  obtain j0 where j0: "w_jobs (rw_world w1) = w_jobs (rw_world w) @ [j0]" "j_id j0 = i" "j_type j0 = kind"
    "j_status j0 = ''queued''" using a(6) by blast
  have "length (w_jobs (rw_world w')) = length (w_jobs (rw_world w1))"
    using q j o offer_task_length [OF o] by (auto simp: queue_one_def split: option.splits)
  then have len1: "length (w_jobs (rw_world w1)) \<le> N" "?n < N" using bound j0 by simp_all
  have tj: "task_of j (task i)" if "j \<in> set (w_jobs (rw_world w1))" "j_id j = i" for j
  proof -
    have "j0 \<in> set (w_jobs (rw_world w1))" "j_id j0 = sv_id (ro_store env) ''job_runs'' ?n" using j0 a(1) by auto
    from issued_inj [OF ids a(2) this len1] issued_inj [OF ids a(2) that(1) _ len1] that(2) a(1) have "j = j0" by simp
    moreover have "task_of j0 (task i)" using t j0 unfolding starts_def task_of_def by simp
    ultimately show ?thesis by simp
  qed
  have ho: "handed_over ops {i} w1" using a(3) by simp
  note st = offer_task_step [OF ops o a(1) order_refl len1(2,1) ids a(2) ho tj]
  have ex: "extends ops ?n w w2" using a(4) st extends_trans by blast
  show ?thesis
  proof (cases e)
    case None
    with q j o have r: "r = Inr i" "w' = w2" by (simp_all add: queue_one_def)
    have "j0 \<in> set (w_jobs (rw_world w2))" using st None j0(1) by simp
    with j0 have row: "\<exists>j \<in> set (w_jobs (rw_world w2)). j_id j = i \<and> j_status j = ''queued''" by blast
    have "ids_issued env (w_jobs (rw_world w2))" "handed_over ops {} w2" using st by simp_all
    with ex r row show ?thesis unfolding served_def by simp
  next
    case (Some x)
    with q j o have r: "r = Inl (Http_Error 503 detail)" "w' = w2" by (simp_all add: queue_one_def)
    with st ex show ?thesis unfolding served_def by simp
  qed
qed

lemma starts_tasks:
  "starts ''discover'' (job_task ''discover'' [(''query'', q), (''source'', s)])"
  "starts ''fetch_candidate_avatar'' (job_task ''fetch_candidate_avatar'' [(''person_id'', q), (''source'', s)])"
  "starts ''research_candidate'' (research_task p k)"
  "starts ''resolve_identities'' (job_task ''resolve_identities'' [])"
  "starts ''score_candidate'' (person_task ''score_candidate'' p)"
  "starts ''process_candidate'' (person_task ''process_candidate'' p)"
  "starts ''generate_memo'' (job_task ''generate_memo'' [(''person_id'', q), (''opportunity_id'', s)])"
  by (simp_all add: starts_def task_of_def research_task_def person_task_def job_call_def Let_def)

lemma with_opportunity_starts:
  "(\<And>x y. starts kind (task x y)) \<Longrightarrow> (p, f) \<in> set (with_opportunity d task ps) \<Longrightarrow> starts kind f"
  by (auto simp: with_opportunity_def List.map_filter_def split: option.splits)

lemma served_refl: "ids_issued env (w_jobs (rw_world w)) \<Longrightarrow> handed_over ops {} w \<Longrightarrow> served env w [] w"
  by (simp add: served_def)

lemma one_job_served:
  "(\<And>r' w'. q = (r', w') \<Longrightarrow> served env w (case r' of Inl e \<Rightarrow> [] | Inr i \<Rightarrow> [i]) w') \<Longrightarrow> one_job q = (r, w1) \<Longrightarrow>
   served env w (case r of Inl e \<Rightarrow> [] | Inr is \<Rightarrow> is) w1"
  by (cases q; cases "fst q") (auto simp: one_job_def)

lemma contact_served:
  assumes "ro_ops env = ops" and "ids_issued env (w_jobs (rw_world w))" and h: "handed_over ops {} w"
    and "contact_candidate env i w = (r, w')"
  shows "served env w [] w'"
proof -
  have "w' = w \<or> (\<exists>t p. w' = w\<lparr>rw_redis := enqueue ops (rw_redis w) t p\<rparr>)"
    using assms(1,4) by (auto simp: contact_candidate_def split: option.splits)
  then show ?thesis
  proof
    assume "w' = w"
    with assms show ?thesis by (simp add: served_refl)
  next
    assume "\<exists>t p. w' = w\<lparr>rw_redis := enqueue ops (rw_redis w) t p\<rparr>"
    then obtain t p where w': "w' = w\<lparr>rw_redis := enqueue ops (rw_redis w) t p\<rparr>" by blast
    note k = pending_enqueue_keys [of t "rw_redis w" p]
    have "handed_over ops {} w'"
      unfolding handed_over_def
    proof (intro ballI impI)
      fix j assume "j \<in> set (w_jobs (rw_world w'))" "j_status j = ''queued''" "j_id j \<notin> {}"
      then have "j \<in> set (w_jobs (rw_world w))" "j_status j = ''queued''" using w' by simp_all
      with h obtain t0 where "task_of j t0" "task_key t0 \<in> fst ` set (pending ops (rw_redis w))"
        unfolding handed_over_def by blast
      with k w' show "\<exists>t. task_of j t \<and> task_key t \<in> fst ` set (pending ops (rw_redis w'))" by auto
    qed
    with assms(2) w' k show ?thesis by (auto simp: served_def extends_def)
  qed
qed

lemma serve_served:
  assumes e: "ro_ops env = ops" and ids: "id_source N (sv_id (ro_store env) ''job_runs'')"
    and w: "ids_issued env (w_jobs (rw_world w))" "handed_over ops {} w"
    and s: "serve env pick req w = (r, w')" and b: "length (w_jobs (rw_world w')) \<le> N"
  shows "served env w (case r of Inl x \<Rightarrow> [] | Inr is \<Rightarrow> is) w'"
proof -
  note ref = served_refl [OF w]
  have one: "served env w (case r of Inl x \<Rightarrow> [] | Inr is \<Rightarrow> is) w'"
    if "starts kind task" "one_job (queue_one env kind task prio detail w) = (r, w')" for kind task prio detail
  proof (cases "queue_one env kind task prio detail w")
    case (Pair r0 w0)
    with that(2) have "w0 = w'" by (auto simp: one_job_def split: sum.splits)
    with that Pair queue_one_served [OF e ids w that(1) Pair] b show ?thesis
      by (auto simp: one_job_def split: sum.splits)
  qed
  have batch: "served env w (case r of Inl x \<Rightarrow> [] | Inr is \<Rightarrow> is) w'"
    if "\<And>p f. (p, f) \<in> set tasks \<Longrightarrow> starts kind f"
      "batch_jobs (case queue_batch env kind tasks prio what w of (a, w1) \<Rightarrow> (Inr a, w1)) = (r, w')" for kind tasks prio what
  proof (cases "queue_batch env kind tasks prio what w")
    case (Pair a w0)
    with that(2) have r: "r = Inr (qa_job_ids a)" "w0 = w'" by (simp_all add: batch_jobs_def)
    with queue_batch_served [OF e ids w that(1) Pair] b show ?thesis by simp
  qed
  note defs = serve_def one_job_def [of "(Inl x, y)" for x y] batch_jobs_def [of "(Inl x, y)" for x y] Let_def
  show ?thesis
  proof (cases req)
    case (Discover_Request q c)
    with s ref show ?thesis
      by (cases "c \<in> set builtin_sources")
        (auto simp: defs trigger_discover_def one [OF starts_tasks(1)])
  next
    case (Contact_Request i)
    obtain a w0 where c: "contact_candidate env i w = (a, w0)" by (cases "contact_candidate env i w")
    with s Contact_Request contact_served [OF e w c] show ?thesis
      by (cases a) (auto simp: serve_def)
  next
    case Resolve_Request
    with s ref show ?thesis by (simp add: defs trigger_identity_resolve_def one [OF starts_tasks(4)])
  next
    case (Research_Request i)
    with s ref show ?thesis
      by (cases "active_person (w_db (rw_world w)) i";
          cases "current_opportunity (w_db (rw_world w)) (p_id (the (active_person (w_db (rw_world w)) i)))")
        (auto simp: defs research_candidate_def one [OF starts_tasks(3)])
  next
    case (Score_Request i)
    with s ref show ?thesis
      by (cases "active_person (w_db (rw_world w)) i")
        (auto simp: defs score_candidate_route_def one [OF starts_tasks(5)])
  next
    case (Process_Request i)
    with s ref show ?thesis
      by (cases "active_person (w_db (rw_world w)) i")
        (auto simp: defs process_candidate_route_def one [OF starts_tasks(6)])
  next
    case (Memo_Request i k)
    with s ref show ?thesis
      by (cases "active_person (w_db (rw_world w)) i")
        (auto simp: defs generate_candidate_memo_def one [OF starts_tasks(7)] split: if_splits)
  next
    case (Score_Batch_Request limit)
    let ?ps = "take (nat limit) (pick (filter p_canonical (persons (w_db (rw_world w)))))"
    have t: "starts ''score_candidate'' f"
      if "(p, f) \<in> set (map (\<lambda>p. (p_id p, person_task ''score_candidate'' (p_id p))) ?ps)" for p f
      using that by (auto simp: starts_tasks)
    show ?thesis
    proof (cases "limit < 0")
      case True
      with s ref Score_Batch_Request show ?thesis by (auto simp: defs score_candidates_batch_def)
    next
      case False
      with s Score_Batch_Request have "batch_jobs (case queue_batch env ''score_candidate''
          (map (\<lambda>p. (p_id p, person_task ''score_candidate'' (p_id p))) ?ps) 5 ''multi-agent scoring'' w of
          (a, w1) \<Rightarrow> (Inr a, w1)) = (r, w')" by (simp add: serve_def score_candidates_batch_def)
      then show ?thesis by (rule batch [rotated]) (erule t)
    qed
  next
    case (Avatar_Batch_Request cs limit force)
    with s ref show ?thesis
      by (auto simp: defs fetch_candidate_avatars_def split: option.splits list.splits
          intro!: batch [OF with_opportunity_starts [OF starts_tasks(2)]])
  next
    case (Research_Batch_Request cs limit)
    with s ref show ?thesis
      by (auto simp: defs research_candidates_def split: option.splits list.splits
          intro!: batch [OF with_opportunity_starts [OF starts_tasks(3)]])
  qed
qed

lemma served_after: "extends ops (length (w_jobs (rw_world w))) w w1 \<Longrightarrow> served env w1 is w' \<Longrightarrow> served env w is w'"
  unfolding served_def using extends_less [of ops "length (w_jobs (rw_world w1))" w1 w' "length (w_jobs (rw_world w))"]
  by (auto simp: extends_def)

lemma serve_all_served:
  assumes e: "ro_ops env = ops" and ids: "id_source N (sv_id (ro_store env) ''job_runs'')"
  shows "ids_issued env (w_jobs (rw_world w)) \<Longrightarrow> handed_over ops {} w \<Longrightarrow>
    length (w_jobs (rw_world (serve_all env pick reqs w))) \<le> N \<Longrightarrow> served env w [] (serve_all env pick reqs w)"
proof (induction reqs arbitrary: w)
  case Nil
  then show ?case by (simp add: served_refl)
next
  case (Cons req reqs)
  obtain r w1 where s: "serve env pick req w = (r, w1)" by (cases "serve env pick req w")
  have "length (w_jobs (rw_world w1)) \<le> N" using Cons.prems(3) serve_all_grows [of w1 env pick reqs] s by simp
  from serve_served [OF e ids Cons.prems(1,2) s this] have a: "ids_issued env (w_jobs (rw_world w1))"
    "handed_over ops {} w1" "extends ops (length (w_jobs (rw_world w))) w w1" by (simp_all add: served_def)
  with Cons.IH [of w1] Cons.prems(3) s have "served env w1 [] (serve_all env pick reqs w1)" by simp
  from served_after [OF a(3) this] s show ?case by simp
qed

end

section \<open>Properties\<close>


definition sample_job_id :: "nat \<Rightarrow> uuid" where
  "sample_job_id n = (if n = 0 then ''00000000-0000-0000-0000-000000000001'' else ''00000000-0000-0000-0000-000000000002'')"

definition sample_route_env :: "list_redis route_env" where
  "sample_route_env = \<lparr>ro_ops = sample_ops,
     ro_refuses = (\<lambda>t. if task_get t ''job_id'' PNone = PStr (sample_job_id 0) then Some (other_error ''E'' ''down'') else None),
     ro_store = sample_store_env\<lparr>sv_id := (\<lambda>table. sample_job_id)\<rparr>, ro_bad_limit = other_error ''E'' ''limit''\<rparr>"

definition sample_route_world :: "list_redis route_world" where
  "sample_route_world = \<lparr>rw_world = \<lparr>w_db = empty_db, w_snapshots = [], w_jobs = [], w_telemetry = [], w_objects = []\<rparr>,
     rw_redis = empty_redis\<rparr>"

lemma sample_job_ids: "id_source 2 sample_job_id"
proof -
  have "inj_on sample_job_id {..<2}" by (auto simp: inj_on_def sample_job_id_def less_2_cases_iff)
  moreover have "parse_uuid (sample_job_id 0) = Some (sample_job_id 0)" "parse_uuid (sample_job_id 1) = Some (sample_job_id 1)"
    by code_simp+
  ultimately show ?thesis by (auto simp: id_source_def less_2_cases_iff)
qed


end
