(* ===== verification/Match_Review.thy ===== *)
theory Match_Review
  imports Route_Contract Merge_Persons Reconcile
begin

text \<open>
  The review of proposed identity matches, \<^verbatim>\<open>list_pending_matches\<close>, \<^verbatim>\<open>approve_match\<close> and \<^verbatim>\<open>reject_match\<close> of
  \<^verbatim>\<open>app/api/routes/collection.py\<close>, over the merge of people that identity resolution uses. The reasons of a
  match are only logged by the merge and left out. \<open>fault\<close> is the exception of a match id that is no UUID,
  \<open>failed\<close> the one of a merge that raises; both roll the transaction back.
\<close>

section \<open>The handlers\<close>

definition list_pending_matches :: "db \<Rightarrow> person_match list" where
  "list_pending_matches d = sort_key (\<lambda>m. - m_confidence m) (filter (\<lambda>m. m_status m = ''pending'') (person_matches d))"

definition resolve_match :: "instant \<Rightarrow> string \<Rightarrow> person_match \<Rightarrow> db \<Rightarrow> db" where
  "resolve_match now status m d = d\<lparr>person_matches := put_row m_id (person_matches d)
     (m\<lparr>m_status := status, m_resolved_by := Some ''api'', m_resolved_at := Some now\<rparr>)\<rparr>"

definition pending_row :: "exc \<Rightarrow> string \<Rightarrow> db \<Rightarrow> http_failure + person_match" where
  "pending_row fault match_id d =
     (case parse_uuid match_id of
        None \<Rightarrow> Inl (Unhandled fault)
      | Some i \<Rightarrow>
          (case get_row m_id (person_matches d) i of
             None \<Rightarrow> Inl (Http_Error 404 ''Match not found'')
           | Some m \<Rightarrow> if m_status m \<noteq> ''pending'' then Inl (Http_Error 400 (''Match already '' @ m_status m)) else Inr m))"

definition approve_match :: "exc \<Rightarrow> (string \<Rightarrow> exc) \<Rightarrow> instant \<Rightarrow> string \<Rightarrow> db \<Rightarrow> (http_failure + string) \<times> db" where
  "approve_match fault failed now match_id d =
     (case pending_row fault match_id d of
        Inl e \<Rightarrow> (Inl e, d)
      | Inr m \<Rightarrow>
          (case (get_row p_id (persons d) (m_person_a m), get_row p_id (persons d) (m_person_b m)) of
             (Some pa, Some pb) \<Rightarrow>
               (case pick_canonical pa pb (m_person_a m) (m_person_b m) of
                  (keep, dup) \<Rightarrow>
                    (case merge_persons now d keep dup of
                       Inl e \<Rightarrow> (Inl (Unhandled (failed e)), d)
                     | Inr (p, d') \<Rightarrow> (Inr ''Match approved and persons merged'', resolve_match now ''approved'' m d')))
           | _ \<Rightarrow> (Inl (Http_Error 404 ''One or both persons not found''), d)))"

definition reject_match :: "exc \<Rightarrow> instant \<Rightarrow> string \<Rightarrow> db \<Rightarrow> (http_failure + string) \<times> db" where
  "reject_match fault now match_id d =
     (case pending_row fault match_id d of
        Inl e \<Rightarrow> (Inl e, d)
      | Inr m \<Rightarrow> (Inr ''Match rejected'', resolve_match now ''rejected'' m d))"

section \<open>Lemmas\<close>

lemma pending_row_Inr: "pending_row fault i d = Inr m \<Longrightarrow>
   \<exists>k. parse_uuid i = Some k \<and> get_row m_id (person_matches d) k = Some m \<and> m_status m = ''pending''"
  by (auto simp: pending_row_def split: option.splits if_splits)

lemma pending_row_resolved:
  assumes "pending_row fault i d = Inr m" and "person_matches d' = person_matches d" and "status \<noteq> ''pending''"
  shows "pending_row fault2 i (resolve_match now status m d') = Inl (Http_Error 400 (''Match already '' @ status))"
  using pending_row_Inr [OF assms(1)] assms(2,3)
  by (auto simp: pending_row_def resolve_match_def get_row_put_row dest: get_row_key)

lemma merge_matches: "merge_persons now d c dup = Inr (p, d') \<Longrightarrow> person_matches d' = person_matches d"
  by (cases "get_row p_id (persons d) c"; cases "get_row p_id (persons d) dup")
    (auto simp: merge_persons_def reassign_rows_def Let_def split: if_splits)

lemma approve_match_Inr:
  assumes "approve_match fault failed now i d = (Inr t, d')"
  obtains m pa pb keep dup p d1 where "pending_row fault i d = Inr m"
    "get_row p_id (persons d) (m_person_a m) = Some pa" "get_row p_id (persons d) (m_person_b m) = Some pb"
    "pick_canonical pa pb (m_person_a m) (m_person_b m) = (keep, dup)" "merge_persons now d keep dup = Inr (p, d1)"
    "d' = resolve_match now ''approved'' m d1"
  using assms by (auto simp: approve_match_def split: sum.splits option.splits prod.splits)

lemma pick_canonical_cases: "pick_canonical pa pb a b = (keep, dup) \<Longrightarrow> (keep, dup) = (a, b) \<or> (keep, dup) = (b, a)"
  by (auto simp: pick_canonical_def split: option.splits if_splits)

section \<open>Properties\<close>


text \<open>
  Approving a match whose earlier person was merged in the meantime loses a candidate: the later person, in
  use until then, is merged into the retired one, and afterwards neither is in use, while the answer says the
  two were merged.
\<close>

theorem approval_retires_live_candidate:
  assumes "approve_match fault failed now i d = (Inr t, d')" and "pending_row fault i d = Inr m"
    and "get_row p_id (persons d) (m_person_a m) = Some pa" and "get_row p_id (persons d) (m_person_b m) = Some pb"
    and "m_person_a m \<noteq> m_person_b m" and "p_created_at pa = Some ta" "p_created_at pb = Some tb" "ta \<le> tb"
    and "\<not> p_canonical pa" and "p_canonical pb"
  shows "active_person d (m_person_b m) = Some pb \<and> active_person d' (m_person_a m) = None \<and> active_person d' (m_person_b m) = None
    \<and> t = ''Match approved and persons merged''"
proof -
  from assms have k: "\<exists>p d1. merge_persons now d (m_person_a m) (m_person_b m) = Inr (p, d1) \<and> d' = resolve_match now ''approved'' m d1"
    by (elim approve_match_Inr) (auto simp: pick_canonical_def)
  then obtain p d1 where k: "merge_persons now d (m_person_a m) (m_person_b m) = Inr (p, d1)" "d' = resolve_match now ''approved'' m d1"
    by blast
  from merge_Inr [OF k(1) assms(4,10)] assms(3) have d1: "persons d1 = put_row p_id (put_row p_id (persons d) (merged_canonical pa pb))
      (pb\<lparr>p_canonical := False, p_superseded_by := Some (m_person_a m), p_merged_at := Some now\<rparr>)" by auto
  note ids = get_row_key [OF assms(3)] get_row_key [OF assms(4)]
  have "active_person d' (m_person_a m) = None" "active_person d' (m_person_b m) = None"
    using d1 k(2) ids assms(3-5,9) by (simp_all add: active_person_def get_row_put_row resolve_match_def merged_canonical_def)
  moreover have "t = ''Match approved and persons merged''"
    using assms(1) by (auto simp: approve_match_def split: sum.splits option.splits prod.splits)
  ultimately show ?thesis using assms(4,10) by (simp add: active_person_def)
qed

text \<open>
  A rejected match comes back: resolution only looks for matches that are pending, so the next run proposes
  a pair that a person has rejected again, as a new match.
\<close>

theorem rejected_match_returns:
  assumes "reject_match fault now i d = (Inr t, d')" and "pending_row fault i d = Inr m"
    and "get_row p_id (persons d) (m_person_a m) = Some pa" "p_canonical pa"
    and "get_row p_id (persons d) (m_person_b m) = Some pb" "p_canonical pb"
    and "match_confidence env (fetch_observations d (m_person_a m)) (fetch_observations d (m_person_b m)) = Some (c, reasons)"
    and "review_threshold \<le> c" "\<not> should_auto_merge c merge_threshold"
    and "\<not> pending_match (d\<lparr>person_matches := filter (\<lambda>x. m_id x \<noteq> m_id m) (person_matches d)\<rparr>) (m_person_a m) (m_person_b m)"
    and "rs_db s = d'"
  shows "\<exists>s' m'. resolve_pair env ids later (m_person_a m, m_person_b m) s = Inr s'
    \<and> person_matches (rs_db s') = person_matches d' @ [m'] \<and> m_status m' = ''pending''
    \<and> m_person_a m' = m_person_a m \<and> m_person_b m' = m_person_b m"
proof -
  from assms(1,2) have d': "d' = resolve_match now ''rejected'' m d" by (simp add: reject_match_def)
  have np: "\<not> pending_match d' (m_person_a m) (m_person_b m)"
    using assms(10) by (auto simp: d' pending_match_def resolve_match_def put_row_def list_ex_iff split: if_splits)
  have f: "fetch_observations d' = fetch_observations d" "persons d' = persons d"
    by (simp_all add: d' resolve_match_def fetch_observations_def fun_eq_iff)
  show ?thesis
    using assms(3-9,11) np f by (simp add: resolve_pair_def Let_def)
qed

section \<open>Witnesses\<close>

definition review_id :: uuid where "review_id = ''00000000-0000-0000-0000-000000000001''"

definition review_match :: person_match where
  "review_match = \<lparr>m_id = review_id, m_person_a = ''p1'', m_person_b = ''p2'', m_confidence = 3 / 5, m_reasons = PDict [],
     m_status = ''pending'', m_resolved_by = None, m_resolved_at = None\<rparr>"

definition review_db :: db where
  "review_db = twin_db\<lparr>person_matches := [review_match]\<rparr>"

lemma review_pending: "pending_row fault review_id (review_db\<lparr>persons := ps\<rparr>) = Inr review_match"
  "pending_row fault review_id review_db = Inr review_match"
proof -
  have "parse_uuid review_id = Some review_id" by (simp add: review_id_def) code_simp
  then show "pending_row fault review_id (review_db\<lparr>persons := ps\<rparr>) = Inr review_match"
    "pending_row fault review_id review_db = Inr review_match"
    by (simp_all add: pending_row_def review_db_def get_row_def review_match_def)
qed

definition review_fault :: exc where
  "review_fault = \<lparr>x_class = Other_Error, x_name = ''DataError'', x_text = ''invalid UUID''\<rparr>"

lemma review_people: "get_row p_id (persons review_db) ''p1'' = Some sample_person"
  "get_row p_id (persons review_db) ''p2'' = Some (sample_person\<lparr>p_id := ''p2''\<rparr>)"
  by (simp_all add: review_db_def twin_db_def sample_person_def get_row_def)

lemma review_approved: "\<exists>da. approve_match f g 9 review_id review_db = (Inr ''Match approved and persons merged'', da)"
proof -
  have "pick_canonical sample_person (sample_person\<lparr>p_id := ''p2''\<rparr>) ''p1'' ''p2'' = (''p1'', ''p2'')"
    by (simp add: pick_canonical_def sample_person_def)
  moreover have "\<exists>p d'. merge_persons 9 review_db ''p1'' ''p2'' = Inr (p, d')"
    by (simp add: review_db_def twin_db_def sample_person_def get_row_def merge_persons_def founder_clash_def Let_def)
  ultimately show ?thesis using review_people review_pending(2) by (auto simp: approve_match_def review_match_def)
qed


definition retired_db :: db where
  "retired_db = review_db\<lparr>persons := [sample_person\<lparr>p_canonical := False, p_superseded_by := Some ''p0'', p_created_at := Some 1\<rparr>,
     sample_person\<lparr>p_id := ''p2'', p_created_at := Some 2\<rparr>]\<rparr>"

theorem approval_retires_live_candidate_witness:
  "\<exists>d'. approve_match review_fault (\<lambda>t. review_fault) 9 review_id retired_db = (Inr ''Match approved and persons merged'', d')
     \<and> active_person retired_db ''p2'' \<noteq> None \<and> active_person d' ''p1'' = None \<and> active_person d' ''p2'' = None"
proof -
  let ?a = "sample_person\<lparr>p_canonical := False, p_superseded_by := Some ''p0'', p_created_at := Some 1\<rparr>"
  let ?b = "sample_person\<lparr>p_id := ''p2'', p_created_at := Some 2\<rparr>"
  have p: "get_row p_id (persons retired_db) (m_person_a review_match) = Some ?a"
    "get_row p_id (persons retired_db) (m_person_b review_match) = Some ?b"
    by (simp_all add: retired_db_def get_row_def sample_person_def review_match_def)
  have k: "m_person_a review_match \<noteq> m_person_b review_match" by (simp add: review_match_def)
  have row: "pending_row review_fault review_id retired_db = Inr review_match"
    unfolding retired_db_def by (rule review_pending(1))
  have "\<exists>q d'. merge_persons 9 retired_db ''p1'' ''p2'' = Inr (q, d')"
    using p by (simp add: merge_persons_def review_match_def sample_person_def founder_clash_def retired_db_def review_db_def
        twin_db_def Let_def)
  then have "\<exists>d'. approve_match review_fault (\<lambda>t. review_fault) 9 review_id retired_db = (Inr ''Match approved and persons merged'', d')"
    using p row by (auto simp: approve_match_def review_match_def pick_canonical_def)
  then obtain d' where a: "approve_match review_fault (\<lambda>t. review_fault) 9 review_id retired_db = (Inr ''Match approved and persons merged'', d')"
    by blast
  have s: "p_created_at ?a = Some 1" "p_created_at ?b = Some 2" "(1 :: int) \<le> 2" "\<not> p_canonical ?a" "p_canonical ?b"
    by (simp_all add: sample_person_def)
  show ?thesis
    using approval_retires_live_candidate [OF a row p k s] a by (auto simp: review_match_def)
qed

definition named_match :: person_match where
  "named_match = review_match\<lparr>m_confidence := 1 / 2\<rparr>"

definition named_twins :: db where
  "named_twins = review_db\<lparr>observations := [(sample_observation ''x1'' ''Ada Lovelace'' 1)\<lparr>ob_subject_id := Some ''p1'', ob_predicate := ''display_name''\<rparr>,
     (sample_observation ''x2'' ''Ada Lovelace'' 1)\<lparr>ob_subject_id := Some ''p2'', ob_predicate := ''display_name''\<rparr>]\<rparr>"

theorem rejected_match_returns_witness:
  "\<exists>d' s'. reject_match review_fault 9 review_id named_twins = (Inr ''Match rejected'', d')
     \<and> resolve_pair sample_match_env (\<lambda>n. []) 10 (''p1'', ''p2'') \<lparr>rs_db = d', rs_pairs = 0, rs_merged = 0, rs_flagged = 0\<rparr> = Inr s'
     \<and> length (person_matches (rs_db s')) = 2"
proof -
  have row: "pending_row review_fault review_id named_twins = Inr review_match"
  proof -
    have "parse_uuid review_id = Some review_id" by (simp add: review_id_def) code_simp
    then show ?thesis by (simp add: pending_row_def named_twins_def review_db_def get_row_def review_match_def)
  qed
  then obtain d' where r: "reject_match review_fault 9 review_id named_twins = (Inr ''Match rejected'', d')"
    and d': "d' = resolve_match 9 ''rejected'' review_match named_twins" by (simp add: reject_match_def)
  have m: "m_person_a review_match = ''p1''" "m_person_b review_match = ''p2''" by (simp_all add: review_match_def)
  have p: "get_row p_id (persons named_twins) ''p1'' = Some sample_person" "p_canonical sample_person"
    "get_row p_id (persons named_twins) ''p2'' = Some (sample_person\<lparr>p_id := ''p2''\<rparr>)" "p_canonical (sample_person\<lparr>p_id := ''p2''\<rparr>)"
    by (simp_all add: named_twins_def review_db_def twin_db_def sample_person_def get_row_def)
  have o: "fetch_observations named_twins ''p1'' = [(''display_name'', ''Ada Lovelace'')]"
    "fetch_observations named_twins ''p2'' = [(''display_name'', ''Ada Lovelace'')]"
    by (simp_all add: fetch_observations_def named_twins_def sample_observation_def)
  have "match_confidence sample_match_env [(''display_name'', ''Ada Lovelace'')] [(''display_name'', ''Ada Lovelace'')]
      = Some (1 / 2, [''name_fuzzy_only''])" by code_simp
  then have c: "match_confidence sample_match_env (fetch_observations named_twins (m_person_a review_match))
      (fetch_observations named_twins (m_person_b review_match)) = Some (1 / 2, [''name_fuzzy_only''])" by (simp add: m o)
  have th: "review_threshold \<le> 1 / 2" "\<not> should_auto_merge (1 / 2) merge_threshold"
    by (simp_all add: review_threshold_def should_auto_merge_def merge_threshold_def)
  have np: "\<not> pending_match (named_twins\<lparr>person_matches := filter (\<lambda>x. m_id x \<noteq> m_id review_match) (person_matches named_twins)\<rparr>)
      (m_person_a review_match) (m_person_b review_match)"
    by (simp add: pending_match_def named_twins_def review_db_def)
  have "person_matches d' = [review_match\<lparr>m_status := ''rejected'', m_resolved_by := Some ''api'', m_resolved_at := Some 9\<rparr>]"
    by (simp add: d' resolve_match_def named_twins_def review_db_def put_row_def)
  with rejected_match_returns [OF r row p [folded m] c th np, of "\<lparr>rs_db = d', rs_pairs = 0, rs_merged = 0, rs_flagged = 0\<rparr>"] r m
  show ?thesis by fastforce
qed

end
