(* ===== verification/Decision_Route.thy ===== *)
theory Decision_Route
  imports Route_Contract Memo_Job
begin

text \<open>
  The human decision, \<^verbatim>\<open>record_candidate_decision\<close> of \<^verbatim>\<open>app/api/routes/candidates.py\<close>, and the analyst
  feedback beside it. The newest memo and the newest proposal of a deal are the ones stored last, since rows
  are appended with the time of their transaction. The row of the event stands for its id in the answer, and
  the ISO text of a time in its metadata is the time.
\<close>

section \<open>Requests\<close>

datatype decision_action = Proceed | Put_On_Hold | Decline

fun action_text :: "decision_action \<Rightarrow> string" where
  "action_text Proceed = ''proceed''"
| "action_text Put_On_Hold = ''hold''"
| "action_text Decline = ''decline''"

fun decision_state_for_action :: "decision_action \<Rightarrow> string" where
  "decision_state_for_action Proceed = ''approved''"
| "decision_state_for_action Put_On_Hold = ''hold''"
| "decision_state_for_action Decline = ''closed''"

fun proposed_action_for :: "decision_action \<Rightarrow> string" where
  "proposed_action_for Proceed = ''invest''"
| "proposed_action_for Put_On_Hold = ''hold''"
| "proposed_action_for Decline = ''decline''"

record decision_request =
  dr_opportunity_id :: uuid
  dr_action :: decision_action
  dr_reason :: string

record decision_answer =
  da_event :: decision_event
  da_action :: decision_action
  da_reason :: string

text \<open>The limits of the body, which FastAPI checks before the handler runs.\<close>

definition decision_body_ok :: "decision_request \<Rightarrow> bool" where
  "decision_body_ok req = (3 \<le> length (dr_reason req) \<and> length (dr_reason req) \<le> 2000)"

section \<open>The handler\<close>

definition event_for_key :: "db \<Rightarrow> string \<Rightarrow> decision_event option" where
  "event_for_key d key = find (\<lambda>e. e_idempotency_key e = Some key) (decision_events d)"

definition event_action :: "decision_event \<Rightarrow> pyval option" where
  "event_action e = (case e_sla_metadata e of None \<Rightarrow> None | Some m \<Rightarrow> dget m ''action'')"

definition decision_answer_of :: "decision_request \<Rightarrow> string \<Rightarrow> decision_event \<Rightarrow> decision_answer" where
  "decision_answer_of req reason e = \<lparr>da_event = e, da_action = dr_action req, da_reason = reason\<rparr>"

definition newest_such :: "('a \<Rightarrow> bool) \<Rightarrow> 'a list \<Rightarrow> 'a option" where
  "newest_such P xs = find P (rev xs)"

definition decision_metadata :: "instant \<Rightarrow> decision_request \<Rightarrow> investment_memo \<Rightarrow> sla_view
    \<Rightarrow> decision_proposal option \<Rightarrow> pyval dict" where
  "decision_metadata now req m sla proposal = [
     (''action'', PStr (action_text (dr_action req))), (''source'', PStr ''decision-floating-dock''),
     (''memo_id'', PStr (memo_id m)), (''claim_ids'', strs (memo_claim_ids m)),
     (''assessment_ids'', strs (memo_assessment_ids m)), (''thesis_version'', PStr (memo_thesis_version m)),
     (''sla_attainment'', PStr (v_attainment sla)), (''sla_status'', PStr (v_status sla)),
     (''decision_at'', PTime now),
     (''proposal_id'', case proposal of Some p \<Rightarrow> PStr (dp_id p) | None \<Rightarrow> PNone)]"

definition decide_proposal :: "decision_request \<Rightarrow> string \<Rightarrow> decision_proposal \<Rightarrow> decision_proposal" where
  "decide_proposal req reason p =
     (let action = proposed_action_for (dr_action req); v = dp_values p;
          override = (if action \<noteq> pv_action v then Some reason else None)
      in p\<lparr>dp_values := v\<lparr>pv_override_reason := override, pv_action := action,
            pv_status := (if str_truthy override then ''overridden'' else ''approved'')\<rparr>\<rparr>)"

definition decision_event_for :: "instant \<Rightarrow> string \<Rightarrow> decision_request \<Rightarrow> string \<Rightarrow> opportunity \<Rightarrow> pyval dict \<Rightarrow> decision_event" where
  "decision_event_for now key req reason opp meta =
     \<lparr>e_opportunity_id = o_id opp, e_prior_state = o_lifecycle_state opp,
      e_new_state = decision_state_for_action (dr_action req), e_actor = ''vc-ui:unattributed'',
      e_idempotency_key = Some key, e_reason = Some reason, e_sla_metadata = Some meta, e_created_at = now\<rparr>"

definition commit_decision :: "instant \<Rightarrow> string \<Rightarrow> decision_request \<Rightarrow> string \<Rightarrow> opportunity \<Rightarrow> investment_memo
    \<Rightarrow> memo_world \<Rightarrow> decision_event \<times> memo_world" where
  "commit_decision now key req reason opp m w =
     (let proposal = newest_such (\<lambda>p. dp_opportunity_id p = o_id opp) (mw_proposals w);
          (opp1, sla) = finalize_sla opp (Some (Aware now 0)) now;
          event = decision_event_for now key req reason opp (decision_metadata now req m sla proposal);
          opp2 = opp1\<lparr>o_lifecycle_state := decision_state_for_action (dr_action req), o_updated_at := Some now\<rparr>;
          v = mw_world w
      in (event, w\<lparr>mw_world := v\<lparr>w_db := add_event (save_opportunity (w_db v) opp2) event\<rparr>,
            mw_proposals := (case proposal of None \<Rightarrow> mw_proposals w
              | Some p \<Rightarrow> put_row dp_id (mw_proposals w) (decide_proposal req reason p))\<rparr>))"

definition linked_opportunity :: "db \<Rightarrow> uuid \<Rightarrow> uuid \<Rightarrow> opportunity option" where
  "linked_opportunity d pid oid =
     (if list_ex (\<lambda>f. of_opportunity_id f = oid \<and> of_person_id f = pid) (founders d)
      then get_row o_id (opportunities d) oid else None)"

definition succeeded_memo :: "db \<Rightarrow> uuid \<Rightarrow> investment_memo option" where
  "succeeded_memo d oid = newest_such (\<lambda>m. memo_opportunity_id m = oid \<and> memo_status m = ''succeeded'') (memos d)"

definition record_candidate_decision :: "instant \<Rightarrow> uuid \<Rightarrow> decision_request \<Rightarrow> string \<Rightarrow> memo_world
    \<Rightarrow> (http_failure + decision_answer) \<times> memo_world" where
  "record_candidate_decision now cid req idempotency_key w =
     (let key = strip idempotency_key; reason = strip (dr_reason req); d = w_db (mw_world w);
          refuse = (\<lambda>code detail. (Inl (Http_Error code detail), w))
      in if \<not> decision_body_ok req then refuse 422 ''reason''
         else if key = [] \<or> 128 < length key then refuse 422 ''Idempotency-Key must be 1-128 characters''
         else (case active_person d cid of
             None \<Rightarrow> refuse 404 ''Candidate not found''
           | Some p \<Rightarrow>
               (case linked_opportunity d (p_id p) (dr_opportunity_id req) of
                  None \<Rightarrow> refuse 409 ''Candidate is not linked to this opportunity''
                | Some opp \<Rightarrow>
                    if length reason < 3 then refuse 422 ''Decision reason must be at least 3 characters''
                    else (case event_for_key d key of
                        Some e \<Rightarrow>
                          (if e_opportunity_id e \<noteq> o_id opp \<or> event_action e \<noteq> Some (PStr (action_text (dr_action req)))
                              \<or> e_reason e \<noteq> Some reason
                           then refuse 409 ''Idempotency-Key was already used for another decision''
                           else (Inr (decision_answer_of req reason e), w))
                      | None \<Rightarrow>
                          (let prior = o_lifecycle_state opp; new = decision_state_for_action (dr_action req)
                           in if \<not> is_valid_transition prior new \<or> prior = new
                              then refuse 409 (''Decision is not allowed from lifecycle state '' @ [CHR 0x27] @ prior @ [CHR 0x27])
                              else (case succeeded_memo d (o_id opp) of
                                  None \<Rightarrow> refuse 409 ''A validated memo is required before deciding''
                                | Some m \<Rightarrow> (case commit_decision now key req reason opp m w of
                                    (e, w') \<Rightarrow> (Inr (decision_answer_of req reason e), w'))))))))"

section \<open>Analyst feedback\<close>

datatype feedback_action = Dismiss | Save | Defer | Assign

fun feedback_text :: "feedback_action \<Rightarrow> string" where
  "feedback_text Dismiss = ''dismiss''"
| "feedback_text Save = ''save''"
| "feedback_text Defer = ''defer''"
| "feedback_text Assign = ''assign''"

record candidate_feedback =
  cf_id :: uuid
  cf_person_id :: uuid
  cf_action :: string
  cf_reason :: string
  cf_actor :: string
  cf_created_at :: instant

definition record_candidate_feedback :: "instant \<Rightarrow> uuid \<Rightarrow> db \<Rightarrow> uuid \<Rightarrow> feedback_action \<Rightarrow> string
    \<Rightarrow> candidate_feedback list \<Rightarrow> (http_failure + candidate_feedback) \<times> candidate_feedback list" where
  "record_candidate_feedback now new_id d cid action reason rows =
     (if length reason < 3 \<or> 2000 < length reason then (Inl (Http_Error 422 ''reason''), rows)
      else (case active_person d cid of
          None \<Rightarrow> (Inl (Http_Error 404 ''Candidate not found''), rows)
        | Some p \<Rightarrow>
            (let row = \<lparr>cf_id = new_id, cf_person_id = p_id p, cf_action = feedback_text action,
                cf_reason = strip reason, cf_actor = ''vc-ui:unattributed'', cf_created_at = now\<rparr>
             in (Inr row, rows @ [row]))))"

section \<open>Lemmas\<close>

lemma newest_such_Some: "newest_such P xs = Some x \<Longrightarrow> P x \<and> x \<in> set xs"
  unfolding newest_such_def by (metis find_Some_iff nth_mem set_rev)

lemma newest_such_append: "newest_such P (xs @ [x]) = (if P x then Some x else newest_such P xs)"
  by (simp add: newest_such_def)

lemma finalize_sla_same [simp]:
  "o_id (fst (finalize_sla opp t c)) = o_id opp" "o_lifecycle_state (fst (finalize_sla opp t c)) = o_lifecycle_state opp"
  by (simp_all add: finalize_sla_def Let_def)

lemma commit_decision_simps:
  assumes "commit_decision now key req reason opp m w = (e, w')"
  shows "e_opportunity_id e = o_id opp" "e_prior_state e = o_lifecycle_state opp"
    "e_new_state e = decision_state_for_action (dr_action req)" "e_idempotency_key e = Some key" "e_reason e = Some reason"
    "event_action e = Some (PStr (action_text (dr_action req)))"
    "\<exists>opp'. o_id opp' = o_id opp \<and> o_lifecycle_state opp' = decision_state_for_action (dr_action req)
       \<and> w_db (mw_world w') = add_event (save_opportunity (w_db (mw_world w)) opp') e"
proof -
  obtain o1 sla where f: "finalize_sla opp (Some (Aware now 0)) now = (o1, sla)"
    by (cases "finalize_sla opp (Some (Aware now 0)) now")
  then have o1: "o_id o1 = o_id opp" using finalize_sla_same(1) [of opp "Some (Aware now 0)" now] by simp
  note c = assms [unfolded commit_decision_def Let_def f prod.case prod.inject]
  from c have e: "e = decision_event_for now key req reason opp (decision_metadata now req m sla
      (newest_such (\<lambda>p. dp_opportunity_id p = o_id opp) (mw_proposals w)))" by simp
  then show "e_opportunity_id e = o_id opp" "e_prior_state e = o_lifecycle_state opp"
    "e_new_state e = decision_state_for_action (dr_action req)" "e_idempotency_key e = Some key" "e_reason e = Some reason"
    "event_action e = Some (PStr (action_text (dr_action req)))"
    by (simp_all add: decision_event_for_def event_action_def decision_metadata_def dget_def)
  from c e o1 show "\<exists>opp'. o_id opp' = o_id opp \<and> o_lifecycle_state opp' = decision_state_for_action (dr_action req)
       \<and> w_db (mw_world w') = add_event (save_opportunity (w_db (mw_world w)) opp') e"
    by (intro exI [of _ "o1\<lparr>o_lifecycle_state := decision_state_for_action (dr_action req), o_updated_at := Some now\<rparr>"]) auto
qed

lemma action_text_inject [simp]: "action_text a = action_text b \<longleftrightarrow> a = b"
  by (cases a; cases b) simp_all

text \<open>The branches of an accepted decision.\<close>

lemma decision_accepted:
  assumes "record_candidate_decision now cid req k w = (Inr a, w')"
  obtains (replayed) p opp e where "active_person (w_db (mw_world w)) cid = Some p"
      "linked_opportunity (w_db (mw_world w)) (p_id p) (dr_opportunity_id req) = Some opp"
      "event_for_key (w_db (mw_world w)) (strip k) = Some e" "e_opportunity_id e = o_id opp"
      "event_action e = Some (PStr (action_text (dr_action req)))" "e_reason e = Some (strip (dr_reason req))"
      "a = decision_answer_of req (strip (dr_reason req)) e" "w' = w"
  | (decided) p opp m e where "active_person (w_db (mw_world w)) cid = Some p"
      "linked_opportunity (w_db (mw_world w)) (p_id p) (dr_opportunity_id req) = Some opp"
      "event_for_key (w_db (mw_world w)) (strip k) = None"
      "is_valid_transition (o_lifecycle_state opp) (decision_state_for_action (dr_action req))"
      "o_lifecycle_state opp \<noteq> decision_state_for_action (dr_action req)"
      "succeeded_memo (w_db (mw_world w)) (o_id opp) = Some m"
      "commit_decision now (strip k) req (strip (dr_reason req)) opp m w = (e, w')"
      "a = decision_answer_of req (strip (dr_reason req)) e"
proof -
  let ?d = "w_db (mw_world w)" and ?r = "strip (dr_reason req)"
  note run = assms [unfolded record_candidate_decision_def Let_def]
  from run obtain p where p: "active_person ?d cid = Some p" by (auto split: if_splits option.splits)
  with run obtain opp where opp: "linked_opportunity ?d (p_id p) (dr_opportunity_id req) = Some opp"
    by (auto split: if_splits option.splits)
  note run2 = run [unfolded p opp option.case]
  show ?thesis
  proof (cases "event_for_key ?d (strip k)")
    case (Some e)
    with run2 have "e_opportunity_id e = o_id opp" "event_action e = Some (PStr (action_text (dr_action req)))"
      "e_reason e = Some ?r" "a = decision_answer_of req ?r e" "w' = w" by (auto split: if_splits)
    then show ?thesis by (rule replayed [OF p opp Some])
  next
    case None
    note run3 = run2 [unfolded None option.case]
    from run3 have v: "is_valid_transition (o_lifecycle_state opp) (decision_state_for_action (dr_action req))"
      "o_lifecycle_state opp \<noteq> decision_state_for_action (dr_action req)" by (auto split: if_splits)
    from run3 obtain m where m: "succeeded_memo ?d (o_id opp) = Some m" by (auto split: if_splits option.splits)
    obtain e w1 where c: "commit_decision now (strip k) req ?r opp m w = (e, w1)"
      by (cases "commit_decision now (strip k) req ?r opp m w")
    from run3 v m c have "a = decision_answer_of req ?r e" "w' = w1" by (auto split: if_splits)
    with c show ?thesis by (intro decided [OF p opp None v m]) simp_all
  qed
qed

lemma decision_well_formed:
  assumes "record_candidate_decision now cid req k w = (Inr a, w')"
  shows "decision_body_ok req \<and> strip k \<noteq> [] \<and> \<not> 128 < length (strip k) \<and> \<not> length (strip (dr_reason req)) < 3"
  using assms by (auto simp: record_candidate_decision_def Let_def split: if_splits option.splits)

lemma event_for_key_add: "event_for_key d key = None \<Longrightarrow> e_idempotency_key e = Some key \<Longrightarrow>
   event_for_key (add_event (save_opportunity d x) e) key = Some e"
  by (simp add: event_for_key_def add_event_def find_append)

lemma linked_after:
  assumes "linked_opportunity d pid oid = Some opp" and "o_id opp' = o_id opp"
  shows "linked_opportunity (add_event (save_opportunity d opp') e) pid oid = Some opp'"
  using assms get_row_put_row [of o_id "opportunities d" opp' oid]
  by (auto simp: linked_opportunity_def add_event_def save_opportunity_def split: if_splits dest: get_row_key)

lemma decision_replays:
  assumes "decision_body_ok req" "strip k \<noteq> []" "\<not> 128 < length (strip k)" "\<not> length (strip (dr_reason req)) < 3"
    "active_person (w_db (mw_world w)) cid = Some p"
    "linked_opportunity (w_db (mw_world w)) (p_id p) (dr_opportunity_id req) = Some opp"
    "event_for_key (w_db (mw_world w)) (strip k) = Some e" "e_opportunity_id e = o_id opp"
  shows "record_candidate_decision now cid req k w =
     (if event_action e = Some (PStr (action_text (dr_action req))) \<and> e_reason e = Some (strip (dr_reason req))
      then Inr (decision_answer_of req (strip (dr_reason req)) e)
      else Inl (Http_Error 409 ''Idempotency-Key was already used for another decision''), w)"
  using assms by (simp add: record_candidate_decision_def Let_def)

section \<open>Properties\<close>

text \<open>
  C5. A decision is recorded once. An accepted request either repeats an earlier one, and changes nothing, or
  appends one event that starts at the deal's stage and goes to the stage of its action, a legal move, with a
  succeeded memo of the deal on file; the deal is then at that stage, and the audit log stays consistent.
  Either way the same request, sent again at any time, gets the same answer and changes nothing, and the key
  with another action is refused.
\<close>

theorem decision_recorded_once:
  assumes run: "record_candidate_decision now cid req k w = (Inr a, w')" and audit: "audit_ok (w_db (mw_world w))"
  shows "audit_ok (w_db (mw_world w'))
    \<and> (w' = w \<and> da_event a \<in> set (decision_events (w_db (mw_world w)))
       \<or> (\<exists>opp \<in> set (opportunities (w_db (mw_world w))). o_id opp = dr_opportunity_id req
            \<and> decision_events (w_db (mw_world w')) = decision_events (w_db (mw_world w)) @ [da_event a]
            \<and> e_prior_state (da_event a) = o_lifecycle_state opp
            \<and> e_new_state (da_event a) = decision_state_for_action (dr_action req)
            \<and> is_valid_transition (e_prior_state (da_event a)) (e_new_state (da_event a))
            \<and> map_option o_lifecycle_state (get_row o_id (opportunities (w_db (mw_world w'))) (o_id opp))
                = Some (e_new_state (da_event a))
            \<and> (\<exists>m \<in> set (memos (w_db (mw_world w))). memo_opportunity_id m = o_id opp \<and> memo_status m = ''succeeded'')))
    \<and> record_candidate_decision later cid req k w' = (Inr a, w')
    \<and> (dr_action other \<noteq> dr_action req \<and> dr_opportunity_id other = dr_opportunity_id req \<longrightarrow>
        (\<exists>e. record_candidate_decision later cid other k w' = (Inl e, w')))"
  using run
proof (cases rule: decision_accepted)
  case (replayed p opp e)
  note wf = decision_well_formed [OF run]
  have keep: "record_candidate_decision later cid req k w' = (Inr a, w')"
    using decision_replays [of req k w cid p opp e later] wf replayed by simp
  have other: "\<exists>e. record_candidate_decision later cid other k w' = (Inl e, w')"
    if "dr_action other \<noteq> dr_action req" "dr_opportunity_id other = dr_opportunity_id req"
    using that replayed by (auto simp: record_candidate_decision_def Let_def)
  have "da_event a \<in> set (decision_events (w_db (mw_world w)))"
    using replayed(3,7) by (auto simp: event_for_key_def decision_answer_of_def find_Some_iff)
  with keep other audit replayed(8) show ?thesis by blast
next
  case (decided p opp m e)
  note wf = decision_well_formed [OF run]
  let ?d = "w_db (mw_world w)" and ?d' = "w_db (mw_world w')"
  note c = commit_decision_simps [OF decided(7)]
  from c(7) obtain opp' where o': "o_id opp' = o_id opp" "o_lifecycle_state opp' = decision_state_for_action (dr_action req)"
    "?d' = add_event (save_opportunity ?d opp') e" by blast
  have mem: "opp \<in> set (opportunities ?d)" "o_id opp = dr_opportunity_id req"
    using decided(2) by (auto simp: linked_opportunity_def split: if_splits dest: get_row_key)
  have a: "da_event a = e" using decided(8) by (simp add: decision_answer_of_def)
  have link: "linked_opportunity ?d' (p_id p) (dr_opportunity_id req) = Some opp'"
    unfolding o'(3) using decided(2) o'(1) by (rule linked_after)
  have act: "active_person ?d' cid = Some p"
    using decided(1) o'(3) by (simp add: active_person_def add_event_def save_opportunity_def)
  have ev: "event_for_key ?d' (strip k) = Some e" unfolding o'(3) using decided(3) c(4) by (rule event_for_key_add)
  have keep: "record_candidate_decision later cid req k w' = (Inr a, w')"
    using decision_replays [of req k w' cid p opp' e later] wf act link ev c o'(1) decided(8) by simp
  have other: "\<exists>e. record_candidate_decision later cid other k w' = (Inl e, w')"
    if "dr_action other \<noteq> dr_action req" "dr_opportunity_id other = dr_opportunity_id req"
    using that act link ev c(6) by (auto simp: record_candidate_decision_def Let_def)
  have aud: "audit_ok ?d'" unfolding o'(3)
    by (rule audit_ok_step [OF audit mem(1) o'(1) c(1,2)]) (use decided(4) c(3) o'(2) in simp_all)
  have state: "map_option o_lifecycle_state (get_row o_id (opportunities ?d') (o_id opp)) = Some (e_new_state e)"
    using link c(3) o' mem(2) by (auto simp: linked_opportunity_def split: if_splits)
  have memo: "\<exists>m \<in> set (memos ?d). memo_opportunity_id m = o_id opp \<and> memo_status m = ''succeeded''"
    using newest_such_Some [OF decided(6) [unfolded succeeded_memo_def]] by blast
  have evs: "decision_events ?d' = decision_events ?d @ [e]" using o'(3) by (simp add: add_event_def)
  show ?thesis
    using aud keep other a mem evs c(2,3) decided(4) state memo by auto
qed

fun memo_runs :: "string \<Rightarrow> string \<Rightarrow> (job_env \<times> string option) list \<Rightarrow> memo_world \<Rightarrow> memo_world" where
  "memo_runs person_id oid [] w = w"
| "memo_runs person_id oid ((env, job_id) # rest) w =
     memo_runs person_id oid rest (snd (generate_memo_job env person_id oid job_id w))"

definition unsuccessful :: "memo_world \<Rightarrow> memo_world \<Rightarrow> bool" where
  "unsuccessful w w' = (persons (w_db (mw_world w')) = persons (w_db (mw_world w))
     \<and> decision_events (w_db (mw_world w')) = decision_events (w_db (mw_world w))
     \<and> (\<forall>m \<in> set (memos (w_db (mw_world w'))). m \<in> set (memos (w_db (mw_world w))) \<or> memo_status m \<noteq> ''succeeded''))"

lemma unsuccessful_trans: "unsuccessful a b \<Longrightarrow> unsuccessful b c \<Longrightarrow> unsuccessful a c"
  by (auto simp: unsuccessful_def)

lemma pin_thesis_rows [simp]:
  "persons (w_db (mw_world (pin_thesis opp t w))) = persons (w_db (mw_world w))"
  "decision_events (w_db (mw_world (pin_thesis opp t w))) = decision_events (w_db (mw_world w))"
  by (simp_all add: pin_thesis_def Let_def)

lemma run_memo_unsuccessful:
  assumes "\<not> ai_allowed (external_ai_use_decision (mi_person mi) ''memo'')"
  shows "unsuccessful w (snd (run_memo env mi person_id job_id attempt w))"
proof -
  have g: "generate_memo (en_codec env) (memo_client env (mi_person mi)) q = Inr (fallback_memo (mq_person_name q) ''degraded'')" for q
    using assms by (simp add: memo_client_def generate_memo_def)
  have "md_status (fallback_memo n ''degraded'') = ''degraded''" for n by (simp add: fallback_memo_def)
  then show ?thesis
    by (simp add: run_memo_def g finish_memo_def replaced_rows unsuccessful_def Let_def)
qed

lemma memo_for_unsuccessful:
  assumes "\<not> ai_allowed (external_ai_use_decision p ''memo'')"
  shows "unsuccessful w (snd (memo_for env p opp person_id job_id attempt w))"
proof -
  have err: "unsuccessful w (snd (memo_error env person_id job_id attempt e w))" for e
    by (simp add: memo_error_def unsuccessful_def Let_def)
  have run: "unsuccessful w (snd (run_memo env mi person_id job_id attempt (pin_thesis opp t w)))" if "mi_person mi = p" for mi t
    using run_memo_unsuccessful [of mi "pin_thesis opp t w" env person_id job_id attempt] that assms
    by (simp add: unsuccessful_def)
  show ?thesis
    by (auto simp: memo_for_def Let_def err intro!: run split: prod.split option.split)
qed

lemma memo_job_unsuccessful:
  assumes "parse_uuid person_id = Some pid" and "get_row p_id (persons (w_db (mw_world w))) pid = Some p"
    and "\<not> ai_allowed (external_ai_use_decision p ''memo'')"
  shows "unsuccessful w (snd (generate_memo_job env person_id oid job_id w))"
proof -
  obtain start v where b: "begin_job (en_clock env) job_id ''memo'' (mw_world w) = (start, v)" by force
  let ?w = "w\<lparr>mw_world := v\<rparr>"
  have v: "w_db v = w_db (mw_world w)"
    using begin_job_db [of "en_clock env" job_id "''memo''" "mw_world w"] b by simp
  have err: "unsuccessful w (snd (memo_error env person_id job_id attempt e ?w))" for attempt e
    by (simp add: memo_error_def unsuccessful_def v Let_def)
  have run: "unsuccessful w (snd (memo_for env p opp person_id job_id attempt ?w))" for opp attempt
    using memo_for_unsuccessful [OF assms(3), of ?w env opp person_id job_id attempt] by (simp add: unsuccessful_def v)
  have stop: "unsuccessful w ?w" by (simp add: unsuccessful_def v)
  show ?thesis
    using assms(1,2) by (auto simp: generate_memo_job_def b Let_def v stop err run split: sum.split option.split)
qed

text \<open>
  C20. Without consent there is no decision: for a person whose purpose gate denies memos, no number of memo jobs,
  whatever their model, gives the deal a succeeded memo, so that a decision with a new key is refused and changes nothing.
\<close>

theorem no_decision_without_memo_consent:
  assumes "parse_uuid person_id = Some pid" and "get_row p_id (persons (w_db (mw_world w))) pid = Some p"
    and "\<not> ai_allowed (external_ai_use_decision p ''memo'')"
    and "succeeded_memo (w_db (mw_world w)) (dr_opportunity_id req) = None"
    and "event_for_key (w_db (mw_world w)) (strip k) = None"
  shows "\<exists>e. record_candidate_decision now cid req k (memo_runs person_id oid runs w) = (Inl e, memo_runs person_id oid runs w)"
proof -
  have "unsuccessful w (memo_runs person_id oid runs w)"
    using assms(2)
  proof (induction runs arbitrary: w)
    case Nil
    then show ?case by (simp add: unsuccessful_def)
  next
    case (Cons r rest)
    obtain env job_id where r: "r = (env, job_id)" by (cases r)
    let ?w1 = "snd (generate_memo_job env person_id oid job_id w)"
    have u: "unsuccessful w ?w1" by (rule memo_job_unsuccessful [OF assms(1) Cons.prems assms(3)])
    then have "unsuccessful ?w1 (memo_runs person_id oid rest ?w1)"
      by (intro Cons.IH) (simp add: unsuccessful_def Cons.prems)
    with u r show ?case using unsuccessful_trans by simp
  qed
  note u = this [unfolded unsuccessful_def]
  let ?w = "memo_runs person_id oid runs w"
  obtain r w' where run: "record_candidate_decision now cid req k ?w = (r, w')"
    by (cases "record_candidate_decision now cid req k ?w")
  have "w' = ?w \<and> (\<exists>e. r = Inl e)"
  proof (cases r)
    case (Inl e)
    with run show ?thesis
      by (auto simp: record_candidate_decision_def Let_def split: if_splits option.splits prod.splits)
  next
    case (Inr a)
    from run [unfolded Inr] show ?thesis
    proof (cases rule: decision_accepted)
      case (replayed p opp e)
      with assms(5) u show ?thesis by (simp add: event_for_key_def)
    next
      case (decided p opp m e)
      from newest_such_Some [OF decided(6) [unfolded succeeded_memo_def]]
      have m: "memo_opportunity_id m = o_id opp" "memo_status m = ''succeeded''" "m \<in> set (memos (w_db (mw_world ?w)))" by auto
      have "o_id opp = dr_opportunity_id req"
        using decided(2) by (auto simp: linked_opportunity_def split: if_splits dest: get_row_key)
      moreover have "m \<in> set (memos (w_db (mw_world w)))" using u m by blast
      ultimately have False
        using assms(4) m by (auto simp: succeeded_memo_def newest_such_def find_None_iff)
      then show ?thesis ..
    qed
  qed
  with run show ?thesis by auto
qed

text \<open>
  A deal resumed in line with its proposal is recorded as an override: putting a deal on hold overwrites the
  action the proposal was made with, so the later decision to proceed differs from the hold, not from the
  proposal, and the proposal to invest ends as overridden by the decision to invest.
\<close>

theorem resumed_hold_is_override:
  assumes hold: "record_candidate_decision t1 cid \<lparr>dr_opportunity_id = i, dr_action = Put_On_Hold, dr_reason = r1\<rparr> k1 w = (Inr a1, w1)"
    and go: "record_candidate_decision t2 cid \<lparr>dr_opportunity_id = i, dr_action = Proceed, dr_reason = r2\<rparr> k2 w1 = (Inr a2, w2)"
    and fresh: "event_for_key (w_db (mw_world w)) (strip k1) = None" "event_for_key (w_db (mw_world w1)) (strip k2) = None"
    and one: "mw_proposals w = [p]" "dp_opportunity_id p = i" and invest: "pv_action (dp_values p) = ''invest''"
  shows "\<exists>p'. mw_proposals w2 = [p'] \<and> dp_id p' = dp_id p \<and> pv_action (dp_values p') = ''invest''
    \<and> pv_status (dp_values p') = ''overridden'' \<and> pv_override_reason (dp_values p') = Some (strip r2)"
proof -
  have step: "mw_proposals v' = [decide_proposal req (strip (dr_reason req)) q]"
    if "record_candidate_decision t cid req k v = (Inr a, v')" "event_for_key (w_db (mw_world v)) (strip k) = None"
      "mw_proposals v = [q]" "dp_opportunity_id q = dr_opportunity_id req" for t req k v a v' q
    using that(1)
  proof (cases rule: decision_accepted)
    case (replayed p opp e)
    with that(2) show ?thesis by simp
  next
    case (decided p opp m e)
    have "o_id opp = dr_opportunity_id req"
      using decided(2) by (auto simp: linked_opportunity_def split: if_splits dest: get_row_key)
    with decided(7) that(3,4) show ?thesis
      by (auto simp: commit_decision_def newest_such_def put_row_def decide_proposal_def Let_def split: prod.splits)
  qed
  let ?h = "\<lparr>dr_opportunity_id = i, dr_action = Put_On_Hold, dr_reason = r1\<rparr>"
  let ?g = "\<lparr>dr_opportunity_id = i, dr_action = Proceed, dr_reason = r2\<rparr>"
  have a: "mw_proposals w1 = [decide_proposal ?h (strip r1) p]"
    using step [OF hold fresh(1) one(1)] one(2) by simp
  have b: "dp_opportunity_id (decide_proposal ?h (strip r1) p) = i"
    using one(2) by (simp add: decide_proposal_def Let_def)
  have "mw_proposals w2 = [decide_proposal ?g (strip r2) (decide_proposal ?h (strip r1) p)]"
    using step [OF go fresh(2) a] b by simp
  moreover have "strip r2 \<noteq> []" using decision_well_formed [OF go] by auto
  ultimately show ?thesis using invest by (simp add: decide_proposal_def str_truthy_def Let_def)
qed

section \<open>Witnesses\<close>

definition decided_memo :: investment_memo where
  "decided_memo = \<lparr>memo_id = ''m1'', memo_opportunity_id = ''o1'', memo_thesis_version = ''t1'', memo_status = ''succeeded'',
     memo_claim_ids = [], memo_assessment_ids = [], memo_sections = [], memo_evidence_ids = [], memo_model_version = ''m'',
     memo_artifact_metadata = []\<rparr>"

definition invest_proposal :: decision_proposal where
  "invest_proposal = \<lparr>dp_id = ''dp1'', dp_opportunity_id = ''o1'', dp_memo_id = ''m1'',
     dp_values = \<lparr>pv_action = ''invest'', pv_check_amount = None, pv_ownership_target = None, pv_conviction = None,
       pv_assessment_ids = [], pv_top_evidence = [], pv_top_risks = [], pv_open_conditions = [], pv_readiness_blockers = [],
       pv_readiness_status = ''ready'', pv_thesis_version = None, pv_rubric_versions = [], pv_memo_model_version = None,
       pv_override_reason = None, pv_status = ''draft''\<rparr>, dp_artifact_metadata = []\<rparr>"

definition decision_db :: db where
  "decision_db = empty_db\<lparr>persons := [consenting_person], opportunities := [sample_opportunity\<lparr>o_lifecycle_state := ''memo_ready''\<rparr>],
     founders := [\<lparr>of_opportunity_id = ''o1'', of_person_id = ''p1'', of_role = ''founder''\<rparr>], memos := [decided_memo]\<rparr>"

definition decision_world0 :: memo_world where
  "decision_world0 = \<lparr>mw_world = \<lparr>w_db = decision_db, w_snapshots = [], w_jobs = [], w_telemetry = [], w_objects = []\<rparr>,
     mw_theses = [], mw_assessments = [], mw_proposals = [invest_proposal]\<rparr>"

definition hold_request :: decision_request where
  "hold_request = \<lparr>dr_opportunity_id = ''o1'', dr_action = Put_On_Hold, dr_reason = ''wait''\<rparr>"

definition proceed_request :: decision_request where
  "proceed_request = \<lparr>dr_opportunity_id = ''o1'', dr_action = Proceed, dr_reason = ''good''\<rparr>"

lemma strip_samples: "strip ''k1'' = ''k1''" "strip ''k2'' = ''k2''" "strip ''wait'' = ''wait''" "strip ''good'' = ''good''"
  by code_simp+

lemmas decision_sample = decision_world0_def decision_db_def empty_db_def consenting_person_def sample_opportunity_def
  decided_memo_def hold_request_def proceed_request_def strip_samples

lemma held:
  "\<exists>a w1. record_candidate_decision 5 ''p1'' hold_request ''k1'' decision_world0 = (Inr a, w1)
     \<and> event_for_key (w_db (mw_world decision_world0)) ''k1'' = None \<and> event_for_key (w_db (mw_world w1)) ''k2'' = None
     \<and> persons (w_db (mw_world w1)) = [consenting_person] \<and> founders (w_db (mw_world w1)) = founders decision_db
     \<and> map (\<lambda>x. (o_id x, o_lifecycle_state x)) (opportunities (w_db (mw_world w1))) = [(''o1'', ''hold'')]
     \<and> memos (w_db (mw_world w1)) = [decided_memo]"
  by (simp add: decision_sample record_candidate_decision_def decision_body_ok_def active_person_def get_row_def
      linked_opportunity_def event_for_key_def is_valid_transition_def transitions_simp succeeded_memo_def newest_such_def
      commit_decision_def finalize_sla_def Let_def add_event_def save_opportunity_def put_row_def decision_event_for_def)

theorem decision_recorded_once_witness:
  "\<exists>a w1. record_candidate_decision 5 ''p1'' hold_request ''k1'' decision_world0 = (Inr a, w1)
     \<and> record_candidate_decision 9 ''p1'' hold_request ''k1'' w1 = (Inr a, w1) \<and> audit_ok (w_db (mw_world w1))"
proof -
  obtain a w1 where r: "record_candidate_decision 5 ''p1'' hold_request ''k1'' decision_world0 = (Inr a, w1)"
    using held by blast
  have "audit_ok (w_db (mw_world decision_world0))"
    by (simp add: audit_ok_def decision_sample log_of_def stages_simp)
  from decision_recorded_once [OF r this, of 9 hold_request] r show ?thesis by blast
qed

theorem resumed_hold_is_override_witness:
  "\<exists>(w2 :: memo_world) p. mw_proposals w2 = [p] \<and> pv_action (dp_values p) = ''invest'' \<and> pv_status (dp_values p) = ''overridden''"
proof -
  obtain a w1 where h: "record_candidate_decision 5 ''p1'' hold_request ''k1'' decision_world0 = (Inr a, w1)"
    "event_for_key (w_db (mw_world decision_world0)) ''k1'' = None" "event_for_key (w_db (mw_world w1)) ''k2'' = None"
    "persons (w_db (mw_world w1)) = [consenting_person]" "founders (w_db (mw_world w1)) = founders decision_db"
    "map (\<lambda>x. (o_id x, o_lifecycle_state x)) (opportunities (w_db (mw_world w1))) = [(''o1'', ''hold'')]"
    "memos (w_db (mw_world w1)) = [decided_memo]"
    using held by (elim exE conjE) (rule that)
  from h(6) obtain opp where opp: "opportunities (w_db (mw_world w1)) = [opp]" "o_id opp = ''o1''" "o_lifecycle_state opp = ''hold''"
    by (auto simp: map_eq_Cons_conv)
  have "\<exists>b w2. record_candidate_decision 9 ''p1'' proceed_request ''k2'' w1 = (Inr b, w2)"
    using h(3,4,5,7) opp
    by (simp add: record_candidate_decision_def decision_body_ok_def active_person_def get_row_def linked_opportunity_def
        decision_sample is_valid_transition_def transitions_simp succeeded_memo_def newest_such_def Let_def split: prod.split)
  then obtain b w2 where g: "record_candidate_decision 9 ''p1'' proceed_request ''k2'' w1 = (Inr b, w2)" by blast
  have k: "event_for_key (w_db (mw_world decision_world0)) (strip ''k1'') = None" "event_for_key (w_db (mw_world w1)) (strip ''k2'') = None"
    using h(2,3) by (simp_all add: strip_samples)
  have p: "mw_proposals decision_world0 = [invest_proposal]" "dp_opportunity_id invest_proposal = ''o1''"
    "pv_action (dp_values invest_proposal) = ''invest''" by (simp_all add: decision_world0_def invest_proposal_def)
  show ?thesis
    using resumed_hold_is_override [OF h(1) [unfolded hold_request_def] g [unfolded proceed_request_def] k p] by blast
qed

theorem no_decision_without_memo_consent_witness:
  "\<exists>e. record_candidate_decision 9 ''p1'' proceed_request ''k2''
     (memo_runs ''00000000-0000-0000-0000-000000000001'' ''o1'' [(scoring_env0, None)] silent_world)
   = (Inl e, memo_runs ''00000000-0000-0000-0000-000000000001'' ''o1'' [(scoring_env0, None)] silent_world)"
proof -
  let ?p = "consenting_person\<lparr>p_id := ''00000000-0000-0000-0000-000000000001'', p_purposes := PDict []\<rparr>"
  have id: "parse_uuid ''00000000-0000-0000-0000-000000000001'' = Some ''00000000-0000-0000-0000-000000000001''"
    by code_simp
  have row: "get_row p_id (persons (w_db (mw_world silent_world))) ''00000000-0000-0000-0000-000000000001'' = Some ?p"
    by (simp add: silent_world_def get_row_def)
  have no: "\<not> ai_allowed (external_ai_use_decision ?p ''memo'')"
    by (simp add: consenting_person_def external_ai_use_decision_def consent_of_def blocking_consent_states_def)
  have "succeeded_memo (w_db (mw_world silent_world)) (dr_opportunity_id proceed_request) = None"
    "event_for_key (w_db (mw_world silent_world)) (strip ''k2'') = None"
    by (simp_all add: silent_world_def memo_world0_def scoring_world_def empty_db_def succeeded_memo_def newest_such_def event_for_key_def)
  then show ?thesis by (rule no_decision_without_memo_consent [OF id row no])
qed

end
