(* ===== verification/Outreach_Route.thy ===== *)
theory Outreach_Route
  imports Route_Contract Outreach_Drafting
begin

text \<open>
  Review and sending of outreach, the two handlers of \<^verbatim>\<open>app/api/routes/candidates.py\<close>, and the life of a
  message from the contact job over the review to the provider's events. The message row stands for the
  fields the handlers answer with.
\<close>

section \<open>The handlers\<close>

definition message_of :: "outreach_message list \<Rightarrow> uuid \<Rightarrow> uuid \<Rightarrow> outreach_message option" where
  "message_of ms cid i = (case get_row om_id ms i of
     Some m \<Rightarrow> if om_person_id m = cid then Some m else None | None \<Rightarrow> None)"

definition save_message :: "outreach_world \<Rightarrow> outreach_message \<Rightarrow> outreach_world" where
  "save_message w m = w\<lparr>ow_messages := put_row om_id (ow_messages w) m\<rparr>"

definition approve_outreach :: "instant \<Rightarrow> uuid \<Rightarrow> uuid \<Rightarrow> string \<Rightarrow> outreach_world
    \<Rightarrow> (http_failure + outreach_message) \<times> outreach_world" where
  "approve_outreach now cid i approved_by w =
     (if approved_by = [] \<or> 128 < length approved_by then (Inl (Http_Error 422 ''approved_by''), w)
      else (case message_of (ow_messages w) cid i of
          None \<Rightarrow> (Inl (Http_Error 404 ''Outreach draft not found''), w)
        | Some m \<Rightarrow>
            if om_status m \<noteq> ''drafted'' then (Inl (Http_Error 409 (''Outreach is already '' @ om_status m)), w)
            else (case get_row p_id (persons (w_db (ow_world w))) cid of
                None \<Rightarrow> (Inl (Http_Error 404 ''Candidate not found''), w)
              | Some p \<Rightarrow>
                  (case contact_block_reason p of
                     Some reason \<Rightarrow> (Inl (Http_Error 409 reason),
                       save_message w (m\<lparr>om_status := blocked_status reason, om_failure_reason := Some reason\<rparr>))
                   | None \<Rightarrow>
                       (let m' = m\<lparr>om_status := ''approved'', om_approved_by := Some (strip approved_by), om_approved_at := Some now\<rparr>
                        in (Inr m', save_message w m'))))))"

definition request_outreach_send :: "instant \<Rightarrow> uuid \<Rightarrow> uuid \<Rightarrow> outreach_world
    \<Rightarrow> (http_failure + outreach_message) \<times> outreach_world" where
  "request_outreach_send now cid i w =
     (case message_of (ow_messages w) cid i of
        None \<Rightarrow> (Inl (Http_Error 404 ''Outreach draft not found''), w)
      | Some m \<Rightarrow>
          if om_status m \<noteq> ''approved'' then (Inl (Http_Error 409 ''Outreach must be approved before sending''), w)
          else (let m' = m\<lparr>om_status := ''send_requested'', om_requested_at := Some now\<rparr> in (Inr m', save_message w m')))"

section \<open>The life of a message\<close>

text \<open>Anything may happen to the rows of the people in between; a provider event changes a stored message.\<close>

inductive outreach_step :: "outreach_world \<Rightarrow> outreach_world \<Rightarrow> bool" where
  drafting: "contact_outbound_job env person_id w = (res, w') \<Longrightarrow> outreach_step w w'"
| approving: "approve_outreach now cid i by w = (res, w') \<Longrightarrow> outreach_step w w'"
| requesting: "request_outreach_send now cid i w = (res, w') \<Longrightarrow> outreach_step w w'"
| provider: "m \<in> set (ow_messages w) \<Longrightarrow> transition_provider_state now m new_status pid why = Inr m' \<Longrightarrow>
    outreach_step w (save_message w m')"
| people: "outreach_step w (w\<lparr>ow_world := (ow_world w)\<lparr>w_db := (w_db (ow_world w))\<lparr>persons := ps\<rparr>\<rparr>\<rparr>)"

inductive_cases outreach_stepE: "outreach_step w w'"

definition message_ok :: "outreach_message \<Rightarrow> bool" where
  "message_ok m =
     ((om_status m = ''drafted'' \<longrightarrow> om_subject m \<noteq> [] \<and> om_body m \<noteq> [])
      \<and> (om_status m \<in> {''approved'', ''send_requested'', ''sent'', ''delivered'', ''bounced'', ''replied''} \<longrightarrow>
           om_subject m \<noteq> [] \<and> om_body m \<noteq> [] \<and> om_approved_at m \<noteq> None \<and> om_approved_by m \<noteq> None)
      \<and> (om_status m \<in> {''send_requested'', ''sent'', ''delivered'', ''bounced'', ''replied''} \<longrightarrow> om_requested_at m \<noteq> None)
      \<and> (om_status m \<in> {''sent'', ''delivered'', ''bounced'', ''replied''} \<longrightarrow> om_sent_at m \<noteq> None)
      \<and> (om_sent_at m \<noteq> None \<longrightarrow> om_approved_at m \<noteq> None \<and> om_approved_by m \<noteq> None \<and> om_requested_at m \<noteq> None))"

definition messages_ok :: "outreach_world \<Rightarrow> bool" where
  "messages_ok w = list_all message_ok (ow_messages w)"

lemma message_of_mem: "message_of ms cid i = Some m \<Longrightarrow> m \<in> set ms \<and> om_id m = i \<and> om_person_id m = cid"
  by (auto simp: message_of_def split: option.splits if_splits dest: get_row_key)

lemma save_message_ok: "messages_ok w \<Longrightarrow> message_ok m \<Longrightarrow> messages_ok (save_message w m)"
  by (auto simp: messages_ok_def save_message_def list_all_iff dest!: subsetD [OF set_put_row])

lemma draft_full: "dr_subject (draft_outreach_email cx client q) \<noteq> [] \<and> dr_body (draft_outreach_email cx client q) \<noteq> []"
  using template_draft_ok [of "dq_founder_name q" "dq_company q" "dq_email_type q" "dq_brief q"] agent_draft_ok
  by (auto simp: draft_outreach_email_def Let_def split: option.split)

lemma drafting_ok:
  assumes "messages_ok w" and "contact_outbound_job env person_id w = (res, w')"
  shows "messages_ok w'"
proof (cases "ow_messages w' = ow_messages w")
  case True
  with assms(1) show ?thesis by (simp add: messages_ok_def)
next
  case False
  with assms(2) obtain p opp res' where c: "contact_person env person_id p opp w = (res', w')"
    by (auto simp: contact_outbound_job_def split: option.splits prod.splits)
  then show ?thesis
  proof (cases rule: contact_person_cases)
    case (existing m)
    with assms(1) show ?thesis by simp
  next
    case (blocked reason m)
    with assms(1) blocked_status_cases [of reason] show ?thesis
      by (auto simp: messages_ok_def message_ok_def new_message_def)
  next
    case (drafted dr m)
    have full: "dr_subject dr \<noteq> [] \<and> dr_body dr \<noteq> []"
      unfolding drafted(3) by (rule draft_full)
    from drafted(4) have m: "ow_messages w' = ow_messages w @ [m]" "om_subject m = dr_subject dr" "om_body m = dr_body dr"
      "om_status m = ''drafted''" "om_sent_at m = None"
      by (auto simp: store_draft_def new_message_def Let_def split: prod.splits)
    with assms(1) full show ?thesis by (simp add: messages_ok_def message_ok_def)
  qed
qed

lemma guarded_Inr: "(if \<not> b then Inl e else Inr x) = Inr y \<Longrightarrow> x = y \<and> b"
  by (simp split: if_splits)

lemma provider_ok:
  assumes "message_ok m" and "transition_provider_state now m new_status pid why = Inr m'"
  shows "message_ok m'"
proof -
  note e = guarded_Inr [OF assms(2) [unfolded transition_provider_state_def Let_def]]
  from e obtain x y where xy: "om_status m = delivery_key x" "new_status = delivery_key y" "delivers x y"
    unfolding delivery_table by (elim conjE exE)
  note m' = conjunct1 [OF e, symmetric]
  have f: "om_status m' = new_status" "om_subject m' = om_subject m" "om_body m' = om_body m"
    "om_approved_at m' = om_approved_at m" "om_approved_by m' = om_approved_by m" "om_requested_at m' = om_requested_at m"
    "om_sent_at m' = (if new_status = ''sent'' then Some now else om_sent_at m)"
    by (simp_all add: m')
  from xy(3) assms(1) show ?thesis
    unfolding message_ok_def f xy(1,2) by - (cases x; cases y; simp add: delivers_simps)
qed

lemma step_ok:
  assumes "outreach_step w w'" and ok: "messages_ok w"
  shows "messages_ok w'"
  using assms(1)
proof cases
  case (drafting env person_id res)
  then show ?thesis by (rule drafting_ok [OF ok])
next
  case (approving now cid i by_whom res)
  show ?thesis
  proof (cases "ow_messages w' = ow_messages w")
    case True
    with ok show ?thesis by (simp add: messages_ok_def)
  next
    case False
    with approving obtain m where m: "message_of (ow_messages w) cid i = Some m" "om_status m = ''drafted''"
      by (auto simp: approve_outreach_def split: if_splits option.splits)
    have mok: "message_ok m" using ok message_of_mem [OF m(1)] by (auto simp: messages_ok_def list_all_iff)
    from approving False m consider reason where
        "w' = save_message w (m\<lparr>om_status := blocked_status reason, om_failure_reason := Some reason\<rparr>)"
      | "w' = save_message w (m\<lparr>om_status := ''approved'', om_approved_by := Some (strip by_whom), om_approved_at := Some now\<rparr>)"
      by (auto simp: approve_outreach_def Let_def split: if_splits option.splits)
    then show ?thesis
    proof cases
      case (1 reason)
      then show ?thesis using ok mok m(2) blocked_status_cases [of reason]
        by (auto intro!: save_message_ok simp: message_ok_def)
    next
      case 2
      then show ?thesis using ok mok m(2) by (auto intro!: save_message_ok simp: message_ok_def)
    qed
  qed
next
  case (requesting now cid i res)
  show ?thesis
  proof (cases "ow_messages w' = ow_messages w")
    case True
    with ok show ?thesis by (simp add: messages_ok_def)
  next
    case False
    with requesting obtain m where m: "message_of (ow_messages w) cid i = Some m" "om_status m = ''approved''"
      "w' = save_message w (m\<lparr>om_status := ''send_requested'', om_requested_at := Some now\<rparr>)"
      by (auto simp: request_outreach_send_def Let_def split: if_splits option.splits)
    have "message_ok m" using ok message_of_mem [OF m(1)] by (auto simp: messages_ok_def list_all_iff)
    with ok m show ?thesis by (auto intro!: save_message_ok simp: message_ok_def)
  qed
next
  case (provider m now new_status pid why m')
  have "message_ok m" using ok provider(2) by (simp add: messages_ok_def list_all_iff)
  then have "message_ok m'" using provider(3) by (rule provider_ok)
  with ok show ?thesis unfolding provider(1) by (rule save_message_ok)
next
  case (people ps)
  with ok show ?thesis by (simp add: messages_ok_def)
qed

section \<open>Properties\<close>


text \<open>
  The review fails closed: a draft becomes approved only when its person has an address and has not opted
  out; a blocked one is closed with the reason, so that no later review or request can revive it.
\<close>

theorem approval_needs_contactable_person:
  assumes "approve_outreach now cid i by w = (res, w')"
  shows "(\<forall>m. res = Inr m \<longrightarrow> (\<exists>p. get_row p_id (persons (w_db (ow_world w))) cid = Some p \<and> contact_block_reason p = None)
        \<and> om_status m = ''approved'' \<and> om_approved_by m = Some (strip by) \<and> om_approved_at m = Some now
        \<and> message_of (ow_messages w') cid i = Some m)
    \<and> (\<forall>m p reason. message_of (ow_messages w) cid i = Some m \<and> om_status m = ''drafted''
        \<and> get_row p_id (persons (w_db (ow_world w))) cid = Some p \<and> contact_block_reason p = Some reason
        \<and> by \<noteq> [] \<and> length by \<le> 128 \<longrightarrow>
        res = Inl (Http_Error 409 reason)
        \<and> (\<forall>later by2. \<exists>e. approve_outreach later cid i by2 w' = (Inl e, w') \<and> (\<exists>e. request_outreach_send later cid i w' = (Inl e, w'))))"
proof (intro conjI allI impI)
  fix m assume r: "res = Inr m"
  with assms obtain m0 p where m0: "message_of (ow_messages w) cid i = Some m0"
    "get_row p_id (persons (w_db (ow_world w))) cid = Some p" "contact_block_reason p = None"
    "m = m0\<lparr>om_status := ''approved'', om_approved_by := Some (strip by), om_approved_at := Some now\<rparr>" "w' = save_message w m"
    by (auto simp: approve_outreach_def Let_def split: if_splits option.splits)
  then show "\<exists>p. get_row p_id (persons (w_db (ow_world w))) cid = Some p \<and> contact_block_reason p = None" by blast
  from m0 show "om_status m = ''approved''" "om_approved_by m = Some (strip by)" "om_approved_at m = Some now" by simp_all
  from m0 message_of_mem [OF m0(1)] show "message_of (ow_messages w') cid i = Some m"
    by (auto simp: message_of_def save_message_def get_row_put_row split: option.splits if_splits)
next
  fix m p reason
  assume h: "message_of (ow_messages w) cid i = Some m \<and> om_status m = ''drafted''
        \<and> get_row p_id (persons (w_db (ow_world w))) cid = Some p \<and> contact_block_reason p = Some reason
        \<and> by \<noteq> [] \<and> length by \<le> 128"
  let ?m = "m\<lparr>om_status := blocked_status reason, om_failure_reason := Some reason\<rparr>"
  from h assms have r: "res = Inl (Http_Error 409 reason)" "w' = save_message w ?m"
    by (auto simp: approve_outreach_def)
  then show "res = Inl (Http_Error 409 reason)" by simp
  have m': "message_of (ow_messages w') cid i = Some ?m"
    using r h message_of_mem [of "ow_messages w" cid i m]
    by (auto simp: message_of_def save_message_def get_row_put_row split: option.splits if_splits)
  fix later by2
  show "\<exists>e. approve_outreach later cid i by2 w' = (Inl e, w') \<and> (\<exists>e. request_outreach_send later cid i w' = (Inl e, w'))"
    using m' blocked_status_cases [of reason] by (auto simp: approve_outreach_def request_outreach_send_def)
qed

text \<open>
  Opting out after the review stops nothing: the send request does not look at the person, so a message
  approved earlier is requested although its person has since opted out.
\<close>

theorem send_ignores_later_opt_out:
  assumes "approve_outreach t1 cid i by w = (Inr m, w1)" and "contact_block_reason p = Some reason" and "p_id p = cid"
  shows "\<exists>m' w2. request_outreach_send t2 cid i (w1\<lparr>ow_world := (ow_world w1)\<lparr>w_db := (w_db (ow_world w1))\<lparr>persons := [p]\<rparr>\<rparr>\<rparr>)
      = (Inr m', w2) \<and> om_status m' = ''send_requested'' \<and> om_recipient_email m' = om_recipient_email m"
proof -
  from assms(1) obtain m0 where m0: "message_of (ow_messages w) cid i = Some m0"
    "m = m0\<lparr>om_status := ''approved'', om_approved_by := Some (strip by), om_approved_at := Some t1\<rparr>" "w1 = save_message w m"
    by (auto simp: approve_outreach_def Let_def split: if_splits option.splits)
  have "message_of (ow_messages w1) cid i = Some m" "om_status m = ''approved''"
    using m0 message_of_mem [OF m0(1)]
    by (auto simp: message_of_def save_message_def get_row_put_row split: option.splits if_splits)
  then show ?thesis by (simp add: request_outreach_send_def Let_def)
qed

section \<open>Witnesses\<close>

definition review_message :: outreach_message where
  "review_message = \<lparr>om_id = ''m1'', om_opportunity_id = ''o1'', om_person_id = ''p1'', om_recipient_email = Some ''a@b.io'',
     om_subject = ''Hi'', om_body = ''Text'', om_generation_mode = ''template'', om_status = ''drafted'', om_approved_by = None,
     om_approved_at = None, om_requested_at = None, om_sent_at = None, om_provider_message_id = None,
     om_failure_reason = None, om_created_at = 0\<rparr>"

definition review_world :: outreach_world where
  "review_world = \<lparr>ow_world = \<lparr>w_db = empty_db\<lparr>persons := [consenting_person]\<rparr>, w_snapshots = [], w_jobs = [],
     w_telemetry = [], w_objects = []\<rparr>, ow_messages = [review_message]\<rparr>"

lemma reviewed: "\<exists>m w1. approve_outreach 5 ''p1'' ''m1'' ''Ann'' review_world = (Inr m, w1)"
  by (simp add: approve_outreach_def review_world_def message_of_def get_row_def review_message_def consenting_person_def
      empty_db_def contact_block_reason_def suppressed_consent_states_def str_truthy_def Let_def)

lemma review_ok: "messages_ok review_world"
  by (simp add: messages_ok_def review_world_def message_ok_def review_message_def)


theorem approval_needs_contactable_person_witness:
  "\<exists>m w1. approve_outreach 5 ''p1'' ''m1'' ''Ann'' review_world = (Inr m, w1) \<and> om_status m = ''approved''"
proof -
  obtain m w1 where r: "approve_outreach 5 ''p1'' ''m1'' ''Ann'' review_world = (Inr m, w1)" using reviewed by blast
  from approval_needs_contactable_person [OF r] r show ?thesis by blast
qed

theorem send_ignores_later_opt_out_witness:
  "\<exists>m w1 m' w2. approve_outreach 5 ''p1'' ''m1'' ''Ann'' review_world = (Inr m, w1)
     \<and> request_outreach_send 9 ''p1'' ''m1'' (w1\<lparr>ow_world := (ow_world w1)\<lparr>w_db := (w_db (ow_world w1))
          \<lparr>persons := [consenting_person\<lparr>p_consent_state := ''opted_out''\<rparr>]\<rparr>\<rparr>\<rparr>) = (Inr m', w2)
     \<and> om_status m' = ''send_requested''"
proof -
  obtain m w1 where r: "approve_outreach 5 ''p1'' ''m1'' ''Ann'' review_world = (Inr m, w1)" using reviewed by blast
  have b: "contact_block_reason (consenting_person\<lparr>p_consent_state := ''opted_out''\<rparr>) = Some ''suppressed_consent_state:opted_out''"
    "p_id (consenting_person\<lparr>p_consent_state := ''opted_out''\<rparr>) = ''p1''"
    by (simp_all add: contact_block_reason_def suppressed_consent_states_def str_truthy_def consenting_person_def)
  from send_ignores_later_opt_out [OF r b, of 9] r show ?thesis by blast
qed

end
