(* ===== verification/Candidate_View.thy ===== *)
theory Candidate_View
  imports Decision_Route Collection_Store Reconcile "HOL-Library.Product_Lexorder"
begin

text \<open>
  The read models of \<^verbatim>\<open>app/api/routes/candidates.py\<close>: the response types, the pure mapper from a person
  and its fetched rows to a candidate, the batch queries the mapper is fed from, and the detail handler. A
  value a response type refuses is a \<open>ValidationError\<close>, the argument \<open>bad\<close>, which no handler catches.
\<close>

section \<open>Response types\<close>

record candidate_scores =
  sc_novelty :: "real option"
  sc_momentum :: "real option"
  sc_thesis_fit :: "real option"
  sc_founder :: "real option"
  sc_market :: "real option"
  sc_idea_market :: "real option"
  sc_discovery_signal :: "real option"
  sc_evidence_confidence :: "real option"
  sc_raw :: "real dict"

record candidate_profile =
  pf_company :: "string option"
  pf_role :: "string option"
  pf_location :: "string option"
  pf_summary :: "string option"
  pf_website :: "string option"
  pf_deck_url :: "string option"
  pf_deck_title :: "string option"
  pf_deck_stage :: "string option"
  pf_inbound_label :: "string option"
  pf_source_types :: "string list"
  pf_observation_count :: nat
  pf_completeness :: real

record candidate_thesis_match =
  tm_version :: string
  tm_score :: real
  tm_confidence :: real
  tm_hard_eligible :: bool
  tm_matched :: "string list"
  tm_failed :: "string list"
  tm_unknown :: "string list"
  tm_criteria :: "pyval dict"

record candidate_view =
  cv_id :: uuid
  cv_stable_id :: string
  cv_display_name :: "string option"
  cv_email :: "string option"
  cv_handles :: "string dict option"
  cv_consent_state :: string
  cv_origin :: "string option"
  cv_scores :: "candidate_scores option"
  cv_thesis_match :: "candidate_thesis_match option"
  cv_profile :: "candidate_profile option"
  cv_avatar_url :: "string option"
  cv_avatar_source :: "string option"
  cv_latest_score_at :: "instant option"
  cv_created_at :: "instant option"
  cv_lifecycle_stage :: "string option"
  cv_sla :: "sla_view option"

text \<open>An optional float of a response: absent or null, a number or the text of one, or refused.\<close>

definition float_field :: "codec \<Rightarrow> exc \<Rightarrow> pyval dict \<Rightarrow> string \<Rightarrow> exc + real option" where
  "float_field cx bad d k =
     (case dget d k of
        None \<Rightarrow> Inr None
      | Some PNone \<Rightarrow> Inr None
      | Some v \<Rightarrow> (case py_float cx v of Inl _ \<Rightarrow> Inl bad | Inr r \<Rightarrow> Inr (Some r)))"

text \<open>\<open>isinstance(value, (int, float))\<close>, which a bool is too.\<close>

fun json_number :: "pyval \<Rightarrow> real option" where
  "json_number (PFloat r) = Some r"
| "json_number (PInt i) = Some (of_int i)"
| "json_number (PBool b) = Some (if b then 1 else 0)"
| "json_number _ = None"

definition checked_stage :: "exc \<Rightarrow> string option \<Rightarrow> exc + string option" where
  "checked_stage bad stage =
     (case stage of
        None \<Rightarrow> Inr None
      | Some s \<Rightarrow> (case normalize_lifecycle_stage s of Inl _ \<Rightarrow> Inl bad | Inr t \<Rightarrow> Inr (Some t)))"

section \<open>The mapper\<close>

definition newest_snapshots :: "score_snapshot list \<Rightarrow> score_snapshot list" where
  "newest_snapshots ss = sort_key (\<lambda>s. - s_created_at s) ss"

definition add_component :: "pyval dict \<Rightarrow> string \<times> pyval \<Rightarrow> pyval dict" where
  "add_component acc item =
     (if fst item \<in> {''market'', ''idea_market''} then acc
      else if dget acc (fst item) = None then dset acc (fst item) (snd item) else acc)"

definition person_components :: "score_snapshot list \<Rightarrow> pyval dict" where
  "person_components ss = foldl (\<lambda>acc s. foldl add_component acc (s_components s)) [] ss"

definition opportunity_axis :: "score_snapshot option \<Rightarrow> string \<Rightarrow> pyval dict \<Rightarrow> pyval dict" where
  "opportunity_axis opp key d =
     (case opp of
        None \<Rightarrow> d
      | Some s \<Rightarrow> (case dget (s_components s) key of
            None \<Rightarrow> d
          | Some v \<Rightarrow> if json_number v = None then d else dset d key v))"

definition merged_components :: "score_snapshot list \<Rightarrow> score_snapshot option \<Rightarrow> pyval dict" where
  "merged_components ss opp =
     opportunity_axis opp ''idea_market'' (opportunity_axis opp ''market'' (person_components ss))"

definition raw_numbers :: "pyval dict \<Rightarrow> real dict" where
  "raw_numbers d = concat (map (\<lambda>(k, v). case json_number v of None \<Rightarrow> [] | Some r \<Rightarrow> [(k, r)]) d)"

definition scores_of :: "codec \<Rightarrow> exc \<Rightarrow> pyval dict \<Rightarrow> exc + candidate_scores option" where
  "scores_of cx bad d =
     (if d = [] then Inr None
      else
        (case float_field cx bad d ''novelty'' of Inl e \<Rightarrow> Inl e | Inr novelty \<Rightarrow>
         case float_field cx bad d ''momentum'' of Inl e \<Rightarrow> Inl e | Inr momentum \<Rightarrow>
         case float_field cx bad d ''thesis_fit'' of Inl e \<Rightarrow> Inl e | Inr thesis_fit \<Rightarrow>
         case float_field cx bad d ''founder'' of Inl e \<Rightarrow> Inl e | Inr founder \<Rightarrow>
         case float_field cx bad d ''market'' of Inl e \<Rightarrow> Inl e | Inr market \<Rightarrow>
         case float_field cx bad d ''idea_market'' of Inl e \<Rightarrow> Inl e | Inr idea_market \<Rightarrow>
         case float_field cx bad d ''composite'' of Inl e \<Rightarrow> Inl e | Inr composite \<Rightarrow>
         case float_field cx bad d ''evidence_confidence'' of Inl e \<Rightarrow> Inl e | Inr confidence \<Rightarrow>
           Inr (Some \<lparr>sc_novelty = novelty, sc_momentum = momentum, sc_thesis_fit = thesis_fit,
             sc_founder = founder, sc_market = market, sc_idea_market = idea_market,
             sc_discovery_signal = composite, sc_evidence_confidence = confidence, sc_raw = raw_numbers d\<rparr>)))"

definition text_list :: "codec \<Rightarrow> pyval option \<Rightarrow> string list" where
  "text_list cx v = (case v of Some (PList xs) \<Rightarrow> map (py_str cx) xs | _ \<Rightarrow> [])"

definition criteria_dict :: "pyval option \<Rightarrow> pyval dict" where
  "criteria_dict v = (case v of Some (PDict d) \<Rightarrow> d | _ \<Rightarrow> [])"

definition thesis_match_of :: "codec \<Rightarrow> exc \<Rightarrow> score_snapshot list \<Rightarrow> exc + candidate_thesis_match option" where
  "thesis_match_of cx bad ss =
     (case find (\<lambda>s. startswith (s_rubric_version s) ''thesis-match-'') ss of
        None \<Rightarrow> Inr None
      | Some s \<Rightarrow>
          (let d = s_components s; number = (\<lambda>k. case dget d k of None \<Rightarrow> None | Some v \<Rightarrow> json_number v)
           in case (number ''thesis_fit'', number ''thesis_confidence'', dget d ''thesis_version'') of
                (Some score, Some confidence, Some (PStr version)) \<Rightarrow>
                  (let criteria = criteria_dict (dget d ''criteria'')
                   in if \<not> list_all (\<lambda>(k, v). case v of PDict _ \<Rightarrow> True | _ \<Rightarrow> False) criteria then Inl bad
                      else Inr (Some \<lparr>tm_version = version, tm_score = score, tm_confidence = confidence,
                        tm_hard_eligible = py_truthy (get_or d ''hard_eligible'' (PBool True)),
                        tm_matched = text_list cx (dget d ''matched''),
                        tm_failed = text_list cx (dget d ''failed''),
                        tm_unknown = text_list cx (dget d ''unknown''), tm_criteria = criteria\<rparr>))
              | _ \<Rightarrow> Inr None))"

definition complete_fields :: "person \<Rightarrow> candidate_profile \<Rightarrow> candidate_scores option \<Rightarrow> bool list" where
  "complete_fields p pf sc =
     (let score = (\<lambda>f. case sc of None \<Rightarrow> False | Some s \<Rightarrow> f s \<noteq> None)
      in [p_display_name p \<noteq> None, pf_company pf \<noteq> None, pf_location pf \<noteq> None, pf_summary pf \<noteq> None,
          score sc_founder, score sc_market, score sc_idea_market, pf_observation_count pf \<noteq> 0])"

definition completed_profile :: "person \<Rightarrow> candidate_scores option \<Rightarrow> candidate_profile \<Rightarrow> candidate_profile" where
  "completed_profile p sc pf =
     pf\<lparr>pf_completeness := py_round 3 (real (length (filter id (complete_fields p pf sc))) / 8)\<rparr>"

definition avatar_url :: "person \<Rightarrow> string option" where
  "avatar_url p =
     (case p_avatar_data p of
        None \<Rightarrow> None
      | Some data \<Rightarrow> if data = [] then None else Some (''/api/v1/candidates/'' @ p_id p @ ''/avatar''))"

definition map_person_to_candidate :: "codec \<Rightarrow> exc \<Rightarrow> person \<Rightarrow> score_snapshot option \<Rightarrow> string option
    \<Rightarrow> score_snapshot list \<Rightarrow> score_snapshot option \<Rightarrow> candidate_profile option \<Rightarrow> string option
    \<Rightarrow> sla_view option \<Rightarrow> exc + candidate_view" where
  "map_person_to_candidate cx bad p latest origin score_rows opportunity_score profile stage sla =
     (let snapshots = newest_snapshots (case latest of
            None \<Rightarrow> score_rows
          | Some s \<Rightarrow> if s \<in> set score_rows then score_rows else score_rows @ [s]);
          components = merged_components snapshots opportunity_score
      in case scores_of cx bad components of Inl e \<Rightarrow> Inl e | Inr scores \<Rightarrow>
         case thesis_match_of cx bad snapshots of Inl e \<Rightarrow> Inl e | Inr thesis_match \<Rightarrow>
         case checked_stage bad stage of Inl e \<Rightarrow> Inl e | Inr lifecycle_stage \<Rightarrow>
           Inr \<lparr>cv_id = p_id p, cv_stable_id = p_stable_id p, cv_display_name = p_display_name p,
             cv_email = p_email p, cv_handles = p_handles p, cv_consent_state = p_consent_state p,
             cv_origin = origin, cv_scores = scores, cv_thesis_match = thesis_match,
             cv_profile = map_option (completed_profile p scores) profile,
             cv_avatar_url = avatar_url p, cv_avatar_source = p_avatar_source_type p,
             cv_latest_score_at = (if scores = None then None
               else case snapshots of [] \<Rightarrow> None | s # _ \<Rightarrow> Some (s_created_at s)),
             cv_created_at = p_created_at p, cv_lifecycle_stage = lifecycle_stage, cv_sla = sla\<rparr>)"

section \<open>The batch queries\<close>

text \<open>What each query gives for one person of the batch.\<close>

definition score_rows_of :: "db \<Rightarrow> uuid \<Rightarrow> score_snapshot list" where
  "score_rows_of d pid = sort_key (\<lambda>s. - s_created_at s)
     (filter (\<lambda>s. s_subject_id s = pid \<and> s_subject_type s = ''person'') (score_snapshots d))"

definition opportunity_score_of :: "db \<Rightarrow> uuid \<Rightarrow> score_snapshot option" where
  "opportunity_score_of d pid =
     (let deals = opportunities_of d pid;
          current = map o_id (filter (\<lambda>x. \<forall>y \<in> set deals. o_created_at y \<le> o_created_at x) deals)
      in newest s_created_at (filter (\<lambda>s. s_subject_id s \<in> set current \<and> s_subject_type s = ''opportunity''
           \<and> s_rubric_version s = ''opportunity-axes-v1'') (score_snapshots d)))"

definition evidence_rows_of :: "world \<Rightarrow> uuid \<Rightarrow> (observation \<times> source_snapshot) list" where
  "evidence_rows_of w pid = sort_key (\<lambda>r. - ob_observed_at (fst r))
     (concat (map (\<lambda>x. if ob_subject_id x = Some pid
        then map (Pair x) (filter (\<lambda>s. sn_id s = ob_snapshot_id x) (w_snapshots w)) else [])
        (observations (w_db w))))"

definition add_value :: "string dict \<Rightarrow> observation \<times> source_snapshot \<Rightarrow> string dict" where
  "add_value values r =
     (let v = strip (ob_object_value (fst r)); k = lower (ob_predicate (fst r))
      in if v \<noteq> [] \<and> dget values k = None then dset values k v else values)"

fun first_value :: "string dict \<Rightarrow> string list \<Rightarrow> string option" where
  "first_value values [] = None"
| "first_value values (k # ks) =
     (case dget values k of Some v \<Rightarrow> if v \<noteq> [] \<or> ks = [] then Some v else first_value values ks
      | None \<Rightarrow> first_value values ks)"

declare first_value.simps [simp del]

definition profile_of :: "world \<Rightarrow> uuid \<Rightarrow> candidate_profile option" where
  "profile_of w pid =
     (let items = evidence_rows_of w pid; values = foldl add_value [] items
      in if items = [] then None
         else Some \<lparr>pf_company = first_value values [''company'', ''company_name''],
           pf_role = first_value values [''role'', ''title'', ''headline''],
           pf_location = dget values ''location'',
           pf_summary = first_value values [''research_founder_summary'', ''inbound_summary'', ''bio''],
           pf_website = first_value values [''blog_url'', ''website''],
           pf_deck_url = dget values ''pitch_deck_url'', pf_deck_title = dget values ''pitch_deck_title'',
           pf_deck_stage = dget values ''pitch_deck_stage'', pf_inbound_label = dget values ''inbound_label'',
           pf_source_types = sort (remdups (map (\<lambda>r. sn_source_type (snd r)) items)),
           pf_observation_count = length items, pf_completeness = 0\<rparr>)"

text \<open>\<open>row_number() = 1\<close> of a person's opportunities, newest first and the greatest id first among equals.\<close>

definition latest_opportunity_row :: "db \<Rightarrow> uuid \<Rightarrow> opportunity option" where
  "latest_opportunity_row d pid =
     (case rev (sort_key (\<lambda>x. (o_created_at x, o_id x)) (opportunities_of d pid)) of
        [] \<Rightarrow> None | x # _ \<Rightarrow> Some x)"

definition origin_of :: "db \<Rightarrow> person \<Rightarrow> string option" where
  "origin_of d p =
     (case map_option o_source_kind (latest_opportunity_row d (p_id p)) of
        Some kind \<Rightarrow> if kind \<noteq> [] then Some kind
          else if p_handles p = None \<or> p_handles p = Some [] then None else Some ''outbound''
      | None \<Rightarrow> if p_handles p = None \<or> p_handles p = Some [] then None else Some ''outbound'')"

definition sla_response :: "exc \<Rightarrow> instant \<Rightarrow> opportunity \<Rightarrow> exc + sla_view" where
  "sla_response bad clock x =
     (let v = opp_sla x None clock
      in if v_attainment v \<in> {''pending'', ''met'', ''breached''} then Inr v else Inl bad)"

definition sla_of :: "exc \<Rightarrow> instant \<Rightarrow> db \<Rightarrow> uuid \<Rightarrow> exc + sla_view option" where
  "sla_of bad clock d pid =
     (case latest_opportunity_row d pid of
        None \<Rightarrow> Inr None
      | Some x \<Rightarrow> (case sla_response bad clock x of Inl e \<Rightarrow> Inl e | Inr v \<Rightarrow> Inr (Some v)))"

text \<open>A person as the list shows it.\<close>

definition candidate_of :: "codec \<Rightarrow> exc \<Rightarrow> instant \<Rightarrow> world \<Rightarrow> person \<Rightarrow> exc + candidate_view" where
  "candidate_of cx bad clock w p =
     (let d = w_db w
      in case sla_of bad clock d (p_id p) of
           Inl e \<Rightarrow> Inl e
         | Inr sla \<Rightarrow> map_person_to_candidate cx bad p None (origin_of d p) (score_rows_of d (p_id p))
             (opportunity_score_of d (p_id p)) (profile_of w (p_id p))
             (map_option o_lifecycle_state (latest_opportunity_row d (p_id p))) sla)"

section \<open>The detail handler\<close>

record candidate_observation =
  co_id :: uuid
  co_predicate :: string
  co_object_value :: string
  co_confidence :: real
  co_source_locator :: pyval
  co_observed_at :: instant
  co_source_type :: string
  co_source_uri :: string

record candidate_claim =
  cc_id :: uuid
  cc_predicate :: string
  cc_object_value :: string
  cc_status :: string
  cc_confidence :: real
  cc_trust_score :: "real option"
  cc_trust_interval :: "(real \<times> real) option"
  cc_trust_components :: "pyval dict"
  cc_trust_explanation :: "string option"
  cc_created_at :: instant

record candidate_assessment =
  ca_axis :: string
  ca_rating :: string
  ca_trend :: string
  ca_confidence :: real
  ca_unknowns :: "string list"
  ca_created_at :: instant

record candidate_score =
  ch_rubric_version :: string
  ch_components :: "pyval dict"
  ch_created_at :: instant

record candidate_relationship =
  cr_relationship_type :: string
  cr_person_id :: uuid
  cr_display_name :: "string option"
  cr_confidence :: real
  cr_observed_at :: instant

record candidate_opportunity =
  cp_id :: uuid
  cp_organization_id :: "uuid option"
  cp_company_name :: string
  cp_source_kind :: string
  cp_lifecycle_state :: string
  cp_thesis_version :: "string option"
  cp_created_at :: instant

record candidate_detail =
  cd_candidate :: candidate_view
  cd_opportunity :: "candidate_opportunity option"
  cd_decision_proposal :: "decision_proposal option"
  cd_observations :: "candidate_observation list"
  cd_claims :: "candidate_claim list"
  cd_assessments :: "candidate_assessment list"
  cd_score_history :: "candidate_score list"
  cd_relationships :: "candidate_relationship list"

definition observation_response :: "exc \<Rightarrow> observation \<times> source_snapshot \<Rightarrow> exc + candidate_observation" where
  "observation_response bad r =
     (let x = fst r; s = snd r
      in case ob_source_locator x of
           PNone \<Rightarrow> Inr \<lparr>co_id = ob_id x, co_predicate = ob_predicate x, co_object_value = ob_object_value x,
             co_confidence = ob_confidence x, co_source_locator = PNone, co_observed_at = ob_observed_at x,
             co_source_type = sn_source_type s, co_source_uri = sn_uri s\<rparr>
         | PDict d \<Rightarrow> Inr \<lparr>co_id = ob_id x, co_predicate = ob_predicate x, co_object_value = ob_object_value x,
             co_confidence = ob_confidence x, co_source_locator = PDict d, co_observed_at = ob_observed_at x,
             co_source_type = sn_source_type s, co_source_uri = sn_uri s\<rparr>
         | _ \<Rightarrow> Inl bad)"

definition claim_response :: "exc \<Rightarrow> claim \<Rightarrow> exc + candidate_claim" where
  "claim_response bad c =
     (case normalize_claim_status (c_status c) of
        Inl _ \<Rightarrow> Inl bad
      | Inr status \<Rightarrow> Inr \<lparr>cc_id = c_id c, cc_predicate = c_predicate c, cc_object_value = c_object_value c,
          cc_status = status, cc_confidence = c_confidence c, cc_trust_score = c_trust_score c,
          cc_trust_interval = c_trust_interval c, cc_trust_components = c_trust_components c,
          cc_trust_explanation = c_trust_explanation c, cc_created_at = c_created_at c\<rparr>)"

definition assessment_response :: "exc \<Rightarrow> assessment \<Rightarrow> exc + candidate_assessment" where
  "assessment_response bad a =
     (case (normalize_assessment_axis (a_axis a), normalize_assessment_rating (a_rating a),
            normalize_assessment_trend (a_trend a)) of
        (Inr axis, Inr rating, Inr trend) \<Rightarrow>
          Inr \<lparr>ca_axis = axis, ca_rating = rating, ca_trend = trend, ca_confidence = a_confidence a,
            ca_unknowns = a_unknowns a, ca_created_at = a_created_at a\<rparr>
      | _ \<Rightarrow> Inl bad)"

definition score_response :: "score_snapshot \<Rightarrow> candidate_score" where
  "score_response s = \<lparr>ch_rubric_version = s_rubric_version s, ch_components = s_components s,
     ch_created_at = s_created_at s\<rparr>"

definition relationship_response :: "db \<Rightarrow> uuid \<Rightarrow> relationship \<Rightarrow> candidate_relationship" where
  "relationship_response d pid r =
     (let other = (if r_person_a r = pid then r_person_b r else r_person_a r)
      in \<lparr>cr_relationship_type = r_type r, cr_person_id = other,
          cr_display_name = (case get_row p_id (persons d) other of None \<Rightarrow> None | Some q \<Rightarrow> p_display_name q),
          cr_confidence = r_confidence r, cr_observed_at = r_observed_at r\<rparr>)"

definition opportunity_response :: "exc \<Rightarrow> opportunity \<Rightarrow> exc + candidate_opportunity" where
  "opportunity_response bad x =
     (case normalize_lifecycle_stage (o_lifecycle_state x) of
        Inl _ \<Rightarrow> Inl bad
      | Inr state \<Rightarrow> Inr \<lparr>cp_id = o_id x, cp_organization_id = o_organization_id x,
          cp_company_name = o_company_name x, cp_source_kind = o_source_kind x, cp_lifecycle_state = state,
          cp_thesis_version = o_thesis_version x, cp_created_at = o_created_at x\<rparr>)"

definition proposal_ok :: "decision_proposal \<Rightarrow> bool" where
  "proposal_ok p =
     (pv_action (dp_values p) \<in> {''invest'', ''hold'', ''investigate'', ''decline''}
      \<and> pv_status (dp_values p) \<in> {''draft'', ''approved'', ''overridden''}
      \<and> pv_conviction (dp_values p) \<in> {None, Some ''low'', Some ''medium'', Some ''high''}
      \<and> pv_readiness_status (dp_values p) \<in> {''ready'', ''blocked''})"

definition proposal_response :: "exc \<Rightarrow> decision_proposal option \<Rightarrow> exc + decision_proposal option" where
  "proposal_response bad p =
     (case p of None \<Rightarrow> Inr None | Some q \<Rightarrow> if proposal_ok q then Inr (Some q) else Inl bad)"

text \<open>What the handler adds of the current deal: its clock, its newest proposal, its assessments and itself.\<close>

definition deal_part :: "exc \<Rightarrow> instant \<Rightarrow> memo_world \<Rightarrow> opportunity option
    \<Rightarrow> exc + (sla_view option \<times> decision_proposal option \<times> candidate_assessment list \<times> candidate_opportunity option)" where
  "deal_part bad clock w deal =
     (case deal of
        None \<Rightarrow> Inr (None, None, [], None)
      | Some x \<Rightarrow>
          (case sla_response bad clock x of Inl e \<Rightarrow> Inl e | Inr sla \<Rightarrow>
           case proposal_response bad (newest_such (\<lambda>p. dp_opportunity_id p = o_id x) (mw_proposals w)) of
             Inl e \<Rightarrow> Inl e | Inr proposal \<Rightarrow>
           case each_ok (assessment_response bad) (sort_key (\<lambda>a. - a_created_at a)
                  (filter (\<lambda>a. a_opportunity_id a = o_id x) (mw_assessments w))) of
             Inl e \<Rightarrow> Inl e | Inr assessments \<Rightarrow>
           case opportunity_response bad x of Inl e \<Rightarrow> Inl e | Inr shown \<Rightarrow>
             Inr (Some sla, proposal, assessments, Some shown)))"

definition score_history :: "db \<Rightarrow> uuid \<Rightarrow> candidate_score list" where
  "score_history d pid = map score_response (take 100 (sort_key s_created_at
     (filter (\<lambda>s. s_subject_id s = pid \<and> s_subject_type s = ''person'') (score_snapshots d))))"

definition get_candidate :: "codec \<Rightarrow> exc \<Rightarrow> instant \<Rightarrow> memo_world \<Rightarrow> uuid \<Rightarrow> http_failure + candidate_detail" where
  "get_candidate cx bad clock w cid =
     (let d = w_db (mw_world w)
      in case active_person d cid of
           None \<Rightarrow> Inl (Http_Error 404 ''Candidate not found'')
         | Some p \<Rightarrow>
             (case map_person_to_candidate cx bad p None (origin_of d p) (score_rows_of d cid)
                (opportunity_score_of d cid) (profile_of (mw_world w) cid)
                (map_option o_lifecycle_state (latest_opportunity_row d cid)) None of
                Inl e \<Rightarrow> Inl (Unhandled e) | Inr candidate \<Rightarrow>
              case deal_part bad clock w (latest_opportunity d cid) of
                Inl e \<Rightarrow> Inl (Unhandled e) | Inr (sla, proposal, assessments, shown) \<Rightarrow>
              case each_ok (observation_response bad) (take 200 (evidence_rows_of (mw_world w) cid)) of
                Inl e \<Rightarrow> Inl (Unhandled e) | Inr seen \<Rightarrow>
              case each_ok (claim_response bad) (take 100 (sort_key (\<lambda>c. - c_created_at c)
                     (filter (\<lambda>c. c_subject_id c = Some cid) (claims d)))) of
                Inl e \<Rightarrow> Inl (Unhandled e) | Inr shown_claims \<Rightarrow>
                Inr \<lparr>cd_candidate = candidate\<lparr>cv_sla := sla\<rparr>, cd_opportunity = shown,
                  cd_decision_proposal = proposal, cd_observations = seen, cd_claims = shown_claims,
                  cd_assessments = assessments, cd_score_history = score_history d cid,
                  cd_relationships = map (relationship_response d cid)
                    (filter (\<lambda>r. r_person_a r = cid \<or> r_person_b r = cid) (relationships d))\<rparr>))"

section \<open>Where a score comes from\<close>

lemma dget_add_component:
  "dget (add_component acc item) k =
     (if k \<in> {''market'', ''idea_market''} \<or> dget acc k \<noteq> None \<or> fst item \<noteq> k then dget acc k else Some (snd item))"
  by (auto simp: add_component_def)

lemma dget_add_components:
  "dget (foldl add_component acc d) k =
     (if k \<in> {''market'', ''idea_market''} \<or> dget acc k \<noteq> None then dget acc k else dget d k)"
proof (induction d arbitrary: acc)
  case (Cons item d)
  obtain a b where [simp]: "item = (a, b)" by force
  show ?case by (simp only: foldl_Cons Cons dget_add_component) auto
qed auto

definition recorded_in :: "string \<Rightarrow> score_snapshot list \<Rightarrow> pyval dict" where
  "recorded_in k ss = (case find (\<lambda>s. dget (s_components s) k \<noteq> None) ss of None \<Rightarrow> [] | Some s \<Rightarrow> s_components s)"

lemma dget_person_components_from:
  "dget (foldl (\<lambda>acc s. foldl add_component acc (s_components s)) acc ss) k =
     (if k \<in> {''market'', ''idea_market''} \<or> dget acc k \<noteq> None then dget acc k else dget (recorded_in k ss) k)"
proof (induction ss arbitrary: acc)
  case Nil
  show ?case by (auto simp: recorded_in_def)
next
  case (Cons s ss)
  show ?case by (simp only: foldl_Cons Cons dget_add_components) (auto simp: recorded_in_def)
qed

lemma dget_person_components:
  "dget (person_components ss) k = (if k \<in> {''market'', ''idea_market''} then None else dget (recorded_in k ss) k)"
  by (simp add: person_components_def dget_person_components_from)

definition deal_axis :: "score_snapshot option \<Rightarrow> string \<Rightarrow> pyval option" where
  "deal_axis opp k =
     (case opp of None \<Rightarrow> None
      | Some s \<Rightarrow> (case dget (s_components s) k of None \<Rightarrow> None
          | Some v \<Rightarrow> if json_number v = None then None else Some v))"

lemma dget_opportunity_axis:
  "dget (opportunity_axis opp key d) k =
     (if k = key \<and> deal_axis opp key \<noteq> None then deal_axis opp key else dget d k)"
  by (auto simp: opportunity_axis_def deal_axis_def split: option.splits)

lemma dget_merged_components:
  "dget (merged_components ss opp) k =
     (if k \<in> {''market'', ''idea_market''} then deal_axis opp k else dget (recorded_in k ss) k)"
  by (auto simp: merged_components_def dget_opportunity_axis dget_person_components)

lemma float_field_cong: "dget d k = dget d' k \<Longrightarrow> float_field cx bad d k = float_field cx bad d' k"
  by (simp add: float_field_def)

lemma float_field_axis:
  assumes "float_field cx bad (merged_components ss opp) k = Inr r" and "k \<in> {''market'', ''idea_market''}"
  shows "r = (case deal_axis opp k of None \<Rightarrow> None | Some v \<Rightarrow> json_number v)"
proof (cases "deal_axis opp k")
  case None
  with assms show ?thesis by (simp only: float_field_def dget_merged_components) simp
next
  case (Some v)
  then have "json_number v \<noteq> None"
    by (auto simp: deal_axis_def split: option.splits if_splits)
  with Some assms show ?thesis
    by (cases v) (simp_all only: float_field_def dget_merged_components, auto)
qed

lemma scores_of_SomeD:
  assumes "scores_of cx bad d = Inr (Some sc)"
  shows "float_field cx bad d ''novelty'' = Inr (sc_novelty sc)"
    and "float_field cx bad d ''momentum'' = Inr (sc_momentum sc)"
    and "float_field cx bad d ''thesis_fit'' = Inr (sc_thesis_fit sc)"
    and "float_field cx bad d ''founder'' = Inr (sc_founder sc)"
    and "float_field cx bad d ''market'' = Inr (sc_market sc)"
    and "float_field cx bad d ''idea_market'' = Inr (sc_idea_market sc)"
    and "float_field cx bad d ''composite'' = Inr (sc_discovery_signal sc)"
    and "float_field cx bad d ''evidence_confidence'' = Inr (sc_evidence_confidence sc)"
  using assms by (auto simp: scores_of_def split: if_splits sum.splits)

lemma map_person_InrD:
  assumes "map_person_to_candidate cx bad p None origin rows opp profile stage sla = Inr v"
  shows "scores_of cx bad (merged_components (newest_snapshots rows) opp) = Inr (cv_scores v)"
    and "thesis_match_of cx bad (newest_snapshots rows) = Inr (cv_thesis_match v)"
    and "checked_stage bad stage = Inr (cv_lifecycle_stage v)"
    and "cv_profile v = map_option (completed_profile p (cv_scores v)) profile"
    and "cv_id v = p_id p" and "cv_origin v = origin" and "cv_sla v = sla"
  using assms by (auto simp: map_person_to_candidate_def Let_def split: sum.splits)

text \<open>
  C25. A candidate's market and idea-against-market values are those of the score of the current deal, never
  of a snapshot of the person; every other score is the one in the newest person snapshot that records it.
\<close>

theorem scores_have_one_source:
  assumes "map_person_to_candidate cx bad p None origin rows opp profile stage sla = Inr v"
    and "cv_scores v = Some sc"
  shows "sc_market sc = (case deal_axis opp ''market'' of None \<Rightarrow> None | Some x \<Rightarrow> json_number x)
    \<and> sc_idea_market sc = (case deal_axis opp ''idea_market'' of None \<Rightarrow> None | Some x \<Rightarrow> json_number x)
    \<and> list_all (\<lambda>(k, r). float_field cx bad (recorded_in k (newest_snapshots rows)) k = Inr r)
        [(''founder'', sc_founder sc), (''thesis_fit'', sc_thesis_fit sc), (''novelty'', sc_novelty sc),
         (''momentum'', sc_momentum sc), (''composite'', sc_discovery_signal sc),
         (''evidence_confidence'', sc_evidence_confidence sc)]"
proof -
  note fields = scores_of_SomeD [OF map_person_InrD(1) [OF assms(1), unfolded assms(2)]]
  have person: "float_field cx bad (recorded_in k (newest_snapshots rows)) k =
      float_field cx bad (merged_components (newest_snapshots rows) opp) k"
    if "k \<notin> {''market'', ''idea_market''}" for k
    using that by (intro float_field_cong) (simp add: dget_merged_components)
  show ?thesis
    using float_field_axis [OF fields(5)] float_field_axis [OF fields(6)] fields by (simp add: person)
qed

definition person_score_row :: "string \<Rightarrow> instant \<Rightarrow> pyval dict \<Rightarrow> score_snapshot" where
  "person_score_row kind t d = \<lparr>s_id = ''s1'', s_subject_id = ''p1'', s_subject_type = kind,
     s_rubric_version = ''opportunity-axes-v1'', s_components = d, s_interval = None, s_evidence_ids = [],
     s_input_fingerprint = None, s_provenance = PNone, s_artifact_metadata = [], s_created_at = t\<rparr>"

definition repeat_rows :: "score_snapshot list" where
  "repeat_rows = [person_score_row ''person'' 1 [(''founder'', PFloat 10), (''novelty'', PInt 7)],
     person_score_row ''person'' 2 [(''founder'', PFloat 80), (''market'', PFloat 99)]]"

definition repeat_deal :: score_snapshot where
  "repeat_deal = person_score_row ''opportunity'' 3 [(''market'', PFloat 40), (''idea_market'', PStr ''high'')]"

lemma newest_snapshots_repeat: "newest_snapshots repeat_rows = rev repeat_rows"
  by (simp add: newest_snapshots_def repeat_rows_def person_score_row_def)

lemma repeat_components:
  "merged_components (newest_snapshots repeat_rows) (Some repeat_deal) =
     [(''founder'', PFloat 80), (''novelty'', PInt 7), (''market'', PFloat 40)]"
  unfolding newest_snapshots_repeat
  by (simp add: merged_components_def person_components_def repeat_rows_def repeat_deal_def person_score_row_def
      opportunity_axis_def add_component_def)

lemma repeat_view:
  "\<exists>v sc. map_person_to_candidate cx bad sample_person None None repeat_rows (Some repeat_deal) None None None = Inr v
     \<and> cv_scores v = Some sc"
proof -
  have "thesis_match_of cx bad (newest_snapshots repeat_rows) = Inr None"
    unfolding newest_snapshots_repeat
    by (simp add: thesis_match_of_def repeat_rows_def person_score_row_def startswith_def)
  then show ?thesis
    by (simp add: map_person_to_candidate_def repeat_components scores_of_def float_field_def checked_stage_def)
qed

theorem scores_have_one_source_witness:
  "\<forall>cx bad. \<exists>v sc. map_person_to_candidate cx bad sample_person None None repeat_rows (Some repeat_deal) None None None = Inr v
     \<and> cv_scores v = Some sc \<and> sc_market sc = Some 40 \<and> sc_idea_market sc = None"
proof (intro allI)
  fix cx bad
  obtain v sc where v: "map_person_to_candidate cx bad sample_person None None repeat_rows (Some repeat_deal)
      None None None = Inr v" and sc: "cv_scores v = Some sc"
    using repeat_view by blast
  from scores_have_one_source [OF v sc] have "sc_market sc = Some 40" "sc_idea_market sc = None"
    by (simp_all add: deal_axis_def repeat_deal_def person_score_row_def)
  with v sc show "\<exists>v sc. map_person_to_candidate cx bad sample_person None None repeat_rows (Some repeat_deal) None None None
      = Inr v \<and> cv_scores v = Some sc \<and> sc_market sc = Some 40 \<and> sc_idea_market sc = None" by blast
qed

section \<open>Profiles\<close>

lemma completeness_bounds: "0 \<le> pf_completeness (completed_profile p sc pf)" "pf_completeness (completed_profile p sc pf) \<le> 1"
proof -
  have "length (filter id (complete_fields p pf sc)) \<le> 8"
    using length_filter_le [of id "complete_fields p pf sc"] by (simp add: complete_fields_def Let_def)
  then have x: "real (length (filter id (complete_fields p pf sc))) / 8 \<le> 1" by simp
  show "0 \<le> pf_completeness (completed_profile p sc pf)"
    by (simp add: completed_profile_def py_round_nonneg)
  show "pf_completeness (completed_profile p sc pf) \<le> 1"
    using py_round_mono [OF x, of 3] by (simp add: completed_profile_def)
qed

lemma profile_of_SomeD:
  assumes "profile_of w pid = Some pf"
  shows "pf_observation_count pf = length (evidence_rows_of w pid)" and "evidence_rows_of w pid \<noteq> []"
  using assms by (auto simp: profile_of_def Let_def split: if_splits)

lemma kept_value: "dget vs k = Some x \<Longrightarrow> dget (add_value vs r) k = Some x"
  by (auto simp: add_value_def Let_def)

lemma kept_values: "dget vs k = Some x \<Longrightarrow> dget (foldl add_value vs items) k = Some x"
  by (induction items arbitrary: vs) (simp_all add: kept_value)

lemma add_values_sound:
  assumes "dget (foldl add_value vals items) k = Some v" and "dget vals k = None"
  shows "v \<noteq> [] \<and> (\<exists>r \<in> set items. lower (ob_predicate (fst r)) = k \<and> strip (ob_object_value (fst r)) = v)"
  using assms
proof (induction items arbitrary: vals)
  case (Cons r items)
  show ?case
  proof (cases "dget (add_value vals r) k = None")
    case True
    with Cons.IH [of "add_value vals r"] Cons.prems(1) show ?thesis by auto
  next
    case False
    with Cons.prems(2) have new: "k = lower (ob_predicate (fst r))" "strip (ob_object_value (fst r)) \<noteq> []"
      "dget (add_value vals r) k = Some (strip (ob_object_value (fst r)))"
      by (auto simp: add_value_def Let_def split: if_splits)
    from kept_values [OF new(3)] Cons.prems(1) new show ?thesis by auto
  qed
qed simp

lemma first_value_SomeD: "first_value values ks = Some v \<Longrightarrow> \<exists>k \<in> set ks. dget values k = Some v"
  by (induction ks) (auto simp: first_value.simps split: option.splits if_splits)

text \<open>The observations a text of a profile may come from.\<close>

definition backed :: "world \<Rightarrow> uuid \<Rightarrow> string list \<Rightarrow> string option \<Rightarrow> bool" where
  "backed w pid ks v =
     (case v of None \<Rightarrow> True
      | Some t \<Rightarrow> t \<noteq> [] \<and> list_ex (\<lambda>x. ob_subject_id x = Some pid \<and> lower (ob_predicate x) \<in> set ks
          \<and> strip (ob_object_value x) = t \<and> ob_snapshot_id x \<in> sn_id ` set (w_snapshots w)) (observations (w_db w)))"

lemma evidence_rows_sound:
  "r \<in> set (evidence_rows_of w pid) \<Longrightarrow> fst r \<in> set (observations (w_db w)) \<and> ob_subject_id (fst r) = Some pid
     \<and> snd r \<in> set (w_snapshots w) \<and> sn_id (snd r) = ob_snapshot_id (fst r)"
  by (auto simp: evidence_rows_of_def split: if_splits)

lemma backed_value: "dget (foldl add_value [] (evidence_rows_of w pid)) k = v \<Longrightarrow> k \<in> set ks \<Longrightarrow> backed w pid ks v"
proof (cases v)
  case (Some t)
  assume v: "dget (foldl add_value [] (evidence_rows_of w pid)) k = v" and k: "k \<in> set ks"
  from v Some have "dget (foldl add_value [] (evidence_rows_of w pid)) k = Some t" by simp
  from add_values_sound [OF this] obtain r where r: "r \<in> set (evidence_rows_of w pid)"
    "lower (ob_predicate (fst r)) = k" "strip (ob_object_value (fst r)) = t" "t \<noteq> []" by fastforce
  note row = evidence_rows_sound [OF r(1)]
  then have "ob_snapshot_id (fst r) \<in> sn_id ` set (w_snapshots w)" by (metis imageI)
  with row r k Some show ?thesis
    by (auto simp: backed_def list_ex_iff intro!: bexI [of _ "fst r"])
qed (simp add: backed_def)

lemma backed_first: "backed w pid ks (first_value (foldl add_value [] (evidence_rows_of w pid)) ks)"
proof (cases "first_value (foldl add_value [] (evidence_rows_of w pid)) ks")
  case (Some v)
  from first_value_SomeD [OF Some] backed_value show ?thesis unfolding Some by metis
qed (simp add: backed_def)

lemma profile_backed:
  assumes "profile_of w pid = Some pf"
  shows "backed w pid [''company'', ''company_name''] (pf_company pf)"
    and "backed w pid [''role'', ''title'', ''headline''] (pf_role pf)"
    and "backed w pid [''location''] (pf_location pf)"
    and "backed w pid [''research_founder_summary'', ''inbound_summary'', ''bio''] (pf_summary pf)"
    and "backed w pid [''blog_url'', ''website''] (pf_website pf)"
    and "backed w pid [''pitch_deck_url''] (pf_deck_url pf)"
  using assms by (auto simp: profile_of_def Let_def backed_first backed_value split: if_splits)

lemma completed_profile_fields [simp]:
  "pf_company (completed_profile p sc pf) = pf_company pf" "pf_role (completed_profile p sc pf) = pf_role pf"
  "pf_location (completed_profile p sc pf) = pf_location pf" "pf_summary (completed_profile p sc pf) = pf_summary pf"
  "pf_website (completed_profile p sc pf) = pf_website pf" "pf_deck_url (completed_profile p sc pf) = pf_deck_url pf"
  "pf_observation_count (completed_profile p sc pf) = pf_observation_count pf"
  by (simp_all add: completed_profile_def)

lemma completeness_at_least_an_eighth:
  assumes "pf_observation_count pf \<noteq> 0"
  shows "1 / 8 \<le> pf_completeness (completed_profile p sc pf)"
proof -
  have "1 \<le> length (filter id (complete_fields p pf sc))"
    using assms by (auto simp: complete_fields_def Let_def)
  then have x: "1 / 8 \<le> real (length (filter id (complete_fields p pf sc))) / 8" by simp
  have "half_even (125 :: real) = 125" using half_even_of_int [of 125] by simp
  then have "py_round 3 (1 / 8) = 1 / 8" by (simp add: py_round_def)
  with py_round_mono [OF x, of 3] show ?thesis by (simp add: completed_profile_def)
qed

text \<open>
  Every text of a listed candidate's profile is the trimmed value of an observation about that very
  person under one of the predicates of its field, from a stored source; its completeness is at least an
  eighth, since a profile has evidence, and at most one.
\<close>

theorem profile_is_evidence_backed:
  assumes "candidate_of cx bad clock w p = Inr v" and "cv_profile v = Some pf"
  shows "(backed w (p_id p) [''company'', ''company_name''] (pf_company pf)
      \<and> backed w (p_id p) [''role'', ''title'', ''headline''] (pf_role pf)
      \<and> backed w (p_id p) [''location''] (pf_location pf)
      \<and> backed w (p_id p) [''research_founder_summary'', ''inbound_summary'', ''bio''] (pf_summary pf)
      \<and> backed w (p_id p) [''blog_url'', ''website''] (pf_website pf)
      \<and> backed w (p_id p) [''pitch_deck_url''] (pf_deck_url pf))
    \<and> 1 / 8 \<le> pf_completeness pf \<and> pf_completeness pf \<le> 1"
proof -
  obtain sla where "map_person_to_candidate cx bad p None (origin_of (w_db w) p) (score_rows_of (w_db w) (p_id p))
      (opportunity_score_of (w_db w) (p_id p)) (profile_of w (p_id p))
      (map_option o_lifecycle_state (latest_opportunity_row (w_db w) (p_id p))) sla = Inr v"
    using assms(1) by (auto simp: candidate_of_def Let_def split: sum.splits)
  from map_person_InrD(4) [OF this] assms(2) obtain raw where
    raw: "profile_of w (p_id p) = Some raw" and pf: "pf = completed_profile p (cv_scores v) raw"
    by (cases "profile_of w (p_id p)") auto
  have "pf_observation_count raw \<noteq> 0" using profile_of_SomeD(1,2) [OF raw] by simp
  with completeness_at_least_an_eighth show ?thesis
    unfolding pf by (simp add: profile_backed [OF raw] completeness_bounds)
qed

definition invalid_data :: exc where
  "invalid_data = \<lparr>x_class = Other_Error, x_name = ''ValidationError'', x_text = []\<rparr>"

definition seen_world :: world where
  "seen_world = \<lparr>w_db = observed_db, w_snapshots = [sample_snapshot\<lparr>sn_id := ''s1''\<rparr>], w_jobs = [], w_telemetry = [], w_objects = []\<rparr>"

lemma seen_profile: "\<exists>pf. profile_of seen_world ''p1'' = Some pf"
  by (simp add: profile_of_def Let_def evidence_rows_of_def seen_world_def observed_db_def sample_observation_def empty_db_def)

lemma seen_candidate: "\<exists>v pf. candidate_of cx bad 0 seen_world sample_person = Inr v \<and> cv_profile v = Some pf"
proof -
  have none: "opportunities_of (w_db seen_world) ''p1'' = []" "score_rows_of (w_db seen_world) ''p1'' = []"
    "opportunity_score_of (w_db seen_world) ''p1'' = None"
    by (simp_all add: seen_world_def observed_db_def opportunities_of_def score_rows_of_def opportunity_score_of_def
        empty_db_def newest_def)
  obtain pf where "profile_of seen_world ''p1'' = Some pf" using seen_profile by blast
  with none show ?thesis
    by (simp add: candidate_of_def sla_of_def latest_opportunity_row_def map_person_to_candidate_def
        merged_components_def person_components_def newest_snapshots_def opportunity_axis_def scores_of_def
        thesis_match_of_def checked_stage_def sample_person_def)
qed

theorem profile_is_evidence_backed_witness:
  "\<forall>cx bad. \<exists>v pf. candidate_of cx bad 0 seen_world sample_person = Inr v \<and> cv_profile v = Some pf
     \<and> backed seen_world ''p1'' [''role'', ''title'', ''headline''] (pf_role pf) \<and> 1 / 8 \<le> pf_completeness pf"
proof (intro allI)
  fix cx bad
  obtain v pf where v: "candidate_of cx bad 0 seen_world sample_person = Inr v" "cv_profile v = Some pf"
    using seen_candidate by blast
  with profile_is_evidence_backed [OF v] show "\<exists>v pf. candidate_of cx bad 0 seen_world sample_person = Inr v \<and> cv_profile v = Some pf
     \<and> backed seen_world ''p1'' [''role'', ''title'', ''headline''] (pf_role pf) \<and> 1 / 8 \<le> pf_completeness pf"
    by (auto simp: sample_person_def)
qed

end
