(* ===== verification/Candidate_List.thy ===== *)
theory Candidate_List
  imports Candidate_View
begin

text \<open>
  The candidate list of \<^verbatim>\<open>app/api/routes/candidates.py\<close>: filters, search, the opaque cursor and the pages.
  The JSON text of the cursor, the ISO text of a datetime, the digest of the filters and the text
  PostgreSQL gives a JSONB column are functions of the environment; Base64 is written out. A cursor's time
  without an offset is read as UTC.
\<close>

section \<open>Base64\<close>

text \<open>\<open>base64.urlsafe_b64encode\<close> on bytes.\<close>

definition b64_char :: "nat \<Rightarrow> char" where
  "b64_char n = char_of (if n < 26 then n + 65 else if n < 52 then n + 71 else if n < 62 then n - 4
     else if n = 62 then 45 else 95 :: nat)"

definition b64_val :: "char \<Rightarrow> nat option" where
  "b64_val c =
     (let n = char_code c
      in if 65 \<le> n \<and> n \<le> 90 then Some (n - 65) else if 97 \<le> n \<and> n \<le> 122 then Some (n - 71)
         else if 48 \<le> n \<and> n \<le> 57 then Some (n + 4) else if n = 43 \<or> n = 45 then Some 62
         else if n = 47 \<or> n = 95 then Some 63 else None)"

fun b64_encode :: "string \<Rightarrow> string" where
  "b64_encode [] = []"
| "b64_encode [a] = [b64_char (char_code a div 4), b64_char (char_code a mod 4 * 16), CHR ''='', CHR ''='']"
| "b64_encode [a, b] = [b64_char (char_code a div 4), b64_char (char_code a mod 4 * 16 + char_code b div 16),
     b64_char (char_code b mod 16 * 4), CHR ''='']"
| "b64_encode (a # b # c # rest) = b64_char (char_code a div 4)
     # b64_char (char_code a mod 4 * 16 + char_code b div 16)
     # b64_char (char_code b mod 16 * 4 + char_code c div 64) # b64_char (char_code c mod 64) # b64_encode rest"

text \<open>
  \<open>base64.urlsafe_b64decode\<close>: characters outside the alphabet are skipped, a full padding ends the input,
  and a group that is not complete is refused.
\<close>

fun b64_scan :: "nat \<Rightarrow> nat \<Rightarrow> nat \<Rightarrow> string \<Rightarrow> string option" where
  "b64_scan pos left pads [] = (if pos = 0 then Some [] else None)"
| "b64_scan pos left pads (c # cs) =
     (if c = CHR ''='' then
        (if 2 \<le> pos then (if 4 \<le> pos + pads + 1 then Some [] else b64_scan pos left (pads + 1) cs)
         else b64_scan pos left pads cs)
      else (case b64_val c of
          None \<Rightarrow> b64_scan pos left pads cs
        | Some v \<Rightarrow>
            (if pos = 0 then b64_scan 1 v 0 cs
             else if pos = 1 then map_option (Cons (char_of (left * 4 + v div 16))) (b64_scan 2 (v mod 16) 0 cs)
             else if pos = 2 then map_option (Cons (char_of (left * 16 + v div 4))) (b64_scan 3 (v mod 4) 0 cs)
             else map_option (Cons (char_of (left * 64 + v))) (b64_scan 0 0 0 cs))))"

definition b64_decode :: "string \<Rightarrow> string option" where
  "b64_decode s = (if list_all (\<lambda>c. char_code c < 128) s then b64_scan 0 0 0 s else None)"

lemma char_code_of [simp]: "char_code (char_of n) = n mod 256"
  by (simp add: char_code_def)

lemma b64_char_code:
  assumes "n < 64"
  shows "char_code (b64_char n) = (if n < 26 then n + 65 else if n < 52 then n + 71 else if n < 62 then n - 4
     else if n = 62 then 45 else 95)"
  using assms by (simp add: b64_char_def)

lemma b64_val_char: "n < 64 \<Longrightarrow> b64_val (b64_char n) = Some n"
  unfolding b64_val_def by (simp add: b64_char_code Let_def) linarith

lemma b64_char_plain: "n < 64 \<Longrightarrow> b64_char n \<noteq> CHR ''=''"
proof
  assume "n < 64" and "b64_char n = CHR ''=''"
  then have "b64_val (CHR ''='') = Some n" using b64_val_char by metis
  then show False by (simp add: b64_val_def char_code_def Let_def)
qed

lemma char_code_less: "char_code c < 256"
  by (simp add: char_code_def)

lemma char_of_code [simp]: "char_of (char_code c) = c"
  by (simp add: char_code_def)

lemma sextets:
  "char_code a div 4 < 64" "char_code a mod 4 < 4" "char_code a div 16 < 16" "char_code a mod 16 < 16"
  "char_code a div 64 < 4" "char_code a mod 64 < 64"
  using char_code_less [of a] by (simp_all add: less_mult_imp_div_less)

lemma sextets_join:
  "m < 4 \<Longrightarrow> k < 16 \<Longrightarrow> m * 16 + k < (64 :: nat)" "m < 16 \<Longrightarrow> j < 4 \<Longrightarrow> m * 4 + j < (64 :: nat)"
  "m < 4 \<Longrightarrow> m * 16 < (64 :: nat)" "m < 16 \<Longrightarrow> m * 4 < (64 :: nat)"
  by simp_all

lemmas b64_bytes = sextets sextets_join(1) [OF sextets(2) sextets(3)] sextets_join(2) [OF sextets(4) sextets(5)]
  sextets_join(3) [OF sextets(2)] sextets_join(4) [OF sextets(4)]

text \<open>A group of four characters gives three bytes.\<close>

lemma b64_scan_group:
  assumes "v1 < 64" and "m < 4" and "k < 16" and "m2 < 16" and "j < 4" and "v4 < 64"
  shows "b64_scan 0 0 0 (b64_char v1 # b64_char (m * 16 + k) # b64_char (m2 * 4 + j) # b64_char v4 # cs)
    = map_option (\<lambda>x. char_of (v1 * 4 + m) # char_of (k * 16 + m2) # char_of (j * 64 + v4) # x) (b64_scan 0 0 0 cs)"
proof -
  have "m * 16 + k < 64" "m2 * 4 + j < 64" using assms by simp_all
  with assms show ?thesis
    by (simp add: b64_char_plain b64_val_char option.map_comp o_def)
qed

lemma b64_scan_two:
  assumes "v1 < 64" and "m < 4"
  shows "b64_scan 0 0 0 [b64_char v1, b64_char (m * 16), CHR ''='', CHR ''=''] = Some [char_of (v1 * 4 + m)]"
  using assms by (simp add: b64_char_plain b64_val_char)

lemma b64_scan_three:
  assumes "v1 < 64" and "m < 4" and "k < 16" and "m2 < 16"
  shows "b64_scan 0 0 0 [b64_char v1, b64_char (m * 16 + k), b64_char (m2 * 4), CHR ''='']
    = Some [char_of (v1 * 4 + m), char_of (k * 16 + m2)]"
proof -
  have "m * 16 + k < 64" using assms by simp
  with assms show ?thesis by (simp add: b64_char_plain b64_val_char)
qed

lemma bytes_rejoined:
  "char_of (char_code a div 4 * 4 + char_code a mod 4) = a"
  "char_of (char_code a div 16 * 16 + char_code a mod 16) = a"
  "char_of (char_code a div 64 * 64 + char_code a mod 64) = a"
  by (simp_all only: div_mult_mod_eq char_of_code)

lemma b64_scan_encode: "b64_scan 0 0 0 (b64_encode s) = Some s"
proof (induction s rule: b64_encode.induct)
  case (2 a)
  show ?case by (simp only: b64_encode.simps b64_scan_two sextets bytes_rejoined)
next
  case (3 a b)
  show ?case by (simp only: b64_encode.simps b64_scan_three sextets bytes_rejoined)
next
  case (4 a b c rest)
  then show ?case by (simp only: b64_encode.simps b64_scan_group sextets bytes_rejoined) simp
qed simp

text \<open>The encoded text without its padding, and the padding the decoder puts back.\<close>

definition drop_padding :: "string \<Rightarrow> string" where
  "drop_padding s = rev (dropWhile (\<lambda>c. c = CHR ''='') (rev s))"

definition add_padding :: "string \<Rightarrow> string" where
  "add_padding s = s @ replicate (nat ((- int (length s)) mod 4)) CHR ''=''"

lemma drop_padding_append: "c \<noteq> CHR ''='' \<Longrightarrow> drop_padding (xs @ c # replicate n CHR ''='') = xs @ [c]"
  by (simp add: drop_padding_def dropWhile_append)

lemma drop_padding_Cons: "drop_padding ys \<noteq> [] \<Longrightarrow> drop_padding (x # ys) = x # drop_padding ys"
  by (simp add: drop_padding_def dropWhile_append)

lemma drop_padding_single: "c \<noteq> CHR ''='' \<Longrightarrow> drop_padding [c] = [c]"
  by (simp add: drop_padding_def)

lemma add_padding_group: "add_padding (a # b # c # e # s) = a # b # c # e # add_padding s"
proof -
  have "(- int (length s) - 4) mod 4 = (- int (length s)) mod 4" by presburger
  then show ?thesis by (simp add: add_padding_def algebra_simps)
qed

lemma padding_restored: "add_padding (drop_padding (b64_encode s)) = b64_encode s"
proof (induction s rule: b64_encode.induct)
  case 1
  show ?case by (simp add: drop_padding_def add_padding_def)
next
  case (2 a)
  have "drop_padding ([x] @ b64_char (char_code a mod 4 * 16) # replicate 2 CHR ''='') = [x, b64_char (char_code a mod 4 * 16)]" for x
    by (subst drop_padding_append) (simp_all add: b64_char_plain b64_bytes)
  then show ?case by (simp add: add_padding_def numeral_2_eq_2)
next
  case (3 a b)
  have "drop_padding ([x, y] @ b64_char (char_code b mod 16 * 4) # replicate 1 CHR ''='') = [x, y, b64_char (char_code b mod 16 * 4)]" for x y
    by (subst drop_padding_append) (simp_all add: b64_char_plain b64_bytes)
  then show ?case by (simp add: add_padding_def)
next
  case (4 a b c rest)
  let ?last = "b64_char (char_code c mod 64)"
  have l: "?last \<noteq> CHR ''=''" by (simp add: b64_char_plain)
  have "drop_padding (?last # b64_encode rest) = ?last # drop_padding (b64_encode rest)"
  proof (cases "drop_padding (b64_encode rest) = []")
    case True
    with 4 have "b64_encode rest = []" by (simp add: add_padding_def)
    with l show ?thesis by (simp add: drop_padding_single drop_padding_def)
  qed (rule drop_padding_Cons)
  with 4 show ?case by (simp add: drop_padding_Cons add_padding_group)
qed

lemma b64_char_ascii: "n < 64 \<Longrightarrow> char_code (b64_char n) < 128"
  by (simp add: b64_char_code) linarith

lemma b64_encode_ascii: "list_all (\<lambda>c. char_code c < 128) (b64_encode s)"
proof -
  have "char_code (CHR ''='') < 128" by (simp add: char_code_def)
  then show ?thesis by (induction s rule: b64_encode.induct) (simp_all add: b64_char_ascii b64_bytes)
qed

text \<open>What a client sends back without its padding decodes to the bytes that were encoded.\<close>

theorem base64_roundtrip: "b64_decode (add_padding (drop_padding (b64_encode s))) = Some s"
  by (simp add: padding_restored b64_decode_def b64_encode_ascii b64_scan_encode)

section \<open>Filters and the cursor\<close>

record list_env =
  le_codec :: codec
  le_dumps :: "pyval \<Rightarrow> string"
  le_iso :: "instant \<Rightarrow> string"
  le_from_iso :: "string \<Rightarrow> instant option"
  le_sha :: "string \<Rightarrow> string"
  le_handles_text :: "string dict option \<Rightarrow> string option"
  le_bad :: exc
  le_no_time :: exc
  le_clock :: instant

record list_filters =
  lf_origin :: "string option"
  lf_stage :: "string option"
  lf_search :: "string option"

definition normalize_search :: "string option \<Rightarrow> string option" where
  "normalize_search value =
     (let normalized = lower (join '' '' (split_ws (str_or value [])))
      in if normalized = [] then None else Some normalized)"

definition text_or_null :: "string option \<Rightarrow> pyval" where
  "text_or_null x = (case x of None \<Rightarrow> PNone | Some s \<Rightarrow> PStr s)"

definition cursor_fingerprint :: "list_env \<Rightarrow> list_filters \<Rightarrow> string" where
  "cursor_fingerprint env f = take 16 (le_sha env (le_dumps env (canonical (PDict [
     (''origin'', text_or_null (lf_origin f)),
     (''stage'', if str_truthy (lf_stage f) then text_or_null (lf_stage f) else PNone),
     (''search'', text_or_null (lf_search f))]))))"

definition cursor_payload :: "string \<Rightarrow> string \<Rightarrow> string \<Rightarrow> pyval" where
  "cursor_payload t i fp =
     PDict [(''created_at'', PStr t), (''id'', PStr i), (''fingerprint'', PStr fp)]"

definition encode_candidate_cursor :: "list_env \<Rightarrow> person \<Rightarrow> list_filters \<Rightarrow> exc + string" where
  "encode_candidate_cursor env p f =
     (case p_created_at p of
        None \<Rightarrow> Inl (le_no_time env)
      | Some t \<Rightarrow> Inr (drop_padding (b64_encode (le_dumps env
          (cursor_payload (le_iso env t) (p_id p) (cursor_fingerprint env f))))))"

text \<open>The time, the id and the fingerprint of a cursor; \<open>None\<close> when anything in the \<open>try\<close> block raises.\<close>

definition cursor_parts :: "list_env \<Rightarrow> string \<Rightarrow> (instant \<times> uuid \<times> string) option" where
  "cursor_parts env cursor =
     (case b64_decode (add_padding cursor) of
        None \<Rightarrow> None
      | Some bytes \<Rightarrow> (case cx_loads (le_codec env) bytes of
          Some (PDict d) \<Rightarrow>
            (case (dget d ''created_at'', dget d ''id'', dget d ''fingerprint'') of
               (Some t, Some i, Some fp) \<Rightarrow>
                 (case (le_from_iso env (py_str (le_codec env) t), parse_uuid (py_str (le_codec env) i)) of
                    (Some created_at, Some person_id) \<Rightarrow> Some (created_at, person_id, py_str (le_codec env) fp)
                  | _ \<Rightarrow> None)
             | _ \<Rightarrow> None)
        | _ \<Rightarrow> None))"

definition decode_candidate_cursor :: "list_env \<Rightarrow> string \<Rightarrow> list_filters \<Rightarrow> http_failure + (instant \<times> uuid)" where
  "decode_candidate_cursor env cursor f =
     (case cursor_parts env cursor of
        None \<Rightarrow> Inl (Http_Error 400 ''Invalid candidate cursor'')
      | Some (created_at, person_id, fp) \<Rightarrow>
          if fp \<noteq> cursor_fingerprint env f
          then Inl (Http_Error 400 ''Candidate cursor does not match filters'')
          else Inr (created_at, person_id))"

section \<open>The query\<close>

definition like_text :: "string \<Rightarrow> string option \<Rightarrow> bool" where
  "like_text pat v = (case v of None \<Rightarrow> False | Some s \<Rightarrow> sql_like pat (lower s))"

definition evidence_matches :: "string \<Rightarrow> observation \<times> source_snapshot \<Rightarrow> bool" where
  "evidence_matches pat r =
     (sql_like pat (lower (ob_object_value (fst r))) \<or> sql_like pat (lower (ob_predicate (fst r)))
      \<or> sql_like pat (lower (sn_source_type (snd r))) \<or> sql_like pat (lower (sn_uri (snd r))))"

definition search_matches :: "list_env \<Rightarrow> world \<Rightarrow> string \<Rightarrow> person \<Rightarrow> bool" where
  "search_matches env w search p =
     (let pat = ''%'' @ search @ ''%''
      in like_text pat (p_display_name p) \<or> sql_like pat (lower (p_stable_id p)) \<or> like_text pat (p_email p)
         \<or> like_text pat (le_handles_text env (p_handles p))
         \<or> like_text pat (map_option o_company_name (latest_opportunity_row (w_db w) (p_id p)))
         \<or> list_ex (evidence_matches pat) (evidence_rows_of w (p_id p)))"

definition candidate_matches :: "list_env \<Rightarrow> world \<Rightarrow> list_filters \<Rightarrow> person \<Rightarrow> bool" where
  "candidate_matches env w f p =
     (p_canonical p
      \<and> (case latest_opportunity_row (w_db w) (p_id p) of
           None \<Rightarrow> \<not> str_truthy (lf_origin f) \<and> \<not> str_truthy (lf_stage f)
         | Some x \<Rightarrow> (str_truthy (lf_origin f) \<longrightarrow> lf_origin f = Some (o_source_kind x))
             \<and> (str_truthy (lf_stage f) \<longrightarrow> lf_stage f = Some (o_lifecycle_state x)))
      \<and> (str_truthy (lf_search f) \<longrightarrow> search_matches env w (the (lf_search f)) p))"

text \<open>\<open>ORDER BY created_at DESC, id DESC\<close>; a NULL comes first, as PostgreSQL sorts it.\<close>

definition person_key :: "person \<Rightarrow> bool \<times> instant \<times> uuid" where
  "person_key p = (p_created_at p = None, case p_created_at p of None \<Rightarrow> 0 | Some t \<Rightarrow> t, p_id p)"

definition after_cursor :: "(instant \<times> uuid) option \<Rightarrow> person \<Rightarrow> bool" where
  "after_cursor cursor p =
     (case cursor of
        None \<Rightarrow> True
      | Some (t, i) \<Rightarrow> (case p_created_at p of
            None \<Rightarrow> False
          | Some c \<Rightarrow> c < t \<or> (c = t \<and> p_id p < i)))"

definition candidate_query :: "list_env \<Rightarrow> world \<Rightarrow> list_filters \<Rightarrow> (instant \<times> uuid) option \<Rightarrow> person list" where
  "candidate_query env w f cursor = rev (sort_key person_key
     (filter (\<lambda>p. candidate_matches env w f p \<and> after_cursor cursor p) (persons (w_db w))))"

section \<open>The handler\<close>

record list_request =
  lr_limit :: nat
  lr_cursor :: "string option"
  lr_search :: "string option"
  lr_q :: "string option"
  lr_version :: "string option"
  lr_origin :: "string option"
  lr_stage :: "string option"
  lr_accept :: "string option"

record candidate_page =
  pg_items :: "candidate_view list"
  pg_next_cursor :: "string option"
  pg_total_count :: nat
  pg_limit :: nat
  pg_search :: "string option"
  pg_filters :: "string dict"

datatype list_response = Bare "candidate_view list" | Page candidate_page

text \<open>The limits of the query parameters, which FastAPI checks before the handler runs.\<close>

definition list_query_ok :: "list_request \<Rightarrow> bool" where
  "list_query_ok q =
     (1 \<le> lr_limit q \<and> lr_limit q \<le> 200
      \<and> (case lr_search q of None \<Rightarrow> True | Some s \<Rightarrow> length s \<le> 200)
      \<and> (case lr_q q of None \<Rightarrow> True | Some s \<Rightarrow> length s \<le> 200)
      \<and> lr_version q \<in> {None, Some ''1'', Some ''v1''}
      \<and> lr_origin q \<in> {None, Some ''inbound'', Some ''outbound''}
      \<and> (case lr_stage q of None \<Rightarrow> True | Some s \<Rightarrow> s \<in> set lifecycle_stages))"

definition envelope_requested :: "list_request \<Rightarrow> bool" where
  "envelope_requested q =
     (lr_version q \<in> {Some ''1'', Some ''v1''}
      \<or> (case lr_accept q of None \<Rightarrow> False
         | Some a \<Rightarrow> contains a ''application/vnd.the-vc-brain.candidates.v1+json''))"

definition filters_of :: "list_request \<Rightarrow> list_filters" where
  "filters_of q = \<lparr>lf_origin = lr_origin q, lf_stage = lr_stage q,
     lf_search = normalize_search (case lr_search q of Some s \<Rightarrow> Some s | None \<Rightarrow> lr_q q)\<rparr>"

definition shown_filters :: "list_request \<Rightarrow> string dict" where
  "shown_filters q = concat (map (\<lambda>(k, v). if str_truthy v then [(k, the v)] else [])
     [(''origin'', lr_origin q), (''stage'', lr_stage q)])"

definition page_of :: "list_env \<Rightarrow> world \<Rightarrow> list_request \<Rightarrow> candidate_view list \<Rightarrow> string option \<Rightarrow> list_response" where
  "page_of env w q items next_cursor =
     (if envelope_requested q
      then Page \<lparr>pg_items = items, pg_next_cursor = next_cursor,
        pg_total_count = length (candidate_query env w (filters_of q) None), pg_limit = lr_limit q,
        pg_search = lf_search (filters_of q), pg_filters = shown_filters q\<rparr>
      else Bare items)"

definition start_after :: "list_env \<Rightarrow> list_request \<Rightarrow> http_failure + (instant \<times> uuid) option" where
  "start_after env q =
     (if str_truthy (lr_cursor q)
      then (case decode_candidate_cursor env (the (lr_cursor q)) (filters_of q) of Inl e \<Rightarrow> Inl e | Inr c \<Rightarrow> Inr (Some c))
      else Inr None)"

definition list_candidates :: "list_env \<Rightarrow> world \<Rightarrow> list_request \<Rightarrow> http_failure + list_response" where
  "list_candidates env w q =
     (case start_after env q of
        Inl e \<Rightarrow> Inl e
      | Inr cursor \<Rightarrow>
          (let rows = take (lr_limit q + 1) (candidate_query env w (filters_of q) cursor);
               has_next = lr_limit q < length rows;
               people = take (lr_limit q) rows
           in if people = [] then Inr (page_of env w q [] None)
              else (case each_ok (candidate_of (le_codec env) (le_bad env) (le_clock env) w) people of
                  Inl e \<Rightarrow> Inl (Unhandled e)
                | Inr items \<Rightarrow>
                    if envelope_requested q \<and> has_next
                    then (case encode_candidate_cursor env (last people) (filters_of q) of
                        Inl e \<Rightarrow> Inl (Unhandled e)
                      | Inr c \<Rightarrow> Inr (page_of env w q items (Some c)))
                    else Inr (page_of env w q items None))))"

section \<open>Cursors round trip\<close>

lemma cursor_parts_encoded:
  assumes "encode_candidate_cursor env p f = Inr c" and "p_created_at p = Some t"
    and "\<And>s i fp. cx_loads (le_codec env) (le_dumps env (cursor_payload s i fp)) = Some (cursor_payload s i fp)"
    and "\<And>s. le_from_iso env (le_iso env s) = Some s" and "parse_uuid (p_id p) = Some (p_id p)"
  shows "cursor_parts env c = Some (t, p_id p, cursor_fingerprint env f)"
proof -
  have c: "c = drop_padding (b64_encode (le_dumps env (cursor_payload (le_iso env t) (p_id p) (cursor_fingerprint env f))))"
    using assms(1,2) by (simp add: encode_candidate_cursor_def)
  show ?thesis
    unfolding cursor_parts_def c base64_roundtrip using assms(3-5)
    by (simp add: cursor_payload_def py_str_def)
qed

text \<open>
  C29. The cursor of a page decodes, under the filters it was made with, to the creation time and the id of the
  last person of that page; under filters with another fingerprint it is refused with status 400.
\<close>

theorem cursor_roundtrip:
  assumes "\<And>s i fp. cx_loads (le_codec env) (le_dumps env (cursor_payload s i fp)) = Some (cursor_payload s i fp)"
    and "\<And>s. le_from_iso env (le_iso env s) = Some s"
    and "p_created_at p = Some t" and "parse_uuid (p_id p) = Some (p_id p)"
  shows "\<exists>c. encode_candidate_cursor env p f = Inr c \<and> decode_candidate_cursor env c f = Inr (t, p_id p)
    \<and> (cursor_fingerprint env g \<noteq> cursor_fingerprint env f \<longrightarrow>
        decode_candidate_cursor env c g = Inl (Http_Error 400 ''Candidate cursor does not match filters''))"
proof -
  obtain c where c: "encode_candidate_cursor env p f = Inr c"
    using assms(3) by (simp add: encode_candidate_cursor_def)
  from cursor_parts_encoded [OF c assms(3,1,2,4)] c show ?thesis
    by (simp add: decode_candidate_cursor_def)
qed

section \<open>Pages\<close>

lemma query_after: "candidate_query env w f (Some c) = filter (after_cursor (Some c)) (candidate_query env w f None)"
proof -
  have "filter (\<lambda>p. candidate_matches env w f p \<and> after_cursor (Some c) p) (persons (w_db w)) =
      filter (after_cursor (Some c)) (filter (\<lambda>p. candidate_matches env w f p \<and> after_cursor None p) (persons (w_db w)))"
    by (auto simp: after_cursor_def [of None] intro: filter_cong)
  then show ?thesis by (simp only: candidate_query_def filter_sort flip: rev_filter)
qed

lemma filter_below:
  fixes key :: "'a \<Rightarrow> 'k :: linorder"
  assumes "sorted_wrt (\<lambda>x y. key y < key x) xs" and "k < length xs"
  shows "filter (\<lambda>y. key y < key (xs ! k)) xs = drop (Suc k) xs"
proof -
  have xs: "xs = take k xs @ xs ! k # drop (Suc k) xs" by (rule id_take_nth_drop [OF assms(2)])
  from assms(1) have w: "sorted_wrt (\<lambda>x y. key y < key x) (take k xs @ xs ! k # drop (Suc k) xs)"
    using xs by simp
  have above: "filter (\<lambda>y. key y < key (xs ! k)) (take k xs) = []"
    using w by (auto simp: sorted_wrt_append filter_empty_conv dest: order.asym)
  have below: "filter (\<lambda>y. key y < key (xs ! k)) (drop (Suc k) xs) = drop (Suc k) xs"
    using w by (auto simp: sorted_wrt_append filter_id_conv)
  show ?thesis
    by (subst (2) xs) (simp add: above below)
qed

lemma query_descending:
  assumes "distinct (map p_id (persons (w_db w)))"
  shows "sorted_wrt (\<lambda>x y. person_key y < person_key x) (candidate_query env w f None)"
proof -
  let ?xs = "sort_key person_key (filter (\<lambda>p. candidate_matches env w f p \<and> after_cursor None p) (persons (w_db w)))"
  have d: "distinct (map p_id ?xs)"
    using assms by (simp add: distinct_map inj_on_def)
  have "map p_id ?xs = map (\<lambda>k. snd (snd k)) (map person_key ?xs)"
    by (simp add: person_key_def)
  with d have "distinct (map (\<lambda>k. snd (snd k)) (map person_key ?xs))" by (simp only:)
  then have "distinct (map person_key ?xs)" by (rule distinct_map [THEN iffD1, THEN conjunct1])
  then have "sorted_wrt (<) (map person_key ?xs)" by (simp add: strict_sorted_iff del: distinct_map)
  then have "sorted_wrt (\<lambda>x y. person_key x < person_key y) ?xs" by (simp add: sorted_wrt_map)
  then show ?thesis
    by (simp add: candidate_query_def sorted_wrt_rev)
qed

lemma after_cursor_key:
  "p_created_at p \<noteq> None \<Longrightarrow> after_cursor (Some (t, i)) p \<longleftrightarrow> person_key p < (False, t, i)"
  by (auto simp: after_cursor_def person_key_def)

text \<open>The rows a request reads are those behind the cursor's row, whatever newer rows the table has got meanwhile.\<close>

lemma query_behind:
  assumes "distinct (map p_id (persons (w_db w)))"
    and "\<And>p. p \<in> set (candidate_query env w f None) \<Longrightarrow> p_created_at p \<noteq> None"
    and "map person_key (candidate_query env w f None) = fresh @ ks" and "k < length ks" and "ks ! k = (False, t, i)"
  shows "map person_key (candidate_query env w f (Some (t, i))) = drop (Suc k) ks"
proof -
  let ?xs = "candidate_query env w f None" and ?n = "length fresh + k"
  have len: "?n < length ?xs" using assms(3,4) by (metis length_append length_map nat_add_left_cancel_less)
  have key: "person_key (?xs ! ?n) = (False, t, i)"
    using assms(3-5) len by (metis nth_append_length_plus nth_map)
  have "candidate_query env w f (Some (t, i)) = filter (\<lambda>p. person_key p < person_key (?xs ! ?n)) ?xs"
    unfolding query_after key using assms(2) after_cursor_key by (intro filter_cong) auto
  also have "\<dots> = drop (Suc ?n) ?xs"
    by (rule filter_below [OF query_descending [OF assms(1)] len])
  finally show ?thesis by (simp add: assms(3) flip: drop_map)
qed

text \<open>A stored table the list can show: unique ids, and matching rows with a time, a canonical id and valid data.\<close>

fun is_failure :: "exc + 'a \<Rightarrow> bool" where
  "is_failure (Inl e) = True"
| "is_failure (Inr x) = False"

definition browsable :: "list_env \<Rightarrow> list_filters \<Rightarrow> world \<Rightarrow> bool" where
  "browsable env f w =
     (distinct (map p_id (persons (w_db w)))
      \<and> list_all (\<lambda>p. p_created_at p \<noteq> None \<and> parse_uuid (p_id p) = Some (p_id p)
          \<and> \<not> is_failure (candidate_of (le_codec env) (le_bad env) (le_clock env) w p))
        (candidate_query env w f None))"

lemma each_ok_total:
  assumes "\<And>x. x \<in> set xs \<Longrightarrow> \<not> is_failure (g x)"
  shows "\<exists>ys. each_ok g xs = Inr ys \<and> list_all2 (\<lambda>x y. g x = Inr y) xs ys"
  using assms
proof (induction xs)
  case (Cons x xs)
  then obtain ys where "each_ok g xs = Inr ys" "list_all2 (\<lambda>x y. g x = Inr y) xs ys" by auto
  moreover from Cons.prems [of x] obtain y where "g x = Inr y" by (cases "g x") auto
  ultimately show ?case by simp
qed simp

lemma candidate_of_id: "candidate_of cx bad clock w p = Inr v \<Longrightarrow> cv_id v = p_id p"
  by (auto simp: candidate_of_def Let_def split: sum.splits dest: map_person_InrD(5))

lemma candidates_ids: "list_all2 (\<lambda>p v. candidate_of cx bad clock w p = Inr v) ps vs \<Longrightarrow> map cv_id vs = map p_id ps"
  by (induction rule: list_all2_induct) (auto dest: candidate_of_id)

lemma filters_of_cursor [simp]: "filters_of (q\<lparr>lr_cursor := c\<rparr>) = filters_of q"
  "envelope_requested (q\<lparr>lr_cursor := c\<rparr>) = envelope_requested q"
  by (simp_all add: filters_of_def envelope_requested_def cong: option.case_cong)

lemma query_after_subset: "set (candidate_query env w f c) \<subseteq> set (candidate_query env w f None)"
  by (cases c) (auto simp: query_after)

text \<open>One request: the ids of the page, the total of all pages, and a cursor exactly when rows are left.\<close>

lemma list_page:
  assumes "start_after env q = Inr cursor" and "browsable env (filters_of q) w"
    and "envelope_requested q" and "0 < lr_limit q"
    and "rows = candidate_query env w (filters_of q) cursor"
  obtains pg where "list_candidates env w q = Inr (Page pg)"
    and "map cv_id (pg_items pg) = map p_id (take (lr_limit q) rows)"
    and "pg_total_count pg = length (candidate_query env w (filters_of q) None)"
    and "if length rows \<le> lr_limit q then pg_next_cursor pg = None
      else \<exists>c. pg_next_cursor pg = Some c
        \<and> encode_candidate_cursor env (rows ! (lr_limit q - 1)) (filters_of q) = Inr c"
proof (cases "rows = []")
  case True
  with assms(1,5) have "list_candidates env w q = Inr (page_of env w q [] None)"
    by (simp add: list_candidates_def)
  with True assms(3) that show ?thesis by (simp add: page_of_def)
next
  case False
  let ?people = "take (lr_limit q) rows"
  have sub: "set rows \<subseteq> set (candidate_query env w (filters_of q) None)"
    using assms(5) query_after_subset by simp
  then have "x \<in> set ?people \<Longrightarrow> \<not> is_failure (candidate_of (le_codec env) (le_bad env) (le_clock env) w x)" for x
    using assms(2) by (auto simp: browsable_def list_all_iff dest: in_set_takeD)
  with each_ok_total [of ?people "candidate_of (le_codec env) (le_bad env) (le_clock env) w"] obtain items where items:
    "each_ok (candidate_of (le_codec env) (le_bad env) (le_clock env) w) ?people = Inr items"
    "map cv_id items = map p_id ?people" by (auto dest: candidates_ids)
  have two: "take (lr_limit q) (take (lr_limit q + 1) rows) = ?people"
    "lr_limit q < length (take (lr_limit q + 1) rows) \<longleftrightarrow> lr_limit q < length rows" "?people \<noteq> []"
    using False assms(4) by auto
  note h = that
  show ?thesis
  proof (cases "lr_limit q < length rows")
    case True
    then have l: "last ?people = rows ! (lr_limit q - 1)"
      using assms(4) two(3) by (simp add: last_conv_nth)
    have "rows ! (lr_limit q - 1) \<in> set rows" using True by auto
    with sub assms(2) obtain t where "p_created_at (rows ! (lr_limit q - 1)) = Some t"
      by (auto simp: browsable_def list_all_iff)
    then obtain c where c: "encode_candidate_cursor env (rows ! (lr_limit q - 1)) (filters_of q) = Inr c"
      by (simp add: encode_candidate_cursor_def)
    have "list_candidates env w q = Inr (page_of env w q items (Some c))"
      unfolding list_candidates_def assms(1) using True two items(1) c l assms(3)
      by (simp add: Let_def flip: assms(5))
    with True items(2) c assms(3) h show ?thesis by (simp add: page_of_def)
  next
    case False
    have "list_candidates env w q = Inr (page_of env w q items None)"
      unfolding list_candidates_def assms(1) using False two items(1) assms(4)
      by (simp add: Let_def flip: assms(5))
    with False items(2) assms(3) h show ?thesis by (simp add: page_of_def)
  qed
qed

text \<open>A client that follows the cursors, each request answered from the table as it is then.\<close>

fun browse :: "list_env \<Rightarrow> list_request \<Rightarrow> world list \<Rightarrow> http_failure + candidate_view list" where
  "browse env q [] = Inr []"
| "browse env q (w # ws) =
     (case list_candidates env w q of
        Inl e \<Rightarrow> Inl e
      | Inr (Bare items) \<Rightarrow> Inr items
      | Inr (Page pg) \<Rightarrow>
          (case pg_next_cursor pg of
             None \<Rightarrow> Inr (pg_items pg)
           | Some c \<Rightarrow> (case browse env (q\<lparr>lr_cursor := Some c\<rparr>) ws of
                 Inl e \<Rightarrow> Inl e
               | Inr others \<Rightarrow> Inr (pg_items pg @ others))))"

definition readable_cursors :: "list_env \<Rightarrow> bool" where
  "readable_cursors env =
     ((\<forall>s i fp. cx_loads (le_codec env) (le_dumps env (cursor_payload s i fp)) = Some (cursor_payload s i fp)
        \<and> le_dumps env (cursor_payload s i fp) \<noteq> [])
      \<and> (\<forall>t. le_from_iso env (le_iso env t) = Some t))"

lemma encoded_nonempty: "x \<noteq> [] \<Longrightarrow> drop_padding (b64_encode x) \<noteq> []"
proof
  assume x: "x \<noteq> []" and "drop_padding (b64_encode x) = []"
  then have "b64_encode x = []" using padding_restored [of x] by (simp add: add_padding_def)
  with x show False by (cases x rule: b64_encode.cases) auto
qed

lemma start_after_encoded:
  assumes "readable_cursors env" and "encode_candidate_cursor env p (filters_of q) = Inr c"
    and "p_created_at p = Some t" and "parse_uuid (p_id p) = Some (p_id p)"
  shows "start_after env (q\<lparr>lr_cursor := Some c\<rparr>) = Inr (Some (t, p_id p))"
proof -
  have "c \<noteq> []"
    using assms(1-3) encoded_nonempty by (auto simp: encode_candidate_cursor_def readable_cursors_def)
  moreover have "decode_candidate_cursor env c (filters_of q) = Inr (t, p_id p)"
    using cursor_parts_encoded [OF assms(2,3) _ _ assms(4)] assms(1)
    by (simp add: decode_candidate_cursor_def readable_cursors_def)
  ultimately show ?thesis by (simp add: start_after_def)
qed

text \<open>One request in the middle of a walk over the people with keys \<open>ks\<close>.\<close>

lemma walk_step:
  assumes "browsable env (filters_of q) w" and "readable_cursors env" and "envelope_requested q" and "0 < lr_limit q"
    and "map person_key (candidate_query env w (filters_of q) None) = fresh @ ks"
    and "start_after env q = Inr cursor"
    and "map person_key (candidate_query env w (filters_of q) cursor) = drop n ks"
  shows "\<exists>pg. list_candidates env w q = Inr (Page pg)
    \<and> map cv_id (pg_items pg) = map (\<lambda>k. snd (snd k)) (take (lr_limit q) (drop n ks))
    \<and> (if length ks \<le> n + lr_limit q then pg_next_cursor pg = None
       else \<exists>c t i. pg_next_cursor pg = Some c \<and> ks ! (n + lr_limit q - 1) = (False, t, i)
          \<and> start_after env (q\<lparr>lr_cursor := Some c\<rparr>) = Inr (Some (t, i)))"
proof -
  let ?rows = "candidate_query env w (filters_of q) cursor"
  obtain pg where pg: "list_candidates env w q = Inr (Page pg)"
    "map cv_id (pg_items pg) = map p_id (take (lr_limit q) ?rows)"
    "pg_total_count pg = length (candidate_query env w (filters_of q) None)"
    "if length ?rows \<le> lr_limit q then pg_next_cursor pg = None
      else \<exists>c. pg_next_cursor pg = Some c
        \<and> encode_candidate_cursor env (?rows ! (lr_limit q - 1)) (filters_of q) = Inr c"
    by (rule list_page [OF assms(6,1,3,4) refl])
  have len: "length ?rows = length ks - n" using arg_cong [OF assms(7), of length] by simp
  have "map p_id (take (lr_limit q) ?rows) = map (\<lambda>k. snd (snd k)) (take (lr_limit q) (map person_key ?rows))"
    by (simp add: person_key_def take_map)
  with pg(2) have ids: "map cv_id (pg_items pg) = map (\<lambda>k. snd (snd k)) (take (lr_limit q) (drop n ks))"
    by (simp only: assms(7))
  show ?thesis
  proof (cases "length ks \<le> n + lr_limit q")
    case True
    with pg(1,4) ids len show ?thesis by simp
  next
    case False
    then have l: "lr_limit q < length ?rows" using len by simp
    let ?p = "?rows ! (lr_limit q - 1)"
    have "?p \<in> set ?rows" using l by auto
    then have mem: "?p \<in> set (candidate_query env w (filters_of q) None)" using query_after_subset by blast
    with assms(1) obtain t where t: "p_created_at ?p = Some t" "parse_uuid (p_id ?p) = Some (p_id ?p)"
      by (auto simp: browsable_def list_all_iff)
    have "person_key ?p = drop n ks ! (lr_limit q - 1)" using l by (simp flip: assms(7))
    also have "\<dots> = ks ! (n + lr_limit q - 1)" using assms(4) False by (simp add: add_diff_assoc2 nth_drop)
    finally have key: "ks ! (n + lr_limit q - 1) = (False, t, p_id ?p)" using t by (simp add: person_key_def)
    from pg(4) l obtain c where c: "pg_next_cursor pg = Some c"
      "encode_candidate_cursor env ?p (filters_of q) = Inr c" by auto
    from start_after_encoded [OF assms(2) c(2) t] key c(1) pg(1) ids False show ?thesis by auto
  qed
qed

lemma walk_rest:
  assumes "\<And>w. w \<in> set ws \<Longrightarrow> browsable env (filters_of q) w
      \<and> (\<exists>fresh. map person_key (candidate_query env w (filters_of q) None) = fresh @ ks)"
    and "readable_cursors env" and "envelope_requested q" and "0 < lr_limit q"
    and "start_after env q = Inr (Some (t, i))" and "ks ! k = (False, t, i)" and "k < length ks"
    and "length ks \<le> Suc k + lr_limit q * length ws"
  shows "\<exists>vs. browse env q ws = Inr vs \<and> map cv_id vs = map (\<lambda>x. snd (snd x)) (drop (Suc k) ks)"
  using assms
proof (induction ws arbitrary: q k t i)
  case Nil
  then show ?case by simp
next
  case (Cons w ws)
  obtain fresh where fresh: "map person_key (candidate_query env w (filters_of q) None) = fresh @ ks"
    and ok: "browsable env (filters_of q) w" using Cons.prems(1) by auto
  have rows: "map person_key (candidate_query env w (filters_of q) (Some (t, i))) = drop (Suc k) ks"
    by (rule query_behind [OF _ _ fresh Cons.prems(7,6)]) (use ok in \<open>auto simp: browsable_def list_all_iff\<close>)
  from walk_step [OF ok Cons.prems(2-4) fresh Cons.prems(5) rows] obtain pg where
    pg: "list_candidates env w q = Inr (Page pg)"
      "map cv_id (pg_items pg) = map (\<lambda>k. snd (snd k)) (take (lr_limit q) (drop (Suc k) ks))"
    and nxt: "if length ks \<le> Suc k + lr_limit q then pg_next_cursor pg = None
       else \<exists>c t i. pg_next_cursor pg = Some c \<and> ks ! (Suc k + lr_limit q - 1) = (False, t, i)
          \<and> start_after env (q\<lparr>lr_cursor := Some c\<rparr>) = Inr (Some (t, i))" by blast
  show ?case
  proof (cases "length ks \<le> Suc k + lr_limit q")
    case True
    with pg nxt show ?thesis by simp
  next
    case False
    with nxt obtain c t' i' where c: "pg_next_cursor pg = Some c" "ks ! (k + lr_limit q) = (False, t', i')"
      "start_after env (q\<lparr>lr_cursor := Some c\<rparr>) = Inr (Some (t', i'))" by auto
    have "\<exists>vs. browse env (q\<lparr>lr_cursor := Some c\<rparr>) ws = Inr vs
        \<and> map cv_id vs = map (\<lambda>x. snd (snd x)) (drop (Suc (k + lr_limit q)) ks)"
      by (rule Cons.IH [OF _ _ _ _ c(3,2)]) (use Cons.prems False in \<open>auto simp: algebra_simps\<close>)
    then obtain vs where vs: "browse env (q\<lparr>lr_cursor := Some c\<rparr>) ws = Inr vs"
      "map cv_id vs = map (\<lambda>x. snd (snd x)) (drop (Suc (k + lr_limit q)) ks)" by blast
    have "take (lr_limit q) (drop (Suc k) ks) @ drop (Suc (k + lr_limit q)) ks = drop (Suc k) ks"
      by (metis add.commute add_Suc append_take_drop_id drop_drop)
    with pg(2) vs(2) have "map cv_id (pg_items pg @ vs) = map (\<lambda>x. snd (snd x)) (drop (Suc k) ks)"
      by (metis map_append)
    with pg(1) c(1) vs(1) show ?thesis by simp
  qed
qed

text \<open>
  C12. A client that starts without a cursor and follows the cursors sees every person who matched at the
  first request exactly once, in the order of the list, whatever people are added in front of them in the
  meantime, and it needs no more requests than the list has pages.
\<close>

theorem browsing_sees_everyone_once:
  assumes "\<And>w. w \<in> set (w0 # ws) \<Longrightarrow> browsable env (filters_of q) w
      \<and> (\<exists>fresh. map person_key (candidate_query env w (filters_of q) None)
           = fresh @ map person_key (candidate_query env w0 (filters_of q) None))"
    and "readable_cursors env" and "envelope_requested q" and "0 < lr_limit q" and "lr_cursor q = None"
    and "length (candidate_query env w0 (filters_of q) None) \<le> lr_limit q * length (w0 # ws)"
  shows "\<exists>vs. browse env q (w0 # ws) = Inr vs
    \<and> map cv_id vs = map p_id (candidate_query env w0 (filters_of q) None)
    \<and> distinct (map cv_id vs)"
proof -
  let ?rows = "candidate_query env w0 (filters_of q) None"
  let ?ks = "map person_key ?rows"
  have ok: "browsable env (filters_of q) w0" using assms(1) by simp
  have start: "start_after env q = Inr None" using assms(5) by (simp add: start_after_def)
  have ids: "map (\<lambda>x. snd (snd x)) ?ks = map p_id ?rows" by (simp add: person_key_def)
  have dist: "distinct (map p_id ?rows)"
    using ok by (auto simp: browsable_def candidate_query_def distinct_map inj_on_def rev_map)
  from walk_step [OF ok assms(2-4), of "[]" ?ks None 0] start obtain pg where
    pg: "list_candidates env w0 q = Inr (Page pg)"
      "map cv_id (pg_items pg) = map (\<lambda>k. snd (snd k)) (take (lr_limit q) ?ks)"
    and nxt: "if length ?ks \<le> lr_limit q then pg_next_cursor pg = None
       else \<exists>c t i. pg_next_cursor pg = Some c \<and> ?ks ! (lr_limit q - 1) = (False, t, i)
          \<and> start_after env (q\<lparr>lr_cursor := Some c\<rparr>) = Inr (Some (t, i))" by (auto cong: if_cong)
  show ?thesis
  proof (cases "length ?ks \<le> lr_limit q")
    case True
    then have "map cv_id (pg_items pg) = map p_id ?rows" unfolding ids [symmetric] pg(2) by simp
    with True pg(1) nxt dist show ?thesis by simp
  next
    case False
    with nxt obtain c t i where c: "pg_next_cursor pg = Some c" "?ks ! (lr_limit q - 1) = (False, t, i)"
      "start_after env (q\<lparr>lr_cursor := Some c\<rparr>) = Inr (Some (t, i))" by auto
    have "\<exists>vs. browse env (q\<lparr>lr_cursor := Some c\<rparr>) ws = Inr vs
        \<and> map cv_id vs = map (\<lambda>x. snd (snd x)) (drop (Suc (lr_limit q - 1)) ?ks)"
      by (rule walk_rest [OF _ _ _ _ c(3,2)]) (use assms False in \<open>auto simp: algebra_simps\<close>)
    then obtain vs where vs: "browse env (q\<lparr>lr_cursor := Some c\<rparr>) ws = Inr vs"
      "map cv_id vs = map (\<lambda>x. snd (snd x)) (drop (lr_limit q) ?ks)" using assms(4) by auto
    have "map cv_id (pg_items pg @ vs) = map p_id ?rows"
      unfolding ids [symmetric] map_append pg(2) vs(2) by (metis append_take_drop_id map_append)
    with pg(1) c(1) vs(1) dist show ?thesis by simp
  qed
qed

section \<open>Sample runs\<close>

text \<open>A codec that writes each text with its length in front.\<close>

definition text_part :: "string \<Rightarrow> string" where
  "text_part s = replicate (length s) CHR ''x'' @ ''|'' @ s"

definition read_part :: "string \<Rightarrow> string \<times> string" where
  "read_part s = (let n = length (takeWhile (\<lambda>c. c = CHR ''x'') s); r = drop (n + 1) s in (take n r, drop n r))"

definition part_dumps :: "pyval \<Rightarrow> string" where
  "part_dumps v = (case v of PDict d \<Rightarrow> concat (map (\<lambda>kv. case snd kv of PStr s \<Rightarrow> text_part s | _ \<Rightarrow> ''-'') d) | _ \<Rightarrow> ''-'')"

definition part_loads :: "string \<Rightarrow> pyval option" where
  "part_loads s =
     (let (t, r) = read_part s; (i, r) = read_part r; (fp, r) = read_part r in Some (cursor_payload t i fp))"

definition part_env :: list_env where
  "part_env = \<lparr>le_codec = \<lparr>cx_loads = part_loads, cx_dumps = part_dumps, cx_show = (\<lambda>v. []), cx_float = (\<lambda>s. None)\<rparr>,
     le_dumps = part_dumps,
     le_iso = (\<lambda>t. replicate (nat t) CHR ''p'' @ replicate (nat (- t)) CHR ''m''),
     le_from_iso = (\<lambda>s. Some (int (length (filter (\<lambda>c. c = CHR ''p'') s)) - int (length (filter (\<lambda>c. c = CHR ''m'') s)))),
     le_sha = (\<lambda>s. s), le_handles_text = (\<lambda>h. None), le_bad = invalid_data, le_no_time = invalid_data, le_clock = 0\<rparr>"

lemma read_text_part: "read_part (text_part s @ r) = (s, r)"
proof -
  have "takeWhile (\<lambda>c. c = CHR ''x'') (replicate (length s) CHR ''x'' @ CHR ''|'' # s @ r) = replicate (length s) CHR ''x''"
    by (subst takeWhile_append2) auto
  then show ?thesis by (simp add: read_part_def text_part_def Let_def)
qed

lemma part_env_reads: "cx_loads (le_codec part_env) (le_dumps part_env (cursor_payload s i fp)) = Some (cursor_payload s i fp)"
  using read_text_part [of fp "[]"]
  by (simp add: part_env_def part_dumps_def part_loads_def cursor_payload_def read_text_part)

lemma part_env_times: "le_from_iso part_env (le_iso part_env t) = Some t"
  by (simp add: part_env_def)

lemma part_env_readable: "readable_cursors part_env"
  unfolding readable_cursors_def using part_env_reads part_env_times
  by (simp add: part_env_def part_dumps_def cursor_payload_def text_part_def)

definition listed_person :: "uuid \<Rightarrow> instant \<Rightarrow> person" where
  "listed_person i t = sample_person\<lparr>p_id := i, p_created_at := Some t\<rparr>"

definition id_one :: uuid where "id_one = ''00000000-0000-0000-0000-000000000001''"
definition id_two :: uuid where "id_two = ''00000000-0000-0000-0000-000000000002''"
definition id_six :: uuid where "id_six = ''00000000-0000-0000-0000-000000000006''"

definition listed_world :: "person list \<Rightarrow> world" where
  "listed_world ps = \<lparr>w_db = empty_db\<lparr>persons := ps\<rparr>, w_snapshots = [], w_jobs = [], w_telemetry = [], w_objects = []\<rparr>"

definition first_page :: list_request where
  "first_page = \<lparr>lr_limit = 1, lr_cursor = None, lr_search = None, lr_q = None, lr_version = Some ''v1'',
     lr_origin = None, lr_stage = None, lr_accept = None\<rparr>"

definition two_people :: "person list" where
  "two_people = [listed_person id_one 10, listed_person id_two 10]"

definition three_people :: "person list" where
  "three_people = two_people @ [listed_person id_six 11]"

lemma canonical_ids:
  "parse_uuid id_one = Some id_one" "parse_uuid id_two = Some id_two" "parse_uuid id_six = Some id_six"
  unfolding id_one_def id_two_def id_six_def by code_simp+

lemma id_order: "id_one < id_two" "id_one < id_six" "id_two < id_six"
  unfolding id_one_def id_two_def id_six_def by code_simp+

lemma first_page_fields: "lr_limit first_page = 1" "lr_cursor first_page = None" "envelope_requested first_page"
  by (simp_all add: first_page_def envelope_requested_def)

lemma listed_shown: "\<not> is_failure (candidate_of cx bad clock (listed_world ps) p)"
  by (simp add: candidate_of_def Let_def listed_world_def empty_db_def sla_of_def latest_opportunity_row_def opportunities_of_def
      score_rows_of_def map_person_to_candidate_def merged_components_def person_components_def newest_snapshots_def
      opportunity_score_of_def newest_def opportunity_axis_def scores_of_def thesis_match_of_def checked_stage_def)

lemma listed_query:
  "candidate_query env (listed_world ps) (filters_of first_page) None = rev (sort_key person_key (filter p_canonical ps))"
  by (simp add: candidate_query_def candidate_matches_def listed_world_def empty_db_def latest_opportunity_row_def
      opportunities_of_def filters_of_def first_page_def normalize_search_def split_ws_def after_cursor_def)

lemma listed_key: "person_key (listed_person i t) = (False, t, i)" "p_canonical (listed_person i t)"
  "p_id (listed_person i t) = i" "p_created_at (listed_person i t) = Some t"
  by (simp_all add: person_key_def listed_person_def sample_person_def)

lemma listed_orders:
  "candidate_query env (listed_world two_people) (filters_of first_page) None = [listed_person id_two 10, listed_person id_one 10]"
  "candidate_query env (listed_world three_people) (filters_of first_page) None =
     [listed_person id_six 11, listed_person id_two 10, listed_person id_one 10]"
  unfolding listed_query using id_order
  by (simp_all add: two_people_def three_people_def listed_key order.asym less_imp_le not_le)

lemma listed_browsable:
  "browsable part_env (filters_of first_page) (listed_world two_people)"
  "browsable part_env (filters_of first_page) (listed_world three_people)"
  unfolding browsable_def listed_orders using id_order canonical_ids
  by (auto simp: listed_shown listed_key) (auto simp: listed_world_def two_people_def three_people_def listed_key)

theorem cursor_roundtrip_witness:
  "\<exists>c. encode_candidate_cursor part_env (listed_person id_one 10) (filters_of first_page) = Inr c
     \<and> decode_candidate_cursor part_env c (filters_of first_page) = Inr (10, id_one)"
  using cursor_roundtrip [where env = part_env and p = "listed_person id_one 10" and t = 10
      and f = "filters_of first_page", OF part_env_reads part_env_times] canonical_ids
  by (auto simp: listed_key)

text \<open>Somebody new arrives between the two requests.\<close>

theorem browsing_sees_everyone_once_witness:
  "\<exists>vs. browse part_env first_page [listed_world two_people, listed_world three_people] = Inr vs
     \<and> map cv_id vs = [id_two, id_one]"
proof -
  have fresh: "\<exists>fresh. map person_key (candidate_query part_env w (filters_of first_page) None)
      = fresh @ map person_key (candidate_query part_env (listed_world two_people) (filters_of first_page) None)"
    if "w \<in> set [listed_world two_people, listed_world three_people]" for w
    using that by (auto simp: listed_orders listed_key)
  have "\<exists>vs. browse part_env first_page [listed_world two_people, listed_world three_people] = Inr vs
      \<and> map cv_id vs = map p_id (candidate_query part_env (listed_world two_people) (filters_of first_page) None)
      \<and> distinct (map cv_id vs)"
    by (rule browsing_sees_everyone_once)
      (use fresh listed_browsable part_env_readable in
        \<open>auto simp: first_page_fields listed_orders\<close>)
  then show ?thesis by (auto simp: listed_orders listed_key)
qed

end
