(* ===== verification/Candidate_Read.thy ===== *)
theory Candidate_Read
  imports Candidate_View Outreach_Drafting
begin

text \<open>
  Three handlers of \<^verbatim>\<open>app/api/routes/candidates.py\<close> that change nothing: the drafting of an outreach
  email from stored evidence, the avatar picture and the latest memo of a deal.
\<close>

section \<open>Drafts\<close>

record draft_env =
  de_codec :: codec
  de_bad :: exc
  de_api_key :: string
  de_model :: string
  de_ask :: llm

record draft_payload =
  pl_email_type :: outreach_email_type
  pl_brief :: string

record draft_answer =
  dn_draft :: outreach_draft
  dn_recipient :: "string option"

text \<open>The \<open>max_length\<close> of the brief, which FastAPI checks before the handler runs.\<close>

definition draft_body_ok :: "draft_payload \<Rightarrow> bool" where
  "draft_body_ok body = (length (pl_brief body) \<le> 600)"

definition labelled :: "string \<Rightarrow> string option \<Rightarrow> string" where
  "labelled label v = (if str_truthy v then label @ '': '' @ the v else [])"

definition score_text :: "codec \<Rightarrow> real option \<Rightarrow> string" where
  "score_text cx r = py_str cx (case r of None \<Rightarrow> PNone | Some x \<Rightarrow> PFloat x)"

definition scores_line :: "codec \<Rightarrow> candidate_scores option \<Rightarrow> string" where
  "scores_line cx sc =
     (case sc of
        None \<Rightarrow> []
      | Some s \<Rightarrow> ''Independent scores: Founder='' @ score_text cx (sc_founder s) @ '', Market='' @
          score_text cx (sc_market s) @ '', Idea-Market='' @ score_text cx (sc_idea_market s))"

definition draft_evidence :: "codec \<Rightarrow> candidate_profile option \<Rightarrow> candidate_scores option \<Rightarrow> string" where
  "draft_evidence cx profile sc =
     (let field = (\<lambda>f. case profile of None \<Rightarrow> None | Some pf \<Rightarrow> f pf)
      in join newline (filter (\<lambda>item. item \<noteq> []) [labelled ''Role'' (field pf_role),
           labelled ''Location'' (field pf_location), labelled ''Summary'' (field pf_summary),
           labelled ''Website'' (field pf_website), scores_line cx sc]))"

definition draft_company :: "candidate_profile option \<Rightarrow> string" where
  "draft_company profile = str_or (case profile of None \<Rightarrow> None | Some pf \<Rightarrow> pf_company pf) ''the company''"

definition route_draft_request :: "draft_env \<Rightarrow> draft_payload \<Rightarrow> person \<Rightarrow> candidate_profile option
    \<Rightarrow> candidate_scores option \<Rightarrow> draft_request" where
  "route_draft_request env body p profile sc =
     \<lparr>dq_founder_name = str_or (p_display_name p) ''Founder'', dq_company = draft_company profile,
      dq_email_type = pl_email_type body, dq_brief = strip (pl_brief body),
      dq_evidence_summary = redact_direct_identifiers (draft_evidence (de_codec env) profile sc),
      dq_model = de_model env\<rparr>"

definition create_outreach_draft :: "draft_env \<Rightarrow> world \<Rightarrow> uuid \<Rightarrow> draft_payload \<Rightarrow> http_failure + draft_answer" where
  "create_outreach_draft env w cid body =
     (case active_person (w_db w) cid of
        None \<Rightarrow> Inl (Http_Error 404 ''Candidate not found'')
      | Some p \<Rightarrow>
          (let profile = profile_of w cid
           in case map_person_to_candidate (de_codec env) (de_bad env) p None None (score_rows_of (w_db w) cid)
                  None profile None None of
                Inl e \<Rightarrow> Inl (Unhandled e)
              | Inr candidate \<Rightarrow>
                  (let allowed = ai_allowed (external_ai_use_decision p ''outreach'');
                       draft = draft_outreach_email (de_codec env) (outreach_client (de_api_key env) (de_ask env) p)
                         (route_draft_request env body p profile (cv_scores candidate));
                       draft' = (if de_api_key env \<noteq> [] \<and> \<not> allowed
                         then draft\<lparr>dr_warning := Some
                           ''External AI drafting was blocked by privacy policy; a local template was used.''\<rparr>
                         else draft)
                   in Inr \<lparr>dn_draft = draft', dn_recipient = p_email p\<rparr>)))"

section \<open>The avatar\<close>

record avatar_answer =
  av_content :: "char list"
  av_media_type :: string
  av_headers :: "string dict"

definition get_candidate_avatar :: "db \<Rightarrow> uuid \<Rightarrow> http_failure + avatar_answer" where
  "get_candidate_avatar d cid =
     (case active_person d cid of
        None \<Rightarrow> Inl (Http_Error 404 ''Candidate avatar not found'')
      | Some p \<Rightarrow>
          (if \<not> str_truthy (p_avatar_data p) then Inl (Http_Error 404 ''Candidate avatar not found'')
           else Inr \<lparr>av_content = the (p_avatar_data p),
             av_media_type = str_or (p_avatar_mime_type p) ''image/jpeg'',
             av_headers = (''Cache-Control'', ''public, max-age=86400'')
               # (if str_truthy (p_avatar_sha256 p)
                  then [(''ETag'', [CHR 0x22] @ the (p_avatar_sha256 p) @ [CHR 0x22])] else [])\<rparr>))"

section \<open>The memo\<close>

record memo_answer =
  mr_sections :: "pyval list"
  mr_status :: string
  mr_generation_mode :: "string option"
  mr_model_version :: string

text \<open>The values the response model takes: a list of objects, one of four states, an optional text.\<close>

definition memo_sections_value :: "pyval option \<Rightarrow> pyval list option" where
  "memo_sections_value v =
     (case v of
        None \<Rightarrow> Some []
      | Some (PList xs) \<Rightarrow> if list_all (\<lambda>x. dict_value x \<noteq> None) xs then Some xs else None
      | _ \<Rightarrow> None)"

definition memo_mode_value :: "pyval option \<Rightarrow> string option option" where
  "memo_mode_value v =
     (case v of None \<Rightarrow> Some None | Some PNone \<Rightarrow> Some None | Some (PStr s) \<Rightarrow> Some (Some s) | _ \<Rightarrow> None)"

definition get_candidate_memo :: "exc \<Rightarrow> db \<Rightarrow> uuid \<Rightarrow> uuid \<Rightarrow> http_failure + memo_answer" where
  "get_candidate_memo bad d cid oid =
     (case newest_such (\<lambda>m. memo_opportunity_id m = oid \<and> list_ex (\<lambda>x. o_id x = oid) (opportunities_of d cid)) (memos d) of
        None \<Rightarrow> Inl (Http_Error 404 ''No memo found for this candidate'')
      | Some m \<Rightarrow>
          (case (memo_sections_value (dget (memo_sections m) ''sections''),
                 memo_mode_value (dget (memo_sections m) ''generation_mode'')) of
             (Some sections, Some mode) \<Rightarrow>
               if memo_status m \<in> {''pending'', ''failed'', ''degraded'', ''succeeded''}
               then Inr \<lparr>mr_sections = sections, mr_status = memo_status m, mr_generation_mode = mode,
                 mr_model_version = memo_model_version m\<rparr>
               else Inl (Unhandled bad)
           | _ \<Rightarrow> Inl (Unhandled bad)))"

section \<open>Properties\<close>

lemma draft_scores_no_market:
  assumes "map_person_to_candidate cx bad p None origin rows None profile stage sla = Inr v"
    and "cv_scores v = Some sc"
  shows "sc_market sc = None" and "sc_idea_market sc = None"
  using float_field_axis [OF scores_of_SomeD(5) [OF map_person_InrD(1) [OF assms(1), unfolded assms(2)]]]
    float_field_axis [OF scores_of_SomeD(6) [OF map_person_InrD(1) [OF assms(1), unfolded assms(2)]]]
  by (simp_all add: deal_axis_def)

lemma newest_such_SomeD: "newest_such P xs = Some x \<Longrightarrow> x \<in> set xs \<and> P x"
  by (auto simp: newest_such_def find_Some_iff rev_nth)

lemma memo_answer_of_deal:
  assumes "get_candidate_memo bad d cid oid = Inr r"
  shows "\<exists>m. m \<in> set (memos d) \<and> memo_opportunity_id m = oid \<and> mr_status r = memo_status m"
  using assms
  by (auto simp: get_candidate_memo_def split: option.splits if_splits dest!: newest_such_SomeD)

text \<open>
  A draft of the route is a template unless the person's purpose gate grants outreach and a key is
  configured, and the reader is told when only the gate stopped the model; the evidence it is written from
  never names a market score, whatever the scores of the deal are.
\<close>

theorem route_draft_respects_gate:
  assumes "create_outreach_draft env w cid body = Inr r"
  shows "\<exists>p. active_person (w_db w) cid = Some p \<and> dn_recipient r = p_email p
    \<and> (dr_generation_mode (dn_draft r) \<noteq> ''template'' \<longrightarrow>
        de_api_key env \<noteq> [] \<and> ai_allowed (external_ai_use_decision p ''outreach''))
    \<and> (de_api_key env \<noteq> [] \<and> \<not> ai_allowed (external_ai_use_decision p ''outreach'') \<longrightarrow>
        dr_generation_mode (dn_draft r) = ''template'' \<and> dr_warning (dn_draft r) \<noteq> None)
    \<and> (\<exists>sc. (sc = None \<or> sc_market (the sc) = None \<and> sc_idea_market (the sc) = None)
        \<and> dr_body (dn_draft r) = dr_body (draft_outreach_email (de_codec env)
             (outreach_client (de_api_key env) (de_ask env) p) (route_draft_request env body p (profile_of w cid) sc)))"
proof -
  obtain p v where p: "active_person (w_db w) cid = Some p"
    and v: "map_person_to_candidate (de_codec env) (de_bad env) p None None (score_rows_of (w_db w) cid)
        None (profile_of w cid) None None = Inr v"
    using assms by (auto simp: create_outreach_draft_def Let_def split: option.splits sum.splits)
  let ?d = "draft_outreach_email (de_codec env) (outreach_client (de_api_key env) (de_ask env) p)
      (route_draft_request env body p (profile_of w cid) (cv_scores v))"
  have r: "dn_recipient r = p_email p" "dr_generation_mode (dn_draft r) = dr_generation_mode ?d"
    "dr_body (dn_draft r) = dr_body ?d"
    "de_api_key env \<noteq> [] \<and> \<not> ai_allowed (external_ai_use_decision p ''outreach'') \<longrightarrow> dr_warning (dn_draft r) \<noteq> None"
    using assms p v by (auto simp: create_outreach_draft_def Let_def)
  have local: "dr_generation_mode (draft_outreach_email cx None q) = ''template''" for cx q
    by (simp add: draft_outreach_email_def Let_def template_draft_def case_prod_beta)
  have mode: "dr_generation_mode ?d = ''template''"
    if "de_api_key env = [] \<or> \<not> ai_allowed (external_ai_use_decision p ''outreach'')"
    using that local by (auto simp: outreach_client_def)
  have sc: "cv_scores v = None \<or> sc_market (the (cv_scores v)) = None \<and> sc_idea_market (the (cv_scores v)) = None"
    using draft_scores_no_market [OF v] by (cases "cv_scores v") auto
  show ?thesis
    by (rule exI [of _ p], intro conjI p r(1)) (use r mode sc in auto)
qed

definition draft_env0 :: "llm \<Rightarrow> codec \<Rightarrow> draft_env" where
  "draft_env0 ask cx = \<lparr>de_codec = cx, de_bad = invalid_data, de_api_key = ''key'', de_model = ''m'', de_ask = ask\<rparr>"

definition draft_world :: world where
  "draft_world = seen_world\<lparr>w_db := empty_db\<lparr>persons := [sample_person]\<rparr>\<rparr>"

lemma draft_world_person: "active_person (w_db draft_world) ''p1'' = Some sample_person"
  by (simp add: draft_world_def active_person_def get_row_def sample_person_def)

lemma draft_world_answer: "\<exists>r. create_outreach_draft (draft_env0 ask cx) draft_world ''p1'' body = Inr r"
proof -
  have "score_rows_of (w_db draft_world) ''p1'' = []"
    by (simp add: draft_world_def score_rows_of_def empty_db_def)
  then have "\<exists>v. map_person_to_candidate cx bad sample_person None None (score_rows_of (w_db draft_world) ''p1'')
      None profile None None = Inr v" for bad profile
    by (simp add: map_person_to_candidate_def merged_components_def person_components_def newest_snapshots_def
        opportunity_axis_def scores_of_def thesis_match_of_def checked_stage_def)
  then obtain v where "map_person_to_candidate cx invalid_data sample_person None None
      (score_rows_of (w_db draft_world) ''p1'') None (profile_of draft_world ''p1'') None None = Inr v" by blast
  then show ?thesis
    by (simp add: create_outreach_draft_def draft_world_person draft_env0_def Let_def)
qed

theorem route_draft_respects_gate_witness:
  "\<forall>ask cx. \<exists>r. create_outreach_draft (draft_env0 ask cx) draft_world ''p1'' \<lparr>pl_email_type = Request_Deck, pl_brief = []\<rparr> = Inr r
     \<and> dr_generation_mode (dn_draft r) = ''template'' \<and> dr_warning (dn_draft r) \<noteq> None"
proof (intro allI)
  fix ask cx
  obtain r where r: "create_outreach_draft (draft_env0 ask cx) draft_world ''p1''
      \<lparr>pl_email_type = Request_Deck, pl_brief = []\<rparr> = Inr r" using draft_world_answer by blast
  have "\<not> ai_allowed (external_ai_use_decision sample_person ''outreach'')" by code_simp
  with route_draft_respects_gate [OF r] r show "\<exists>r. create_outreach_draft (draft_env0 ask cx) draft_world ''p1''
      \<lparr>pl_email_type = Request_Deck, pl_brief = []\<rparr> = Inr r
     \<and> dr_generation_mode (dn_draft r) = ''template'' \<and> dr_warning (dn_draft r) \<noteq> None"
    by (auto simp: draft_world_person draft_env0_def)
qed

end
