(* ===== verification/Thesis_Route.thy ===== *)
theory Thesis_Route
  imports Thesis_Scoring Collection_Store Route_Contract
begin

text \<open>
  The investment thesis routes of \<^verbatim>\<open>app/api/routes/theses.py\<close>: checking a mandate, generating its search
  queries, storing it as the next immutable version, activating it and rescoring everybody. A request the
  model validator refuses is answered with status 422 before the handler runs.
\<close>

section \<open>The request\<close>

record thesis_request =
  tq_name :: string
  tq_stages :: "string list"
  tq_sectors :: "string list"
  tq_excluded_sectors :: "string list"
  tq_regions :: "string list"
  tq_check_min :: "real option"
  tq_check_max :: "real option"
  tq_ownership :: "real option"
  tq_risk_appetite :: string
  tq_weights :: "real dict"
  tq_queries :: "string list"
  tq_freshness :: "int dict"

definition stage_literals :: "string list" where
  "stage_literals = [''pre-seed'', ''seed'', ''series-a'', ''series-b'', ''series-c'']"

definition sector_literals :: "string list" where
  "sector_literals = [''ai'', ''deep-tech'', ''b2b'', ''climate'', ''fintech'', ''health'']"

definition region_literals :: "string list" where
  "region_literals = [''dach'', ''europe'', ''uk'', ''us'', ''global'']"

definition thesis_fields_ok :: "thesis_request \<Rightarrow> bool" where
  "thesis_fields_ok q =
     (2 \<le> length (tq_name q) \<and> length (tq_name q) \<le> 255
      \<and> tq_stages q \<noteq> [] \<and> list_all (\<lambda>s. s \<in> set stage_literals) (tq_stages q)
      \<and> tq_sectors q \<noteq> [] \<and> list_all (\<lambda>s. s \<in> set sector_literals) (tq_sectors q)
      \<and> list_all (\<lambda>s. s \<in> set sector_literals) (tq_excluded_sectors q)
      \<and> tq_regions q \<noteq> [] \<and> list_all (\<lambda>s. s \<in> set region_literals) (tq_regions q)
      \<and> (case tq_check_min q of None \<Rightarrow> True | Some x \<Rightarrow> 0 \<le> x)
      \<and> (case tq_check_max q of None \<Rightarrow> True | Some x \<Rightarrow> 0 \<le> x)
      \<and> (case tq_ownership q of None \<Rightarrow> True | Some x \<Rightarrow> 0 \<le> x \<and> x \<le> 100)
      \<and> tq_risk_appetite q \<in> {''conservative'', ''balanced'', ''bold''})"

definition quoted_list :: "string list \<Rightarrow> string" where
  "quoted_list xs = ''['' @ join '', '' (map (\<lambda>x. [CHR 39] @ x @ [CHR 39]) xs) @ '']''"

text \<open>What the validator says of a mandate, if anything.\<close>

definition thesis_fault :: "thesis_request \<Rightarrow> string option" where
  "thesis_fault q =
     (let overlap = filter (\<lambda>s. s \<in> set (tq_excluded_sectors q)) (tq_sectors q)
      in if (case (tq_check_min q, tq_check_max q) of (Some a, Some b) \<Rightarrow> b < a | _ \<Rightarrow> False)
         then Some ''Minimum check size cannot exceed maximum check size''
         else if set (map fst (tq_weights q)) \<noteq> set (map fst default_weights)
         then Some (''Scoring weights must contain '' @ quoted_list (sort (map fst default_weights)))
         else if list_ex (\<lambda>w. w < 0) (map snd (tq_weights q)) then Some ''Scoring weights cannot be negative''
         else if sum_real (map snd (tq_weights q)) \<le> 0 then Some ''At least one scoring weight must be positive''
         else if overlap \<noteq> [] then Some (''Preferred and excluded sectors overlap: '' @ quoted_list (sort (remdups overlap)))
         else None)"

section \<open>Search queries\<close>

definition region_locations :: "string list dict" where
  "region_locations = [
     (''dach'', [''Berlin'', ''Munich'', ''Zurich'', ''Vienna'', ''Germany'', ''Switzerland'', ''Austria'']),
     (''europe'', [''London'', ''Paris'', ''Berlin'', ''Amsterdam'', ''Stockholm'', ''Europe'']),
     (''uk'', [''London'', ''Manchester'', ''Cambridge'', ''Oxford'', ''United Kingdom'']),
     (''us'', [''San Francisco'', ''New York'', ''Seattle'', ''Austin'', ''Boston'', ''United States'']),
     (''global'', [''San Francisco'', ''London'', ''Berlin'', ''New York'', ''Singapore''])]"

definition query_terms :: "string list dict" where
  "query_terms = [
     (''ai'', [''AI'', ''machine-learning'', ''deep-learning'']),
     (''deep-tech'', [''robotics'', ''quantum'', ''semiconductor'']),
     (''b2b'', [''SaaS'', ''B2B'', ''enterprise'']),
     (''climate'', [''climate-tech'', ''sustainability'']),
     (''fintech'', [''fintech'', ''blockchain'', ''crypto'']),
     (''health'', [''biotech'', ''digital-health''])]"

definition looked_up :: "string list dict \<Rightarrow> string list \<Rightarrow> string list" where
  "looked_up d ks = fromkeys (concat (map (\<lambda>k. case dget d k of None \<Rightarrow> [] | Some xs \<Rightarrow> xs) ks))"

definition generate_discovery_queries :: "string list \<Rightarrow> string list \<Rightarrow> string list" where
  "generate_discovery_queries regions sectors =
     (let found = looked_up region_locations regions;
          terms = looked_up query_terms sectors;
          locations = (if found = [] then [''Berlin'', ''London'', ''San Francisco''] else found)
      in if terms = [] then locations
         else take 20 (concat (map (\<lambda>loc. map (\<lambda>term. loc @ '' '' @ term) terms) locations)))"

section \<open>The registry of theses\<close>

record thesis_world =
  tw_db :: db
  tw_theses :: "investment_thesis list"

definition version_text :: "nat \<Rightarrow> string" where
  "version_text n = ''thesis-v'' @ pad_zeros 3 (nat_str n)"

definition deactivated :: "investment_thesis \<Rightarrow> investment_thesis" where
  "deactivated t = (if t_is_active t then t\<lparr>t_is_active := False\<rparr> else t)"

definition new_thesis :: "uuid \<Rightarrow> instant \<Rightarrow> nat \<Rightarrow> thesis_request \<Rightarrow> investment_thesis" where
  "new_thesis i now n q =
     (let regions = fromkeys (tq_regions q); sectors = fromkeys (tq_sectors q)
      in \<lparr>t_id = i, t_version = version_text n, t_name = tq_name q, t_is_active = True,
          t_stages = fromkeys (tq_stages q), t_sectors = sectors,
          t_excluded_sectors = fromkeys (tq_excluded_sectors q), t_regions = regions,
          t_check_min = tq_check_min q, t_check_max = tq_check_max q, t_ownership_target = tq_ownership q,
          t_risk_appetite = tq_risk_appetite q, t_scoring_weights = tq_weights q,
          t_discovery_queries = (if tq_queries q = [] then generate_discovery_queries regions sectors else tq_queries q),
          t_source_freshness_days = tq_freshness q, t_created_at = now\<rparr>)"

definition active_thesis :: "thesis_world \<Rightarrow> investment_thesis option" where
  "active_thesis w = newest t_created_at (filter t_is_active (tw_theses w))"

definition get_active_thesis :: "thesis_world \<Rightarrow> http_failure + investment_thesis" where
  "get_active_thesis w =
     (case active_thesis w of None \<Rightarrow> Inl (Http_Error 404 ''No active investment thesis'') | Some t \<Rightarrow> Inr t)"

text \<open>
  \<open>taken\<close> is the integrity error of the unique version column. The count and the update run in one
  transaction with the insert, so a refused insert leaves the old thesis active.
\<close>

definition save_active_thesis :: "exc \<Rightarrow> scoring_env \<Rightarrow> uuid \<Rightarrow> thesis_request \<Rightarrow> thesis_world
    \<Rightarrow> (http_failure + investment_thesis \<times> nat) \<times> thesis_world" where
  "save_active_thesis taken env i q w =
     (let th = new_thesis i (se_clock env) (length (tw_theses w) + 1) q
      in if t_version th \<in> t_version ` set (tw_theses w) then (Inl (Unhandled taken), w)
         else (case score_all_candidates env th (tw_db w) of (n, d) \<Rightarrow>
            (Inr (th, n), \<lparr>tw_db = d, tw_theses = map deactivated (tw_theses w) @ [th]\<rparr>)))"

definition post_thesis :: "exc \<Rightarrow> scoring_env \<Rightarrow> uuid \<Rightarrow> thesis_request \<Rightarrow> thesis_world
    \<Rightarrow> (http_failure + investment_thesis \<times> nat) \<times> thesis_world" where
  "post_thesis taken env i q w =
     (if \<not> thesis_fields_ok q then (Inl (Http_Error 422 ''Request validation failed''), w)
      else (case thesis_fault q of
          Some why \<Rightarrow> (Inl (Http_Error 422 why), w)
        | None \<Rightarrow> save_active_thesis taken env i q w))"

definition rescore_active_thesis :: "scoring_env \<Rightarrow> thesis_world \<Rightarrow> (http_failure + investment_thesis \<times> nat) \<times> thesis_world" where
  "rescore_active_thesis env w =
     (case active_thesis w of
        None \<Rightarrow> (Inl (Http_Error 404 ''No active investment thesis''), w)
      | Some th \<Rightarrow> (case score_all_candidates env th (tw_db w) of (n, d) \<Rightarrow> (Inr (th, n), w\<lparr>tw_db := d\<rparr>)))"

section \<open>Versions\<close>

lemma digits_from_zeros: "digits_from 0 (replicate n CHR ''0'' @ s) = digits_from 0 s"
  by (induction n) (simp_all add: is_digit_def digit_val_def char_code_def)

lemma version_text_inj: "version_text a = version_text b \<Longrightarrow> a = b"
proof -
  assume "version_text a = version_text b"
  then have "digits_from 0 (pad_zeros 3 (nat_str a)) = digits_from 0 (pad_zeros 3 (nat_str b))"
    by (simp add: version_text_def)
  then show "a = b" by (simp add: pad_zeros_def digits_from_zeros digits_from_nat_str)
qed

text \<open>Versions are numbered from one without a gap, and the last one alone is active.\<close>

definition registry_ok :: "investment_thesis list \<Rightarrow> bool" where
  "registry_ok ths =
     (map t_version ths = map version_text [1..<length ths + 1]
      \<and> filter t_is_active ths = (if ths = [] then [] else [last ths]))"

lemma deactivated_fields [simp]:
  "\<not> t_is_active (deactivated t)" "t_version (deactivated t) = t_version t"
  "deactivated t\<lparr>t_is_active := b\<rparr> = t\<lparr>t_is_active := b\<rparr>"
  by (simp_all add: deactivated_def)

lemma registry_fresh: "registry_ok ths \<Longrightarrow> version_text (length ths + 1) \<notin> t_version ` set ths"
proof
  assume "registry_ok ths" and "version_text (length ths + 1) \<in> t_version ` set ths"
  then have "version_text (length ths + 1) \<in> version_text ` set [1..<length ths + 1]"
    unfolding registry_ok_def by (metis set_map)
  then show False using version_text_inj by fastforce
qed

lemma new_thesis_fields [simp]: "t_version (new_thesis i now n q) = version_text n" "t_is_active (new_thesis i now n q)"
  by (simp_all add: new_thesis_def Let_def)

lemma registry_extended:
  assumes "registry_ok ths" and "t_version th = version_text (length ths + 1)" and "t_is_active th"
  shows "registry_ok (map deactivated ths @ [th])"
proof -
  have "map t_version (map deactivated ths) = map t_version ths" by simp
  with assms show ?thesis by (simp add: registry_ok_def filter_empty_conv)
qed

lemma active_of_registry: "registry_ok ths \<Longrightarrow> ths \<noteq> [] \<Longrightarrow> active_thesis \<lparr>tw_db = d, tw_theses = ths\<rparr> = Some (last ths)"
  by (simp add: registry_ok_def active_thesis_def newest_def)


definition sample_request :: thesis_request where
  "sample_request = \<lparr>tq_name = ''Early AI'', tq_stages = [''seed''], tq_sectors = [''ai''], tq_excluded_sectors = [],
     tq_regions = [''dach''], tq_check_min = None, tq_check_max = None, tq_ownership = Some 10,
     tq_risk_appetite = ''balanced'', tq_weights = default_weights, tq_queries = [''Berlin AI''], tq_freshness = []\<rparr>"

lemma sample_request_ok: "thesis_fields_ok sample_request" "thesis_fault sample_request = None"
  by (simp_all add: thesis_fields_ok_def thesis_fault_def sample_request_def default_weights_def sum_real_def
      stage_literals_def sector_literals_def region_literals_def)


text \<open>
  The first twenty combinations are taken location by location, so with two sectors the queries of a
  mandate for the German-speaking countries and the United States never leave the first region.
\<close>

theorem second_region_never_searched:
  "list_all (\<lambda>q. list_all (\<lambda>loc. \<not> startswith q loc) [''San Francisco'', ''New York'', ''Seattle'', ''Austin'', ''Boston'', ''United States''])
     (generate_discovery_queries [''dach'', ''us''] [''ai'', ''deep-tech''])
   \<and> length (generate_discovery_queries [''dach'', ''us''] [''ai'', ''deep-tech'']) = 20"
  by code_simp

end
