(* ===== verification/Source_Http.thy ===== *)
theory Source_Http
  imports Discovery_Jobs
begin

text \<open>
  What the connectors of \<^verbatim>\<open>app/collectors/sources\<close> share: the answer of a provider, decoded JSON read with
  \<open>get\<close> and \<open>for\<close>, and the material they build. A request is a function from its address and parameters to
  an answer or to the exception of the HTTP client. JSON text and the time of a run are given. A display
  hint that is not a text counts as empty, since the job uses it as \<open>display_hint or None\<close>.
\<close>

section \<open>Answers of a provider\<close>

record reply =
  rp_status :: int
  rp_json :: "exc + pyval"
  rp_text :: string
  rp_content :: "char list"
  rp_url :: string
  rp_headers :: "string dict"

record source_env =
  so_codec :: codec
  so_now :: string
  so_dumps :: "pyval \<Rightarrow> char list"
  so_get :: "string \<Rightarrow> pyval dict \<Rightarrow> exc + reply"

definition canonical_json_bytes :: "source_env \<Rightarrow> pyval \<Rightarrow> pyval" where
  "canonical_json_bytes env v = PBytes (so_dumps env (canonical v))"

section \<open>Decoded JSON\<close>

fun type_name :: "pyval \<Rightarrow> string" where
  "type_name PNone = ''NoneType''"
| "type_name (PBool b) = ''bool''"
| "type_name (PInt i) = ''int''"
| "type_name (PFloat r) = ''float''"
| "type_name (PStr s) = ''str''"
| "type_name (PBytes s) = ''bytes''"
| "type_name (PTime t) = ''datetime''"
| "type_name (PList xs) = ''list''"
| "type_name (PDict d) = ''dict''"
| "type_name (PObj c) = c"

definition attribute_error :: "pyval \<Rightarrow> string \<Rightarrow> exc" where
  "attribute_error v attr =
     other_error ''AttributeError'' (py_quote (type_name v) @ '' object has no attribute '' @ py_quote attr)"

definition type_error :: "string \<Rightarrow> exc" where
  "type_error text = other_error ''TypeError'' text"

definition and_then :: "exc + 'a \<Rightarrow> ('a \<Rightarrow> exc + 'b) \<Rightarrow> exc + 'b" where
  "and_then m f = (case m of Inl e \<Rightarrow> Inl e | Inr x \<Rightarrow> f x)"

text \<open>\<open>value.get(key, default)\<close> on a value of unknown type, and \<open>for item in value\<close>.\<close>

definition json_get :: "pyval \<Rightarrow> string \<Rightarrow> pyval \<Rightarrow> exc + pyval" where
  "json_get v k dflt = (case v of PDict d \<Rightarrow> Inr (get_or d k dflt) | _ \<Rightarrow> Inl (attribute_error v ''get''))"

definition json_iter :: "pyval \<Rightarrow> exc + pyval list" where
  "json_iter v =
     (case py_iter v of Inr xs \<Rightarrow> Inr xs
      | Inl _ \<Rightarrow> Inl (type_error (py_quote (type_name v) @ '' object is not iterable'')))"

text \<open>\<open>sum(...)\<close> of counts, which a provider gives as integers.\<close>

fun count_of :: "pyval \<Rightarrow> int option" where
  "count_of (PInt i) = Some i"
| "count_of (PBool b) = Some (if b then 1 else 0)"
| "count_of _ = None"

fun sum_counts :: "pyval list \<Rightarrow> exc + int" where
  "sum_counts [] = Inr 0"
| "sum_counts (v # vs) =
     (case count_of v of
        None \<Rightarrow> Inl (type_error (''unsupported operand type(s) for +: '' @ py_quote ''int'' @ '' and '' @ py_quote (type_name v)))
      | Some n \<Rightarrow> and_then (sum_counts vs) (\<lambda>m. Inr (n + m)))"

text \<open>\<open>sep.join(values)\<close>.\<close>

fun str_of :: "pyval \<Rightarrow> exc + string" where
  "str_of (PStr s) = Inr s"
| "str_of v = Inl (type_error (''sequence item: expected str instance, '' @ type_name v @ '' found''))"

definition join_values :: "string \<Rightarrow> pyval list \<Rightarrow> exc + string" where
  "join_values sep vs = and_then (each_ok str_of vs) (\<lambda>ss. Inr (join sep ss))"

text \<open>\<open>value[:n]\<close> of a text or list.\<close>

definition json_prefix :: "nat \<Rightarrow> pyval \<Rightarrow> exc + pyval" where
  "json_prefix n v =
     (case v of PStr s \<Rightarrow> Inr (PStr (take n s)) | PList xs \<Rightarrow> Inr (PList (take n xs))
      | _ \<Rightarrow> Inl (type_error (py_quote (type_name v) @ '' object is not subscriptable'')))"

section \<open>Seeds and observations\<close>

definition hint_text :: "pyval \<Rightarrow> string" where
  "hint_text v = (case v of PStr s \<Rightarrow> s | _ \<Rightarrow> [])"

definition new_seed :: "string \<Rightarrow> pyval \<Rightarrow> pyval \<Rightarrow> pyval dict \<Rightarrow> raw_seed option" where
  "new_seed source handle hint metadata = Some \<lparr>raw_source_type = PStr source, raw_handle = handle,
     raw_display_hint = hint_text hint, raw_metadata = PDict metadata\<rparr>"

definition sighting :: "source_env \<Rightarrow> string \<Rightarrow> pyval \<Rightarrow> real \<Rightarrow> pyval" where
  "sighting env predicate v confidence = PDict [(''predicate'', PStr predicate), (''object_value'', v),
     (''observed_at'', PStr (so_now env)), (''confidence'', PFloat confidence)]"

definition sighting_if :: "source_env \<Rightarrow> string \<Rightarrow> pyval \<Rightarrow> real \<Rightarrow> pyval list" where
  "sighting_if env predicate v confidence = (if py_truthy v then [sighting env predicate v confidence] else [])"

definition json_material :: "source_env \<Rightarrow> pyval \<Rightarrow> pyval list \<Rightarrow> string \<Rightarrow> string \<Rightarrow> pyval dict \<Rightarrow> raw_collected" where
  "json_material env payload rows source uri hint =
     \<lparr>rc_content = canonical_json_bytes env payload, rc_content_type = PStr ''application/json'',
      rc_observations = PList rows, rc_source_type = PStr source, rc_uri = PStr uri, rc_license_hint = PDict hint\<rparr>"

text \<open>A search answered with JSON: the errors every connector reports the same way.\<close>

definition decoded_list :: "string \<Rightarrow> string \<Rightarrow> reply \<Rightarrow> exc + pyval list" where
  "decoded_list ctx field r =
     (case rp_json r of
        Inl e \<Rightarrow> Inl (normalize_connector_error e (ctx @ '': invalid provider response''))
      | Inr (PDict d) \<Rightarrow>
          (case dget d field of
             Some (PList items) \<Rightarrow> Inr items
           | _ \<Rightarrow> Inl (contract_error (ctx @ '': invalid provider response: missing '' @ field)))
      | Inr _ \<Rightarrow> Inl (contract_error (ctx @ '': invalid provider response: missing '' @ field)))"

section \<open>Lemmas\<close>

lemma and_then_simps [simp]: "and_then (Inl e) f = Inl e" "and_then (Inr x) f = f x"
  by (simp_all add: and_then_def)

lemma and_then_InrD: "and_then m f = Inr y \<Longrightarrow> \<exists>x. m = Inr x \<and> f x = Inr y"
  by (cases m) simp_all

lemma each_ok_InrD: "each_ok f xs = Inr ys \<Longrightarrow> list_all2 (\<lambda>x y. f x = Inr y) xs ys"
  by (induction xs arbitrary: ys) (auto split: sum.splits)

lemma each_ok_length: "each_ok f xs = Inr ys \<Longrightarrow> length ys = length xs"
  using each_ok_InrD list_all2_lengthD by metis

lemma str_of_InrD: "str_of v = Inr s \<Longrightarrow> v = PStr s"
  by (cases v) auto

text \<open>An observation built by a connector is refused exactly for its value.\<close>

definition text_ok :: "pyval \<Rightarrow> bool" where
  "text_ok v = (text_value v \<noteq> None)"

lemma text_ok_simps [simp]: "text_ok (PStr s) \<longleftrightarrow> strip s \<noteq> []"
  "\<not> text_ok PNone" "\<not> text_ok (PInt i)" "\<not> text_ok (PList xs)" "\<not> text_ok (PDict d)" "\<not> text_ok (PBool q)"
  "\<not> text_ok (PFloat r)" "\<not> text_ok (PBytes b)" "\<not> text_ok (PTime t)" "\<not> text_ok (PObj c)"
  by (simp_all add: text_ok_def)

lemma sighting_fault:
  assumes "strip predicate \<noteq> []" and "parse (so_now env) \<noteq> None" and "strip (so_now env) \<noteq> []"
  shows "(\<exists>d. dict_value (sighting env predicate v c) = Some d \<and> observation_fault parse d = None) \<longleftrightarrow> text_ok v"
  using assms by (cases v) (auto simp: sighting_def observation_fault_def Let_def)

lemma validate_observations_iff:
  "(\<exists>ds. validate_observations parse xs = Inr ds) \<longleftrightarrow>
     (\<forall>x \<in> set xs. \<exists>d. dict_value x = Some d \<and> observation_fault parse d = None)"
proof (induction xs)
  case (Cons x xs)
  show ?case
  proof (cases "dict_value x")
    case None
    then show ?thesis by simp
  next
    case (Some d)
    then show ?thesis using Cons
      by (cases "observation_fault parse d"; cases "validate_observations parse xs") auto
  qed
qed simp

lemma sighting_if_ok:
  fixes parse :: "string \<Rightarrow> instant option"
  assumes "strip predicate \<noteq> []" and "parse (so_now env) \<noteq> None" and "strip (so_now env) \<noteq> []"
  shows "(\<forall>x \<in> set (sighting_if env predicate v c). \<exists>d. dict_value x = Some d \<and> observation_fault parse d = None)
    \<longleftrightarrow> (py_truthy v \<longrightarrow> text_ok v)"
  using sighting_fault [where parse = parse, OF assms] by (simp add: sighting_if_def)

lemma material_accepted:
  assumes "so_dumps env (canonical payload) \<noteq> []" and "strip source \<noteq> []" and "strip uri \<noteq> []"
  shows "(\<exists>co. validate_collected parse (json_material env payload rows source uri hint) = Inr co) \<longleftrightarrow>
    (\<forall>x \<in> set rows. \<exists>d. dict_value x = Some d \<and> observation_fault parse d = None)"
proof -
  have "strip ''application/json'' \<noteq> []" by code_simp
  with assms show ?thesis
    unfolding validate_observations_iff [symmetric]
    by (auto simp: validate_collected_def json_material_def canonical_json_bytes_def split: sum.splits)
qed

lemma blank_iff: "strip s = [] \<longleftrightarrow> (\<forall>c \<in> set s. is_space c)"
proof -
  have "(\<forall>c \<in> set (dropWhile is_space s). is_space c) \<longleftrightarrow> (\<forall>c \<in> set s. is_space c)"
    by (induction s) auto
  then show ?thesis by (simp add: strip_def rstrip_def lstrip_def dropWhile_eq_Nil_conv)
qed

lemma nat_str_not_blank [simp]: "strip (nat_str n) \<noteq> []"
proof -
  obtain c where "c \<in> set (nat_str n)" using nat_str_ne [of n] by (cases "nat_str n") auto
  moreover have "is_digit c \<Longrightarrow> \<not> is_space c" for c by (simp add: is_digit_def is_space_def Let_def)
  ultimately show ?thesis using nat_str_digits [of n] by (auto simp: blank_iff)
qed

lemma int_str_not_blank [simp]: "strip (int_str i) \<noteq> []"
proof (cases "i < 0")
  case True
  have "\<not> is_space CHR ''-''" by (simp add: is_space_def char_code_def Let_def)
  with True show ?thesis by (auto simp: int_str_def blank_iff)
qed (simp add: int_str_def)

end
