(* ===== verification/Github_Source.thy ===== *)
theory Github_Source
  imports Source_Http
begin

text \<open>
  The GitHub connector, \<^verbatim>\<open>app/collectors/sources/github.py\<close>: a user search gives seeds, a profile with its
  repositories (deep: organisations and a README too) gives the material of a person.
\<close>

section \<open>Discovery\<close>

definition github_api :: string where "github_api = ''https://api.github.com''"

definition github_seed :: "string \<Rightarrow> pyval \<Rightarrow> exc + raw_seed option list" where
  "github_seed query item =
     and_then (json_get item ''login'' (PStr [])) (\<lambda>login.
       if py_truthy login
       then and_then (json_get item ''id'' PNone) (\<lambda>i.
         Inr [new_seed ''github'' login login [(''query'', PStr query), (''gh_id'', i)]])
       else Inr [])"

definition github_discover :: "source_env \<Rightarrow> string \<Rightarrow> int \<Rightarrow> exc + discovered" where
  "github_discover env query page =
     (case so_get env (github_api @ ''/search/users'')
        [(''q'', PStr (''location:'' @ query @ '' type:user repos:>0'')), (''per_page'', PInt 30), (''page'', PInt page)] of
        Inl e \<Rightarrow> Inl (normalize_connector_error e ''github_search_failed'')
      | Inr r \<Rightarrow>
          if rp_status r = 403 then Inl (contract_error ''github_rate_limited: HTTP 403'')
          else if rp_status r \<noteq> 200 then Inl (contract_error (''github_search_failed: HTTP '' @ int_str (rp_status r)))
          else and_then (decoded_list ''github_search_failed'' ''items'' r) (\<lambda>items.
            and_then (each_ok (github_seed query) items) (\<lambda>seeds. Inr (Seed_List (concat seeds)))))"

section \<open>Collection\<close>

text \<open>A present field of the profile, the predicate it becomes and its confidence.\<close>

definition github_fields :: "(string \<times> string \<times> real) list" where
  "github_fields = [(''name'', ''display_name'', 9 / 10), (''bio'', ''bio'', 8 / 10), (''location'', ''location'', 7 / 10),
     (''blog'', ''blog_url'', 9 / 10), (''company'', ''company'', 7 / 10), (''twitter_username'', ''twitter_handle'', 9 / 10)]"

definition github_user_rows :: "source_env \<Rightarrow> string \<Rightarrow> pyval dict \<Rightarrow> pyval list" where
  "github_user_rows env login user = sighting env ''github_login'' (PStr login) 1
     # concat (map (\<lambda>(k, predicate, c). sighting_if env predicate (get_or user k PNone) c) github_fields)"

definition json_sized :: "pyval \<Rightarrow> exc + pyval list" where
  "json_sized v = (case py_iter v of Inr xs \<Rightarrow> Inr xs
     | Inl _ \<Rightarrow> Inl (type_error (''object of type '' @ py_quote (type_name v) @ '' has no len()'')))"

definition github_languages :: "pyval list \<Rightarrow> exc + string" where
  "github_languages repos =
     and_then (each_ok (\<lambda>r. json_get r ''language'' PNone) repos) (\<lambda>langs.
     and_then (each_ok str_of (filter py_truthy langs)) (\<lambda>names. Inr (join '','' (sort (remdups names)))))"

definition github_repo_rows :: "source_env \<Rightarrow> pyval list \<Rightarrow> exc + pyval list" where
  "github_repo_rows env repos =
     and_then (each_ok (\<lambda>r. json_get r ''stargazers_count'' (PInt 0)) repos) (\<lambda>stars.
     and_then (sum_counts stars) (\<lambda>total.
     and_then (github_languages repos) (\<lambda>languages.
       Inr [sighting env ''github_public_repos'' (PStr (nat_str (length repos))) 1,
            sighting env ''github_total_stars'' (PStr (int_str total)) 1,
            sighting env ''github_languages'' (PStr languages) (9 / 10)])))"

definition github_org_names :: "pyval \<Rightarrow> exc + string" where
  "github_org_names orgs =
     and_then (json_iter orgs) (\<lambda>items.
     and_then (each_ok (\<lambda>x. json_get x ''login'' PNone) items) (\<lambda>logins.
       join_values '','' (filter py_truthy logins)))"

definition github_org_rows :: "source_env \<Rightarrow> string \<Rightarrow> exc + pyval list" where
  "github_org_rows env login =
     and_then (so_get env (github_api @ ''/users/'' @ login @ ''/orgs'') []) (\<lambda>r.
       if rp_status r \<noteq> 200 then Inr []
       else and_then (rp_json r) (\<lambda>orgs.
         and_then (github_org_names orgs) (\<lambda>names. Inr [sighting env ''github_orgs'' (PStr names) (9 / 10)])))"

definition github_readme_rows :: "source_env \<Rightarrow> string \<Rightarrow> pyval list \<Rightarrow> exc + pyval list" where
  "github_readme_rows env login repos =
     (case repos of
        [] \<Rightarrow> Inr []
      | first_repo # _ \<Rightarrow>
          and_then (json_get first_repo ''owner'' (PDict [])) (\<lambda>owner.
          and_then (json_get owner ''login'' (PStr login)) (\<lambda>owner_login.
          and_then (json_get first_repo ''name'' (PStr [])) (\<lambda>name.
          and_then (so_get env (github_api @ ''/repos/'' @ py_str (so_codec env) owner_login @ ''/''
              @ py_str (so_codec env) name @ ''/readme'') [(''Accept'', PStr ''application/vnd.github.v3.raw'')]) (\<lambda>r.
            Inr (if rp_status r = 200
              then [sighting env ''github_top_repo_readme'' (PStr (take 5000 (rp_text r))) (8 / 10)] else []))))))"

definition github_deep_rows :: "source_env \<Rightarrow> string \<Rightarrow> string \<Rightarrow> pyval list \<Rightarrow> exc + pyval list" where
  "github_deep_rows env login depth repos =
     (if depth \<noteq> ''deep'' then Inr []
      else and_then (github_org_rows env login) (\<lambda>orgs.
           and_then (github_readme_rows env login repos) (\<lambda>readme. Inr (orgs @ readme))))"

definition github_repos :: "source_env \<Rightarrow> string \<Rightarrow> string \<Rightarrow> exc + pyval" where
  "github_repos env login depth =
     and_then (so_get env (github_api @ ''/users/'' @ login @ ''/repos'') [(''sort'', PStr ''stars''),
         (''per_page'', PInt (if depth = ''deep'' then 50 else 30)), (''type'', PStr ''owner'')]) (\<lambda>r.
       if rp_status r = 200 then rp_json r else Inr (PList []))"

definition github_user :: "source_env \<Rightarrow> string \<Rightarrow> exc + pyval dict" where
  "github_user env login =
     and_then (so_get env (github_api @ ''/users/'' @ login) []) (\<lambda>r.
       if rp_status r \<noteq> 200 then Inl (contract_error (''github_user_fetch_failed: '' @ int_str (rp_status r)))
       else and_then (rp_json r) (\<lambda>v. case v of PDict d \<Rightarrow> Inr d | _ \<Rightarrow> Inl (attribute_error v ''get'')))"

definition github_collect :: "source_env \<Rightarrow> seed \<Rightarrow> string \<Rightarrow> exc + raw_collected" where
  "github_collect env sd depth =
     (let login = sd_handle sd
      in and_then (github_user env login) (\<lambda>user.
         and_then (github_repos env login depth) (\<lambda>repos.
         and_then (json_sized repos) (\<lambda>items.
         and_then (github_repo_rows env items) (\<lambda>repo_rows.
         and_then (github_deep_rows env login depth items) (\<lambda>deep_rows.
           Inr (json_material env (PDict [(''user'', PDict user), (''repos'', repos)])
             (github_user_rows env login user @ repo_rows @ deep_rows) ''github'' (''https://github.com/'' @ login)
             [(''source'', PStr ''GitHub API''), (''terms'', PStr ''https://docs.github.com/en/rest'')])))))))"

section \<open>What the contract makes of it\<close>

text \<open>The present fields of a profile are texts that are not blank.\<close>

definition profile_texts_ok :: "pyval dict \<Rightarrow> bool" where
  "profile_texts_ok user =
     list_all (\<lambda>(k, p, c). py_truthy (get_or user k PNone) \<longrightarrow> text_ok (get_or user k PNone)) github_fields"

lemma predicates_not_blank:
  "strip ''github_login'' \<noteq> []" "strip ''display_name'' \<noteq> []" "strip ''bio'' \<noteq> []" "strip ''location'' \<noteq> []"
  "strip ''blog_url'' \<noteq> []" "strip ''company'' \<noteq> []" "strip ''twitter_handle'' \<noteq> []"
  "strip ''github_public_repos'' \<noteq> []" "strip ''github_total_stars'' \<noteq> []" "strip ''github_languages'' \<noteq> []"
  "strip ''github_orgs'' \<noteq> []" "strip ''github_top_repo_readme'' \<noteq> []" "strip ''github'' \<noteq> []"
  by code_simp+

lemma prefixed_not_blank: "strip (''https://github.com/'' @ s) \<noteq> []"
proof -
  have "\<not> is_space CHR ''h''" by (simp add: is_space_def char_code_def Let_def)
  then show ?thesis by (auto simp: blank_iff)
qed

abbreviation (input) row_ok :: "(string \<Rightarrow> instant option) \<Rightarrow> pyval \<Rightarrow> bool" where
  "row_ok parse x \<equiv> (\<exists>d. dict_value x = Some d \<and> observation_fault parse d = None)"

lemma user_rows_ok:
  assumes "parse (so_now env) \<noteq> None" and "strip (so_now env) \<noteq> []"
  shows "(\<forall>x \<in> set (github_user_rows env login user). row_ok parse x) \<longleftrightarrow> strip login \<noteq> [] \<and> profile_texts_ok user"
  using sighting_fault [where parse = parse and env = env, OF _ assms]
    sighting_if_ok [where parse = parse and env = env, OF _ assms]
  by (simp add: github_user_rows_def github_fields_def profile_texts_ok_def predicates_not_blank ball_Un)

lemma github_collect_InrD:
  assumes "github_collect env sd depth = Inr raw"
  obtains user repos items repo_rows deep_rows where
    "github_user env (sd_handle sd) = Inr user" "github_repos env (sd_handle sd) depth = Inr repos"
    "json_sized repos = Inr items" "github_repo_rows env items = Inr repo_rows"
    "github_deep_rows env (sd_handle sd) depth items = Inr deep_rows"
    "raw = json_material env (PDict [(''user'', PDict user), (''repos'', repos)])
       (github_user_rows env (sd_handle sd) user @ repo_rows @ deep_rows) ''github'' (''https://github.com/'' @ sd_handle sd)
       [(''source'', PStr ''GitHub API''), (''terms'', PStr ''https://docs.github.com/en/rest'')]"
  using assms by (auto simp: github_collect_def Let_def dest!: and_then_InrD)

lemma repo_rows_ok:
  assumes "parse (so_now env) \<noteq> None" and "strip (so_now env) \<noteq> []" and "github_repo_rows env items = Inr rows"
  obtains languages where "github_languages items = Inr languages"
    and "(\<forall>x \<in> set rows. row_ok parse x) \<longleftrightarrow> strip languages \<noteq> []"
proof -
  obtain total languages where l: "github_languages items = Inr languages" and
    rows: "rows = [sighting env ''github_public_repos'' (PStr (nat_str (length items))) 1,
      sighting env ''github_total_stars'' (PStr (int_str total)) 1, sighting env ''github_languages'' (PStr languages) (9 / 10)]"
    using assms(3) by (auto simp: github_repo_rows_def dest!: and_then_InrD)
  have "(\<forall>x \<in> set rows. row_ok parse x) \<longleftrightarrow> strip languages \<noteq> []"
    using sighting_fault [where parse = parse and env = env, OF _ assms(1,2)]
    by (simp add: rows predicates_not_blank)
  with l that show ?thesis by blast
qed

text \<open>
  A light GitHub profile passes the collector's contract exactly when its present fields are non-blank
  texts and its repositories name a language; a founder whose repositories name none is refused for good.
\<close>

theorem github_profile_needs_a_language:
  assumes "github_collect env sd ''light'' = Inr raw"
    and "parse (so_now env) \<noteq> None" and "strip (so_now env) \<noteq> []" and "\<And>v. so_dumps env v \<noteq> []" and "strip (sd_handle sd) \<noteq> []"
  shows "\<exists>user repos items languages. github_user env (sd_handle sd) = Inr user
    \<and> github_repos env (sd_handle sd) ''light'' = Inr repos \<and> json_sized repos = Inr items
    \<and> github_languages items = Inr languages
    \<and> ((\<exists>co. validate_collected parse raw = Inr co) \<longleftrightarrow> profile_texts_ok user \<and> strip languages \<noteq> [])"
proof -
  obtain user repos items repo_rows deep_rows where got:
    "github_user env (sd_handle sd) = Inr user" "github_repos env (sd_handle sd) ''light'' = Inr repos"
    "json_sized repos = Inr items" "github_repo_rows env items = Inr repo_rows"
    "github_deep_rows env (sd_handle sd) ''light'' items = Inr deep_rows"
    and raw: "raw = json_material env (PDict [(''user'', PDict user), (''repos'', repos)])
       (github_user_rows env (sd_handle sd) user @ repo_rows @ deep_rows) ''github'' (''https://github.com/'' @ sd_handle sd)
       [(''source'', PStr ''GitHub API''), (''terms'', PStr ''https://docs.github.com/en/rest'')]"
    by (rule github_collect_InrD [OF assms(1)])
  have deep: "deep_rows = []" using got(5) by (simp add: github_deep_rows_def)
  obtain languages where l: "github_languages items = Inr languages"
    "(\<forall>x \<in> set repo_rows. row_ok parse x) \<longleftrightarrow> strip languages \<noteq> []"
    by (rule repo_rows_ok [where parse = parse, OF assms(2,3) got(4)])
  have "(\<exists>co. validate_collected parse raw = Inr co) \<longleftrightarrow> profile_texts_ok user \<and> strip languages \<noteq> []"
    unfolding raw material_accepted [OF assms(4) predicates_not_blank(13) prefixed_not_blank]
    using user_rows_ok [where parse = parse, OF assms(2,3)] l(2) assms(5) by (auto simp: deep ball_Un)
  with got l(1) show ?thesis by blast
qed

lemma org_row_refused:
  assumes "so_get env (github_api @ ''/users/'' @ login @ ''/orgs'') [] = Inr r" and "rp_status r = 200"
    and "rp_json r = Inr (PList [])" and "github_deep_rows env login ''deep'' items = Inr rows"
    and "parse (so_now env) \<noteq> None" and "strip (so_now env) \<noteq> []"
  shows "\<not> (\<forall>x \<in> set rows. row_ok parse x)"
proof -
  have "github_org_rows env login = Inr [sighting env ''github_orgs'' (PStr []) (9 / 10)]"
    using assms(1-3) by (simp add: github_org_rows_def github_org_names_def json_iter_def join_values_def)
  then have "sighting env ''github_orgs'' (PStr []) (9 / 10) \<in> set rows"
    using assms(4) by (auto simp: github_deep_rows_def dest!: and_then_InrD)
  moreover have "\<not> row_ok parse (sighting env ''github_orgs'' (PStr []) (9 / 10))"
    unfolding sighting_fault [where parse = parse, OF predicates_not_blank(11) assms(5,6)] by code_simp
  ultimately show ?thesis by blast
qed

text \<open>
  The deep material of a GitHub user without a public organisation never passes the contract, because the
  connector reports the empty list of organisations as an empty text.
\<close>

theorem github_deep_needs_an_organisation:
  assumes "github_collect env sd ''deep'' = Inr raw"
    and "so_get env (github_api @ ''/users/'' @ sd_handle sd @ ''/orgs'') [] = Inr r" and "rp_status r = 200"
    and "rp_json r = Inr (PList [])"
    and "parse (so_now env) \<noteq> None" and "strip (so_now env) \<noteq> []" and "\<And>v. so_dumps env v \<noteq> []"
  shows "\<exists>e. validate_collected parse raw = Inl e"
proof -
  obtain user repos items repo_rows deep_rows where deep: "github_deep_rows env (sd_handle sd) ''deep'' items = Inr deep_rows"
    and raw: "raw = json_material env (PDict [(''user'', PDict user), (''repos'', repos)])
       (github_user_rows env (sd_handle sd) user @ repo_rows @ deep_rows) ''github'' (''https://github.com/'' @ sd_handle sd)
       [(''source'', PStr ''GitHub API''), (''terms'', PStr ''https://docs.github.com/en/rest'')]"
    by (rule github_collect_InrD [OF assms(1)])
  from org_row_refused [where parse = parse, OF assms(2-4) deep assms(5,6)]
  have "\<not> (\<exists>co. validate_collected parse raw = Inr co)"
    unfolding raw material_accepted [OF assms(7) predicates_not_blank(13) prefixed_not_blank] by auto
  then show ?thesis by (cases "validate_collected parse raw") auto
qed

definition answering :: "(string \<Rightarrow> pyval) \<Rightarrow> source_env" where
  "answering f = \<lparr>so_codec = \<lparr>cx_loads = (\<lambda>s. None), cx_dumps = (\<lambda>v. []), cx_show = (\<lambda>v. []), cx_float = (\<lambda>s. None)\<rparr>,
     so_now = ''2026-01-01'', so_dumps = (\<lambda>v. ''{}''),
     so_get = (\<lambda>url params. Inr \<lparr>rp_status = 200, rp_json = Inr (f url), rp_text = [], rp_content = [], rp_url = url,
       rp_headers = []\<rparr>)\<rparr>"

definition handle_seed :: "string \<Rightarrow> string \<Rightarrow> seed" where
  "handle_seed source h = \<lparr>sd_source_type = source, sd_handle = h, sd_display_hint = h, sd_metadata = []\<rparr>"

definition quiet_user :: source_env where
  "quiet_user = answering (\<lambda>url. if contains url ''/repos'' then PList [PDict [(''name'', PStr ''notes'')]]
     else if contains url ''/orgs'' then PList [] else PDict [(''login'', PStr ''ada'')])"

lemma quiet_user_answers: "so_get quiet_user url ps = Inr \<lparr>rp_status = 200,
    rp_json = Inr (if contains url ''/repos'' then PList [PDict [(''name'', PStr ''notes'')]]
      else if contains url ''/orgs'' then PList [] else PDict [(''login'', PStr ''ada'')]),
    rp_text = [], rp_content = [], rp_url = url, rp_headers = []\<rparr>"
  "so_now quiet_user = ''2026-01-01''" "so_dumps quiet_user v = ''{}''"
  by (simp_all add: quiet_user_def answering_def)

lemma quiet_urls:
  "\<not> contains (github_api @ ''/users/'' @ ''ada'') ''/repos''" "\<not> contains (github_api @ ''/users/'' @ ''ada'') ''/orgs''"
  "contains (github_api @ ''/users/'' @ ''ada'' @ ''/repos'') ''/repos''"
  "\<not> contains (github_api @ ''/users/'' @ ''ada'' @ ''/orgs'') ''/repos''"
  "contains (github_api @ ''/users/'' @ ''ada'' @ ''/orgs'') ''/orgs''"
  by code_simp+

lemma quiet_user_profile:
  "github_user quiet_user ''ada'' = Inr [(''login'', PStr ''ada'')]"
  "github_repos quiet_user ''ada'' depth = Inr (PList [PDict [(''name'', PStr ''notes'')]])"
  using quiet_urls by (simp_all add: github_user_def github_repos_def quiet_user_answers)

lemma quiet_languages: "github_languages [PDict [(''name'', PStr ''notes'')]] = Inr []"
  by (simp add: github_languages_def json_get_def get_or_def)

lemma quiet_collected: "\<exists>raw. github_collect quiet_user (handle_seed ''github'' ''ada'') depth = Inr raw"
proof -
  have "github_org_rows quiet_user ''ada'' = Inr [sighting quiet_user ''github_orgs'' (PStr []) (9 / 10)]"
    using quiet_urls by (simp add: github_org_rows_def github_org_names_def json_iter_def join_values_def quiet_user_answers)
  then show ?thesis
    by (simp add: github_collect_def Let_def handle_seed_def quiet_user_profile json_sized_def github_repo_rows_def json_get_def
        get_or_def quiet_languages github_deep_rows_def github_readme_rows_def quiet_user_answers cong: if_cong)
qed

theorem github_profile_needs_a_language_witness:
  "\<exists>raw. github_collect quiet_user (handle_seed ''github'' ''ada'') ''light'' = Inr raw
     \<and> \<not> (\<exists>co. validate_collected (\<lambda>t. Some 0) raw = Inr co)"
proof -
  obtain raw where raw: "github_collect quiet_user (handle_seed ''github'' ''ada'') ''light'' = Inr raw"
    using quiet_collected by blast
  have side: "(\<lambda>t. Some 0) (so_now quiet_user) \<noteq> None" "strip (so_now quiet_user) \<noteq> []" "so_dumps quiet_user v \<noteq> []"
    "strip (sd_handle (handle_seed ''github'' ''ada'')) \<noteq> []" for v
    unfolding quiet_user_answers handle_seed_def by (simp, code_simp, simp, code_simp)
  from github_profile_needs_a_language [where parse = "\<lambda>t. Some 0", OF raw side(1,2) side(3) side(4)] raw show ?thesis
    by (auto simp: handle_seed_def quiet_user_profile json_sized_def quiet_languages blank_iff)
qed

theorem github_deep_needs_an_organisation_witness:
  "\<exists>raw e. github_collect quiet_user (handle_seed ''github'' ''ada'') ''deep'' = Inr raw
     \<and> validate_collected (\<lambda>t. Some 0) raw = Inl e"
proof -
  obtain raw where raw: "github_collect quiet_user (handle_seed ''github'' ''ada'') ''deep'' = Inr raw"
    using quiet_collected by blast
  have now: "strip (so_now quiet_user) \<noteq> []" unfolding quiet_user_answers by code_simp
  have "\<exists>e. validate_collected (\<lambda>t. Some 0) raw = Inl e"
    by (rule github_deep_needs_an_organisation [OF raw])
      (use quiet_urls now in \<open>auto simp: quiet_user_answers handle_seed_def\<close>)
  with raw show ?thesis by blast
qed

end
