(* ===== verification/Api_Sources.thy ===== *)
theory Api_Sources
  imports Github_Source
begin

text \<open>
  The connectors with a JSON interface beside GitHub: \<^verbatim>\<open>producthunt.py\<close>, \<^verbatim>\<open>hackernews.py\<close> and
  \<^verbatim>\<open>youtube.py\<close> of \<^verbatim>\<open>app/collectors/sources\<close>. The body of a GraphQL request is its operation with its
  variables.
\<close>

definition normalized :: "string \<Rightarrow> exc + 'a \<Rightarrow> exc + 'a" where
  "normalized ctx m = (case m of Inl e \<Rightarrow> Inl (normalize_connector_error e ctx) | Inr x \<Rightarrow> Inr x)"

definition py_or :: "pyval \<Rightarrow> pyval \<Rightarrow> pyval" where
  "py_or v d = (if py_truthy v then v else d)"

text \<open>\<open>value.lower()\<close>\<close>

definition json_lower :: "pyval \<Rightarrow> exc + string" where
  "json_lower v = (case v of PStr s \<Rightarrow> Inr (lower s) | _ \<Rightarrow> Inl (attribute_error v ''lower''))"

section \<open>Product Hunt\<close>

definition producthunt_api :: string where "producthunt_api = ''https://api.producthunt.com/v2/api/graphql''"

definition as_dict :: "pyval \<Rightarrow> exc + pyval dict" where
  "as_dict v = (case v of PDict d \<Rightarrow> Inr d | _ \<Rightarrow> Inl (attribute_error v ''get''))"

text \<open>One page of posts: its edges and where the next one starts.\<close>

definition ph_page :: "source_env \<Rightarrow> string \<Rightarrow> pyval \<Rightarrow> exc + pyval list \<times> pyval dict" where
  "ph_page env query after =
     and_then (so_get env producthunt_api [(''query'', PStr ''SearchPosts''), (''variables'',
         PDict [(''topic'', PStr query), (''first'', PInt 20), (''after'', after)])]) (\<lambda>r.
       if rp_status r = 429 then Inl (contract_error ''producthunt_rate_limited: HTTP 429'')
       else if rp_status r \<noteq> 200 then Inl (contract_error (''producthunt_search_failed: HTTP '' @ int_str (rp_status r)))
       else and_then (normalized ''producthunt_search_failed: invalid provider response'' (rp_json r)) (\<lambda>data.
         and_then (json_get data ''errors'' PNone) (\<lambda>errors.
           if py_truthy errors then Inl (contract_error ''producthunt_search_graphql_failed: provider returned errors'')
           else and_then (json_get data ''data'' (PDict [])) (\<lambda>body.
             and_then (json_get body ''posts'' PNone) (\<lambda>posts.
               (case posts of
                  PDict d \<Rightarrow>
                    (case (dget d ''edges'', dget d ''pageInfo'') of
                       (Some (PList edges), Some (PDict info)) \<Rightarrow> Inr (edges, info)
                     | _ \<Rightarrow> Inl (contract_error ''producthunt_search_failed: invalid provider response: missing posts''))
                | _ \<Rightarrow> Inl (contract_error ''producthunt_search_failed: invalid provider response: missing posts'')))))))"

text \<open>The pages up to the one asked for; \<open>None\<close> when the provider has fewer.\<close>

fun ph_pages :: "source_env \<Rightarrow> string \<Rightarrow> nat \<Rightarrow> pyval \<Rightarrow> exc + pyval list option" where
  "ph_pages env query n after =
     and_then (ph_page env query after) (\<lambda>(edges, info).
       if n \<le> 1 then Inr (Some edges)
       else if \<not> py_truthy (get_or info ''hasNextPage'' PNone) \<or> \<not> py_truthy (get_or info ''endCursor'' PNone) then Inr None
       else ph_pages env query (n - 1) (get_or info ''endCursor'' PNone))"

declare ph_pages.simps [simp del]

definition ph_maker_seed :: "string \<Rightarrow> pyval \<Rightarrow> pyval \<Rightarrow> exc + raw_seed option list" where
  "ph_maker_seed query post maker =
     and_then (json_get maker ''username'' (PStr [])) (\<lambda>username.
       if \<not> py_truthy username then Inr []
       else and_then (json_get maker ''name'' username) (\<lambda>hint.
            and_then (json_get post ''id'' PNone) (\<lambda>i.
              Inr [new_seed ''producthunt'' username hint [(''ph_post_id'', i), (''query'', PStr query)]])))"

definition ph_edge_seeds :: "string \<Rightarrow> pyval \<Rightarrow> exc + raw_seed option list" where
  "ph_edge_seeds query edge =
     and_then (json_get edge ''node'' (PDict [])) (\<lambda>post.
     and_then (json_get post ''makers'' (PList [])) (\<lambda>makers.
     and_then (json_iter makers) (\<lambda>items.
     and_then (each_ok (ph_maker_seed query post) items) (\<lambda>seeds. Inr (concat seeds)))))"

definition producthunt_discover :: "source_env \<Rightarrow> string \<Rightarrow> int \<Rightarrow> exc + discovered" where
  "producthunt_discover env query page =
     (if page < 1 then Inl (other_error ''ValueError'' ''page must be at least 1'')
      else and_then (normalized ''producthunt_search_failed'' (ph_pages env query (nat page) PNone)) (\<lambda>found.
        case found of
          None \<Rightarrow> Inr (Seed_List [])
        | Some edges \<Rightarrow> and_then (each_ok (ph_edge_seeds query) edges) (\<lambda>seeds. Inr (Seed_List (concat seeds)))))"

definition ph_fields :: "(string \<times> string \<times> real) list" where
  "ph_fields = [(''name'', ''display_name'', 9 / 10), (''headline'', ''headline'', 8 / 10),
     (''websiteUrl'', ''website_url'', 9 / 10), (''twitterUsername'', ''twitter_handle'', 9 / 10)]"

definition ph_votes :: "pyval list \<Rightarrow> exc + int" where
  "ph_votes posts =
     and_then (each_ok (\<lambda>edge. and_then (json_get edge ''node'' (PDict [])) (\<lambda>post. json_get post ''votesCount'' (PInt 0))) posts)
       sum_counts"

definition ph_rows :: "source_env \<Rightarrow> string \<Rightarrow> pyval dict \<Rightarrow> exc + pyval list" where
  "ph_rows env username user =
     and_then (json_get (get_or user ''posts'' (PDict [])) ''edges'' (PList [])) (\<lambda>edges.
     and_then (json_iter edges) (\<lambda>posts.
     and_then (ph_votes posts) (\<lambda>upvotes.
       Inr (sighting env ''producthunt_username'' (PStr username) 1
         # concat (map (\<lambda>(k, p, c). sighting_if env p (get_or user k PNone) c) ph_fields)
         @ [sighting env ''producthunt_posts'' (PStr (nat_str (length posts))) 1,
            sighting env ''producthunt_total_upvotes'' (PStr (int_str upvotes)) 1]))))"

definition producthunt_collect :: "source_env \<Rightarrow> seed \<Rightarrow> string \<Rightarrow> exc + raw_collected" where
  "producthunt_collect env sd depth =
     (let username = sd_handle sd
      in and_then (so_get env producthunt_api [(''query'', PStr ''UserPosts''), (''variables'',
           PDict [(''username'', PStr username), (''first'', PInt (if depth = ''deep'' then 50 else 20))])]) (\<lambda>r.
         if rp_status r \<noteq> 200 then Inl (contract_error (''producthunt_user_fetch_failed: '' @ int_str (rp_status r)))
         else and_then (rp_json r) (\<lambda>data.
           and_then (json_get data ''data'' (PDict [])) (\<lambda>body.
           and_then (json_get body ''user'' PNone) (\<lambda>user.
             if \<not> py_truthy user then Inl (contract_error (''producthunt_user_not_found: '' @ username))
             else and_then (as_dict user) (\<lambda>fields.
               and_then (ph_rows env username fields) (\<lambda>rows.
                 Inr (json_material env data rows ''producthunt'' (''https://www.producthunt.com/@'' @ username)
                   [(''source'', PStr ''Product Hunt API''), (''terms'', PStr ''https://api.producthunt.com/v2/docs'')]))))))))"

section \<open>Hacker News\<close>

definition algolia_api :: string where "algolia_api = ''https://hn.algolia.com/api/v1''"

definition hn_hits :: "source_env \<Rightarrow> string \<Rightarrow> string \<Rightarrow> int \<Rightarrow> exc + pyval list" where
  "hn_hits env query tag page =
     and_then (so_get env (algolia_api @ ''/search'') [(''query'', PStr query), (''tags'', PStr tag),
         (''hitsPerPage'', PInt 30), (''page'', PInt (page - 1))]) (\<lambda>r.
       if rp_status r = 429 then Inl (contract_error ''hackernews_rate_limited: HTTP 429'')
       else if rp_status r \<noteq> 200 then Inl (contract_error (''hackernews_search_failed: HTTP '' @ int_str (rp_status r)))
       else decoded_list ''hackernews_search_failed'' ''hits'' r)"

text \<open>The authors of the hits not met before, ignoring case.\<close>

fun hn_authors :: "(pyval \<Rightarrow> exc + pyval dict) \<Rightarrow> string list \<Rightarrow> pyval list \<Rightarrow> exc + raw_seed option list \<times> string list" where
  "hn_authors meta known [] = Inr ([], known)"
| "hn_authors meta known (hit # hits) =
     and_then (json_get hit ''author'' (PStr [])) (\<lambda>author.
       if \<not> py_truthy author then hn_authors meta known hits
       else and_then (json_lower author) (\<lambda>key.
         if key \<in> set known then hn_authors meta known hits
         else and_then (meta hit) (\<lambda>m.
           and_then (hn_authors meta (key # known) hits) (\<lambda>(seeds, known').
             Inr (new_seed ''hackernews'' author author m # seeds, known')))))"

definition hn_story_meta :: "string \<Rightarrow> pyval \<Rightarrow> exc + pyval dict" where
  "hn_story_meta query hit =
     and_then (json_get hit ''title'' (PStr [])) (\<lambda>title. and_then (json_get hit ''points'' (PInt 0)) (\<lambda>points.
       Inr [(''query'', PStr query), (''story_title'', title), (''points'', points)]))"

definition hn_comment_meta :: "string \<Rightarrow> pyval \<Rightarrow> exc + pyval dict" where
  "hn_comment_meta query hit =
     and_then (json_get hit ''story_title'' (PStr [])) (\<lambda>title. Inr [(''query'', PStr query), (''comment_mention'', title)])"

definition hackernews_discover :: "source_env \<Rightarrow> string \<Rightarrow> int \<Rightarrow> exc + discovered" where
  "hackernews_discover env query page =
     normalized ''hackernews_search_failed''
       (and_then (hn_hits env query ''story'' page) (\<lambda>stories.
        and_then (hn_authors (hn_story_meta query) [] stories) (\<lambda>(posters, known).
        and_then (hn_hits env query ''comment'' page) (\<lambda>comments.
        and_then (hn_authors (hn_comment_meta query) known comments) (\<lambda>(commenters, known').
          Inr (Seed_List (posters @ commenters)))))))"

definition hn_author_hits :: "source_env \<Rightarrow> string \<Rightarrow> string \<Rightarrow> int \<Rightarrow> exc + pyval option" where
  "hn_author_hits env tag username limit =
     and_then (so_get env (algolia_api @ ''/search'') [(''query'', PStr []),
         (''tags'', PStr (tag @ '',author_'' @ username)), (''hitsPerPage'', PInt limit)]) (\<lambda>r.
       if rp_status r \<noteq> 200 then Inr None
       else and_then (rp_json r) (\<lambda>v. and_then (json_get v ''hits'' (PList [])) (\<lambda>hits. Inr (Some hits))))"

definition hn_user_rows :: "source_env \<Rightarrow> string \<Rightarrow> pyval \<Rightarrow> exc + pyval list" where
  "hn_user_rows env username user =
     and_then (json_get user ''karma'' (PInt 0)) (\<lambda>karma.
     and_then (json_get user ''about'' (PStr [])) (\<lambda>about.
     and_then (if py_truthy about then and_then (json_prefix 2000 about) (\<lambda>t. Inr [sighting env ''hn_about'' t (8 / 10)])
               else Inr []) (\<lambda>about_rows.
       Inr ([sighting env ''hn_username'' (PStr username) 1,
             sighting env ''hn_karma'' (PStr (py_str (so_codec env) karma)) 1] @ about_rows))))"

definition hn_story_rows :: "source_env \<Rightarrow> pyval list \<Rightarrow> exc + pyval list" where
  "hn_story_rows env stories =
     and_then (each_ok (\<lambda>s. json_get s ''points'' (PInt 0)) stories) (\<lambda>points.
     and_then (sum_counts points) (\<lambda>total.
     and_then (each_ok (\<lambda>s. json_get s ''title'' (PStr [])) stories) (\<lambda>titles.
     and_then (join_values '' | '' (take 10 (filter py_truthy titles))) (\<lambda>text.
       Inr ([sighting env ''hn_story_count'' (PStr (nat_str (length stories))) 1,
             sighting env ''hn_total_points'' (PStr (int_str total)) 1]
            @ (if filter py_truthy titles = [] then [] else [sighting env ''hn_recent_stories'' (PStr text) (9 / 10)]))))))"

definition hn_comment_rows :: "source_env \<Rightarrow> pyval \<Rightarrow> exc + pyval list" where
  "hn_comment_rows env comments =
     and_then (json_iter comments) (\<lambda>items.
     and_then (each_ok (\<lambda>c. json_get c ''comment_text'' (PStr [])) items) (\<lambda>texts.
     and_then (each_ok (json_prefix 500) (filter py_truthy texts)) (\<lambda>cut.
       if cut = [] then Inr []
       else and_then (join_values '' | '' (take 10 cut)) (\<lambda>text. Inr [sighting env ''hn_recent_comments'' (PStr text) (7 / 10)]))))"

definition hn_deep_rows :: "source_env \<Rightarrow> string \<Rightarrow> string \<Rightarrow> exc + pyval list" where
  "hn_deep_rows env username depth =
     (if depth \<noteq> ''deep'' then Inr []
      else and_then (hn_author_hits env ''comment'' username 30) (\<lambda>found.
        case found of None \<Rightarrow> Inr [] | Some comments \<Rightarrow> hn_comment_rows env comments))"

definition hackernews_collect :: "source_env \<Rightarrow> seed \<Rightarrow> string \<Rightarrow> exc + raw_collected" where
  "hackernews_collect env sd depth =
     (let username = sd_handle sd
      in and_then (so_get env (algolia_api @ ''/users/'' @ username) []) (\<lambda>r.
         if rp_status r \<noteq> 200 then Inl (contract_error (''hn_user_fetch_failed: '' @ int_str (rp_status r)))
         else and_then (rp_json r) (\<lambda>user.
           and_then (hn_user_rows env username user) (\<lambda>user_rows.
           and_then (hn_author_hits env ''story'' username (if depth = ''deep'' then 50 else 20)) (\<lambda>found.
           and_then (json_sized (case found of None \<Rightarrow> PList [] | Some hits \<Rightarrow> hits)) (\<lambda>stories.
           and_then (hn_story_rows env stories) (\<lambda>story_rows.
           and_then (hn_deep_rows env username depth) (\<lambda>deep_rows.
             Inr (json_material env
               (PDict [(''user'', user), (''stories'', case found of None \<Rightarrow> PList [] | Some hits \<Rightarrow> hits)])
               (user_rows @ story_rows @ deep_rows) ''hackernews'' (''https://news.ycombinator.com/user?id='' @ username)
               [(''source'', PStr ''Algolia HN API''), (''terms'', PStr ''https://hn.algolia.com/api'')])))))))))"

section \<open>YouTube\<close>

definition youtube_api :: string where "youtube_api = ''https://www.googleapis.com/youtube/v3''"

definition yt_hashable :: "pyval \<Rightarrow> exc + pyval" where
  "yt_hashable v = (case v of PList _ \<Rightarrow> Inl (type_error (''unhashable type: '' @ py_quote ''list''))
     | PDict _ \<Rightarrow> Inl (type_error (''unhashable type: '' @ py_quote ''dict'')) | w \<Rightarrow> Inr w)"

fun yt_channels :: "string \<Rightarrow> pyval list \<Rightarrow> pyval list \<Rightarrow> exc + raw_seed option list" where
  "yt_channels query known [] = Inr []"
| "yt_channels query known (item # items) =
     and_then (json_get item ''snippet'' (PDict [])) (\<lambda>snippet.
     and_then (json_get snippet ''channelId'' (PStr [])) (\<lambda>channel.
     and_then (json_get snippet ''channelTitle'' (PStr [])) (\<lambda>title.
       if \<not> py_truthy channel then yt_channels query known items
       else and_then (yt_hashable channel) (\<lambda>c.
         if c \<in> set known then yt_channels query known items
         else and_then (json_get snippet ''title'' (PStr [])) (\<lambda>video.
           and_then (yt_channels query (c # known) items) (\<lambda>seeds.
             Inr (new_seed ''youtube'' c (py_or title c) [(''query'', PStr query), (''channel_title'', title),
               (''video_title'', video)] # seeds)))))))"

definition youtube_discover :: "source_env \<Rightarrow> string \<Rightarrow> string \<Rightarrow> int \<Rightarrow> exc + discovered" where
  "youtube_discover env api_key query page =
     (if api_key = [] then Inl (contract_error ''youtube_api_key_not_configured'')
      else and_then (normalized ''youtube_search_failed'' (so_get env (youtube_api @ ''/search'')
          [(''part'', PStr ''snippet''), (''q'', PStr query), (''type'', PStr ''video''), (''maxResults'', PInt 20),
           (''key'', PStr api_key)])) (\<lambda>r.
        if rp_status r = 429 then Inl (contract_error ''youtube_rate_limited: HTTP 429'')
        else if rp_status r \<noteq> 200 then Inl (contract_error (''youtube_search_failed: HTTP '' @ int_str (rp_status r)))
        else and_then (decoded_list ''youtube_search_failed'' ''items'' r) (\<lambda>items.
          and_then (yt_channels query [] items) (\<lambda>seeds. Inr (Seed_List seeds)))))"

text \<open>\<open>items[0]\<close> of a truthy value: the first of a list or text; anything else raises.\<close>

definition json_first :: "pyval \<Rightarrow> exc + pyval" where
  "json_first v =
     (case v of PList (x # xs) \<Rightarrow> Inr x | PStr (c # cs) \<Rightarrow> Inr (PStr [c])
      | PDict d \<Rightarrow> Inl (other_error ''KeyError'' ''0'')
      | w \<Rightarrow> Inl (type_error (py_quote (type_name w) @ '' object is not subscriptable'')))"

definition yt_channel_info :: "pyval \<Rightarrow> exc + pyval" where
  "yt_channel_info data =
     and_then (json_get data ''items'' PNone) (\<lambda>items. if py_truthy items then json_first items else Inr (PDict []))"

definition yt_count :: "codec \<Rightarrow> pyval \<Rightarrow> string \<Rightarrow> exc + string" where
  "yt_count cx stats k = and_then (json_get stats k PNone) (\<lambda>v. Inr (py_str cx (py_or v (PStr ''0''))))"

definition yt_channel_rows :: "source_env \<Rightarrow> string \<Rightarrow> pyval \<Rightarrow> exc + pyval list" where
  "yt_channel_rows env channel info =
     and_then (json_get info ''snippet'' (PDict [])) (\<lambda>snippet.
     and_then (json_get info ''statistics'' (PDict [])) (\<lambda>stats.
     and_then (json_get snippet ''title'' (PStr [])) (\<lambda>title.
     and_then (json_get snippet ''description'' (PStr [])) (\<lambda>description.
     and_then (yt_count (so_codec env) stats ''subscriberCount'') (\<lambda>subscribers.
     and_then (yt_count (so_codec env) stats ''videoCount'') (\<lambda>videos.
     and_then (yt_count (so_codec env) stats ''viewCount'') (\<lambda>views.
     and_then (if py_truthy description then and_then (json_prefix 2000 description) (\<lambda>t.
         Inr [sighting env ''youtube_channel_description'' t (8 / 10)]) else Inr []) (\<lambda>described.
       Inr ([sighting env ''youtube_channel_id'' (PStr channel) 1] @ sighting_if env ''youtube_channel_title'' title 1
         @ described @ [sighting env ''youtube_subscriber_count'' (PStr subscribers) 1,
           sighting env ''youtube_video_count'' (PStr videos) 1, sighting env ''youtube_view_count'' (PStr views) 1])))))))))"

definition yt_video_rows :: "source_env \<Rightarrow> pyval \<Rightarrow> exc + pyval list" where
  "yt_video_rows env videos =
     and_then (json_iter videos) (\<lambda>items.
     and_then (each_ok (\<lambda>v. and_then (json_get v ''snippet'' (PDict [])) (\<lambda>s. json_get s ''title'' PNone)) items) (\<lambda>titles.
       if filter py_truthy titles = [] then Inr []
       else and_then (join_values '' | '' (take 10 (filter py_truthy titles))) (\<lambda>text.
         Inr [sighting env ''youtube_recent_videos'' (PStr text) (9 / 10)])))"

definition youtube_collect :: "source_env \<Rightarrow> string \<Rightarrow> seed \<Rightarrow> string \<Rightarrow> exc + raw_collected" where
  "youtube_collect env api_key sd depth =
     (let channel = sd_handle sd
      in if api_key = [] then Inl (contract_error ''youtube_api_key_not_configured'')
         else and_then (so_get env (youtube_api @ ''/channels'') [(''part'', PStr ''snippet,statistics''),
             (''id'', PStr channel), (''key'', PStr api_key)]) (\<lambda>r.
           if rp_status r \<noteq> 200 then Inl (contract_error (''youtube_channel_fetch_failed: '' @ int_str (rp_status r)))
           else and_then (rp_json r) (\<lambda>data.
             and_then (yt_channel_info data) (\<lambda>info.
             and_then (yt_channel_rows env channel info) (\<lambda>rows.
             and_then (so_get env (youtube_api @ ''/search'') [(''part'', PStr ''snippet''), (''channelId'', PStr channel),
                 (''order'', PStr ''date''), (''maxResults'', PInt (if depth = ''deep'' then 50 else 20)),
                 (''type'', PStr ''video''), (''key'', PStr api_key)]) (\<lambda>vr.
             and_then (if rp_status vr \<noteq> 200 then Inr (PList [])
               else and_then (rp_json vr) (\<lambda>v. json_get v ''items'' (PList []))) (\<lambda>videos.
             and_then (yt_video_rows env videos) (\<lambda>video_rows.
               Inr (json_material env (PDict [(''channel'', info), (''videos'', videos)]) (rows @ video_rows) ''youtube''
                 (''https://www.youtube.com/channel/'' @ channel) [(''source'', PStr ''YouTube Data API v3''),
                 (''terms'', PStr ''https://developers.google.com/youtube/terms'')])))))))))"

section \<open>Seeds of a discussion page\<close>

definition seed_handles :: "raw_seed option list \<Rightarrow> pyval list" where
  "seed_handles seeds = map (\<lambda>s. case s of None \<Rightarrow> PNone | Some r \<Rightarrow> raw_handle r) seeds"

definition seeds_of_source :: "string \<Rightarrow> raw_seed option list \<Rightarrow> bool" where
  "seeds_of_source source seeds = list_all (\<lambda>s. case s of None \<Rightarrow> False
     | Some r \<Rightarrow> raw_source_type r = PStr source \<and> dict_value (raw_metadata r) \<noteq> None) seeds"

lemma seed_lists_simps [simp]:
  "seed_handles [] = []" "seed_handles (new_seed src h hint m # seeds) = h # seed_handles seeds"
  "seed_handles (xs @ ys) = seed_handles xs @ seed_handles ys"
  "seeds_of_source src []" "seeds_of_source src (new_seed src h hint m # seeds) \<longleftrightarrow> seeds_of_source src seeds"
  "seeds_of_source src (xs @ ys) \<longleftrightarrow> seeds_of_source src xs \<and> seeds_of_source src ys"
  by (simp_all add: seed_handles_def seeds_of_source_def new_seed_def)

text \<open>Seeds with text handles pass the contract, unless a handle is blank or there are too many.\<close>

lemma validate_seeds_texts:
  assumes "seeds_of_source src seeds" and "strip src \<noteq> []" and "seed_handles seeds = map PStr names"
    and "\<forall>n \<in> set names. strip n \<noteq> []"
  shows "\<exists>ss. validate_seeds i seeds = Inr ss \<and> map sd_handle ss = names"
  using assms
proof (induction seeds arbitrary: i names)
  case (Cons s seeds)
  then obtain r where s: "s = Some r" "raw_source_type r = PStr src" "dict_value (raw_metadata r) \<noteq> None"
    by (auto simp: seeds_of_source_def split: option.splits)
  from Cons.prems(3) s obtain n ns where n: "names = n # ns" "raw_handle r = PStr n" "seed_handles seeds = map PStr ns"
    by (cases names) (auto simp: seed_handles_def)
  have "seeds_of_source src seeds" using Cons.prems(1) by (simp add: seeds_of_source_def)
  from Cons.IH [OF this Cons.prems(2) n(3), of "i + 1"] Cons.prems(4) n(1) obtain ss where
    ss: "validate_seeds (i + 1) seeds = Inr ss" "map sd_handle ss = ns" by auto
  moreover have "\<exists>x. validate_seed i s = Inr x \<and> sd_handle x = n"
    using s n Cons.prems(2,4) by (auto simp: validate_seed_def Let_def)
  ultimately show ?case using n(1) by auto
qed (simp add: seed_handles_def)

lemma hn_authors_sound:
  assumes "hn_authors meta known hits = Inr (seeds, known')"
  shows "\<exists>names. seed_handles seeds = map PStr names \<and> seeds_of_source ''hackernews'' seeds
    \<and> distinct (map lower names) \<and> set (map lower names) \<inter> set known = {}
    \<and> set known' = set known \<union> set (map lower names) \<and> length names \<le> length hits"
  using assms
proof (induction meta known hits arbitrary: seeds known' rule: hn_authors.induct)
  case (1 meta known)
  then show ?case by simp
next
  case (2 meta known hit hits)
  from 2(4) obtain author where a: "json_get hit ''author'' (PStr []) = Inr author"
    by (auto dest: and_then_InrD)
  show ?case
  proof (cases "py_truthy author")
    case False
    with 2(4) a have "hn_authors meta known hits = Inr (seeds, known')" by simp
    from 2(1) [OF False this] show ?thesis by fastforce
  next
    case True
    with 2(4) a obtain key where key: "json_lower author = Inr key" by (auto dest: and_then_InrD)
    then obtain s where s: "author = PStr s" "key = lower s" by (cases author) (auto simp: json_lower_def)
    show ?thesis
    proof (cases "key \<in> set known")
      case old: True
      with True 2(4) a key have "hn_authors meta known hits = Inr (seeds, known')" by simp
      from 2(2) [OF _ old this] True show ?thesis by fastforce
    next
      case False
      with True 2(4) a key obtain m rest where m: "meta hit = Inr m"
        "hn_authors meta (key # known) hits = Inr (rest, known')" "seeds = new_seed ''hackernews'' author author m # rest"
        by (auto dest!: and_then_InrD split: prod.splits)
      from True have "\<not> \<not> py_truthy author" by simp
      from 2(3) [OF this False m(2)] obtain names where
        "seed_handles rest = map PStr names" "seeds_of_source ''hackernews'' rest" "distinct (map lower names)"
        "set (map lower names) \<inter> set (key # known) = {}" "set known' = set (key # known) \<union> set (map lower names)"
        "length names \<le> length hits" by auto
      with m(3) s False show ?thesis by (intro exI [of _ "s # names"]) auto
    qed
  qed
qed

text \<open>
  A page of Hacker News names every author once, ignoring case, in both result lists together; when no name
  is blank and the provider keeps to thirty hits a list, the page passes the collector's contract.
\<close>

theorem hackernews_page_accepted:
  assumes "hackernews_discover env query page = Inr (Seed_List seeds)"
  shows "\<exists>names. seed_handles seeds = map PStr names \<and> distinct (map lower names)
    \<and> (\<forall>stories comments. hn_hits env query ''story'' page = Inr stories \<longrightarrow> hn_hits env query ''comment'' page = Inr comments
        \<longrightarrow> length stories \<le> 30 \<longrightarrow> length comments \<le> 30 \<longrightarrow> list_all (\<lambda>n. strip n \<noteq> []) names
        \<longrightarrow> (\<exists>ss. validate_discovered (Seed_List seeds) = Inr ss \<and> map sd_handle ss = names))"
proof -
  obtain stories comments posters known commenters known' where
    h: "hn_hits env query ''story'' page = Inr stories" "hn_hits env query ''comment'' page = Inr comments"
    and p: "hn_authors (hn_story_meta query) [] stories = Inr (posters, known)"
    and c: "hn_authors (hn_comment_meta query) known comments = Inr (commenters, known')" and s: "seeds = posters @ commenters"
    using assms by (auto simp: hackernews_discover_def normalized_def split: sum.splits dest!: and_then_InrD)
  from hn_authors_sound [OF p] obtain n1 where n1: "seed_handles posters = map PStr n1"
    "seeds_of_source ''hackernews'' posters" "distinct (map lower n1)" "set known = set (map lower n1)" "length n1 \<le> length stories"
    by auto
  from hn_authors_sound [OF c] obtain n2 where n2: "seed_handles commenters = map PStr n2"
    "seeds_of_source ''hackernews'' commenters" "distinct (map lower n2)" "set (map lower n2) \<inter> set known = {}"
    "length n2 \<le> length comments" by auto
  have handles: "seed_handles seeds = map PStr (n1 @ n2)" and src: "seeds_of_source ''hackernews'' seeds"
    using n1 n2 s by simp_all
  have dist: "distinct (map lower (n1 @ n2))" using n1(3,4) n2(3,4) by auto
  have len: "length seeds = length (n1 @ n2)" using arg_cong [OF handles, of length] by (simp add: seed_handles_def)
  have nb: "strip ''hackernews'' \<noteq> []" by code_simp
  have "\<exists>ss. validate_discovered (Seed_List seeds) = Inr ss \<and> map sd_handle ss = n1 @ n2"
    if "length stories \<le> 30" "length comments \<le> 30" "list_all (\<lambda>n. strip n \<noteq> []) (n1 @ n2)"
  proof -
    have "\<not> max_discovery_page_size < length seeds"
      using that(1,2) n1(5) n2(5) len by (simp add: max_discovery_page_size_def)
    with validate_seeds_texts [OF src nb handles] that(3) show ?thesis
      by (simp add: validate_discovered_def list_all_iff)
  qed
  with handles dist h show ?thesis by (intro exI [of _ "n1 @ n2"]) auto
qed

text \<open>
  A channel id YouTube does not know is answered with an empty list of channels; the connector turns the
  answer into material that passes the contract, a channel with no subscribers.
\<close>

theorem youtube_unknown_channel_is_material:
  assumes "so_get env (youtube_api @ ''/channels'') [(''part'', PStr ''snippet,statistics''), (''id'', PStr (sd_handle sd)),
      (''key'', PStr api_key)] = Inr r" and "rp_status r = 200" and "rp_json r = Inr (PDict [(''items'', PList [])])"
    and "so_get env (youtube_api @ ''/search'') [(''part'', PStr ''snippet''), (''channelId'', PStr (sd_handle sd)),
      (''order'', PStr ''date''), (''maxResults'', PInt 20), (''type'', PStr ''video''), (''key'', PStr api_key)] = Inr vr"
    and "rp_status vr = 200" and "rp_json vr = Inr (PDict [(''items'', PList [])])"
    and "api_key \<noteq> []" and "strip (sd_handle sd) \<noteq> []"
    and "parse (so_now env) \<noteq> None" and "strip (so_now env) \<noteq> []" and "\<And>v. so_dumps env v \<noteq> []"
  shows "\<exists>raw co. youtube_collect env api_key sd ''light'' = Inr raw \<and> validate_collected parse raw = Inr co"
proof -
  let ?rows = "[sighting env ''youtube_channel_id'' (PStr (sd_handle sd)) 1, sighting env ''youtube_subscriber_count'' (PStr ''0'') 1,
      sighting env ''youtube_video_count'' (PStr ''0'') 1, sighting env ''youtube_view_count'' (PStr ''0'') 1]"
  have got: "youtube_collect env api_key sd ''light'' = Inr (json_material env
      (PDict [(''channel'', PDict []), (''videos'', PList [])]) ?rows ''youtube''
      (''https://www.youtube.com/channel/'' @ sd_handle sd) [(''source'', PStr ''YouTube Data API v3''),
      (''terms'', PStr ''https://developers.google.com/youtube/terms'')])"
    using assms(1-7) by (simp add: youtube_collect_def Let_def yt_channel_info_def yt_channel_rows_def yt_count_def json_get_def
        get_or_def py_or_def py_str_def sighting_if_def yt_video_rows_def json_iter_def)
  have names: "strip ''youtube_channel_id'' \<noteq> []" "strip ''youtube_subscriber_count'' \<noteq> []" "strip ''youtube_video_count'' \<noteq> []"
    "strip ''youtube_view_count'' \<noteq> []" "strip ''youtube'' \<noteq> []" "strip ''0'' \<noteq> []" by code_simp+
  have "\<not> is_space CHR ''h''" by (simp add: is_space_def char_code_def Let_def)
  then have uri: "strip (''https://www.youtube.com/channel/'' @ sd_handle sd) \<noteq> []" by (auto simp: blank_iff)
  have "\<forall>x \<in> set ?rows. row_ok parse x"
    using sighting_fault [where parse = parse and env = env, OF _ assms(9,10)] names assms(8) by simp
  then show ?thesis
    unfolding got using material_accepted [where parse = parse, OF assms(11) names(5) uri] by blast
qed

definition two_posts :: source_env where
  "two_posts = answering (\<lambda>url. PDict [(''hits'', PList [PDict [(''author'', PStr ''ada'')], PDict [(''author'', PStr ''Ada'')]])])"

lemma two_posts_hits: "hn_hits two_posts query tag page = Inr [PDict [(''author'', PStr ''ada'')], PDict [(''author'', PStr ''Ada'')]]"
  by (simp add: hn_hits_def two_posts_def answering_def decoded_list_def)

lemma two_posts_page: "\<exists>seeds. hackernews_discover two_posts query page = Inr (Seed_List seeds) \<and> seed_handles seeds = [PStr ''ada'']"
proof -
  have "lower ''Ada'' = ''ada''" "lower ''ada'' = ''ada''" by code_simp+
  then show ?thesis
    by (simp add: hackernews_discover_def two_posts_hits normalized_def json_get_def get_or_def json_lower_def
        hn_story_meta_def)
qed

theorem hackernews_page_accepted_witness:
  "\<exists>seeds ss. hackernews_discover two_posts ''ai'' 1 = Inr (Seed_List seeds)
     \<and> validate_discovered (Seed_List seeds) = Inr ss \<and> map sd_handle ss = [''ada'']"
proof -
  obtain seeds where s: "hackernews_discover two_posts ''ai'' 1 = Inr (Seed_List seeds)" "seed_handles seeds = [PStr ''ada'']"
    using two_posts_page by blast
  have "strip ''ada'' \<noteq> []" by code_simp
  with hackernews_page_accepted [OF s(1)] s show ?thesis by (auto simp: two_posts_hits)
qed

theorem youtube_unknown_channel_is_material_witness:
  "\<exists>raw co. youtube_collect (answering (\<lambda>url. PDict [(''items'', PList [])])) ''key'' (handle_seed ''youtube'' ''nobody'') ''light'' = Inr raw
     \<and> validate_collected (\<lambda>t. Some 0) raw = Inr co"
proof -
  have texts: "strip ''nobody'' \<noteq> []" "strip ''2026-01-01'' \<noteq> []" by code_simp+
  show ?thesis
    by (rule youtube_unknown_channel_is_material) (simp add: answering_def handle_seed_def texts)+
qed

end
