(* ===== verification/Arxiv_Source.thy ===== *)
theory Arxiv_Source
  imports Api_Sources
begin

text \<open>
  The arXiv connector, \<^verbatim>\<open>app/collectors/sources/arxiv.py\<close>: Atom feeds checked against their namespace, citation
  counts of Semantic Scholar, and a bounded PDF of the most cited paper. The XML parser and the PDF reader
  are functions on bytes; an element is its tag with the namespace in braces, its attributes, its leading
  text and its children.
\<close>

section \<open>Feeds\<close>

datatype xml = Elem string "string dict" string "xml list"

fun xml_tag :: "xml \<Rightarrow> string" where "xml_tag (Elem tag attrs txt kids) = tag"
fun xml_attrs :: "xml \<Rightarrow> string dict" where "xml_attrs (Elem tag attrs txt kids) = attrs"
fun xml_text :: "xml \<Rightarrow> string" where "xml_text (Elem tag attrs txt kids) = txt"
fun xml_kids :: "xml \<Rightarrow> xml list" where "xml_kids (Elem tag attrs txt kids) = kids"

fun xml_nodes :: "xml \<Rightarrow> xml list" where
  "xml_nodes (Elem tag attrs txt kids) = Elem tag attrs txt kids # concat (map xml_nodes kids)"

record pdf_doc =
  pd_encrypted :: bool
  pd_pages :: "string option list"

record pdf_stream =
  ps_status :: int
  ps_headers :: "string dict"
  ps_chunks :: "char list list"

record arxiv_env =
  ax_source :: source_env
  ax_xml :: "char list \<Rightarrow> xml option"
  ax_pdf :: "char list \<Rightarrow> pdf_doc option"
  ax_stream :: "string \<Rightarrow> exc + pdf_stream"

definition atom_namespace :: string where "atom_namespace = ''http://www.w3.org/2005/Atom''"

definition atom_tag :: "string \<Rightarrow> string" where
  "atom_tag name = [CHR 0x7B] @ atom_namespace @ [CHR 0x7D] @ name"

definition atom_fields :: "string list" where
  "atom_fields = [''author'', ''category'', ''contributor'', ''generator'', ''icon'', ''id'', ''link'', ''logo'', ''name'',
     ''published'', ''rights'', ''summary'', ''title'', ''updated'']"

definition local_name :: "string \<Rightarrow> string" where
  "local_name tag = last (split_on (CHR 0x7D) tag)"

definition foreign_field :: "xml \<Rightarrow> bool" where
  "foreign_field x = (let n = local_name (xml_tag x)
     in (n \<in> set atom_fields \<or> n = ''entry'') \<and> xml_tag x \<noteq> atom_tag n)"

definition parse_atom_feed :: "arxiv_env \<Rightarrow> string \<Rightarrow> char list \<Rightarrow> exc + xml" where
  "parse_atom_feed env ctx payload =
     (case ax_xml env payload of
        None \<Rightarrow> Inl (contract_error (ctx @ '': invalid provider response: malformed Atom XML''))
      | Some feed \<Rightarrow>
          if xml_tag feed \<noteq> atom_tag ''feed'' then Inl (contract_error (ctx @ '': invalid provider response: expected Atom feed''))
          else (case find foreign_field (tl (xml_nodes feed)) of
              None \<Rightarrow> Inr feed
            | Some x \<Rightarrow> Inl (contract_error (ctx @ '': invalid provider response: Atom '' @ local_name (xml_tag x)
                @ '' is not in the Atom namespace''))))"

definition atom_children :: "xml \<Rightarrow> string \<Rightarrow> xml list" where
  "atom_children x name = filter (\<lambda>k. xml_tag k = atom_tag name) (xml_kids x)"

definition atom_find_text :: "xml \<Rightarrow> string \<Rightarrow> string" where
  "atom_find_text x name = (case atom_children x name of [] \<Rightarrow> [] | k # _ \<Rightarrow> xml_text k)"

definition atom_required_text :: "xml \<Rightarrow> string \<Rightarrow> string \<Rightarrow> exc + string" where
  "atom_required_text x field ctx =
     (let v = strip (atom_find_text x field)
      in if v = [] then Inl (contract_error (ctx @ '': invalid provider response: Atom entry is missing '' @ field)) else Inr v)"

definition arxiv_id_of :: "xml \<Rightarrow> string \<Rightarrow> exc + string" where
  "arxiv_id_of entry ctx =
     and_then (atom_required_text entry ''id'' ctx) (\<lambda>entry_id.
       (let i = last (split_on (CHR ''/'') (rev (dropWhile (\<lambda>c. c = CHR ''/'') (rev entry_id))))
        in if i = [] then Inl (contract_error (ctx @ '': invalid provider response: Atom entry has an empty id'')) else Inr i))"

definition api_source_locator :: "string \<Rightarrow> string \<Rightarrow> string \<Rightarrow> string option \<Rightarrow> pyval dict" where
  "api_source_locator source_uri field query arxiv_id =
     [(''kind'', PStr ''api_field''), (''source_uri'', PStr source_uri), (''field'', PStr field), (''query'', PStr query)]
     @ (if str_truthy arxiv_id then [(''arxiv_id'', PStr (the arxiv_id))] else [])"

section \<open>Citations\<close>

definition fetch_citations :: "source_env \<Rightarrow> string \<Rightarrow> int" where
  "fetch_citations env arxiv_id =
     (case so_get env (''https://api.semanticscholar.org/graph/v1/paper/arXiv:'' @ arxiv_id) [(''fields'', PStr ''citationCount'')] of
        Inl _ \<Rightarrow> 0
      | Inr r \<Rightarrow>
          if rp_status r \<noteq> 200 then 0
          else (case rp_json r of
              Inr (PDict d) \<Rightarrow> (case get_or d ''citationCount'' (PInt 0) of PInt n \<Rightarrow> max n 0 | _ \<Rightarrow> 0)
            | _ \<Rightarrow> 0))"

section \<open>Discovery\<close>

definition arxiv_categories :: "string list" where
  "arxiv_categories = [''cs.AI'', ''cs.LG'', ''cs.CL'', ''cs.CV'', ''cs.SE'', ''cs.IR'', ''cs.NE'', ''cs.RO'', ''stat.ML'']"

definition arxiv_params :: "string \<Rightarrow> int \<Rightarrow> pyval dict" where
  "arxiv_params query page =
     [(''search_query'', PStr (''all:('' @ query @ '') AND ('' @ join '' OR '' (map (\<lambda>c. ''cat:'' @ c) arxiv_categories) @ '')'')),
      (''start'', PInt ((page - 1) * 50)), (''max_results'', PInt 50), (''sortBy'', PStr ''relevance''),
      (''sortOrder'', PStr ''descending'')]"

fun author_seeds :: "pyval dict \<Rightarrow> string list \<Rightarrow> xml list \<Rightarrow> raw_seed option list \<times> string list" where
  "author_seeds meta known [] = ([], known)"
| "author_seeds meta known (a # as) =
     (let name = strip (atom_find_text a ''name'')
      in if name = [] \<or> lower name \<in> set known then author_seeds meta known as
         else (case author_seeds meta (lower name # known) as of (seeds, known') \<Rightarrow>
            (new_seed ''arxiv'' (PStr name) (PStr name) meta # seeds, known')))"

fun entry_seeds :: "source_env \<Rightarrow> string \<Rightarrow> string \<Rightarrow> string list \<Rightarrow> xml list \<Rightarrow> exc + raw_seed option list" where
  "entry_seeds env query source_uri known [] = Inr []"
| "entry_seeds env query source_uri known (x # xs) =
     and_then (arxiv_id_of x ''arxiv_search_failed'') (\<lambda>i.
       (case author_seeds [(''arxiv_id'', PStr i), (''citations'', PInt (fetch_citations env i)),
            (''citation_signal'', PStr ''context_only''), (''query'', PStr query),
            (''source_locator'', PDict (api_source_locator source_uri ''author'' query (Some i)))]
            known (atom_children x ''author'') of
          (seeds, known') \<Rightarrow> and_then (entry_seeds env query source_uri known' xs) (\<lambda>rest. Inr (seeds @ rest))))"

definition arxiv_api :: string where "arxiv_api = ''https://export.arxiv.org/api/query''"

definition arxiv_discover :: "arxiv_env \<Rightarrow> string \<Rightarrow> int \<Rightarrow> exc + discovered" where
  "arxiv_discover env query page =
     and_then (normalized ''arxiv_search_failed'' (so_get (ax_source env) arxiv_api (arxiv_params query page))) (\<lambda>r.
       if rp_status r = 429 then Inl (contract_error ''arxiv_rate_limited: HTTP 429'')
       else if rp_status r \<noteq> 200 then Inl (contract_error (''arxiv_search_failed: HTTP '' @ int_str (rp_status r)))
       else and_then (parse_atom_feed env ''arxiv_search_failed'' (rp_content r)) (\<lambda>feed.
         and_then (entry_seeds (ax_source env) query (rp_url r) [] (atom_children feed ''entry'')) (\<lambda>seeds.
           Inr (Seed_List seeds))))"

section \<open>Papers of an author\<close>

record paper =
  pp_id :: string
  pp_title :: string
  pp_summary :: string
  pp_published :: string
  pp_categories :: "string list"
  pp_authors :: "string list"
  pp_citations :: int

definition paper_of :: "source_env \<Rightarrow> xml \<Rightarrow> exc + paper" where
  "paper_of env x =
     and_then (arxiv_id_of x ''arxiv_author_fetch_failed'') (\<lambda>i.
       Inr \<lparr>pp_id = i, pp_title = strip (atom_find_text x ''title''),
         pp_summary = take 2000 (strip (atom_find_text x ''summary'')), pp_published = atom_find_text x ''published'',
         pp_categories = filter (\<lambda>t. t \<noteq> []) (map (\<lambda>k. case dget (xml_attrs k) ''term'' of None \<Rightarrow> [] | Some t \<Rightarrow> t)
           (atom_children x ''category'')),
         pp_authors = filter (\<lambda>n. n \<noteq> []) (map (\<lambda>k. atom_find_text k ''name'') (atom_children x ''author'')),
         pp_citations = fetch_citations env i\<rparr>)"

definition paper_value :: "paper \<Rightarrow> pyval" where
  "paper_value p = PDict [(''arxiv_id'', PStr (pp_id p)), (''title'', PStr (pp_title p)), (''summary'', PStr (pp_summary p)),
     (''published'', PStr (pp_published p)), (''categories'', PList (map PStr (pp_categories p))),
     (''authors'', PList (map PStr (pp_authors p))), (''citations'', PInt (pp_citations p))]"

definition coauthor_text :: "string \<Rightarrow> paper list \<Rightarrow> string" where
  "coauthor_text author papers =
     (let names = sort (remdups (filter (\<lambda>n. lower n \<noteq> lower author) (concat (map pp_authors papers))));
          text = join '','' names
      in if text = [] then ''[No coauthors found]'' else text)"

definition located_row :: "source_env \<Rightarrow> string \<Rightarrow> string \<Rightarrow> real \<Rightarrow> pyval dict \<Rightarrow> pyval" where
  "located_row env predicate text confidence locator =
     PDict [(''predicate'', PStr predicate), (''object_value'', PStr text), (''observed_at'', PStr (so_now env)),
       (''confidence'', PFloat confidence), (''source_locator'', PDict locator)]"

definition paper_rows :: "source_env \<Rightarrow> string \<Rightarrow> string \<Rightarrow> paper list \<Rightarrow> pyval list" where
  "paper_rows env author source_uri papers =
     (let located = (\<lambda>field. api_source_locator source_uri field author None)
      in [located_row env ''arxiv_paper_count'' (nat_str (length papers)) 1 (located ''paper_count''),
          located_row env ''arxiv_total_citations'' (int_str (sum_list (map pp_citations papers))) (8 / 10) (located ''total_citations''),
          located_row env ''arxiv_coauthors'' (coauthor_text author papers) (7 / 10) (located ''coauthors'')])"

section \<open>The PDF of a paper\<close>

definition max_pdf_bytes :: nat where "max_pdf_bytes = 25 * 1024 * 1024"
definition max_evidence_pages :: nat where "max_evidence_pages = 20"
definition max_page_chars :: nat where "max_page_chars = 2000"

definition pdf_rejected :: "string \<Rightarrow> exc" where
  "pdf_rejected why = contract_error (''arxiv_pdf_rejected: '' @ why)"

definition header_or_empty :: "string dict \<Rightarrow> string \<Rightarrow> string" where
  "header_or_empty d k = (case dget d k of None \<Rightarrow> [] | Some v \<Rightarrow> v)"

definition over_limit :: exc where
  "over_limit = pdf_rejected (''response exceeds '' @ nat_str max_pdf_bytes @ ''-byte limit'')"

definition pdf_headers_fault :: "int \<Rightarrow> string dict \<Rightarrow> exc option" where
  "pdf_headers_fault status headers =
     (let content_type = lower (strip (hd (split_on (CHR '';'') (header_or_empty headers ''content-type''))));
          declared = strip (header_or_empty headers ''content-length'')
      in if status \<noteq> 200 then Some (pdf_rejected (''HTTP '' @ int_str status))
         else if content_type \<noteq> ''application/pdf'' then Some (pdf_rejected ''response is not application/pdf'')
         else if declared \<noteq> [] \<and> list_all is_digit declared \<and> int max_pdf_bytes < the (digits_from 0 declared)
         then Some over_limit else None)"

text \<open>Reading a stream without holding more than the limit.\<close>

fun read_chunks :: "nat \<Rightarrow> char list list \<Rightarrow> exc + char list" where
  "read_chunks held [] = Inr []"
| "read_chunks held (c # cs) =
     (if max_pdf_bytes < held + length c then Inl over_limit
      else and_then (read_chunks (held + length c) cs) (\<lambda>rest. Inr (c @ rest)))"

definition count_pdf_pages :: "arxiv_env \<Rightarrow> char list \<Rightarrow> exc + nat" where
  "count_pdf_pages env bytes =
     (case ax_pdf env bytes of
        None \<Rightarrow> Inl (pdf_rejected ''PDF could not be parsed safely'')
      | Some d \<Rightarrow>
          if pd_encrypted d then Inl (pdf_rejected ''encrypted PDF'')
          else if pd_pages d = [] then Inl (pdf_rejected ''PDF has no pages'')
          else if max_evidence_pages < length (pd_pages d)
          then Inl (pdf_rejected (''PDF exceeds '' @ nat_str max_evidence_pages @ ''-page limit''))
          else Inr (length (pd_pages d)))"

definition download_pdf :: "arxiv_env \<Rightarrow> string \<Rightarrow> exc + char list" where
  "download_pdf env url =
     and_then (ax_stream env url) (\<lambda>st.
       (case pdf_headers_fault (ps_status st) (ps_headers st) of
          Some e \<Rightarrow> Inl e
        | None \<Rightarrow> and_then (read_chunks 0 (ps_chunks st)) (\<lambda>bytes.
            if \<not> startswith bytes ''%PDF-'' then Inl (pdf_rejected ''response does not have PDF magic bytes'')
            else and_then (count_pdf_pages env bytes) (\<lambda>n. Inr bytes))))"

definition pdf_page_row :: "source_env \<Rightarrow> string \<Rightarrow> string \<Rightarrow> real \<Rightarrow> nat \<times> string option \<Rightarrow> pyval" where
  "pdf_page_row env url author identity page =
     (let text = (case snd page of None \<Rightarrow> [] | Some t \<Rightarrow> strip t);
          bounded = take max_page_chars text;
          reason = (case snd page of None \<Rightarrow> Some ''text_extraction_failed''
            | Some t \<Rightarrow> if text = [] then Some ''no_extractable_text'' else None)
      in located_row env ''arxiv_pdf_page_text'' (if bounded = [] then ''[No extractable text on page]'' else bounded) (9 / 10)
          ([(''kind'', PStr ''pdf_page''), (''source_uri'', PStr url), (''page'', PInt (int (fst page))), (''char_start'', PInt 0),
            (''char_end'', PInt (int (length bounded))), (''author'', PStr author), (''author_identity_confidence'', PFloat identity)]
           @ (case reason of None \<Rightarrow> [] | Some why \<Rightarrow> [(''reason'', PStr why)])))"

definition pdf_page_rows :: "arxiv_env \<Rightarrow> string \<Rightarrow> string \<Rightarrow> real \<Rightarrow> char list \<Rightarrow> pyval list" where
  "pdf_page_rows env url author identity bytes =
     (case ax_pdf env bytes of
        None \<Rightarrow> []
      | Some d \<Rightarrow> map (pdf_page_row (ax_source env) url author identity)
          (take max_evidence_pages (zip [1..<length (pd_pages d) + 1] (pd_pages d))))"

section \<open>Collection\<close>

definition arxiv_feed :: "arxiv_env \<Rightarrow> string \<Rightarrow> exc + xml \<times> string" where
  "arxiv_feed env author =
     and_then (so_get (ax_source env) arxiv_api [(''search_query'', PStr (''au:'' @ [CHR 0x22] @ author @ [CHR 0x22])),
         (''start'', PInt 0), (''max_results'', PInt 50), (''sortBy'', PStr ''submittedDate''), (''sortOrder'', PStr ''descending'')]) (\<lambda>r.
       if rp_status r \<noteq> 200 then Inl (contract_error (''arxiv_author_fetch_failed: '' @ int_str (rp_status r)))
       else and_then (parse_atom_feed env ''arxiv_author_fetch_failed'' (rp_content r)) (\<lambda>feed. Inr (feed, rp_url r)))"

definition by_citations :: "paper list \<Rightarrow> paper list" where
  "by_citations papers = sort_key (\<lambda>p. - pp_citations p) papers"

definition pdf_url_of :: "paper \<Rightarrow> string" where
  "pdf_url_of p = ''https://arxiv.org/pdf/'' @ pp_id p @ ''.pdf''"

definition identity_confidence :: "string \<Rightarrow> paper \<Rightarrow> real" where
  "identity_confidence author p = (if list_ex (\<lambda>n. lower n = lower author) (pp_authors p) then 8 / 10 else 0)"

definition pdf_material :: "arxiv_env \<Rightarrow> string \<Rightarrow> paper \<Rightarrow> char list \<Rightarrow> pyval list \<Rightarrow> raw_collected" where
  "pdf_material env author p bytes rows =
     \<lparr>rc_content = PBytes bytes, rc_content_type = PStr ''application/pdf'',
      rc_observations = PList (rows @ pdf_page_rows env (pdf_url_of p) author (identity_confidence author p) bytes),
      rc_source_type = PStr ''arxiv'', rc_uri = PStr (pdf_url_of p),
      rc_license_hint = PDict [(''source'', PStr ''arXiv PDF''), (''terms'', PStr ''https://info.arxiv.org/help/api/tou.html''),
        (''evidence_depth'', PStr ''page_coordinates'')]\<rparr>"

definition feed_material :: "arxiv_env \<Rightarrow> string \<Rightarrow> paper list \<Rightarrow> pyval list \<Rightarrow> raw_collected" where
  "feed_material env source_uri papers rows =
     json_material (ax_source env) (PList (map paper_value papers)) rows ''arxiv'' source_uri
       [(''source'', PStr ''arXiv API''), (''terms'', PStr ''https://info.arxiv.org/help/api/tou.html'')]"

text \<open>A connector error of the download is raised again; any other exception falls back to the feed.\<close>

definition deep_material :: "arxiv_env \<Rightarrow> string \<Rightarrow> string \<Rightarrow> paper list \<Rightarrow> pyval list \<Rightarrow> exc + raw_collected" where
  "deep_material env author source_uri papers rows =
     (case by_citations papers of
        [] \<Rightarrow> Inr (feed_material env source_uri papers rows)
      | p # ps \<Rightarrow>
          (case download_pdf env (pdf_url_of p) of
             Inr bytes \<Rightarrow> Inr (pdf_material env author p bytes rows)
           | Inl e \<Rightarrow> (case x_class e of
               Connector_Error kind retry \<Rightarrow> Inl e
             | _ \<Rightarrow> Inr (feed_material env source_uri (p # ps) rows))))"

definition arxiv_collect :: "arxiv_env \<Rightarrow> seed \<Rightarrow> string \<Rightarrow> exc + raw_collected" where
  "arxiv_collect env sd depth =
     (let author = sd_handle sd
      in and_then (arxiv_feed env author) (\<lambda>(feed, source_uri).
         and_then (each_ok (paper_of (ax_source env)) (atom_children feed ''entry'')) (\<lambda>papers.
           (let rows = paper_rows (ax_source env) author source_uri papers
            in if depth = ''deep'' then deep_material env author source_uri papers rows
               else Inr (feed_material env source_uri papers rows)))))"

section \<open>Properties\<close>

lemma author_seeds_sound:
  assumes "author_seeds meta known as = (seeds, known')"
  shows "\<exists>names. seed_handles seeds = map PStr names \<and> seeds_of_source ''arxiv'' seeds
    \<and> distinct (map lower names) \<and> set (map lower names) \<inter> set known = {}
    \<and> set known' = set known \<union> set (map lower names) \<and> (\<forall>n \<in> set names. strip n \<noteq> [])"
  using assms
proof (induction meta known as arbitrary: seeds known' rule: author_seeds.induct)
  case (2 meta known a as)
  define name where "name = strip (atom_find_text a ''name'')"
  show ?case
  proof (cases "name = [] \<or> lower name \<in> set known")
    case True
    with 2 show ?thesis by (simp add: Let_def name_def)
  next
    case False
    obtain rest where r: "author_seeds meta (lower name # known) as = (rest, known')"
      "seeds = new_seed ''arxiv'' (PStr name) (PStr name) meta # rest"
      using 2(3) False by (auto simp: Let_def name_def split: prod.splits)
    from 2(2) [OF name_def] False r(1) obtain names where n: "seed_handles rest = map PStr names"
      "seeds_of_source ''arxiv'' rest" "distinct (map lower names)" "set (map lower names) \<inter> set (lower name # known) = {}"
      "set known' = set (lower name # known) \<union> set (map lower names)" "\<forall>n \<in> set names. strip n \<noteq> []"
      by (auto simp: name_def)
    have "strip name \<noteq> []" using False by (simp add: name_def)
    with n r(2) False show ?thesis by (intro exI [of _ "name # names"]) auto
  qed
qed simp

lemma entry_seeds_sound:
  assumes "entry_seeds env query uri known xs = Inr seeds"
  shows "\<exists>names. seed_handles seeds = map PStr names \<and> seeds_of_source ''arxiv'' seeds
    \<and> distinct (map lower names) \<and> set (map lower names) \<inter> set known = {} \<and> (\<forall>n \<in> set names. strip n \<noteq> [])"
  using assms
proof (induction xs arbitrary: known seeds)
  case (Cons x xs)
  from Cons.prems obtain i here known' rest where
    h: "author_seeds [(''arxiv_id'', PStr i), (''citations'', PInt (fetch_citations env i)),
            (''citation_signal'', PStr ''context_only''), (''query'', PStr query),
            (''source_locator'', PDict (api_source_locator uri ''author'' query (Some i)))] known (atom_children x ''author'')
        = (here, known')"
    and r: "entry_seeds env query uri known' xs = Inr rest" and s: "seeds = here @ rest"
    by (auto dest!: and_then_InrD split: prod.splits)
  from author_seeds_sound [OF h] obtain n1 where n1: "seed_handles here = map PStr n1" "seeds_of_source ''arxiv'' here"
    "distinct (map lower n1)" "set (map lower n1) \<inter> set known = {}" "set known' = set known \<union> set (map lower n1)"
    "\<forall>n \<in> set n1. strip n \<noteq> []" by auto
  from Cons.IH [OF r] obtain n2 where n2: "seed_handles rest = map PStr n2" "seeds_of_source ''arxiv'' rest"
    "distinct (map lower n2)" "set (map lower n2) \<inter> set known' = {}" "\<forall>n \<in> set n2. strip n \<noteq> []" by auto
  with n1 s show ?case by (intro exI [of _ "n1 @ n2"]) auto
qed simp

text \<open>
  A page of arXiv names every author once, ignoring case, never a blank one; the page passes the collector's
  contract exactly when it names at most a hundred authors, although fifty papers may name many more.
\<close>

theorem arxiv_page_needs_few_authors:
  assumes "arxiv_discover env query page = Inr (Seed_List seeds)"
  shows "\<exists>names. seed_handles seeds = map PStr names \<and> distinct (map lower names)
    \<and> ((\<exists>ss. validate_discovered (Seed_List seeds) = Inr ss \<and> map sd_handle ss = names) \<longleftrightarrow> length names \<le> 100)"
proof -
  obtain uri xs where e: "entry_seeds (ax_source env) query uri [] xs = Inr seeds"
    using assms by (auto simp: arxiv_discover_def normalized_def split: sum.splits if_splits dest!: and_then_InrD)
  from entry_seeds_sound [OF e] obtain names where n: "seed_handles seeds = map PStr names" "seeds_of_source ''arxiv'' seeds"
    "distinct (map lower names)" "\<forall>n \<in> set names. strip n \<noteq> []" by auto
  have len: "length seeds = length names" using arg_cong [OF n(1), of length] by (simp add: seed_handles_def)
  have nb: "strip ''arxiv'' \<noteq> []" by code_simp
  from validate_seeds_texts [OF n(2) nb n(1,4)] len
  have "(\<exists>ss. validate_discovered (Seed_List seeds) = Inr ss \<and> map sd_handle ss = names) \<longleftrightarrow> length names \<le> 100"
    by (simp add: validate_discovered_def max_discovery_page_size_def)
  with n show ?thesis by blast
qed

lemma located_row_ok:
  assumes "strip predicate \<noteq> []" and "parse (so_now env) \<noteq> None" and "strip (so_now env) \<noteq> []"
  shows "row_ok parse (located_row env predicate txt c locator) \<longleftrightarrow> strip txt \<noteq> []"
  using assms by (auto simp: located_row_def observation_fault_def Let_def)

lemma take_strip_ne: "strip s \<noteq> [] \<Longrightarrow> 0 < n \<Longrightarrow> strip (take n (strip s)) \<noteq> []"
proof -
  assume s: "strip s \<noteq> []" "0 < n"
  have "\<not> is_space (hd (lstrip s))" if "lstrip s \<noteq> []" for s
    using that hd_dropWhile [of is_space s] by (simp add: lstrip_def)
  moreover have "lstrip (strip s) = strip s" by (simp add: strip_def lstrip_rstrip)
  ultimately have "\<not> is_space (hd (strip s))" using s(1) by metis
  with s show ?thesis by (cases "strip s"; cases n) (auto simp: blank_iff)
qed

lemma arxiv_names:
  "strip ''arxiv_paper_count'' \<noteq> []" "strip ''arxiv_total_citations'' \<noteq> []" "strip ''arxiv_coauthors'' \<noteq> []"
  "strip ''arxiv_pdf_page_text'' \<noteq> []" "strip ''[No extractable text on page]'' \<noteq> []" "strip ''arxiv'' \<noteq> []"
  "strip ''application/pdf'' \<noteq> []"
  by code_simp+

lemma pdf_page_row_ok:
  assumes "parse (so_now env) \<noteq> None" and "strip (so_now env) \<noteq> []"
  shows "row_ok parse (pdf_page_row env url author identity page)"
proof -
  have "strip (take max_page_chars (strip t)) \<noteq> []" if "take max_page_chars (strip t) \<noteq> []" for t
    using that take_strip_ne [of t max_page_chars] by (auto simp: max_page_chars_def)
  then show ?thesis
    unfolding pdf_page_row_def Let_def located_row_ok [where parse = parse and env = env, OF arxiv_names(4) assms]
    using arxiv_names(5) by (auto split: option.splits)
qed

lemma download_pdf_sound:
  assumes "download_pdf env url = Inr bytes"
  obtains doc where "length bytes \<le> max_pdf_bytes" and "startswith bytes ''%PDF-''" and "ax_pdf env bytes = Some doc"
    and "\<not> pd_encrypted doc" and "pd_pages doc \<noteq> []" and "length (pd_pages doc) \<le> max_evidence_pages"
proof -
  have bounded: "held + length got \<le> max_pdf_bytes" if "read_chunks held cs = Inr got" "held \<le> max_pdf_bytes" for held cs got
    using that by (induction held cs arbitrary: got rule: read_chunks.induct) (auto split: if_splits dest!: and_then_InrD)
  from assms obtain n and st :: pdf_stream where r: "read_chunks 0 (ps_chunks st) = Inr bytes" and m: "startswith bytes ''%PDF-''"
    and c: "count_pdf_pages env bytes = Inr n"
    by (auto simp: download_pdf_def split: option.splits if_splits dest!: and_then_InrD)
  from bounded [OF r] have "length bytes \<le> max_pdf_bytes" by simp
  with m c that show thesis by (auto simp: count_pdf_pages_def split: option.splits if_splits)
qed

lemma arxiv_collect_cases:
  assumes "arxiv_collect env sd depth = Inr raw"
  obtains (feed) feed uri papers listed where "arxiv_feed env (sd_handle sd) = Inr (feed, uri)"
      and "each_ok (paper_of (ax_source env)) (atom_children feed ''entry'') = Inr papers"
      and "raw = feed_material env uri listed (paper_rows (ax_source env) (sd_handle sd) uri papers)"
  | (pdf) feed uri papers p bytes where "arxiv_feed env (sd_handle sd) = Inr (feed, uri)"
      and "each_ok (paper_of (ax_source env)) (atom_children feed ''entry'') = Inr papers" and "depth = ''deep''"
      and "download_pdf env (pdf_url_of p) = Inr bytes"
      and "raw = pdf_material env (sd_handle sd) p bytes (paper_rows (ax_source env) (sd_handle sd) uri papers)"
proof -
  from assms obtain feed uri papers where f: "arxiv_feed env (sd_handle sd) = Inr (feed, uri)"
    "each_ok (paper_of (ax_source env)) (atom_children feed ''entry'') = Inr papers"
    and r: "(if depth = ''deep'' then deep_material env (sd_handle sd) uri papers (paper_rows (ax_source env) (sd_handle sd) uri papers)
       else Inr (feed_material env uri papers (paper_rows (ax_source env) (sd_handle sd) uri papers))) = Inr raw"
    by (auto simp: arxiv_collect_def Let_def dest!: and_then_InrD)
  show thesis
  proof (cases "depth = ''deep''")
    case True
    with r have d: "deep_material env (sd_handle sd) uri papers (paper_rows (ax_source env) (sd_handle sd) uri papers) = Inr raw"
      by simp
    show thesis
    proof (cases "by_citations papers")
      case Nil
      with d feed [OF f, of papers] show thesis by (auto simp: deep_material_def)
    next
      case (Cons p ps)
      with d feed [OF f] pdf [OF f True, of p] show thesis
        by (auto simp: deep_material_def split: sum.splits exception_class.splits)
    qed
  qed (use r feed [OF f, of papers] in auto)
qed

lemma pdf_page_rows_ok:
  assumes "parse (so_now (ax_source env)) \<noteq> None" and "strip (so_now (ax_source env)) \<noteq> []"
  shows "\<forall>x \<in> set (pdf_page_rows env url author identity bytes). row_ok parse x"
  using pdf_page_row_ok [where parse = parse, OF assms] by (auto simp: pdf_page_rows_def split: option.splits)

lemma paper_rows_ok:
  assumes "parse (so_now env) \<noteq> None" and "strip (so_now env) \<noteq> []"
  shows "(\<forall>x \<in> set (paper_rows env author uri papers). row_ok parse x) \<longleftrightarrow> strip (coauthor_text author papers) \<noteq> []"
  using located_row_ok [where parse = parse and env = env, OF _ assms] by (simp add: paper_rows_def arxiv_names)

text \<open>
  Material collected from arXiv, of the feed or of the PDF, passes the collector's contract exactly when the
  text that lists the coauthors is not blank. Names of coauthors are not stripped, so it is blank for a
  single coauthor whose name is white space.
\<close>

theorem arxiv_material_accepted:
  assumes "arxiv_collect env sd depth = Inr raw" and "arxiv_feed env (sd_handle sd) = Inr (feed, uri)"
    and "strip uri \<noteq> []" and "parse (so_now (ax_source env)) \<noteq> None" and "strip (so_now (ax_source env)) \<noteq> []"
    and "\<And>v. so_dumps (ax_source env) v \<noteq> []"
  shows "\<exists>papers. each_ok (paper_of (ax_source env)) (atom_children feed ''entry'') = Inr papers
    \<and> ((\<exists>co. validate_collected parse raw = Inr co) \<longleftrightarrow> strip (coauthor_text (sd_handle sd) papers) \<noteq> [])"
  using assms(1)
proof (cases rule: arxiv_collect_cases)
  case (feed f u papers listed)
  with assms(2) have same: "f = feed" "u = uri" by simp_all
  have ok: "(\<exists>co. validate_collected parse raw = Inr co) \<longleftrightarrow>
      (\<forall>x \<in> set (paper_rows (ax_source env) (sd_handle sd) uri papers). row_ok parse x)"
    unfolding feed(3) same feed_material_def by (rule material_accepted [OF assms(6) arxiv_names(6) assms(3)])
  show ?thesis
    using feed(2) unfolding ok same paper_rows_ok [where parse = parse, OF assms(4,5)] by simp
next
  case (pdf f u papers p bytes)
  with assms(2) have same: "f = feed" "u = uri" by simp_all
  obtain doc where "startswith bytes ''%PDF-''" using download_pdf_sound [OF pdf(4)] by blast
  then have ne: "bytes \<noteq> []" by (auto simp: startswith_def)
  have "\<not> is_space CHR ''h''" by (simp add: is_space_def char_code_def Let_def)
  then have url: "strip (pdf_url_of p) \<noteq> []" by (auto simp: blank_iff pdf_url_of_def)
  have "(\<exists>co. validate_collected parse raw = Inr co) \<longleftrightarrow>
      (\<forall>x \<in> set (paper_rows (ax_source env) (sd_handle sd) uri papers
          @ pdf_page_rows env (pdf_url_of p) (sd_handle sd) (identity_confidence (sd_handle sd) p) bytes). row_ok parse x)"
    unfolding pdf(5) same validate_observations_iff [symmetric] using ne url arxiv_names(6,7)
    by (auto simp: validate_collected_def pdf_material_def split: sum.splits)
  with pdf_page_rows_ok [where parse = parse, OF assms(4,5)] paper_rows_ok [where parse = parse, OF assms(4,5)] pdf(2) same
  show ?thesis by (simp add: ball_Un)
qed

text \<open>
  C28. A PDF becomes material only in a deep collection and within its limits: at most 25 megabytes that begin as a
  PDF, not encrypted, one to twenty pages, each of them one observation beside the three of the feed.
\<close>

theorem arxiv_pdf_bounded:
  assumes "arxiv_collect env sd depth = Inr raw" and "rc_content_type raw = PStr ''application/pdf''"
  shows "depth = ''deep'' \<and> (\<exists>bytes doc rows pages. rc_content raw = PBytes bytes \<and> length bytes \<le> max_pdf_bytes
    \<and> startswith bytes ''%PDF-'' \<and> ax_pdf env bytes = Some doc \<and> \<not> pd_encrypted doc
    \<and> rc_observations raw = PList (rows @ pages) \<and> length rows = 3
    \<and> length pages = length (pd_pages doc) \<and> 1 \<le> length pages \<and> length pages \<le> max_evidence_pages)"
  using assms(1)
proof (cases rule: arxiv_collect_cases)
  case (feed f u papers listed)
  with assms(2) show ?thesis by (simp add: feed_material_def json_material_def)
next
  case (pdf f u papers p bytes)
  obtain doc where d: "length bytes \<le> max_pdf_bytes" "startswith bytes ''%PDF-''" "ax_pdf env bytes = Some doc"
    "\<not> pd_encrypted doc" "pd_pages doc \<noteq> []" "length (pd_pages doc) \<le> max_evidence_pages"
    using download_pdf_sound [OF pdf(4)] by blast
  let ?pages = "pdf_page_rows env (pdf_url_of p) (sd_handle sd) (identity_confidence (sd_handle sd) p) bytes"
  have len: "length ?pages = length (pd_pages doc)" using d(3,6) by (simp add: pdf_page_rows_def del: upt_Suc)
  have "1 \<le> length (pd_pages doc)" using d(5) by (cases "pd_pages doc") simp_all
  moreover have "length (paper_rows (ax_source env) (sd_handle sd) u papers) = 3" by (simp add: paper_rows_def)
  ultimately show ?thesis using pdf(3,5) d len
    by (intro conjI exI [of _ bytes] exI [of _ doc] exI [of _ "paper_rows (ax_source env) (sd_handle sd) u papers"]
        exI [of _ ?pages]) (simp_all add: pdf_material_def)
qed

section \<open>A sample\<close>

definition one_author :: xml where
  "one_author = Elem (atom_tag ''author'') [] [] [Elem (atom_tag ''name'') [] ''ada'' []]"

definition one_paper :: xml where
  "one_paper = Elem (atom_tag ''feed'') [] []
     [Elem (atom_tag ''entry'') [] [] [Elem (atom_tag ''id'') [] ''http://arxiv.org/abs/1'' [], one_author]]"

definition one_paper_env :: arxiv_env where
  "one_paper_env = \<lparr>ax_source = answering (\<lambda>url. PDict [(''citationCount'', PInt 3)]), ax_xml = (\<lambda>b. Some one_paper),
     ax_pdf = (\<lambda>b. Some \<lparr>pd_encrypted = False, pd_pages = [Some ''We show'']\<rparr>),
     ax_stream = (\<lambda>url. Inr \<lparr>ps_status = 200, ps_headers = [(''content-type'', ''application/pdf'')], ps_chunks = [''%PDF-1.7'']\<rparr>)\<rparr>"

lemma one_paper_read:
  "arxiv_feed one_paper_env h = Inr (one_paper, arxiv_api)" "atom_children one_paper ''entry'' = [hd (xml_kids one_paper)]"
  "atom_children (hd (xml_kids one_paper)) ''author'' = [one_author]" "atom_find_text one_author ''name'' = ''ada''"
  "arxiv_id_of (hd (xml_kids one_paper)) ctx = Inr ''1''"
proof -
  have ok: "parse_atom_feed one_paper_env ctx [] = Inr one_paper" for ctx
    by (simp add: parse_atom_feed_def one_paper_env_def one_paper_def one_author_def foreign_field_def local_name_def
        atom_tag_def atom_namespace_def Let_def atom_fields_def)
  then show "arxiv_feed one_paper_env h = Inr (one_paper, arxiv_api)"
    by (simp add: arxiv_feed_def) (simp add: one_paper_env_def answering_def ok [unfolded one_paper_env_def answering_def])
  show "atom_children one_paper ''entry'' = [hd (xml_kids one_paper)]"
    by (simp add: one_paper_def atom_children_def atom_tag_def)
  show "atom_children (hd (xml_kids one_paper)) ''author'' = [one_author]" "atom_find_text one_author ''name'' = ''ada''"
    by (simp_all add: one_paper_def one_author_def atom_children_def atom_tag_def atom_find_text_def)
  have "strip ''http://arxiv.org/abs/1'' = ''http://arxiv.org/abs/1''" by code_simp
  then show "arxiv_id_of (hd (xml_kids one_paper)) ctx = Inr ''1''"
    by (simp add: arxiv_id_of_def atom_required_text_def atom_find_text_def atom_children_def one_paper_def atom_tag_def Let_def)
qed

lemma one_paper_collected: "\<exists>bytes rows. arxiv_collect one_paper_env (handle_seed ''arxiv'' ''ada'') ''deep'' = Inr
  \<lparr>rc_content = PBytes bytes, rc_content_type = PStr ''application/pdf'', rc_observations = PList rows,
   rc_source_type = PStr ''arxiv'', rc_uri = PStr ''https://arxiv.org/pdf/1.pdf'',
   rc_license_hint = PDict [(''source'', PStr ''arXiv PDF''), (''terms'', PStr ''https://info.arxiv.org/help/api/tou.html''),
        (''evidence_depth'', PStr ''page_coordinates'')]\<rparr>"
proof -
  have h: "pdf_headers_fault 200 [(''content-type'', ''application/pdf'')] = None" by code_simp
  have d: "download_pdf one_paper_env url = Inr ''%PDF-1.7''" for url
    by (simp add: download_pdf_def one_paper_env_def h max_pdf_bytes_def count_pdf_pages_def max_evidence_pages_def startswith_def)
  obtain p where p: "paper_of (ax_source one_paper_env) (hd (xml_kids one_paper)) = Inr p" "pp_id p = ''1''"
    by (simp add: paper_of_def one_paper_read)
  then show ?thesis
    by (simp add: arxiv_collect_def Let_def one_paper_read handle_seed_def deep_material_def by_citations_def d pdf_material_def
        pdf_url_of_def)
qed

lemma one_paper_page: "\<exists>seeds. arxiv_discover one_paper_env query page = Inr (Seed_List seeds) \<and> seed_handles seeds = [PStr ''ada'']"
proof -
  have ok: "parse_atom_feed one_paper_env ctx [] = Inr one_paper" for ctx
    by (simp add: parse_atom_feed_def one_paper_env_def one_paper_def one_author_def foreign_field_def local_name_def
        atom_tag_def atom_namespace_def Let_def atom_fields_def)
  have ada: "strip ''ada'' = ''ada''" by code_simp
  show ?thesis
    by (simp add: arxiv_discover_def normalized_def)
      (simp add: one_paper_env_def answering_def ok [unfolded one_paper_env_def answering_def] one_paper_read Let_def ada)
qed

theorem arxiv_page_needs_few_authors_witness:
  "\<exists>seeds ss. arxiv_discover one_paper_env ''ai'' 1 = Inr (Seed_List seeds)
     \<and> validate_discovered (Seed_List seeds) = Inr ss \<and> map sd_handle ss = [''ada'']"
proof -
  obtain seeds where s: "arxiv_discover one_paper_env ''ai'' 1 = Inr (Seed_List seeds)" "seed_handles seeds = [PStr ''ada'']"
    using one_paper_page by blast
  with arxiv_page_needs_few_authors [OF s(1)] show ?thesis by auto
qed

theorem arxiv_material_accepted_witness:
  "\<exists>raw co. arxiv_collect one_paper_env (handle_seed ''arxiv'' ''ada'') ''deep'' = Inr raw
     \<and> validate_collected (\<lambda>t. Some 0) raw = Inr co"
proof -
  obtain raw where raw: "arxiv_collect one_paper_env (handle_seed ''arxiv'' ''ada'') ''deep'' = Inr raw"
    using one_paper_collected by blast
  have side: "strip arxiv_api \<noteq> []" "strip (so_now (ax_source one_paper_env)) \<noteq> []" "so_dumps (ax_source one_paper_env) v \<noteq> []" for v
    by (simp_all add: one_paper_env_def answering_def) code_simp+
  obtain p where p: "paper_of (ax_source one_paper_env) (hd (xml_kids one_paper)) = Inr p" "pp_authors p = [''ada'']"
    by (simp add: paper_of_def one_paper_read)
  have "strip ''[No coauthors found]'' \<noteq> []" by code_simp
  then have "strip (coauthor_text ''ada'' [p]) \<noteq> []" by (simp add: coauthor_text_def p)
  with arxiv_material_accepted [where parse = "\<lambda>t. Some 0", OF raw one_paper_read(1) side(1) _ side(2,3)] raw
  show ?thesis by (auto simp: one_paper_read p handle_seed_def)
qed

theorem arxiv_pdf_bounded_witness:
  "\<exists>raw rows. arxiv_collect one_paper_env (handle_seed ''arxiv'' ''ada'') ''deep'' = Inr raw
     \<and> rc_observations raw = PList rows \<and> 4 \<le> length rows \<and> length rows \<le> 23"
proof -
  obtain raw where raw: "arxiv_collect one_paper_env (handle_seed ''arxiv'' ''ada'') ''deep'' = Inr raw"
    "rc_content_type raw = PStr ''application/pdf''" using one_paper_collected by fastforce
  from arxiv_pdf_bounded [OF raw] raw(1) show ?thesis by (auto simp: max_evidence_pages_def)
qed

end
