(* ===== verification/Web_Url.thy ===== *)
theory Web_Url
  imports Source_Http Inbound_Intake
begin

text \<open>
  URLs as the web connector reads them, \<^verbatim>\<open>app/collectors/sources/website.py\<close>: \<open>urlparse\<close>, \<open>geturl\<close> and \<open>urljoin\<close> of
  the standard library for addresses with an authority, and the target check \<open>_validate_http_url\<close>. Which
  authorities \<open>urlsplit\<close> refuses for their brackets or their Unicode form is \<open>netloc_ok\<close>; \<open>public\<close> is
  \<open>ipaddress.ip_address(text).is_global\<close>, \<open>None\<close> for a text that is no address.
\<close>

section \<open>Parsing and printing\<close>

record url_parts =
  up_scheme :: string
  up_netloc :: string
  up_path :: string
  up_params :: string
  up_query :: string
  up_fragment :: string

definition clean_url :: "string \<Rightarrow> string" where
  "clean_url s = filter (\<lambda>c. c \<notin> {CHR 0x09, CHR 0x0A, CHR 0x0D}) (dropWhile (\<lambda>c. char_code c \<le> 32) s)"

text \<open>\<open>s.split(c, 1)\<close>: before the first \<open>c\<close>, and after it.\<close>

definition cut :: "char \<Rightarrow> string \<Rightarrow> string \<times> string" where
  "cut c s = (takeWhile (\<lambda>x. x \<noteq> c) s, tl (dropWhile (\<lambda>x. x \<noteq> c) s))"

text \<open>\<open>_splitparams\<close>: the parameters of the last segment.\<close>

definition split_params :: "string \<Rightarrow> string \<times> string" where
  "split_params path =
     (let seg = rev (takeWhile (\<lambda>c. c \<noteq> CHR ''/'') (rev path)); front = take (length path - length seg) path
      in case cut (CHR '';'') seg of (a, b) \<Rightarrow> (front @ a, b))"

definition netloc_end :: "char \<Rightarrow> bool" where
  "netloc_end c = (c \<in> {CHR ''/'', CHR ''?'', CHR ''#''})"

definition parse_url :: "(string \<Rightarrow> bool) \<Rightarrow> string \<Rightarrow> string \<Rightarrow> url_parts option" where
  "parse_url netloc_ok default_scheme s =
     (case split_scheme (clean_url s) of (scheme, rest) \<Rightarrow>
        (let netloc = (if startswith rest ''//'' then takeWhile (\<lambda>c. \<not> netloc_end c) (drop 2 rest) else []);
             tail = (if startswith rest ''//'' then drop (2 + length netloc) rest else rest)
         in if (CHR ''['' \<in> set netloc) \<noteq> (CHR '']'' \<in> set netloc) \<or> \<not> netloc_ok netloc then None
            else (case cut (CHR ''#'') tail of (front, fragment) \<Rightarrow>
              (case cut (CHR ''?'') front of (whole_path, query) \<Rightarrow>
                (case split_params whole_path of (path, params) \<Rightarrow>
                  Some \<lparr>up_scheme = (if scheme = [] then default_scheme else scheme), up_netloc = netloc, up_path = path,
                    up_params = params, up_query = query, up_fragment = fragment\<rparr>)))))"

definition unless_empty :: "string \<Rightarrow> string \<Rightarrow> string" where
  "unless_empty mark s = (if s = [] then [] else mark @ s)"

definition print_url :: "url_parts \<Rightarrow> string" where
  "print_url p =
     (let path = up_path p @ unless_empty '';'' (up_params p)
      in up_scheme p @ ''://'' @ up_netloc p
         @ (if path \<noteq> [] \<and> \<not> startswith path ''/'' then ''/'' @ path else path)
         @ unless_empty ''?'' (up_query p) @ unless_empty ''#'' (up_fragment p))"

section \<open>Joining\<close>

fun resolve_dots :: "string list \<Rightarrow> string list \<Rightarrow> string list" where
  "resolve_dots acc [] = rev acc"
| "resolve_dots acc (s # ss) =
     (if s = ''..'' then resolve_dots (tl acc) ss else if s = ''.'' then resolve_dots acc ss else resolve_dots (s # acc) ss)"

definition join_segments :: "string \<Rightarrow> string \<Rightarrow> string list" where
  "join_segments base path =
     (if startswith path ''/'' then split_on (CHR ''/'') path
      else (let parts = split_on (CHR ''/'') base; base_parts = (if last parts = [] then parts else butlast parts);
                all = base_parts @ split_on (CHR ''/'') path
            in if length all \<le> 1 then all
               else hd all # filter (\<lambda>s. s \<noteq> []) (butlast (tl all)) @ [last all]))"

definition joined_path :: "string \<Rightarrow> string \<Rightarrow> string" where
  "joined_path base path =
     (let segments = join_segments base path;
          resolved = resolve_dots [] segments @ (if last segments \<in> {''.'', ''..''} then [[]] else []);
          p = join ''/'' resolved
      in if p = [] then ''/'' else p)"

text \<open>\<open>urljoin(base, url)\<close> for a base with an authority and a scheme of the web.\<close>

definition join_url :: "(string \<Rightarrow> bool) \<Rightarrow> string \<Rightarrow> string \<Rightarrow> string option" where
  "join_url netloc_ok base url =
     (if base = [] then Some url else if url = [] then Some base
      else (case parse_url netloc_ok [] base of None \<Rightarrow> None | Some b \<Rightarrow>
        (case parse_url netloc_ok (up_scheme b) url of None \<Rightarrow> None | Some u \<Rightarrow>
          if up_scheme u \<noteq> up_scheme b then Some url
          else if up_netloc u \<noteq> [] then Some (print_url u)
          else if up_path u = [] \<and> up_params u = []
          then Some (print_url (u\<lparr>up_netloc := up_netloc b, up_path := up_path b, up_params := up_params b,
                 up_query := (if up_query u = [] then up_query b else up_query u)\<rparr>))
          else Some (print_url (u\<lparr>up_netloc := up_netloc b, up_path := joined_path (up_path b) (up_path u)\<rparr>)))))"

section \<open>The authority\<close>

definition host_info :: "string \<Rightarrow> string" where
  "host_info netloc = rev (takeWhile (\<lambda>c. c \<noteq> CHR ''@'') (rev netloc))"

definition host_port :: "string \<Rightarrow> string \<times> string" where
  "host_port netloc =
     (let info = host_info netloc
      in if CHR ''['' \<in> set info
         then (case cut (CHR '']'') (snd (cut (CHR ''['') info)) of (host, rest) \<Rightarrow> (host, snd (cut (CHR '':'') rest)))
         else cut (CHR '':'') info)"

text \<open>\<open>parsed.hostname\<close>: in lower case up to the zone of an IPv6 address.\<close>

definition parsed_host :: "url_parts \<Rightarrow> string option" where
  "parsed_host p =
     (let host = fst (host_port (up_netloc p))
      in if host = [] then None
         else Some (lower (takeWhile (\<lambda>c. c \<noteq> CHR ''%'') host) @ dropWhile (\<lambda>c. c \<noteq> CHR ''%'') host))"

text \<open>\<open>parsed.port\<close>: an outer \<open>None\<close> is its \<open>ValueError\<close>.\<close>

definition url_port :: "url_parts \<Rightarrow> int option option" where
  "url_port p =
     (let port = snd (host_port (up_netloc p))
      in if port = [] then Some None
         else if list_all is_digit port \<and> the (digits_from 0 port) \<le> 65535 then Some (Some (the (digits_from 0 port)))
         else None)"

definition has_credentials :: "url_parts \<Rightarrow> bool" where
  "has_credentials p =
     (CHR ''@'' \<in> set (up_netloc p) \<and>
      (let info = take (length (up_netloc p) - length (host_info (up_netloc p)) - 1) (up_netloc p)
       in fst (cut (CHR '':'') info) \<noteq> [] \<or> snd (cut (CHR '':'') info) \<noteq> []))"

section \<open>The target check\<close>

definition local_host_suffixes :: "string list" where
  "local_host_suffixes = [''.localhost'', ''.local'', ''.internal'', ''.lan'', ''.home.arpa'']"

definition endswith :: "string \<Rightarrow> string \<Rightarrow> bool" where
  "endswith s ending = startswith (rev s) (rev ending)"

definition bare_host :: "string \<Rightarrow> string" where
  "bare_host host = lower (rev (dropWhile (\<lambda>c. c = CHR ''.'') (rev host)))"

definition local_name_host :: "string \<Rightarrow> bool" where
  "local_name_host host = (host \<in> {''localhost'', ''localhost.localdomain''} \<or> list_ex (endswith host) local_host_suffixes)"

definition url_rejected :: "string \<Rightarrow> exc" where
  "url_rejected why = contract_error (''website_url_rejected: '' @ why)"

definition invalid_url :: exc where
  "invalid_url = other_error ''ValueError'' ''Invalid IPv6 URL''"

definition target_fault :: "(string \<Rightarrow> bool option) \<Rightarrow> url_parts \<Rightarrow> exc option" where
  "target_fault public p =
     (if up_scheme p \<notin> {''http'', ''https''} then Some (url_rejected ''only public http(s) URLs are allowed'')
      else (case parsed_host p of
          None \<Rightarrow> Some (url_rejected ''only public http(s) URLs are allowed'')
        | Some host \<Rightarrow>
            if has_credentials p then Some (url_rejected ''credentials in URL are not allowed'')
            else (case url_port p of
                None \<Rightarrow> Some (url_rejected ''invalid port'')
              | Some port \<Rightarrow>
                  if local_name_host (bare_host host) then Some (url_rejected ''local hostname is not allowed'')
                  else if public (bare_host host) = Some False then Some (url_rejected ''private or reserved address'')
                  else (case port of
                      Some n \<Rightarrow> if 1 \<le> n \<and> n \<le> 65535 then None else Some (url_rejected ''invalid port'')
                    | None \<Rightarrow> None))))"

definition validate_http_url :: "(string \<Rightarrow> bool) \<Rightarrow> (string \<Rightarrow> bool option) \<Rightarrow> string \<Rightarrow> exc + string" where
  "validate_http_url netloc_ok public raw_url =
     (case parse_url netloc_ok [] raw_url of
        None \<Rightarrow> Inl invalid_url
      | Some p \<Rightarrow> (case target_fault public p of Some e \<Rightarrow> Inl e | None \<Rightarrow> Inr (print_url p)))"

section \<open>Properties\<close>

lemma split_params_empty: "split_params [] = ([], [])"
  by (simp add: split_params_def cut_def)

text \<open>A path that begins with a slash keeps it.\<close>

lemma split_params_slash:
  assumes "startswith path ''/''"
  shows "startswith (fst (split_params path)) ''/''"
proof -
  obtain rest where path: "path = CHR ''/'' # rest" using assms by (cases path) (auto simp: startswith_def)
  let ?seg = "takeWhile (\<lambda>c. c \<noteq> CHR ''/'') (rev path)"
  have "dropWhile (\<lambda>c. c \<noteq> CHR ''/'') (rev path) \<noteq> []" by (simp add: path)
  moreover have "length ?seg + length (dropWhile (\<lambda>c. c \<noteq> CHR ''/'') (rev path)) = length path"
    by (metis length_append length_rev takeWhile_dropWhile_id)
  ultimately have "length ?seg < length path" by (simp only: length_greater_0_conv [symmetric])
  then have "0 < length path - length ?seg" by simp
  then obtain n where "length path - length ?seg = Suc n" by (cases "length path - length ?seg") auto
  then show ?thesis by (auto simp: split_params_def Let_def path startswith_def split: prod.splits)
qed

definition sound_parts :: "(string \<Rightarrow> bool) \<Rightarrow> url_parts \<Rightarrow> bool" where
  "sound_parts netloc_ok p =
     (list_all (\<lambda>c. \<not> netloc_end c \<and> c \<notin> {CHR 0x09, CHR 0x0A, CHR 0x0D}) (up_netloc p)
      \<and> (CHR ''['' \<in> set (up_netloc p) \<longleftrightarrow> CHR '']'' \<in> set (up_netloc p)) \<and> netloc_ok (up_netloc p)
      \<and> (up_path p = [] \<longrightarrow> up_params p = []))"

lemma parse_url_sound:
  assumes "parse_url ok d s = Some p" and "up_netloc p \<noteq> []"
  shows "sound_parts ok p"
proof -
  obtain scheme rest where sp: "split_scheme (clean_url s) = (scheme, rest)" by fastforce
  have sub: "set rest \<subseteq> set (clean_url s)"
    using sp by (auto simp: split_scheme_def Let_def split: if_splits dest: in_set_dropD)
  have sl: "startswith rest ''//''" using assms sp by (auto simp: parse_url_def Let_def split: prod.splits if_splits)
  define netloc where "netloc = takeWhile (\<lambda>c. \<not> netloc_end c) (drop 2 rest)"
  define tail where "tail = dropWhile (\<lambda>c. \<not> netloc_end c) (drop 2 rest)"
  have tail: "drop (2 + length netloc) rest = tail"
    by (simp add: netloc_def tail_def dropWhile_eq_drop add.commute)
  define front where "front = takeWhile (\<lambda>x. x \<noteq> CHR ''#'') tail"
  define whole where "whole = takeWhile (\<lambda>x. x \<noteq> CHR ''?'') front"
  have p: "up_netloc p = netloc" "(up_path p, up_params p) = split_params whole" "netloc_ok' = ok \<Longrightarrow> ok netloc"
    "CHR ''['' \<in> set netloc \<longleftrightarrow> CHR '']'' \<in> set netloc" for netloc_ok'
    using assms(1) sp sl tail
    by (auto simp: parse_url_def Let_def cut_def whole_def front_def netloc_def [symmetric] split: prod.splits if_splits)
  have "whole = [] \<or> startswith whole ''/''"
  proof (cases tail)
    case (Cons c cs)
    then have "netloc_end c" using hd_dropWhile [of "\<lambda>c. \<not> netloc_end c" "drop 2 rest"] by (simp add: tail_def [symmetric])
    with Cons show ?thesis by (auto simp: whole_def front_def netloc_end_def startswith_def)
  qed (simp add: whole_def front_def)
  then have path: "up_path p = [] \<Longrightarrow> up_params p = []"
  proof
    assume "startswith whole ''/''" "up_path p = []"
    then show ?thesis using split_params_slash [of whole] p(2) by (auto simp: startswith_def dest: arg_cong [of _ _ fst])
  qed (use p(2) split_params_empty in simp)
  have "\<not> netloc_end c \<and> c \<in> set (clean_url s)" if "c \<in> set netloc" for c
    using that sub set_takeWhileD [of c _ "drop 2 rest"] by (auto simp: netloc_def dest: in_set_dropD)
  with p path show ?thesis by (auto simp: sound_parts_def list_all_iff clean_url_def)
qed

lemma schemes_read:
  assumes "scheme \<in> {''http'', ''https''}"
  shows "split_scheme (scheme @ CHR '':'' # t) = (scheme, t)"
    and "clean_url (scheme @ CHR '':'' # t) = scheme @ CHR '':'' # filter (\<lambda>c. c \<notin> {CHR 0x09, CHR 0x0A, CHR 0x0D}) t"
proof -
  have "list_all scheme_char ''http''" "list_all scheme_char ''https''" "lower ''http'' = ''http''" "lower ''https'' = ''https''"
    "is_alpha CHR ''h''" by code_simp+
  with assms show "split_scheme (scheme @ CHR '':'' # t) = (scheme, t)" by (auto simp: split_scheme_def)
  have "\<not> char_code CHR ''h'' \<le> 32" by code_simp
  with assms show "clean_url (scheme @ CHR '':'' # t) = scheme @ CHR '':'' # filter (\<lambda>c. c \<notin> {CHR 0x09, CHR 0x0A, CHR 0x0D}) t"
    by (auto simp: clean_url_def)
qed

lemma print_url_read:
  assumes "sound_parts ok p" and "up_scheme p \<in> {''http'', ''https''}"
  shows "\<exists>q. parse_url ok [] (print_url p) = Some q \<and> up_scheme q = up_scheme p \<and> up_netloc q = up_netloc p"
proof -
  let ?keep = "\<lambda>c. c \<notin> {CHR 0x09, CHR 0x0A, CHR 0x0D}"
  define path where "path = up_path p @ unless_empty '';'' (up_params p)"
  define after where "after = (if path \<noteq> [] \<and> \<not> startswith path ''/'' then ''/'' @ path else path)
      @ unless_empty ''?'' (up_query p) @ unless_empty ''#'' (up_fragment p)"
  have printed: "print_url p = up_scheme p @ CHR '':'' # ''//'' @ up_netloc p @ after"
    by (simp add: print_url_def path_def after_def Let_def)
  have "after = [] \<or> netloc_end (hd after)"
  proof (cases "up_path p")
    case Nil
    with assms(1) have "path = []" by (simp add: path_def sound_parts_def unless_empty_def)
    then show ?thesis by (auto simp: after_def unless_empty_def netloc_end_def)
  next
    case (Cons c cs)
    then show ?thesis by (auto simp: after_def path_def netloc_end_def startswith_def)
  qed
  then have ends: "takeWhile (\<lambda>c. \<not> netloc_end c) (filter ?keep after) = []"
    by (cases after) (auto simp: netloc_end_def)
  have keep: "filter ?keep (up_netloc p) = up_netloc p" "\<forall>c \<in> set (up_netloc p). \<not> netloc_end c"
    using assms(1) by (auto simp: sound_parts_def list_all_iff filter_id_conv)
  have net: "takeWhile (\<lambda>c. \<not> netloc_end c) (up_netloc p @ filter ?keep after) = up_netloc p"
    using keep(2) ends by (simp add: takeWhile_append)
  have ne: "up_scheme p \<noteq> []" using assms(2) by auto
  have cleaned: "clean_url (print_url p) = up_scheme p @ CHR '':'' # ''//'' @ up_netloc p @ filter ?keep after"
    unfolding printed schemes_read(2) [OF assms(2)] using keep(1) by simp
  show ?thesis
    unfolding parse_url_def cleaned schemes_read(1) [OF assms(2)]
    using assms(1) net ne by (auto simp: sound_parts_def Let_def startswith_def split: prod.splits)
qed

end
