(* ===== verification/Web_Source.thy ===== *)
theory Web_Source
  imports Web_Url Api_Sources
begin

text \<open>
  The connectors of the open web: \<^verbatim>\<open>website.py\<close>, which fetches a page with Tavily or by itself, and \<^verbatim>\<open>tavily_search.py\<close>,
  \<^verbatim>\<open>linkedin.py\<close>, \<^verbatim>\<open>podcasts.py\<close> and \<^verbatim>\<open>hackathons.py\<close>, which find pages with Tavily and have them fetched by the
  first, all of \<^verbatim>\<open>app/collectors/sources\<close>. The network is functions: name resolution, one request without
  redirects, the Tavily client. A fetch also gives the list of the addresses it requests, in order. What a
  name resolves to is the same for the check and for the request that follows it.
\<close>

section \<open>The network\<close>

record web_reply =
  wr_status :: int
  wr_headers :: "string dict"
  wr_error :: "exc option"
  wr_chunks :: "char list list"

record tavily =
  tv_search :: "string \<Rightarrow> nat \<Rightarrow> exc + pyval"
  tv_extract :: "string \<Rightarrow> exc + pyval"

record web_env =
  we_source :: source_env
  we_netloc_ok :: "string \<Rightarrow> bool"
  we_public :: "string \<Rightarrow> bool option"
  we_resolve :: "string \<Rightarrow> int \<Rightarrow> exc + string list"
  we_request :: "string \<Rightarrow> exc + web_reply"
  we_http_error :: "exc \<Rightarrow> bool"
  we_tavily :: "exc + tavily option"
  we_max_bytes :: nat

definition fetch_failed :: "string \<Rightarrow> exc" where
  "fetch_failed why = contract_error (''website_fetch_failed: '' @ why)"

section \<open>A bounded fetch\<close>

definition validate_resolved_host :: "web_env \<Rightarrow> string \<Rightarrow> exc option" where
  "validate_resolved_host env url =
     (case parse_url (we_netloc_ok env) [] url of
        None \<Rightarrow> Some invalid_url
      | Some p \<Rightarrow> (case parsed_host p of
          None \<Rightarrow> Some (url_rejected ''missing hostname'')
        | Some host \<Rightarrow> (case url_port p of
            None \<Rightarrow> Some (fetch_failed ''hostname resolution failed'')
          | Some port \<Rightarrow>
              (case we_resolve env host (case port of Some n \<Rightarrow> if n \<noteq> 0 then n else if up_scheme p = ''https'' then 443 else 80
                   | None \<Rightarrow> if up_scheme p = ''https'' then 443 else 80) of
                 Inl _ \<Rightarrow> Some (fetch_failed ''hostname resolution failed'')
               | Inr addresses \<Rightarrow>
                   if list_ex (\<lambda>a. we_public env a = None) addresses
                   then Some (other_error ''ValueError'' ''does not appear to be an IPv4 or IPv6 address'')
                   else if addresses = [] \<or> list_ex (\<lambda>a. we_public env a = Some False) addresses
                   then Some (url_rejected ''hostname resolves to private or reserved address'')
                   else None))))"

record fetched =
  ft_url :: string
  ft_body :: "char list"
  ft_type :: string
  ft_status :: int

definition over_byte_limit :: exc where
  "over_byte_limit = fetch_failed ''response exceeds byte limit''"

fun read_body :: "nat \<Rightarrow> nat \<Rightarrow> char list list \<Rightarrow> exc + char list" where
  "read_body limit held [] = Inr []"
| "read_body limit held (c # cs) =
     (if limit < held + length c then Inl over_byte_limit
      else and_then (read_body limit (held + length c) cs) (\<lambda>rest. Inr (c @ rest)))"

definition read_response :: "nat \<Rightarrow> string \<Rightarrow> web_reply \<Rightarrow> exc + fetched" where
  "read_response limit url r =
     (case wr_error r of
        Some e \<Rightarrow> Inl e
      | None \<Rightarrow>
          (let declared = (case dget (wr_headers r) ''content-length'' of Some s \<Rightarrow> s | None \<Rightarrow> [])
           in if declared \<noteq> [] \<and> list_all is_digit declared \<and> int limit < the (digits_from 0 declared) then Inl over_byte_limit
              else and_then (read_body limit 0 (wr_chunks r)) (\<lambda>body.
                Inr \<lparr>ft_url = url, ft_body = body,
                  ft_type = (case dget (wr_headers r) ''content-type'' of Some s \<Rightarrow> s | None \<Rightarrow> ''text/html''),
                  ft_status = wr_status r\<rparr>)))"

definition redirect_target :: "web_env \<Rightarrow> string \<Rightarrow> web_reply \<Rightarrow> exc + string" where
  "redirect_target env url r =
     (case dget (wr_headers r) ''location'' of
        None \<Rightarrow> Inl (fetch_failed ''redirect has no location'')
      | Some loc \<Rightarrow>
          if loc = [] then Inl (fetch_failed ''redirect has no location'')
          else (case join_url (we_netloc_ok env) url loc of
              None \<Rightarrow> Inl invalid_url
            | Some target \<Rightarrow> validate_http_url (we_netloc_ok env) (we_public env) target))"

fun fetch_hops :: "web_env \<Rightarrow> nat \<Rightarrow> string \<Rightarrow> string list \<times> (exc + fetched)" where
  "fetch_hops env 0 url = ([], Inl (fetch_failed ''too many redirects''))"
| "fetch_hops env (Suc hops) url =
     (case validate_resolved_host env url of
        Some e \<Rightarrow> ([], Inl e)
      | None \<Rightarrow>
          (case we_request env url of
             Inl e \<Rightarrow> ([url], Inl e)
           | Inr r \<Rightarrow>
               if 300 \<le> wr_status r \<and> wr_status r \<le> 399
               then (case redirect_target env url r of
                   Inl e \<Rightarrow> ([url], Inl e)
                 | Inr next_url \<Rightarrow> (case fetch_hops env hops next_url of (requested, res) \<Rightarrow> (url # requested, res)))
               else ([url], read_response (we_max_bytes env) url r)))"

definition max_redirects :: nat where "max_redirects = 5"

definition fetch_bounded_http :: "web_env \<Rightarrow> string \<Rightarrow> string list \<times> (exc + fetched)" where
  "fetch_bounded_http env url =
     (case validate_http_url (we_netloc_ok env) (we_public env) url of
        Inl e \<Rightarrow> ([], Inl e)
      | Inr checked \<Rightarrow> fetch_hops env (max_redirects + 1) checked)"

section \<open>Links to known sources\<close>

definition known_source_domains :: "string list" where
  "known_source_domains = [''github.com'', ''producthunt.com'', ''arxiv.org'', ''linkedin.com'', ''youtube.com'',
     ''devpost.com'', ''mlh.io'', ''hackernews.com'', ''news.ycombinator.com'']"

text \<open>\<^verbatim>\<open>https?://([^/\s]+)([^\s]*)\<close>: the whole match and its first group.\<close>

definition link_match :: "char option \<Rightarrow> string \<Rightarrow> (nat \<times> string \<times> string) option" where
  "link_match prev s =
     (let n = (if startswith s ''http://'' then 7 else if startswith s ''https://'' then 8 else 0 :: nat);
          domain = takeWhile (\<lambda>c. c \<noteq> CHR ''/'' \<and> \<not> is_space c) (drop n s);
          whole = take n s @ takeWhile (\<lambda>c. \<not> is_space c) (drop n s)
      in if n = 0 \<or> domain = [] then None else Some (length whole, whole, domain))"

definition extract_known_links :: "string \<Rightarrow> string list" where
  "extract_known_links text =
     map fst (filter (\<lambda>(whole, domain). list_ex (\<lambda>known. lower domain = known \<or> endswith (lower domain) (''.'' @ known))
       known_source_domains) (find_all link_match None text))"

section \<open>The website connector\<close>

text \<open>\<open>text.encode('utf-8')\<close>\<close>

definition utf8_char :: "char \<Rightarrow> char list" where
  "utf8_char c = (if char_code c < 128 then [c]
     else [char_of (192 + char_code c div 64 :: nat), char_of (128 + char_code c mod 64 :: nat)])"

definition utf8 :: "string \<Rightarrow> char list" where
  "utf8 s = concat (map utf8_char s)"

text \<open>The page Tavily extracts; whatever is raised on the way, also for a page over the limit, gives none.\<close>

definition extracted_page :: "exc + pyval \<Rightarrow> pyval option" where
  "extracted_page m =
     (case m of Inr (PDict d) \<Rightarrow>
        (case dget d ''results'' of
           Some (PList (page # pages)) \<Rightarrow> (case page of PDict _ \<Rightarrow> Some page | _ \<Rightarrow> None)
         | _ \<Rightarrow> None)
      | _ \<Rightarrow> None)"

definition page_text :: "pyval \<Rightarrow> string option" where
  "page_text page =
     (case page of PDict d \<Rightarrow> (case get_or d ''raw_content'' (PStr []) of PStr s \<Rightarrow> if s = [] then None else Some s | _ \<Rightarrow> None)
      | _ \<Rightarrow> None)"

definition page_title :: "pyval \<Rightarrow> string" where
  "page_title page = (case page of PDict d \<Rightarrow> (case dget d ''title'' of Some (PStr s) \<Rightarrow> strip s | _ \<Rightarrow> []) | _ \<Rightarrow> [])"

definition extract_rows :: "source_env \<Rightarrow> pyval \<Rightarrow> string \<Rightarrow> pyval list" where
  "extract_rows env page raw =
     sighting_if env ''page_title'' (PStr (page_title page)) (9 / 10)
     @ [sighting env ''page_content'' (PStr (take 5000 raw)) (7 / 10)]
     @ map (\<lambda>link. sighting env ''outbound_link'' (PStr link) (8 / 10)) (extract_known_links raw)"

definition tavily_material :: "web_env \<Rightarrow> tavily \<Rightarrow> string \<Rightarrow> raw_collected option" where
  "tavily_material env tv url =
     (case extracted_page (tv_extract tv url) of
        None \<Rightarrow> None
      | Some page \<Rightarrow> (case page_text page of
          None \<Rightarrow> None
        | Some raw \<Rightarrow>
            if we_max_bytes env < length (utf8 raw) then None
            else Some \<lparr>rc_content = PBytes (utf8 raw), rc_content_type = PStr ''text/markdown'',
              rc_observations = PList (extract_rows (we_source env) page raw), rc_source_type = PStr ''web'', rc_uri = PStr url,
              rc_license_hint = PDict [(''source'', PStr ''Tavily Extract''), (''terms'', PStr ''https://tavily.com'')]\<rparr>))"

definition fetched_material :: "web_env \<Rightarrow> string \<Rightarrow> fetched \<Rightarrow> raw_collected" where
  "fetched_material env url f =
     \<lparr>rc_content = PBytes (ft_body f), rc_content_type = PStr (ft_type f),
      rc_observations = PList [sighting (we_source env) ''page_title'' (PStr (ft_url f)) (5 / 10),
        sighting (we_source env) ''http_status'' (PStr (int_str (ft_status f))) 1],
      rc_source_type = PStr ''web'', rc_uri = PStr url, rc_license_hint = PNone\<rparr>"

definition fetch_fallback :: "web_env \<Rightarrow> string \<Rightarrow> string list \<times> (exc + raw_collected)" where
  "fetch_fallback env url =
     (case fetch_bounded_http env url of (requested, res) \<Rightarrow>
        (requested, case res of
           Inr f \<Rightarrow> Inr (fetched_material env url f)
         | Inl e \<Rightarrow> Inl (if we_http_error env e then fetch_failed (x_text e) else e)))"

definition web_collect :: "web_env \<Rightarrow> seed \<Rightarrow> string \<Rightarrow> string list \<times> (exc + raw_collected)" where
  "web_collect env sd depth =
     (case validate_http_url (we_netloc_ok env) (we_public env) (sd_handle sd) of
        Inl e \<Rightarrow> ([], Inl e)
      | Inr url \<Rightarrow> (case validate_resolved_host env url of
          Some e \<Rightarrow> ([], Inl e)
        | None \<Rightarrow> (case we_tavily env of
            Inl e \<Rightarrow> ([], Inl e)
          | Inr None \<Rightarrow> fetch_fallback env url
          | Inr (Some tv) \<Rightarrow> (case tavily_material env tv url of
              Some material \<Rightarrow> ([], Inr material)
            | None \<Rightarrow> fetch_fallback env url))))"

definition web_discover :: "string \<Rightarrow> int \<Rightarrow> exc + discovered" where
  "web_discover query page = Inr (Seed_List [])"

section \<open>Properties\<close>

text \<open>
  What an address must be for the program to connect to it: HTTP, no credentials, neither a local name nor a
  private address, and every address the name resolves to is public.
\<close>

definition public_target :: "web_env \<Rightarrow> string \<Rightarrow> bool" where
  "public_target env url \<longleftrightarrow>
     (\<exists>p host. parse_url (we_netloc_ok env) [] url = Some p \<and> up_scheme p \<in> {''http'', ''https''} \<and> \<not> has_credentials p
        \<and> parsed_host p = Some host \<and> \<not> local_name_host (bare_host host) \<and> we_public env (bare_host host) \<noteq> Some False
        \<and> (\<exists>port addresses. 1 \<le> port \<and> port \<le> 65535 \<and> we_resolve env host port = Inr addresses \<and> addresses \<noteq> []
             \<and> (\<forall>a \<in> set addresses. we_public env a = Some True)))"

lemma target_fault_NoneD:
  assumes "target_fault public p = None"
  obtains host port where "up_scheme p \<in> {''http'', ''https''}" and "parsed_host p = Some host" and "\<not> has_credentials p"
    and "url_port p = Some port" and "\<not> local_name_host (bare_host host)" and "public (bare_host host) \<noteq> Some False"
    and "\<forall>n. port = Some n \<longrightarrow> 1 \<le> n \<and> n \<le> 65535"
  using assms by (auto simp: target_fault_def split: if_splits option.splits)

text \<open>A checked address, printed and read again, has the scheme and the authority that were checked.\<close>

lemma validated_url:
  assumes "validate_http_url ok public raw = Inr url"
  obtains p where "parse_url ok [] url = Some p" and "target_fault public p = None"
proof -
  from assms obtain q where q: "parse_url ok [] raw = Some q" "target_fault public q = None" "url = print_url q"
    by (auto simp: validate_http_url_def split: option.splits)
  from q(2) obtain host port where t: "up_scheme q \<in> {''http'', ''https''}" "parsed_host q = Some host" "\<not> has_credentials q"
    "url_port q = Some port" "\<not> local_name_host (bare_host host)" "public (bare_host host) \<noteq> Some False"
    "\<forall>n. port = Some n \<longrightarrow> 1 \<le> n \<and> n \<le> 65535" by (rule target_fault_NoneD)
  have "up_netloc q \<noteq> []" using t(2) by (auto simp: parsed_host_def host_port_def host_info_def cut_def Let_def)
  from print_url_read [OF parse_url_sound [OF q(1) this] t(1)] obtain p where
    p: "parse_url ok [] url = Some p" "up_scheme p = up_scheme q" "up_netloc p = up_netloc q" using q(3) by auto
  then have "parsed_host p = parsed_host q" "url_port p = url_port q" "has_credentials p = has_credentials q"
    by (simp_all add: parsed_host_def url_port_def has_credentials_def)
  with t p(2) have "target_fault public p = None" by (auto simp: target_fault_def split: option.splits)
  with p(1) that show thesis by blast
qed

lemma resolved_public:
  assumes "validate_http_url (we_netloc_ok env) (we_public env) raw = Inr url" and "validate_resolved_host env url = None"
  shows "public_target env url"
proof -
  from assms(1) obtain p where p: "parse_url (we_netloc_ok env) [] url = Some p" "target_fault (we_public env) p = None"
    by (rule validated_url)
  from p(2) obtain host port where t: "up_scheme p \<in> {''http'', ''https''}" "parsed_host p = Some host" "\<not> has_credentials p"
    "url_port p = Some port" "\<not> local_name_host (bare_host host)" "we_public env (bare_host host) \<noteq> Some False"
    "\<forall>n. port = Some n \<longrightarrow> 1 \<le> n \<and> n \<le> 65535" by (rule target_fault_NoneD)
  define used where "used = (case port of Some n \<Rightarrow> n | None \<Rightarrow> if up_scheme p = ''https'' then 443 else 80)"
  have range: "1 \<le> used" "used \<le> 65535" using t(7) by (auto simp: used_def split: option.splits)
  have "(case port of Some n \<Rightarrow> if n \<noteq> 0 then n else if up_scheme p = ''https'' then 443 else 80
      | None \<Rightarrow> if up_scheme p = ''https'' then 443 else 80) = used" using t(7) by (auto simp: used_def split: option.splits)
  with assms(2) p(1) t(2,4) obtain addresses where a: "we_resolve env host used = Inr addresses"
    "\<not> list_ex (\<lambda>a. we_public env a = None) addresses" "addresses \<noteq> []" "\<not> list_ex (\<lambda>a. we_public env a = Some False) addresses"
    by (auto simp: validate_resolved_host_def split: sum.splits if_splits)
  have "we_public env a = Some True" if "a \<in> set addresses" for a
    using a(2,4) that by (cases "we_public env a") (auto simp: list_ex_iff)
  with t p(1) a range show ?thesis unfolding public_target_def by blast
qed

lemma fetch_hops_public:
  assumes "fetch_hops env hops url = (requested, res)" and "validate_http_url (we_netloc_ok env) (we_public env) raw = Inr url"
  shows "list_all (public_target env) requested \<and> length requested \<le> hops
    \<and> (\<forall>f. res = Inr f \<longrightarrow> length (ft_body f) \<le> we_max_bytes env)"
  using assms
proof (induction env hops url arbitrary: requested res raw rule: fetch_hops.induct)
  case (2 env hops url)
  have bounded: "held + length got \<le> limit" if "read_body limit held cs = Inr got" "held \<le> limit" for limit held cs got
    using that by (induction limit held cs arbitrary: got rule: read_body.induct) (auto split: if_splits dest!: and_then_InrD)
  have body: "length (ft_body f) \<le> we_max_bytes env" if "read_response (we_max_bytes env) url r = Inr f" for r f
    using that bounded [of "we_max_bytes env" 0]
    by (auto simp: read_response_def split: option.splits if_splits dest!: and_then_InrD)
  show ?case
  proof (cases "validate_resolved_host env url")
    case (Some e)
    with 2(2) show ?thesis by auto
  next
    case resolved: None
    then have here: "public_target env url" by (rule resolved_public [OF 2(3)])
    show ?thesis
    proof (cases "we_request env url")
      case (Inl e)
      with 2(2) resolved here show ?thesis by auto
    next
      case r: (Inr r)
      show ?thesis
      proof (cases "300 \<le> wr_status r \<and> wr_status r \<le> 399")
        case redirect: True
        show ?thesis
        proof (cases "redirect_target env url r")
          case (Inl e)
          with 2(2) resolved here r redirect show ?thesis by auto
        next
          case (Inr target)
          then obtain loc where "validate_http_url (we_netloc_ok env) (we_public env) loc = Inr target"
            by (auto simp: redirect_target_def split: option.splits if_splits)
          moreover obtain log res' where "fetch_hops env hops target = (log, res')" by fastforce
          ultimately show ?thesis using 2(1) [OF resolved r redirect Inr] 2(2) resolved here r redirect Inr by fastforce
        qed
      next
        case False
        with 2(2) resolved r have "requested = [url]" "res = read_response (we_max_bytes env) url r" by auto
        with here body show ?thesis by simp
      qed
    qed
  qed
qed simp

lemma fetch_fallback_public:
  assumes "fetch_fallback env url = (requested, res)"
  shows "list_all (public_target env) requested \<and> length requested \<le> 6
    \<and> (\<forall>raw body. res = Inr raw \<longrightarrow> rc_content raw = PBytes body \<longrightarrow> length body \<le> we_max_bytes env)"
proof (cases "validate_http_url (we_netloc_ok env) (we_public env) url")
  case (Inl e)
  with assms show ?thesis by (auto simp: fetch_fallback_def fetch_bounded_http_def)
next
  case (Inr checked)
  obtain log got where f: "fetch_hops env (max_redirects + 1) checked = (log, got)" by fastforce
  with assms Inr have "requested = log" "res = (case got of Inr f \<Rightarrow> Inr (fetched_material env url f)
      | Inl e \<Rightarrow> Inl (if we_http_error env e then fetch_failed (x_text e) else e))"
    by (simp_all add: fetch_fallback_def fetch_bounded_http_def)
  with fetch_hops_public [OF f Inr] show ?thesis
    by (auto simp: max_redirects_def fetched_material_def split: sum.splits)
qed


lemma resolved_same_authority:
  assumes "parse_url (we_netloc_ok env) [] u = Some p" and "parse_url (we_netloc_ok env) [] v = Some q"
    and "up_scheme q = up_scheme p" and "up_netloc q = up_netloc p"
  shows "validate_resolved_host env v = validate_resolved_host env u" and "parsed_host q = parsed_host p"
proof -
  have "parsed_host q = parsed_host p" "url_port q = url_port p" using assms(4) by (simp_all add: parsed_host_def url_port_def)
  with assms show "validate_resolved_host env v = validate_resolved_host env u" "parsed_host q = parsed_host p"
    by (simp_all add: validate_resolved_host_def cong: option.case_cong)
qed

lemma validated_host:
  assumes "validate_http_url ok public raw = Inr url" and "parse_url ok [] raw = Some p"
  obtains q where "parse_url ok [] url = Some q" and "target_fault public q = None"
    and "up_scheme q = up_scheme p" and "up_netloc q = up_netloc p"
proof -
  have q: "target_fault public p = None" "url = print_url p"
    using assms by (auto simp: validate_http_url_def split: option.splits)
  from q(1) obtain host port where t: "up_scheme p \<in> {''http'', ''https''}" "parsed_host p = Some host"
    using target_fault_NoneD by metis
  have "up_netloc p \<noteq> []" using t(2) by (auto simp: parsed_host_def host_port_def host_info_def cut_def Let_def)
  from print_url_read [OF parse_url_sound [OF assms(2) this] t(1)] obtain r where
    r: "parse_url ok [] url = Some r" "up_scheme r = up_scheme p" "up_netloc r = up_netloc p" using q(2) by auto
  from assms(1) obtain r' where "parse_url ok [] url = Some r'" "target_fault public r' = None" by (rule validated_url)
  with r that show thesis by auto
qed

text \<open>Without a page from Tavily the connector requests the page itself.\<close>

lemma fallback_requests_page:
  assumes "validate_http_url (we_netloc_ok env) (we_public env) raw = Inr url" and "validate_resolved_host env url = None"
    and "parse_url (we_netloc_ok env) [] raw = Some p"
  obtains first further q where "fst (fetch_fallback env url) = first # further"
    and "parse_url (we_netloc_ok env) [] first = Some q" and "parsed_host q = parsed_host p"
proof -
  obtain a where a: "parse_url (we_netloc_ok env) [] url = Some a" "target_fault (we_public env) a = None"
    "up_scheme a = up_scheme p" "up_netloc a = up_netloc p" using assms(1,3) by (rule validated_host)
  then have again: "validate_http_url (we_netloc_ok env) (we_public env) url = Inr (print_url a)"
    by (simp add: validate_http_url_def)
  obtain q where q: "parse_url (we_netloc_ok env) [] (print_url a) = Some q" "target_fault (we_public env) q = None"
    "up_scheme q = up_scheme a" "up_netloc q = up_netloc a" using again a(1) by (rule validated_host)
  have ok: "validate_resolved_host env (print_url a) = None"
    using resolved_same_authority(1) [OF a(1) q(1,3,4)] assms(2) by simp
  have log: "\<exists>further. fst (fetch_hops env (Suc n) (print_url a)) = print_url a # further" for n
    using ok by (auto split: sum.splits prod.splits)
  then obtain further where "fst (fetch_fallback env url) = print_url a # further"
    using again log [of max_redirects]
    by (cases "fetch_hops env (Suc max_redirects) (print_url a)")
      (auto simp: fetch_fallback_def fetch_bounded_http_def simp del: fetch_hops.simps)
  moreover have "parsed_host q = parsed_host p" using q(4) a(4) by (simp add: parsed_host_def)
  ultimately show thesis using that q(1) by blast
qed

section \<open>A sample\<close>

text \<open>One site that redirects its first page, without Tavily.\<close>

definition moved_site :: web_env where
  "moved_site = \<lparr>we_source = answering (\<lambda>url. PDict []), we_netloc_ok = (\<lambda>n. True),
     we_public = (\<lambda>a. if a = ''1.1.1.1'' then Some True else if a = ''127.0.0.1'' then Some False else None),
     we_resolve = (\<lambda>host port. Inr [if host = ''intern.example'' then ''127.0.0.1'' else ''1.1.1.1'']),
     we_request = (\<lambda>url. Inr (if url = ''https://linkedin.com/in/ada''
       then \<lparr>wr_status = 301, wr_headers = [(''location'', ''../about?x'')], wr_error = None, wr_chunks = []\<rparr>
       else \<lparr>wr_status = 200, wr_headers = [], wr_error = None, wr_chunks = [''hello'']\<rparr>)),
     we_http_error = (\<lambda>e. False), we_tavily = Inr None, we_max_bytes = 1000\<rparr>"

lemma moved_site_log:
  "fst (web_collect moved_site (handle_seed ''web'' ''HTTPS://linkedin.com/in/ada'') ''light'')
     = [''https://linkedin.com/in/ada'', ''https://linkedin.com/about?x'']"
  by code_simp

lemma moved_site_material:
  "(case snd (web_collect moved_site (handle_seed ''web'' ''HTTPS://linkedin.com/in/ada'') ''light'') of
      Inl e \<Rightarrow> False | Inr raw \<Rightarrow> rc_content raw = PBytes ''hello'')"
  by code_simp

lemma intern_refused: "validate_resolved_host moved_site ''https://intern.example/''
    = Some (url_rejected ''hostname resolves to private or reserved address'')"
  by code_simp


end
