(* ===== verification/Tavily_Sources.thy ===== *)
theory Tavily_Sources
  imports Web_Source
begin

text \<open>
  The connectors that search with Tavily: \<^verbatim>\<open>tavily_search.py\<close>, \<^verbatim>\<open>linkedin.py\<close>, \<^verbatim>\<open>podcasts.py\<close> and \<^verbatim>\<open>hackathons.py\<close>
  of \<^verbatim>\<open>app/collectors/sources\<close>. A page found by the last three is collected by the website connector. The domains
  of a hackathon search come in the order in which the set of them is iterated.
\<close>

section \<open>Search results\<close>

definition tavily_client :: "web_env \<Rightarrow> string \<Rightarrow> exc + tavily" where
  "tavily_client env source =
     (case we_tavily env of
        Inl e \<Rightarrow> Inl (normalize_connector_error e (source @ ''_failed''))
      | Inr None \<Rightarrow> Inl (contract_error (source @ ''_not_configured''))
      | Inr (Some tv) \<Rightarrow> Inr tv)"

definition tavily_results :: "string \<Rightarrow> exc + pyval \<Rightarrow> exc + pyval list" where
  "tavily_results ctx response =
     and_then (normalized ctx response) (\<lambda>v. normalized (ctx @ '': invalid provider response'')
       (case v of
          PDict d \<Rightarrow> (case dget d ''results'' of Some (PList xs) \<Rightarrow> Inr xs | _ \<Rightarrow> Inl (type_error ''missing results''))
        | _ \<Rightarrow> Inl (attribute_error v ''get'')))"

definition snippet_of :: "pyval \<Rightarrow> exc + pyval" where
  "snippet_of content = (if py_truthy content then json_prefix 500 content else Inr (PStr []))"

text \<open>One result as a seed, with what the loop does after it.\<close>

definition page_seed :: "string \<Rightarrow> pyval dict \<Rightarrow> pyval \<Rightarrow> pyval \<Rightarrow> pyval \<Rightarrow> exc + raw_seed option" where
  "page_seed source meta url title content =
     and_then (snippet_of content) (\<lambda>snippet.
       Inr (new_seed source url (py_or title url) (meta @ [(''title'', title), (''snippet'', snippet)])))"

fun page_seeds :: "string \<Rightarrow> pyval dict \<Rightarrow> (pyval \<Rightarrow> pyval \<Rightarrow> raw_seed option list) \<Rightarrow> pyval list \<Rightarrow> pyval list
    \<Rightarrow> exc + raw_seed option list \<times> pyval list" where
  "page_seeds source meta further known [] = Inr ([], known)"
| "page_seeds source meta further known (result # results) =
     and_then (json_get result ''url'' (PStr [])) (\<lambda>url.
       if \<not> py_truthy url then page_seeds source meta further known results
       else and_then (yt_hashable url) (\<lambda>url.
         if url \<in> set known then page_seeds source meta further known results
         else and_then (json_get result ''title'' (PStr [])) (\<lambda>title.
           and_then (json_get result ''content'' (PStr [])) (\<lambda>content.
           and_then (page_seed source meta url title content) (\<lambda>s.
           and_then (page_seeds source meta further (url # known) results) (\<lambda>(rest, known').
             Inr (s # further title content @ rest, known')))))))"

section \<open>Tavily search\<close>

definition is_upper_char :: "char \<Rightarrow> bool" where
  "is_upper_char c = (65 \<le> char_code c \<and> char_code c \<le> 90)"

definition is_lower_char :: "char \<Rightarrow> bool" where
  "is_lower_char c = (97 \<le> char_code c \<and> char_code c \<le> 122)"

text \<open>\<^verbatim>\<open>[A-Z][a-z]+\<close> at the beginning, with the length of the match.\<close>

definition name_word :: "string \<Rightarrow> nat option" where
  "name_word s =
     (case s of
        [] \<Rightarrow> None
      | c # cs \<Rightarrow> if is_upper_char c \<and> takeWhile is_lower_char cs \<noteq> [] then Some (1 + length (takeWhile is_lower_char cs))
          else None)"

definition first_prefix :: "string \<Rightarrow> string list \<Rightarrow> string option" where
  "first_prefix s alternatives = find (startswith s) alternatives"

text \<open>\<^verbatim>\<open>([A-Z][a-z]+ [A-Z][a-z]+),?\s+(CEO|founder|co-founder|CTO|COO)\<close> with its first group.\<close>

definition titled_match :: "char option \<Rightarrow> string \<Rightarrow> (nat \<times> string) option" where
  "titled_match prev s =
     (case name_word s of None \<Rightarrow> None | Some n \<Rightarrow>
       if \<not> startswith (drop n s) '' '' then None
       else (case name_word (drop (n + 1) s) of None \<Rightarrow> None | Some m \<Rightarrow>
         (let named = n + 1 + m; after = drop named s; comma = (if startswith after '','' then 1 else 0);
              spaces = length (takeWhile is_space (drop comma after)); r = drop (comma + spaces) after
          in if spaces = 0 then None
             else map_option (\<lambda>role. (named + comma + spaces + length role, take named s))
               (first_prefix r [''CEO'', ''founder'', ''co-founder'', ''CTO'', ''COO'']))))"

text \<open>\<^verbatim>\<open>(founder|co-founder|CEO)\s+of\s+([A-Z][A-Za-z0-9]+)\<close> with its first group.\<close>

definition is_name_char :: "char \<Rightarrow> bool" where
  "is_name_char c = (is_upper_char c \<or> is_lower_char c \<or> is_digit c)"

definition role_of_match :: "char option \<Rightarrow> string \<Rightarrow> (nat \<times> string) option" where
  "role_of_match prev s =
     (case first_prefix s [''founder'', ''co-founder'', ''CEO''] of None \<Rightarrow> None | Some role \<Rightarrow>
       (let a = drop (length role) s; n = length (takeWhile is_space a); b = drop n a;
            m = length (takeWhile is_space (drop 2 b)); c = drop m (drop 2 b)
        in if n = 0 \<or> \<not> startswith b ''of'' \<or> m = 0 \<or> c = [] \<or> \<not> is_upper_char (hd c) \<or> takeWhile is_name_char (tl c) = []
           then None
           else Some (length role + n + 2 + m + 1 + length (takeWhile is_name_char (tl c)), role)))"

definition extract_entities :: "codec \<Rightarrow> pyval \<Rightarrow> pyval \<Rightarrow> (string \<times> string) list" where
  "extract_entities codec title content =
     (let text = py_str codec title @ ''. '' @ py_str codec content
      in map (\<lambda>name. (name, ''person'')) (filter (\<lambda>name. name \<noteq> [] \<and> 2 \<le> length (split_ws name))
           (find_all titled_match None text @ find_all role_of_match None text)))"

definition entity_seeds :: "codec \<Rightarrow> string \<Rightarrow> pyval \<Rightarrow> pyval \<Rightarrow> raw_seed option list" where
  "entity_seeds codec query title content =
     map (\<lambda>(name, kind). new_seed ''tavily_entity'' (PStr name) (PStr name)
         [(''query'', PStr query), (''entity_type'', PStr ''person'')])
       (filter (\<lambda>(name, kind). kind = ''person'') (extract_entities codec title content))"

definition tavily_search_discover :: "web_env \<Rightarrow> string \<Rightarrow> int \<Rightarrow> exc + discovered" where
  "tavily_search_discover env query page =
     and_then (tavily_client env ''tavily_search'') (\<lambda>tv.
     and_then (tavily_results ''tavily_search_failed'' (tv_search tv query 10)) (\<lambda>results.
     and_then (page_seeds ''web'' [(''query'', PStr query)] (entity_seeds (so_codec (we_source env)) query) [] results)
       (\<lambda>(seeds, known). Inr (Seed_List seeds))))"

definition tavily_search_collect :: "seed \<Rightarrow> string \<Rightarrow> exc + raw_collected" where
  "tavily_search_collect sd depth =
     Inl (other_error ''NotImplementedError'' (''tavily_search is discovery-only; use '' @ py_quote ''web'' @ '' connector for collection''))"

section \<open>LinkedIn\<close>

text \<open>\<open>url.split('/in/')[-1]\<close>\<close>

function after_in :: "string \<Rightarrow> string \<Rightarrow> string" where
  "after_in acc s =
     (if s = [] then rev acc
      else if startswith s ''/in/'' then after_in [] (drop 4 s)
      else after_in (hd s # acc) (tl s))"
  by pat_completeness auto
termination by (relation "measure (\<lambda>(acc, s). length s)") auto

declare after_in.simps [simp del]

text \<open>\<open>text.title()\<close>: a letter is a capital unless it follows a letter.\<close>

fun title_case :: "bool \<Rightarrow> string \<Rightarrow> string" where
  "title_case cased [] = []"
| "title_case cased (c # cs) =
     (if is_alpha c then (if cased then lower_char c else upper_char c) # title_case True cs else c # title_case False cs)"

definition profile_name :: "string \<Rightarrow> string \<Rightarrow> string" where
  "profile_name title url =
     (let name = strip (replace_str '' | LinkedIn'' [] (replace_str '' - LinkedIn'' [] title))
      in if name \<noteq> [] then name
         else title_case False (replace_char (CHR ''-'') '' '' (takeWhile (\<lambda>c. c \<noteq> CHR ''/'') (after_in [] url))))"

fun profile_seeds :: "string \<Rightarrow> pyval list \<Rightarrow> exc + raw_seed option list" where
  "profile_seeds query [] = Inr []"
| "profile_seeds query (result # results) =
     and_then (json_get result ''url'' (PStr [])) (\<lambda>url.
       if \<not> py_truthy url then profile_seeds query results
       else (case url of
           PStr address \<Rightarrow>
             if \<not> contains (lower address) ''linkedin.com/in/'' then profile_seeds query results
             else and_then (json_get result ''title'' (PStr [])) (\<lambda>title.
               and_then (json_get result ''content'' (PStr [])) (\<lambda>content.
                 (case title of
                    PStr t \<Rightarrow> and_then (snippet_of content) (\<lambda>snippet. and_then (profile_seeds query results) (\<lambda>rest.
                      Inr (new_seed ''linkedin'' url (py_or (PStr (profile_name t address)) url)
                        [(''query'', PStr query), (''title'', title), (''snippet'', snippet)] # rest)))
                  | _ \<Rightarrow> Inl (attribute_error title ''replace''))))
         | _ \<Rightarrow> Inl (attribute_error url ''lower'')))"

definition linkedin_discover :: "web_env \<Rightarrow> string \<Rightarrow> int \<Rightarrow> exc + discovered" where
  "linkedin_discover env query page =
     and_then (tavily_client env ''linkedin_search'') (\<lambda>tv.
     and_then (tavily_results ''linkedin_search_failed'' (tv_search tv (''linkedin '' @ query @ '' founder'') 10)) (\<lambda>results.
     and_then (profile_seeds query results) (\<lambda>seeds. Inr (Seed_List seeds))))"

section \<open>Podcasts and hackathons\<close>

text \<open>One search after the other, with the pages already found.\<close>

fun search_pages :: "string \<Rightarrow> string \<Rightarrow> (string \<Rightarrow> pyval dict) \<Rightarrow> (string \<Rightarrow> exc + pyval) \<Rightarrow> pyval list \<Rightarrow> string list
    \<Rightarrow> exc + raw_seed option list" where
  "search_pages source ctx meta search known [] = Inr []"
| "search_pages source ctx meta search known (key # keys) =
     and_then (tavily_results ctx (search key)) (\<lambda>results.
     and_then (page_seeds source (meta key) (\<lambda>t c. []) known results) (\<lambda>(seeds, known').
     and_then (search_pages source ctx meta search known' keys) (\<lambda>rest. Inr (seeds @ rest))))"

definition podcast_keywords :: "string list" where
  "podcast_keywords = [''podcast'', ''episode'', ''interview'', ''talks at'', ''founder story'']"

definition podcasts_discover :: "web_env \<Rightarrow> string \<Rightarrow> int \<Rightarrow> exc + discovered" where
  "podcasts_discover env query page =
     and_then (tavily_client env ''podcasts_search'') (\<lambda>tv.
     and_then (search_pages ''podcasts'' ''podcasts_search_failed'' (\<lambda>k. [(''query'', PStr query), (''keyword'', PStr k)])
         (\<lambda>k. tv_search tv (k @ '' '' @ query @ '' founder'') 5) [] podcast_keywords) (\<lambda>seeds. Inr (Seed_List seeds)))"

definition hackathon_domains :: "string set" where
  "hackathon_domains = {''devpost.com'', ''mlh.io''}"

definition hackathons_discover :: "web_env \<Rightarrow> string list \<Rightarrow> string \<Rightarrow> int \<Rightarrow> exc + discovered" where
  "hackathons_discover env domains query page =
     and_then (tavily_client env ''hackathons_search'') (\<lambda>tv.
     and_then (search_pages ''hackathons'' ''hackathons_search_failed'' (\<lambda>d. [(''query'', PStr query), (''domain'', PStr d)])
         (\<lambda>d. tv_search tv (''site:'' @ d @ '' '' @ query) 10) [] domains) (\<lambda>seeds. Inr (Seed_List seeds)))"

section \<open>Collection through the website connector\<close>

definition tagged_rows :: "source_env \<Rightarrow> string \<Rightarrow> string \<Rightarrow> pyval \<Rightarrow> pyval" where
  "tagged_rows env predicate handle rows =
     PList (sighting env predicate (PStr handle) 1 # (case rows of PList xs \<Rightarrow> xs | _ \<Rightarrow> []))"

definition collect_via_web :: "web_env \<Rightarrow> string \<Rightarrow> string \<Rightarrow> string \<Rightarrow> seed \<Rightarrow> string \<Rightarrow> string list \<times> (exc + raw_collected)" where
  "collect_via_web env source predicate note sd depth =
     (case web_collect env sd depth of (requested, res) \<Rightarrow>
        (requested, case res of
           Inl e \<Rightarrow> Inl (contract_error (source @ ''_collect_via_web_failed: '' @ x_text e))
         | Inr raw \<Rightarrow> Inr (raw\<lparr>rc_observations := tagged_rows (we_source env) predicate (sd_handle sd) (rc_observations raw),
             rc_source_type := PStr source, rc_uri := PStr (sd_handle sd),
             rc_license_hint := PDict [(''source'', PStr ''Tavily Search + Extract''), (''terms'', PStr ''https://tavily.com''),
               (''note'', PStr note)]\<rparr>)))"

definition linkedin_collect :: "web_env \<Rightarrow> seed \<Rightarrow> string \<Rightarrow> string list \<times> (exc + raw_collected)" where
  "linkedin_collect env sd depth =
     collect_via_web env ''linkedin'' ''linkedin_url'' ''Never fetches linkedin.com directly'' sd depth"

definition podcasts_collect :: "web_env \<Rightarrow> seed \<Rightarrow> string \<Rightarrow> string list \<times> (exc + raw_collected)" where
  "podcasts_collect env sd depth =
     collect_via_web env ''podcasts'' ''podcast_url'' ''No transcription in MVP'' sd depth"

definition hackathons_collect :: "web_env \<Rightarrow> seed \<Rightarrow> string \<Rightarrow> string list \<times> (exc + raw_collected)" where
  "hackathons_collect env sd depth =
     collect_via_web env ''hackathons'' ''hackathon_url'' ''No official API; relies on Tavily crawling public pages'' sd depth"

section \<open>Properties\<close>

text \<open>
  The LinkedIn connector notes on its material that it never fetches linkedin.com directly. Whenever Tavily
  is not configured or gives no page, an error or a page over the limit included, it does: the profile
  itself is the first address the website connector requests.
\<close>

theorem linkedin_profile_requested_directly:
  assumes "we_tavily env = Inr client" and "validate_http_url (we_netloc_ok env) (we_public env) (sd_handle sd) = Inr url"
    and "validate_resolved_host env url = None" and "parse_url (we_netloc_ok env) [] (sd_handle sd) = Some p"
    and "\<And>tv. client = Some tv \<Longrightarrow> tavily_material env tv url = None"
  shows "\<exists>first further q. fst (linkedin_collect env sd depth) = first # further
     \<and> parse_url (we_netloc_ok env) [] first = Some q \<and> parsed_host q = parsed_host p"
proof -
  obtain first further q where f: "fst (fetch_fallback env url) = first # further"
    "parse_url (we_netloc_ok env) [] first = Some q" "parsed_host q = parsed_host p"
    using assms(2,3,4) by (rule fallback_requests_page)
  have "web_collect env sd depth = fetch_fallback env url"
    using assms by (auto simp: web_collect_def split: option.splits)
  then have "fst (linkedin_collect env sd depth) = fst (fetch_fallback env url)"
    by (simp add: linkedin_collect_def collect_via_web_def split: prod.splits)
  with f show ?thesis by auto
qed

lemma find_all_set:
  assumes "\<And>prev s n v. m prev s = Some (n, v) \<Longrightarrow> P v"
  shows "\<forall>v \<in> set (find_all m prev s). P v"
  using assms
proof (induction m prev s rule: find_all.induct)
  case (1 m prev s)
  show ?case
  proof (cases "s = []")
    case False
    show ?thesis
    proof (cases "m prev s")
      case None
      with 1(1) [OF False None] 1(3) False show ?thesis by (simp add: find_all.simps [of m prev s])
    next
      case (Some x)
      obtain n v where x: "x = (n, v)" by fastforce
      with 1(2) [OF False Some x [symmetric]] 1(3) [of prev s n v] 1(3) False Some show ?thesis
        by (simp add: find_all.simps [of m prev s])
    qed
  qed (simp add: find_all.simps)
qed

text \<open>
  The second pattern of the entity extraction, for \<open>founder of Acme\<close>, names its role, one word, where a name
  of two words is asked for: it never adds an entity.
\<close>

theorem founder_of_pattern_adds_nothing:
  "extract_entities codec title content = map (\<lambda>name. (name, ''person''))
     (filter (\<lambda>name. name \<noteq> [] \<and> 2 \<le> length (split_ws name))
       (find_all titled_match None (py_str codec title @ ''. '' @ py_str codec content)))"
proof -
  have "v \<in> {''founder'', ''co-founder'', ''CEO''}" if "role_of_match prev s = Some (n, v)" for prev s n v
    using that by (auto simp: role_of_match_def first_prefix_def Let_def split: option.splits if_splits)
  then have roles: "\<forall>v \<in> set (find_all role_of_match prev s). v \<in> {''founder'', ''co-founder'', ''CEO''}" for prev s
    by (rule find_all_set)
  have one: "length (split_ws v) < 2" if "v \<in> {''founder'', ''co-founder'', ''CEO''}" for v
  proof -
    have "length (split_ws ''founder'') < 2" "length (split_ws ''co-founder'') < 2" "length (split_ws ''CEO'') < 2" by code_simp+
    with that show ?thesis by auto
  qed
  have "filter (\<lambda>name. name \<noteq> [] \<and> 2 \<le> length (split_ws name)) (find_all role_of_match prev s) = []" for prev s
    using roles [of prev s] one by (fastforce simp: filter_empty_conv)
  then show ?thesis by (simp add: extract_entities_def Let_def)
qed

lemma yt_hashable_InrD: "yt_hashable v = Inr w \<Longrightarrow> w = v"
  by (cases v) (simp_all add: yt_hashable_def)

lemma page_seeds_distinct:
  assumes "page_seeds source meta (\<lambda>t c. []) known results = Inr (seeds, known')"
  shows "distinct (seed_handles seeds) \<and> set (seed_handles seeds) \<inter> set known = {}
    \<and> set known' = set known \<union> set (seed_handles seeds) \<and> length seeds \<le> length results \<and> list_all py_truthy (seed_handles seeds)"
  using assms
proof (induction results arbitrary: known seeds)
  case (Cons result results)
  from Cons.prems obtain url where u: "json_get result ''url'' (PStr []) = Inr url" by (auto dest: and_then_InrD)
  show ?case
  proof (cases "py_truthy url")
    case False
    with Cons u show ?thesis by fastforce
  next
    case True
    with Cons.prems u have hash: "yt_hashable url = Inr url" by (auto dest!: and_then_InrD dest: yt_hashable_InrD)
    show ?thesis
    proof (cases "url \<in> set known")
      case known: True
      with Cons u True hash show ?thesis by fastforce
    next
      case False
      with Cons.prems u True hash obtain title content x rest where
        s: "page_seed source meta url title content = Inr x" and seeds: "seeds = x # rest"
        and r: "page_seeds source meta (\<lambda>t c. []) (url # known) results = Inr (rest, known')"
        by (auto dest!: and_then_InrD)
      have h: "seed_handles (x # rest) = url # seed_handles rest"
        using s by (auto simp: page_seed_def seed_handles_def new_seed_def dest!: and_then_InrD)
      with Cons.IH [OF r] seeds True False show ?thesis by auto
    qed
  qed
qed simp

lemma search_pages_distinct:
  assumes "search_pages source ctx meta search known keys = Inr seeds"
    and "\<And>k results. tavily_results ctx (search k) = Inr results \<Longrightarrow> length results \<le> n"
  shows "distinct (seed_handles seeds) \<and> set (seed_handles seeds) \<inter> set known = {}
    \<and> length seeds \<le> n * length keys \<and> list_all py_truthy (seed_handles seeds)"
  using assms(1)
proof (induction keys arbitrary: known seeds)
  case (Cons key keys)
  from Cons.prems obtain results here known' rest where
    g: "tavily_results ctx (search key) = Inr results" "page_seeds source (meta key) (\<lambda>t c. []) known results = Inr (here, known')"
      "search_pages source ctx meta search known' keys = Inr rest" "seeds = here @ rest"
    by (auto dest!: and_then_InrD)
  from page_seeds_distinct [OF g(2)] Cons.IH [OF g(3)] assms(2) [OF g(1)] g(4) show ?case by auto
qed simp

text \<open>
  A podcast search names every page once over its five searches, never an empty one; when Tavily keeps to five
  results a search, the page has at most 25 seeds, within the collector's limit.
\<close>

theorem podcast_pages_distinct:
  assumes "podcasts_discover env query page = Inr (Seed_List seeds)" and "we_tavily env = Inr (Some tv)"
    and "\<And>q results. tavily_results ''podcasts_search_failed'' (tv_search tv q 5) = Inr results \<Longrightarrow> length results \<le> 5"
  shows "distinct (seed_handles seeds) \<and> list_all py_truthy (seed_handles seeds) \<and> length seeds \<le> 25
    \<and> length seeds \<le> max_discovery_page_size"
proof -
  from assms(1,2) have "search_pages ''podcasts'' ''podcasts_search_failed'' (\<lambda>k. [(''query'', PStr query), (''keyword'', PStr k)])
      (\<lambda>k. tv_search tv (k @ '' '' @ query @ '' founder'') 5) [] podcast_keywords = Inr seeds"
    by (auto simp: podcasts_discover_def tavily_client_def dest!: and_then_InrD)
  then have "distinct (seed_handles seeds) \<and> set (seed_handles seeds) \<inter> set [] = {}
    \<and> length seeds \<le> 5 * length podcast_keywords \<and> list_all py_truthy (seed_handles seeds)"
    by (rule search_pages_distinct) (rule assms(3))
  then show ?thesis by (simp add: podcast_keywords_def max_discovery_page_size_def)
qed

section \<open>A sample\<close>

definition one_episode :: web_env where
  "one_episode = moved_site\<lparr>we_tavily := Inr (Some \<lparr>tv_search = (\<lambda>q n. Inr (PDict [(''results'',
     PList [PDict [(''url'', PStr ''https://pod.example/1'')], PDict [(''url'', PStr ''https://pod.example/1'')]])])),
     tv_extract = (\<lambda>url. Inl (other_error ''TimeoutError'' []))\<rparr>)\<rparr>"

lemma one_episode_found:
  "\<exists>seeds. podcasts_discover one_episode query page = Inr (Seed_List seeds) \<and> seed_handles seeds = [PStr ''https://pod.example/1'']"
  by (simp add: podcasts_discover_def tavily_client_def one_episode_def tavily_results_def normalized_def podcast_keywords_def
      json_get_def get_or_def yt_hashable_def page_seed_def snippet_of_def dget_def)

theorem podcast_pages_distinct_witness:
  "\<exists>seeds. podcasts_discover one_episode ''ai'' 1 = Inr (Seed_List seeds) \<and> seeds \<noteq> [] \<and> distinct (seed_handles seeds)"
proof -
  obtain seeds where s: "podcasts_discover one_episode ''ai'' 1 = Inr (Seed_List seeds)" "seed_handles seeds = [PStr ''https://pod.example/1'']"
    using one_episode_found by blast
  define tv where "tv = the (projr (we_tavily one_episode))"
  have tv: "we_tavily one_episode = Inr (Some tv)" by (simp add: tv_def one_episode_def)
  have few: "length results \<le> 5" if "tavily_results ''podcasts_search_failed'' (tv_search tv q 5) = Inr results" for q results
    using that by (auto simp: tv_def one_episode_def tavily_results_def normalized_def dget_def)
  from podcast_pages_distinct [OF s(1) tv few] s show ?thesis by (intro exI [of _ seeds]) (auto simp: seed_handles_def)
qed

theorem linkedin_profile_requested_directly_witness:
  "\<exists>first further q. fst (linkedin_collect one_episode (handle_seed ''linkedin'' ''https://linkedin.com/in/ada'') ''light'') = first # further
     \<and> parse_url (we_netloc_ok one_episode) [] first = Some q \<and> parsed_host q = Some ''linkedin.com''"
proof -
  let ?sd = "handle_seed ''linkedin'' ''https://linkedin.com/in/ada''"
  have v: "validate_http_url (we_netloc_ok one_episode) (we_public one_episode) (sd_handle ?sd) = Inr ''https://linkedin.com/in/ada''"
    "validate_resolved_host one_episode ''https://linkedin.com/in/ada'' = None" by code_simp+
  define tv where "tv = the (projr (we_tavily one_episode))"
  have tv: "we_tavily one_episode = Inr (Some tv)" by (simp add: tv_def one_episode_def)
  have "map_option parsed_host (parse_url (we_netloc_ok one_episode) [] (sd_handle ?sd)) = Some (Some ''linkedin.com'')" by code_simp
  then obtain p where p: "parse_url (we_netloc_ok one_episode) [] (sd_handle ?sd) = Some p" "parsed_host p = Some ''linkedin.com''"
    by auto
  have none: "tavily_material one_episode t ''https://linkedin.com/in/ada'' = None" if "Some tv = Some t" for t
    using that by (auto simp: tavily_material_def tv_def one_episode_def extracted_page_def)
  from linkedin_profile_requested_directly [OF tv v p(1) none] p(2) show ?thesis by simp
qed

end
