(* ===== verification/Avatar_Job.thy ===== *)
theory Avatar_Job
  imports Web_Url Discovery_Effects Process_Job
begin

text \<open>
  Profile pictures, \<^verbatim>\<open>app/collectors/avatars.py\<close>, and the job \<open>fetch_candidate_avatar_job\<close> of \<^verbatim>\<open>app/collectors/jobs.py\<close>:
  a picture of a public LinkedIn profile when the profile is unambiguous and names the person, else the one
  of the GitHub account. A request follows redirects and is a function of address and headers; the HTML
  tokenizer gives the start tags of a page with their attributes; \<open>ascii_fold\<close> is the Unicode step of
  \<open>_normalize\<close>.
\<close>

section \<open>Metadata of a page\<close>

type_synonym start_tag = "string \<times> (string \<times> string option) list"

record 'r avatar_env =
  av_disc :: "'r disc_env"
  av_get :: "string \<Rightarrow> string dict \<Rightarrow> exc + reply"
  av_tags :: "string \<Rightarrow> start_tag list"
  av_fold :: "string \<Rightarrow> string"
  av_netloc_ok :: "string \<Rightarrow> bool"
  av_sha :: "char list \<Rightarrow> string"
  av_token :: string

definition attr_values :: "(string \<times> string option) list \<Rightarrow> string dict" where
  "attr_values attrs = foldl (\<lambda>d (k, v). dset d (lower k) (case v of None \<Rightarrow> [] | Some s \<Rightarrow> s)) [] attrs"

definition handle_starttag :: "string dict \<Rightarrow> start_tag \<Rightarrow> string dict" where
  "handle_starttag known tag =
     (if lower (fst tag) \<noteq> ''meta'' then known
      else (let d = attr_values (snd tag);
                prop = (case dget d ''property'' of Some s \<Rightarrow> s | None \<Rightarrow> []);
                key = (if prop \<noteq> [] then prop else case dget d ''name'' of Some s \<Rightarrow> s | None \<Rightarrow> []);
                content = strip (case dget d ''content'' of Some s \<Rightarrow> s | None \<Rightarrow> [])
            in if key \<noteq> [] \<and> content \<noteq> [] \<and> dget known (lower key) = None then dset known (lower key) content else known))"

definition parse_linkedin_meta :: "'r avatar_env \<Rightarrow> string \<Rightarrow> string option \<times> string option" where
  "parse_linkedin_meta env html =
     (let meta = foldl handle_starttag [] (av_tags env html) in (dget meta ''og:title'', dget meta ''og:image''))"

section \<open>Names and addresses\<close>

text \<open>The runs of letters and digits in lower case, one space between them.\<close>

definition fold_name :: "(string \<Rightarrow> string) \<Rightarrow> string \<Rightarrow> string" where
  "fold_name ascii_fold s =
     join '' '' (split_ws (map (\<lambda>c. if 97 \<le> char_code c \<and> char_code c \<le> 122 \<or> is_digit c then c else CHR '' '')
       (lower (ascii_fold s))))"

definition no_spaces :: "string \<Rightarrow> string" where
  "no_spaces s = filter (\<lambda>c. c \<noteq> CHR '' '') s"

definition hostname_of :: "url_parts \<Rightarrow> string" where
  "hostname_of p = lower (case parsed_host p of None \<Rightarrow> [] | Some h \<Rightarrow> h)"

definition profile_url :: "url_parts \<Rightarrow> string" where
  "profile_url p = rev (dropWhile (\<lambda>c. c = CHR ''/'')
     (rev ((if up_scheme p = [] then ''https'' else up_scheme p) @ ''://'' @ up_netloc p @ up_path p)))"

definition linkedin_profile :: "'r avatar_env \<Rightarrow> string \<Rightarrow> exc + string list" where
  "linkedin_profile env url =
     (case parse_url (av_netloc_ok env) [] url of
        None \<Rightarrow> Inl invalid_url
      | Some p \<Rightarrow> Inr (if endswith (hostname_of p) ''linkedin.com'' \<and> contains (up_path p) ''/in/'' then [profile_url p] else []))"

definition profile_slug :: "'r avatar_env \<Rightarrow> string \<Rightarrow> exc + string" where
  "profile_slug env url =
     (case parse_url (av_netloc_ok env) [] url of
        None \<Rightarrow> Inl invalid_url
      | Some p \<Rightarrow> Inr (no_spaces (fold_name (av_fold env) (last (split_on (CHR ''/'') (up_path p))))))"

definition handle_slugs :: "'r avatar_env \<Rightarrow> string dict option \<Rightarrow> string list" where
  "handle_slugs env handles =
     (case handles of None \<Rightarrow> []
      | Some d \<Rightarrow> map (\<lambda>h. no_spaces (fold_name (av_fold env) h)) (filter (\<lambda>h. h \<noteq> []) (map snd d)))"

definition select_linkedin_profile_urls :: "'r avatar_env \<Rightarrow> string dict option \<Rightarrow> string list \<Rightarrow> exc + string list" where
  "select_linkedin_profile_urls env handles urls =
     and_then (each_ok (linkedin_profile env) urls) (\<lambda>found.
       (let unique = fromkeys (concat found)
        in if length unique \<le> 1 then Inr unique
           else and_then (each_ok (profile_slug env) unique) (\<lambda>slugs.
             (let matches = map fst (filter (\<lambda>(u, slug). slug \<in> set (handle_slugs env handles)) (zip unique slugs))
              in Inr (if length matches = 1 then matches else [])))))"

section \<open>Pictures\<close>

record avatar_payload =
  ap_data :: "char list"
  ap_mime_type :: string
  ap_sha256 :: string
  ap_source_type :: string
  ap_source_url :: string
  ap_image_url :: string

definition max_image_bytes :: nat where "max_image_bytes = 1000000"
definition image_types :: "string list" where "image_types = [''image/jpeg'', ''image/png'', ''image/webp'']"

definition image_host_ok :: "string \<Rightarrow> bool" where
  "image_host_ok host = (endswith host ''licdn.com'' \<or> endswith host ''githubusercontent.com'')"

definition download_image :: "'r avatar_env \<Rightarrow> string \<Rightarrow> exc + (char list \<times> string) option" where
  "download_image env url =
     (case parse_url (av_netloc_ok env) [] url of
        None \<Rightarrow> Inl invalid_url
      | Some p \<Rightarrow>
          if \<not> image_host_ok (hostname_of p) then Inr None
          else and_then (av_get env url []) (\<lambda>r.
            (let mime = lower (fst (cut (CHR '';'') (case dget (rp_headers r) ''content-type'' of Some s \<Rightarrow> s | None \<Rightarrow> [])))
             in if rp_status r \<noteq> 200 \<or> mime \<notin> set image_types \<or> rp_content r = []
                  \<or> max_image_bytes < length (rp_content r) then Inr None
                else Inr (Some (rp_content r, mime)))))"

definition payload_of :: "'r avatar_env \<Rightarrow> string \<Rightarrow> string \<Rightarrow> string \<Rightarrow> char list \<times> string \<Rightarrow> avatar_payload" where
  "payload_of env source source_url image_url got =
     \<lparr>ap_data = fst got, ap_mime_type = snd got, ap_sha256 = av_sha env (fst got), ap_source_type = source,
      ap_source_url = source_url, ap_image_url = image_url\<rparr>"

definition names_person :: "'r avatar_env \<Rightarrow> person \<Rightarrow> string \<Rightarrow> bool" where
  "names_person env p title =
     (let name = fold_name (av_fold env) (str_or (p_display_name p) [])
      in name \<noteq> [] \<and> contains (fold_name (av_fold env) title) name)"

fun linkedin_avatar :: "'r avatar_env \<Rightarrow> person \<Rightarrow> string list \<Rightarrow> exc + avatar_payload option" where
  "linkedin_avatar env p [] = Inr None"
| "linkedin_avatar env p (url # urls) =
     and_then (av_get env url []) (\<lambda>r.
       if rp_status r \<noteq> 200 then linkedin_avatar env p urls
       else (case parse_linkedin_meta env (rp_text r) of
           (Some title, Some pic) \<Rightarrow>
             if \<not> names_person env p title then linkedin_avatar env p urls
             else and_then (download_image env pic) (\<lambda>got.
               (case got of None \<Rightarrow> linkedin_avatar env p urls
                | Some g \<Rightarrow> Inr (Some (payload_of env ''linkedin'' url pic g))))
         | _ \<Rightarrow> linkedin_avatar env p urls))"

definition github_headers :: "string \<Rightarrow> string dict" where
  "github_headers token = [(''Accept'', ''application/vnd.github+json'')]
     @ (if token = [] then [] else [(''Authorization'', ''Bearer '' @ token)])"

definition github_avatar :: "'r avatar_env \<Rightarrow> person \<Rightarrow> exc + avatar_payload option" where
  "github_avatar env p =
     (let handle = (case p_handles p of None \<Rightarrow> [] | Some d \<Rightarrow> (case dget d ''github'' of None \<Rightarrow> [] | Some h \<Rightarrow> h))
      in if handle = [] then Inr None
         else and_then (av_get env (''https://api.github.com/users/'' @ handle) (github_headers (av_token env))) (\<lambda>r.
           if rp_status r \<noteq> 200 then Inr None
           else and_then (rp_json r) (\<lambda>v. and_then (json_get v ''avatar_url'' (PStr [])) (\<lambda>a.
             (let pic = strip (py_str (sv_codec (dv_store (av_disc env))) a);
                  sized = pic @ (if CHR ''?'' \<in> set pic then ''&'' else ''?'') @ ''s=200''
              in if pic = [] then Inr None
                 else and_then (download_image env sized) (\<lambda>got.
                   Inr (map_option (payload_of env ''github'' (''https://github.com/'' @ handle) sized) got)))))))"

section \<open>Fetching and storing\<close>

text \<open>The addresses of the snapshots behind a person's observations that look like a LinkedIn profile.\<close>

definition linkedin_sources :: "world \<Rightarrow> uuid \<Rightarrow> string list" where
  "linkedin_sources w pid =
     fromkeys (map sn_uri (filter (\<lambda>s. contains (lower (sn_uri s)) ''linkedin.com/in/''
       \<and> list_ex (\<lambda>x. ob_subject_id x = Some pid \<and> ob_snapshot_id x = sn_id s) (observations (w_db w))) (w_snapshots w)))"

definition find_avatar :: "'r avatar_env \<Rightarrow> world \<Rightarrow> person \<Rightarrow> exc + avatar_payload option" where
  "find_avatar env w p =
     and_then (select_linkedin_profile_urls env (p_handles p) (linkedin_sources w (p_id p))) (\<lambda>urls.
     and_then (linkedin_avatar env p urls) (\<lambda>found.
       case found of Some a \<Rightarrow> Inr (Some a) | None \<Rightarrow> github_avatar env p))"

definition with_avatar :: "instant \<Rightarrow> avatar_payload \<Rightarrow> person \<Rightarrow> person" where
  "with_avatar now a p = p\<lparr>p_avatar_data := Some (ap_data a), p_avatar_mime_type := Some (ap_mime_type a),
     p_avatar_sha256 := Some (ap_sha256 a), p_avatar_source_type := Some (ap_source_type a),
     p_avatar_source_url := Some (ap_source_url a), p_avatar_image_url := Some (ap_image_url a),
     p_avatar_fetched_at := Some now\<rparr>"

definition fetch_and_store_avatar :: "'r avatar_env \<Rightarrow> person \<Rightarrow> world \<Rightarrow> (exc + avatar_payload option) \<times> world" where
  "fetch_and_store_avatar env p w =
     (case find_avatar env w p of
        Inl e \<Rightarrow> (Inl e, w)
      | Inr None \<Rightarrow> (Inr None, w)
      | Inr (Some a) \<Rightarrow> (Inr (Some a), w\<lparr>w_db := (w_db w)\<lparr>persons :=
          put_row p_id (persons (w_db w)) (with_avatar (sv_now (dv_store (av_disc env))) a p)\<rparr>\<rparr>))"

definition permanent_failure :: "string \<Rightarrow> pyval dict" where
  "permanent_failure why = [(''status'', PStr ''failed''), (''error'', PStr why), (''failure_kind'', PStr ''permanent''),
     (''retryable'', PBool False)]"

text \<open>The job after its start: the result, or the exception that is raised, with the ledger written.\<close>

definition avatar_step :: "'r avatar_env \<Rightarrow> string \<Rightarrow> string option \<Rightarrow> int \<Rightarrow> world \<Rightarrow> (exc + pyval dict) \<times> world" where
  "avatar_step env person_id ledger attempt w =
     (let now = sv_now (dv_store (av_disc env));
          ended = (\<lambda>why status. (Inr [(''person_id'', PStr person_id), (''status'', PStr status)],
            set_job now ledger (failed_update ''avatar'' attempt why (permanent_failure why)) w));
          raised = (\<lambda>e. (Inl e, set_job now ledger (failed_update ''avatar'' attempt (x_text e) (failure_result e)) w))
      in case parse_uuid person_id of
           None \<Rightarrow> raised (dv_bad_uuid (av_disc env))
         | Some pid \<Rightarrow>
             (case get_row p_id (persons (w_db w)) pid of
                None \<Rightarrow> ended ''person_not_found'' ''not_found''
              | Some p \<Rightarrow>
                  if \<not> p_canonical p then ended ''person_not_found'' ''not_found''
                  else (case fetch_and_store_avatar env p w of
                      (Inl e, w1) \<Rightarrow> raised e
                    | (Inr None, w1) \<Rightarrow> ended ''avatar_unavailable'' ''unavailable''
                    | (Inr (Some a), w1) \<Rightarrow>
                        (let res = [(''person_id'', PStr person_id), (''status'', PStr ''completed''),
                               (''source'', PStr (ap_source_type a)), (''bytes'', PInt (int (length (ap_data a))))]
                         in (Inr res, set_job now ledger (progress_update ''succeeded'' ''complete'' (Some attempt) (Some res)) w1)))))"

definition fetch_candidate_avatar_job :: "'r avatar_env \<Rightarrow> string \<Rightarrow> string option \<Rightarrow> world \<Rightarrow> (exc + pyval dict) \<times> world" where
  "fetch_candidate_avatar_job env person_id job_id w0 =
     (let se = dv_store (av_disc env); (ledger, w) = ledger_job se job_id ''fetch_candidate_avatar'' w0
      in case begin_job (sv_now se) ledger ''avatar'' w of
           (Inl row, w1) \<Rightarrow> (Inr (terminal_result w1 row), w1)
         | (Inr attempt, w1) \<Rightarrow> avatar_step env person_id ledger attempt w1)"

section \<open>Properties\<close>

text \<open>What a picture must be to be kept: within the limits, from a host of the list, and of the person.\<close>

definition picture_ok :: "'r avatar_env \<Rightarrow> avatar_payload \<Rightarrow> bool" where
  "picture_ok env a \<longleftrightarrow> ap_data a \<noteq> [] \<and> length (ap_data a) \<le> max_image_bytes \<and> ap_mime_type a \<in> set image_types
     \<and> ap_sha256 a = av_sha env (ap_data a)
     \<and> (\<exists>p. parse_url (av_netloc_ok env) [] (ap_image_url a) = Some p \<and> image_host_ok (hostname_of p))"

definition attributed :: "'r avatar_env \<Rightarrow> person \<Rightarrow> avatar_payload \<Rightarrow> bool" where
  "attributed env p a \<longleftrightarrow>
     (ap_source_type a = ''linkedin'' \<and> (\<exists>r title. av_get env (ap_source_url a) [] = Inr r \<and> rp_status r = 200
        \<and> parse_linkedin_meta env (rp_text r) = (Some title, Some (ap_image_url a)) \<and> names_person env p title))
     \<or> (ap_source_type a = ''github'' \<and> (\<exists>d h. p_handles p = Some d \<and> dget d ''github'' = Some h \<and> h \<noteq> []
        \<and> ap_source_url a = ''https://github.com/'' @ h))"

lemma download_image_ok:
  assumes "download_image env url = Inr (Some g)"
  shows "picture_ok env (payload_of env source source_url url g)"
  using assms by (auto simp: download_image_def picture_ok_def payload_of_def Let_def split: option.splits if_splits
      dest!: and_then_InrD)

lemma linkedin_avatar_ok:
  assumes "linkedin_avatar env p urls = Inr (Some a)"
  shows "picture_ok env a \<and> attributed env p a \<and> ap_source_url a \<in> set urls"
  using assms
proof (induction urls)
  case (Cons url urls)
  from Cons.prems obtain r where r: "av_get env url [] = Inr r" by (auto dest: and_then_InrD)
  show ?case
  proof (cases "rp_status r = 200 \<and> (\<exists>title pic. parse_linkedin_meta env (rp_text r) = (Some title, Some pic)
      \<and> names_person env p title)")
    case False
    with Cons r have "linkedin_avatar env p urls = Inr (Some a)"
      by (auto split: if_splits prod.splits option.splits)
    with Cons.IH show ?thesis by simp
  next
    case True
    then obtain title pic where m: "rp_status r = 200" "parse_linkedin_meta env (rp_text r) = (Some title, Some pic)"
      "names_person env p title" by blast
    with Cons.prems r obtain got where got: "download_image env pic = Inr got" by (auto dest: and_then_InrD)
    show ?thesis
    proof (cases got)
      case None
      with Cons m r got show ?thesis by simp
    next
      case (Some g)
      with Cons.prems m r got have a: "a = payload_of env ''linkedin'' url pic g" by simp
      have "picture_ok env a" using download_image_ok got Some a by blast
      with a m r show ?thesis by (auto simp: attributed_def payload_of_def)
    qed
  qed
qed simp

lemma github_avatar_ok:
  assumes "github_avatar env p = Inr (Some a)"
  shows "picture_ok env a \<and> attributed env p a"
proof -
  obtain d h where h: "p_handles p = Some d" "dget d ''github'' = Some h" "h \<noteq> []"
    using assms by (auto simp: github_avatar_def Let_def split: option.splits if_splits)
  with assms obtain url g where got: "download_image env url = Inr (Some g)" 
    "a = payload_of env ''github'' (''https://github.com/'' @ h) url g"
    by (auto simp: github_avatar_def Let_def split: if_splits dest!: and_then_InrD)
  then have "picture_ok env a" using download_image_ok by blast
  with h got(2) show ?thesis by (auto simp: attributed_def payload_of_def)
qed

lemma find_avatar_ok: "find_avatar env w p = Inr (Some a) \<Longrightarrow> picture_ok env a \<and> attributed env p a"
  using linkedin_avatar_ok github_avatar_ok by (fastforce simp: find_avatar_def split: option.splits dest!: and_then_InrD)

lemma avatar_step_cases:
  assumes "avatar_step env person_id l attempt w = (res, w')"
  obtains (kept) u where "w' = set_job (sv_now (dv_store (av_disc env))) l u w"
  | (stored) pid p a u where "parse_uuid person_id = Some pid" and "get_row p_id (persons (w_db w)) pid = Some p" and "p_canonical p"
      and "find_avatar env w p = Inr (Some a)" and "\<exists>d. res = Inr d \<and> dget d ''status'' = Some (PStr ''completed'')"
      and "w' = set_job (sv_now (dv_store (av_disc env))) l u (w\<lparr>w_db := (w_db w)\<lparr>persons :=
          put_row p_id (persons (w_db w)) (with_avatar (sv_now (dv_store (av_disc env))) a p)\<rparr>\<rparr>)"
  using assms by (auto simp: avatar_step_def fetch_and_store_avatar_def Let_def dget_def split: option.splits sum.splits if_splits)


text \<open>The test of the host compares endings of the name, so a domain that only ends alike passes.\<close>

theorem lookalike_image_host: "image_host_ok ''evil-licdn.com'' \<and> image_host_ok ''mygithubusercontent.com'' \<and> \<not> image_host_ok ''licdn.com.evil.io''"
  by code_simp

section \<open>A sample\<close>

definition sample_avatar_env :: "list_redis avatar_env" where
  "sample_avatar_env = \<lparr>av_disc = sample_disc,
     av_get = (\<lambda>url headers. Inr (if startswith url ''https://api.github.com/''
       then \<lparr>rp_status = 200, rp_json = Inr (PDict [(''avatar_url'', PStr ''https://avatars.githubusercontent.com/u/1'')]), rp_text = [],
          rp_content = [], rp_url = url, rp_headers = []\<rparr>
       else \<lparr>rp_status = 200, rp_json = Inr PNone, rp_text = [], rp_content = ''png'', rp_url = url,
          rp_headers = [(''content-type'', ''image/png'')]\<rparr>)),
     av_tags = (\<lambda>html. []), av_fold = (\<lambda>s. s), av_netloc_ok = (\<lambda>n. True), av_sha = (\<lambda>b. ''digest''), av_token = []\<rparr>"

definition pictured_id :: string where
  "pictured_id = ''00000000-0000-0000-0000-000000000001''"

definition pictured_world :: world where
  "pictured_world = blank_world\<lparr>w_db := empty_db\<lparr>persons :=
     [sample_person\<lparr>p_id := pictured_id, p_handles := Some [(''github'', ''ada'')]\<rparr>]\<rparr>\<rparr>"

lemma pictured_download:
  "download_image sample_avatar_env ''https://avatars.githubusercontent.com/u/1?s=200'' = Inr (Some (''png'', ''image/png''))"
proof -
  have "map_option hostname_of (parse_url (\<lambda>n. True) [] ''https://avatars.githubusercontent.com/u/1?s=200'')
      = Some ''avatars.githubusercontent.com''" by code_simp
  then obtain p where p: "parse_url (\<lambda>n. True) [] ''https://avatars.githubusercontent.com/u/1?s=200'' = Some p"
    "hostname_of p = ''avatars.githubusercontent.com''" by auto
  have "image_host_ok ''avatars.githubusercontent.com''" "lower (fst (cut (CHR '';'') ''image/png'')) = ''image/png''" by code_simp+
  with p show ?thesis
    by (simp add: download_image_def sample_avatar_env_def image_types_def max_image_bytes_def startswith_def)
qed

lemma pictured_run:
  "map p_avatar_data (persons (w_db (snd (fetch_candidate_avatar_job sample_avatar_env pictured_id None pictured_world)))) = [Some ''png'']"
proof -
  let ?p = "sample_person\<lparr>p_id := pictured_id, p_handles := Some [(''github'', ''ada'')]\<rparr>"
  have clean: "strip ''https://avatars.githubusercontent.com/u/1'' = ''https://avatars.githubusercontent.com/u/1''" by code_simp
  obtain a where a: "github_avatar sample_avatar_env ?p = Inr (Some a)" "ap_data a = ''png''"
    using pictured_download
    by (simp add: github_avatar_def sample_avatar_env_def json_get_def get_or_def py_str_def clean payload_of_def Let_def startswith_def)
  have found: "find_avatar sample_avatar_env w ?p = Inr (Some a)" if "w_snapshots w = []" for w
    using a that by (simp add: find_avatar_def linkedin_sources_def select_linkedin_profile_urls_def fromkeys_def Let_def)
  have uuid: "parse_uuid pictured_id = Some pictured_id" by code_simp
  have row: "parse_uuid ''job_runs0'' = None" by code_simp
  have ids: "sv_id (dv_store (av_disc sample_avatar_env)) ''job_runs'' 0 = ''job_runs0''"
    by (simp add: sample_avatar_env_def sample_disc_def sample_store_env_def nat_str.simps digit_char_def) code_simp
  obtain w1 where start: "ledger_job (dv_store (av_disc sample_avatar_env)) None ''fetch_candidate_avatar'' pictured_world
      = (Some ''job_runs0'', w1)" and w1: "w_db w1 = w_db pictured_world" "w_snapshots w1 = []"
    by (simp add: ledger_job_def ids create_job_def pictured_world_def blank_world_def Let_def)
  have begun: "begin_job now (Some ''job_runs0'') ''avatar'' w1 = (Inr 1, w1)" for now
    by (simp add: begin_job_def start_job_def row)
  have person: "get_row p_id [?p] pictured_id = Some ?p" "p_canonical ?p" "p_id ?p = pictured_id"
    "persons (w_db w1) = [?p]"
    by (simp_all add: w1 pictured_world_def blank_world_def get_row_def sample_person_def)
  show ?thesis
    by (simp add: fetch_candidate_avatar_job_def Let_def start begun avatar_step_def uuid person fetch_and_store_avatar_def
        found [OF w1(2)] put_row_def with_avatar_def a(2))
qed


end
