(* ===== verification/Service_Shell.thy ===== *)
theory Service_Shell
  imports Discovery_Jobs Outbox Source_Http
begin

text \<open>
  What surrounds the handlers and jobs: the error envelope of \<^verbatim>\<open>app/main.py\<close> and the request id of
  \<^verbatim>\<open>app/request_context.py\<close>, the probes of \<^verbatim>\<open>app/api/routes/health.py\<close>, the lifecycle contract as a
  response, the table and start of the worker (\<^verbatim>\<open>app/worker.py\<close>), \<^verbatim>\<open>app/agents/outbox_job.py\<close> and
  the settings file of \<^verbatim>\<open>app/collectors/thesis_config.py\<close>. \<open>enc\<close> is FastAPI's \<open>jsonable_encoder\<close>; of
  the headers of a response only those the code sets are kept, with their names in lower case.
\<close>

section \<open>The error envelope\<close>

record http_answer =
  an_status :: nat
  an_body :: pyval
  an_headers :: "string dict"

datatype raised = Http_Raised nat pyval "string dict" | Invalid_Request "pyval dict list" | Raised exc

definition error_messages :: "(nat \<times> string) list" where
  "error_messages =
     [(400, ''The request was invalid.''), (401, ''Authentication is required.''),
      (403, ''You do not have permission to perform this request.''),
      (404, ''The requested resource was not found.''),
      (405, ''The request method is not allowed for this resource.''),
      (409, ''The request conflicts with the current resource state.''),
      (422, ''The request could not be validated.''), (408, ''The request timed out.''),
      (429, ''Too many requests were received.''), (415, ''The request media type is not supported.''),
      (500, ''An internal server error occurred.''), (502, ''An upstream service returned an error.''),
      (503, ''The service is temporarily unavailable.''), (504, ''The service timed out.'')]"

definition error_codes :: "(nat \<times> string) list" where
  "error_codes =
     [(400, ''bad_request''), (401, ''authentication_required''), (403, ''forbidden''), (404, ''not_found''),
      (405, ''method_not_allowed''), (408, ''request_timeout''), (409, ''conflict''), (415, ''unsupported_media_type''),
      (422, ''validation_error''), (429, ''rate_limited''), (500, ''internal_server_error''), (502, ''bad_gateway''),
      (503, ''service_unavailable''), (504, ''gateway_timeout'')]"

definition error_code :: "nat \<Rightarrow> string" where
  "error_code status =
     (case map_of error_codes status of
        Some code \<Rightarrow> code
      | None \<Rightarrow> if 400 \<le> status \<and> status < 500 then ''request_error'' else ''server_error'')"

definition error_message :: "nat \<Rightarrow> string" where
  "error_message status =
     (case map_of error_messages status of
        Some m \<Rightarrow> m
      | None \<Rightarrow> if status < 500 then ''The request could not be completed.'' else ''The service returned an error.'')"

definition retryable_status :: "nat \<Rightarrow> bool" where
  "retryable_status status \<longleftrightarrow> status \<in> {408, 425, 429} \<or> 500 \<le> status"

definition safe_detail :: "nat \<Rightarrow> pyval \<Rightarrow> pyval" where
  "safe_detail status detail =
     (if status = 500 then PStr ''Internal server error''
      else if 500 \<le> status then PStr ''The service is temporarily unavailable.'' else detail)"

definition set_headers :: "string dict \<Rightarrow> string dict \<Rightarrow> string dict" where
  "set_headers hs new = foldl (\<lambda>d (k, v). dset d (lower k) v) hs new"

definition error_response :: "(pyval \<Rightarrow> pyval) \<Rightarrow> string option \<Rightarrow> nat \<Rightarrow> pyval \<Rightarrow> string dict \<Rightarrow> http_answer" where
  "error_response enc request_id status detail headers =
     (let err = [(''version'', PStr ''v1''), (''code'', PStr (error_code status)), (''message'', PStr (error_message status)),
            (''retryable'', PBool (retryable_status status))];
          known = str_truthy request_id
      in \<lparr>an_status = status,
          an_body = PDict [(''version'', PStr ''v1''), (''detail'', enc (safe_detail status detail)),
            (''error'', PDict (if known then err @ [(''request_id'', PStr (the request_id))] else err))],
          an_headers = (let hs = set_headers [] headers in if known then dset hs ''x-request-id'' (the request_id) else hs)\<rparr>)"

definition safe_validation_detail :: "(pyval \<Rightarrow> pyval) \<Rightarrow> pyval dict list \<Rightarrow> pyval" where
  "safe_validation_detail enc errors =
     PList (map (\<lambda>e. PDict [(''loc'', enc (case dget e ''loc'' of Some v \<Rightarrow> v | None \<Rightarrow> PList [])),
       (''type'', case dget e ''type'' of Some v \<Rightarrow> v | None \<Rightarrow> PStr ''validation_error''),
       (''msg'', PStr ''The request field is invalid.'')]) errors)"

definition unhandled_exception :: "(pyval \<Rightarrow> pyval) \<Rightarrow> string option \<Rightarrow> http_answer" where
  "unhandled_exception enc request_id = error_response enc request_id 500 (PStr ''Internal server error'') []"

definition http_exception :: "(pyval \<Rightarrow> pyval) \<Rightarrow> string option \<Rightarrow> raised \<Rightarrow> http_answer" where
  "http_exception enc request_id failure =
     (case failure of
        Http_Raised status detail headers \<Rightarrow> error_response enc request_id status detail headers
      | _ \<Rightarrow> error_response enc request_id 500 (PStr ''Internal server error'') [])"

definition request_validation_exception :: "(pyval \<Rightarrow> pyval) \<Rightarrow> string option \<Rightarrow> raised \<Rightarrow> http_answer" where
  "request_validation_exception enc request_id failure =
     (case failure of
        Invalid_Request errors \<Rightarrow> error_response enc request_id 422 (safe_validation_detail enc errors) []
      | _ \<Rightarrow> error_response enc request_id 422 (PStr ''The request could not be validated.'') [])"

text \<open>
  The middleware around the route. HTTP and validation errors become responses inside it; any other
  exception passes through it to the handler the server calls outside.
\<close>

definition with_request_id :: "string \<Rightarrow> exc + http_answer \<Rightarrow> exc + http_answer" where
  "with_request_id request_id response =
     (case response of Inl e \<Rightarrow> Inl e
      | Inr a \<Rightarrow> Inr (a\<lparr>an_headers := dset (an_headers a) ''x-request-id'' request_id\<rparr>))"

definition handled :: "(pyval \<Rightarrow> pyval) \<Rightarrow> string \<Rightarrow> raised + http_answer \<Rightarrow> exc + http_answer" where
  "handled enc request_id result =
     (case result of
        Inr a \<Rightarrow> Inr a
      | Inl (Raised e) \<Rightarrow> Inl e
      | Inl (Invalid_Request errors) \<Rightarrow> Inr (request_validation_exception enc (Some request_id) (Invalid_Request errors))
      | Inl (Http_Raised status detail headers) \<Rightarrow> Inr (http_exception enc (Some request_id) (Http_Raised status detail headers)))"

definition serve_request :: "(pyval \<Rightarrow> pyval) \<Rightarrow> string \<Rightarrow> raised + http_answer \<Rightarrow> http_answer" where
  "serve_request enc request_id result =
     (case with_request_id request_id (handled enc request_id result) of
        Inr a \<Rightarrow> a
      | Inl e \<Rightarrow> unhandled_exception enc (Some request_id))"

section \<open>Start and end of a process\<close>

text \<open>A release that may raise, and two of them nested in \<open>finally\<close>: the later exception replaces the earlier.\<close>

type_synonym 'w release = "'w \<Rightarrow> exc option \<times> 'w"

definition then_always :: "'w release \<Rightarrow> 'w release \<Rightarrow> 'w release" where
  "then_always a b w = (let (e, w1) = a w; (f, w2) = b w1 in (case f of None \<Rightarrow> e | Some x \<Rightarrow> Some x, w2))"

definition shutdown :: "'w release \<Rightarrow> 'w release \<Rightarrow> 'w release \<Rightarrow> 'w release" where
  "shutdown close_storage close_ai dispose_engine = then_always close_storage (then_always close_ai dispose_engine)"

text \<open>The marker of a running worker, by the moment it expires.\<close>

definition worker_heartbeat :: "instant \<Rightarrow> instant option" where
  "worker_heartbeat now = Some (now + 120 * us_second)"

definition startup :: "'r redis_ops \<Rightarrow> int \<Rightarrow> int \<Rightarrow> instant \<Rightarrow> 'r \<Rightarrow> 'r \<times> instant option" where
  "startup ops tavily_limit agent_limit now r =
     (initialize_agent_budget ops (initialize_tavily_budget ops r tavily_limit) agent_limit, worker_heartbeat now)"

definition worker_functions :: "string list" where
  "worker_functions =
     [''discover_job'', ''collect_job'', ''dispatcher_job'', ''fetch_candidate_avatar_job'', ''recompute_signals_job'',
      ''research_candidate_job'', ''resolve_identities_job'', ''score_candidate_job'', ''generate_memo_job'',
      ''process_candidate_job'', ''advance_pipeline_job'', ''contact_outbound_job'', ''auto_discovery_job'',
      ''process_inbound_pitch_job'', ''dispatch_outbox_job'']"

definition dispatch_outbox_job :: "arq_env \<Rightarrow> instant \<Rightarrow> (string \<Rightarrow> bool) \<Rightarrow> outbox_event list \<Rightarrow> pyval dict \<times> outbox_event list" where
  "dispatch_outbox_job env now locked table =
     (let ((found, dispatched, failed), table') = dispatch_pending_outbox env now locked 50 table
      in ([(''found'', PInt (int found)), (''dispatched'', PInt (int dispatched)), (''failed'', PInt (int failed))], table'))"

section \<open>Probes\<close>

record probes =
  pb_postgres :: "exc option"
  pb_ping :: "exc option"
  pb_heartbeat :: "instant option"
  pb_storage :: "exc option"

definition heartbeat_alive :: "instant \<Rightarrow> instant option \<Rightarrow> bool" where
  "heartbeat_alive now beat = (case beat of None \<Rightarrow> False | Some expires \<Rightarrow> now < expires)"

definition check_redis :: "instant \<Rightarrow> probes \<Rightarrow> exc option" where
  "check_redis now pb =
     (case pb_ping pb of Some e \<Rightarrow> Some e
      | None \<Rightarrow> if heartbeat_alive now (pb_heartbeat pb) then None
                else Some (other_error ''RuntimeError'' ''worker heartbeat is missing''))"

definition run_check :: "string \<Rightarrow> exc option \<Rightarrow> string dict \<times> string list \<Rightarrow> string dict \<times> string list" where
  "run_check name outcome st =
     (case outcome of None \<Rightarrow> (dset (fst st) name ''ok'', snd st) | Some e \<Rightarrow> (fst st, snd st @ [name]))"

definition service_health :: "string \<Rightarrow> pyval" where
  "service_health service = PDict [(''status'', PStr ''ok''), (''service'', PStr service)]"

definition service_readiness :: "instant \<Rightarrow> probes \<Rightarrow> raised + string dict" where
  "service_readiness now pb =
     (let (checks, failures) = run_check ''minio'' (pb_storage pb)
            (run_check ''redis'' (check_redis now pb) (run_check ''postgres'' (pb_postgres pb) ([], [])))
      in if failures \<noteq> []
         then Inl (Http_Raised 503 (PDict [(''status'', PStr ''not_ready''), (''failed_dependencies'', PList (map PStr failures))]) [])
         else Inr checks)"

definition ready_answer :: "instant \<Rightarrow> probes \<Rightarrow> raised + http_answer" where
  "ready_answer now pb =
     (case service_readiness now pb of
        Inl e \<Rightarrow> Inl e
      | Inr checks \<Rightarrow> Inr \<lparr>an_status = 200, an_body = PDict [(''status'', PStr ''ready''),
          (''dependencies'', PDict (map (\<lambda>(k, v). (k, PStr v)) checks))], an_headers = []\<rparr>)"

section \<open>The lifecycle contract as a response\<close>

definition is_str :: "pyval \<Rightarrow> bool" where
  "is_str v = (case v of PStr s \<Rightarrow> True | _ \<Rightarrow> False)"

definition is_str_list :: "pyval \<Rightarrow> bool" where
  "is_str_list v = (case v of PList xs \<Rightarrow> list_all is_str xs | _ \<Rightarrow> False)"

text \<open>The response model refuses unknown fields.\<close>

definition stage_response_ok :: "pyval \<Rightarrow> bool" where
  "stage_response_ok v =
     (case v of
        PDict d \<Rightarrow> list_all (\<lambda>k. case dget d k of Some x \<Rightarrow> is_str x | None \<Rightarrow> False) [''key'', ''label'', ''lane'', ''timestamp_source'']
          \<and> list_all (\<lambda>k. case dget d k of Some x \<Rightarrow> is_str_list x | None \<Rightarrow> False)
              [''entry_requirements'', ''exit_requirements'', ''actors'', ''transitions'']
          \<and> list_all (\<lambda>(k, x). k \<in> set [''key'', ''label'', ''lane'', ''entry_requirements'', ''exit_requirements'', ''actors'',
              ''transitions'', ''timestamp_source'']) d
      | _ \<Rightarrow> False)"

definition contract_response_ok :: "pyval dict \<Rightarrow> bool" where
  "contract_response_ok d =
     ((case dget d ''version'' of Some v \<Rightarrow> is_str v | None \<Rightarrow> False)
      \<and> (case dget d ''stages'' of Some (PList xs) \<Rightarrow> list_all stage_response_ok xs | _ \<Rightarrow> False))"

definition get_lifecycle_contract :: "exc \<Rightarrow> exc + pyval dict" where
  "get_lifecycle_contract invalid = (if contract_response_ok lifecycle_contract then Inr lifecycle_contract else Inl invalid)"

section \<open>The settings file\<close>

record thesis_settings =
  ts_signal_threshold :: real
  ts_collection_concurrency :: int
  ts_tavily_monthly_budget :: int
  ts_arxiv_min_citations :: int
  ts_arxiv_coauthor_cap :: int
  ts_website_seed_cap :: int
  ts_persons_created_per_day :: int

definition thesis_defaults :: "pyval dict" where
  "thesis_defaults =
     [(''signal_threshold'', PFloat 0.45), (''collection_concurrency'', PInt 4), (''tavily_monthly_budget'', PInt 1000),
      (''arxiv_min_citations'', PInt 10), (''arxiv_coauthor_cap'', PInt 20), (''website_seed_cap'', PInt 10),
      (''persons_created_per_day'', PInt 200),
      (''arxiv_categories'', PList (map PStr [''cs.AI'', ''cs.LG'', ''cs.CL'', ''cs.CV'', ''cs.SE'', ''cs.IR'', ''cs.NE'',
         ''cs.RO'', ''stat.ML'']))]"

text \<open>The file, if there is one: what the YAML reader gives, or raises.\<close>

definition load_yaml :: "(exc + pyval) option \<Rightarrow> pyval" where
  "load_yaml yaml = (case yaml of Some (Inr v) \<Rightarrow> v | _ \<Rightarrow> PNone)"

definition pair_item :: "pyval \<Rightarrow> (string \<times> pyval) option" where
  "pair_item x =
     (case x of PList [PStr k, v] \<Rightarrow> Some (k, v) | PStr [a, b] \<Rightarrow> Some ([a], PStr [b]) | _ \<Rightarrow> None)"

text \<open>\<open>config.update(v)\<close>: a dict, or a list of pairs; \<open>bad\<close> is what it raises otherwise.\<close>

definition update_from :: "exc \<Rightarrow> pyval dict \<Rightarrow> pyval \<Rightarrow> exc + pyval dict" where
  "update_from bad d v =
     (case v of
        PDict e \<Rightarrow> Inr (dupdate d e)
      | PList xs \<Rightarrow> (let items = map pair_item xs in if None \<in> set items then Inl bad else Inr (dupdate d (map the items)))
      | _ \<Rightarrow> Inl bad)"

definition settings_items :: "thesis_settings \<Rightarrow> pyval dict" where
  "settings_items st =
     [(''signal_threshold'', PFloat (ts_signal_threshold st)), (''collection_concurrency'', PInt (ts_collection_concurrency st)),
      (''tavily_monthly_budget'', PInt (ts_tavily_monthly_budget st)), (''arxiv_min_citations'', PInt (ts_arxiv_min_citations st)),
      (''arxiv_coauthor_cap'', PInt (ts_arxiv_coauthor_cap st)), (''website_seed_cap'', PInt (ts_website_seed_cap st)),
      (''persons_created_per_day'', PInt (ts_persons_created_per_day st))]"

definition get_thesis_config :: "exc \<Rightarrow> thesis_settings \<Rightarrow> (exc + pyval) option \<Rightarrow> exc + pyval dict" where
  "get_thesis_config bad st yaml =
     (let overrides = load_yaml yaml
      in and_then (update_from bad thesis_defaults (if py_truthy overrides then overrides else PDict []))
           (\<lambda>config. Inr (dupdate config (settings_items st))))"

section \<open>Properties\<close>

definition raised_status :: "raised \<Rightarrow> nat" where
  "raised_status failure = (case failure of Http_Raised status d hs \<Rightarrow> status | Invalid_Request errors \<Rightarrow> 422 | Raised e \<Rightarrow> 500)"

text \<open>What of a validation error may be shown: where it is and of what kind.\<close>

definition shown_error :: "pyval dict \<Rightarrow> pyval dict" where
  "shown_error e = filter (\<lambda>(k, v). k \<in> {''loc'', ''type''}) e"

lemma dget_shown: "k \<in> {''loc'', ''type''} \<Longrightarrow> dget (shown_error e) k = dget e k"
  unfolding shown_error_def by (induction e) (auto simp: dget_def)

lemma shown_errors: "safe_validation_detail enc (map shown_error errors) = safe_validation_detail enc errors"
  by (simp add: safe_validation_detail_def dget_shown)

lemmas serve_request_defs = serve_request_def with_request_id_def handled_def http_exception_def request_validation_exception_def
  unhandled_exception_def error_response_def raised_status_def

text \<open>
  C27. Every failure of a route is answered in the one envelope: the status it asked for (500 for an exception
  nothing handles), the retry flag of that status, and the id of the request in the body and in the header.
  From status 500 on, neither the body nor the retry flag depends on what was raised, and the answer to an
  invalid request depends on the places and kinds of its errors, not on the submitted values or messages.
\<close>

theorem errors_reveal_nothing:
  assumes "request_id \<noteq> []" and "serve_request enc request_id (Inl failure) = a"
  shows "an_status a = raised_status failure \<and> dget (an_headers a) ''x-request-id'' = Some request_id
    \<and> (\<exists>detail. an_body a = PDict [(''version'', PStr ''v1''), (''detail'', detail),
         (''error'', PDict [(''version'', PStr ''v1''), (''code'', PStr (error_code (an_status a))),
           (''message'', PStr (error_message (an_status a))), (''retryable'', PBool (retryable_status (an_status a))),
           (''request_id'', PStr request_id)])])
    \<and> (500 \<le> an_status a \<longrightarrow> (\<forall>other. raised_status other = an_status a \<longrightarrow>
         an_body (serve_request enc request_id (Inl other)) = an_body a))
    \<and> (\<forall>errors. failure = Invalid_Request errors \<longrightarrow> serve_request enc request_id (Inl (Invalid_Request (map shown_error errors))) = a)"
proof -
  have known: "str_truthy (Some request_id)" using assms(1) by simp
  have body: "an_body (serve_request enc request_id (Inl x)) = PDict [(''version'', PStr ''v1''),
      (''detail'', enc (safe_detail (raised_status x)
        (case x of Http_Raised s d hs \<Rightarrow> d | Invalid_Request errors \<Rightarrow> safe_validation_detail enc errors
         | Raised e \<Rightarrow> PStr ''Internal server error''))),
      (''error'', PDict [(''version'', PStr ''v1''), (''code'', PStr (error_code (raised_status x))),
           (''message'', PStr (error_message (raised_status x))), (''retryable'', PBool (retryable_status (raised_status x))),
           (''request_id'', PStr request_id)])]" for x
    using known by (cases x) (simp_all add: serve_request_defs Let_def)
  have status: "an_status a = raised_status failure" and header: "dget (an_headers a) ''x-request-id'' = Some request_id"
    using assms(2) known by (cases failure; auto simp: serve_request_defs Let_def)+
  have alike: "safe_detail s d = safe_detail s d'" if "500 \<le> s" for s d d' using that by (simp add: safe_detail_def)
  have same: "an_body (serve_request enc request_id (Inl other)) = an_body a"
    if "500 \<le> an_status a" "raised_status other = an_status a" for other
  proof -
    have "an_body a = an_body (serve_request enc request_id (Inl failure))" using assms(2) by simp
    then show ?thesis unfolding body using that status alike by metis
  qed
  have shown: "serve_request enc request_id (Inl (Invalid_Request (map shown_error errors))) = a" if "failure = Invalid_Request errors" for errors
    using assms(2) that by (simp add: serve_request_defs shown_errors)
  have "\<exists>detail. an_body a = PDict [(''version'', PStr ''v1''), (''detail'', detail),
         (''error'', PDict [(''version'', PStr ''v1''), (''code'', PStr (error_code (an_status a))),
           (''message'', PStr (error_message (an_status a))), (''retryable'', PBool (retryable_status (an_status a))),
           (''request_id'', PStr request_id)])]"
    using body [of failure] assms(2) status by auto
  with status header same shown show ?thesis by blast
qed

theorem errors_reveal_nothing_witness:
  "an_body (serve_request id ''r1'' (Inl (Raised (other_error ''KeyError'' ''secret''))))
   = an_body (serve_request id ''r1'' (Inl (Http_Raised 500 (PStr ''password'') [])))"
proof -
  have "''r1'' \<noteq> []" by simp
  note e = errors_reveal_nothing [OF this refl, of id "Http_Raised 500 (PStr ''password'') []"]
  have "raised_status (Raised x) = 500" "raised_status (Http_Raised 500 d hs) = 500" for x d hs
    by (simp_all add: raised_status_def)
  with e show ?thesis by (metis order_refl)
qed

text \<open>
  The start of a worker keeps the budgets that are there and sets the missing ones, touches nothing else,
  and for two minutes the readiness probe answers as the other dependencies do: ready with all three of them
  exactly when none fails, else status 503 in the same body whatever failed.
\<close>

theorem worker_start_makes_ready:
  assumes "redis_service ops" and "startup ops tavily_limit agent_limit now r = (r', beat)"
    and "now \<le> t" and "t < now + 120 * us_second" and "pb_heartbeat pb = beat" and "pb_ping pb = None" and "request_id \<noteq> []"
  shows "kv ops r' = (kv ops r)(tavily_budget_key := Some (case kv ops r tavily_budget_key of Some b \<Rightarrow> b | None \<Rightarrow> int_str tavily_limit),
      agent_budget_key := Some (case kv ops r agent_budget_key of Some b \<Rightarrow> b | None \<Rightarrow> int_str agent_limit))
    \<and> zq ops r' = zq ops r
    \<and> (if pb_postgres pb = None \<and> pb_storage pb = None
       then service_readiness t pb = Inr [(''postgres'', ''ok''), (''redis'', ''ok''), (''minio'', ''ok'')]
       else an_status (serve_request enc request_id (ready_answer t pb)) = 503
         \<and> (\<forall>d hs. an_body (serve_request enc request_id (ready_answer t pb)) = an_body (serve_request enc request_id (Inl (Http_Raised 503 d hs)))))"
proof -
  have r': "r' = initialize_agent_budget ops (initialize_tavily_budget ops r tavily_limit) agent_limit"
    and beat: "beat = Some (now + 120 * us_second)"
    using assms(2) by (auto simp: startup_def worker_heartbeat_def)
  have keys: "tavily_budget_key \<noteq> agent_budget_key" by (simp add: tavily_budget_key_def agent_budget_key_def)
  note nx = redis_service.setnx_kv [OF assms(1) budget_keys_not_lane(1)] redis_service.setnx_kv [OF assms(1) budget_keys_not_lane(2)]
  have store: "kv ops r' = (kv ops r)(tavily_budget_key := Some (case kv ops r tavily_budget_key of Some b \<Rightarrow> b | None \<Rightarrow> int_str tavily_limit),
      agent_budget_key := Some (case kv ops r agent_budget_key of Some b \<Rightarrow> b | None \<Rightarrow> int_str agent_limit))"
    unfolding r' initialize_agent_budget_def initialize_tavily_budget_def nx using keys
    by (auto simp: fun_eq_iff split: option.splits)
  have queue: "zq ops r' = zq ops r"
    unfolding r' initialize_agent_budget_def initialize_tavily_budget_def
    using redis_service.setnx_zq [OF assms(1)] by simp
  have redis: "check_redis t pb = None"
    using assms(3-6) beat by (simp add: check_redis_def heartbeat_alive_def)
  have body: "an_body (serve_request enc request_id (Inl (Http_Raised 503 d hs))) = an_body (serve_request enc request_id (Inl (Http_Raised 503 d' hs')))"
    "an_status (serve_request enc request_id (Inl (Http_Raised 503 d hs))) = 503" for d hs d' hs'
    using assms(7) by (simp_all add: serve_request_defs safe_detail_def Let_def)
  have probe: "(if pb_postgres pb = None \<and> pb_storage pb = None
       then service_readiness t pb = Inr [(''postgres'', ''ok''), (''redis'', ''ok''), (''minio'', ''ok'')]
       else \<exists>d hs. ready_answer t pb = Inl (Http_Raised 503 d hs))"
    by (cases "pb_postgres pb"; cases "pb_storage pb")
      (simp_all add: ready_answer_def service_readiness_def run_check_def redis)
  with body have "if pb_postgres pb = None \<and> pb_storage pb = None
       then service_readiness t pb = Inr [(''postgres'', ''ok''), (''redis'', ''ok''), (''minio'', ''ok'')]
       else an_status (serve_request enc request_id (ready_answer t pb)) = 503
         \<and> (\<forall>d hs. an_body (serve_request enc request_id (ready_answer t pb)) = an_body (serve_request enc request_id (Inl (Http_Raised 503 d hs))))"
    by (metis (no_types, lifting))
  with store queue show ?thesis by blast
qed

definition probed :: "exc option \<Rightarrow> instant option \<Rightarrow> probes" where
  "probed storage beat = \<lparr>pb_postgres = None, pb_ping = None, pb_heartbeat = beat, pb_storage = storage\<rparr>"

theorem worker_start_makes_ready_witness:
  "service_readiness 5 (probed None (snd (startup sample_ops 1000 100 0 empty_redis)))
     = Inr [(''postgres'', ''ok''), (''redis'', ''ok''), (''minio'', ''ok'')]
   \<and> an_status (serve_request id ''r1'' (ready_answer 5 (probed (Some (other_error ''S3Error'' [])) (snd (startup sample_ops 1000 100 0 empty_redis))))) = 503
   \<and> kv sample_ops (fst (startup sample_ops 1000 100 0 empty_redis)) agent_budget_key = Some (int_str 100)"
proof -
  let ?s = "startup sample_ops 1000 100 0 empty_redis"
  have args: "?s = (fst ?s, snd ?s)" "(0::int) \<le> 5" "(5::int) < 0 + 120 * us_second" "''r1'' \<noteq> []"
    by (simp_all add: us_second_def)
  have pb: "pb_heartbeat (probed x (snd ?s)) = snd ?s" "pb_ping (probed x (snd ?s)) = None" for x by (simp_all add: probed_def)
  have empty: "kv sample_ops empty_redis agent_budget_key = None"
    by (simp add: kv_def sample_ops_def list_redis_ops_def empty_redis_def dget_def)
  note start = worker_start_makes_ready [OF sample_ops_service args(1-3) pb args(4), of _ id]
  from start [of None] start [of "Some (other_error ''S3Error'' [])"] show ?thesis by (simp add: probed_def empty)
qed

text \<open>
  The configuration of the collectors has the value of the process settings for each of the seven keys they
  share, whatever the file says of them; the file decides the other keys, then the defaults, and a file that
  is missing or cannot be read is no error.
\<close>

theorem thesis_file_decides_the_rest:
  assumes "distinct (map fst e)" and "e \<noteq> []"
  shows "\<exists>c. get_thesis_config bad st (Some (Inr (PDict e))) = Inr c
    \<and> (\<forall>k. dget c k = (case dget (settings_items st) k of Some v \<Rightarrow> Some v
          | None \<Rightarrow> (case dget e k of Some v \<Rightarrow> Some v | None \<Rightarrow> dget thesis_defaults k)))
    \<and> get_thesis_config bad st None = get_thesis_config bad st (Some (Inl failure))
    \<and> get_thesis_config bad st None = Inr (dupdate thesis_defaults (settings_items st))"
proof -
  have keys: "distinct (map fst (settings_items st))" by (simp add: settings_items_def)
  have "get_thesis_config bad st (Some (Inr (PDict e))) = Inr (dupdate (dupdate thesis_defaults e) (settings_items st))"
    using assms(2) by (simp add: get_thesis_config_def load_yaml_def update_from_def and_then_def)
  moreover have "get_thesis_config bad st None = Inr (dupdate thesis_defaults (settings_items st))"
    "get_thesis_config bad st (Some (Inl failure)) = get_thesis_config bad st None"
    by (simp_all add: get_thesis_config_def load_yaml_def update_from_def and_then_def dupdate_def)
  ultimately show ?thesis by (simp add: dget_dupdate [OF keys] dget_dupdate [OF assms(1)] split: option.split)
qed

definition sample_settings :: thesis_settings where
  "sample_settings = \<lparr>ts_signal_threshold = 1 / 2, ts_collection_concurrency = 4, ts_tavily_monthly_budget = 1000,
     ts_arxiv_min_citations = 10, ts_arxiv_coauthor_cap = 20, ts_website_seed_cap = 10, ts_persons_created_per_day = 200\<rparr>"

theorem thesis_file_decides_the_rest_witness:
  "\<exists>c. get_thesis_config (other_error ''ValueError'' []) sample_settings
       (Some (Inr (PDict [(''website_seed_cap'', PInt 99), (''arxiv_categories'', PList [])]))) = Inr c
     \<and> dget c ''website_seed_cap'' = Some (PInt 10) \<and> dget c ''arxiv_categories'' = Some (PList [])"
proof -
  let ?e = "[(''website_seed_cap'', PInt 99), (''arxiv_categories'', PList [])]"
  have "distinct (map fst ?e)" "?e \<noteq> []" by simp_all
  from thesis_file_decides_the_rest [OF this, of "other_error ''ValueError'' []" sample_settings]
  obtain c where c: "get_thesis_config (other_error ''ValueError'' []) sample_settings (Some (Inr (PDict ?e))) = Inr c"
    "\<forall>k. dget c k = (case dget (settings_items sample_settings) k of Some v \<Rightarrow> Some v
          | None \<Rightarrow> (case dget ?e k of Some v \<Rightarrow> Some v | None \<Rightarrow> dget thesis_defaults k))" by blast
  have "dget (settings_items sample_settings) ''website_seed_cap'' = Some (PInt 10)"
    "dget (settings_items sample_settings) ''arxiv_categories'' = None"
    by (simp_all add: settings_items_def sample_settings_def dget_def)
  with c show ?thesis by (simp add: dget_def)
qed

text \<open>Whatever a queued task holds, the job it is turned into is one the worker has, and so is the job of an accepted pitch.\<close>

theorem queued_jobs_are_registered:
  "fst (job_call task) \<in> set worker_functions
   \<and> (\<exists>f \<in> set worker_functions. dget (ob_payload (inbound_outbox_event sub company_name job_id now)) ''job_name'' = Some (PStr f))"
proof
  show "fst (job_call task) \<in> set worker_functions"
    by (simp add: job_call_def worker_functions_def Let_def)
  show "\<exists>f \<in> set worker_functions. dget (ob_payload (inbound_outbox_event sub company_name job_id now)) ''job_name'' = Some (PStr f)"
    by (simp add: inbound_outbox_event_def worker_functions_def dget_def Let_def)
qed

text \<open>The lifecycle contract passes its response model, so the endpoint always answers with it.\<close>

theorem lifecycle_contract_served: "get_lifecycle_contract invalid = Inr lifecycle_contract"
proof -
  have "contract_response_ok lifecycle_contract" by code_simp
  then show ?thesis by (simp add: get_lifecycle_contract_def)
qed

text \<open>At shutdown all three releases run, in order, each in what the one before left.\<close>

lemma shutdown_runs_all: "snd (shutdown a b c w) = snd (c (snd (b (snd (a w)))))"
  by (simp add: shutdown_def then_always_def split: prod.split)

end
