(* ===== verification/Client_Registry.thy ===== *)
theory Client_Registry
  imports Discovery_Jobs
begin

text \<open>
  The registry of provider clients, \<^verbatim>\<open>app/client_lifecycle.py\<close>. Calls interleave where they await: the sections
  under the lock are atomic, and the pass that closes the clients awaits each of them. A client is the
  identity of its object, and so is a factory; what a factory makes and how a client takes its closing are
  inputs of the steps. An event is its number.
\<close>

section \<open>The registry\<close>

record client_key =
  ck_provider :: string
  ck_factory :: nat
  ck_api_key :: string
  ck_base_url :: "string option"
  ck_organization :: "string option"

record registry =
  rg_clients :: "(client_key \<times> nat) list"
  rg_factories :: "((string \<times> nat) \<times> nat) list"
  rg_closing :: bool
  rg_event :: "nat option"

definition empty_registry :: registry where
  "empty_registry = \<lparr>rg_clients = [], rg_factories = [], rg_closing = False, rg_event = None\<rparr>"

definition or_none :: "string option \<Rightarrow> string option" where
  "or_none s = (if str_truthy s then s else None)"

definition openai_key :: "nat \<Rightarrow> string \<Rightarrow> string option \<Rightarrow> string option \<Rightarrow> client_key" where
  "openai_key factory api_key base_url organization =
     \<lparr>ck_provider = ''openai'', ck_factory = factory, ck_api_key = api_key, ck_base_url = or_none base_url,
      ck_organization = or_none organization\<rparr>"

definition tavily_key :: "nat \<Rightarrow> string \<Rightarrow> string option \<Rightarrow> client_key" where
  "tavily_key factory api_key base_url =
     \<lparr>ck_provider = ''tavily'', ck_factory = factory, ck_api_key = api_key, ck_base_url = or_none base_url,
      ck_organization = None\<rparr>"

definition closing_error :: "string \<Rightarrow> exc" where
  "closing_error provider = other_error ''RuntimeError''
     ((if provider = ''openai'' then ''OpenAI'' else ''Tavily'') @ '' client registry is closing'')"

text \<open>\<open>get_openai\<close> and \<open>get_tavily\<close> for their key; \<open>made\<close> is what the factory gives if it is called.\<close>

definition get_client :: "client_key \<Rightarrow> exc + nat \<Rightarrow> registry \<Rightarrow> (exc + nat) \<times> registry" where
  "get_client key made reg =
     (if rg_closing reg then (Inl (closing_error (ck_provider key)), reg)
      else (case map_of (rg_clients reg) key of
          Some c \<Rightarrow> (Inr c, reg)
        | None \<Rightarrow> (case made of
            Inl e \<Rightarrow> (Inl e, reg)
          | Inr c \<Rightarrow>
              (let f = (ck_provider key, ck_factory key)
               in (Inr c, reg\<lparr>rg_clients := rg_clients reg @ [(key, c)],
                     rg_factories := (if f \<in> fst ` set (rg_factories reg) then rg_factories reg
                       else rg_factories reg @ [(f, ck_factory key)])\<rparr>)))))"

definition get_openai :: "nat \<Rightarrow> string \<Rightarrow> string option \<Rightarrow> string option \<Rightarrow> exc + nat \<Rightarrow> registry \<Rightarrow> (exc + nat) \<times> registry" where
  "get_openai factory api_key base_url organization made reg = get_client (openai_key factory api_key base_url organization) made reg"

definition get_tavily :: "nat \<Rightarrow> string \<Rightarrow> string option \<Rightarrow> exc + nat \<Rightarrow> registry \<Rightarrow> (exc + nat) \<times> registry" where
  "get_tavily factory api_key base_url made reg = get_client (tavily_key factory api_key base_url) made reg"

section \<open>Closing\<close>

record close_pass =
  cp_event :: nat
  cp_entries :: "(client_key \<times> nat) list"
  cp_factories :: "((string \<times> nat) \<times> nat) list"
  cp_todo :: "nat list"
  cp_failed :: "nat list"
  cp_error :: "exc option"

datatype closer = Owner close_pass | Waiter nat | Returned "exc option"

datatype close_outcome = No_Close | Closed | Close_Failed exc

record reg_world =
  gw_registry :: registry
  gw_closers :: "closer list"
  gw_finished :: "nat list"
  gw_closed :: "nat list"
  gw_next :: nat

definition open_pass :: "nat \<Rightarrow> registry \<Rightarrow> close_pass" where
  "open_pass ev reg = \<lparr>cp_event = ev, cp_entries = rg_clients reg, cp_factories = rg_factories reg,
     cp_todo = fromkeys (map snd (rg_clients reg)), cp_failed = [], cp_error = None\<rparr>"

definition begin_close :: "reg_world \<Rightarrow> reg_world" where
  "begin_close w =
     (let reg = gw_registry w
      in if rg_closing reg
         then w\<lparr>gw_closers := gw_closers w @ [case rg_event reg of Some ev \<Rightarrow> Waiter ev | None \<Rightarrow> Returned None]\<rparr>
         else w\<lparr>gw_registry := \<lparr>rg_clients = [], rg_factories = [], rg_closing = True, rg_event = Some (gw_next w)\<rparr>,
             gw_closers := gw_closers w @ [Owner (open_pass (gw_next w) reg)], gw_next := gw_next w + 1\<rparr>)"

definition close_next :: "close_outcome \<Rightarrow> close_pass \<Rightarrow> close_pass" where
  "close_next outcome p =
     (case outcome of
        Close_Failed e \<Rightarrow> p\<lparr>cp_todo := tl (cp_todo p), cp_failed := hd (cp_todo p) # cp_failed p,
          cp_error := (case cp_error p of None \<Rightarrow> Some e | Some e0 \<Rightarrow> Some e0)\<rparr>
      | _ \<Rightarrow> p\<lparr>cp_todo := tl (cp_todo p)\<rparr>)"

definition end_close :: "close_pass \<Rightarrow> registry \<Rightarrow> registry" where
  "end_close p reg =
     (let left = filter (\<lambda>(k, c). c \<in> set (cp_failed p)) (cp_entries p);
          used = map (\<lambda>(k, c). (ck_provider k, ck_factory k)) left;
          restored = (if cp_failed p = [] then reg
            else reg\<lparr>rg_clients := left, rg_factories := filter (\<lambda>(f, x). f \<in> set used) (cp_factories p)\<rparr>)
      in restored\<lparr>rg_closing := False, rg_event := None\<rparr>)"

text \<open>
  One step of a process: a request for a client, a call of \<open>close\<close>, the closing of the next client of a pass,
  the end of a pass, the return of a caller that waited for it. A factory gives no client that was closed.
\<close>

inductive reg_step :: "reg_world \<Rightarrow> reg_world \<Rightarrow> bool" where
  get: "(\<forall>c. made = Inr c \<longrightarrow> c \<notin> set (gw_closed w)) \<Longrightarrow>
    reg_step w (w\<lparr>gw_registry := snd (get_client key made (gw_registry w))\<rparr>)"
| start: "reg_step w (begin_close w)"
| attempt: "i < length (gw_closers w) \<Longrightarrow> gw_closers w ! i = Owner p \<Longrightarrow> cp_todo p = c # cs \<Longrightarrow>
    reg_step w (w\<lparr>gw_closers := (gw_closers w)[i := Owner (close_next outcome p)],
      gw_closed := gw_closed w @ (if outcome = Closed then [c] else [])\<rparr>)"
| finish: "i < length (gw_closers w) \<Longrightarrow> gw_closers w ! i = Owner p \<Longrightarrow> cp_todo p = [] \<Longrightarrow>
    reg_step w (w\<lparr>gw_registry := end_close p (gw_registry w), gw_closers := (gw_closers w)[i := Returned (cp_error p)],
      gw_finished := cp_event p # gw_finished w\<rparr>)"
| wake: "i < length (gw_closers w) \<Longrightarrow> gw_closers w ! i = Waiter ev \<Longrightarrow> ev \<in> set (gw_finished w) \<Longrightarrow>
    reg_step w (w\<lparr>gw_closers := (gw_closers w)[i := Returned None]\<rparr>)"

definition fresh_world :: reg_world where
  "fresh_world = \<lparr>gw_registry = empty_registry, gw_closers = [], gw_finished = [], gw_closed = [], gw_next = 0\<rparr>"

section \<open>The invariant\<close>

definition is_owner :: "closer \<Rightarrow> bool" where
  "is_owner x = (case x of Owner p \<Rightarrow> True | _ \<Rightarrow> False)"

lemma is_owner_simps [simp]: "is_owner (Owner p)" "\<not> is_owner (Waiter ev)" "\<not> is_owner (Returned e)"
  by (simp_all add: is_owner_def)

definition pass_ok :: "nat list \<Rightarrow> close_pass \<Rightarrow> bool" where
  "pass_ok shut p \<longleftrightarrow> distinct (cp_todo p) \<and> set (cp_todo p) \<inter> set shut = {} \<and> set (cp_failed p) \<inter> set shut = {}
     \<and> set (cp_todo p) \<inter> set (cp_failed p) = {} \<and> (cp_error p = None \<longleftrightarrow> cp_failed p = [])"

definition reg_ok :: "reg_world \<Rightarrow> bool" where
  "reg_ok w \<longleftrightarrow> distinct (gw_closed w) \<and> snd ` set (rg_clients (gw_registry w)) \<inter> set (gw_closed w) = {}
     \<and> (\<forall>p. Owner p \<in> set (gw_closers w) \<longrightarrow> pass_ok (gw_closed w) p \<and> rg_closing (gw_registry w)
          \<and> rg_event (gw_registry w) = Some (cp_event p) \<and> rg_clients (gw_registry w) = [])
     \<and> length (filter is_owner (gw_closers w)) = (if rg_closing (gw_registry w) then 1 else 0)
     \<and> (\<forall>ev. Waiter ev \<in> set (gw_closers w) \<longrightarrow> ev \<in> set (gw_finished w)
          \<or> rg_closing (gw_registry w) \<and> rg_event (gw_registry w) = Some ev)
     \<and> (rg_closing (gw_registry w) \<longleftrightarrow> rg_event (gw_registry w) \<noteq> None)"

lemma is_ownerE: "is_owner x \<Longrightarrow> (\<And>p. x = Owner p \<Longrightarrow> thesis) \<Longrightarrow> thesis"
  by (cases x) simp_all

text \<open>A list with exactly one member of a kind, and the change of one place of a list.\<close>

lemma sole_member:
  assumes "length (filter P xs) = 1" and "i < length xs" and "P (xs ! i)"
  shows "x \<in> set (xs[i := y]) \<Longrightarrow> x = y \<or> (\<not> P x \<and> x \<in> set xs)"
    and "length (filter P (xs[i := y])) = (if P y then 1 else 0)"
proof -
  have xs: "xs = take i xs @ xs ! i # drop (Suc i) xs" using assms(2) by (rule id_take_nth_drop)
  have "length (filter P (take i xs @ xs ! i # drop (Suc i) xs)) = 1" using assms(1) xs by simp
  then have none: "filter P (take i xs) = []" "filter P (drop (Suc i) xs) = []" using assms(3) by simp_all
  have upd: "xs[i := y] = take i xs @ y # drop (Suc i) xs" using assms(2) by (rule upd_conv_take_nth_drop)
  show "x = y \<or> (\<not> P x \<and> x \<in> set xs)" if "x \<in> set (xs[i := y])"
    using that none unfolding upd by (auto simp: filter_empty_conv dest: in_set_takeD in_set_dropD)
  show "length (filter P (xs[i := y])) = (if P y then 1 else 0)" unfolding upd using none by simp
qed

lemma other_member:
  assumes "i < length xs" and "\<not> P (xs ! i)" and "\<not> P y"
  shows "length (filter P (xs[i := y])) = length (filter P xs)"
proof -
  have "filter P (xs[i := y]) = filter P (take i xs @ y # drop (Suc i) xs)"
    using assms(1) by (simp only: upd_conv_take_nth_drop)
  also have "\<dots> = filter P (take i xs @ xs ! i # drop (Suc i) xs)" using assms(2,3) by simp
  also have "\<dots> = filter P xs" using id_take_nth_drop [OF assms(1)] by simp
  finally show ?thesis by simp
qed

lemma get_client_ok:
  assumes "reg_ok w" and "\<forall>c. made = Inr c \<longrightarrow> c \<notin> set (gw_closed w)"
  shows "reg_ok (w\<lparr>gw_registry := snd (get_client key made (gw_registry w))\<rparr>)"
  using assms by (auto simp: reg_ok_def get_client_def Let_def split: option.splits sum.splits)

lemma begin_close_ok:
  assumes "reg_ok w"
  shows "reg_ok (begin_close w)"
proof (cases "rg_closing (gw_registry w)")
  case True
  then obtain ev where "rg_event (gw_registry w) = Some ev" using assms by (auto simp: reg_ok_def)
  with True assms show ?thesis by (auto simp: reg_ok_def begin_close_def Let_def)
next
  case False
  with assms have none: "filter is_owner (gw_closers w) = []" by (simp add: reg_ok_def)
  then have "Owner p \<notin> set (gw_closers w)" for p by (auto simp: filter_empty_conv)
  moreover have "pass_ok (gw_closed w) (open_pass (gw_next w) (gw_registry w))"
    using assms by (simp add: pass_ok_def open_pass_def reg_ok_def)
  ultimately show ?thesis using False assms none by (auto simp: reg_ok_def begin_close_def Let_def open_pass_def)
qed

lemma owner_at:
  assumes "reg_ok w" and "i < length (gw_closers w)" and "gw_closers w ! i = Owner p"
  shows "pass_ok (gw_closed w) p" and "rg_closing (gw_registry w)" and "rg_event (gw_registry w) = Some (cp_event p)"
    and "rg_clients (gw_registry w) = []" and "length (filter is_owner (gw_closers w)) = 1"
proof -
  have "Owner p \<in> set (gw_closers w)" using assms(2,3) nth_mem by metis
  with assms(1) show "pass_ok (gw_closed w) p" "rg_closing (gw_registry w)" "rg_event (gw_registry w) = Some (cp_event p)"
    "rg_clients (gw_registry w) = []" "length (filter is_owner (gw_closers w)) = 1"
    by (auto simp: reg_ok_def)
qed

lemma attempt_ok:
  assumes "reg_ok w" and "i < length (gw_closers w)" and "gw_closers w ! i = Owner p" and "cp_todo p = c # cs"
  shows "reg_ok (w\<lparr>gw_closers := (gw_closers w)[i := Owner (close_next outcome p)],
      gw_closed := gw_closed w @ (if outcome = Closed then [c] else [])\<rparr>)"
proof -
  note at = owner_at [OF assms(1-3)]
  let ?y = "Owner (close_next outcome p)"
  have owner: "is_owner (gw_closers w ! i)" using assms(3) by simp
  have members: "x = ?y \<or> (\<not> is_owner x \<and> x \<in> set (gw_closers w))" if "x \<in> set ((gw_closers w)[i := ?y])" for x
    using sole_member(1) [OF at(5) assms(2) owner that] .
  have owners: "q = close_next outcome p" if "Owner q \<in> set ((gw_closers w)[i := ?y])" for q
    using members [OF that] by auto
  have waiters: "Waiter ev \<in> set (gw_closers w)" if "Waiter ev \<in> set ((gw_closers w)[i := ?y])" for ev
    using members [OF that] by auto
  have count: "length (filter is_owner ((gw_closers w)[i := ?y])) = 1"
    using sole_member(2) [OF at(5) assms(2) owner, of ?y] by simp
  have pass: "pass_ok (gw_closed w @ (if outcome = Closed then [c] else [])) (close_next outcome p)"
    using at(1) assms(4) by (cases outcome) (auto simp: pass_ok_def close_next_def split: option.splits)
  have event: "cp_event (close_next outcome p) = cp_event p" by (cases outcome) (simp_all add: close_next_def)
  have "c \<notin> set (gw_closed w)" using at(1) assms(4) by (auto simp: pass_ok_def)
  then have dist: "distinct (gw_closed w @ (if outcome = Closed then [c] else []))" using assms(1) by (simp add: reg_ok_def)
  have owned: "pass_ok (gw_closed w @ (if outcome = Closed then [c] else [])) q \<and> cp_event q = cp_event p"
    if "Owner q \<in> set ((gw_closers w)[i := ?y])" for q
    using owners [OF that] pass event by simp
  have waiting: "ev \<in> set (gw_finished w) \<or> cp_event p = ev" if "Waiter ev \<in> set ((gw_closers w)[i := ?y])" for ev
    using waiters [OF that] assms(1) at(3) by (auto simp: reg_ok_def)
  show ?thesis
    unfolding reg_ok_def using dist owned waiting count at(2,3,4) by simp
qed

lemma finish_ok:
  assumes "reg_ok w" and "i < length (gw_closers w)" and "gw_closers w ! i = Owner p" and "cp_todo p = []"
  shows "reg_ok (w\<lparr>gw_registry := end_close p (gw_registry w), gw_closers := (gw_closers w)[i := Returned (cp_error p)],
      gw_finished := cp_event p # gw_finished w\<rparr>)"
proof -
  note at = owner_at [OF assms(1-3)]
  let ?y = "Returned (cp_error p)"
  have owner: "is_owner (gw_closers w ! i)" using assms(3) by simp
  have members: "x = ?y \<or> (\<not> is_owner x \<and> x \<in> set (gw_closers w))" if "x \<in> set ((gw_closers w)[i := ?y])" for x
    using sole_member(1) [OF at(5) assms(2) owner that] .
  have owners: "Owner q \<notin> set ((gw_closers w)[i := ?y])" for q using members by fastforce
  have waiters: "Waiter ev \<in> set (gw_closers w)" if "Waiter ev \<in> set ((gw_closers w)[i := ?y])" for ev
    using members [OF that] by auto
  have count: "length (filter is_owner ((gw_closers w)[i := ?y])) = 0"
    using sole_member(2) [OF at(5) assms(2) owner, of ?y] by simp
  have kept: "snd ` set (rg_clients (end_close p (gw_registry w))) \<inter> set (gw_closed w) = {}"
    using at(1,4) by (auto simp: end_close_def pass_ok_def Let_def)
  have flags: "\<not> rg_closing (end_close p (gw_registry w))" "rg_event (end_close p (gw_registry w)) = None"
    by (simp_all add: end_close_def Let_def)
  have woken: "ev \<in> set (cp_event p # gw_finished w)" if "Waiter ev \<in> set ((gw_closers w)[i := ?y])" for ev
    using waiters [OF that] assms(1) at(3) by (auto simp: reg_ok_def)
  show ?thesis
    unfolding reg_ok_def using assms(1) kept owners count flags woken by (simp add: reg_ok_def)
qed

lemma wake_ok:
  assumes "reg_ok w" and "i < length (gw_closers w)" and "gw_closers w ! i = Waiter ev"
  shows "reg_ok (w\<lparr>gw_closers := (gw_closers w)[i := Returned None]\<rparr>)"
proof -
  have sub: "x \<in> set (gw_closers w)" if "x \<in> set ((gw_closers w)[i := Returned None])" "x \<noteq> Returned None" for x
    using that set_update_subset_insert [of "gw_closers w" i "Returned None"] by auto
  have count: "length (filter is_owner ((gw_closers w)[i := Returned None])) = length (filter is_owner (gw_closers w))"
    using assms(2,3) by (intro other_member) simp_all
  show ?thesis
    unfolding reg_ok_def using assms(1) sub count by (simp add: reg_ok_def) (metis closer.distinct(3,5))
qed

lemma reg_step_ok: "reg_step w w' \<Longrightarrow> reg_ok w \<Longrightarrow> reg_ok w'"
  by (induction rule: reg_step.induct)
    (blast intro: get_client_ok begin_close_ok attempt_ok finish_ok wake_ok)+

lemma reachable_ok: "reg_step\<^sup>*\<^sup>* fresh_world w \<Longrightarrow> reg_ok w"
proof (induction rule: rtranclp_induct)
  case base
  show ?case by (simp add: reg_ok_def fresh_world_def empty_registry_def)
next
  case (step v w)
  then show ?case by (blast intro: reg_step_ok)
qed

section \<open>Properties\<close>

text \<open>
  C13. Whatever the interleaving of requests and shutdowns, no client is closed twice, none is held after it was
  closed, at most one pass runs at a time, and while it runs nothing is handed out.
\<close>

theorem clients_closed_at_most_once:
  assumes "reg_step\<^sup>*\<^sup>* fresh_world w"
  shows "distinct (gw_closed w) \<and> snd ` set (rg_clients (gw_registry w)) \<inter> set (gw_closed w) = {}
    \<and> length (filter is_owner (gw_closers w)) \<le> 1
    \<and> (rg_closing (gw_registry w) \<longrightarrow> rg_clients (gw_registry w) = []
         \<and> (\<forall>key made. get_client key made (gw_registry w) = (Inl (closing_error (ck_provider key)), gw_registry w)))"
proof -
  have ok: "reg_ok w" using assms by (rule reachable_ok)
  have "rg_clients (gw_registry w) = []" if "rg_closing (gw_registry w)"
  proof -
    have "filter is_owner (gw_closers w) \<noteq> []" using ok that by (auto simp: reg_ok_def)
    then obtain x where x: "x \<in> set (gw_closers w)" "is_owner x" by (auto simp: filter_empty_conv)
    from x(2) obtain p where "x = Owner p" by (rule is_ownerE)
    with ok x show ?thesis by (auto simp: reg_ok_def)
  qed
  with ok show ?thesis by (simp add: reg_ok_def get_client_def)
qed

fun weight :: "closer \<Rightarrow> nat" where
  "weight (Owner p) = 2 + length (cp_todo p)"
| "weight (Waiter ev) = 1"
| "weight (Returned e) = 0"

definition load :: "closer list \<Rightarrow> nat" where
  "load xs = sum_list (map weight xs)"

lemma load_update:
  assumes "i < length xs" and "weight y < weight (xs ! i)"
  shows "load (xs[i := y]) < load xs"
proof -
  have "weight (xs ! i) \<le> load xs" using assms(1) by (simp add: load_def member_le_sum_list)
  with assms show ?thesis by (simp add: load_def map_update sum_list_update)
qed

definition returned :: "closer \<Rightarrow> bool" where
  "returned x = (case x of Returned e \<Rightarrow> True | _ \<Rightarrow> False)"

lemma pending_step:
  assumes "reg_ok w" and "\<not> list_all returned (gw_closers w)"
  shows "\<exists>w'. reg_step w w' \<and> load (gw_closers w') < load (gw_closers w) \<and> length (gw_closers w') = length (gw_closers w)"
proof -
  have owner_moves: ?thesis if o: "i < length (gw_closers w)" "gw_closers w ! i = Owner p" for i p
  proof (cases "cp_todo p")
    case Nil
    from reg_step.finish [OF o Nil] o show ?thesis by (intro exI conjI) (assumption | simp add: load_update)+
  next
    case (Cons c cs)
    have "weight (Owner (close_next Closed p)) < weight (gw_closers w ! i)" using o Cons by (simp add: close_next_def)
    with reg_step.attempt [OF o Cons, of Closed] o show ?thesis by (intro exI conjI) (assumption | simp add: load_update)+
  qed
  obtain x where x: "x \<in> set (gw_closers w)" "\<not> returned x" using assms(2) by (auto simp: list_all_iff)
  then obtain i where i: "i < length (gw_closers w)" "gw_closers w ! i = x" by (auto simp: in_set_conv_nth)
  show ?thesis
  proof (cases x)
    case (Owner p)
    with i owner_moves show ?thesis by blast
  next
    case (Returned e)
    with x show ?thesis by (simp add: returned_def)
  next
    case (Waiter ev)
    show ?thesis
    proof (cases "ev \<in> set (gw_finished w)")
      case True
      have "gw_closers w ! i = Waiter ev" using i Waiter by simp
      from reg_step.wake [OF i(1) this True] i Waiter show ?thesis by (intro exI conjI) (assumption | simp add: load_update)+
    next
      case False
      with assms(1) x(1) Waiter have "rg_closing (gw_registry w)" by (auto simp: reg_ok_def)
      then have "filter is_owner (gw_closers w) \<noteq> []" using assms(1) by (auto simp: reg_ok_def)
      then obtain j where j: "j < length (gw_closers w)" "is_owner (gw_closers w ! j)"
        by (auto simp: filter_empty_conv in_set_conv_nth)
      from j(2) obtain p where "gw_closers w ! j = Owner p" by (rule is_ownerE)
      with j(1) owner_moves show ?thesis by blast
    qed
  qed
qed

text \<open>
  C26. From every reachable state the calls of \<open>close\<close> that have begun can all return, without any new call.
\<close>

theorem every_close_returns:
  assumes "reg_step\<^sup>*\<^sup>* fresh_world w"
  shows "\<exists>w'. reg_step\<^sup>*\<^sup>* w w' \<and> list_all returned (gw_closers w') \<and> length (gw_closers w') = length (gw_closers w)"
proof -
  have "reg_ok w \<Longrightarrow> ?thesis"
  proof (induction "load (gw_closers w)" arbitrary: w rule: less_induct)
    case less
    show ?case
    proof (cases "list_all returned (gw_closers w)")
      case False
      with pending_step [OF less(2)] obtain v where v: "reg_step w v" "load (gw_closers v) < load (gw_closers w)"
        "length (gw_closers v) = length (gw_closers w)" by blast
      from less(1) [OF v(2) reg_step_ok [OF v(1) less(2)]] v show ?thesis by (metis converse_rtranclp_into_rtranclp)
    qed auto
  qed
  with reachable_ok [OF assms] show ?thesis by blast
qed

section \<open>A sample\<close>

text \<open>Two clients, two callers that close: the first client refuses and is kept for the next pass.\<close>

definition key_a :: client_key where "key_a = openai_key 1 ''a'' None None"
definition key_b :: client_key where "key_b = tavily_key 2 ''b'' None"

definition closing_run :: "reg_world \<Rightarrow> reg_world list" where
  "closing_run w0 =
     (let w1 = w0\<lparr>gw_registry := snd (get_client key_a (Inr 10) (gw_registry w0))\<rparr>;
          w2 = w1\<lparr>gw_registry := snd (get_client key_b (Inr 20) (gw_registry w1))\<rparr>;
          w3 = begin_close w2;
          w4 = begin_close w3
      in [w1, w2, w3, w4])"

definition two_closers :: reg_world where
  "two_closers = last (closing_run fresh_world)"

lemma two_closers_reached: "reg_step\<^sup>*\<^sup>* fresh_world two_closers"
proof -
  define w1 where "w1 = fresh_world\<lparr>gw_registry := snd (get_client key_a (Inr 10) (gw_registry fresh_world))\<rparr>"
  define w2 where "w2 = w1\<lparr>gw_registry := snd (get_client key_b (Inr 20) (gw_registry w1))\<rparr>"
  have "reg_step fresh_world w1" unfolding w1_def by (rule reg_step.get) (simp add: fresh_world_def)
  moreover have "reg_step w1 w2" unfolding w2_def by (rule reg_step.get) (simp add: w1_def fresh_world_def)
  moreover have "reg_step w2 (begin_close w2)" "reg_step (begin_close w2) (begin_close (begin_close w2))"
    by (rule reg_step.start)+
  moreover have "two_closers = begin_close (begin_close w2)"
    by (simp add: two_closers_def closing_run_def w1_def w2_def Let_def)
  ultimately show ?thesis by (metis converse_rtranclp_into_rtranclp rtranclp.rtrancl_refl)
qed

lemma two_closers_shape:
  "gw_closers two_closers = [Owner \<lparr>cp_event = 0, cp_entries = [(key_a, 10), (key_b, 20)],
     cp_factories = [((''openai'', 1), 1), ((''tavily'', 2), 2)], cp_todo = [10, 20], cp_failed = [], cp_error = None\<rparr>, Waiter 0]"
  "rg_closing (gw_registry two_closers)"
  by code_simp+

theorem clients_closed_at_most_once_witness:
  "rg_closing (gw_registry two_closers) \<and> length (filter is_owner (gw_closers two_closers)) \<le> 1
   \<and> get_client key_a (Inr 30) (gw_registry two_closers) = (Inl (closing_error ''openai''), gw_registry two_closers)"
proof -
  have "ck_provider key_a = ''openai''" by (simp add: key_a_def openai_key_def)
  with clients_closed_at_most_once [OF two_closers_reached] two_closers_shape(2) show ?thesis by metis
qed

theorem every_close_returns_witness:
  "\<exists>w'. reg_step\<^sup>*\<^sup>* two_closers w' \<and> list_all returned (gw_closers w') \<and> length (gw_closers w') = 2"
  using every_close_returns [OF two_closers_reached] by (simp add: two_closers_shape numeral_2_eq_2)

end
