(* ===== verification/Storage_Client.thy ===== *)
theory Storage_Client
  imports Client_Registry
begin

text \<open>
  The life of the object-storage client of \<^verbatim>\<open>app/storage.py\<close>: its making with the bucket, its release, and
  the probe. The sections under the lock are atomic, also the making, which awaits the provider inside it;
  the release awaits the client's exit outside. What the provider answers is an input of a step. An event and
  a client are their numbers.
\<close>

section \<open>The bucket\<close>

text \<open>The answer to a command: done, the code of a client error, or another exception.\<close>

datatype s3_answer = S3_Done | S3_Refused string | S3_Raised exc

record storage_client =
  sc_client :: "nat option"
  sc_bucket_ensured :: bool
  sc_closing :: bool
  sc_event :: "nat option"

definition client_error :: "string \<Rightarrow> exc" where
  "client_error code = other_error ''ClientError'' code"

text \<open>\<open>head\<close> and \<open>create\<close> are the answers to the two commands; the result is the exception and the new flag.\<close>

definition ensure_bucket :: "s3_answer \<Rightarrow> s3_answer \<Rightarrow> bool \<Rightarrow> exc option \<times> bool" where
  "ensure_bucket head create ensured =
     (if ensured then (None, True)
      else (case head of
          S3_Done \<Rightarrow> (None, True)
        | S3_Raised e \<Rightarrow> (Some e, False)
        | S3_Refused code \<Rightarrow>
            if code \<notin> {''404'', ''NoSuchBucket'', ''NotFound''} then (Some (client_error code), False)
            else (case create of
                S3_Done \<Rightarrow> (None, True)
              | S3_Raised e \<Rightarrow> (Some e, False)
              | S3_Refused code' \<Rightarrow>
                  if code' \<noteq> ''BucketAlreadyOwnedByYou'' then (Some (client_error code'), False) else (None, True))))"

section \<open>Making the client\<close>

record storage_setup =
  su_entered :: "exc + nat"
  su_head :: s3_answer
  su_create :: s3_answer

text \<open>The result, the client that was entered and released again, if there is one, and the new state.\<close>

definition get_storage_client :: "storage_setup \<Rightarrow> storage_client \<Rightarrow> (exc + nat) \<times> nat option \<times> storage_client" where
  "get_storage_client su st =
     (if sc_closing st then (Inl (other_error ''RuntimeError'' ''storage client is closing''), None, st)
      else (case sc_client st of
          Some c \<Rightarrow> (Inr c, None, st)
        | None \<Rightarrow> (case su_entered su of
            Inl e \<Rightarrow> (Inl e, None, st)
          | Inr c \<Rightarrow> (case ensure_bucket (su_head su) (su_create su) (sc_bucket_ensured st) of
              (Some e, ensured) \<Rightarrow> (Inl e, Some c, st\<lparr>sc_bucket_ensured := ensured\<rparr>)
            | (None, ensured) \<Rightarrow> (Inr c, None, st\<lparr>sc_client := Some c, sc_bucket_ensured := ensured\<rparr>)))))"

definition check_storage_health :: "storage_setup \<Rightarrow> s3_answer \<Rightarrow> storage_client \<Rightarrow> exc option \<times> storage_client" where
  "check_storage_health su head st =
     (case get_storage_client su st of
        (Inl e, _, st') \<Rightarrow> (Some e, st')
      | (Inr c, _, st') \<Rightarrow> ((case head of S3_Done \<Rightarrow> None | S3_Refused code \<Rightarrow> Some (client_error code) | S3_Raised e \<Rightarrow> Some e), st'))"

section \<open>Releasing it\<close>

record release_pass =
  rp_event :: nat
  rp_client :: "nat option"
  rp_ensured :: bool

datatype releaser = Releasing release_pass | Awaits nat | Left "exc option"

record storage_world =
  sw_state :: storage_client
  sw_releasers :: "releaser list"
  sw_finished :: "nat list"
  sw_entered :: "nat list"
  sw_dropped :: "nat list"
  sw_exited :: "nat list"
  sw_next :: nat

definition begin_release :: "storage_world \<Rightarrow> storage_world" where
  "begin_release w =
     (let st = sw_state w
      in if sc_closing st
         then w\<lparr>sw_releasers := sw_releasers w @ [case sc_event st of Some ev \<Rightarrow> Awaits ev | None \<Rightarrow> Left None]\<rparr>
         else w\<lparr>sw_state := \<lparr>sc_client = None, sc_bucket_ensured = False, sc_closing = True, sc_event = Some (sw_next w)\<rparr>,
             sw_releasers := sw_releasers w @ [Releasing \<lparr>rp_event = sw_next w, rp_client = sc_client st,
               rp_ensured = sc_bucket_ensured st\<rparr>], sw_next := sw_next w + 1\<rparr>)"

definition end_release :: "exc option \<Rightarrow> release_pass \<Rightarrow> storage_client \<Rightarrow> storage_client" where
  "end_release failure p st =
     (let kept = (if failure \<noteq> None \<and> rp_client p \<noteq> None
            then st\<lparr>sc_client := rp_client p, sc_bucket_ensured := rp_ensured p\<rparr> else st)
      in kept\<lparr>sc_closing := False, sc_event := None\<rparr>)"

definition released_client :: "release_pass \<Rightarrow> nat list" where
  "released_client p = (case rp_client p of None \<Rightarrow> [] | Some c \<Rightarrow> [c])"

text \<open>A step: a call that needs the client, the begin and the end of a release, the return of a waiting caller.\<close>

inductive storage_step :: "storage_world \<Rightarrow> storage_world \<Rightarrow> bool" where
  get: "get_storage_client su (sw_state w) = (res, dropped, st') \<Longrightarrow> su_entered su = Inr c \<Longrightarrow> c \<notin> set (sw_entered w) \<Longrightarrow>
    storage_step w (w\<lparr>sw_state := st',
      sw_entered := sw_entered w @ (if sc_closing (sw_state w) \<or> sc_client (sw_state w) \<noteq> None then [] else [c]),
      sw_dropped := sw_dropped w @ (case dropped of None \<Rightarrow> [] | Some d \<Rightarrow> [d])\<rparr>)"
| get_fails: "get_storage_client su (sw_state w) = (res, dropped, st') \<Longrightarrow> su_entered su = Inl e \<Longrightarrow>
    storage_step w (w\<lparr>sw_state := st'\<rparr>)"
| start: "storage_step w (begin_release w)"
| finish: "i < length (sw_releasers w) \<Longrightarrow> sw_releasers w ! i = Releasing p \<Longrightarrow>
    failure = None \<or> rp_client p \<noteq> None \<Longrightarrow>
    storage_step w (w\<lparr>sw_state := end_release failure p (sw_state w), sw_releasers := (sw_releasers w)[i := Left failure],
      sw_finished := rp_event p # sw_finished w,
      sw_exited := sw_exited w @ (if failure = None then released_client p else [])\<rparr>)"
| wake: "i < length (sw_releasers w) \<Longrightarrow> sw_releasers w ! i = Awaits ev \<Longrightarrow> ev \<in> set (sw_finished w) \<Longrightarrow>
    storage_step w (w\<lparr>sw_releasers := (sw_releasers w)[i := Left None]\<rparr>)"

definition fresh_storage :: storage_world where
  "fresh_storage = \<lparr>sw_state = \<lparr>sc_client = None, sc_bucket_ensured = False, sc_closing = False, sc_event = None\<rparr>,
     sw_releasers = [], sw_finished = [], sw_entered = [], sw_dropped = [], sw_exited = [], sw_next = 0\<rparr>"

section \<open>The invariant\<close>

definition is_releasing :: "releaser \<Rightarrow> bool" where
  "is_releasing x = (case x of Releasing p \<Rightarrow> True | _ \<Rightarrow> False)"

lemma is_releasing_simps [simp]: "is_releasing (Releasing p)" "\<not> is_releasing (Awaits ev)" "\<not> is_releasing (Left e)"
  by (simp_all add: is_releasing_def)

lemma is_releasingE: "is_releasing x \<Longrightarrow> (\<And>p. x = Releasing p \<Longrightarrow> thesis) \<Longrightarrow> thesis"
  by (cases x) simp_all

text \<open>A client in use or being released: entered, never left, and made with its bucket.\<close>

definition live_client :: "storage_world \<Rightarrow> nat \<Rightarrow> bool \<Rightarrow> bool" where
  "live_client w c ensured \<longleftrightarrow> c \<in> set (sw_entered w) \<and> c \<notin> set (sw_exited w) \<and> ensured"

definition storage_ok :: "storage_world \<Rightarrow> bool" where
  "storage_ok w \<longleftrightarrow> distinct (sw_exited w) \<and> set (sw_exited w) \<subseteq> set (sw_entered w)
     \<and> (\<forall>c. sc_client (sw_state w) = Some c \<longrightarrow> live_client w c (sc_bucket_ensured (sw_state w)))
     \<and> (\<forall>p. Releasing p \<in> set (sw_releasers w) \<longrightarrow> sc_closing (sw_state w) \<and> sc_event (sw_state w) = Some (rp_event p)
          \<and> sc_client (sw_state w) = None \<and> (\<forall>c. rp_client p = Some c \<longrightarrow> live_client w c (rp_ensured p)))
     \<and> length (filter is_releasing (sw_releasers w)) = (if sc_closing (sw_state w) then 1 else 0)
     \<and> (\<forall>ev. Awaits ev \<in> set (sw_releasers w) \<longrightarrow> ev \<in> set (sw_finished w) \<or> sc_event (sw_state w) = Some ev)
     \<and> (sc_closing (sw_state w) \<longleftrightarrow> sc_event (sw_state w) \<noteq> None)
     \<and> (\<forall>c \<in> set (sw_entered w). c \<in> set (sw_dropped w) \<or> c \<in> set (sw_exited w) \<or> sc_client (sw_state w) = Some c
          \<or> (\<exists>p. Releasing p \<in> set (sw_releasers w) \<and> rp_client p = Some c))"

lemma ensure_bucket_flag: "ensure_bucket head create ensured = (None, b) \<Longrightarrow> b"
  by (auto simp: ensure_bucket_def split: if_splits s3_answer.splits)

lemma get_storage_client_cases:
  assumes "get_storage_client su st = (res, dropped, st')"
  obtains (kept) "st' = st" and "dropped = None" and "sc_closing st \<or> sc_client st \<noteq> None \<or> (\<exists>e. su_entered su = Inl e)"
  | (released) c b where "\<not> sc_closing st" and "sc_client st = None" and "su_entered su = Inr c" and "dropped = Some c"
      and "st' = st\<lparr>sc_bucket_ensured := b\<rparr>"
  | (made) c where "\<not> sc_closing st" and "sc_client st = None" and "su_entered su = Inr c" and "dropped = None"
      and "st' = st\<lparr>sc_client := Some c, sc_bucket_ensured := True\<rparr>"
  using assms
  by (auto simp: get_storage_client_def split: if_splits option.splits sum.splits prod.splits dest: ensure_bucket_flag)

lemma storage_get_ok:
  assumes ok: "storage_ok w" and got: "get_storage_client su (sw_state w) = (res, dropped, st')"
    and c: "su_entered su = Inr c" "c \<notin> set (sw_entered w)"
  shows "storage_ok (w\<lparr>sw_state := st',
      sw_entered := sw_entered w @ (if sc_closing (sw_state w) \<or> sc_client (sw_state w) \<noteq> None then [] else [c]),
      sw_dropped := sw_dropped w @ (case dropped of None \<Rightarrow> [] | Some d \<Rightarrow> [d])\<rparr>)"
proof -
  have new: "c \<notin> set (sw_exited w)" using ok c(2) by (auto simp: storage_ok_def)
  have idle: "Releasing p \<notin> set (sw_releasers w)" if "\<not> sc_closing (sw_state w)" for p
    using ok that by (auto simp: storage_ok_def)
  from got show ?thesis
  proof (cases rule: get_storage_client_cases)
    case kept
    with ok c show ?thesis by (simp add: storage_ok_def live_client_def) 
  next
    case (released d b)
    with ok c idle show ?thesis by (auto simp: storage_ok_def live_client_def)
  next
    case (made d)
    with ok c idle new show ?thesis by (auto simp: storage_ok_def live_client_def)
  qed
qed

lemma begin_release_ok:
  assumes "storage_ok w"
  shows "storage_ok (begin_release w)"
proof (cases "sc_closing (sw_state w)")
  case True
  then obtain ev where "sc_event (sw_state w) = Some ev" using assms by (auto simp: storage_ok_def)
  with True assms show ?thesis by (auto simp: storage_ok_def begin_release_def live_client_def Let_def)
next
  case False
  with assms have none: "filter is_releasing (sw_releasers w) = []" by (simp add: storage_ok_def)
  then have "Releasing p \<notin> set (sw_releasers w)" for p by (auto simp: filter_empty_conv)
  with False assms none show ?thesis by (auto simp: storage_ok_def begin_release_def live_client_def Let_def)
qed

lemma end_release_ok:
  assumes ok: "storage_ok w" and i: "i < length (sw_releasers w)" "sw_releasers w ! i = Releasing p"
    and f: "failure = None \<or> rp_client p \<noteq> None"
  shows "storage_ok (w\<lparr>sw_state := end_release failure p (sw_state w), sw_releasers := (sw_releasers w)[i := Left failure],
      sw_finished := rp_event p # sw_finished w,
      sw_exited := sw_exited w @ (if failure = None then released_client p else [])\<rparr>)"
proof -
  have mem: "Releasing p \<in> set (sw_releasers w)" using i nth_mem by metis
  with ok have at: "sc_closing (sw_state w)" "sc_event (sw_state w) = Some (rp_event p)" "sc_client (sw_state w) = None"
    "\<forall>c. rp_client p = Some c \<longrightarrow> live_client w c (rp_ensured p)" by (auto simp: storage_ok_def)
  with ok have one: "length (filter is_releasing (sw_releasers w)) = 1" by (simp add: storage_ok_def)
  have rel: "is_releasing (sw_releasers w ! i)" using i(2) by simp
  have members: "x = Left failure \<or> (\<not> is_releasing x \<and> x \<in> set (sw_releasers w))"
    if "x \<in> set ((sw_releasers w)[i := Left failure])" for x
    using sole_member(1) [OF one i(1) rel that] .
  have gone: "Releasing q \<notin> set ((sw_releasers w)[i := Left failure])" for q using members by fastforce
  have count: "length (filter is_releasing ((sw_releasers w)[i := Left failure])) = 0"
    using sole_member(2) [OF one i(1) rel, of "Left failure"] by simp
  have sole: "q = p" if "Releasing q \<in> set (sw_releasers w)" for q
  proof (rule ccontr)
    assume "q \<noteq> p"
    with that i have "Releasing q \<in> set ((sw_releasers w)[i := Left failure])"
      by (metis in_set_conv_nth length_list_update nth_list_update_neq releaser.inject(1))
    with gone show False by blast
  qed
  have woken: "ev \<in> set (rp_event p # sw_finished w)" if "Awaits ev \<in> set ((sw_releasers w)[i := Left failure])" for ev
    using members [OF that] ok at(2) by (auto simp: storage_ok_def)
  have flags: "\<not> sc_closing (end_release failure p (sw_state w))" "sc_event (end_release failure p (sw_state w)) = None"
    by (simp_all add: end_release_def Let_def)
  have client: "sc_client (end_release failure p (sw_state w)) = (if failure = None then None else rp_client p)"
    "failure \<noteq> None \<longrightarrow> sc_bucket_ensured (end_release failure p (sw_state w)) = rp_ensured p"
    using at(3) f by (auto simp: end_release_def Let_def)
  have exits: "distinct (sw_exited w @ (if failure = None then released_client p else []))"
    "set (sw_exited w @ (if failure = None then released_client p else [])) \<subseteq> set (sw_entered w)"
    using ok at(4) by (auto simp: storage_ok_def released_client_def live_client_def split: option.splits)
  have place: "c \<in> set (sw_dropped w) \<or> c \<in> set (sw_exited w) \<or> rp_client p = Some c" if "c \<in> set (sw_entered w)" for c
    using ok that at(3) sole by (force simp: storage_ok_def)
  have covered: "c \<in> set (sw_dropped w) \<or> c \<in> set (sw_exited w @ (if failure = None then released_client p else []))
      \<or> sc_client (end_release failure p (sw_state w)) = Some c" if "c \<in> set (sw_entered w)" for c
    using place [OF that] client by (auto simp: released_client_def)
  show ?thesis
    unfolding storage_ok_def using gone count woken flags client exits covered at(4)
    by (auto simp: live_client_def split: if_splits)
qed

lemma wake_release_ok:
  assumes "storage_ok w" and "i < length (sw_releasers w)" and "sw_releasers w ! i = Awaits ev"
  shows "storage_ok (w\<lparr>sw_releasers := (sw_releasers w)[i := Left None]\<rparr>)"
proof -
  have same: "Releasing p \<in> set ((sw_releasers w)[i := Left None]) \<longleftrightarrow> Releasing p \<in> set (sw_releasers w)" for p
    using assms(2,3) by (auto simp: in_set_conv_nth nth_list_update) (metis releaser.distinct(1))
  have less: "Awaits ev' \<in> set (sw_releasers w)" if "Awaits ev' \<in> set ((sw_releasers w)[i := Left None])" for ev'
    using that set_update_subset_insert [of "sw_releasers w" i "Left None"] by auto
  have count: "length (filter is_releasing ((sw_releasers w)[i := Left None])) = length (filter is_releasing (sw_releasers w))"
    using assms(2,3) by (intro other_member) simp_all
  show ?thesis
    using assms(1) less count by (simp add: storage_ok_def live_client_def same)
qed

lemma storage_step_ok: "storage_step w w' \<Longrightarrow> storage_ok w \<Longrightarrow> storage_ok w'"
proof (induction rule: storage_step.induct)
  case (get_fails su w res dropped st' e)
  then have "st' = sw_state w" by (auto elim: get_storage_client_cases)
  with get_fails show ?case by simp
qed (blast intro: storage_get_ok begin_release_ok end_release_ok wake_release_ok)+

lemma storage_reachable_ok: "storage_step\<^sup>*\<^sup>* fresh_storage w \<Longrightarrow> storage_ok w"
proof (induction rule: rtranclp_induct)
  case base
  show ?case by (simp add: storage_ok_def fresh_storage_def)
next
  case (step v w)
  then show ?case by (blast intro: storage_step_ok)
qed

section \<open>Properties\<close>

text \<open>
  C30. However calls and releases interleave: a client that was entered is the one in use, or is being released by
  the one release that runs, or has left, or was given up when its bucket could not be made; the one in use
  never left and has its bucket; no client leaves twice; and while a release runs, no call gets a client.
\<close>

theorem storage_client_never_leaks:
  assumes "storage_step\<^sup>*\<^sup>* fresh_storage w"
  shows "(\<forall>c \<in> set (sw_entered w). c \<in> set (sw_dropped w) \<or> c \<in> set (sw_exited w) \<or> sc_client (sw_state w) = Some c
       \<or> (\<exists>p. Releasing p \<in> set (sw_releasers w) \<and> rp_client p = Some c))
    \<and> (\<forall>c. sc_client (sw_state w) = Some c \<longrightarrow> c \<in> set (sw_entered w) \<and> c \<notin> set (sw_exited w) \<and> sc_bucket_ensured (sw_state w))
    \<and> distinct (sw_exited w) \<and> length (filter is_releasing (sw_releasers w)) \<le> 1
    \<and> (sc_closing (sw_state w) \<longrightarrow> (\<forall>su. \<exists>e. get_storage_client su (sw_state w) = (Inl e, None, sw_state w)))"
  using storage_reachable_ok [OF assms] by (simp add: storage_ok_def live_client_def get_storage_client_def)

section \<open>A sample\<close>

text \<open>A client with a bucket another process has just created; its release fails and the client is kept.\<close>

definition first_setup :: storage_setup where
  "first_setup = \<lparr>su_entered = Inr 7, su_head = S3_Refused ''404'', su_create = S3_Refused ''BucketAlreadyOwnedByYou''\<rparr>"

definition made_storage :: storage_world where
  "made_storage = fresh_storage\<lparr>sw_state := snd (snd (get_storage_client first_setup (sw_state fresh_storage))), sw_entered := [7]\<rparr>"

definition failed_release :: storage_world where
  "failed_release = (let w = begin_release made_storage; p = \<lparr>rp_event = 0, rp_client = Some 7, rp_ensured = True\<rparr>
     in w\<lparr>sw_state := end_release (Some (client_error ''500'')) p (sw_state w), sw_releasers := [Left (Some (client_error ''500''))],
          sw_finished := [0], sw_exited := []\<rparr>)"

lemma made_state: "get_storage_client first_setup (sw_state fresh_storage) = (Inr 7, None,
    \<lparr>sc_client = Some 7, sc_bucket_ensured = True, sc_closing = False, sc_event = None\<rparr>)"
  by (simp add: get_storage_client_def first_setup_def fresh_storage_def ensure_bucket_def)

lemma made_storage_eq: "made_storage = fresh_storage\<lparr>sw_state :=
    \<lparr>sc_client = Some 7, sc_bucket_ensured = True, sc_closing = False, sc_event = None\<rparr>, sw_entered := [7]\<rparr>"
  by (simp only: made_storage_def made_state snd_conv)

lemma failed_release_reached: "storage_step\<^sup>*\<^sup>* fresh_storage failed_release"
proof -
  let ?p = "\<lparr>rp_event = 0, rp_client = Some 7, rp_ensured = True\<rparr>"
  have "su_entered first_setup = Inr 7" "(7::nat) \<notin> set (sw_entered fresh_storage)"
    by (simp_all add: first_setup_def fresh_storage_def)
  from storage_step.get [OF made_state this] have s1: "storage_step fresh_storage made_storage"
    by (simp add: made_storage_eq fresh_storage_def)
  have s2: "storage_step made_storage (begin_release made_storage)" by (rule storage_step.start)
  have "sw_releasers (begin_release made_storage) = [Releasing ?p]" "sw_dropped (begin_release made_storage) = []"
    "sw_exited (begin_release made_storage) = []" "sw_finished (begin_release made_storage) = []"
    by (simp_all add: begin_release_def made_storage_eq fresh_storage_def Let_def)
  with storage_step.finish [of 0 "begin_release made_storage" ?p "Some (client_error ''500'')"]
  have s3: "storage_step (begin_release made_storage) failed_release"
    by (simp add: failed_release_def released_client_def Let_def)
  from s1 s2 s3 show ?thesis by (meson converse_rtranclp_into_rtranclp rtranclp.rtrancl_refl)
qed

theorem storage_client_never_leaks_witness:
  "sc_client (sw_state failed_release) = Some 7 \<and> 7 \<in> set (sw_entered failed_release) \<and> sc_bucket_ensured (sw_state failed_release)"
proof -
  have "sc_client (sw_state failed_release) = Some 7"
    by (simp add: failed_release_def end_release_def begin_release_def made_storage_eq Let_def fresh_storage_def)
  with storage_client_never_leaks [OF failed_release_reached] show ?thesis by blast
qed

end
