(* ===== verification/Data_Migrations.thy ===== *)
theory Data_Migrations
  imports Collection_Store Sla_Clock Domain_Status "HOL-Library.Product_Lexorder"
begin

text \<open>
  The migrations of \<^verbatim>\<open>migrations/versions\<close> that rewrite rows: the stages of outbound deals (007), the trust
  of legacy claims (014), the decision clock of inbound deals (020), the deduplication fingerprints (031).
  The other migrations add tables, columns and constraints, which Schema holds. A column a migration adds is
  one of the row's record; its values before the migration do not matter. The creation times of snapshots
  are an argument.
\<close>

section \<open>Stages, trust and the clock\<close>

definition stages_upgrade :: "opportunity \<Rightarrow> opportunity" where
  "stages_upgrade opp = (if o_source_kind opp = ''outbound'' \<and> o_lifecycle_state opp = ''screening''
     then opp\<lparr>o_lifecycle_state := ''discovered''\<rparr> else opp)"

definition stages_downgrade :: "opportunity \<Rightarrow> opportunity" where
  "stages_downgrade opp = (if o_source_kind opp = ''outbound'' \<and> o_lifecycle_state opp = ''discovered''
     then opp\<lparr>o_lifecycle_state := ''screening''\<rparr> else opp)"

text \<open>The states the check constraints of 007 and 019 admit.\<close>

definition lifecycle_check :: "string list" where
  "lifecycle_check = [''discovered'', ''interesting'', ''investigating'', ''contacted'', ''received'', ''memo_ready'', ''hold'',
     ''approved'', ''closed'', ''screening'', ''triage'', ''diligence'']"

definition trust_upgrade :: "claim \<Rightarrow> claim" where
  "trust_upgrade c = c\<lparr>c_trust_version := Some ''legacy-unknown'', c_trust_score := Some (c_confidence c),
     c_trust_interval := Some (0, 1), c_trust_components := [(''legacy'', PBool True)],
     c_trust_explanation := Some ''Legacy claim without versioned trust inputs.''\<rparr>"

text \<open>The texts of the deadlines carry the offset of the database session.\<close>

definition clock_deadlines :: "int \<Rightarrow> instant \<Rightarrow> deadline dict" where
  "clock_deadlines off created =
     [(''triage'', DlIso (Aware (created + 30 * us_minute) off)),
      (''screening'', DlIso (Aware (created + (3 * us_hour + 30 * us_minute)) off)),
      (''diligence'', DlIso (Aware (created + (17 * us_hour + 30 * us_minute)) off)),
      (''memo'', DlIso (Aware (created + (21 * us_hour + 30 * us_minute)) off)),
      (''human_decision'', DlIso (Aware (created + 24 * us_hour) off))]"

definition clock_columns :: "opportunity \<Rightarrow> opportunity" where
  "clock_columns opp = opp\<lparr>o_received_at := None, o_decision_due_at := None, o_stage_deadlines := [], o_sla_owner := None,
     o_sla_pause_reason := None, o_sla_attainment := Some ''pending'', o_sla_decided_at := None\<rparr>"

definition clock_upgrade :: "int \<Rightarrow> opportunity \<Rightarrow> opportunity" where
  "clock_upgrade off opp0 =
     (let opp = clock_columns opp0
      in if o_source_kind opp = ''inbound'' \<and> o_received_at opp = None
         then opp\<lparr>o_received_at := Some (Aware (o_created_at opp) 0),
                o_decision_due_at := Some (Aware (o_created_at opp + 24 * us_hour) 0),
                o_stage_deadlines := clock_deadlines off (o_created_at opp)\<rparr>
         else opp)"

section \<open>Fingerprints\<close>

definition first_in_group :: "('r \<Rightarrow> 'k) \<Rightarrow> ('r \<Rightarrow> instant \<times> uuid) \<Rightarrow> 'r list \<Rightarrow> 'r \<Rightarrow> bool" where
  "first_in_group key rank rows r = list_all (\<lambda>q. key q = key r \<longrightarrow> rank r \<le> rank q) rows"

definition snapshot_key :: "source_snapshot \<Rightarrow> string \<times> string \<times> string" where
  "snapshot_key s = (sn_uri s, sn_source_type s, sn_content_hash s)"

definition snapshot_key_text :: "source_snapshot \<Rightarrow> string" where
  "snapshot_key_text s = fingerprint_text [Some (sn_uri s), Some (sn_source_type s), Some (sn_content_hash s)]"

definition backfill_snapshots :: "(char list \<Rightarrow> string) \<Rightarrow> (uuid \<Rightarrow> instant) \<Rightarrow> source_snapshot list \<Rightarrow> source_snapshot list" where
  "backfill_snapshots md5 created rows =
     map (\<lambda>s. s\<lparr>sn_fingerprint := if first_in_group snapshot_key (\<lambda>r. (created (sn_id r), sn_id r)) rows s
       then Some (md5 (snapshot_key_text s)) else None\<rparr>) rows"

definition evidence_key :: "observation \<Rightarrow> uuid \<times> uuid option \<times> uuid option \<times> string \<times> string \<times> string" where
  "evidence_key x = (ob_snapshot_id x, ob_subject_id x, ob_opportunity_id x, ob_predicate x, ob_object_value x, ob_extractor_version x)"

definition evidence_key_text :: "observation \<Rightarrow> string" where
  "evidence_key_text x = fingerprint_text [Some (ob_snapshot_id x), ob_subject_id x, ob_opportunity_id x, Some (ob_predicate x),
     Some (ob_object_value x), Some (ob_extractor_version x)]"

definition backfill_observations :: "(char list \<Rightarrow> string) \<Rightarrow> observation list \<Rightarrow> observation list" where
  "backfill_observations md5 rows =
     map (\<lambda>x. x\<lparr>ob_fingerprint := if first_in_group evidence_key (\<lambda>r. (ob_created_at r, ob_id r)) rows x
       then Some (md5 (evidence_key_text x)) else None\<rparr>) rows"

section \<open>Lemmas\<close>

lemma filter_if_Some: "filter (\<lambda>k. k \<noteq> None) (map (\<lambda>r. if P r then Some (f r) else None) rows) = map (\<lambda>r. Some (f r)) (filter P rows)"
  by (induction rows) auto

text \<open>The digests of the first rows of the groups are distinct when a digest tells the group.\<close>

lemma first_digests_distinct:
  assumes "distinct (map rank rows)" and "\<And>r q. r \<in> set rows \<Longrightarrow> q \<in> set rows \<Longrightarrow> digest r = digest q \<Longrightarrow> key r = key q"
  shows "distinct (filter (\<lambda>k. k \<noteq> None) (map (\<lambda>r. if first_in_group key rank rows r then Some (digest r) else None) rows))"
proof -
  have "inj_on (\<lambda>r. Some (digest r)) (set (filter (first_in_group key rank rows) rows))"
  proof (rule inj_onI)
    fix r q
    assume r: "r \<in> set (filter (first_in_group key rank rows) rows)" and q: "q \<in> set (filter (first_in_group key rank rows) rows)"
      and "Some (digest r) = Some (digest q)"
    then have "key r = key q" using assms(2) by simp
    with r q have "rank r \<le> rank q" "rank q \<le> rank r" by (simp_all add: first_in_group_def list_all_iff)
    then have "rank r = rank q" by (rule order.antisym)
    moreover have "inj_on rank (set rows)" using assms(1) by (simp add: distinct_map)
    ultimately show "r = q" using r q by (simp add: inj_on_eq_iff)
  qed
  moreover have "distinct rows" using assms(1) by (simp add: distinct_map)
  ultimately show ?thesis unfolding filter_if_Some by (simp add: distinct_map)
qed

lemma first_exists:
  assumes "r \<in> set rows"
  shows "\<exists>q \<in> set rows. key q = key r \<and> first_in_group key rank rows q"
proof -
  let ?S = "{q \<in> set rows. key q = key r}"
  have "finite (rank ` ?S)" "rank ` ?S \<noteq> {}" using assms by auto
  then obtain q where q: "q \<in> ?S" "rank q = Min (rank ` ?S)" using Min_in by (metis (no_types, lifting) imageE)
  then have "rank q \<le> rank q'" if "q' \<in> ?S" for q' using that by simp
  with q(1) show ?thesis by (auto simp: first_in_group_def list_all_iff)
qed

lemma fingerprint_text_parts:
  "fingerprint_text ps = fingerprint_text qs \<Longrightarrow>
   map (\<lambda>p. case p of None \<Rightarrow> [] | Some s \<Rightarrow> s) ps = map (\<lambda>p. case p of None \<Rightarrow> [] | Some s \<Rightarrow> s) qs"
  using read_fingerprint_text [of ps] read_fingerprint_text [of qs] by simp

lemma snapshot_key_text_inj: "snapshot_key_text s = snapshot_key_text t \<Longrightarrow> snapshot_key s = snapshot_key t"
  unfolding snapshot_key_text_def by (drule fingerprint_text_parts) (simp add: snapshot_key_def)

text \<open>The ids of the key, where there are any, are not empty: they are UUIDs.\<close>

definition ids_present :: "observation \<Rightarrow> bool" where
  "ids_present x \<longleftrightarrow> ob_subject_id x \<noteq> Some [] \<and> ob_opportunity_id x \<noteq> Some []"

lemma evidence_key_text_inj:
  "evidence_key_text x = evidence_key_text y \<Longrightarrow> ids_present x \<Longrightarrow> ids_present y \<Longrightarrow> evidence_key x = evidence_key y"
  unfolding evidence_key_text_def
  by (drule fingerprint_text_parts) (auto simp: evidence_key_def ids_present_def split: option.splits)

section \<open>Properties\<close>

text \<open>
  C31. The backfill of 031 changes nothing but the fingerprints, gives one to some row of every group of equal
  keys and only to rows whose digests differ, so that both unique indexes can be created; a snapshot's is the
  fingerprint its writer would give it.
\<close>

theorem backfill_builds_indexes:
  assumes "distinct (map sn_id snaps)" and "distinct (map ob_id obs)" and "list_all ids_present obs"
    and "inj_on md5 (snapshot_key_text ` set snaps)" and "inj_on md5 (evidence_key_text ` set obs)"
    and "backfill_snapshots md5 created snaps = snaps'" and "backfill_observations md5 obs = obs'"
  shows "unique_index sn_fingerprint snaps' \<and> unique_index ob_fingerprint obs'
    \<and> map (\<lambda>s. s\<lparr>sn_fingerprint := None\<rparr>) snaps' = map (\<lambda>s. s\<lparr>sn_fingerprint := None\<rparr>) snaps
    \<and> map (\<lambda>x. x\<lparr>ob_fingerprint := None\<rparr>) obs' = map (\<lambda>x. x\<lparr>ob_fingerprint := None\<rparr>) obs
    \<and> (\<forall>s \<in> set snaps. \<exists>t \<in> set snaps'. snapshot_key t = snapshot_key s
         \<and> sn_fingerprint t = Some (snapshot_persistence_fingerprint md5 (sn_uri s) (sn_source_type s) (sn_content_hash s)))
    \<and> (\<forall>x \<in> set obs. \<exists>y \<in> set obs'. evidence_key y = evidence_key x \<and> ob_fingerprint y \<noteq> None)"
proof -
  let ?srank = "\<lambda>r. (created (sn_id r), sn_id r)" and ?orank = "\<lambda>r. (ob_created_at r, ob_id r)"
  have sr: "distinct (map ?srank snaps)" and orank: "distinct (map ?orank obs)"
    using assms(1,2) by (auto simp: distinct_map inj_on_def)
  have snaps: "snaps' = map (\<lambda>s. s\<lparr>sn_fingerprint := if first_in_group snapshot_key ?srank snaps s
       then Some (md5 (snapshot_key_text s)) else None\<rparr>) snaps"
    and obs: "obs' = map (\<lambda>x. x\<lparr>ob_fingerprint := if first_in_group evidence_key ?orank obs x
       then Some (md5 (evidence_key_text x)) else None\<rparr>) obs"
    using assms(6,7) by (simp_all add: backfill_snapshots_def backfill_observations_def)
  have "snapshot_key s = snapshot_key t" if "s \<in> set snaps" "t \<in> set snaps" "md5 (snapshot_key_text s) = md5 (snapshot_key_text t)" for s t
    using that assms(4) by (auto dest: inj_onD intro: snapshot_key_text_inj)
  note sindex = first_digests_distinct [where digest = "\<lambda>s. md5 (snapshot_key_text s)", OF sr this]
  have "evidence_key x = evidence_key y" if "x \<in> set obs" "y \<in> set obs" "md5 (evidence_key_text x) = md5 (evidence_key_text y)" for x y
    using that assms(3,5) by (auto simp: list_all_iff dest: inj_onD intro!: evidence_key_text_inj)
  note oindex = first_digests_distinct [where digest = "\<lambda>s. md5 (evidence_key_text s)", OF orank this]
  have "unique_index sn_fingerprint snaps'" "unique_index ob_fingerprint obs'"
    unfolding unique_index_def snaps obs map_map comp_def using sindex oindex by simp_all
  moreover have "map (\<lambda>s. s\<lparr>sn_fingerprint := None\<rparr>) snaps' = map (\<lambda>s. s\<lparr>sn_fingerprint := None\<rparr>) snaps"
    "map (\<lambda>x. x\<lparr>ob_fingerprint := None\<rparr>) obs' = map (\<lambda>x. x\<lparr>ob_fingerprint := None\<rparr>) obs"
    unfolding snaps obs by simp_all
  moreover have "\<exists>t \<in> set snaps'. snapshot_key t = snapshot_key s
         \<and> sn_fingerprint t = Some (snapshot_persistence_fingerprint md5 (sn_uri s) (sn_source_type s) (sn_content_hash s))"
    if s: "s \<in> set snaps" for s
  proof -
    obtain q where q: "q \<in> set snaps" "snapshot_key q = snapshot_key s" "first_in_group snapshot_key ?srank snaps q"
      using first_exists [OF s] by blast
    then show ?thesis unfolding snaps
      by (intro bexI [of _ "q\<lparr>sn_fingerprint := Some (md5 (snapshot_key_text q))\<rparr>"])
        (auto simp: snapshot_key_def snapshot_persistence_fingerprint_def fingerprint_def snapshot_key_text_def image_iff intro!: bexI [of _ q])
  qed
  moreover have "\<exists>y \<in> set obs'. evidence_key y = evidence_key x \<and> ob_fingerprint y \<noteq> None" if x: "x \<in> set obs" for x
  proof -
    obtain q where q: "q \<in> set obs" "evidence_key q = evidence_key x" "first_in_group evidence_key ?orank obs q"
      using first_exists [OF x] by blast
    then show ?thesis unfolding obs
      by (intro bexI [of _ "q\<lparr>ob_fingerprint := Some (md5 (evidence_key_text q))\<rparr>"])
        (auto simp: evidence_key_def image_iff intro!: bexI [of _ q])
  qed
  ultimately show ?thesis by blast
qed

text \<open>
  The key of the writer has one part more, the locator, so the index built over backfilled observations
  refuses none of the writer's rows, not even one that repeats an observation on file.
\<close>

theorem backfill_guards_no_observation:
  assumes "backfill_observations md5 obs = obs'"
    and "ob_fingerprint y = Some (observation_persistence_fingerprint md5 dumps i u v p val ext loc)"
    and "inj md5"
  shows "unique_insert ob_fingerprint y obs' = Some (obs' @ [y])"
proof -
  have "ob_fingerprint x \<noteq> ob_fingerprint y" if "x \<in> set obs'" for x
  proof
    assume "ob_fingerprint x = ob_fingerprint y"
    with assms(2) that obtain q where "md5 (evidence_key_text q) = md5 (fingerprint_text [Some i, u, v, Some p, Some val, Some ext,
        Some (case loc of None \<Rightarrow> [] | Some l \<Rightarrow> dumps (canonical l))])"
      using assms(1) by (auto simp: backfill_observations_def observation_persistence_fingerprint_def fingerprint_def split: if_splits)
    then have "evidence_key_text q = fingerprint_text [Some i, u, v, Some p, Some val, Some ext,
        Some (case loc of None \<Rightarrow> [] | Some l \<Rightarrow> dumps (canonical l))]"
      using assms(3) by (simp add: inj_eq)
    from fingerprint_text_parts [OF this [unfolded evidence_key_text_def]] show False by simp
  qed
  then have "\<not> list_ex (\<lambda>x. ob_fingerprint x = ob_fingerprint y) obs'" by (auto simp: list_ex_iff)
  then show ?thesis by (simp add: unique_insert_def)
qed

text \<open>
  The migrated rows are rows of the program: 020 gives an inbound deal the clock that would have been started
  for it at its creation, and 007 leaves stages its check admits, which are the stages of the contract, none
  of them an outbound deal in screening.
\<close>

theorem migrated_deals_ready:
  assumes "o_source_kind opp = ''inbound''"
  shows "(let m = clock_upgrade off opp; i = initialize_sla (clock_columns opp) (Some (Aware (o_created_at opp) 0)) clock
      in m\<lparr>o_stage_deadlines := []\<rparr> = i\<lparr>o_stage_deadlines := []\<rparr>
         \<and> parsed_deadlines (o_stage_deadlines m) = parsed_deadlines (o_stage_deadlines i))
    \<and> set lifecycle_check = set lifecycle_stages
    \<and> (o_lifecycle_state d \<in> set lifecycle_check \<longrightarrow> o_lifecycle_state (stages_upgrade d) \<in> set lifecycle_check)
    \<and> \<not> (o_source_kind (stages_upgrade d) = ''outbound'' \<and> o_lifecycle_state (stages_upgrade d) = ''screening'')
    \<and> (stages_downgrade (stages_upgrade d) = d \<longleftrightarrow> \<not> (o_source_kind d = ''outbound'' \<and> o_lifecycle_state d = ''discovered''))"
proof -
  have clock: "clock_upgrade off opp = (clock_columns opp)\<lparr>o_received_at := Some (Aware (o_created_at opp) 0),
      o_decision_due_at := Some (Aware (o_created_at opp + 24 * us_hour) 0), o_stage_deadlines := clock_deadlines off (o_created_at opp)\<rparr>"
    using assms by (simp add: clock_upgrade_def clock_columns_def Let_def)
  have start: "initialize_sla (clock_columns opp) (Some (Aware (o_created_at opp) 0)) clock
      = (clock_columns opp)\<lparr>o_received_at := Some (Aware (o_created_at opp) 0),
      o_decision_due_at := Some (Aware (o_created_at opp + 24 * us_hour) 0), o_stage_deadlines := build_stage_deadlines (Aware (o_created_at opp) 0)\<rparr>"
    by (simp add: initialize_sla_def clock_columns_def Let_def sla_total_budget_def sla_stage_budgets_def us_hour_def us_minute_def us_second_def)
  have "parsed_deadlines (clock_deadlines off t) = parsed_deadlines (build_stage_deadlines (Aware t 0))" for t
    by (simp add: parsed_deadlines_def clock_deadlines_def build_stage_deadlines_def sla_stage_budgets_def iso_def Let_def
        us_hour_def us_minute_def us_second_def)
  then have "let m = clock_upgrade off opp; i = initialize_sla (clock_columns opp) (Some (Aware (o_created_at opp) 0)) clock
      in m\<lparr>o_stage_deadlines := []\<rparr> = i\<lparr>o_stage_deadlines := []\<rparr>
         \<and> parsed_deadlines (o_stage_deadlines m) = parsed_deadlines (o_stage_deadlines i)"
    unfolding clock start Let_def by simp
  moreover have "set lifecycle_check = set lifecycle_stages" by code_simp
  moreover have "o_lifecycle_state d \<in> set lifecycle_check \<longrightarrow> o_lifecycle_state (stages_upgrade d) \<in> set lifecycle_check"
    by (simp add: stages_upgrade_def lifecycle_check_def)
  moreover have "\<not> (o_source_kind (stages_upgrade d) = ''outbound'' \<and> o_lifecycle_state (stages_upgrade d) = ''screening'')"
    by (simp add: stages_upgrade_def)
  moreover have "stages_downgrade (stages_upgrade d) = d \<longleftrightarrow> \<not> (o_source_kind d = ''outbound'' \<and> o_lifecycle_state d = ''discovered'')"
    by (cases d) (auto simp: stages_downgrade_def stages_upgrade_def)
  ultimately show ?thesis by blast
qed

section \<open>Samples\<close>

definition twin_snapshots :: "source_snapshot list" where
  "twin_snapshots = [sample_snapshot\<lparr>sn_id := ''a''\<rparr>, sample_snapshot\<lparr>sn_id := ''b''\<rparr>]"

definition filed_observation :: observation where
  "filed_observation = new_observation sample_store_env sample_snapshot (Some ''p1'') None sample_draft 0"

theorem backfill_builds_indexes_witness:
  "unique_index sn_fingerprint (backfill_snapshots id (\<lambda>i. 0) twin_snapshots)
   \<and> unique_index ob_fingerprint (backfill_observations id [filed_observation])
   \<and> length (filter (\<lambda>s. sn_fingerprint s = None) (backfill_snapshots id (\<lambda>i. 0) twin_snapshots)) = 1"
proof -
  have a: "distinct (map sn_id twin_snapshots)" "distinct (map ob_id [filed_observation])" "list_all ids_present [filed_observation]"
    by (simp_all add: twin_snapshots_def ids_present_def filed_observation_def new_observation_def)
  have "length (filter (\<lambda>s. sn_fingerprint s = None) (backfill_snapshots id (\<lambda>i. 0) twin_snapshots)) = 1"
    by (simp add: backfill_snapshots_def twin_snapshots_def first_in_group_def snapshot_key_def)
  with backfill_builds_indexes [OF a inj_on_id inj_on_id refl refl, of "\<lambda>i. 0"] show ?thesis by blast
qed

theorem backfill_guards_no_observation_witness:
  "unique_insert ob_fingerprint filed_observation (backfill_observations id [filed_observation\<lparr>ob_fingerprint := None\<rparr>])
   = Some (backfill_observations id [filed_observation\<lparr>ob_fingerprint := None\<rparr>] @ [filed_observation])"
proof -
  have "sv_md5 sample_store_env = id" by (simp add: sample_store_env_def fun_eq_iff)
  then have "ob_fingerprint filed_observation = Some (observation_persistence_fingerprint id (cx_dumps (sv_codec sample_store_env))
      (sn_id sample_snapshot) (Some ''p1'') None (dr_predicate sample_draft) (dr_object_value sample_draft) (extractor_of sample_snapshot) None)"
    by (simp add: filed_observation_def new_observation_def)
  from backfill_guards_no_observation [OF refl this inj_on_id] show ?thesis .
qed

theorem migrated_deals_ready_witness:
  "o_decision_due_at (clock_upgrade 0 (sample_opportunity\<lparr>o_source_kind := ''inbound'', o_created_at := 5\<rparr>)) = Some (Aware (5 + 24 * us_hour) 0)"
proof -
  let ?o = "sample_opportunity\<lparr>o_source_kind := ''inbound'', o_created_at := 5\<rparr>"
  have "o_source_kind ?o = ''inbound''" by simp
  from migrated_deals_ready [OF this, of 0 0 ?o]
  have "(clock_upgrade 0 ?o)\<lparr>o_stage_deadlines := []\<rparr>
      = (initialize_sla (clock_columns ?o) (Some (Aware (o_created_at ?o) 0)) 0)\<lparr>o_stage_deadlines := []\<rparr>" by (simp only: Let_def)
  then have "o_decision_due_at ((clock_upgrade 0 ?o)\<lparr>o_stage_deadlines := []\<rparr>)
      = o_decision_due_at ((initialize_sla (clock_columns ?o) (Some (Aware (o_created_at ?o) 0)) 0)\<lparr>o_stage_deadlines := []\<rparr>)" by (rule arg_cong)
  moreover have "sla_total_budget = 24 * us_hour" by (simp add: sla_total_budget_def sla_stage_budgets_def us_hour_def us_minute_def us_second_def)
  ultimately show ?thesis by (simp add: initialize_sla_def clock_columns_def Let_def)
qed

end
