(* ===== verification/Spec2Isabelle.thy ===== *)
theory Spec2Isabelle
  imports Opportunity_Service Pipeline_Safety Merge_Persons Reconcile Outbox Outreach_Delivery Memo_Job
    Thesis_Scoring Cron_Jobs Research_Job Deck_Evidence Inbound_Intake Route_Jobs Match_Review Decision_Route
    Outreach_Route Candidate_List Candidate_Read Thesis_Route Arxiv_Source Tavily_Sources
    Avatar_Job Service_Shell Storage_Client Data_Migrations
begin

text \<open>
  A verification development for the Python backend of The VC Brain (src/backend/app).

  The program. Connectors discover seeds on public sources (collectors/jobs.py); a seed taken for a
  person becomes a row of the table persons, its material a snapshot in the object store and observations
  in the database. Signals computed from the observations open a deal (opportunity_service.py) and
  queue deeper collection in Redis (collectors/queue.py), from which the dispatcher starts jobs.
  The pipeline job (agents/lifecycle_job.py) moves deals along the stages of lifecycle.py when the
  output of a stage is on file and the agent budget allows it; the research, scoring and memo jobs
  produce these outputs, reconciliation and identity resolution keep claims and people consistent, and
  the outbox hands jobs to the worker. Every job reports to the ledger of job_ledger.py.

  Theories and code.
  \<^item> Py_Prelude, Py_Text: Python values, dictionaries in insertion order, rows by id, sorting, string
    methods and number formatting; Weights: rounding and weighted means.
  \<^item> Lifecycle, Domain_Status, Schema: lifecycle.py, domain_status.py and the rows and check
    constraints of db/models.py.
  \<^item> Sla_Clock, Opportunity_Service: sla.py and opportunity_service.py.
  \<^item> Redis_Store, Collection_Queue: the Redis commands as a locale with its interpretation on sorted
    sets, collectors/queue.py and the dispatcher of collectors/jobs.py.
  \<^item> Pipeline_Advance, Pipeline_Safety: agents/lifecycle_job.py, handlers and whole runs.
  \<^item> Artifact_Provenance, Reconcile: artifact_provenance.py, processing/reconcile.py.
  \<^item> Matchers, Merge_Persons: identity/matchers.py, identity/merge.py, identity/resolve.py.
  \<^item> Outbox, Job_Ledger, Job_World: outbox.py, job_ledger.py and the state the jobs share.
  \<^item> Outreach_Delivery: outreach_delivery.py.
  \<^item> Privacy_Policy: privacy.py and source_policy.py.
  \<^item> Committee, Scoring_Job: agents/scoring.py, agents/scoring_job.py.
  \<^item> Memo_Agent, Memo_Job, Decision_Proposal: agents/memo.py, agents/memo_job.py, decision_proposal.py.
  \<^item> Thesis_Scoring: scoring/thesis.py.
  \<^item> Connector_Contract: collectors/base.py; Priority: collectors/priority.py and
    activation_priority.py; Collection_Store: collectors/persistence.py, collectors/telemetry.py, the
    snapshot functions of storage.py and the writers of collectors/jobs.py; Signals:
    collectors/signals.py with its selection and storage.
  \<^item> Discovery_Jobs, Discovery_Effects: discover_job and collect_job; Cron_Jobs: recomputing signals,
    identity resolution, automatic discovery; Research_Job: research_candidate_job.
  \<^item> Claim_Dedup, Process_Job: processing/dedup.py, processing/embeddings.py, processing/pipeline_job.py.
  \<^item> Uploads, Inbound_Job: uploads.py, agents/inbound_job.py; Deck_Evidence: what reconciliation and the
    memo job make of the pages of a deck.
  \<^item> Outreach_Drafting: agents/outreach.py, agents/contact_job.py.
  \<^item> Route_Contract: how a request handler ends, LIKE, the people a handler answers for; Inbound_Intake:
    api/routes/inbound.py; Route_Jobs, Match_Review: api/routes/collection.py and the handlers of
    api/routes/candidates.py that queue jobs; Decision_Route, Outreach_Route: the human decision, the
    feedback and the outreach review of api/routes/candidates.py; Candidate_View, Candidate_List,
    Candidate_Read: its read side, from the rows to a candidate, its pages and cursors, drafts and pictures;
    Thesis_Route: api/routes/theses.py.
  \<^item> Source_Http: what the connectors share; Github_Source, Api_Sources, Arxiv_Source, Web_Url,
    Web_Source, Tavily_Sources: the connectors of collectors/sources.
  \<^item> Avatar_Job: collectors/avatars.py and its job; Client_Registry: client_lifecycle.py as a step
    relation of interleaved calls; Storage_Client: the client of storage.py in the same way; Service_Shell: the error envelope of main.py, request_context.py,
    api/routes/health.py, api/routes/lifecycle.py, worker.py and collectors/thesis_config.py.
  \<^item> Data_Migrations: the migrations that rewrite rows (007, 014, 020, 031).

  How the state is modelled. A table is the list of its rows in insertion order, a row a record with
  the columns the modelled code reads or writes; the record db holds the tables, and the records
  world and memo_world add snapshots, objects, watermarks, the ledger, assessments and memos. A handler takes the
  state and returns its result or error with the new state; a rollback returns the state it started
  from. Commits of concurrent writers are arguments (the rivals of the observation and snapshot
  writers, the answer of the lock). Exceptions are values of a sum type.

  What the groups of lemmas show. For each operation there are frame and effect lemmas (which tables
  it touches, how rows grow), an invariant with its preservation (the audit log, the ledger, the
  unique indexes, the budget), and for each job one relation between the states before and after it
  that holds on every branch (run_inv, scored_effect, memo_effect, material_step, research_effect);
  the properties read their statements off these relations. Locales state the contracts of
  Redis, of the object store and of tables with a unique index; each is interpreted on the model. For the
  request handlers the properties are about what they leave behind: served relates the states around a
  queueing request, outreach_step is the step relation of a message from its draft to the provider's events.

  Idealisations. Floats are real numbers and rounding is round half to even on them; instants and
  durations are integers in microseconds; one clock reading serves a run; text is ASCII for case and
  character classes; column widths are not modelled. Digests, UUID generation, the JSON codec, the text of
  floats, the fuzzy matcher, the language model and the HTTP clients are parameters, and the jobs take the
  connectors as parameters too. Nothing is assumed of them except where a theorem says so.

  Fuel. Following the merge chain of a person uses the number of people plus one as fuel;
  follow_chain_total shows that this is enough whenever the chain has no cycle. All other recursions
  terminate by their measure.

  Connectors. An answer of a provider is a function of the request, decoded JSON a Python value; the XML
  and PDF readers, name resolution and the Tavily client are functions too. The website connector gives,
  beside its result, the addresses it requests in their order, so that what it connects to is a statement
  about a list. At most five redirects are followed; the recursion is on the hops that are left.

  Concurrency. A step of Client_Registry and of Storage_Client is one section under the lock or one awaited call; reachable states
  are those of reg_step from fresh_world and of storage_step from fresh_storage, the invariants are reg_ok and
  storage_ok, and the weight of the pending calls falls
  with every step that serves one, so all of them can return.

  Not modelled. The TypeScript frontend; the migrations that only change the schema; seed and import scripts; logging, the middleware of FastAPI for origins, and the times at which Arq runs its jobs.
\<close>

end
